(* ===== verification/Prelude.thy ===== *)
theory Prelude
  imports Main "HOL-Library.Monad_Syntax" "HOL-Library.Code_Target_Nat"
begin

text \<open>
  Shared vocabulary of the development: results with errors as values, the machine-integer
  arithmetic of \<^verbatim>\<open>i64\<close> written out on \<^typ>\<open>int\<close>, byte strings, the reading of SQL
  statements on tables kept as lists of rows, and a generic reachability predicate with the
  locale that turns an inductive invariant into a fact about every reachable state.

  Rust strings are UTF-8 and are modelled as the list of their bytes, so that \<open>length\<close> is
  Rust's \<^verbatim>\<open>len()\<close>. Every character the code treats specially is ASCII, so that working on
  bytes and on code points agree.
\<close>

named_theorems state_defs \<open>definitions of the operations of the components\<close>
named_theorems frame_simps \<open>what an operation leaves unchanged\<close>

section \<open>Results\<close>

text \<open>Rust's \<^verbatim>\<open>Result\<close>: \<open>Inl\<close> is the error, \<open>Inr\<close> the value; \<open>bindR\<close> is the
  \<^verbatim>\<open>?\<close> operator and \<open>traverse\<close> is \<^verbatim>\<open>collect::<Result<Vec<_>>>()\<close>.\<close>

fun bindR :: "'e + 'a \<Rightarrow> ('a \<Rightarrow> 'e + 'b) \<Rightarrow> 'e + 'b" where
  "bindR (Inl e) f = Inl e"
| "bindR (Inr x) f = f x"

fun is_ok :: "'e + 'a \<Rightarrow> bool" where
  "is_ok (Inl _) = False"
| "is_ok (Inr _) = True"

definition ensure :: "bool \<Rightarrow> 'e \<Rightarrow> 'e + unit" where
  "ensure b e = (if b then Inr () else Inl e)"

fun traverse :: "('a \<Rightarrow> 'e + 'b) \<Rightarrow> 'a list \<Rightarrow> 'e + 'b list" where
  "traverse f [] = Inr []"
| "traverse f (x # xs) = bindR (f x) (\<lambda>y. bindR (traverse f xs) (\<lambda>ys. Inr (y # ys)))"

lemma bindR_eq_Inr [simp]: "bindR r f = Inr y \<longleftrightarrow> (\<exists>x. r = Inr x \<and> f x = Inr y)"
  by (cases r) auto

lemma ensure_eq_Inr [simp]: "ensure b e = Inr u \<longleftrightarrow> b"
  by (simp add: ensure_def)

lemma bindR_ensure: "bindR (ensure b e) f = (if b then f () else Inl e)"
  by (simp add: ensure_def)

lemma is_ok_iff: "is_ok r \<longleftrightarrow> (\<exists>x. r = Inr x)"
  by (cases r) auto

lemma traverse_eq_InrD: "traverse f xs = Inr ys \<Longrightarrow> length ys = length xs \<and>
    (\<forall>i < length xs. f (xs ! i) = Inr (ys ! i))"
  by (induction xs arbitrary: ys) (auto simp: nth_Cons split: nat.split)

lemma traverse_all_Inr:
  "(\<And>x. x \<in> set xs \<Longrightarrow> f x = Inr (g x)) \<Longrightarrow> traverse f xs = Inr (map g xs)"
  by (induction xs) auto

section \<open>Machine integers\<close>

definition i64_max :: int where "i64_max = 2 ^ 63 - 1"

definition sat_add :: "int \<Rightarrow> int \<Rightarrow> int" where
  "sat_add a b = max (- (2 ^ 63)) (min i64_max (a + b))"

definition sat_mul :: "int \<Rightarrow> int \<Rightarrow> int" where
  "sat_mul a b = max (- (2 ^ 63)) (min i64_max (a * b))"

lemma i64_max_pos [simp]: "0 < i64_max" "0 \<le> i64_max"
  by (simp_all add: i64_max_def)

lemma sat_add_le: "sat_add a b \<le> i64_max"
  by (simp add: sat_add_def i64_max_def)

lemma sat_add_ge: "0 \<le> a \<Longrightarrow> a \<le> i64_max \<Longrightarrow> 0 \<le> b \<Longrightarrow> a \<le> sat_add a b"
  by (simp add: sat_add_def)

lemma sat_add_gt: "0 \<le> a \<Longrightarrow> a < i64_max \<Longrightarrow> 0 < b \<Longrightarrow> a < sat_add a b"
  by (simp add: sat_add_def)

lemma sat_add_exact: "0 \<le> a \<Longrightarrow> 0 \<le> b \<Longrightarrow> a + b \<le> i64_max \<Longrightarrow> sat_add a b = a + b"
  by (simp add: sat_add_def)

section \<open>Byte strings\<close>

text \<open>The UTF-8 encodings of the code points with the Unicode property White\_Space, which is
  what \<^verbatim>\<open>str::trim\<close> removes.\<close>

definition white_space :: "string list" where
  "white_space =
     [[CHR 0x09], [CHR 0x0A], [CHR 0x0B], [CHR 0x0C], [CHR 0x0D], [CHR 0x20],
      [CHR 0xC2, CHR 0x85], [CHR 0xC2, CHR 0xA0], [CHR 0xE1, CHR 0x9A, CHR 0x80],
      [CHR 0xE2, CHR 0x80, CHR 0x80], [CHR 0xE2, CHR 0x80, CHR 0x81],
      [CHR 0xE2, CHR 0x80, CHR 0x82], [CHR 0xE2, CHR 0x80, CHR 0x83],
      [CHR 0xE2, CHR 0x80, CHR 0x84], [CHR 0xE2, CHR 0x80, CHR 0x85],
      [CHR 0xE2, CHR 0x80, CHR 0x86], [CHR 0xE2, CHR 0x80, CHR 0x87],
      [CHR 0xE2, CHR 0x80, CHR 0x88], [CHR 0xE2, CHR 0x80, CHR 0x89],
      [CHR 0xE2, CHR 0x80, CHR 0x8A], [CHR 0xE2, CHR 0x80, CHR 0xA8],
      [CHR 0xE2, CHR 0x80, CHR 0xA9], [CHR 0xE2, CHR 0x80, CHR 0xAF],
      [CHR 0xE2, CHR 0x81, CHR 0x9F], [CHR 0xE3, CHR 0x80, CHR 0x80]]"

definition leading_space :: "string \<Rightarrow> string option" where
  "leading_space s = find (\<lambda>w. take (length w) s = w) white_space"

lemma white_space_nonempty: "w \<in> set white_space \<Longrightarrow> w \<noteq> []"
  by (auto simp: white_space_def)

lemma leading_space_SomeD: "leading_space s = Some w \<Longrightarrow> w \<noteq> [] \<and> s \<noteq> []"
proof -
  assume "leading_space s = Some w"
  then have "w \<in> set white_space" and "take (length w) s = w"
    by (auto simp: leading_space_def find_Some_iff)
  with white_space_nonempty show ?thesis by fastforce
qed

text \<open>\<open>blank s\<close> is \<^verbatim>\<open>s.trim().is_empty()\<close>.\<close>

function blank :: "string \<Rightarrow> bool" where
  "blank s = (case leading_space s of None \<Rightarrow> s = [] | Some w \<Rightarrow> blank (drop (length w) s))"
  by pat_completeness auto
termination
  by (relation "measure length") (auto dest!: leading_space_SomeD)

declare blank.simps [simp del]

lemma blank_Nil [simp]: "blank []"
  using leading_space_SomeD [of "[]"]
  by (subst blank.simps) (auto split: option.split)

text \<open>\<^verbatim>\<open>rsplit_once(c)\<close>, of which the code uses the second half.\<close>

definition after_last :: "char \<Rightarrow> string \<Rightarrow> string option" where
  "after_last c s = (if c \<in> set s then Some (rev (takeWhile (\<lambda>x. x \<noteq> c) (rev s))) else None)"

lemma after_last_free: "after_last c s = Some t \<Longrightarrow> c \<notin> set t"
  by (auto simp: after_last_def dest: set_takeWhileD split: if_splits)

text \<open>\<^verbatim>\<open>split(c)\<close> on one separator character, and \<^verbatim>\<open>join\<close> with it.\<close>

fun split_on :: "char \<Rightarrow> string \<Rightarrow> string list" where
  "split_on c [] = [[]]"
| "split_on c (x # xs) =
     (if x = c then [] # split_on c xs
      else (case split_on c xs of [] \<Rightarrow> [[x]] | s # ss \<Rightarrow> (x # s) # ss))"

fun join_with :: "string \<Rightarrow> string list \<Rightarrow> string" where
  "join_with d [] = []"
| "join_with d [s] = s"
| "join_with d (s # t # ss) = s @ d @ join_with d (t # ss)"

lemma split_on_nonempty [simp]: "split_on c s \<noteq> []"
  by (induction s) (auto split: list.split)

lemma split_on_free: "c \<notin> set s \<Longrightarrow> split_on c s = [s]"
  by (induction s) auto

lemma split_on_append:
  "c \<notin> set s \<Longrightarrow> split_on c (s @ c # t) = s # split_on c t"
  by (induction s) auto

lemma split_on_join:
  "ss \<noteq> [] \<Longrightarrow> (\<And>s. s \<in> set ss \<Longrightarrow> c \<notin> set s) \<Longrightarrow> split_on c (join_with [c] ss) = ss"
  by (induction "[c]" ss rule: join_with.induct) (auto simp: split_on_free split_on_append)

lemma join_split_on: "join_with [c] (split_on c s) = s"
proof (induction s)
  case (Cons x s)
  then show ?case by (cases "split_on c s") (auto, (cases "tl (split_on c s)", auto)+)
qed simp

lemma split_on_pieces_free: "t \<in> set (split_on c s) \<Longrightarrow> c \<notin> set t"
  by (induction s arbitrary: t) (auto split: if_splits list.splits)

section \<open>SQL statements on tables\<close>

text \<open>A table is the list of its rows in insertion order. \<open>sql_update p f\<close> reads
  \<^verbatim>\<open>UPDATE .. SET f WHERE p\<close>, \<open>sql_first k p\<close> reads
  \<^verbatim>\<open>SELECT .. WHERE p ORDER BY k LIMIT 1\<close>, and \<open>filter\<close>, \<open>list_ex\<close> and \<open>sort_key\<close>
  read the other selections.\<close>

definition sql_update :: "('r \<Rightarrow> bool) \<Rightarrow> ('r \<Rightarrow> 'r) \<Rightarrow> 'r list \<Rightarrow> 'r list" where
  "sql_update p f t = map (\<lambda>r. if p r then f r else r) t"

definition sql_changed :: "('r \<Rightarrow> bool) \<Rightarrow> 'r list \<Rightarrow> nat" where
  "sql_changed p t = length (filter p t)"

fun sql_first :: "('r \<Rightarrow> 'k::linorder) \<Rightarrow> ('r \<Rightarrow> bool) \<Rightarrow> 'r list \<Rightarrow> 'r option" where
  "sql_first k p [] = None"
| "sql_first k p (r # t) =
     (case sql_first k p t of
        None \<Rightarrow> if p r then Some r else None
      | Some s \<Rightarrow> if p r \<and> k r \<le> k s then Some r else Some s)"

lemma sql_update_Nil [simp]: "sql_update p f [] = []"
  by (simp add: sql_update_def)

lemma sql_update_length [simp]: "length (sql_update p f t) = length t"
  by (simp add: sql_update_def)

lemma set_sql_update: "set (sql_update p f t) = (\<lambda>r. if p r then f r else r) ` set t"
  by (simp add: sql_update_def)

lemma sql_update_map_frame:
  "(\<And>r. p r \<Longrightarrow> g (f r) = g r) \<Longrightarrow> map g (sql_update p f t) = map g t"
  by (simp add: sql_update_def)

lemma sql_update_none: "(\<And>r. r \<in> set t \<Longrightarrow> \<not> p r) \<Longrightarrow> sql_update p f t = t"
  by (induction t) (auto simp: sql_update_def)

lemma sql_first_None: "sql_first k p t = None \<longleftrightarrow> (\<forall>r \<in> set t. \<not> p r)"
  by (induction t) (auto split: option.splits if_splits)

lemma sql_first_SomeD:
  "sql_first k p t = Some r \<Longrightarrow> r \<in> set t \<and> p r \<and> (\<forall>s \<in> set t. p s \<longrightarrow> k r \<le> k s)"
  by (induction t arbitrary: r) (fastforce simp: sql_first_None split: option.splits if_splits)+

text \<open>A key column of a table determines its row.\<close>

lemma distinct_map_unique:
  "distinct (map k t) \<Longrightarrow> r \<in> set t \<Longrightarrow> s \<in> set t \<Longrightarrow> k r = k s \<Longrightarrow> r = s"
  by (auto simp: distinct_map inj_on_def)

lemma find_distinct_key:
  "distinct (map k t) \<Longrightarrow> r \<in> set t \<Longrightarrow> find (\<lambda>s. k s = k r) t = Some r"
  by (induction t) (auto simp: image_iff)

lemma find_append:
  "find p (xs @ ys) = (case find p xs of None \<Rightarrow> find p ys | Some x \<Rightarrow> Some x)"
  by (induction xs) auto

lemma find_key_SomeD: "find (\<lambda>s. k s = x) t = Some r \<Longrightarrow> r \<in> set t \<and> k r = x"
  by (auto simp: find_Some_iff)

section \<open>Reachability and invariants\<close>

inductive reach :: "('s \<Rightarrow> bool) \<Rightarrow> ('s \<Rightarrow> 's \<Rightarrow> bool) \<Rightarrow> 's \<Rightarrow> bool"
  for start :: "'s \<Rightarrow> bool" and step :: "'s \<Rightarrow> 's \<Rightarrow> bool" where
  reach_start: "start s \<Longrightarrow> reach start step s"
| reach_step: "reach start step s \<Longrightarrow> step s t \<Longrightarrow> reach start step t"

text \<open>The contract between a state machine and its invariant: the machine's starts satisfy it
  and its steps keep it.\<close>

locale inductive_invariant =
  fixes start :: "'s \<Rightarrow> bool"
    and step :: "'s \<Rightarrow> 's \<Rightarrow> bool"
    and invar :: "'s \<Rightarrow> bool"
  assumes start_invar: "start s \<Longrightarrow> invar s"
    and step_invar: "invar s \<Longrightarrow> step s t \<Longrightarrow> invar t"
begin

lemma reach_invar: "reach start step s \<Longrightarrow> invar s"
  by (induction rule: reach.induct) (auto intro: start_invar step_invar)

lemma rtranclp_invar: "step\<^sup>*\<^sup>* s t \<Longrightarrow> invar s \<Longrightarrow> invar t"
  by (induction rule: rtranclp_induct) (auto intro: step_invar)

end

end
