(* ===== verification/Json.thy ===== *)
theory Json
  imports Prelude "HOL-Library.AList"
begin

text \<open>
  The values of \<^verbatim>\<open>serde_json::Value\<close> that the ledger events carry, with the accessors the
  code applies to them. An object is the association list of its members with one entry per key;
  \<open>obj_insert\<close> is \<^verbatim>\<open>Map::insert\<close>, which replaces. A number is an integer or, for any other
  number, its literal: \<^verbatim>\<open>as_i64\<close> and \<^verbatim>\<open>as_u64\<close> are \<open>None\<close> on the latter.
\<close>

datatype json =
    JNull
  | JBool bool
  | JInt int
  | JFloat string
  | JStr string
  | JArr "json list"
  | JObj "(string \<times> json) list"

type_synonym json_object = "(string \<times> json) list"

definition obj_get :: "json_object \<Rightarrow> string \<Rightarrow> json option" where
  "obj_get ob k = map_of ob k"

definition obj_insert :: "string \<Rightarrow> json \<Rightarrow> json_object \<Rightarrow> json_object" where
  "obj_insert k v ob = AList.update k v ob"

fun as_str :: "json \<Rightarrow> string option" where
  "as_str (JStr s) = Some s"
| "as_str _ = None"

fun as_i64 :: "json \<Rightarrow> int option" where
  "as_i64 (JInt i) = (if - (2 ^ 63) \<le> i \<and> i \<le> i64_max then Some i else None)"
| "as_i64 _ = None"

fun as_u64 :: "json \<Rightarrow> nat option" where
  "as_u64 (JInt i) = (if 0 \<le> i \<and> i < 2 ^ 64 then Some (nat i) else None)"
| "as_u64 _ = None"

fun as_array :: "json \<Rightarrow> json list option" where
  "as_array (JArr xs) = Some xs"
| "as_array _ = None"

fun as_object :: "json \<Rightarrow> json_object option" where
  "as_object (JObj ob) = Some ob"
| "as_object _ = None"

text \<open>\<^verbatim>\<open>Value::get\<close> with a string.\<close>

fun value_get :: "json \<Rightarrow> string \<Rightarrow> json option" where
  "value_get (JObj ob) k = obj_get ob k"
| "value_get _ k = None"

text \<open>\<^verbatim>\<open>serde_json::json!\<close> of an optional value: absent is \<^verbatim>\<open>null\<close>.\<close>

definition json_opt :: "('a \<Rightarrow> json) \<Rightarrow> 'a option \<Rightarrow> json" where
  "json_opt f v = (case v of None \<Rightarrow> JNull | Some x \<Rightarrow> f x)"

text \<open>Insert a member only when it has a value, as the loop of \<^verbatim>\<open>with_batch_identity\<close> does.\<close>

definition obj_insert_opt :: "string \<Rightarrow> json option \<Rightarrow> json_object \<Rightarrow> json_object" where
  "obj_insert_opt k v ob = (case v of None \<Rightarrow> ob | Some j \<Rightarrow> obj_insert k j ob)"

lemma obj_get_insert [simp]:
  "obj_get (obj_insert k v ob) k' = (if k' = k then Some v else obj_get ob k')"
  by (simp add: obj_get_def obj_insert_def update_conv')

lemma obj_get_Cons [simp]:
  "obj_get ((k, v) # ob) k' = (if k' = k then Some v else obj_get ob k')"
  by (simp add: obj_get_def)

lemma obj_get_Nil [simp]: "obj_get [] k = None"
  by (simp add: obj_get_def)

lemma obj_get_insert_opt [simp]:
  "obj_get (obj_insert_opt k v ob) k' =
     (if k' = k \<and> v \<noteq> None then v else obj_get ob k')"
  by (cases v) (auto simp: obj_insert_opt_def)

text \<open>A member that \<^verbatim>\<open>serde\<close> leaves out when it has no value.\<close>

definition opt_member :: "string \<Rightarrow> string option \<Rightarrow> json_object" where
  "opt_member k v = (case v of None \<Rightarrow> [] | Some s \<Rightarrow> [(k, JStr s)])"

lemma obj_get_append: "obj_get (xs @ ys) k = (case obj_get xs k of None \<Rightarrow> obj_get ys k | Some v \<Rightarrow> Some v)"
  by (simp add: obj_get_def map_add_def split: option.split)

lemma obj_get_opt_member: "obj_get (opt_member k v) k' = (if k' = k then map_option JStr v else None)"
  by (simp add: opt_member_def split: option.split)

end
