(* ===== verification/Guidance_Types.thy ===== *)
theory Guidance_Types
  imports Json
begin

text \<open>
  The data of the durable guidance queue: the evidence a runtime adapter reports
  (\<^verbatim>\<open>services/guidance_adapters.rs\<close>), the queue's own types
  (\<^verbatim>\<open>services/guidance_queue.rs\<close>) and the tables of the inbox database
  (\<^verbatim>\<open>services/inbox_store.rs\<close>, \<^verbatim>\<open>migrate\<close>).

  A column with a \<^verbatim>\<open>CHECK (.. IN ..)\<close> constraint holds the enum its text denotes; the
  text is \<open>as_str\<close> of it and \<open>parse\<close> reads it back. \<^verbatim>\<open>i64\<close> columns are \<^typ>\<open>int\<close>,
  \<^verbatim>\<open>u64\<close> fields are \<^typ>\<open>nat\<close>, \<^verbatim>\<open>NULL\<close> is \<open>None\<close>. The JSON text of
  \<^verbatim>\<open>injection_options\<close> is kept as the value it encodes.
\<close>

section \<open>Runtime adapters\<close>

datatype runtime_kind = Claude | Codex | OpenCode | Custom

datatype boundary_phase = TurnFinished | WouldStop | ToolExecuting | HardStopped

definition can_offer_steering :: "boundary_phase \<Rightarrow> bool" where
  "can_offer_steering p \<longleftrightarrow> p = TurnFinished \<or> p = WouldStop"

definition can_offer_follow_up :: "boundary_phase \<Rightarrow> bool" where
  "can_offer_follow_up p \<longleftrightarrow> p = WouldStop"

record boundary_evidence =
  be_agent_id :: string
  be_phase :: boundary_phase
  be_invocation_id :: "string option"
  be_generation :: "nat option"
  be_correlation_id :: "string option"

definition turn_finished :: "string \<Rightarrow> boundary_evidence" where
  "turn_finished agent = \<lparr>be_agent_id = agent, be_phase = TurnFinished, be_invocation_id = None,
     be_generation = None, be_correlation_id = None\<rparr>"

definition would_stop :: "string \<Rightarrow> boundary_evidence" where
  "would_stop agent = \<lparr>be_agent_id = agent, be_phase = WouldStop, be_invocation_id = None,
     be_generation = None, be_correlation_id = None\<rparr>"

datatype transport_outcome = Success | Failed

record transport_attempt =
  ta_method :: string
  ta_outcome :: transport_outcome
  ta_detail :: "string option"

definition transport_success :: "string \<Rightarrow> transport_attempt" where
  "transport_success m = \<lparr>ta_method = m, ta_outcome = Success, ta_detail = None\<rparr>"

definition transport_failure :: "string \<Rightarrow> string \<Rightarrow> transport_attempt" where
  "transport_failure m d = \<lparr>ta_method = m, ta_outcome = Failed, ta_detail = Some d\<rparr>"

datatype acceptance_kind = MailboxRead | RuntimeHook | RuntimeBoundary | PluginSession

datatype acceptance_confidence = Exact | Inferred | Unknown

record acceptance_evidence =
  ae_batch_id :: string
  ae_agent_id :: string
  ae_queue_class :: string
  ae_item_ids :: "string list"
  ae_consumer_id :: string
  ae_invocation_id :: "string option"
  ae_generation :: "nat option"
  ae_evidence_kind :: acceptance_kind
  ae_confidence :: acceptance_confidence
  ae_correlation_id :: "string option"

section \<open>Queue classes and lifecycle states\<close>

datatype queue_class = Steering | FollowUp

text \<open>\<^verbatim>\<open>ORDER BY CASE queue_class WHEN 'steering' THEN 0 ELSE 1 END\<close>: the order of the two
  classes at a boundary, as an instance of the library's linear orders.\<close>

fun class_rank :: "queue_class \<Rightarrow> nat" where
  "class_rank Steering = 0"
| "class_rank FollowUp = 1"

lemma class_rank_inject [simp]: "class_rank a = class_rank b \<longleftrightarrow> a = b"
  by (cases a; cases b) simp_all

instantiation queue_class :: linorder
begin

definition less_eq_queue_class :: "queue_class \<Rightarrow> queue_class \<Rightarrow> bool" where
  "less_eq_queue_class a b \<longleftrightarrow> class_rank a \<le> class_rank b"

definition less_queue_class :: "queue_class \<Rightarrow> queue_class \<Rightarrow> bool" where
  "less_queue_class a b \<longleftrightarrow> class_rank a < class_rank b"

instance
  by standard (auto simp: less_eq_queue_class_def less_queue_class_def)

end

fun class_str :: "queue_class \<Rightarrow> string" where
  "class_str Steering = ''steering''"
| "class_str FollowUp = ''follow_up''"

definition class_parse :: "string \<Rightarrow> queue_class option" where
  "class_parse s = (if s = ''steering'' then Some Steering
     else if s = ''follow_up'' then Some FollowUp else None)"

datatype gstate = Pending | Leased | Submitted | Accepted | Abandoned | Cancelled

fun state_str :: "gstate \<Rightarrow> string" where
  "state_str Pending = ''pending''"
| "state_str Leased = ''leased''"
| "state_str Submitted = ''submitted''"
| "state_str Accepted = ''accepted''"
| "state_str Abandoned = ''abandoned''"
| "state_str Cancelled = ''cancelled''"

definition state_parse :: "string \<Rightarrow> gstate option" where
  "state_parse s =
     (if s = ''pending'' then Some Pending
      else if s = ''leased'' then Some Leased
      else if s = ''submitted'' then Some Submitted
      else if s = ''accepted'' then Some Accepted
      else if s = ''abandoned'' then Some Abandoned
      else if s = ''cancelled'' then Some Cancelled
      else None)"

definition is_terminal :: "gstate \<Rightarrow> bool" where
  "is_terminal s \<longleftrightarrow> s = Accepted \<or> s = Abandoned \<or> s = Cancelled"

text \<open>The two states in which a consumer holds the batch:
  \<^verbatim>\<open>state IN ('leased', 'submitted')\<close>.\<close>

definition in_flight :: "gstate \<Rightarrow> bool" where
  "in_flight s \<longleftrightarrow> s = Leased \<or> s = Submitted"

lemma class_parse_str [simp]: "class_parse (class_str c) = Some c"
  by (cases c) (auto simp: class_parse_def)

lemma class_parse_SomeD: "class_parse s = Some c \<Longrightarrow> s = class_str c"
  by (auto simp: class_parse_def split: if_splits)

lemma class_str_inj [simp]: "class_str a = class_str b \<longleftrightarrow> a = b"
  by (cases a; cases b) auto

lemma state_parse_str [simp]: "state_parse (state_str s) = Some s"
  by (cases s) (auto simp: state_parse_def)

lemma state_parse_SomeD: "state_parse x = Some s \<Longrightarrow> x = state_str s"
  by (auto simp: state_parse_def split: if_splits)

lemma in_flight_simps [simp]:
  "\<not> in_flight Pending" "in_flight Leased" "in_flight Submitted"
  "\<not> in_flight Accepted" "\<not> in_flight Abandoned" "\<not> in_flight Cancelled"
  by (auto simp: in_flight_def)

lemma is_terminal_simps [simp]:
  "\<not> is_terminal Pending" "\<not> is_terminal Leased" "\<not> is_terminal Submitted"
  "is_terminal Accepted" "is_terminal Abandoned" "is_terminal Cancelled"
  by (auto simp: is_terminal_def)

section \<open>Requests and results\<close>

record guidance_identity =
  gi_run_id :: "string option"
  gi_session_id :: "string option"
  gi_invocation_id :: "string option"
  gi_generation :: "nat option"
  gi_runtime :: "string option"
  gi_harness :: "string option"
  gi_role :: "string option"

definition no_identity :: guidance_identity where
  "no_identity = \<lparr>gi_run_id = None, gi_session_id = None, gi_invocation_id = None,
     gi_generation = None, gi_runtime = None, gi_harness = None, gi_role = None\<rparr>"

record item_input =
  ii_from_agent :: string
  ii_content :: string
  ii_summary :: "string option"
  ii_injection_options :: json

record batch_request =
  rq_agent_id :: string
  rq_queue_class :: queue_class
  rq_items :: "item_input list"
  rq_identity :: guidance_identity
  rq_idempotency_key :: "string option"
  rq_source_message_id :: "int option"

record guidance_consumer =
  gc_consumer_id :: string
  gc_invocation_id :: "string option"
  gc_generation :: "nat option"

section \<open>Tables\<close>

text \<open>One row of \<^verbatim>\<open>guidance_batches\<close>. The seven identity columns form one record.\<close>

record batch_row =
  b_batch_id :: string
  b_agent_id :: string
  b_queue_class :: queue_class
  b_queue_seq :: int
  b_state :: gstate
  b_created_at :: int
  b_available_at :: int
  b_lease_owner :: "string option"
  b_lease_expires_at :: "int option"
  b_attempt_count :: int
  b_accepted_at :: "int option"
  b_terminal_at :: "int option"
  b_terminal_reason :: "string option"
  b_identity :: guidance_identity
  b_source_message_id :: "int option"
  b_idempotency_key :: "string option"

text \<open>One row of \<^verbatim>\<open>guidance_items\<close>; \<^verbatim>\<open>GuidanceItem\<close> is the row without its
  \<^verbatim>\<open>batch_id\<close>.\<close>

record item_row =
  i_batch_id :: string
  i_position :: int
  i_item_id :: string
  i_from_agent :: string
  i_content :: string
  i_summary :: "string option"
  i_injection_options :: json

record message_row =
  m_id :: int
  m_from_agent :: string
  m_to_agent :: string
  m_content :: string
  m_summary :: "string option"
  m_created_at :: int
  m_notified_at :: "int option"
  m_read_at :: "int option"

record meta_row =
  a_agent_id :: string
  a_last_check_inbox_at :: "int option"
  a_last_poke_at :: "int option"
  a_last_poke_message_id :: "int option"
  a_poke_backoff_secs :: "int option"

record db =
  batches :: "batch_row list"
  items :: "item_row list"
  messages :: "message_row list"
  metas :: "meta_row list"

definition empty_db :: db where
  "empty_db = \<lparr>batches = [], items = [], messages = [], metas = []\<rparr>"

text \<open>\<^verbatim>\<open>GuidanceBatch\<close>: the row, the confidence derived from its state, and its ordered
  items.\<close>

record guidance_batch =
  gb_row :: batch_row
  gb_acceptance_confidence :: acceptance_confidence
  gb_items :: "item_row list"

record enqueue_result =
  er_batch :: guidance_batch
  er_created :: bool

datatype ack_result = AckAccepted | AckAlreadyAccepted | AckRejected string

text \<open>One call of \<^verbatim>\<open>append_state_change\<close>: the event type and its payload.\<close>

type_synonym mirror_event = "string \<times> json"

text \<open>What a call reads from outside the program: the clock and the random UUIDs it draws, in
  the order it draws them.\<close>

record call_env =
  clock :: int
  uuid :: "nat \<Rightarrow> string"

text \<open>\<^verbatim>\<open>now_epoch_secs\<close> converts a \<^verbatim>\<open>u64\<close> with \<^verbatim>\<open>i64::MAX\<close> as the fallback.\<close>

definition env_ok :: "call_env \<Rightarrow> bool" where
  "env_ok e \<longleftrightarrow> 0 \<le> clock e \<and> clock e \<le> i64_max"

end
