(* ===== verification/Guidance_Queue.thy ===== *)
theory Guidance_Queue
  imports Guidance_Types
begin

text \<open>
  The durable guidance queue of \<^verbatim>\<open>services/guidance_queue.rs\<close>, operation by operation. Each
  public method runs one SQLite transaction and then mirrors what it did with
  \<^verbatim>\<open>append_state_change\<close>; its model takes the call's environment, the arguments and the
  database, and returns the method's result, the committed database and the mirrored events in
  order. An error inside a transaction drops it, which rolls it back: the model then returns the
  database it was given.

  The connection sits behind a \<^verbatim>\<open>std::sync::Mutex\<close> and \<^verbatim>\<open>emit_recovery_events\<close> takes it
  again through \<^verbatim>\<open>inspect_batch\<close>. A thread that locks a mutex it already holds never
  returns from the call, so \<open>emit_recovery_events\<close> is told whether its caller still
  holds the guard, and \<open>claim_next\<close> has the outcome \<open>Deadlocks\<close>.
\<close>

section \<open>Validation\<close>

datatype gq_error =
    EmptyIdentity string
  | InvalidId string
  | InvalidText string
  | BatchSize
  | ForeignQueueClass
  | SequenceExhausted
  | IntegerOutOfRange
  | ConstraintViolation
  | BatchNotFound
  | ItemPositions
  | ClaimLost
  | NotLeased
  | AttemptOverflow
  | NotRetryable

definition max_batch_items :: nat where "max_batch_items = 32"
definition max_content_bytes :: nat where "max_content_bytes = 64 * 1024"
definition max_summary_bytes :: nat where "max_summary_bytes = 4 * 1024"
definition max_id_bytes :: nat where "max_id_bytes = 256"
definition max_reason_bytes :: nat where "max_reason_bytes = 512"
definition max_lease_seconds :: nat where "max_lease_seconds = 300"
definition max_retry_attempts :: int where "max_retry_attempts = 8"
definition max_retry_backoff_seconds :: int where "max_retry_backoff_seconds = 300"

lemmas limits = max_batch_items_def max_content_bytes_def max_summary_bytes_def max_id_bytes_def
  max_reason_bytes_def max_lease_seconds_def max_retry_attempts_def max_retry_backoff_seconds_def

definition normalize_agent_id :: "string \<Rightarrow> string" where
  "normalize_agent_id a =
     (case after_last (CHR ''.'') a of
        Some bare \<Rightarrow> if bare \<noteq> [] then bare else a
      | None \<Rightarrow> a)"

definition validate_identity :: "string \<Rightarrow> string \<Rightarrow> gq_error + unit" where
  "validate_identity v field = ensure (\<not> blank (normalize_agent_id v)) (EmptyIdentity field)"

definition validate_id :: "string \<Rightarrow> string \<Rightarrow> gq_error + unit" where
  "validate_id v field = ensure (\<not> (blank v \<or> length v > max_id_bytes)) (InvalidId field)"

definition validate_text :: "string \<Rightarrow> nat \<Rightarrow> string \<Rightarrow> gq_error + unit" where
  "validate_text v max_bytes field =
     ensure (\<not> (v = [] \<or> length v > max_bytes)) (InvalidText field)"

fun validate_optional :: "(string \<Rightarrow> gq_error + unit) \<Rightarrow> string option \<Rightarrow> gq_error + unit" where
  "validate_optional f None = Inr ()"
| "validate_optional f (Some v) = f v"

fun validate_each :: "('a \<Rightarrow> gq_error + unit) \<Rightarrow> 'a list \<Rightarrow> gq_error + unit" where
  "validate_each f [] = Inr ()"
| "validate_each f (x # xs) = bindR (f x) (\<lambda>_. validate_each f xs)"

definition validate_identity_fields :: "guidance_identity \<Rightarrow> gq_error + unit" where
  "validate_identity_fields g =
     validate_each (\<lambda>(name, value). validate_optional (\<lambda>v. validate_id v name) value)
       [(''run id'', gi_run_id g), (''session id'', gi_session_id g),
        (''invocation id'', gi_invocation_id g), (''runtime'', gi_runtime g),
        (''harness'', gi_harness g), (''role'', gi_role g)]"

definition validate_item :: "item_input \<Rightarrow> gq_error + unit" where
  "validate_item i =
     bindR (validate_identity (ii_from_agent i) ''sender agent'') (\<lambda>_.
     bindR (validate_text (ii_content i) max_content_bytes ''guidance content'') (\<lambda>_.
       validate_optional (\<lambda>s. validate_text s max_summary_bytes ''guidance summary'')
         (ii_summary i)))"

definition validate_batch_request :: "batch_request \<Rightarrow> gq_error + unit" where
  "validate_batch_request rq =
     bindR (validate_identity (rq_agent_id rq) ''target agent'') (\<lambda>_.
     bindR (ensure (\<not> (rq_items rq = [] \<or> length (rq_items rq) > max_batch_items)) BatchSize) (\<lambda>_.
     bindR (validate_optional (\<lambda>k. validate_id k ''idempotency key'') (rq_idempotency_key rq)) (\<lambda>_.
     bindR (validate_each validate_item (rq_items rq)) (\<lambda>_.
       validate_identity_fields (rq_identity rq)))))"

section \<open>Loading a batch\<close>

fun positions_from :: "nat \<Rightarrow> item_row list \<Rightarrow> bool" where
  "positions_from n [] = True"
| "positions_from n (i # is) \<longleftrightarrow> i_position i = min i64_max (int n) \<and> positions_from (Suc n) is"

definition validate_item_positions :: "item_row list \<Rightarrow> gq_error + unit" where
  "validate_item_positions is = ensure (positions_from 0 is) ItemPositions"

definition batch_items :: "db \<Rightarrow> string \<Rightarrow> item_row list" where
  "batch_items d bid = sort_key i_position (filter (\<lambda>i. i_batch_id i = bid) (items d))"

definition row_of :: "db \<Rightarrow> string \<Rightarrow> batch_row option" where
  "row_of d bid = find (\<lambda>r. b_batch_id r = bid) (batches d)"

definition load_batch :: "db \<Rightarrow> string \<Rightarrow> gq_error + guidance_batch" where
  "load_batch d bid =
     (case row_of d bid of
        None \<Rightarrow> Inl BatchNotFound
      | Some r \<Rightarrow>
          bindR (validate_item_positions (batch_items d bid)) (\<lambda>_.
            Inr \<lparr>gb_row = r,
                 gb_acceptance_confidence = (if b_state r = Accepted then Exact else Unknown),
                 gb_items = batch_items d bid\<rparr>))"

definition load_batch_optional :: "db \<Rightarrow> string \<Rightarrow> gq_error + guidance_batch option" where
  "load_batch_optional d bid =
     (case row_of d bid of
        None \<Rightarrow> Inr None
      | Some r \<Rightarrow> bindR (load_batch d (b_batch_id r)) (\<lambda>b. Inr (Some b)))"

definition inspect_batch :: "db \<Rightarrow> string \<Rightarrow> gq_error + guidance_batch option" where
  "inspect_batch d bid =
     bindR (validate_id bid ''batch id'') (\<lambda>_. load_batch_optional d bid)"

definition load_batch_by_source_message_id :: "db \<Rightarrow> int \<Rightarrow> gq_error + guidance_batch option" where
  "load_batch_by_source_message_id d mid =
     (case find (\<lambda>r. b_source_message_id r = Some mid) (batches d) of
        None \<Rightarrow> Inr None
      | Some r \<Rightarrow> bindR (load_batch d (b_batch_id r)) (\<lambda>b. Inr (Some b)))"

definition pending_batches_for_agent :: "db \<Rightarrow> string \<Rightarrow> int \<Rightarrow> gq_error + guidance_batch list" where
  "pending_batches_for_agent d agent t =
     traverse (load_batch d)
       (map b_batch_id (sort_key b_queue_seq
         (filter (\<lambda>r. b_agent_id r = normalize_agent_id agent \<and> b_state r = Pending
                      \<and> b_available_at r \<le> t) (batches d))))"

section \<open>Mirrored events\<close>

fun phase_str :: "boundary_phase \<Rightarrow> string" where
  "phase_str TurnFinished = ''turn_finished''"
| "phase_str WouldStop = ''would_stop''"
| "phase_str ToolExecuting = ''tool_executing''"
| "phase_str HardStopped = ''hard_stopped''"

fun outcome_str :: "transport_outcome \<Rightarrow> string" where
  "outcome_str Success = ''success''"
| "outcome_str Failed = ''failed''"

fun kind_str :: "acceptance_kind \<Rightarrow> string" where
  "kind_str MailboxRead = ''mailbox_read''"
| "kind_str RuntimeHook = ''runtime_hook''"
| "kind_str RuntimeBoundary = ''runtime_boundary''"
| "kind_str PluginSession = ''plugin_session''"

fun confidence_str :: "acceptance_confidence \<Rightarrow> string" where
  "confidence_str Exact = ''exact''"
| "confidence_str Inferred = ''inferred''"
| "confidence_str Unknown = ''unknown''"

fun with_batch_identity :: "json \<Rightarrow> guidance_batch \<Rightarrow> json" where
  "with_batch_identity (JObj ob) b =
     (let r = gb_row b; g = b_identity r; ids = map i_item_id (gb_items b) in
      JObj (obj_insert_opt ''generation'' (map_option (\<lambda>n. JInt (int n)) (gi_generation g))
           (obj_insert_opt ''role'' (map_option JStr (gi_role g))
           (obj_insert_opt ''harness'' (map_option JStr (gi_harness g))
           (obj_insert_opt ''runtime'' (map_option JStr (gi_runtime g))
           (obj_insert_opt ''invocation_id'' (map_option JStr (gi_invocation_id g))
           (obj_insert_opt ''session_id'' (map_option JStr (gi_session_id g))
           (obj_insert_opt ''run_id'' (map_option JStr (gi_run_id g))
           (obj_insert ''queue_seq'' (JInt (b_queue_seq r))
           (obj_insert ''queue_class'' (JStr (class_str (b_queue_class r)))
           (obj_insert ''agent_id'' (JStr (b_agent_id r))
           (obj_insert_opt ''item_id'' (case ids of [i] \<Rightarrow> Some (JStr i) | _ \<Rightarrow> None)
           (obj_insert ''item_ids'' (JArr (map JStr ids))
           (obj_insert ''batch_id'' (JStr (b_batch_id r)) ob))))))))))))))"
| "with_batch_identity j b = j"

declare with_batch_identity.simps [simp del]

definition state_changed :: string where "state_changed = ''inbox.state_changed''"

definition append_enqueue_event :: "enqueue_result \<Rightarrow> mirror_event list" where
  "append_enqueue_event res =
     (if \<not> er_created res then []
      else [(state_changed,
             with_batch_identity
               (JObj [(''operation'', JStr ''enqueue''),
                      (''idempotency_key'',
                        json_opt JStr (b_idempotency_key (gb_row (er_batch res))))])
               (er_batch res))])"

section \<open>Enqueue\<close>

definition find_idempotent_batch :: "db \<Rightarrow> string \<Rightarrow> string \<Rightarrow> queue_class \<Rightarrow> gq_error + string option" where
  "find_idempotent_batch d agent key c =
     (case find (\<lambda>r. b_agent_id r = agent \<and> b_idempotency_key r = Some key) (batches d) of
        None \<Rightarrow> Inr None
      | Some r \<Rightarrow>
          if b_queue_class r \<noteq> c then Inl ForeignQueueClass else Inr (Some (b_batch_id r)))"

text \<open>\<^verbatim>\<open>COALESCE(MAX(queue_seq), -1) + 1\<close>; a sum beyond \<^verbatim>\<open>i64\<close> becomes a REAL, which
  \<^verbatim>\<open>row.get::<i64>\<close> refuses.\<close>

definition next_queue_seq :: "db \<Rightarrow> string \<Rightarrow> int" where
  "next_queue_seq d agent =
     fold max (map b_queue_seq (filter (\<lambda>r. b_agent_id r = agent) (batches d))) (- 1) + 1"

text \<open>A \<^verbatim>\<open>u64\<close> parameter binds to an INTEGER column only when it fits in \<^verbatim>\<open>i64\<close>.\<close>

definition storable :: "nat option \<Rightarrow> bool" where
  "storable g \<longleftrightarrow> (case g of None \<Rightarrow> True | Some n \<Rightarrow> int n \<le> i64_max)"

text \<open>\<^verbatim>\<open>INSERT\<close> under the table's constraints: \<^verbatim>\<open>batch_id\<close> primary key,
  \<^verbatim>\<open>UNIQUE (agent_id, queue_seq)\<close>, \<^verbatim>\<open>UNIQUE (agent_id, idempotency_key)\<close>.\<close>

definition insert_batch_row :: "batch_row \<Rightarrow> batch_row list \<Rightarrow> gq_error + batch_row list" where
  "insert_batch_row n t =
     (if list_ex (\<lambda>r. b_batch_id r = b_batch_id n
            \<or> b_agent_id r = b_agent_id n \<and> b_queue_seq r = b_queue_seq n
            \<or> b_agent_id r = b_agent_id n \<and> b_idempotency_key n \<noteq> None
               \<and> b_idempotency_key r = b_idempotency_key n) t
      then Inl ConstraintViolation else Inr (t @ [n]))"

definition insert_item_row :: "item_row \<Rightarrow> item_row list \<Rightarrow> gq_error + item_row list" where
  "insert_item_row n t =
     (if list_ex (\<lambda>i. i_item_id i = i_item_id n
            \<or> i_batch_id i = i_batch_id n \<and> i_position i = i_position n) t
      then Inl ConstraintViolation else Inr (t @ [n]))"

definition new_batch_row :: "call_env \<Rightarrow> batch_request \<Rightarrow> string \<Rightarrow> int \<Rightarrow> batch_row" where
  "new_batch_row e rq agent sq =
     \<lparr>b_batch_id = uuid e 0, b_agent_id = agent, b_queue_class = rq_queue_class rq,
      b_queue_seq = sq, b_state = Pending, b_created_at = clock e, b_available_at = clock e,
      b_lease_owner = None, b_lease_expires_at = None, b_attempt_count = 0,
      b_accepted_at = None, b_terminal_at = None, b_terminal_reason = None,
      b_identity = rq_identity rq, b_source_message_id = rq_source_message_id rq,
      b_idempotency_key = rq_idempotency_key rq\<rparr>"

definition new_item_row :: "call_env \<Rightarrow> nat \<Rightarrow> item_input \<Rightarrow> item_row" where
  "new_item_row e pos i =
     \<lparr>i_batch_id = uuid e 0, i_position = int pos, i_item_id = uuid e (Suc pos),
      i_from_agent = ii_from_agent i, i_content = ii_content i, i_summary = ii_summary i,
      i_injection_options = ii_injection_options i\<rparr>"

fun insert_items :: "call_env \<Rightarrow> nat \<Rightarrow> item_input list \<Rightarrow> item_row list \<Rightarrow> gq_error + item_row list" where
  "insert_items e pos [] t = Inr t"
| "insert_items e pos (i # is) t =
     bindR (ensure (int pos \<le> i64_max) IntegerOutOfRange) (\<lambda>_.
     bindR (insert_item_row (new_item_row e pos i) t) (\<lambda>t'. insert_items e (Suc pos) is t'))"

definition insert_new_batch :: "call_env \<Rightarrow> batch_request \<Rightarrow> string \<Rightarrow> db \<Rightarrow> gq_error + (enqueue_result \<times> db)" where
  "insert_new_batch e rq agent d =
     bindR (ensure (next_queue_seq d agent \<le> i64_max) SequenceExhausted) (\<lambda>_.
     bindR (ensure (storable (gi_generation (rq_identity rq))) IntegerOutOfRange) (\<lambda>_.
     bindR (insert_batch_row (new_batch_row e rq agent (next_queue_seq d agent)) (batches d)) (\<lambda>bs.
     bindR (insert_items e 0 (rq_items rq) (items d)) (\<lambda>is.
       let d' = d\<lparr>batches := bs, items := is\<rparr> in
       bindR (load_batch d' (uuid e 0)) (\<lambda>b. Inr (\<lparr>er_batch = b, er_created = True\<rparr>, d'))))))"

definition enqueue_batch_in_transaction ::
    "call_env \<Rightarrow> batch_request \<Rightarrow> string \<Rightarrow> db \<Rightarrow> gq_error + (enqueue_result \<times> db)" where
  "enqueue_batch_in_transaction e rq agent d =
     bindR (case rq_idempotency_key rq of
              None \<Rightarrow> Inr None
            | Some key \<Rightarrow> find_idempotent_batch d agent key (rq_queue_class rq)) (\<lambda>existing.
       case existing of
         Some bid \<Rightarrow> bindR (load_batch d bid) (\<lambda>b. Inr (\<lparr>er_batch = b, er_created = False\<rparr>, d))
       | None \<Rightarrow> insert_new_batch e rq agent d)"

definition enqueue_batch ::
    "call_env \<Rightarrow> batch_request \<Rightarrow> db \<Rightarrow> (gq_error + enqueue_result) \<times> db \<times> mirror_event list" where
  "enqueue_batch e rq d =
     (case bindR (validate_batch_request rq) (\<lambda>_.
             enqueue_batch_in_transaction e rq (normalize_agent_id (rq_agent_id rq)) d) of
        Inl err \<Rightarrow> (Inl err, d, [])
      | Inr (res, d') \<Rightarrow> (Inr res, d', append_enqueue_event res))"

end
