(* ===== verification/Guidance_Ops.thy ===== *)
theory Guidance_Ops
  imports Guidance_Queue "HOL-Library.List_Lexorder" "HOL-Library.Char_ord"
    "HOL-Library.Product_Lexorder"
begin

text \<open>
  The operations of \<^verbatim>\<open>services/guidance_queue.rs\<close> on a batch that is already queued:
  claiming, transport attempts, acknowledgement, retry, cancellation and lease recovery.
\<close>

section \<open>Lease recovery\<close>

definition retry_backoff_seconds :: "int \<Rightarrow> int" where
  "retry_backoff_seconds attempts =
     min (2 ^ nat (max 0 (min 8 attempts))) max_retry_backoff_seconds"

definition expired :: "int \<Rightarrow> batch_row \<Rightarrow> bool" where
  "expired t r \<longleftrightarrow> in_flight (b_state r) \<and>
     (case b_lease_expires_at r of None \<Rightarrow> False | Some x \<Rightarrow> x \<le> t)"

definition recovered_state :: "int \<Rightarrow> gstate" where
  "recovered_state attempts = (if attempts \<ge> max_retry_attempts then Abandoned else Pending)"

definition recover_row :: "int \<Rightarrow> int \<Rightarrow> batch_row \<Rightarrow> batch_row" where
  "recover_row t attempts r =
     (let abandon = attempts \<ge> max_retry_attempts in
      r\<lparr>b_state := recovered_state attempts,
        b_available_at := (if abandon then t else sat_add t (retry_backoff_seconds attempts)),
        b_lease_owner := None, b_lease_expires_at := None,
        b_terminal_at := (if abandon then Some t else None),
        b_terminal_reason := (if abandon then Some ''lease_expired_retry_budget'' else None)\<rparr>)"

fun recover_rows :: "int \<Rightarrow> (string \<times> int) list \<Rightarrow> batch_row list \<Rightarrow> batch_row list" where
  "recover_rows t [] rs = rs"
| "recover_rows t ((bid, attempts) # ex) rs =
     recover_rows t ex (sql_update (\<lambda>r. b_batch_id r = bid \<and> expired t r) (recover_row t attempts) rs)"

definition recover_expired_in_tx :: "int \<Rightarrow> db \<Rightarrow> db \<times> (string \<times> gstate) list" where
  "recover_expired_in_tx t d =
     (let ex = map (\<lambda>r. (b_batch_id r, b_attempt_count r)) (filter (expired t) (batches d)) in
      (d\<lparr>batches := recover_rows t ex (batches d)\<rparr>,
       map (\<lambda>(bid, attempts). (bid, recovered_state attempts)) ex))"

text \<open>The events for one recovered lease, with the identity of the batch when
  \<^verbatim>\<open>inspect_batch\<close> finds it.\<close>

definition recovery_events :: "db \<Rightarrow> string \<times> gstate \<Rightarrow> mirror_event list" where
  "recovery_events d rec =
     (let (bid, s) = rec;
          found = (case inspect_batch d bid of Inl _ \<Rightarrow> None | Inr b \<Rightarrow> b);
          tag = (\<lambda>j. case found of None \<Rightarrow> j | Some b \<Rightarrow> with_batch_identity j b)
      in (state_changed,
           tag (JObj [(''operation'', JStr ''lease_expired''), (''batch_id'', JStr bid),
                      (''state'', JStr (state_str s))])) #
         (if s = Abandoned
          then [(''agent_inbox.messages_abandoned'',
                 tag (JObj [(''batch_id'', JStr bid),
                            (''reason'', JStr ''lease_expired_retry_budget'')]))]
          else []))"

text \<open>\<^verbatim>\<open>emit_recovery_events\<close>: \<open>None\<close> when the calling thread still holds the connection
  guard and there is an event to emit, so that \<^verbatim>\<open>inspect_batch\<close> waits for its own
  caller.\<close>

definition emit_recovery_events :: "bool \<Rightarrow> db \<Rightarrow> (string \<times> gstate) list \<Rightarrow> mirror_event list option" where
  "emit_recovery_events conn_held d recovered =
     (if conn_held \<and> recovered \<noteq> [] then None
      else Some (concat (map (recovery_events d) recovered)))"

definition recover_expired_leases :: "int \<Rightarrow> db \<Rightarrow> string list \<times> db \<times> mirror_event list" where
  "recover_expired_leases t d =
     (let (d', recovered) = recover_expired_in_tx t d in
      (map fst recovered, d', the (emit_recovery_events False d' recovered)))"

section \<open>Claim\<close>

datatype 'a outcome = Returns 'a | Deadlocks

definition has_active_lease :: "string \<Rightarrow> int \<Rightarrow> db \<Rightarrow> bool" where
  "has_active_lease agent t d \<longleftrightarrow>
     list_ex (\<lambda>r. b_agent_id r = agent \<and> in_flight (b_state r) \<and>
       (case b_lease_expires_at r of None \<Rightarrow> False | Some x \<Rightarrow> x > t)) (batches d)"

definition steering_pending :: "string \<Rightarrow> db \<Rightarrow> bool" where
  "steering_pending agent d \<longleftrightarrow>
     list_ex (\<lambda>r. b_agent_id r = agent \<and> b_queue_class r = Steering \<and> b_state r = Pending) (batches d)"

definition steering_available :: "string \<Rightarrow> int \<Rightarrow> db \<Rightarrow> bool" where
  "steering_available agent t d \<longleftrightarrow>
     list_ex (\<lambda>r. b_agent_id r = agent \<and> b_queue_class r = Steering \<and> b_state r = Pending
       \<and> b_available_at r \<le> t) (batches d)"

definition claimable :: "boundary_phase \<Rightarrow> string \<Rightarrow> int \<Rightarrow> batch_row \<Rightarrow> bool" where
  "claimable phase agent t r \<longleftrightarrow>
     b_agent_id r = agent \<and> b_state r = Pending \<and> b_available_at r \<le> t
     \<and> (phase = TurnFinished \<longrightarrow> b_queue_class r = Steering)"

text \<open>\<^verbatim>\<open>ORDER BY CASE queue_class .. END, queue_seq ASC LIMIT 1\<close>: steering first, then the
  oldest.\<close>

definition earliest :: "(batch_row \<Rightarrow> bool) \<Rightarrow> batch_row list \<Rightarrow> batch_row option" where
  "earliest p rs = sql_first (\<lambda>r. (b_queue_class r, b_queue_seq r)) p rs"

definition coalesce :: "'a option \<Rightarrow> 'a option \<Rightarrow> 'a option" where
  "coalesce a b = (case a of None \<Rightarrow> b | Some x \<Rightarrow> Some x)"

definition lease_row :: "guidance_consumer \<Rightarrow> int \<Rightarrow> batch_row \<Rightarrow> batch_row" where
  "lease_row c expires r =
     r\<lparr>b_state := Leased, b_lease_owner := Some (gc_consumer_id c),
       b_lease_expires_at := Some expires,
       b_identity := (b_identity r)\<lparr>
         gi_invocation_id := coalesce (gc_invocation_id c) (gi_invocation_id (b_identity r)),
         gi_generation := coalesce (gc_generation c) (gi_generation (b_identity r))\<rparr>\<rparr>"

definition claim_event :: "boundary_evidence \<Rightarrow> guidance_consumer \<Rightarrow> guidance_batch \<Rightarrow> mirror_event" where
  "claim_event be c b =
     (state_changed,
      with_batch_identity
        (JObj [(''operation'', JStr ''claim''), (''consumer'', JStr (gc_consumer_id c)),
               (''boundary'', JStr (phase_str (be_phase be))),
               (''lease_expires_at'', json_opt JInt (b_lease_expires_at (gb_row b)))]) b)"

text \<open>The three early returns of \<^verbatim>\<open>claim_next\<close>: the recovery is committed and
  \<^verbatim>\<open>emit_recovery_events\<close> runs while the guard \<^verbatim>\<open>conn\<close> is still in scope.\<close>

definition claim_nothing ::
    "db \<Rightarrow> (string \<times> gstate) list \<Rightarrow>
     (gq_error + guidance_batch option) outcome \<times> db \<times> mirror_event list" where
  "claim_nothing d recovered =
     (case emit_recovery_events True d recovered of
        None \<Rightarrow> (Deadlocks, d, [])
      | Some evs \<Rightarrow> (Returns (Inr None), d, evs))"

definition lease_expiry :: "call_env \<Rightarrow> nat \<Rightarrow> int" where
  "lease_expiry e lease = sat_add (clock e) (int (max 1 (min max_lease_seconds lease)))"

text \<open>The lease \<^verbatim>\<open>UPDATE\<close> and the rest of the claim once a batch has been selected. An
  error returns before the commit, so the caller's database stands.\<close>

definition claim_selected ::
    "call_env \<Rightarrow> boundary_evidence \<Rightarrow> guidance_consumer \<Rightarrow> nat \<Rightarrow> string \<Rightarrow> db \<Rightarrow>
     gq_error + (guidance_batch \<times> db)" where
  "claim_selected e be c lease_seconds bid d =
     (let expires = lease_expiry e lease_seconds;
          sel = (\<lambda>r. b_batch_id r = bid \<and> b_state r = Pending \<and> b_available_at r \<le> clock e) in
      bindR (ensure (storable (gc_generation c)) IntegerOutOfRange) (\<lambda>_.
      bindR (ensure (sql_changed sel (batches d) = 1) ClaimLost) (\<lambda>_.
        let d' = d\<lparr>batches := sql_update sel (lease_row c expires) (batches d)\<rparr> in
        bindR (load_batch d' bid) (\<lambda>b. Inr (b, d')))))"

definition claim_next ::
    "call_env \<Rightarrow> boundary_evidence \<Rightarrow> guidance_consumer \<Rightarrow> nat \<Rightarrow> db \<Rightarrow>
     (gq_error + guidance_batch option) outcome \<times> db \<times> mirror_event list" where
  "claim_next e be c lease_seconds d =
     (case bindR (validate_identity (be_agent_id be) ''boundary agent'')
             (\<lambda>_. validate_id (gc_consumer_id c) ''consumer id'') of
        Inl err \<Rightarrow> (Returns (Inl err), d, [])
      | Inr _ \<Rightarrow>
        if \<not> can_offer_steering (be_phase be) then (Returns (Inr None), d, [])
        else if be_phase be = WouldStop \<and> \<not> can_offer_follow_up (be_phase be)
        then (Returns (Inr None), d, [])
        else
          let agent = normalize_agent_id (be_agent_id be);
              (d1, recovered) = recover_expired_in_tx (clock e) d
          in if has_active_lease agent (clock e) d1 then claim_nothing d1 recovered
             else if be_phase be = WouldStop \<and> steering_pending agent d1
                     \<and> \<not> steering_available agent (clock e) d1
             then claim_nothing d1 recovered
             else (case earliest (claimable (be_phase be) agent (clock e)) (batches d1) of
                     None \<Rightarrow> claim_nothing d1 recovered
                   | Some r \<Rightarrow>
                     (case claim_selected e be c lease_seconds (b_batch_id r) d1 of
                        Inl err \<Rightarrow> (Returns (Inl err), d, [])
                      | Inr (b, d2) \<Rightarrow>
                          (Returns (Inr (Some b)), d2,
                           the (emit_recovery_events False d2 recovered) @ [claim_event be c b]))))"

definition pending_agent_ids :: "db \<Rightarrow> int \<Rightarrow> string list" where
  "pending_agent_ids d t =
     sort (remdups (map b_agent_id
       (filter (\<lambda>r. b_state r = Pending \<and> b_available_at r \<le> t) (batches d))))"

section \<open>Transport\<close>

definition attempt_transaction ::
    "call_env \<Rightarrow> string \<Rightarrow> string \<Rightarrow> db \<Rightarrow> gq_error + (int \<times> guidance_batch \<times> db)" where
  "attempt_transaction e bid consumer d =
     (case row_of d bid of
        None \<Rightarrow> Inl BatchNotFound
      | Some r \<Rightarrow>
          bindR (ensure (\<not> (b_state r \<noteq> Leased \<or> b_lease_owner r \<noteq> Some consumer)) NotLeased) (\<lambda>_.
          bindR (ensure (b_attempt_count r + 1 \<le> i64_max) AttemptOverflow) (\<lambda>_.
            let n = b_attempt_count r + 1;
                d' = d\<lparr>batches := sql_update
                  (\<lambda>s. b_batch_id s = bid \<and> b_state s = Leased \<and> b_lease_owner s = Some consumer)
                  (\<lambda>s. s\<lparr>b_state := Submitted, b_attempt_count := n,
                         b_lease_expires_at := Some (sat_add (clock e) max_retry_backoff_seconds)\<rparr>)
                  (batches d)\<rparr>
            in bindR (load_batch d' bid) (\<lambda>b. Inr (n, b, d')))))"

definition record_transport_attempt ::
    "call_env \<Rightarrow> string \<Rightarrow> string \<Rightarrow> transport_attempt \<Rightarrow> db \<Rightarrow>
     (gq_error + int) \<times> db \<times> mirror_event list" where
  "record_transport_attempt e bid consumer ta d =
     (case bindR (validate_id bid ''batch id'') (\<lambda>_.
           bindR (validate_id consumer ''consumer id'') (\<lambda>_.
           bindR (validate_id (ta_method ta) ''transport method'') (\<lambda>_.
           bindR (validate_optional (\<lambda>x. validate_text x max_reason_bytes ''transport detail'')
                    (ta_detail ta)) (\<lambda>_.
             attempt_transaction e bid consumer d)))) of
        Inl err \<Rightarrow> (Inl err, d, [])
      | Inr (n, b, d') \<Rightarrow>
          (Inr n, d',
           [(''message.delivery'',
             with_batch_identity
               (JObj [(''consumer'', JStr consumer), (''attempt'', JInt n),
                      (''method'', JStr (ta_method ta)),
                      (''outcome'', JStr (outcome_str (ta_outcome ta))),
                      (''acceptance'', JStr ''unknown''), (''confidence'', JStr ''unknown''),
                      (''detail'', json_opt JStr (ta_detail ta))]) b),
            (state_changed,
             with_batch_identity
               (JObj [(''operation'', JStr ''transport_submitted''), (''consumer'', JStr consumer),
                      (''attempt'', JInt n), (''state'', JStr (state_str Submitted)),
                      (''acceptance'', JStr ''unknown''), (''confidence'', JStr ''unknown'')]) b)]))"

section \<open>Acknowledgement\<close>

definition evidence_matches_batch :: "guidance_batch \<Rightarrow> acceptance_evidence \<Rightarrow> bool" where
  "evidence_matches_batch b ev \<longleftrightarrow>
     (let r = gb_row b in
      b_agent_id r = normalize_agent_id (ae_agent_id ev)
      \<and> class_str (b_queue_class r) = ae_queue_class ev
      \<and> (case b_lease_owner r of None \<Rightarrow> True | Some owner \<Rightarrow> owner = ae_consumer_id ev)
      \<and> gi_invocation_id (b_identity r) = ae_invocation_id ev
      \<and> gi_generation (b_identity r) = ae_generation ev
      \<and> map i_item_id (gb_items b) = ae_item_ids ev)"

definition accept_row :: "int \<Rightarrow> batch_row \<Rightarrow> batch_row" where
  "accept_row t r = r\<lparr>b_state := Accepted, b_accepted_at := Some t, b_lease_owner := None,
     b_lease_expires_at := None\<rparr>"

definition ack_events :: "acceptance_evidence \<Rightarrow> guidance_batch \<Rightarrow> mirror_event list" where
  "ack_events ev b =
     [(state_changed,
       with_batch_identity
         (JObj [(''operation'', JStr ''acknowledge''), (''consumer'', JStr (ae_consumer_id ev)),
                (''evidence_kind'', JStr (kind_str (ae_evidence_kind ev))),
                (''acceptance'', JStr ''exact''),
                (''confidence'', JStr (confidence_str (ae_confidence ev)))]) b),
      (''message.consumed'',
       with_batch_identity
         (JObj [(''consumer'', JStr (ae_consumer_id ev)), (''ack_kind'', JStr ''runtime_accepted''),
                (''confidence'', JStr (confidence_str (ae_confidence ev))),
                (''item_count'', JInt (int (length (ae_item_ids ev))))]) b)]"

definition unproven_event :: "acceptance_evidence \<Rightarrow> guidance_batch \<Rightarrow> mirror_event" where
  "unproven_event ev b =
     (state_changed,
      with_batch_identity
        (JObj [(''operation'', JStr ''acknowledgement_unproven''),
               (''consumer'', JStr (ae_consumer_id ev)),
               (''state'', JStr (state_str (b_state (gb_row b)))),
               (''acceptance'', JStr ''unknown''),
               (''confidence'', JStr (confidence_str (ae_confidence ev))),
               (''evidence_kind'', JStr (kind_str (ae_evidence_kind ev)))]) b)"

definition acknowledge_loaded ::
    "call_env \<Rightarrow> acceptance_evidence \<Rightarrow> guidance_batch \<Rightarrow> db \<Rightarrow>
     ack_result \<times> db \<times> mirror_event list" where
  "acknowledge_loaded e ev b d =
     (let r = gb_row b in
      if b_agent_id r \<noteq> normalize_agent_id (ae_agent_id ev)
      then (AckRejected ''guidance target does not match evidence target'', d, [])
      else if b_state r = Accepted
      then (if evidence_matches_batch b ev then AckAlreadyAccepted
            else AckRejected ''duplicate acknowledgement identity mismatch'', d, [])
      else if \<not> in_flight (b_state r)
      then (AckRejected (''guidance batch is '' @ state_str (b_state r)), d, [])
      else if \<not> evidence_matches_batch b ev
      then (AckRejected ''acknowledgement identity does not match claimed batch'', d, [])
      else if ae_confidence ev \<noteq> Exact
      then (AckRejected ''non-exact runtime evidence cannot accept a guidance batch'', d,
            [unproven_event ev b])
      else
        let sel = (\<lambda>s. b_batch_id s = ae_batch_id ev \<and> in_flight (b_state s)
                       \<and> b_lease_owner s = Some (ae_consumer_id ev))
        in if sql_changed sel (batches d) \<noteq> 1
           then (AckRejected ''guidance batch changed before acknowledgement'',
                 d\<lparr>batches := sql_update sel (accept_row (clock e)) (batches d)\<rparr>, [])
           else (AckAccepted,
                 d\<lparr>batches := sql_update sel (accept_row (clock e)) (batches d)\<rparr>,
                 ack_events ev b))"

definition acknowledge_runtime ::
    "call_env \<Rightarrow> acceptance_evidence \<Rightarrow> db \<Rightarrow> (gq_error + ack_result) \<times> db \<times> mirror_event list" where
  "acknowledge_runtime e ev d =
     (case bindR (validate_id (ae_batch_id ev) ''batch id'') (\<lambda>_.
           bindR (validate_id (ae_agent_id ev) ''evidence agent'') (\<lambda>_.
           bindR (validate_id (ae_consumer_id ev) ''consumer id'') (\<lambda>_.
             load_batch_optional d (ae_batch_id ev)))) of
        Inl err \<Rightarrow> (Inl err, d, [])
      | Inr None \<Rightarrow> (Inr (AckRejected ''unknown guidance batch''), d, [])
      | Inr (Some b) \<Rightarrow>
          (case acknowledge_loaded e ev b d of (res, d', evs) \<Rightarrow> (Inr res, d', evs)))"

section \<open>Retry and cancellation\<close>

definition release_transaction ::
    "call_env \<Rightarrow> string \<Rightarrow> string \<Rightarrow> string \<Rightarrow> int \<Rightarrow> db \<Rightarrow>
     gq_error + (gstate \<times> int \<times> guidance_batch \<times> db)" where
  "release_transaction e bid consumer reason next_at d =
     (case row_of d bid of
        None \<Rightarrow> Inl BatchNotFound
      | Some r \<Rightarrow>
          bindR (ensure (\<not> (\<not> in_flight (b_state r) \<or> b_lease_owner r \<noteq> Some consumer)) NotRetryable) (\<lambda>_.
            let terminal = b_attempt_count r \<ge> max_retry_attempts;
                s' = (if terminal then Abandoned else Pending)
            in bindR (load_batch d bid) (\<lambda>b.
                 Inr (s', b_attempt_count r, b,
                   d\<lparr>batches := sql_update
                     (\<lambda>s. b_batch_id s = bid \<and> in_flight (b_state s) \<and> b_lease_owner s = Some consumer)
                     (\<lambda>s. s\<lparr>b_state := s', b_available_at := max next_at (clock e),
                            b_lease_owner := None, b_lease_expires_at := None,
                            b_terminal_at := (if terminal then Some (clock e) else None),
                            b_terminal_reason := (if terminal then Some reason else None)\<rparr>)
                     (batches d)\<rparr>))))"

definition release_for_retry ::
    "call_env \<Rightarrow> string \<Rightarrow> string \<Rightarrow> string \<Rightarrow> int \<Rightarrow> db \<Rightarrow>
     (gq_error + gstate) \<times> db \<times> mirror_event list" where
  "release_for_retry e bid consumer reason next_at d =
     (case bindR (validate_id bid ''batch id'') (\<lambda>_.
           bindR (validate_id consumer ''consumer id'') (\<lambda>_.
           bindR (validate_text reason max_reason_bytes ''retry reason'') (\<lambda>_.
             release_transaction e bid consumer reason next_at d))) of
        Inl err \<Rightarrow> (Inl err, d, [])
      | Inr (s', n, b, d') \<Rightarrow>
          (Inr s', d',
           (state_changed,
            with_batch_identity
              (JObj [(''operation'',
                       JStr (if s' = Abandoned then ''abandon'' else ''release_for_retry'')),
                     (''consumer'', JStr consumer), (''state'', JStr (state_str s')),
                     (''reason'', JStr reason), (''available_at'', JInt (max next_at (clock e))),
                     (''attempt'', JInt n)]) b) #
           (if s' = Abandoned
            then [(''agent_inbox.messages_abandoned'',
                   with_batch_identity
                     (JObj [(''consumer'', JStr consumer), (''reason'', JStr reason),
                            (''attempt'', JInt n)]) b)]
            else [])))"

definition cancel_row :: "int \<Rightarrow> string \<Rightarrow> batch_row \<Rightarrow> batch_row" where
  "cancel_row t reason r = r\<lparr>b_state := Cancelled, b_lease_owner := None,
     b_lease_expires_at := None, b_terminal_at := Some t, b_terminal_reason := Some reason\<rparr>"

definition cancel_batch ::
    "call_env \<Rightarrow> string \<Rightarrow> string \<Rightarrow> db \<Rightarrow> (gq_error + gstate) \<times> db \<times> mirror_event list" where
  "cancel_batch e bid reason d =
     (case bindR (validate_id bid ''batch id'') (\<lambda>_.
           bindR (validate_text reason max_reason_bytes ''cancel reason'') (\<lambda>_.
             case row_of d bid of None \<Rightarrow> Inl BatchNotFound | Some r \<Rightarrow> Inr r)) of
        Inl err \<Rightarrow> (Inl err, d, [])
      | Inr r \<Rightarrow>
          if is_terminal (b_state r) then (Inr (b_state r), d, [])
          else (case load_batch d bid of
                  Inl err \<Rightarrow> (Inl err, d, [])
                | Inr b \<Rightarrow>
                    (Inr Cancelled,
                     d\<lparr>batches := sql_update
                       (\<lambda>s. b_batch_id s = bid \<and> (b_state s = Pending \<or> in_flight (b_state s)))
                       (cancel_row (clock e) reason) (batches d)\<rparr>,
                     [(state_changed,
                       with_batch_identity
                         (JObj [(''operation'', JStr ''cancel''),
                                (''state'', JStr (state_str Cancelled)),
                                (''reason'', JStr reason),
                                (''consumer'', json_opt JStr (b_lease_owner (gb_row b))),
                                (''attempt'', JInt (b_attempt_count (gb_row b)))]) b)])))"

end
