(* ===== verification/Guidance_Invariant.thy ===== *)
theory Guidance_Invariant
  imports Guidance_Ops
begin

text \<open>
  The lifecycle of one batch as an abstract step relation, the invariant of the queue's tables,
  and the proof that every operation of the queue moves rows along the lifecycle only and keeps
  the invariant: unique keys, a lease exactly on the batches in flight, the retry budget, and at
  most one batch in flight per agent.
\<close>

section \<open>The lifecycle of a batch\<close>

definition release_row :: "int \<Rightarrow> int \<Rightarrow> string \<Rightarrow> batch_row \<Rightarrow> batch_row" where
  "release_row t available reason r =
     (let terminal = b_attempt_count r \<ge> max_retry_attempts in
      r\<lparr>b_state := recovered_state (b_attempt_count r), b_available_at := available,
        b_lease_owner := None, b_lease_expires_at := None,
        b_terminal_at := (if terminal then Some t else None),
        b_terminal_reason := (if terminal then Some reason else None)\<rparr>)"

definition submit_row :: "int \<Rightarrow> batch_row \<Rightarrow> batch_row" where
  "submit_row expires r = r\<lparr>b_state := Submitted, b_attempt_count := b_attempt_count r + 1,
     b_lease_expires_at := Some expires\<rparr>"

inductive life :: "batch_row \<Rightarrow> batch_row \<Rightarrow> bool" where
  life_lease: "b_state r = Pending \<Longrightarrow> life r (lease_row c expires r)"
| life_submit: "b_state r = Leased \<Longrightarrow> life r (submit_row expires r)"
| life_accept: "in_flight (b_state r) \<Longrightarrow> life r (accept_row t r)"
| life_release: "in_flight (b_state r) \<Longrightarrow> life r (release_row t available reason r)"
| life_cancel: "\<not> is_terminal (b_state r) \<Longrightarrow> life r (cancel_row t reason r)"

inductive_cases life_cases: "life r s"

lemmas row_defs = lease_row_def submit_row_def accept_row_def release_row_def cancel_row_def
  recovered_state_def Let_def

text \<open>The columns that identify a batch never change.\<close>

definition row_key :: "batch_row \<Rightarrow> string \<times> string \<times> queue_class \<times> int \<times> string option" where
  "row_key r = (b_batch_id r, b_agent_id r, b_queue_class r, b_queue_seq r, b_idempotency_key r)"

lemma life_key: "life r s \<Longrightarrow> row_key s = row_key r"
  by (induction rule: life.induct) (auto simp: row_defs row_key_def)

lemma life_terminal: "life r s \<Longrightarrow> \<not> is_terminal (b_state r)"
  by (induction rule: life.induct) (auto simp: in_flight_def)

definition retry_bound :: "batch_row \<Rightarrow> bool" where
  "retry_bound r \<longleftrightarrow> 0 \<le> b_attempt_count r \<and>
     (case b_state r of
        Pending \<Rightarrow> b_attempt_count r < max_retry_attempts
      | Leased \<Rightarrow> b_attempt_count r < max_retry_attempts
      | Submitted \<Rightarrow> 1 \<le> b_attempt_count r \<and> b_attempt_count r \<le> max_retry_attempts
      | Abandoned \<Rightarrow> b_attempt_count r = max_retry_attempts
      | _ \<Rightarrow> b_attempt_count r \<le> max_retry_attempts)"

definition lease_shape :: "batch_row \<Rightarrow> bool" where
  "lease_shape r \<longleftrightarrow>
     (b_lease_owner r \<noteq> None \<longleftrightarrow> in_flight (b_state r))
     \<and> (b_lease_expires_at r \<noteq> None \<longleftrightarrow> in_flight (b_state r))
     \<and> (b_accepted_at r \<noteq> None \<longleftrightarrow> b_state r = Accepted)
     \<and> (b_terminal_at r \<noteq> None \<longleftrightarrow> b_state r = Abandoned \<or> b_state r = Cancelled)
     \<and> (b_terminal_reason r \<noteq> None \<longleftrightarrow> b_state r = Abandoned \<or> b_state r = Cancelled)"

definition row_ok :: "batch_row \<Rightarrow> bool" where
  "row_ok r \<longleftrightarrow> 0 \<le> b_queue_seq r \<and> b_queue_seq r \<le> i64_max \<and> retry_bound r \<and> lease_shape r"

lemma life_row_ok: "life r s \<Longrightarrow> row_ok r \<Longrightarrow> row_ok s"
  by (induction rule: life.induct)
    (auto simp: row_defs row_ok_def retry_bound_def lease_shape_def max_retry_attempts_def
       in_flight_def is_terminal_def split: gstate.splits)

lemma new_row_ok: "0 \<le> sq \<Longrightarrow> sq \<le> i64_max \<Longrightarrow> row_ok (new_batch_row e rq agent sq)"
  by (simp add: new_batch_row_def row_ok_def retry_bound_def lease_shape_def max_retry_attempts_def)

section \<open>Tables that evolve along the lifecycle\<close>

definition evolves :: "batch_row list \<Rightarrow> batch_row list \<Rightarrow> bool" where
  "evolves rs ss \<longleftrightarrow> list_all2 (\<lambda>r s. s = r \<or> life r s) rs ss"

lemma evolves_refl [simp]: "evolves rs rs"
  by (simp add: evolves_def list_all2_refl)

lemma evolves_update:
  "(\<And>r. r \<in> set rs \<Longrightarrow> p r \<Longrightarrow> life r (f r)) \<Longrightarrow> evolves rs (sql_update p f rs)"
  by (auto simp: evolves_def sql_update_def list_all2_conv_all_nth)

lemma evolves_map:
  assumes "evolves rs ss" and "\<And>r s. life r s \<Longrightarrow> g s = g r"
  shows "map g ss = map g rs"
  using assms by (auto simp: evolves_def list_all2_conv_all_nth intro!: nth_equalityI)

lemma evolves_keys: "evolves rs ss \<Longrightarrow> map row_key ss = map row_key rs"
  by (rule evolves_map) (auto dest: life_key)

lemma map_row_key_proj:
  "map row_key ss = map row_key rs \<Longrightarrow> (\<And>r. g r = h (row_key r)) \<Longrightarrow> map g ss = map g rs"
  by (metis (mono_tags, lifting) list.map_comp map_eq_conv comp_apply)

lemma evolves_ids: "evolves rs ss \<Longrightarrow> map b_batch_id ss = map b_batch_id rs"
  by (rule evolves_map) (auto dest: life_key simp: row_key_def)

lemma evolves_in:
  assumes "evolves rs ss" and "s \<in> set ss"
  obtains r where "r \<in> set rs" and "s = r \<or> life r s"
proof -
  from assms obtain i where "i < length rs" and "s = rs ! i \<or> life (rs ! i) s"
    by (auto simp: evolves_def list_all2_conv_all_nth in_set_conv_nth)
  then show thesis by (intro that [of "rs ! i"]) auto
qed

lemma evolves_row_ok: "evolves rs ss \<Longrightarrow> (\<forall>r \<in> set rs. row_ok r) \<Longrightarrow> (\<forall>s \<in> set ss. row_ok s)"
  by (metis evolves_in life_row_ok)

lemma evolves_terminal:
  assumes "evolves rs ss" and "distinct (map b_batch_id rs)"
    and "r \<in> set rs" and "is_terminal (b_state r)"
  shows "r \<in> set ss"
  using assms life_terminal by (fastforce simp: evolves_def list_all2_conv_all_nth in_set_conv_nth)

section \<open>The invariant\<close>

definition idem_keys :: "batch_row list \<Rightarrow> (string \<times> string option) list" where
  "idem_keys rs = map (\<lambda>r. (b_agent_id r, b_idempotency_key r))
     (filter (\<lambda>r. b_idempotency_key r \<noteq> None) rs)"

definition keys_ok :: "batch_row list \<Rightarrow> bool" where
  "keys_ok rs \<longleftrightarrow> distinct (map b_batch_id rs)
     \<and> distinct (map (\<lambda>r. (b_agent_id r, b_queue_seq r)) rs)
     \<and> distinct (idem_keys rs)"

definition single_flight :: "batch_row list \<Rightarrow> bool" where
  "single_flight rs \<longleftrightarrow> distinct (map b_agent_id (filter (\<lambda>r. in_flight (b_state r)) rs))"

definition items_ok :: "db \<Rightarrow> string \<Rightarrow> bool" where
  "items_ok d bid \<longleftrightarrow> batch_items d bid \<noteq> [] \<and> length (batch_items d bid) \<le> max_batch_items
     \<and> positions_from 0 (batch_items d bid)"

definition item_table_ok :: "db \<Rightarrow> bool" where
  "item_table_ok d \<longleftrightarrow> distinct (map i_item_id (items d))
     \<and> list_all (\<lambda>i. i_batch_id i \<in> set (map b_batch_id (batches d))) (items d)
     \<and> list_all (items_ok d) (map b_batch_id (batches d))"

definition gq_inv :: "db \<Rightarrow> bool" where
  "gq_inv d \<longleftrightarrow> keys_ok (batches d) \<and> list_all row_ok (batches d)
     \<and> single_flight (batches d) \<and> item_table_ok d"

lemma gq_inv_empty: "gq_inv empty_db"
  by (simp add: gq_inv_def empty_db_def keys_ok_def idem_keys_def single_flight_def
      item_table_ok_def)

lemma idem_keys_eq: "idem_keys rs = filter (\<lambda>k. snd k \<noteq> None)
    (map (\<lambda>r. (b_agent_id r, b_idempotency_key r)) rs)"
  by (simp add: idem_keys_def filter_map comp_def)

lemma keys_ok_evolves:
  assumes "evolves rs ss" shows "keys_ok ss = keys_ok rs"
proof -
  note k = evolves_keys [OF assms]
  have "map b_batch_id ss = map b_batch_id rs"
    by (rule map_row_key_proj [OF k, where h = fst]) (simp add: row_key_def)
  moreover have "map (\<lambda>r. (b_agent_id r, b_queue_seq r)) ss = map (\<lambda>r. (b_agent_id r, b_queue_seq r)) rs"
    by (rule map_row_key_proj [OF k, where h = "\<lambda>(_, a, _, q, _). (a, q)"]) (simp add: row_key_def)
  moreover have "idem_keys ss = idem_keys rs"
    unfolding idem_keys_eq
    by (subst map_row_key_proj [OF k, where h = "\<lambda>(_, a, _, _, i). (a, i)"])
      (simp_all add: row_key_def)
  ultimately show ?thesis by (simp add: keys_ok_def)
qed

lemma batch_items_batches [simp]: "batch_items (d\<lparr>batches := bs\<rparr>) bid = batch_items d bid"
  by (simp add: batch_items_def)

lemma items_ok_batches [simp]: "items_ok (d\<lparr>batches := bs\<rparr>) bid = items_ok d bid"
  by (simp add: items_ok_def)

text \<open>An operation that moves rows along the lifecycle and leaves the items alone keeps
  everything but, perhaps, the single batch in flight.\<close>

lemma gq_inv_evolves:
  assumes "gq_inv d" and "evolves (batches d) bs" and "single_flight bs"
  shows "gq_inv (d\<lparr>batches := bs\<rparr>)"
proof -
  from assms(1,2) have "\<forall>s \<in> set bs. row_ok s"
    by (intro evolves_row_ok [OF assms(2)]) (simp add: gq_inv_def list_all_iff)
  with assms show ?thesis
    by (simp add: gq_inv_def keys_ok_evolves item_table_ok_def evolves_ids list_all_iff)
qed

text \<open>Leaving flight, or staying in it, cannot create a second batch in flight.\<close>

lemma single_flight_shrinks:
  assumes "single_flight rs" and "\<And>r. p r \<Longrightarrow> b_agent_id (f r) = b_agent_id r"
    and "\<And>r. p r \<Longrightarrow> in_flight (b_state (f r)) \<Longrightarrow> in_flight (b_state r)"
  shows "single_flight (sql_update p f rs)"
  using assms(1)
proof (induction rs)
  case (Cons r rs)
  have "set (map b_agent_id (filter (\<lambda>r. in_flight (b_state r)) (sql_update p f rs)))
      \<subseteq> set (map b_agent_id (filter (\<lambda>r. in_flight (b_state r)) rs))"
    using assms(2,3) by (fastforce simp: sql_update_def)
  with Cons assms(2,3) show ?case
    by (auto simp: single_flight_def sql_update_def split: if_splits)
qed simp

section \<open>Loading and finding rows\<close>

definition loaded :: "db \<Rightarrow> batch_row \<Rightarrow> guidance_batch" where
  "loaded d r = \<lparr>gb_row = r,
     gb_acceptance_confidence = (if b_state r = Accepted then Exact else Unknown),
     gb_items = batch_items d (b_batch_id r)\<rparr>"

lemma loaded_simps [simp]:
  "gb_row (loaded d r) = r" "gb_items (loaded d r) = batch_items d (b_batch_id r)"
  by (simp_all add: loaded_def)

lemma row_of_SomeD: "row_of d bid = Some r \<Longrightarrow> r \<in> set (batches d) \<and> b_batch_id r = bid"
  unfolding row_of_def by (rule find_key_SomeD)

lemma row_of_None: "row_of d bid = None \<longleftrightarrow> bid \<notin> b_batch_id ` set (batches d)"
  by (auto simp: row_of_def find_None_iff)

lemma row_of_in:
  "gq_inv d \<Longrightarrow> r \<in> set (batches d) \<Longrightarrow> row_of d (b_batch_id r) = Some r"
  unfolding row_of_def by (rule find_distinct_key) (simp_all add: gq_inv_def keys_ok_def)

lemma load_batch_eq:
  "row_of d bid = Some r \<Longrightarrow> items_ok d bid \<Longrightarrow> load_batch d bid = Inr (loaded d r)"
  by (auto simp: load_batch_def validate_item_positions_def items_ok_def ensure_def loaded_def
      dest: row_of_SomeD)

lemma load_batch_InrD:
  "load_batch d bid = Inr b \<Longrightarrow> \<exists>r. row_of d bid = Some r \<and> b = loaded d r"
  by (auto simp: load_batch_def loaded_def dest: row_of_SomeD split: option.splits)

lemma gq_inv_items_ok: "gq_inv d \<Longrightarrow> row_of d bid = Some r \<Longrightarrow> items_ok d bid"
  by (auto simp: gq_inv_def item_table_ok_def list_all_iff dest: row_of_SomeD)

lemma gq_inv_load: "gq_inv d \<Longrightarrow> row_of d bid = Some r \<Longrightarrow> load_batch d bid = Inr (loaded d r)"
  by (simp add: load_batch_eq gq_inv_items_ok)

lemma gq_inv_row_ok: "gq_inv d \<Longrightarrow> r \<in> set (batches d) \<Longrightarrow> row_ok r"
  by (simp add: gq_inv_def list_all_iff)

lemma gq_inv_same_id:
  "gq_inv d \<Longrightarrow> r \<in> set (batches d) \<Longrightarrow> s \<in> set (batches d) \<Longrightarrow>
     b_batch_id r = b_batch_id s \<Longrightarrow> r = s"
  by (rule distinct_map_unique [where k = b_batch_id]) (auto simp: gq_inv_def keys_ok_def)

text \<open>A selection that pins the batch identifier selects at most the one row.\<close>

lemma update_by_id:
  assumes "gq_inv d" and "row_of d bid = Some r" and "p r"
  shows "sql_update (\<lambda>s. b_batch_id s = bid \<and> p s) f (batches d)
       = sql_update (\<lambda>s. s = r) f (batches d)"
  using assms row_of_SomeD [OF assms(2)]
  by (auto simp: sql_update_def dest: gq_inv_same_id)

lemma changed_by_id:
  assumes "gq_inv d" and "row_of d bid = Some r" and "p r"
  shows "sql_changed (\<lambda>s. b_batch_id s = bid \<and> p s) (batches d) = 1"
proof -
  have "distinct (map b_batch_id rs) \<Longrightarrow> r \<in> set rs \<Longrightarrow> p r \<Longrightarrow>
      length (filter (\<lambda>s. b_batch_id s = b_batch_id r \<and> p s) rs) = 1" for rs
    by (induction rs) (auto simp: image_iff filter_empty_conv)
  with assms row_of_SomeD [OF assms(2)] show ?thesis
    by (auto simp: sql_changed_def gq_inv_def keys_ok_def)
qed

section \<open>Lease recovery\<close>

definition recover_update :: "int \<Rightarrow> batch_row \<Rightarrow> batch_row" where
  "recover_update t r = release_row t
     (if b_attempt_count r \<ge> max_retry_attempts then t
      else sat_add t (retry_backoff_seconds (b_attempt_count r)))
     ''lease_expired_retry_budget'' r"

lemma recover_row_own: "recover_row t (b_attempt_count r) r = recover_update t r"
  by (simp add: recover_row_def recover_update_def release_row_def Let_def)

lemma recover_row_simps [simp]:
  "b_batch_id (recover_row t n r) = b_batch_id r" "\<not> expired t' (recover_row t n r)"
  by (auto simp: recover_row_def recovered_state_def expired_def Let_def)

lemma recover_rows_map:
  "recover_rows t ex rs =
     map (\<lambda>r. if expired t r
              then (case map_of ex (b_batch_id r) of Some n \<Rightarrow> recover_row t n r | None \<Rightarrow> r)
              else r) rs"
  by (induction t ex rs rule: recover_rows.induct)
    (auto simp: sql_update_def cong: if_cong)

lemma recover_batches:
  assumes "distinct (map b_batch_id (batches d))"
  shows "fst (recover_expired_in_tx t d) =
    d\<lparr>batches := sql_update (expired t) (recover_update t) (batches d)\<rparr>"
proof -
  define sel where "sel = filter (expired t) (batches d)"
  have "map_of (map (\<lambda>r. (b_batch_id r, b_attempt_count r)) sel) (b_batch_id r)
      = Some (b_attempt_count r)" if "r \<in> set (batches d)" and "expired t r" for r
  proof (rule map_of_is_SomeI)
    show "distinct (map fst (map (\<lambda>r. (b_batch_id r, b_attempt_count r)) sel))"
      using assms by (simp add: sel_def comp_def distinct_map_filter)
    show "(b_batch_id r, b_attempt_count r) \<in> set (map (\<lambda>r. (b_batch_id r, b_attempt_count r)) sel)"
      using that by (auto simp: sel_def)
  qed
  then show ?thesis
    by (simp add: recover_expired_in_tx_def recover_rows_map sql_update_def Let_def
        recover_row_own flip: sel_def)
qed

lemma recover_list:
  "snd (recover_expired_in_tx t d) =
     map (\<lambda>r. (b_batch_id r, recovered_state (b_attempt_count r))) (filter (expired t) (batches d))"
  by (simp add: recover_expired_in_tx_def Let_def)

lemma expired_in_flight: "expired t r \<Longrightarrow> in_flight (b_state r)"
  by (simp add: expired_def)

lemma life_recover: "expired t r \<Longrightarrow> life r (recover_update t r)"
  unfolding recover_update_def by (intro life_release expired_in_flight)

lemma release_row_simps [simp]:
  "b_agent_id (release_row t a x r) = b_agent_id r" "b_batch_id (release_row t a x r) = b_batch_id r"
  "\<not> in_flight (b_state (release_row t a x r))"
  by (auto simp: release_row_def recovered_state_def Let_def)

lemma gq_inv_recover:
  assumes "gq_inv d"
  shows "gq_inv (fst (recover_expired_in_tx t d))"
proof -
  from assms have "distinct (map b_batch_id (batches d))" by (simp add: gq_inv_def keys_ok_def)
  moreover have "evolves (batches d) (sql_update (expired t) (recover_update t) (batches d))"
    by (intro evolves_update life_recover)
  moreover have "single_flight (sql_update (expired t) (recover_update t) (batches d))"
    using assms by (intro single_flight_shrinks) (auto simp: gq_inv_def recover_update_def)
  ultimately show ?thesis using assms by (simp add: recover_batches gq_inv_evolves)
qed

text \<open>After recovery every batch still in flight has an unexpired lease, so that a claim that
  sees no active lease sees no batch in flight.\<close>

lemma no_active_lease:
  assumes "gq_inv d" and "\<not> has_active_lease agent t (fst (recover_expired_in_tx t d))"
    and "r \<in> set (batches (fst (recover_expired_in_tx t d)))" and "b_agent_id r = agent"
  shows "\<not> in_flight (b_state r)"
proof
  assume f: "in_flight (b_state r)"
  have ok: "row_ok r" by (rule gq_inv_row_ok [OF gq_inv_recover [OF assms(1)] assms(3)])
  with f obtain x where x: "b_lease_expires_at r = Some x" by (auto simp: row_ok_def lease_shape_def)
  with assms(2-4) f have "x \<le> t" by (auto simp: has_active_lease_def list_ex_iff)
  with f x have "expired t r" by (simp add: expired_def)
  moreover have "\<not> expired t r"
    using assms(1,3) by (auto simp: recover_batches gq_inv_def keys_ok_def set_sql_update
        recover_update_def dest: expired_in_flight)
  ultimately show False by simp
qed

end
