(* ===== verification/Guidance_Preservation.thy ===== *)
theory Guidance_Preservation
  imports Guidance_Invariant
begin

text \<open>
  Every operation of the guidance queue keeps the invariant, one section per operation, and each
  section says what a successful call did to the tables.
\<close>

section \<open>Enqueue\<close>

lemma next_queue_seq_Max:
  "next_queue_seq d agent =
     Max (insert (- 1) (b_queue_seq ` {r \<in> set (batches d). b_agent_id r = agent})) + 1"
  by (simp add: next_queue_seq_def flip: Max.set_eq_fold)

lemma next_queue_seq_gt:
  "r \<in> set (batches d) \<Longrightarrow> b_agent_id r = agent \<Longrightarrow> b_queue_seq r < next_queue_seq d agent"
proof -
  assume "r \<in> set (batches d)" and "b_agent_id r = agent"
  then have "b_queue_seq r \<le> Max (insert (- 1) (b_queue_seq ` {r \<in> set (batches d). b_agent_id r = agent}))"
    by (intro Max_ge) auto
  then show ?thesis by (simp add: next_queue_seq_Max)
qed

lemma next_queue_seq_nonneg: "0 \<le> next_queue_seq d agent"
proof -
  have "- 1 \<le> Max (insert (- 1) (b_queue_seq ` {r \<in> set (batches d). b_agent_id r = agent}))"
    by (intro Max_ge) auto
  then show ?thesis unfolding next_queue_seq_Max by linarith
qed

fun item_rows :: "call_env \<Rightarrow> nat \<Rightarrow> item_input list \<Rightarrow> item_row list" where
  "item_rows e pos [] = []"
| "item_rows e pos (i # is) = new_item_row e pos i # item_rows e (Suc pos) is"

lemma new_item_row_simps [simp]:
  "i_batch_id (new_item_row e n i) = uuid e 0" "i_position (new_item_row e n i) = int n"
  "i_item_id (new_item_row e n i) = uuid e (Suc n)"
  by (simp_all add: new_item_row_def)

lemma item_rows_simps [simp]:
  "length (item_rows e n is) = length is" "item_rows e n is = [] \<longleftrightarrow> is = []"
  "\<forall>i \<in> set (item_rows e n is). i_batch_id i = uuid e 0"
  by (induction "is" arbitrary: n) auto

lemma item_rows_ids: "map i_item_id (item_rows e n is) = map (\<lambda>k. uuid e (Suc k)) [n ..< n + length is]"
  by (induction "is" arbitrary: n) (simp_all add: upt_conv_Cons del: upt_Suc)

lemma item_rows_sorted:
  "sorted (map i_position (item_rows e n is)) \<and>
   (\<forall>i \<in> set (item_rows e n is). int n \<le> i_position i)"
proof (induction "is" arbitrary: n)
  case (Cons i "is")
  from Cons [of "Suc n"] show ?case by fastforce
qed simp

lemma insert_items_InrD:
  "insert_items e n is t = Inr t' \<Longrightarrow>
     t' = t @ item_rows e n is \<and> positions_from n (item_rows e n is)
     \<and> (distinct (map i_item_id t) \<longrightarrow> distinct (map i_item_id t'))"
proof (induction "is" arbitrary: n t)
  case (Cons i "is")
  from Cons.prems obtain t1 where pos: "int n \<le> i64_max"
      and t1: "insert_item_row (new_item_row e n i) t = Inr t1"
      and rest: "insert_items e (Suc n) is t1 = Inr t'" by auto
  from t1 have eq: "t1 = t @ [new_item_row e n i]"
      and dist: "distinct (map i_item_id t) \<longrightarrow> distinct (map i_item_id t1)"
    by (fastforce simp: insert_item_row_def list_ex_iff split: if_splits)+
  note ih = Cons.IH [OF rest]
  then have "t' = t @ item_rows e n (i # is)" using eq by simp
  moreover from ih pos have "positions_from n (item_rows e n (i # is))" by simp
  moreover from ih dist have "distinct (map i_item_id t) \<longrightarrow> distinct (map i_item_id t')" by blast
  ultimately show ?case by blast
qed simp

lemma insert_new_batch_InrD:
  assumes "insert_new_batch e rq agent d = Inr (res, d')"
  shows "\<exists>row. row = new_batch_row e rq agent (next_queue_seq d agent)
     \<and> batches d' = batches d @ [row] \<and> items d' = items d @ item_rows e 0 (rq_items rq)
     \<and> messages d' = messages d \<and> metas d' = metas d
     \<and> insert_batch_row row (batches d) = Inr (batches d')
     \<and> insert_items e 0 (rq_items rq) (items d) = Inr (items d')
     \<and> er_created res \<and> load_batch d' (uuid e 0) = Inr (er_batch res)
     \<and> next_queue_seq d agent \<le> i64_max"
  using assms
  by (auto simp: insert_new_batch_def Let_def insert_batch_row_def split: if_splits
      dest: insert_items_InrD)

lemma insert_batch_row_keys:
  assumes "insert_batch_row n t = Inr t'" and "keys_ok t"
  shows "keys_ok t' \<and> b_batch_id n \<notin> b_batch_id ` set t"
proof -
  from assms(1) have t': "t' = t @ [n]"
    and no: "\<And>r. r \<in> set t \<Longrightarrow> b_batch_id r \<noteq> b_batch_id n
        \<and> (b_agent_id r, b_queue_seq r) \<noteq> (b_agent_id n, b_queue_seq n)
        \<and> (b_idempotency_key n \<noteq> None \<longrightarrow>
             (b_agent_id r, b_idempotency_key r) \<noteq> (b_agent_id n, b_idempotency_key n))"
    by (auto simp: insert_batch_row_def list_ex_iff split: if_splits)
  from no have fresh: "b_batch_id n \<notin> b_batch_id ` set t" by (metis imageE)
  moreover from no have "(b_agent_id n, b_queue_seq n) \<notin> (\<lambda>r. (b_agent_id r, b_queue_seq r)) ` set t"
    by (metis (no_types, lifting) image_iff)
  moreover from no have "b_idempotency_key n \<noteq> None \<Longrightarrow>
      (b_agent_id n, b_idempotency_key n) \<notin> set (idem_keys t)"
    unfolding idem_keys_def by (auto simp: image_iff)
  ultimately show ?thesis
    using assms(2) by (simp add: keys_ok_def t' idem_keys_def)
qed

lemma new_batch_row_simps [simp]:
  "b_batch_id (new_batch_row e rq a q) = uuid e 0" "b_agent_id (new_batch_row e rq a q) = a"
  "b_state (new_batch_row e rq a q) = Pending" "b_queue_seq (new_batch_row e rq a q) = q"
  "b_queue_class (new_batch_row e rq a q) = rq_queue_class rq"
  "b_idempotency_key (new_batch_row e rq a q) = rq_idempotency_key rq"
  "b_identity (new_batch_row e rq a q) = rq_identity rq"
  "b_available_at (new_batch_row e rq a q) = clock e"
  "b_source_message_id (new_batch_row e rq a q) = rq_source_message_id rq"
  by (simp_all add: new_batch_row_def)

lemma batch_items_append:
  assumes "items d' = items d @ item_rows e 0 is"
  shows "bid \<noteq> uuid e 0 \<Longrightarrow> batch_items d' bid = batch_items d bid"
    and "\<forall>i \<in> set (items d). i_batch_id i \<noteq> uuid e 0 \<Longrightarrow> batch_items d' (uuid e 0) = item_rows e 0 is"
proof -
  have new: "filter (\<lambda>i. i_batch_id i = bid) (item_rows e 0 is)
      = (if bid = uuid e 0 then item_rows e 0 is else [])" for bid
    by (auto simp: filter_empty_conv intro: filter_True)
  show "bid \<noteq> uuid e 0 \<Longrightarrow> batch_items d' bid = batch_items d bid"
    using new [of bid] by (simp add: batch_items_def assms)
  show "\<forall>i \<in> set (items d). i_batch_id i \<noteq> uuid e 0 \<Longrightarrow> batch_items d' (uuid e 0) = item_rows e 0 is"
    using new [of "uuid e 0"] item_rows_sorted [of e 0 "is"]
    by (simp add: batch_items_def assms filter_False sort_key_id_if_sorted)
qed

lemma gq_inv_fresh_items:
  "gq_inv d \<Longrightarrow> bid \<notin> b_batch_id ` set (batches d) \<Longrightarrow> \<forall>i \<in> set (items d). i_batch_id i \<noteq> bid"
  by (auto simp: gq_inv_def item_table_ok_def list_all_iff)

lemma gq_inv_insert:
  assumes inv: "gq_inv d" and ins: "insert_new_batch e rq agent d = Inr (res, d')"
    and req: "rq_items rq \<noteq> []" "length (rq_items rq) \<le> max_batch_items"
  shows "gq_inv d' \<and> batch_items d' (uuid e 0) = item_rows e 0 (rq_items rq)
     \<and> uuid e 0 \<notin> b_batch_id ` set (batches d)"
proof -
  define row where "row = new_batch_row e rq agent (next_queue_seq d agent)"
  from insert_new_batch_InrD [OF ins]
  have bs: "batches d' = batches d @ [row]" and its: "items d' = items d @ item_rows e 0 (rq_items rq)"
    and brow: "insert_batch_row row (batches d) = Inr (batches d')"
    and irow: "insert_items e 0 (rq_items rq) (items d) = Inr (items d')"
    and seq: "next_queue_seq d agent \<le> i64_max"
    by (auto simp: row_def)
  from insert_batch_row_keys [OF brow] inv
  have keys: "keys_ok (batches d')" and fresh: "uuid e 0 \<notin> b_batch_id ` set (batches d)"
    by (auto simp: gq_inv_def row_def)
  have new: "batch_items d' (uuid e 0) = item_rows e 0 (rq_items rq)"
    by (rule batch_items_append(2) [OF its gq_inv_fresh_items [OF inv fresh]])
  have "items_ok d' (uuid e 0)"
    using insert_items_InrD [OF irow] req by (simp add: items_ok_def new)
  moreover have "items_ok d' bid" if old: "bid \<in> b_batch_id ` set (batches d)" for bid
  proof -
    from old fresh have "bid \<noteq> uuid e 0" by blast
    then have "batch_items d' bid = batch_items d bid" by (rule batch_items_append(1) [OF its])
    moreover from old inv have "items_ok d bid"
      by (auto simp: gq_inv_def item_table_ok_def list_all_iff)
    ultimately show ?thesis by (simp add: items_ok_def)
  qed
  moreover have "distinct (map i_item_id (items d'))"
    using insert_items_InrD [OF irow] inv unfolding gq_inv_def item_table_ok_def by blast
  ultimately have "item_table_ok d'"
    using inv by (auto simp: item_table_ok_def gq_inv_def list_all_iff bs its row_def)
  with keys inv seq have "gq_inv d'"
    by (simp add: gq_inv_def bs row_def single_flight_def new_row_ok next_queue_seq_nonneg)
  with new fresh show ?thesis by simp
qed

lemma validate_batch_request_Inr:
  "validate_batch_request rq = Inr u \<Longrightarrow>
     rq_items rq \<noteq> [] \<and> length (rq_items rq) \<le> max_batch_items"
  by (auto simp: validate_batch_request_def)

text \<open>What an enqueue did: nothing on an error, nothing on an idempotent replay, or one new
  pending batch with the request's items.\<close>

lemma enqueue_batch_cases:
  assumes "enqueue_batch e rq d = (r, d', evs)"
  obtains (failed) err where "r = Inl err" and "d' = d" and "evs = []"
    | (replayed) res bid key where "r = Inr res" and "d' = d" and "evs = []"
        and "\<not> er_created res" and "rq_idempotency_key rq = Some key"
        and "find_idempotent_batch d (normalize_agent_id (rq_agent_id rq)) key (rq_queue_class rq) = Inr (Some bid)"
        and "load_batch d bid = Inr (er_batch res)"
    | (created) res where "r = Inr res" and "er_created res" and "evs = append_enqueue_event res"
        and "insert_new_batch e rq (normalize_agent_id (rq_agent_id rq)) d = Inr (res, d')"
        and "validate_batch_request rq = Inr ()"
proof (cases "bindR (validate_batch_request rq) (\<lambda>_.
    enqueue_batch_in_transaction e rq (normalize_agent_id (rq_agent_id rq)) d)")
  case (Inl err)
  with assms show ?thesis by (auto simp: enqueue_batch_def intro: failed)
next
  case (Inr p)
  obtain res d'' where p: "p = (res, d'')" by (cases p)
  with Inr assms have r: "r = Inr res" "d' = d''" "evs = append_enqueue_event res"
    by (auto simp: enqueue_batch_def)
  from Inr p obtain existing where
      ex: "(case rq_idempotency_key rq of None \<Rightarrow> Inr None
        | Some key \<Rightarrow> find_idempotent_batch d (normalize_agent_id (rq_agent_id rq)) key (rq_queue_class rq))
        = Inr existing"
      and tx: "(case existing of
         Some bid \<Rightarrow> bindR (load_batch d bid) (\<lambda>b. Inr (\<lparr>er_batch = b, er_created = False\<rparr>, d))
       | None \<Rightarrow> insert_new_batch e rq (normalize_agent_id (rq_agent_id rq)) d) = Inr (res, d'')"
      and v: "validate_batch_request rq = Inr ()"
    by (auto simp: enqueue_batch_in_transaction_def)
  show ?thesis
  proof (cases existing)
    case None
    with tx r v insert_new_batch_InrD show ?thesis by (fastforce intro: created)
  next
    case (Some bid)
    with tx r ex show ?thesis
      by (auto simp: append_enqueue_event_def split: option.splits intro: replayed)
  qed
qed

lemma gq_inv_enqueue:
  assumes "gq_inv d" and "enqueue_batch e rq d = (r, d', evs)"
  shows "gq_inv d'"
  using assms(2)
proof (cases rule: enqueue_batch_cases)
  case (created res)
  with assms(1) show ?thesis
    using gq_inv_insert validate_batch_request_Inr by blast
qed (use assms in auto)

section \<open>Rows after an update\<close>

lemma row_of_update:
  assumes "\<And>r. p r \<Longrightarrow> b_batch_id (f r) = b_batch_id r"
  shows "row_of (d\<lparr>batches := sql_update p f (batches d)\<rparr>) bid =
     map_option (\<lambda>r. if p r then f r else r) (row_of d bid)"
proof -
  have "find (\<lambda>r. b_batch_id r = bid) (sql_update p f rs) =
      map_option (\<lambda>r. if p r then f r else r) (find (\<lambda>r. b_batch_id r = bid) rs)" for rs
    using assms by (induction rs) (auto simp: sql_update_def)
  then show ?thesis by (simp add: row_of_def)
qed

lemma row_update_simps [simp]:
  "b_batch_id (lease_row c x r) = b_batch_id r" "b_agent_id (lease_row c x r) = b_agent_id r"
  "b_state (lease_row c x r) = Leased"
  "b_batch_id (submit_row x r) = b_batch_id r" "b_agent_id (submit_row x r) = b_agent_id r"
  "b_state (submit_row x r) = Submitted"
  "b_batch_id (accept_row t r) = b_batch_id r" "b_agent_id (accept_row t r) = b_agent_id r"
  "b_state (accept_row t r) = Accepted"
  "b_batch_id (cancel_row t s r) = b_batch_id r" "b_agent_id (cancel_row t s r) = b_agent_id r"
  "b_state (cancel_row t s r) = Cancelled"
  "b_batch_id (recover_update t r) = b_batch_id r" "b_agent_id (recover_update t r) = b_agent_id r"
  "\<not> in_flight (b_state (recover_update t r))"
  by (simp_all add: row_defs recover_update_def)

text \<open>Moving the one row \<open>r\<close> along the lifecycle to a state that is not in flight, or that is
  in flight already, keeps the invariant.\<close>

lemma gq_inv_move:
  assumes "gq_inv d" and "life r (f r)" and "in_flight (b_state (f r)) \<Longrightarrow> in_flight (b_state r)"
  shows "gq_inv (d\<lparr>batches := sql_update (\<lambda>s. s = r) f (batches d)\<rparr>)"
proof (rule gq_inv_evolves [OF assms(1)])
  show "evolves (batches d) (sql_update (\<lambda>s. s = r) f (batches d))"
    using assms(2) by (intro evolves_update) auto
  from life_key [OF assms(2)] have "b_agent_id (f r) = b_agent_id r" by (simp add: row_key_def)
  with assms show "single_flight (sql_update (\<lambda>s. s = r) f (batches d))"
    by (intro single_flight_shrinks) (auto simp: gq_inv_def)
qed

text \<open>Taking the one row \<open>r\<close> into flight keeps it when no batch of its agent is in flight.\<close>

lemma single_flight_take:
  assumes "single_flight rs" and "\<And>s. s \<in> set rs \<Longrightarrow> b_agent_id s = b_agent_id r \<Longrightarrow> \<not> in_flight (b_state s)"
    and "distinct (map b_batch_id rs)" and "b_agent_id (f r) = b_agent_id r"
  shows "single_flight (sql_update (\<lambda>s. s = r) f rs)"
  using assms(1-3)
proof (induction rs)
  case (Cons s rs)
  have agents: "set (map b_agent_id (filter (\<lambda>r. in_flight (b_state r)) (sql_update (\<lambda>s. s = r) f rs)))
      \<subseteq> set (map b_agent_id (filter (\<lambda>r. in_flight (b_state r)) rs)) \<union> (if r \<in> set rs then {b_agent_id r} else {})"
    using assms(4) by (auto simp: sql_update_def split: if_splits)
  have ih: "single_flight (sql_update (\<lambda>s. s = r) f rs)"
    using Cons by (auto simp: single_flight_def split: if_splits)
  show ?case
  proof (cases "s = r")
    case True
    with Cons.prems have "r \<notin> set rs" by auto
    with agents Cons.prems(2) have "b_agent_id r \<notin>
        set (map b_agent_id (filter (\<lambda>r. in_flight (b_state r)) (sql_update (\<lambda>s. s = r) f rs)))"
      by auto
    with ih True assms(4) show ?thesis by (auto simp: single_flight_def sql_update_def)
  next
    case False
    have "b_agent_id s \<notin>
        set (map b_agent_id (filter (\<lambda>r. in_flight (b_state r)) (sql_update (\<lambda>s. s = r) f rs)))"
      if fl: "in_flight (b_state s)"
    proof -
      from Cons.prems(2) [of s] fl have "b_agent_id s \<noteq> b_agent_id r" by auto
      moreover from Cons.prems(1) fl
      have "b_agent_id s \<notin> set (map b_agent_id (filter (\<lambda>r. in_flight (b_state r)) rs))"
        by (simp add: single_flight_def)
      ultimately show ?thesis using agents by (auto split: if_splits)
    qed
    with ih False show ?thesis by (auto simp: single_flight_def sql_update_def)
  qed
qed (simp add: single_flight_def)

section \<open>Claim\<close>

lemma claim_selected_eq:
  fixes lease :: nat and c :: guidance_consumer
  assumes inv: "gq_inv d" and row: "row_of d bid = Some r"
    and sel: "b_state r = Pending" "b_available_at r \<le> clock e"
  defines "expires \<equiv> lease_expiry e lease"
  defines "d' \<equiv> d\<lparr>batches := sql_update (\<lambda>s. s = r) (lease_row c expires) (batches d)\<rparr>"
  shows "claim_selected e be c lease bid d =
     (if storable (gc_generation c) then Inr (loaded d' (lease_row c expires r), d')
      else Inl IntegerOutOfRange)"
proof -
  let ?p = "\<lambda>s. b_state s = Pending \<and> b_available_at s \<le> clock e"
  have d': "d\<lparr>batches := sql_update (\<lambda>s. b_batch_id s = bid \<and> ?p s) (lease_row c expires) (batches d)\<rparr> = d'"
    using update_by_id [OF inv row, of ?p] sel by (simp add: d'_def)
  have "row_of d' bid = Some (lease_row c expires r)"
    unfolding d'_def by (subst row_of_update) (simp_all add: row)
  moreover have "items_ok d' bid" using gq_inv_items_ok [OF inv row] by (simp add: d'_def)
  ultimately have "load_batch d' bid = Inr (loaded d' (lease_row c expires r))"
    by (rule load_batch_eq)
  with changed_by_id [OF inv row, of ?p] sel d' show ?thesis
    by (simp add: claim_selected_def bindR_ensure Let_def flip: expires_def)
qed

lemma claimable_simps:
  "claimable phase agent t r \<Longrightarrow> b_agent_id r = agent \<and> b_state r = Pending \<and> b_available_at r \<le> t"
  by (simp add: claimable_def)

lemma earliest_SomeD:
  "earliest p rs = Some r \<Longrightarrow> r \<in> set rs \<and> p r \<and>
     (\<forall>s \<in> set rs. p s \<longrightarrow> (b_queue_class r, b_queue_seq r) \<le> (b_queue_class s, b_queue_seq s))"
  unfolding earliest_def by (rule sql_first_SomeD)

lemma earliest_None: "earliest p rs = None \<longleftrightarrow> (\<forall>r \<in> set rs. \<not> p r)"
  unfolding earliest_def by (rule sql_first_None)

lemma claim_next_cases:
  assumes inv: "gq_inv d" and run: "claim_next e be c lease d = (out, d', evs)"
  defines "d1 \<equiv> fst (recover_expired_in_tx (clock e) d)"
    and "recovered \<equiv> snd (recover_expired_in_tx (clock e) d)"
    and "agent \<equiv> normalize_agent_id (be_agent_id be)"
  obtains (failed) err where "out = Returns (Inl err)" "d' = d" "evs = []" "err \<noteq> ClaimLost"
    | (unsafe) "out = Returns (Inr None)" "d' = d" "evs = []" "\<not> can_offer_steering (be_phase be)"
    | (idle) "out = Returns (Inr None)" "d' = d1" "evs = []" "recovered = []"
        "can_offer_steering (be_phase be)"
        "has_active_lease agent (clock e) d1
         \<or> be_phase be = WouldStop \<and> steering_pending agent d1 \<and> \<not> steering_available agent (clock e) d1
         \<or> earliest (claimable (be_phase be) agent (clock e)) (batches d1) = None"
    | (deadlocked) "out = Deadlocks" "d' = d1" "evs = []" "recovered \<noteq> []"
    | (claimed) r where "out = Returns (Inr (Some (loaded d' (lease_row c (lease_expiry e lease) r))))"
        "can_offer_steering (be_phase be)" "\<not> has_active_lease agent (clock e) d1"
        "\<not> (be_phase be = WouldStop \<and> steering_pending agent d1 \<and> \<not> steering_available agent (clock e) d1)"
        "earliest (claimable (be_phase be) agent (clock e)) (batches d1) = Some r"
        "d' = d1\<lparr>batches := sql_update (\<lambda>s. s = r) (lease_row c (lease_expiry e lease)) (batches d1)\<rparr>"
        "evs = concat (map (recovery_events d') recovered)
           @ [claim_event be c (loaded d' (lease_row c (lease_expiry e lease) r))]"
proof -
  define v where "v = bindR (validate_identity (be_agent_id be) ''boundary agent'')
      (\<lambda>_. validate_id (gc_consumer_id c) ''consumer id'')"
  have no_follow: "\<not> (be_phase be = WouldStop \<and> \<not> can_offer_follow_up (be_phase be))"
    by (simp add: can_offer_follow_up_def)
  have split: "recover_expired_in_tx (clock e) d = (d1, recovered)"
    by (simp add: d1_def recovered_def)
  show thesis
  proof (cases v)
    case (Inl err)
    moreover from this have "err \<noteq> ClaimLost"
      by (auto simp: v_def validate_identity_def validate_id_def ensure_def split: if_splits)
    ultimately show thesis using run by (auto simp: claim_next_def v_def [symmetric] intro: failed)
  next
    case (Inr u)
    note run' = run [unfolded claim_next_def, folded v_def, unfolded Inr sum.case split Let_def
        prod.case if_not_P [OF no_follow], folded agent_def]
    show thesis
    proof (cases "can_offer_steering (be_phase be)")
      case False
      with run' show thesis by (auto intro: unsafe)
    next
      case safe: True
      let ?none = "has_active_lease agent (clock e) d1
         \<or> be_phase be = WouldStop \<and> steering_pending agent d1 \<and> \<not> steering_available agent (clock e) d1
         \<or> earliest (claimable (be_phase be) agent (clock e)) (batches d1) = None"
      show thesis
      proof (cases ?none)
        case True
        with run' safe have res: "claim_nothing d1 recovered = (out, d', evs)"
          by (auto split: if_splits)
        show thesis
        proof (cases "recovered = []")
          case True
          with res have "out = Returns (Inr None)" "d' = d1" "evs = []"
            by (auto simp: claim_nothing_def emit_recovery_events_def)
          then show thesis using True safe \<open>?none\<close> by (rule idle)
        next
          case False
          with res show thesis
            by (intro deadlocked) (auto simp: claim_nothing_def emit_recovery_events_def)
        qed
      next
        case False
        then obtain r where r: "earliest (claimable (be_phase be) agent (clock e)) (batches d1) = Some r"
          by auto
        have inv1: "gq_inv d1" unfolding d1_def by (rule gq_inv_recover [OF inv])
        from earliest_SomeD [OF r] have rin: "r \<in> set (batches d1)"
          and cl: "b_agent_id r = agent" "b_state r = Pending" "b_available_at r \<le> clock e"
          by (auto simp: claimable_def)
        note sel = claim_selected_eq [OF inv1 row_of_in [OF inv1 rin] cl(2,3), of be c lease]
        from False have n1: "\<not> has_active_lease agent (clock e) d1"
          and n2: "\<not> (be_phase be = WouldStop \<and> steering_pending agent d1
              \<and> \<not> steering_available agent (clock e) d1)" by blast+
        have n0: "\<not> \<not> can_offer_steering (be_phase be)" using safe by simp
        note run'' = run' [unfolded if_not_P [OF n0] if_not_P [OF n1] if_not_P [OF n2] r option.case sel]
        show thesis
        proof (cases "storable (gc_generation c)")
          case True
          with run'' show thesis
            by (intro claimed [OF _ safe n1 n2 r]) (auto simp: emit_recovery_events_def)
        next
          case False
          with run'' show thesis by (intro failed) auto
        qed
      qed
    qed
  qed
qed

lemma gq_inv_claim:
  assumes inv: "gq_inv d" and run: "claim_next e be c lease d = (out, d', evs)"
  shows "gq_inv d'"
  using inv run
proof (cases rule: claim_next_cases)
  case (claimed r)
  let ?d1 = "fst (recover_expired_in_tx (clock e) d)"
  have inv1: "gq_inv ?d1" by (rule gq_inv_recover [OF inv])
  from earliest_SomeD [OF claimed(5)] have r: "b_state r = Pending"
    "b_agent_id r = normalize_agent_id (be_agent_id be)" by (auto simp: claimable_def)
  have "gq_inv (?d1\<lparr>batches := sql_update (\<lambda>s. s = r) (lease_row c (lease_expiry e lease)) (batches ?d1)\<rparr>)"
  proof (rule gq_inv_evolves [OF inv1])
    show "evolves (batches ?d1) (sql_update (\<lambda>s. s = r) (lease_row c (lease_expiry e lease)) (batches ?d1))"
      using r by (intro evolves_update) (auto intro: life_lease)
    show "single_flight (sql_update (\<lambda>s. s = r) (lease_row c (lease_expiry e lease)) (batches ?d1))"
      using inv1 no_active_lease [OF inv claimed(3)] r(2)
      by (intro single_flight_take) (auto simp: gq_inv_def keys_ok_def)
  qed
  with claimed(6) show ?thesis by simp
qed (use inv gq_inv_recover in auto)

section \<open>Transport\<close>

lemma record_transport_attempt_cases:
  assumes inv: "gq_inv d" and run: "record_transport_attempt e bid consumer ta d = (res, d', evs)"
  obtains (failed) err where "res = Inl err" "d' = d" "evs = []"
    | (submitted) r where "row_of d bid = Some r" "b_state r = Leased" "b_lease_owner r = Some consumer"
        "res = Inr (b_attempt_count r + 1)"
        "d' = d\<lparr>batches := sql_update (\<lambda>s. s = r)
           (submit_row (sat_add (clock e) max_retry_backoff_seconds)) (batches d)\<rparr>"
        "load_batch d' bid
           = Inr (loaded d' (submit_row (sat_add (clock e) max_retry_backoff_seconds) r))"
        "\<exists>ob ob'. evs = [(''message.delivery'', ob'), (state_changed, with_batch_identity (JObj ob)
             (loaded d' (submit_row (sat_add (clock e) max_retry_backoff_seconds) r)))]
           \<and> obj_get ob ''operation'' = Some (JStr ''transport_submitted'')
           \<and> obj_get ob ''state'' = Some (JStr (state_str Submitted))"
proof -
  define tx where "tx = bindR (validate_id bid ''batch id'') (\<lambda>_.
           bindR (validate_id consumer ''consumer id'') (\<lambda>_.
           bindR (validate_id (ta_method ta) ''transport method'') (\<lambda>_.
           bindR (validate_optional (\<lambda>x. validate_text x max_reason_bytes ''transport detail'')
                    (ta_detail ta)) (\<lambda>_.
             attempt_transaction e bid consumer d))))"
  show thesis
  proof (cases tx)
    case (Inl err)
    with run show thesis
      by (intro failed [of err]) (auto simp: record_transport_attempt_def simp flip: tx_def)
  next
    case (Inr p)
    then have "attempt_transaction e bid consumer d = Inr p" by (auto simp: tx_def)
    then obtain r where row: "row_of d bid = Some r" and st: "b_state r = Leased"
        and owner: "b_lease_owner r = Some consumer"
      by (auto simp: attempt_transaction_def split: option.splits)
    define d2 where "d2 = d\<lparr>batches := sql_update (\<lambda>s. s = r)
        (submit_row (sat_add (clock e) max_retry_backoff_seconds)) (batches d)\<rparr>"
    let ?row = "submit_row (sat_add (clock e) max_retry_backoff_seconds) r"
    have "row_of d2 bid = Some ?row"
      unfolding d2_def by (subst row_of_update) (simp_all add: row)
    moreover have "items_ok d2 bid" using gq_inv_items_ok [OF inv row] by (simp add: d2_def)
    ultimately have load: "load_batch d2 bid = Inr (loaded d2 ?row)" by (rule load_batch_eq)
    have "d\<lparr>batches := sql_update
          (\<lambda>s. b_batch_id s = bid \<and> b_state s = Leased \<and> b_lease_owner s = Some consumer)
          (\<lambda>s. s\<lparr>b_state := Submitted, b_attempt_count := b_attempt_count r + 1,
             b_lease_expires_at := Some (sat_add (clock e) max_retry_backoff_seconds)\<rparr>) (batches d)\<rparr> = d2"
      unfolding d2_def
      by (subst update_by_id [OF inv row, where p = "\<lambda>s. b_state s = Leased \<and> b_lease_owner s = Some consumer"])
        (auto simp: st owner sql_update_def submit_row_def)
    with Inr load row have p: "p = (b_attempt_count r + 1, loaded d2 ?row, d2)"
      by (auto simp: tx_def attempt_transaction_def Let_def)
    with run Inr have res: "res = Inr (b_attempt_count r + 1)" and d': "d' = d2"
      by (auto simp: record_transport_attempt_def simp flip: tx_def)
    have "\<exists>ob ob'. evs = [(''message.delivery'', ob'), (state_changed, with_batch_identity (JObj ob) (loaded d2 ?row))]
           \<and> obj_get ob ''operation'' = Some (JStr ''transport_submitted'')
           \<and> obj_get ob ''state'' = Some (JStr (state_str Submitted))"
      using run Inr p by (auto simp: record_transport_attempt_def simp flip: tx_def intro!: exI)
    with row st owner res d' load show thesis by (intro submitted) (auto simp: d2_def)
  qed
qed

lemma gq_inv_attempt:
  assumes inv: "gq_inv d" and run: "record_transport_attempt e bid consumer ta d = (res, d', evs)"
  shows "gq_inv d'"
  using inv run
proof (cases rule: record_transport_attempt_cases)
  case (submitted r)
  then show ?thesis using inv by (auto intro!: gq_inv_move life_submit)
qed (use inv in auto)

section \<open>Acknowledgement\<close>

lemma load_batch_optional_InrD:
  assumes "load_batch_optional d bid = Inr ob"
  shows "ob = map_option (loaded d) (row_of d bid)"
proof (cases "row_of d bid")
  case (Some r)
  from row_of_SomeD [OF Some] have "b_batch_id r = bid" by simp
  with assms Some obtain b where "load_batch d bid = Inr b" and "ob = Some b"
    by (auto simp: load_batch_optional_def)
  with load_batch_InrD [of d bid b] Some show ?thesis by auto
qed (use assms in \<open>simp add: load_batch_optional_def\<close>)

lemma acknowledge_runtime_cases:
  assumes inv: "gq_inv d" and run: "acknowledge_runtime e ev d = (res, d', evs)"
  obtains (failed) err where "res = Inl err" "d' = d" "evs = []"
    | (rejected) why where "res = Inr (AckRejected why)" "d' = d"
        "evs = [] \<or> (\<exists>b. evs = [unproven_event ev b])"
    | (duplicate) r where "row_of d (ae_batch_id ev) = Some r" "b_state r = Accepted"
        "evidence_matches_batch (loaded d r) ev" "res = Inr AckAlreadyAccepted" "d' = d" "evs = []"
    | (accepted) r where "row_of d (ae_batch_id ev) = Some r" "in_flight (b_state r)"
        "evidence_matches_batch (loaded d r) ev" "ae_confidence ev = Exact"
        "b_lease_owner r = Some (ae_consumer_id ev)" "res = Inr AckAccepted"
        "d' = d\<lparr>batches := sql_update (\<lambda>s. s = r) (accept_row (clock e)) (batches d)\<rparr>"
        "evs = ack_events ev (loaded d r)"
proof -
  define tx where "tx = bindR (validate_id (ae_batch_id ev) ''batch id'') (\<lambda>_.
           bindR (validate_id (ae_agent_id ev) ''evidence agent'') (\<lambda>_.
           bindR (validate_id (ae_consumer_id ev) ''consumer id'') (\<lambda>_.
             load_batch_optional d (ae_batch_id ev))))"
  note run' = run [unfolded acknowledge_runtime_def, folded tx_def]
  consider (err) err where "tx = Inl err" | (none) "tx = Inr None"
    | (found) r where "tx = Inr (Some (loaded d r))" "row_of d (ae_batch_id ev) = Some r"
  proof (cases tx)
    case (Inr ob)
    then have "ob = map_option (loaded d) (row_of d (ae_batch_id ev))"
      by (auto simp: tx_def dest: load_batch_optional_InrD)
    with Inr none found show thesis by (cases "row_of d (ae_batch_id ev)") auto
  qed (use err in auto)
  then show thesis
  proof cases
    case err
    with run' show thesis by (intro failed) auto
  next
    case none
    with run' show thesis by (intro rejected) auto
  next
    case (found r)
    let ?sel = "\<lambda>s. in_flight (b_state s) \<and> b_lease_owner s = Some (ae_consumer_id ev)"
    from found run' obtain ack where ack: "acknowledge_loaded e ev (loaded d r) d = (ack, d', evs)"
        and res: "res = Inr ack"
      by (auto split: prod.splits)
    show thesis
    proof (cases "b_agent_id r = normalize_agent_id (ae_agent_id ev) \<and> in_flight (b_state r)
        \<and> evidence_matches_batch (loaded d r) ev \<and> ae_confidence ev = Exact")
      case True
      have "row_ok r" using inv found row_of_SomeD gq_inv_row_ok by blast
      with True have owner: "b_lease_owner r = Some (ae_consumer_id ev)"
        by (auto simp: evidence_matches_batch_def row_ok_def lease_shape_def Let_def split: option.splits)
      have "sql_changed (\<lambda>s. b_batch_id s = ae_batch_id ev \<and> ?sel s) (batches d) = 1"
        and "sql_update (\<lambda>s. b_batch_id s = ae_batch_id ev \<and> ?sel s) (accept_row (clock e)) (batches d)
           = sql_update (\<lambda>s. s = r) (accept_row (clock e)) (batches d)"
        using changed_by_id [OF inv found(2), of ?sel] update_by_id [OF inv found(2), of ?sel]
          True owner by auto
      with ack True have "ack = AckAccepted" "evs = ack_events ev (loaded d r)"
          "d' = d\<lparr>batches := sql_update (\<lambda>s. s = r) (accept_row (clock e)) (batches d)\<rparr>"
        by (auto simp: acknowledge_loaded_def Let_def in_flight_def split: if_splits)
      with True found owner res show thesis by (intro accepted) auto
    next
      case False
      with ack have "(\<exists>why. ack = AckRejected why) \<and> d' = d \<and> (evs = [] \<or> (\<exists>b. evs = [unproven_event ev b]))
          \<or> ack = AckAlreadyAccepted \<and> b_state r = Accepted \<and> evidence_matches_batch (loaded d r) ev
             \<and> d' = d \<and> evs = []"
        by (auto simp: acknowledge_loaded_def Let_def split: if_splits)
      then show thesis
        using res found(2) rejected duplicate by (elim disjE conjE exE) auto
    qed
  qed
qed

lemma gq_inv_acknowledge:
  assumes inv: "gq_inv d" and run: "acknowledge_runtime e ev d = (res, d', evs)"
  shows "gq_inv d'"
  using inv run
proof (cases rule: acknowledge_runtime_cases)
  case (accepted r)
  then show ?thesis using inv by (auto intro!: gq_inv_move life_accept)
qed (use inv in auto)

section \<open>Retry and cancellation\<close>

lemma release_for_retry_cases:
  assumes inv: "gq_inv d" and run: "release_for_retry e bid consumer reason next_at d = (res, d', evs)"
  obtains (failed) err where "res = Inl err" "d' = d" "evs = []"
    | (released) r where "row_of d bid = Some r" "in_flight (b_state r)"
        "b_lease_owner r = Some consumer" "res = Inr (recovered_state (b_attempt_count r))"
        "d' = d\<lparr>batches := sql_update (\<lambda>s. s = r)
           (release_row (clock e) (max next_at (clock e)) reason) (batches d)\<rparr>"
        "\<exists>ob rest. evs = (state_changed, with_batch_identity (JObj ob) (loaded d r)) # rest
           \<and> (\<forall>x \<in> set rest. fst x \<noteq> state_changed)
           \<and> obj_get ob ''operation'' = Some (JStr
                (if recovered_state (b_attempt_count r) = Abandoned then ''abandon''
                 else ''release_for_retry''))
           \<and> obj_get ob ''state'' = Some (JStr (state_str (recovered_state (b_attempt_count r))))"
proof -
  define tx where "tx = bindR (validate_id bid ''batch id'') (\<lambda>_.
           bindR (validate_id consumer ''consumer id'') (\<lambda>_.
           bindR (validate_text reason max_reason_bytes ''retry reason'') (\<lambda>_.
             release_transaction e bid consumer reason next_at d)))"
  note run' = run [unfolded release_for_retry_def, folded tx_def]
  show thesis
  proof (cases tx)
    case (Inl err)
    with run' show thesis by (intro failed) auto
  next
    case (Inr p)
    then have txp: "release_transaction e bid consumer reason next_at d = Inr p" by (auto simp: tx_def)
    then obtain r where row: "row_of d bid = Some r" and fl: "in_flight (b_state r)"
        and owner: "b_lease_owner r = Some consumer"
      by (auto simp: release_transaction_def split: option.splits)
    let ?n = "b_attempt_count r"
    have "sql_update (\<lambda>s. b_batch_id s = bid \<and> in_flight (b_state s) \<and> b_lease_owner s = Some consumer)
            (\<lambda>s. s\<lparr>b_state := (if ?n \<ge> max_retry_attempts then Abandoned else Pending),
                   b_available_at := max next_at (clock e),
                   b_lease_owner := None, b_lease_expires_at := None,
                   b_terminal_at := (if ?n \<ge> max_retry_attempts then Some (clock e) else None),
                   b_terminal_reason := (if ?n \<ge> max_retry_attempts then Some reason else None)\<rparr>) (batches d)
        = sql_update (\<lambda>s. s = r) (release_row (clock e) (max next_at (clock e)) reason) (batches d)"
      by (subst update_by_id [OF inv row, where p = "\<lambda>s. in_flight (b_state s) \<and> b_lease_owner s = Some consumer"])
        (auto simp: fl owner sql_update_def release_row_def recovered_state_def)
    with txp row fl owner gq_inv_load [OF inv row]
    have p: "p = (recovered_state ?n, ?n, loaded d r, d\<lparr>batches := sql_update (\<lambda>s. s = r)
           (release_row (clock e) (max next_at (clock e)) reason) (batches d)\<rparr>)"
      by (auto simp: release_transaction_def Let_def recovered_state_def bindR_ensure)
    then have evs: "\<exists>ob rest. evs = (state_changed, with_batch_identity (JObj ob) (loaded d r)) # rest
           \<and> (\<forall>x \<in> set rest. fst x \<noteq> state_changed)
           \<and> obj_get ob ''operation'' = Some (JStr
                (if recovered_state ?n = Abandoned then ''abandon'' else ''release_for_retry''))
           \<and> obj_get ob ''state'' = Some (JStr (state_str (recovered_state ?n)))"
      using run' Inr by (auto simp: state_changed_def intro!: exI)
    from p run' Inr row fl owner show thesis by (intro released [OF _ _ _ _ _ evs]) auto
  qed
qed

lemma gq_inv_release:
  assumes inv: "gq_inv d" and run: "release_for_retry e bid consumer reason next_at d = (res, d', evs)"
  shows "gq_inv d'"
  using inv run
proof (cases rule: release_for_retry_cases)
  case (released r)
  then show ?thesis using inv by (auto intro!: gq_inv_move life_release)
qed (use inv in auto)

lemma cancel_batch_cases:
  assumes inv: "gq_inv d" and run: "cancel_batch e bid reason d = (res, d', evs)"
  obtains (failed) err where "res = Inl err" "d' = d" "evs = []"
    | (terminal) r where "row_of d bid = Some r" "is_terminal (b_state r)" "res = Inr (b_state r)"
        "d' = d" "evs = []"
    | (cancelled) r where "row_of d bid = Some r" "\<not> is_terminal (b_state r)" "res = Inr Cancelled"
        "d' = d\<lparr>batches := sql_update (\<lambda>s. s = r) (cancel_row (clock e) reason) (batches d)\<rparr>"
        "\<exists>ob. evs = [(state_changed, with_batch_identity (JObj ob) (loaded d r))]
           \<and> obj_get ob ''operation'' = Some (JStr ''cancel'')
           \<and> obj_get ob ''state'' = Some (JStr (state_str Cancelled))"
proof -
  define tx where "tx = bindR (validate_id bid ''batch id'') (\<lambda>_.
           bindR (validate_text reason max_reason_bytes ''cancel reason'') (\<lambda>_.
             case row_of d bid of None \<Rightarrow> Inl BatchNotFound | Some r \<Rightarrow> Inr r))"
  note run' = run [unfolded cancel_batch_def, folded tx_def]
  show thesis
  proof (cases tx)
    case (Inl err)
    with run' show thesis by (intro failed) auto
  next
    case (Inr r)
    then have row: "row_of d bid = Some r" by (auto simp: tx_def split: option.splits)
    let ?open = "\<lambda>s. b_state s = Pending \<or> in_flight (b_state s)"
    show thesis
    proof (cases "is_terminal (b_state r)")
      case True
      with run' Inr row show thesis by (intro terminal) auto
    next
      case False
      then have "?open r" by (cases "b_state r") auto
      with update_by_id [OF inv row, of ?open] run' Inr gq_inv_load [OF inv row] False row
      show thesis by (intro cancelled [of r]) auto
    qed
  qed
qed

lemma gq_inv_cancel:
  assumes inv: "gq_inv d" and run: "cancel_batch e bid reason d = (res, d', evs)"
  shows "gq_inv d'"
  using inv run
proof (cases rule: cancel_batch_cases)
  case (cancelled r)
  then show ?thesis using inv by (auto intro!: gq_inv_move life_cancel)
qed (use inv in auto)

end
