(* ===== verification/Guidance_Replay.thy ===== *)
theory Guidance_Replay
  imports Guidance_Preservation
begin

text \<open>
  The deterministic replay of the queue from the ledger, \<^verbatim>\<open>services/guidance_replay.rs\<close>. A
  ledger record is read through the two fields the replay uses, its event type and its data, so
  the log is the list of mirrored events in ledger order. The projection maps batch identifiers
  to replayed batches.
\<close>

datatype replay_error =
    MissingField string
  | PrecedesEnqueue
  | ChangedAgent
  | ChangedClass
  | ChangedSequence
  | ChangedItems
  | UnsupportedClass
  | UnsupportedState
  | StateNotString
  | LacksState
  | UnsupportedOperation
  | DeclaredMismatch
  | InvalidTransition gstate gstate
  | ItemIdsNotArray
  | ItemIdsNotStrings

record replay_batch =
  rb_batch_id :: string
  rb_agent_id :: string
  rb_queue_class :: queue_class
  rb_queue_seq :: int
  rb_state :: gstate
  rb_item_ids :: "string list"
  rb_identity :: guidance_identity

type_synonym projection = "string \<Rightarrow> replay_batch option"

section \<open>Reading event data\<close>

definition optional_string :: "json_object \<Rightarrow> string \<Rightarrow> string option" where
  "optional_string ob field = Option.bind (obj_get ob field) as_str"

definition required_string :: "json_object \<Rightarrow> string \<Rightarrow> replay_error + string" where
  "required_string ob field =
     (case optional_string ob field of None \<Rightarrow> Inl (MissingField field) | Some s \<Rightarrow> Inr s)"

text \<open>\<^verbatim>\<open>as_i64\<close>, else \<^verbatim>\<open>as_u64\<close> converted with \<^verbatim>\<open>i64::try_from\<close>.\<close>

definition optional_i64 :: "json_object \<Rightarrow> string \<Rightarrow> int option" where
  "optional_i64 ob field = Option.bind (obj_get ob field) (\<lambda>v.
     case as_i64 v of
       Some i \<Rightarrow> Some i
     | None \<Rightarrow> Option.bind (as_u64 v) (\<lambda>n. if int n \<le> i64_max then Some (int n) else None))"

definition required_i64 :: "json_object \<Rightarrow> string \<Rightarrow> replay_error + int" where
  "required_i64 ob field =
     (case optional_i64 ob field of None \<Rightarrow> Inl (MissingField field) | Some i \<Rightarrow> Inr i)"

definition optional_u64 :: "json_object \<Rightarrow> string \<Rightarrow> nat option" where
  "optional_u64 ob field = Option.bind (obj_get ob field) as_u64"

definition optional_item_ids :: "json_object \<Rightarrow> replay_error + string list option" where
  "optional_item_ids ob =
     (case obj_get ob ''item_ids'' of
        None \<Rightarrow> Inr (map_option (\<lambda>i. [i]) (optional_string ob ''item_id''))
      | Some v \<Rightarrow>
          (case as_array v of
             None \<Rightarrow> Inl ItemIdsNotArray
           | Some js \<Rightarrow>
               bindR (traverse (\<lambda>j. case as_str j of None \<Rightarrow> Inl ItemIdsNotStrings | Some s \<Rightarrow> Inr s) js)
                 (\<lambda>ids. Inr (Some ids))))"

definition required_item_ids :: "json_object \<Rightarrow> replay_error + string list" where
  "required_item_ids ob =
     bindR (optional_item_ids ob) (\<lambda>ids.
       case ids of None \<Rightarrow> Inl (MissingField ''item_ids'') | Some l \<Rightarrow> Inr l)"

definition replay_identity :: "json_object \<Rightarrow> guidance_identity" where
  "replay_identity ob =
     \<lparr>gi_run_id = optional_string ob ''run_id'', gi_session_id = optional_string ob ''session_id'',
      gi_invocation_id = optional_string ob ''invocation_id'',
      gi_generation = optional_u64 ob ''generation'',
      gi_runtime = optional_string ob ''runtime'', gi_harness = optional_string ob ''harness'',
      gi_role = optional_string ob ''role''\<rparr>"

text \<open>\<^verbatim>\<open>merge_identity\<close> fills only the fields that are still empty.\<close>

definition merge_identity :: "guidance_identity \<Rightarrow> json_object \<Rightarrow> guidance_identity" where
  "merge_identity g ob =
     \<lparr>gi_run_id = coalesce (gi_run_id g) (optional_string ob ''run_id''),
      gi_session_id = coalesce (gi_session_id g) (optional_string ob ''session_id''),
      gi_invocation_id = coalesce (gi_invocation_id g) (optional_string ob ''invocation_id''),
      gi_generation = coalesce (gi_generation g) (optional_u64 ob ''generation''),
      gi_runtime = coalesce (gi_runtime g) (optional_string ob ''runtime''),
      gi_harness = coalesce (gi_harness g) (optional_string ob ''harness''),
      gi_role = coalesce (gi_role g) (optional_string ob ''role'')\<rparr>"

section \<open>Operations and transitions\<close>

definition is_queue_state_operation :: "string \<Rightarrow> bool" where
  "is_queue_state_operation op \<longleftrightarrow> op \<in> {''enqueue'', ''claim'', ''transport_submitted'',
     ''acknowledge'', ''release_for_retry'', ''abandon'', ''lease_expired'', ''cancel''}"

definition declared_state :: "json_object \<Rightarrow> replay_error + gstate option" where
  "declared_state ob =
     (case obj_get ob ''state'' of
        None \<Rightarrow> Inr None
      | Some v \<Rightarrow>
          (case as_str v of
             None \<Rightarrow> Inl StateNotString
           | Some s \<Rightarrow> (case state_parse s of None \<Rightarrow> Inl UnsupportedState | Some g \<Rightarrow> Inr (Some g))))"

definition target_state :: "string \<Rightarrow> json_object \<Rightarrow> replay_error + gstate" where
  "target_state op ob =
     (if op = ''claim'' then Inr Leased
      else if op = ''transport_submitted'' then Inr Submitted
      else if op = ''acknowledge'' then Inr Accepted
      else if op = ''cancel'' then Inr Cancelled
      else if op = ''release_for_retry'' \<or> op = ''abandon'' \<or> op = ''lease_expired''
      then bindR (declared_state ob) (\<lambda>s. case s of None \<Rightarrow> Inl LacksState | Some g \<Rightarrow> Inr g)
      else Inl UnsupportedOperation)"

fun valid_transition :: "gstate \<Rightarrow> gstate \<Rightarrow> bool" where
  "valid_transition Pending s \<longleftrightarrow> s = Leased \<or> s = Cancelled"
| "valid_transition Leased s \<longleftrightarrow>
     s = Submitted \<or> s = Accepted \<or> s = Pending \<or> s = Abandoned \<or> s = Cancelled"
| "valid_transition Submitted s \<longleftrightarrow> s = Accepted \<or> s = Pending \<or> s = Abandoned \<or> s = Cancelled"
| "valid_transition Accepted s \<longleftrightarrow> False"
| "valid_transition Abandoned s \<longleftrightarrow> False"
| "valid_transition Cancelled s \<longleftrightarrow> False"

definition validate_transition :: "gstate \<Rightarrow> gstate \<Rightarrow> replay_error + unit" where
  "validate_transition s s' = ensure (valid_transition s s') (InvalidTransition s s')"

section \<open>The replay loop\<close>

definition new_batch :: "json_object \<Rightarrow> string \<Rightarrow> replay_error + replay_batch" where
  "new_batch ob bid =
     bindR (required_item_ids ob) (\<lambda>ids.
     bindR (required_string ob ''agent_id'') (\<lambda>agent.
     bindR (required_string ob ''queue_class'') (\<lambda>cls.
     bindR (case class_parse cls of None \<Rightarrow> Inl UnsupportedClass | Some c \<Rightarrow> Inr c) (\<lambda>c.
     bindR (required_i64 ob ''queue_seq'') (\<lambda>sq.
       Inr \<lparr>rb_batch_id = bid, rb_agent_id = agent, rb_queue_class = c, rb_queue_seq = sq,
            rb_state = Pending, rb_item_ids = ids, rb_identity = replay_identity ob\<rparr>)))))"

definition update_metadata :: "replay_batch \<Rightarrow> json_object \<Rightarrow> replay_error + replay_batch" where
  "update_metadata b ob =
     bindR (case optional_string ob ''agent_id'' of
              None \<Rightarrow> Inr () | Some a \<Rightarrow> ensure (a = rb_agent_id b) ChangedAgent) (\<lambda>_.
     bindR (case optional_string ob ''queue_class'' of
              None \<Rightarrow> Inr ()
            | Some cls \<Rightarrow> (case class_parse cls of
                None \<Rightarrow> Inl UnsupportedClass | Some c \<Rightarrow> ensure (c = rb_queue_class b) ChangedClass)) (\<lambda>_.
     bindR (case optional_i64 ob ''queue_seq'' of
              None \<Rightarrow> Inr () | Some q \<Rightarrow> ensure (q = rb_queue_seq b) ChangedSequence) (\<lambda>_.
     bindR (optional_item_ids ob) (\<lambda>ids.
     bindR (case ids of
              None \<Rightarrow> Inr b
            | Some l \<Rightarrow> if rb_item_ids b \<noteq> [] \<and> l \<noteq> rb_item_ids b then Inl ChangedItems
                        else Inr (b\<lparr>rb_item_ids := l\<rparr>)) (\<lambda>b'.
       Inr (b'\<lparr>rb_identity := merge_identity (rb_identity b') ob\<rparr>))))))"

definition replay_update :: "string \<Rightarrow> json_object \<Rightarrow> replay_batch \<Rightarrow> replay_error + replay_batch" where
  "replay_update op ob b =
     bindR (update_metadata b ob) (\<lambda>b'.
     bindR (target_state op ob) (\<lambda>s.
     bindR (declared_state ob) (\<lambda>declared.
     bindR (ensure (declared = None \<or> declared = Some s) DeclaredMismatch) (\<lambda>_.
     bindR (validate_transition (rb_state b') s) (\<lambda>_. Inr (b'\<lparr>rb_state := s\<rparr>))))))"

definition replay_record :: "mirror_event \<Rightarrow> projection \<Rightarrow> replay_error + projection" where
  "replay_record ev p =
     (if fst ev \<noteq> state_changed then Inr p
      else case as_object (snd ev) of
        None \<Rightarrow> Inr p
      | Some ob \<Rightarrow>
        (case optional_string ob ''operation'' of
           None \<Rightarrow> Inr p
         | Some op \<Rightarrow>
             if \<not> is_queue_state_operation op then Inr p
             else bindR (required_string ob ''batch_id'') (\<lambda>bid.
               if op = ''enqueue''
               then (if p bid \<noteq> None then Inr p
                     else bindR (new_batch ob bid) (\<lambda>b. Inr (p(bid \<mapsto> b))))
               else (case p bid of
                       None \<Rightarrow> Inl PrecedesEnqueue
                     | Some b \<Rightarrow> bindR (replay_update op ob b) (\<lambda>b'. Inr (p(bid \<mapsto> b')))))))"

fun replay_from :: "projection \<Rightarrow> mirror_event list \<Rightarrow> replay_error + projection" where
  "replay_from p [] = Inr p"
| "replay_from p (ev # evs) = bindR (replay_record ev p) (\<lambda>p'. replay_from p' evs)"

definition replay_guidance_batches :: "mirror_event list \<Rightarrow> replay_error + projection" where
  "replay_guidance_batches log = replay_from Map.empty log"

lemma replay_from_append:
  "replay_from p (xs @ ys) = bindR (replay_from p xs) (\<lambda>p'. replay_from p' ys)"
proof (induction xs arbitrary: p)
  case (Cons x xs)
  then show ?case by (cases "replay_record x p") auto
qed simp

section \<open>What the mirrored events carry\<close>

definition identity_fields :: "string set" where
  "identity_fields = {''generation'', ''role'', ''harness'', ''runtime'', ''invocation_id'',
     ''session_id'', ''run_id'', ''queue_seq'', ''queue_class'', ''agent_id'', ''item_id'',
     ''item_ids'', ''batch_id''}"

lemma with_batch_identity_obj:
  "\<exists>ob'. with_batch_identity (JObj ob) b = JObj ob'
     \<and> (\<forall>k. k \<notin> identity_fields \<longrightarrow> obj_get ob' k = obj_get ob k)
     \<and> obj_get ob' ''batch_id'' = Some (JStr (b_batch_id (gb_row b)))
     \<and> obj_get ob' ''agent_id'' = Some (JStr (b_agent_id (gb_row b)))
     \<and> obj_get ob' ''queue_class'' = Some (JStr (class_str (b_queue_class (gb_row b))))
     \<and> obj_get ob' ''queue_seq'' = Some (JInt (b_queue_seq (gb_row b)))
     \<and> obj_get ob' ''item_ids'' = Some (JArr (map JStr (map i_item_id (gb_items b))))"
  by (simp add: with_batch_identity.simps Let_def identity_fields_def)

lemma traverse_JStr:
  "traverse (\<lambda>j. case as_str j of None \<Rightarrow> Inl ItemIdsNotStrings | Some s \<Rightarrow> Inr s) (map JStr ids) = Inr ids"
  by (induction ids) auto

text \<open>The part of a batch that both the database and the replay know.\<close>

type_synonym batch_view = "string \<times> queue_class \<times> int \<times> string list \<times> gstate"

definition row_view :: "db \<Rightarrow> batch_row \<Rightarrow> batch_view" where
  "row_view d r = (b_agent_id r, b_queue_class r, b_queue_seq r,
     map i_item_id (batch_items d (b_batch_id r)), b_state r)"

definition replay_view :: "replay_batch \<Rightarrow> batch_view" where
  "replay_view b = (rb_agent_id b, rb_queue_class b, rb_queue_seq b, rb_item_ids b, rb_state b)"

definition db_view :: "db \<Rightarrow> string \<rightharpoonup> batch_view" where
  "db_view d bid = map_option (row_view d) (row_of d bid)"

definition projection_view :: "projection \<Rightarrow> string \<rightharpoonup> batch_view" where
  "projection_view p bid = map_option replay_view (p bid)"

definition with_state :: "gstate \<Rightarrow> batch_view \<Rightarrow> batch_view" where
  "with_state s v = (case v of (a, c, q, l, _) \<Rightarrow> (a, c, q, l, s))"

lemma projection_view_upd: "projection_view (p(bid \<mapsto> b)) = (projection_view p)(bid \<mapsto> replay_view b)"
  by (auto simp: projection_view_def)

text \<open>An event about a batch the projection knows, with the identity of a row that agrees with
  it, replays to the state the operation names.\<close>

lemma replay_update_tagged:
  assumes obj: "with_batch_identity (JObj ob) b = JObj ob'"
    and op: "obj_get ob ''operation'' = Some (JStr op)"
    and target: "target_state op ob = Inr s"
    and declared: "obj_get ob ''state'' = None \<or> obj_get ob ''state'' = Some (JStr (state_str s))"
    and seq: "0 \<le> b_queue_seq (gb_row b)" "b_queue_seq (gb_row b) \<le> i64_max"
    and same: "rb_agent_id rb = b_agent_id (gb_row b)" "rb_queue_class rb = b_queue_class (gb_row b)"
      "rb_queue_seq rb = b_queue_seq (gb_row b)" "rb_item_ids rb = map i_item_id (gb_items b)"
    and valid: "valid_transition (rb_state rb) s"
  shows "\<exists>rb'. replay_update op ob' rb = Inr rb' \<and> replay_view rb' = with_state s (replay_view rb)"
proof -
  from with_batch_identity_obj [of ob b] obj
  have keep: "\<And>k. k \<notin> identity_fields \<Longrightarrow> obj_get ob' k = obj_get ob k"
    and get: "obj_get ob' ''agent_id'' = Some (JStr (b_agent_id (gb_row b)))"
      "obj_get ob' ''queue_class'' = Some (JStr (class_str (b_queue_class (gb_row b))))"
      "obj_get ob' ''queue_seq'' = Some (JInt (b_queue_seq (gb_row b)))"
      "obj_get ob' ''item_ids'' = Some (JArr (map JStr (map i_item_id (gb_items b))))"
    by auto
  have st: "obj_get ob' ''state'' = obj_get ob ''state''"
    by (rule keep) (simp add: identity_fields_def)
  have ds: "declared_state ob' = declared_state ob" by (simp add: declared_state_def st)
  have t: "target_state op ob' = Inr s" using target unfolding target_state_def ds .
  have m: "update_metadata rb ob' = Inr (rb\<lparr>rb_identity := merge_identity (rb_identity rb) ob'\<rparr>)"
    using seq same traverse_JStr [of "map i_item_id (gb_items b)"]
    by (simp add: update_metadata_def optional_string_def optional_i64_def optional_item_ids_def get
        ensure_def)
  from declared obtain dd where dd: "declared_state ob' = Inr dd" "dd = None \<or> dd = Some s"
    by (auto simp: declared_state_def st)
  then have "replay_update op ob' rb =
      Inr (rb\<lparr>rb_identity := merge_identity (rb_identity rb) ob', rb_state := s\<rparr>)"
    using valid by (simp add: replay_update_def m t validate_transition_def ensure_def del: bindR_eq_Inr)
  then show ?thesis by (simp add: replay_view_def with_state_def)
qed

lemma replay_state_event:
  assumes op: "obj_get ob ''operation'' = Some (JStr op)" "is_queue_state_operation op" "op \<noteq> ''enqueue''"
    and target: "target_state op ob = Inr s"
    and declared: "obj_get ob ''state'' = None \<or> obj_get ob ''state'' = Some (JStr (state_str s))"
    and view: "projection_view p (b_batch_id r) = Some (row_view d r)"
    and valid: "valid_transition (b_state r) s"
    and same: "b_batch_id r' = b_batch_id r" "b_agent_id r' = b_agent_id r"
      "b_queue_class r' = b_queue_class r" "b_queue_seq r' = b_queue_seq r"
      "batch_items d' (b_batch_id r) = batch_items d (b_batch_id r)"
    and seq: "0 \<le> b_queue_seq r" "b_queue_seq r \<le> i64_max"
  shows "\<exists>p'. replay_record (state_changed, with_batch_identity (JObj ob) (loaded d' r')) p = Inr p'
     \<and> projection_view p' = (projection_view p)(b_batch_id r \<mapsto> with_state s (row_view d r))"
proof -
  from with_batch_identity_obj [of ob "loaded d' r'"] obtain ob'
    where obj: "with_batch_identity (JObj ob) (loaded d' r') = JObj ob'"
      and keep: "\<And>k. k \<notin> identity_fields \<Longrightarrow> obj_get ob' k = obj_get ob k"
      and bid: "obj_get ob' ''batch_id'' = Some (JStr (b_batch_id r))" using same by auto
  have op': "optional_string ob' ''operation'' = Some op"
    using op keep [of "''operation''"] by (simp add: optional_string_def identity_fields_def)
  from view obtain rb where rb: "p (b_batch_id r) = Some rb" and rv: "replay_view rb = row_view d r"
    by (auto simp: projection_view_def)
  from rv have fields: "rb_agent_id rb = b_agent_id r" "rb_queue_class rb = b_queue_class r"
      "rb_queue_seq rb = b_queue_seq r" "rb_item_ids rb = map i_item_id (batch_items d (b_batch_id r))"
      "rb_state rb = b_state r"
    by (auto simp: replay_view_def row_view_def)
  have "\<exists>rb'. replay_update op ob' rb = Inr rb' \<and> replay_view rb' = with_state s (replay_view rb)"
    by (rule replay_update_tagged [OF obj op(1) target declared]) (use fields seq same valid in auto)
  then obtain rb' where "replay_update op ob' rb = Inr rb'"
      and "replay_view rb' = with_state s (row_view d r)" using rv by auto
  with op op' bid rb obj show ?thesis
    by (auto simp: replay_record_def required_string_def optional_string_def projection_view_upd)
qed

text \<open>Events that are not queue state operations leave the projection alone.\<close>

lemma replay_other_type: "fst ev \<noteq> state_changed \<Longrightarrow> replay_record ev p = Inr p"
  by (simp add: replay_record_def)

lemma replay_other_events: "\<forall>ev \<in> set evs. fst ev \<noteq> state_changed \<Longrightarrow> replay_from p evs = Inr p"
  by (induction evs) (auto simp: replay_other_type)

lemma replay_unproven: "replay_record (unproven_event ev b) p = Inr p"
proof -
  define ob where "ob = [(''operation'', JStr ''acknowledgement_unproven''),
               (''consumer'', JStr (ae_consumer_id ev)),
               (''state'', JStr (state_str (b_state (gb_row b)))),
               (''acceptance'', JStr ''unknown''),
               (''confidence'', JStr (confidence_str (ae_confidence ev))),
               (''evidence_kind'', JStr (kind_str (ae_evidence_kind ev)))]"
  from with_batch_identity_obj [of ob b] obtain ob' where
    ob': "with_batch_identity (JObj ob) b = JObj ob'"
    and keep: "\<And>k. k \<notin> identity_fields \<Longrightarrow> obj_get ob' k = obj_get ob k" by auto
  have "optional_string ob' ''operation'' = Some ''acknowledgement_unproven''"
    using keep [of "''operation''"] by (simp add: optional_string_def identity_fields_def ob_def)
  moreover have "unproven_event ev b = (state_changed, JObj ob')"
    by (simp add: unproven_event_def ob' flip: ob_def)
  ultimately show ?thesis by (simp add: replay_record_def is_queue_state_operation_def)
qed

end
