(* ===== verification/Guidance_System.thy ===== *)
theory Guidance_System
  imports Guidance_Replay
begin

text \<open>
  The guidance queue as a state machine: its calls on batches, one immediate transaction each, in any
  order and from any number of handles on the database. The two calls that also write to the inbox,
  \<^verbatim>\<open>enqueue_batch_with_compatibility\<close> and \<^verbatim>\<open>clear_all\<close>, are not steps of this machine; that they keep
  the invariant of the tables is shown with the machine of the whole store in \<^verbatim>\<open>Inbox_Run\<close>. A state is the database and the log of
  mirrored events, and a step is one call with the events it mirrors; two calls whose commits and
  whose appends to the log happen in different orders are not a run of this machine. The theory
  proves that the queue keeps its invariant along every run and that
  replaying the log of a run in which every call returned gives the database's batches.
\<close>

section \<open>Calls and steps\<close>

datatype gq_call =
    EnqueueCall batch_request
  | ClaimCall boundary_evidence guidance_consumer nat
  | AttemptCall string string transport_attempt
  | AckCall acceptance_evidence
  | ReleaseCall string string string int
  | CancelCall string string
  | RecoverCall int

text \<open>Whether the call returns, the database it leaves and the events it mirrors.\<close>

fun gq_exec :: "call_env \<Rightarrow> gq_call \<Rightarrow> db \<Rightarrow> bool \<times> db \<times> mirror_event list" where
  "gq_exec e (EnqueueCall rq) d = (True, snd (enqueue_batch e rq d))"
| "gq_exec e (ClaimCall be c lease) d =
     (fst (claim_next e be c lease d) \<noteq> Deadlocks, snd (claim_next e be c lease d))"
| "gq_exec e (AttemptCall bid consumer ta) d = (True, snd (record_transport_attempt e bid consumer ta d))"
| "gq_exec e (AckCall ev) d = (True, snd (acknowledge_runtime e ev d))"
| "gq_exec e (ReleaseCall bid consumer reason t) d =
     (True, snd (release_for_retry e bid consumer reason t d))"
| "gq_exec e (CancelCall bid reason) d = (True, snd (cancel_batch e bid reason d))"
| "gq_exec e (RecoverCall t) d = (True, snd (recover_expired_leases t d))"

inductive gq_step :: "db \<times> mirror_event list \<Rightarrow> db \<times> mirror_event list \<Rightarrow> bool" where
  gq_call: "gq_exec e call d = (returned, d', evs) \<Longrightarrow> gq_step (d, log) (d', log @ evs)"

text \<open>The steps of calls that return.\<close>

inductive gq_returning_step :: "db \<times> mirror_event list \<Rightarrow> db \<times> mirror_event list \<Rightarrow> bool" where
  gq_return: "gq_exec e call d = (True, d', evs) \<Longrightarrow> gq_returning_step (d, log) (d', log @ evs)"

inductive_cases gq_stepE: "gq_step s t"
inductive_cases gq_returning_stepE: "gq_returning_step s t"

definition gq_start :: "db \<times> mirror_event list \<Rightarrow> bool" where
  "gq_start s \<longleftrightarrow> s = (empty_db, [])"

lemma snd_eq_tripleI: "snd x = (d', evs) \<Longrightarrow> \<exists>r. x = (r, d', evs)"
  by (cases x) auto

lemma recover_expired_leases_db: "fst (snd (recover_expired_leases t d)) = fst (recover_expired_in_tx t d)"
  by (simp add: recover_expired_leases_def split: prod.splits)

lemma gq_exec_inv: "gq_inv d \<Longrightarrow> gq_exec e call d = (returned, d', evs) \<Longrightarrow> gq_inv d'"
proof (cases call)
  case (RecoverCall t)
  assume "gq_inv d" and "gq_exec e call d = (returned, d', evs)"
  with RecoverCall recover_expired_leases_db [of t d] gq_inv_recover [of d t] show "gq_inv d'" by auto
qed (auto dest!: snd_eq_tripleI intro: gq_inv_enqueue gq_inv_claim gq_inv_attempt gq_inv_acknowledge
       gq_inv_release gq_inv_cancel)

interpretation queue: inductive_invariant gq_start gq_step "\<lambda>s. gq_inv (fst s)"
proof
  show "gq_start s \<Longrightarrow> gq_inv (fst s)" for s by (simp add: gq_start_def gq_inv_empty)
  show "gq_inv (fst s) \<Longrightarrow> gq_step s t \<Longrightarrow> gq_inv (fst t)" for s t
    by (auto elim!: gq_stepE intro: gq_exec_inv)
qed

lemma returning_step_is_step: "gq_returning_step s t \<Longrightarrow> gq_step s t"
  by (auto elim!: gq_returning_stepE intro: gq_call)

section \<open>Views of the database after a call\<close>

lemma row_view_move:
  "life r s \<Longrightarrow> batch_items d' (b_batch_id r) = batch_items d (b_batch_id r) \<Longrightarrow>
     row_view d' s = with_state (b_state s) (row_view d r)"
  by (drule life_key) (simp add: row_view_def with_state_def row_key_def)

lemma db_view_move:
  assumes inv: "gq_inv d" and r: "r \<in> set (batches d)" and life: "life r (f r)"
  shows "db_view (d\<lparr>batches := sql_update (\<lambda>s. s = r) f (batches d)\<rparr>) =
     (db_view d)(b_batch_id r \<mapsto> with_state (b_state (f r)) (row_view d r))"
proof
  fix bid
  let ?d = "d\<lparr>batches := sql_update (\<lambda>s. s = r) f (batches d)\<rparr>"
  from life_key [OF life] have "row_of ?d bid = map_option (\<lambda>s. if s = r then f s else s) (row_of d bid)"
    by (intro row_of_update) (auto simp: row_key_def)
  moreover have "row_view ?d (f r) = with_state (b_state (f r)) (row_view d r)"
    by (rule row_view_move [OF life]) simp
  moreover have "row_view ?d s = row_view d s" for s by (simp add: row_view_def)
  ultimately show "db_view ?d bid = ((db_view d)(b_batch_id r \<mapsto> with_state (b_state (f r)) (row_view d r))) bid"
    using row_of_in [OF inv r] row_of_SomeD [of d bid]
    by (cases "row_of d bid") (auto simp: db_view_def)
qed

lemma db_view_row: "row_of d bid = Some r \<Longrightarrow> db_view d (b_batch_id r) = Some (row_view d r)"
  by (auto simp: db_view_def dest: row_of_SomeD)

lemma life_valid: "life r s \<Longrightarrow> valid_transition (b_state r) (b_state s)"
proof (induction rule: life.induct)
  case (life_accept r t)
  then show ?case by (cases "b_state r") auto
next
  case (life_release r t available reason)
  then show ?case by (cases "b_state r") (auto simp: row_defs)
next
  case (life_cancel r t reason)
  then show ?case by (cases "b_state r") auto
qed simp_all

section \<open>Replaying the events of one call\<close>

text \<open>A call that moved one row and mirrored one state event about it.\<close>

lemma replay_move:
  assumes inv: "gq_inv d" and row: "row_of d bid = Some r" and life: "life r (f r)"
    and view: "projection_view p = db_view d"
    and d': "d' = d\<lparr>batches := sql_update (\<lambda>s. s = r) f (batches d)\<rparr>"
    and op: "obj_get ob ''operation'' = Some (JStr op)" "is_queue_state_operation op" "op \<noteq> ''enqueue''"
    and target: "target_state op ob = Inr (b_state (f r))"
    and declared: "obj_get ob ''state'' = None \<or> obj_get ob ''state'' = Some (JStr (state_str (b_state (f r))))"
    and tagged: "row_key r' = row_key r" "items d'' = items d"
  shows "\<exists>p'. replay_record (state_changed, with_batch_identity (JObj ob) (loaded d'' r')) p = Inr p'
     \<and> projection_view p' = db_view d'"
proof -
  from row_of_SomeD [OF row] have r: "r \<in> set (batches d)" by simp
  then have ok: "row_ok r" by (rule gq_inv_row_ok [OF inv])
  have "\<exists>p'. replay_record (state_changed, with_batch_identity (JObj ob) (loaded d'' r')) p = Inr p'
     \<and> projection_view p' = (projection_view p)(b_batch_id r \<mapsto> with_state (b_state (f r)) (row_view d r))"
    using tagged ok view db_view_row [OF row]
    by (intro replay_state_event [OF op target declared])
      (auto simp: row_key_def batch_items_def row_ok_def intro: life_valid [OF life])
  then show ?thesis using db_view_move [of d r f, OF inv r life] by (simp add: view d')
qed

lemma new_batch_tagged:
  assumes "obj_get ob ''agent_id'' = Some (JStr agent)"
    and "obj_get ob ''queue_class'' = Some (JStr (class_str c))"
    and "obj_get ob ''queue_seq'' = Some (JInt q)"
    and "obj_get ob ''item_ids'' = Some (JArr (map JStr ids))" and "0 \<le> q" and "q \<le> i64_max"
  shows "\<exists>nb. new_batch ob bid = Inr nb \<and> replay_view nb = (agent, c, q, ids, Pending)"
  using assms traverse_JStr [of ids]
  by (simp add: new_batch_def required_item_ids_def optional_item_ids_def required_string_def
      optional_string_def required_i64_def optional_i64_def replay_view_def)

lemma replay_enqueue:
  assumes inv: "gq_inv d" and view: "projection_view p = db_view d"
    and run: "enqueue_batch e rq d = (res, d', evs)"
  shows "\<exists>p'. replay_from p evs = Inr p' \<and> projection_view p' = db_view d'"
  using run
proof (cases rule: enqueue_batch_cases)
  case (created res')
  define row where "row = new_batch_row e rq (normalize_agent_id (rq_agent_id rq))
      (next_queue_seq d (normalize_agent_id (rq_agent_id rq)))"
  from insert_new_batch_InrD [OF created(4)]
  have bs: "batches d' = batches d @ [row]" and its: "items d' = items d @ item_rows e 0 (rq_items rq)"
    and load: "load_batch d' (uuid e 0) = Inr (er_batch res')" by (auto simp: row_def)
  from validate_batch_request_Inr [OF created(5)] gq_inv_insert [OF inv created(4)]
  have inv': "gq_inv d'" and fresh: "uuid e 0 \<notin> b_batch_id ` set (batches d)" by auto
  have rin: "row \<in> set (batches d')" and rid: "b_batch_id row = uuid e 0" by (simp_all add: bs row_def)
  have row': "row_of d' (uuid e 0) = Some row" using row_of_in [OF inv' rin] rid by simp
  with load inv' have b: "er_batch res' = loaded d' row" using gq_inv_load by fastforce
  have ok: "0 \<le> b_queue_seq row" "b_queue_seq row \<le> i64_max"
    using gq_inv_row_ok [OF inv' rin] by (auto simp: row_ok_def)
  have dv: "db_view d' = (db_view d)(uuid e 0 \<mapsto> row_view d' row)"
  proof
    fix bid
    have "row_of d' bid = (case row_of d bid of None \<Rightarrow> if uuid e 0 = bid then Some row else None | Some r \<Rightarrow> Some r)"
      by (simp add: row_of_def bs rid find_append split: option.splits)
    moreover have "bid \<noteq> uuid e 0 \<Longrightarrow> batch_items d' bid = batch_items d bid"
      by (rule batch_items_append(1) [OF its])
    ultimately show "db_view d' bid = ((db_view d)(uuid e 0 \<mapsto> row_view d' row)) bid"
      using fresh row_of_None [of d "uuid e 0"] row_of_SomeD [of d bid]
      by (cases "row_of d bid") (auto simp: db_view_def row_view_def)
  qed
  have pnone: "p (uuid e 0) = None"
    using fun_cong [OF view, of "uuid e 0"] fresh row_of_None [of d "uuid e 0"]
    by (simp add: projection_view_def db_view_def)
  define ob0 where "ob0 = [(''operation'', JStr ''enqueue''), (''idempotency_key'',
      json_opt JStr (b_idempotency_key (gb_row (er_batch res'))))]"
  from with_batch_identity_obj [of ob0 "loaded d' row"]
  obtain ob where obj: "with_batch_identity (JObj ob0) (loaded d' row) = JObj ob"
    and keep: "\<And>k. k \<notin> identity_fields \<Longrightarrow> obj_get ob k = obj_get ob0 k"
    and get: "obj_get ob ''batch_id'' = Some (JStr (uuid e 0))"
      "obj_get ob ''agent_id'' = Some (JStr (b_agent_id row))"
      "obj_get ob ''queue_class'' = Some (JStr (class_str (b_queue_class row)))"
      "obj_get ob ''queue_seq'' = Some (JInt (b_queue_seq row))"
      "obj_get ob ''item_ids'' = Some (JArr (map JStr (map i_item_id (batch_items d' (uuid e 0)))))"
    using rid by auto
  have ev: "evs = [(state_changed, JObj ob)]"
    unfolding created(3) append_enqueue_event_def using created(2) b obj by (simp add: ob0_def)
  have op: "obj_get ob ''operation'' = Some (JStr ''enqueue'')"
    using keep [of "''operation''"] by (simp add: identity_fields_def ob0_def)
  from new_batch_tagged [OF get(2-5) ok]
  obtain nb where "new_batch ob (uuid e 0) = Inr nb" and "replay_view nb = row_view d' row"
    using rid by (auto simp: row_view_def row_def)
  then have "replay_from p evs = Inr (p(uuid e 0 \<mapsto> nb))"
      and "projection_view (p(uuid e 0 \<mapsto> nb)) = db_view d'"
    by (auto simp: ev replay_record_def optional_string_def required_string_def get op pnone
        is_queue_state_operation_def projection_view_upd view dv)
  then show ?thesis by blast
qed (use view in auto)

text \<open>Lease recovery: one event per expired row, each moving its batch.\<close>

definition recovered_views :: "db \<Rightarrow> batch_row list \<Rightarrow> string \<rightharpoonup> batch_view" where
  "recovered_views d rs = map_of (map (\<lambda>r. (b_batch_id r,
     with_state (recovered_state (b_attempt_count r)) (row_view d r))) rs)"

lemma inspect_batch_cases:
  assumes "inspect_batch d bid = x"
  shows "(case x of Inl _ \<Rightarrow> None | Inr b \<Rightarrow> b) = None \<or>
     (\<exists>r. row_of d bid = Some r \<and> (case x of Inl _ \<Rightarrow> None | Inr b \<Rightarrow> b) = Some (loaded d r))"
proof (cases x)
  case (Inr ob)
  with assms have "load_batch_optional d bid = Inr ob" by (auto simp: inspect_batch_def)
  with load_batch_optional_InrD have "ob = map_option (loaded d) (row_of d bid)" by blast
  with Inr show ?thesis by (cases "row_of d bid") auto
qed simp

lemma replay_bare_event:
  assumes view: "projection_view p bid = Some v" and valid: "valid_transition s0 s"
    and v: "v = (a, c, q, l, s0)"
  shows "\<exists>p'. replay_record (state_changed, JObj [(''operation'', JStr ''lease_expired''),
       (''batch_id'', JStr bid), (''state'', JStr (state_str s))]) p = Inr p'
     \<and> projection_view p' = (projection_view p)(bid \<mapsto> with_state s v)"
proof -
  from view obtain rb where rb: "p bid = Some rb" and rv: "replay_view rb = v"
    by (auto simp: projection_view_def)
  let ?ob = "[(''operation'', JStr ''lease_expired''), (''batch_id'', JStr bid),
       (''state'', JStr (state_str s))]"
  have "replay_update ''lease_expired'' ?ob rb
      = Inr (rb\<lparr>rb_identity := merge_identity (rb_identity rb) ?ob, rb_state := s\<rparr>)"
    using rv v valid
    by (simp add: replay_update_def update_metadata_def optional_string_def optional_i64_def
        optional_item_ids_def target_state_def declared_state_def ensure_def validate_transition_def
        replay_view_def del: bindR_eq_Inr)
  with rb rv v show ?thesis
    by (auto simp: replay_record_def optional_string_def required_string_def
        is_queue_state_operation_def projection_view_upd replay_view_def with_state_def)
qed

lemma replay_recovery_event:
  assumes view: "projection_view p (b_batch_id r) = Some (row_view d r)"
    and fl: "in_flight (b_state r)" and ok: "row_ok r"
    and same: "\<And>r'. row_of d' (b_batch_id r) = Some r' \<Longrightarrow> row_key r' = row_key r" "items d' = items d"
  defines "s \<equiv> recovered_state (b_attempt_count r)"
  shows "\<exists>p'. replay_from p (recovery_events d' (b_batch_id r, s)) = Inr p'
     \<and> projection_view p' = (projection_view p)(b_batch_id r \<mapsto> with_state s (row_view d r))"
proof -
  let ?ob = "[(''operation'', JStr ''lease_expired''), (''batch_id'', JStr (b_batch_id r)),
       (''state'', JStr (state_str s))]"
  let ?found = "case inspect_batch d' (b_batch_id r) of Inl _ \<Rightarrow> None | Inr b \<Rightarrow> b"
  have valid: "valid_transition (b_state r) s"
    using fl by (cases "b_state r") (auto simp: s_def recovered_state_def)
  have first: "\<exists>p'. replay_record (state_changed,
        (case ?found of None \<Rightarrow> JObj ?ob | Some b \<Rightarrow> with_batch_identity (JObj ?ob) b)) p = Inr p'
     \<and> projection_view p' = (projection_view p)(b_batch_id r \<mapsto> with_state s (row_view d r))"
  proof (cases ?found)
    case None
    then show ?thesis using replay_bare_event [OF view valid] by (simp add: row_view_def)
  next
    case (Some b)
    with inspect_batch_cases [OF refl, of d' "b_batch_id r"]
    obtain r' where r': "row_of d' (b_batch_id r) = Some r'" and b: "b = loaded d' r'" by auto
    have "\<exists>p'. replay_record (state_changed, with_batch_identity (JObj ?ob) (loaded d' r')) p = Inr p'
     \<and> projection_view p' = (projection_view p)(b_batch_id r \<mapsto> with_state s (row_view d r))"
      using same(1) [OF r'] same(2) ok
      by (intro replay_state_event [where op = "''lease_expired''", OF _ _ _ _ _ view valid])
        (auto simp: row_key_def row_ok_def batch_items_def target_state_def declared_state_def
          is_queue_state_operation_def)
    then show ?thesis by (simp add: Some b)
  qed
  have rest: "\<exists>rest. recovery_events d' (b_batch_id r, s) = (state_changed,
        (case ?found of None \<Rightarrow> JObj ?ob | Some b \<Rightarrow> with_batch_identity (JObj ?ob) b)) # rest
      \<and> (\<forall>ev \<in> set rest. fst ev \<noteq> state_changed)"
    by (auto simp: recovery_events_def Let_def state_changed_def)
  from first rest show ?thesis by (fastforce simp: replay_other_events)
qed

lemma replay_recoveries:
  assumes "distinct (map b_batch_id rs)" and "items d' = items d"
    and "\<And>r. r \<in> set rs \<Longrightarrow> in_flight (b_state r) \<and> row_ok r
      \<and> projection_view p (b_batch_id r) = Some (row_view d r)"
    and "\<And>r r'. r \<in> set rs \<Longrightarrow> row_of d' (b_batch_id r) = Some r' \<Longrightarrow> row_key r' = row_key r"
  shows "\<exists>p'. replay_from p (concat (map (\<lambda>r. recovery_events d' (b_batch_id r, recovered_state (b_attempt_count r))) rs))
      = Inr p' \<and> projection_view p' = projection_view p ++ recovered_views d rs"
  using assms
proof (induction rs arbitrary: p)
  case Nil
  then show ?case by (simp add: recovered_views_def)
next
  case (Cons r rs)
  let ?v = "with_state (recovered_state (b_attempt_count r)) (row_view d r)"
  from Cons.prems(1,2) Cons.prems(3,4) [of r] obtain p1 where
      p1: "replay_from p (recovery_events d' (b_batch_id r, recovered_state (b_attempt_count r))) = Inr p1"
      and v1: "projection_view p1 = (projection_view p)(b_batch_id r \<mapsto> ?v)"
    using replay_recovery_event [of p r d d'] by auto
  have "\<exists>p'. replay_from p1 (concat (map (\<lambda>r. recovery_events d' (b_batch_id r, recovered_state (b_attempt_count r))) rs))
      = Inr p' \<and> projection_view p' = projection_view p1 ++ recovered_views d rs"
  proof (rule Cons.IH)
    show "in_flight (b_state s) \<and> row_ok s \<and> projection_view p1 (b_batch_id s) = Some (row_view d s)"
      if s: "s \<in> set rs" for s
    proof -
      from Cons.prems(1) have "b_batch_id r \<notin> b_batch_id ` set rs" by simp
      with s have "b_batch_id s \<noteq> b_batch_id r" by (metis image_eqI)
      with s Cons.prems(3) [of s] show ?thesis by (simp add: v1)
    qed
  qed (use Cons.prems in auto)
  then obtain p2 where p2: "replay_from p1 (concat (map (\<lambda>r. recovery_events d' (b_batch_id r, recovered_state (b_attempt_count r))) rs)) = Inr p2"
    and v2: "projection_view p2 = projection_view p1 ++ recovered_views d rs" by blast
  have "b_batch_id r \<notin> dom (recovered_views d rs)"
    using Cons.prems(1) by (auto simp: recovered_views_def dom_map_of_conv_image_fst image_image)
  then have "projection_view p2 = projection_view p ++ recovered_views d (r # rs)"
    by (simp add: v2 v1 map_add_upd_left recovered_views_def map_add_upd)
  with p1 p2 show ?case by (auto simp: replay_from_append)
qed

lemma db_view_recover:
  assumes inv: "gq_inv d"
  shows "db_view (fst (recover_expired_in_tx t d)) =
     db_view d ++ recovered_views d (filter (expired t) (batches d))"
proof
  fix bid
  let ?d = "d\<lparr>batches := sql_update (expired t) (recover_update t) (batches d)\<rparr>"
  have dist: "distinct (map b_batch_id (batches d))" using inv by (simp add: gq_inv_def keys_ok_def)
  have row: "row_of ?d bid = map_option (\<lambda>r. if expired t r then recover_update t r else r) (row_of d bid)"
    by (rule row_of_update) simp
  have rv: "recovered_views d (filter (expired t) (batches d)) bid =
      (case row_of d bid of None \<Rightarrow> None
       | Some r \<Rightarrow> if expired t r then Some (with_state (recovered_state (b_attempt_count r)) (row_view d r)) else None)"
  proof (cases "row_of d bid")
    case None
    then have "map_of (map (\<lambda>r. (b_batch_id r, with_state (recovered_state (b_attempt_count r)) (row_view d r)))
        (filter (expired t) (batches d))) bid = None"
      by (auto simp: map_of_eq_None_iff row_of_None)
    with None show ?thesis by (simp add: recovered_views_def)
  next
    case (Some r)
    from row_of_SomeD [OF Some] have r: "r \<in> set (batches d)" and bid: "b_batch_id r = bid" by auto
    show ?thesis
    proof (cases "expired t r")
      case True
      then have "map_of (map (\<lambda>r. (b_batch_id r, with_state (recovered_state (b_attempt_count r)) (row_view d r)))
          (filter (expired t) (batches d))) bid
          = Some (with_state (recovered_state (b_attempt_count r)) (row_view d r))"
        using dist r bid by (intro map_of_is_SomeI) (auto simp: comp_def distinct_map_filter)
      with Some True show ?thesis by (simp add: recovered_views_def)
    next
      case False
      have "x = r" if "x \<in> set (batches d)" "b_batch_id x = bid" for x
        using gq_inv_same_id [OF inv that(1) r] that(2) bid by simp
      with False have "map_of (map (\<lambda>r. (b_batch_id r, with_state (recovered_state (b_attempt_count r)) (row_view d r)))
          (filter (expired t) (batches d))) bid = None"
        by (auto simp: map_of_eq_None_iff)
      with Some False show ?thesis by (simp add: recovered_views_def)
    qed
  qed
  have "row_view ?d (recover_update t r) = with_state (recovered_state (b_attempt_count r)) (row_view d r)"
    if "expired t r" for r
    using row_view_move [OF life_recover [OF that], of ?d d] by (simp add: recover_update_def release_row_def Let_def)
  moreover have "row_view ?d r = row_view d r" for r by (simp add: row_view_def)
  ultimately show "db_view (fst (recover_expired_in_tx t d)) bid =
      (db_view d ++ recovered_views d (filter (expired t) (batches d))) bid"
    by (cases "row_of d bid") (auto simp: recover_batches [OF dist] db_view_def row rv map_add_def)
qed

end
