(* ===== verification/Guidance_Refinement.thy ===== *)
theory Guidance_Refinement
  imports Guidance_System
begin

text \<open>
  The ledger refines the database: the events every returning call of the queue mirrors, replayed
  in order by \<^verbatim>\<open>replay_guidance_batches\<close>, rebuild the agent, class, sequence number, items
  and state of every batch the database holds.
\<close>

section \<open>Calls that move one batch\<close>

lemma target_state_named:
  "target_state ''claim'' ob = Inr Leased" "target_state ''transport_submitted'' ob = Inr Submitted"
  "target_state ''acknowledge'' ob = Inr Accepted" "target_state ''cancel'' ob = Inr Cancelled"
  by (simp_all add: target_state_def)

lemma target_state_declared:
  "op = ''release_for_retry'' \<or> op = ''abandon'' \<or> op = ''lease_expired'' \<Longrightarrow>
     obj_get ob ''state'' = Some (JStr (state_str s)) \<Longrightarrow> target_state op ob = Inr s"
  by (auto simp: target_state_def declared_state_def)

lemma row_key_updates:
  "row_key (submit_row x r) = row_key r" "row_key (lease_row c x r) = row_key r"
  by (simp_all add: row_key_def row_defs)

lemma replay_attempt:
  assumes inv: "gq_inv d" and view: "projection_view p = db_view d"
    and run: "record_transport_attempt e bid consumer ta d = (res, d', evs)"
  shows "\<exists>p'. replay_from p evs = Inr p' \<and> projection_view p' = db_view d'"
  using inv run
proof (cases rule: record_transport_attempt_cases)
  case (submitted r)
  let ?f = "submit_row (sat_add (clock e) max_retry_backoff_seconds)"
  from submitted(7) obtain ob ob' where evs: "evs = [(''message.delivery'', ob'),
      (state_changed, with_batch_identity (JObj ob) (loaded d' (?f r)))]"
    and op: "obj_get ob ''operation'' = Some (JStr ''transport_submitted'')"
    and st: "obj_get ob ''state'' = Some (JStr (state_str Submitted))" by blast
  have "\<exists>p'. replay_record (state_changed, with_batch_identity (JObj ob) (loaded d' (?f r))) p = Inr p'
     \<and> projection_view p' = db_view d'"
    by (rule replay_move [OF inv submitted(1) life_submit [OF submitted(2)] view submitted(5) op])
      (simp_all add: is_queue_state_operation_def target_state_named st row_key_updates submitted(5))
  moreover have "replay_record (''message.delivery'', ob') p = Inr p"
    by (rule replay_other_type) (simp add: state_changed_def)
  ultimately show ?thesis by (auto simp: evs)
qed (use view in auto)

lemma replay_acknowledge:
  assumes inv: "gq_inv d" and view: "projection_view p = db_view d"
    and run: "acknowledge_runtime e ev d = (res, d', evs)"
  shows "\<exists>p'. replay_from p evs = Inr p' \<and> projection_view p' = db_view d'"
  using inv run
proof (cases rule: acknowledge_runtime_cases)
  case (rejected why)
  then show ?thesis using view by (auto simp: replay_unproven)
next
  case (accepted r)
  define ob where "ob = [(''operation'', JStr ''acknowledge''), (''consumer'', JStr (ae_consumer_id ev)),
                (''evidence_kind'', JStr (kind_str (ae_evidence_kind ev))),
                (''acceptance'', JStr ''exact''),
                (''confidence'', JStr (confidence_str (ae_confidence ev)))]"
  obtain rest where evs: "evs = (state_changed, with_batch_identity (JObj ob) (loaded d r)) # rest"
      and other: "\<forall>x \<in> set rest. fst x \<noteq> state_changed"
    by (auto simp: accepted(8) ack_events_def ob_def state_changed_def)
  have "\<exists>p'. replay_record (state_changed, with_batch_identity (JObj ob) (loaded d r)) p = Inr p'
     \<and> projection_view p' = db_view d'"
    by (rule replay_move [OF inv accepted(1) life_accept [OF accepted(2)] view accepted(7),
          where op = "''acknowledge''"])
      (simp_all add: is_queue_state_operation_def target_state_named ob_def)
  with other show ?thesis by (auto simp: evs replay_other_events)
qed (use view in auto)

lemma replay_release:
  assumes inv: "gq_inv d" and view: "projection_view p = db_view d"
    and run: "release_for_retry e bid consumer reason next_at d = (res, d', evs)"
  shows "\<exists>p'. replay_from p evs = Inr p' \<and> projection_view p' = db_view d'"
  using inv run
proof (cases rule: release_for_retry_cases)
  case (released r)
  let ?f = "release_row (clock e) (max next_at (clock e)) reason"
  let ?op = "if recovered_state (b_attempt_count r) = Abandoned then ''abandon'' else ''release_for_retry''"
  from released(6) obtain ob rest
    where evs: "evs = (state_changed, with_batch_identity (JObj ob) (loaded d r)) # rest"
      and other: "\<forall>x \<in> set rest. fst x \<noteq> state_changed"
      and op: "obj_get ob ''operation'' = Some (JStr ?op)"
      and st: "obj_get ob ''state'' = Some (JStr (state_str (recovered_state (b_attempt_count r))))" by blast
  have fst: "b_state (?f r) = recovered_state (b_attempt_count r)" by (simp add: release_row_def Let_def)
  have "\<exists>p'. replay_record (state_changed, with_batch_identity (JObj ob) (loaded d r)) p = Inr p'
     \<and> projection_view p' = db_view d'"
  proof (rule replay_move [OF inv released(1) life_release [OF released(2)] view released(5) op])
    show "target_state ?op ob = Inr (b_state (?f r))"
      by (rule target_state_declared) (auto simp: st fst)
  qed (auto simp: is_queue_state_operation_def st fst)
  with other show ?thesis by (auto simp: evs replay_other_events)
qed (use view in auto)

lemma replay_cancel:
  assumes inv: "gq_inv d" and view: "projection_view p = db_view d"
    and run: "cancel_batch e bid reason d = (res, d', evs)"
  shows "\<exists>p'. replay_from p evs = Inr p' \<and> projection_view p' = db_view d'"
  using inv run
proof (cases rule: cancel_batch_cases)
  case (cancelled r)
  from cancelled(5) obtain ob where evs: "evs = [(state_changed, with_batch_identity (JObj ob) (loaded d r))]"
    and op: "obj_get ob ''operation'' = Some (JStr ''cancel'')"
    and st: "obj_get ob ''state'' = Some (JStr (state_str Cancelled))" by blast
  have "\<exists>p'. replay_record (state_changed, with_batch_identity (JObj ob) (loaded d r)) p = Inr p'
     \<and> projection_view p' = db_view d'"
    by (rule replay_move [OF inv cancelled(1) life_cancel [OF cancelled(2)] view cancelled(4) op])
      (simp_all add: is_queue_state_operation_def target_state_named st)
  then show ?thesis by (auto simp: evs)
qed (use view in auto)

section \<open>Recovery and claims\<close>

lemma recovered_row_key:
  assumes "gq_inv d" and "r \<in> set (batches d)"
    and "row_of (fst (recover_expired_in_tx t d)) (b_batch_id r) = Some s"
  shows "row_key s = row_key r"
proof -
  have "row_of (fst (recover_expired_in_tx t d)) (b_batch_id r) =
      Some (if expired t r then recover_update t r else r)"
    using assms(1) row_of_in [OF assms(1,2)]
    by (simp add: recover_batches gq_inv_def keys_ok_def row_of_update)
  with assms(3) show ?thesis using life_key [OF life_recover, of t r] by auto
qed

lemma recovery_frame:
  "gq_inv d \<Longrightarrow> items (fst (recover_expired_in_tx t d)) = items d"
  by (simp add: recover_batches gq_inv_def keys_ok_def)

text \<open>The recovery events of a call, tagged from a database that has the batches of the recovered
  one up to their identity, replay to the recovered database.\<close>

lemma replay_recovery:
  assumes inv: "gq_inv d" and view: "projection_view p = db_view d"
    and items: "items d' = items d"
    and keys: "\<And>r r'. r \<in> set (batches d) \<Longrightarrow> row_of d' (b_batch_id r) = Some r' \<Longrightarrow> row_key r' = row_key r"
  shows "\<exists>p'. replay_from p (concat (map (recovery_events d') (snd (recover_expired_in_tx t d)))) = Inr p'
     \<and> projection_view p' = db_view (fst (recover_expired_in_tx t d))"
proof -
  let ?rs = "filter (expired t) (batches d)"
  have "\<exists>p'. replay_from p (concat (map (\<lambda>r. recovery_events d' (b_batch_id r, recovered_state (b_attempt_count r))) ?rs))
      = Inr p' \<and> projection_view p' = projection_view p ++ recovered_views d ?rs"
  proof (rule replay_recoveries)
    show "distinct (map b_batch_id ?rs)"
      using inv by (simp add: gq_inv_def keys_ok_def distinct_map_filter)
    show "in_flight (b_state r) \<and> row_ok r \<and> projection_view p (b_batch_id r) = Some (row_view d r)"
      if "r \<in> set ?rs" for r
      using that inv db_view_row [OF row_of_in [OF inv, of r]]
      by (auto simp: view dest: expired_in_flight gq_inv_row_ok)
  qed (use items keys in auto)
  then show ?thesis by (simp add: recover_list db_view_recover [OF inv] view comp_def)
qed

lemma replay_recover_call:
  assumes inv: "gq_inv d" and view: "projection_view p = db_view d"
    and run: "recover_expired_leases t d = (ids, d', evs)"
  shows "\<exists>p'. replay_from p evs = Inr p' \<and> projection_view p' = db_view d'"
proof -
  from run have "d' = fst (recover_expired_in_tx t d)"
    and "evs = concat (map (recovery_events d') (snd (recover_expired_in_tx t d)))"
    by (auto simp: recover_expired_leases_def emit_recovery_events_def split: prod.splits)
  with replay_recovery [OF inv view, of d'] recovery_frame [OF inv] recovered_row_key [OF inv]
  show ?thesis by blast
qed

lemma replay_claim:
  assumes inv: "gq_inv d" and view: "projection_view p = db_view d"
    and run: "claim_next e be c lease d = (out, d', evs)" and returned: "out \<noteq> Deadlocks"
  shows "\<exists>p'. replay_from p evs = Inr p' \<and> projection_view p' = db_view d'"
  using inv run
proof (cases rule: claim_next_cases)
  case idle
  then have none: "filter (expired (clock e)) (batches d) = []" by (simp add: recover_list)
  have "db_view d' = db_view d"
    unfolding idle(2) db_view_recover [OF inv] none by (simp add: recovered_views_def)
  then show ?thesis using idle(3) view by simp
next
  case (claimed r)
  define d1 where "d1 = fst (recover_expired_in_tx (clock e) d)"
  let ?f = "lease_row c (lease_expiry e lease)"
  have d': "d' = d1\<lparr>batches := sql_update (\<lambda>s. s = r) ?f (batches d1)\<rparr>"
    using claimed(6) by (simp add: d1_def)
  have inv1: "gq_inv d1" unfolding d1_def by (rule gq_inv_recover [OF inv])
  from earliest_SomeD [OF claimed(5)] have rin: "r \<in> set (batches d1)" and pend: "b_state r = Pending"
    by (auto simp: d1_def claimable_def)
  have keys: "row_key s' = row_key s" if "s \<in> set (batches d)" "row_of d' (b_batch_id s) = Some s'" for s s'
  proof -
    from that(2) obtain s1 where "row_of d1 (b_batch_id s) = Some s1" and "s' = s1 \<or> s' = ?f s1"
      unfolding d' by (subst (asm) row_of_update) (auto split: if_splits)
    with recovered_row_key [OF inv that(1)] show ?thesis by (auto simp: d1_def row_key_updates)
  qed
  from replay_recovery [OF inv view, of d' "clock e"] recovery_frame [OF inv] keys obtain p1
    where p1: "replay_from p (concat (map (recovery_events d') (snd (recover_expired_in_tx (clock e) d)))) = Inr p1"
      and v1: "projection_view p1 = db_view d1"
    by (auto simp: d' d1_def)
  have "\<exists>p'. replay_record (claim_event be c (loaded d' (?f r))) p1 = Inr p' \<and> projection_view p' = db_view d'"
    unfolding claim_event_def
    by (rule replay_move [OF inv1 row_of_in [OF inv1 rin] life_lease [OF pend] v1 d', where op = "''claim''"])
      (simp_all add: is_queue_state_operation_def target_state_named row_key_updates d')
  with p1 show ?thesis by (auto simp: claimed(7) replay_from_append)
qed (use view returned in auto)

section \<open>Every run\<close>

definition replayable :: "db \<times> mirror_event list \<Rightarrow> bool" where
  "replayable s \<longleftrightarrow>
     (case replay_guidance_batches (snd s) of
        Inl _ \<Rightarrow> False
      | Inr p \<Rightarrow> projection_view p = db_view (fst s))"

lemma replayable_iff:
  "replayable (d, log) \<longleftrightarrow> (\<exists>p. replay_guidance_batches log = Inr p \<and> projection_view p = db_view d)"
  by (auto simp: replayable_def split: sum.splits)

lemma replay_exec:
  assumes "gq_inv d" and "projection_view p = db_view d" and "gq_exec e call d = (True, d', evs)"
  shows "\<exists>p'. replay_from p evs = Inr p' \<and> projection_view p' = db_view d'"
proof (cases call)
  case (EnqueueCall rq)
  with assms(3) have "snd (enqueue_batch e rq d) = (d', evs)" by simp
  with replay_enqueue [OF assms(1,2)] show ?thesis by (cases "enqueue_batch e rq d") simp
next
  case (AttemptCall bid consumer ta)
  with assms(3) have "snd (record_transport_attempt e bid consumer ta d) = (d', evs)" by simp
  with replay_attempt [OF assms(1,2)] show ?thesis by (cases "record_transport_attempt e bid consumer ta d") simp
next
  case (AckCall ev)
  with assms(3) have "snd (acknowledge_runtime e ev d) = (d', evs)" by simp
  with replay_acknowledge [OF assms(1,2)] show ?thesis by (cases "acknowledge_runtime e ev d") simp
next
  case (ReleaseCall bid consumer reason t)
  with assms(3) have "snd (release_for_retry e bid consumer reason t d) = (d', evs)" by simp
  with replay_release [OF assms(1,2)] show ?thesis by (cases "release_for_retry e bid consumer reason t d") simp
next
  case (CancelCall bid reason)
  with assms(3) have "snd (cancel_batch e bid reason d) = (d', evs)" by simp
  with replay_cancel [OF assms(1,2)] show ?thesis by (cases "cancel_batch e bid reason d") simp
next
  case (RecoverCall t)
  with assms(3) have "snd (recover_expired_leases t d) = (d', evs)" by simp
  with replay_recover_call [OF assms(1,2)] show ?thesis by (cases "recover_expired_leases t d") simp
next
  case (ClaimCall be c lease)
  with assms(3) have "fst (claim_next e be c lease d) \<noteq> Deadlocks" and "snd (claim_next e be c lease d) = (d', evs)"
    by simp_all
  with replay_claim [OF assms(1,2), of e be c lease] show ?thesis by (cases "claim_next e be c lease d") simp
qed

lemma replayable_step:
  assumes "gq_inv d" and "replayable (d, log)" and "gq_exec e call d = (True, d', evs)"
  shows "replayable (d', log @ evs)"
proof -
  from assms(2) obtain p where "replay_guidance_batches log = Inr p" and "projection_view p = db_view d"
    by (auto simp: replayable_iff)
  with replay_exec [OF assms(1) _ assms(3), of p] show ?thesis
    by (auto simp: replayable_iff replay_guidance_batches_def replay_from_append)
qed

lemma view_empty: "projection_view Map.empty = db_view empty_db"
  by (rule ext) (simp add: projection_view_def db_view_def row_of_def empty_db_def)

interpretation ledger: inductive_invariant gq_start gq_returning_step "\<lambda>s. gq_inv (fst s) \<and> replayable s"
proof
  show "gq_start s \<Longrightarrow> gq_inv (fst s) \<and> replayable s" for s
    using gq_inv_empty view_empty by (simp add: gq_start_def replayable_iff replay_guidance_batches_def)
  show "gq_inv (fst s) \<and> replayable s \<Longrightarrow> gq_returning_step s t \<Longrightarrow> gq_inv (fst t) \<and> replayable t" for s t
    by (auto elim!: gq_returning_stepE intro: replayable_step gq_exec_inv)
qed

end
