(* ===== verification/Guidance_Properties.thy ===== *)
theory Guidance_Properties
  imports Guidance_Refinement
begin

text \<open>
  What the durable guidance queue guarantees to its clients, stated on its own operations and on
  every run of them, with a concrete run of the queue at which each guarantee is applied.
\<close>

section \<open>What one call does to the rows\<close>

lemma move_row:
  "r \<in> set rs \<Longrightarrow> life x (f x) \<Longrightarrow> \<exists>r' \<in> set (sql_update (\<lambda>s. s = x) f rs). life\<^sup>*\<^sup>* r r'"
  by (cases "r = x") (auto simp: set_sql_update)

lemma recover_moves_row:
  "gq_inv d \<Longrightarrow> r \<in> set (batches d) \<Longrightarrow>
     \<exists>r' \<in> set (batches (fst (recover_expired_in_tx t d))). life\<^sup>*\<^sup>* r r'"
  by (cases "expired t r")
    (auto simp: recover_batches gq_inv_def keys_ok_def set_sql_update intro: life_recover)

lemma claim_moves_row:
  assumes inv: "gq_inv d" and run: "claim_next e be c lease d = (out, d', evs)" and r: "r \<in> set (batches d)"
  shows "(\<exists>r' \<in> set (batches d'). life\<^sup>*\<^sup>* r r') \<and> items d' = items d"
  using inv run
proof (cases rule: claim_next_cases)
  case (claimed x)
  let ?d = "fst (recover_expired_in_tx (clock e) d)"
  from recover_moves_row [OF inv r, of "clock e"] obtain r1 where r1: "r1 \<in> set (batches ?d)" "life\<^sup>*\<^sup>* r r1" by blast
  from earliest_SomeD [OF claimed(5)] have "life x (lease_row c (lease_expiry e lease) x)"
    by (auto simp: claimable_def intro: life_lease)
  from move_row [of r1 "batches ?d" x "lease_row c (lease_expiry e lease)", OF r1(1) this]
  obtain r2 where "r2 \<in> set (batches d')" "life\<^sup>*\<^sup>* r1 r2" using claimed(6) by auto
  with r1 show ?thesis using claimed(6) recovery_frame [OF inv] by (auto intro: rtranclp_trans)
qed (use r recover_moves_row [OF inv r] recovery_frame [OF inv] in auto)

lemma exec_moves_row:
  assumes inv: "gq_inv d" and run: "gq_exec e call d = (returned, d', evs)" and r: "r \<in> set (batches d)"
  shows "(\<exists>r' \<in> set (batches d'). life\<^sup>*\<^sup>* r r')
     \<and> batch_items d' (b_batch_id r) = batch_items d (b_batch_id r)"
proof (cases call)
  case (EnqueueCall rq)
  obtain res where "enqueue_batch e rq d = (res, d', evs)" using run EnqueueCall snd_eq_tripleI by fastforce
  then show ?thesis
  proof (cases rule: enqueue_batch_cases)
    case (created res')
    from insert_new_batch_InrD [OF created(4)] have "r \<in> set (batches d')"
      and its: "items d' = items d @ item_rows e 0 (rq_items rq)" using r by auto
    moreover from gq_inv_insert [OF inv created(4)] validate_batch_request_Inr [OF created(5)] r
    have "b_batch_id r \<noteq> uuid e 0" by (metis image_eqI)
    ultimately show ?thesis using batch_items_append(1) [OF its] by blast
  qed (use r in auto)
next
  case (ClaimCall be c lease)
  then obtain out where "claim_next e be c lease d = (out, d', evs)" using run snd_eq_tripleI by fastforce
  from claim_moves_row [OF inv this r] show ?thesis by (simp add: batch_items_def)
next
  case (AttemptCall bid consumer ta)
  then obtain out where "record_transport_attempt e bid consumer ta d = (out, d', evs)"
    using run snd_eq_tripleI by fastforce
  with inv show ?thesis
    by (cases rule: record_transport_attempt_cases) (use r in \<open>auto intro: move_row life_submit\<close>)
next
  case (AckCall ev)
  then obtain out where "acknowledge_runtime e ev d = (out, d', evs)" using run snd_eq_tripleI by fastforce
  with inv show ?thesis
    by (cases rule: acknowledge_runtime_cases) (use r in \<open>auto intro: move_row life_accept\<close>)
next
  case (ReleaseCall bid consumer reason t)
  then obtain out where "release_for_retry e bid consumer reason t d = (out, d', evs)"
    using run snd_eq_tripleI by fastforce
  with inv show ?thesis
    by (cases rule: release_for_retry_cases) (use r in \<open>auto intro: move_row life_release\<close>)
next
  case (CancelCall bid reason)
  then obtain out where "cancel_batch e bid reason d = (out, d', evs)" using run snd_eq_tripleI by fastforce
  with inv show ?thesis
    by (cases rule: cancel_batch_cases) (use r in \<open>auto intro: move_row life_cancel\<close>)
next
  case (RecoverCall t)
  with run have "d' = fst (recover_expired_in_tx t d)" using recover_expired_leases_db [of t d] by auto
  with recover_moves_row [OF inv r] recovery_frame [OF inv] show ?thesis by (auto simp: batch_items_def)
qed

lemma life_star_key: "life\<^sup>*\<^sup>* r s \<Longrightarrow> row_key s = row_key r"
  by (induction rule: rtranclp_induct) (auto dest: life_key)

lemma run_moves_row:
  assumes "gq_step\<^sup>*\<^sup>* s t" and "gq_inv (fst s)" and "r \<in> set (batches (fst s))"
  shows "\<exists>r' \<in> set (batches (fst t)). life\<^sup>*\<^sup>* r r'
     \<and> batch_items (fst t) (b_batch_id r) = batch_items (fst s) (b_batch_id r)"
  using assms(1)
proof (induction rule: rtranclp_induct)
  case base
  then show ?case using assms(3) by blast
next
  case (step t u)
  from step(3) obtain r1 where r1: "r1 \<in> set (batches (fst t))" "life\<^sup>*\<^sup>* r r1"
    and its: "batch_items (fst t) (b_batch_id r) = batch_items (fst s) (b_batch_id r)" by blast
  from life_star_key [OF r1(2)] have id: "b_batch_id r1 = b_batch_id r" by (simp add: row_key_def)
  have inv: "gq_inv (fst t)" by (rule queue.rtranclp_invar [OF step(1) assms(2)])
  from step(2) obtain e call returned evs where
    "gq_exec e call (fst t) = (returned, fst u, evs)" by (auto elim!: gq_stepE)
  from exec_moves_row [OF inv this r1(1)] r1(2) id its show ?case by (auto intro: rtranclp_trans)
qed

lemma life_star_terminal: "life\<^sup>*\<^sup>* r s \<Longrightarrow> is_terminal (b_state r) \<Longrightarrow> s = r"
  by (erule converse_rtranclpE) (auto dest: life_terminal)

section \<open>A concrete run\<close>

definition demo_env :: "string \<Rightarrow> int \<Rightarrow> call_env" where
  "demo_env seed t = \<lparr>clock = t, uuid = (\<lambda>n. seed @ replicate n (CHR ''i''))\<rparr>"

definition demo_request :: "queue_class \<Rightarrow> string \<Rightarrow> batch_request" where
  "demo_request c key = \<lparr>rq_agent_id = ''root.leaf'', rq_queue_class = c,
     rq_items = [\<lparr>ii_from_agent = ''tl'', ii_content = ''rebase'', ii_summary = None,
                  ii_injection_options = JNull\<rparr>],
     rq_identity = no_identity, rq_idempotency_key = Some key, rq_source_message_id = None\<rparr>"

definition demo_consumer :: guidance_consumer where
  "demo_consumer = \<lparr>gc_consumer_id = ''hook'', gc_invocation_id = None, gc_generation = None\<rparr>"

definition demo_evidence :: acceptance_evidence where
  "demo_evidence = \<lparr>ae_batch_id = ''a'', ae_agent_id = ''leaf'', ae_queue_class = ''steering'',
     ae_item_ids = [''ai''], ae_consumer_id = ''hook'', ae_invocation_id = None,
     ae_generation = None, ae_evidence_kind = RuntimeHook, ae_confidence = Exact,
     ae_correlation_id = None\<rparr>"

text \<open>A steering batch is queued, leased and accepted, each by one call.\<close>

definition demo_queued :: "db \<times> mirror_event list" where
  "demo_queued = snd (enqueue_batch (demo_env ''a'' 100) (demo_request Steering ''k'') empty_db)"

definition demo_leased :: "db \<times> mirror_event list" where
  "demo_leased = snd (claim_next (demo_env ''b'' 101) (turn_finished ''leaf'') demo_consumer 60 (fst demo_queued))"

definition demo_accepted :: "db \<times> mirror_event list" where
  "demo_accepted = snd (acknowledge_runtime (demo_env ''c'' 102) demo_evidence (fst demo_leased))"

definition demo_row :: batch_row where
  "demo_row = new_batch_row (demo_env ''a'' 100) (demo_request Steering ''k'') ''leaf'' 0"

lemma demo_queued_rows: "batches (fst demo_queued) = [demo_row]"
  by code_simp

lemma demo_leased_rows: "batches (fst demo_leased) = [lease_row demo_consumer 161 demo_row]"
  by code_simp

lemma demo_accepted_rows:
  "batches (fst demo_accepted) = [accept_row 102 (lease_row demo_consumer 161 demo_row)]"
  by code_simp

lemma demo_claim_returned:
  "fst (claim_next (demo_env ''b'' 101) (turn_finished ''leaf'') demo_consumer 60 (fst demo_queued)) \<noteq> Deadlocks"
  by code_simp

definition demo_run :: "db \<times> mirror_event list" where
  "demo_run = (fst demo_accepted, (snd demo_queued @ snd demo_leased) @ snd demo_accepted)"

lemma demo_steps:
  "gq_returning_step (empty_db, []) demo_queued"
  "gq_returning_step demo_queued (fst demo_leased, snd demo_queued @ snd demo_leased)"
  "gq_returning_step (fst demo_leased, snd demo_queued @ snd demo_leased) demo_run"
proof -
  show "gq_returning_step (empty_db, []) demo_queued"
    using gq_return [of "demo_env ''a'' 100" "EnqueueCall (demo_request Steering ''k'')" empty_db
        "fst demo_queued" "snd demo_queued" "[]"] by (simp add: demo_queued_def)
  show "gq_returning_step demo_queued (fst demo_leased, snd demo_queued @ snd demo_leased)"
    using gq_return [of "demo_env ''b'' 101" "ClaimCall (turn_finished ''leaf'') demo_consumer 60"
        "fst demo_queued" "fst demo_leased" "snd demo_leased" "snd demo_queued"] demo_claim_returned
    by (simp add: demo_leased_def)
  show "gq_returning_step (fst demo_leased, snd demo_queued @ snd demo_leased) demo_run"
    using gq_return [of "demo_env ''c'' 102" "AckCall demo_evidence" "fst demo_leased" "fst demo_accepted"
        "snd demo_accepted" "snd demo_queued @ snd demo_leased"]
    by (simp add: demo_accepted_def demo_run_def)
qed

lemma demo_reach_returning:
  "reach gq_start gq_returning_step (fst demo_leased, snd demo_queued @ snd demo_leased)"
  "reach gq_start gq_returning_step demo_run"
  by (meson demo_steps gq_start_def reach_start reach_step)+

lemma demo_reach:
  "reach gq_start gq_step demo_queued"
  "reach gq_start gq_step (fst demo_leased, snd demo_queued @ snd demo_leased)"
  "reach gq_start gq_step demo_run"
  by (meson demo_steps returning_step_is_step gq_start_def reach_start reach_step)+

lemma demo_inv: "gq_inv (fst demo_queued)" "gq_inv (fst demo_leased)" "gq_inv (fst demo_run)"
  using demo_reach [THEN queue.reach_invar] by simp_all

section \<open>Invariant, single flight and retry budget\<close>

text \<open>C1. Whatever calls the queue's clients make, in whatever order, from whatever number of handles
  and whether or not a call returns, the tables keep their invariant: batch identifiers, sequence
  numbers per agent and idempotency keys per agent are unique; a batch carries a lease owner and
  an expiry exactly while it is leased or submitted, an acceptance time exactly when accepted and a
  terminal time and reason exactly when abandoned or cancelled; every batch has between one and
  thirty-two items numbered from zero; every item belongs to a batch.\<close>

theorem queue_invariant: "reach gq_start gq_step (d, log) \<Longrightarrow> gq_inv d"
  using queue.reach_invar by fastforce

theorem queue_invariant_witness: "gq_inv (fst demo_run) \<and> length (batches (fst demo_run)) = 1"
  using queue_invariant [of "fst demo_run" "snd demo_run"] demo_reach(3) demo_accepted_rows
  by (simp add: demo_run_def)

text \<open>C3. At most one batch per agent is in flight: two leased or submitted batches of one agent are
  the same batch, on every reachable state.\<close>

theorem one_batch_in_flight:
  assumes "reach gq_start gq_step (d, log)"
    and "r \<in> set (batches d)" and "s \<in> set (batches d)" and "b_agent_id r = b_agent_id s"
    and "in_flight (b_state r)" and "in_flight (b_state s)"
  shows "r = s"
proof -
  have "distinct (map b_agent_id (filter (\<lambda>r. in_flight (b_state r)) (batches d)))"
    using queue.reach_invar [OF assms(1)] by (simp add: gq_inv_def single_flight_def)
  then show ?thesis by (rule distinct_map_unique) (use assms in auto)
qed

theorem one_batch_in_flight_witness:
  "{r \<in> set (batches (fst demo_leased)). b_agent_id r = ''leaf'' \<and> in_flight (b_state r)}
     = {lease_row demo_consumer 161 demo_row}"
proof -
  let ?r = "lease_row demo_consumer 161 demo_row"
  have r: "?r \<in> set (batches (fst demo_leased))" by (simp add: demo_leased_rows)
  have leaf: "b_agent_id ?r = ''leaf''" and flight: "in_flight (b_state ?r)" by code_simp+
  have "x = ?r" if "x \<in> set (batches (fst demo_leased))" "b_agent_id x = ''leaf''" "in_flight (b_state x)" for x
    by (rule one_batch_in_flight [OF demo_reach(2) that(1) r _ that(3) flight]) (simp only: that(2) leaf)
  with r leaf flight show ?thesis by blast
qed

text \<open>C11. The retry budget: a batch is submitted at most eight times, is abandoned only after exactly
  eight submissions, and one that is still pending or leased has an attempt left.\<close>

theorem retry_budget:
  assumes "reach gq_start gq_step (d, log)" and "r \<in> set (batches d)"
  shows "0 \<le> b_attempt_count r \<and> b_attempt_count r \<le> 8
     \<and> (b_state r = Abandoned \<longrightarrow> b_attempt_count r = 8)
     \<and> (b_state r = Pending \<or> b_state r = Leased \<longrightarrow> b_attempt_count r < 8)"
proof -
  from queue.reach_invar [OF assms(1)] assms(2) have "retry_bound r"
    by (auto simp: gq_inv_def list_all_iff row_ok_def)
  then show ?thesis
    by (cases "b_state r") (auto simp: retry_bound_def max_retry_attempts_def)
qed

theorem retry_budget_witness:
  "lease_row demo_consumer 161 demo_row \<in> set (batches (fst demo_leased))
   \<and> b_attempt_count (lease_row demo_consumer 161 demo_row) < 8"
proof -
  have "lease_row demo_consumer 161 demo_row \<in> set (batches (fst demo_leased))"
    by (simp add: demo_leased_rows)
  with retry_budget [OF demo_reach(2)] show ?thesis by simp
qed

section \<open>The ledger rebuilds the queue\<close>

text \<open>C2. After any run in which every call returned, replaying the mirrored events in order succeeds
  and rebuilds the agent, class, sequence number, item list and state of exactly the batches in the
  database.\<close>

theorem ledger_rebuilds_queue:
  assumes "reach gq_start gq_returning_step (d, log)"
  shows "\<exists>p. replay_guidance_batches log = Inr p \<and> projection_view p = db_view d"
  using ledger.reach_invar [OF assms] by (simp add: replayable_iff)

theorem ledger_rebuilds_queue_witness:
  "\<exists>p. replay_guidance_batches (snd demo_run) = Inr p \<and> projection_view p = db_view (fst demo_run)
     \<and> map_option (\<lambda>v. snd (snd (snd (snd v)))) (projection_view p ''a'') = Some Accepted"
proof -
  have "map_option (\<lambda>v. snd (snd (snd (snd v)))) (db_view (fst demo_run) ''a'') = Some Accepted"
    by code_simp
  then show ?thesis using ledger_rebuilds_queue [of "fst demo_run" "snd demo_run"] demo_reach_returning(2)
    by auto
qed

section \<open>Durability\<close>

text \<open>C9. No call loses or rewrites a batch: along any run every batch keeps its identifier, agent,
  class, sequence number, idempotency key and items, and its row only moves along the lifecycle
  pending, leased, submitted, then accepted, released, abandoned or cancelled. Accepted, abandoned and
  cancelled are final: the row of such a batch never changes again.\<close>

theorem batches_durable:
  assumes "reach gq_start gq_step s" and "gq_step\<^sup>*\<^sup>* s t" and "r \<in> set (batches (fst s))"
  shows "\<exists>r' \<in> set (batches (fst t)). life\<^sup>*\<^sup>* r r' \<and> row_key r' = row_key r
     \<and> batch_items (fst t) (b_batch_id r') = batch_items (fst s) (b_batch_id r)
     \<and> (is_terminal (b_state r) \<longrightarrow> r' = r)"
proof -
  have "gq_inv (fst s)" by (rule queue.reach_invar [OF assms(1)])
  from run_moves_row [OF assms(2) this assms(3)] obtain r' where r': "r' \<in> set (batches (fst t))" "life\<^sup>*\<^sup>* r r'"
    and its: "batch_items (fst t) (b_batch_id r) = batch_items (fst s) (b_batch_id r)" by blast
  from life_star_key [OF r'(2)] have "row_key r' = row_key r" .
  moreover have "is_terminal (b_state r) \<longrightarrow> r' = r" using life_star_terminal [OF r'(2)] by blast
  ultimately show ?thesis using r' its by (auto simp: row_key_def)
qed

theorem batches_durable_witness:
  "\<exists>r' \<in> set (batches (fst demo_run)). life\<^sup>*\<^sup>* demo_row r' \<and> row_key r' = row_key demo_row"
proof -
  have "gq_step\<^sup>*\<^sup>* demo_queued demo_run"
    using demo_steps(2,3) [THEN returning_step_is_step] by (meson rtranclp.simps)
  from batches_durable [OF demo_reach(1) this, of demo_row] show ?thesis by (auto simp: demo_queued_rows)
qed

end
