(* ===== verification/Guidance_Delivery.thy ===== *)
theory Guidance_Delivery
  imports Guidance_Properties
begin

text \<open>
  What each call of the guidance queue delivers: the order in which claims offer batches, when a
  claim returns at all, what an acknowledgement proves, and that enqueueing is idempotent and
  first-in first-out.
\<close>

section \<open>Claims\<close>

abbreviation recovered_db :: "call_env \<Rightarrow> db \<Rightarrow> db" where
  "recovered_db e d \<equiv> fst (recover_expired_in_tx (clock e) d)"

text \<open>C4. A claim offers the right batch: it belongs to the agent at the boundary, was pending and
  available, is steering unless the agent would stop, comes before every other batch it could have
  offered in the order steering first and then oldest first, a follow-up is never offered while any
  steering is pending (even steering that waits for its retry time), and the agent had nothing in
  flight. The batch is leased to the consumer for at most 300 seconds.\<close>

theorem claim_order:
  assumes "gq_inv d" and "claim_next e be c lease d = (Returns (Inr (Some b)), d', evs)"
    and "env_ok e"
  defines "agent \<equiv> normalize_agent_id (be_agent_id be)"
  shows "\<exists>r \<in> set (batches (recovered_db e d)).
     b_agent_id r = agent \<and> b_state r = Pending \<and> b_available_at r \<le> clock e
     \<and> (be_phase be \<noteq> WouldStop \<longrightarrow> be_phase be = TurnFinished \<and> b_queue_class r = Steering)
     \<and> (\<forall>s \<in> set (batches (recovered_db e d)). claimable (be_phase be) agent (clock e) s \<longrightarrow>
          b_queue_class r < b_queue_class s
          \<or> b_queue_class r = b_queue_class s \<and> b_queue_seq r \<le> b_queue_seq s)
     \<and> (b_queue_class r = FollowUp \<longrightarrow> \<not> steering_pending agent (recovered_db e d))
     \<and> (\<forall>s \<in> set (batches (recovered_db e d)). b_agent_id s = agent \<longrightarrow> \<not> in_flight (b_state s))
     \<and> gb_row b = lease_row c (lease_expiry e lease) r
     \<and> clock e \<le> lease_expiry e lease \<and> lease_expiry e lease \<le> clock e + 300
     \<and> row_of d' (b_batch_id r) = Some (gb_row b)"
  using assms(1,2)
proof (cases rule: claim_next_cases)
  case (claimed r)
  let ?d = "recovered_db e d"
  have inv1: "gq_inv ?d" by (rule gq_inv_recover [OF assms(1)])
  from earliest_SomeD [OF claimed(5)] have rin: "r \<in> set (batches ?d)"
    and cl: "claimable (be_phase be) agent (clock e) r"
    and first: "\<And>s. s \<in> set (batches ?d) \<Longrightarrow> claimable (be_phase be) agent (clock e) s \<Longrightarrow>
      (b_queue_class r, b_queue_seq r) \<le> (b_queue_class s, b_queue_seq s)"
    by (auto simp: agent_def)
  have none: "\<forall>s \<in> set (batches ?d). b_agent_id s = agent \<longrightarrow> \<not> in_flight (b_state s)"
    using no_active_lease [OF assms(1)] claimed(3) by (auto simp: agent_def)
  have phase: "be_phase be = TurnFinished \<or> be_phase be = WouldStop"
    using claimed(2) by (simp add: can_offer_steering_def)
  have no_steer: "\<not> steering_pending agent ?d" if "b_queue_class r = FollowUp"
  proof
    assume pend: "steering_pending agent ?d"
    from that cl phase have stop: "be_phase be = WouldStop" by (auto simp: claimable_def)
    with pend claimed(4) have "steering_available agent (clock e) ?d" by (auto simp: agent_def)
    then obtain s where "s \<in> set (batches ?d)" "claimable (be_phase be) agent (clock e) s"
        "b_queue_class s = Steering"
      by (auto simp: steering_available_def list_ex_iff claimable_def stop)
    with first that show False by (fastforce simp: less_eq_queue_class_def less_queue_class_def)
  qed
  have "row_of d' (b_batch_id r) = Some (lease_row c (lease_expiry e lease) r)"
    unfolding claimed(6) by (subst row_of_update) (simp_all add: row_of_in [OF inv1 rin])
  moreover have "clock e \<le> lease_expiry e lease \<and> lease_expiry e lease \<le> clock e + 300"
    using assms(3) by (auto simp: lease_expiry_def sat_add_def max_lease_seconds_def env_ok_def)
  moreover have "b_queue_class r < b_queue_class s
      \<or> b_queue_class r = b_queue_class s \<and> b_queue_seq r \<le> b_queue_seq s"
    if "s \<in> set (batches ?d)" "claimable (be_phase be) agent (clock e) s" for s
    using first [OF that] by auto
  ultimately show ?thesis
    using rin cl none no_steer claimed(1) phase
    by (intro bexI [of _ r]) (auto simp: claimable_def)
qed simp_all

text \<open>The queue with a steering batch and, behind it, a follow-up.\<close>

definition demo_two :: db where
  "demo_two = fst (snd (enqueue_batch (demo_env ''f'' 90) (demo_request FollowUp ''f'')
     (fst demo_queued)))"

lemma demo_two_inv: "gq_inv demo_two"
  using gq_inv_enqueue [OF demo_inv(1)] unfolding demo_two_def by (metis prod.collapse)

definition claimed_id :: "(gq_error + guidance_batch option) outcome \<Rightarrow> string option" where
  "claimed_id x = (case x of Returns (Inr (Some b)) \<Rightarrow> Some (b_batch_id (gb_row b)) | _ \<Rightarrow> None)"

lemma claimed_id_SomeD: "claimed_id x = Some i \<Longrightarrow> \<exists>b. x = Returns (Inr (Some b)) \<and> b_batch_id (gb_row b) = i"
  by (auto simp: claimed_id_def split: outcome.splits sum.splits option.splits)

theorem claim_order_witness:
  "\<exists>r \<in> set (batches (recovered_db (demo_env ''b'' 101) demo_two)).
     b_queue_class r = Steering \<and> b_agent_id r = ''leaf'' \<and> b_batch_id r = ''a''"
proof -
  have "claimed_id (fst (claim_next (demo_env ''b'' 101) (would_stop ''leaf'') demo_consumer 60 demo_two)) = Some ''a''"
    by code_simp
  then obtain b d' evs where run: "claim_next (demo_env ''b'' 101) (would_stop ''leaf'') demo_consumer 60 demo_two
      = (Returns (Inr (Some b)), d', evs)" and id: "b_batch_id (gb_row b) = ''a''"
    by (metis claimed_id_SomeD prod.collapse)
  have ok: "env_ok (demo_env ''b'' 101)" by (simp add: env_ok_def demo_env_def i64_max_def)
  have "list_all (\<lambda>r. b_batch_id r = ''a'' \<longrightarrow> b_queue_class r = Steering)
      (batches (recovered_db (demo_env ''b'' 101) demo_two))" by code_simp
  moreover have "normalize_agent_id (be_agent_id (would_stop ''leaf'')) = ''leaf''" by code_simp
  ultimately show ?thesis
    using claim_order [OF demo_two_inv run ok] id by (auto simp: list_all_iff)
qed

lemma claim_nothing_deadlock: "fst (claim_nothing d recovered) = Deadlocks \<longleftrightarrow> recovered \<noteq> []"
  by (simp add: claim_nothing_def emit_recovery_events_def)

lemma selected_returns:
  "fst (case x of Inl err \<Rightarrow> (Returns (Inl err), d, []) | Inr (b, d2) \<Rightarrow> (Returns (Inr (Some b)), f b d2)) \<noteq> Deadlocks"
  by (simp split: sum.split prod.split)

text \<open>A claim never returns, and so wedges the connection for every other caller, exactly when its
  identifiers are valid, the boundary is safe, some lease of any agent has expired, and it finds
  nothing to offer: it then emits the recovery events while it still holds the connection.\<close>

lemma claim_deadlock_iff:
  "fst (claim_next e be c lease d) = Deadlocks \<longleftrightarrow>
     is_ok (validate_identity (be_agent_id be) ''boundary agent'')
     \<and> is_ok (validate_id (gc_consumer_id c) ''consumer id'')
     \<and> (be_phase be = TurnFinished \<or> be_phase be = WouldStop)
     \<and> (\<exists>r \<in> set (batches d). expired (clock e) r)
     \<and> (has_active_lease (normalize_agent_id (be_agent_id be)) (clock e) (recovered_db e d)
        \<or> be_phase be = WouldStop \<and> steering_pending (normalize_agent_id (be_agent_id be)) (recovered_db e d)
            \<and> \<not> steering_available (normalize_agent_id (be_agent_id be)) (clock e) (recovered_db e d)
        \<or> (\<forall>r \<in> set (batches (recovered_db e d)).
            \<not> claimable (be_phase be) (normalize_agent_id (be_agent_id be)) (clock e) r))"
proof -
  define v where "v = bindR (validate_identity (be_agent_id be) ''boundary agent'')
      (\<lambda>_. validate_id (gc_consumer_id c) ''consumer id'')"
  have ok: "is_ok v \<longleftrightarrow> is_ok (validate_identity (be_agent_id be) ''boundary agent'')
     \<and> is_ok (validate_id (gc_consumer_id c) ''consumer id'')"
    by (auto simp: v_def is_ok_iff)
  have rec: "snd (recover_expired_in_tx (clock e) d) = [] \<longleftrightarrow> \<not> (\<exists>r \<in> set (batches d). expired (clock e) r)"
    by (auto simp: recover_list filter_empty_conv)
  obtain d1 recovered where split: "recover_expired_in_tx (clock e) d = (d1, recovered)" by fastforce
  show ?thesis
  proof (cases v)
    case (Inl err)
    then show ?thesis using ok by (auto simp: claim_next_def v_def [symmetric] is_ok_iff)
  next
    case (Inr u)
    then have "is_ok v" by simp
    let ?first = "earliest (claimable (be_phase be) (normalize_agent_id (be_agent_id be)) (clock e)) (batches d1)"
    have none: "?first = None \<longleftrightarrow> (\<forall>r \<in> set (batches d1).
        \<not> claimable (be_phase be) (normalize_agent_id (be_agent_id be)) (clock e) r)"
      by (rule earliest_None)
    from \<open>is_ok v\<close> ok rec split show ?thesis
      unfolding claim_next_def v_def [symmetric] Inr
      by (cases ?first)
        (auto simp: Let_def can_offer_steering_def can_offer_follow_up_def claim_nothing_deadlock
          none [symmetric] selected_returns)
  qed
qed

text \<open>A claim makes progress: with valid identifiers at a safe boundary, when the agent has no
  active lease, something is claimable and no steering waits for its retry time at a stopping
  boundary, the claim returns a batch.\<close>

lemma claim_progress:
  assumes "gq_inv d"
    and "is_ok (validate_identity (be_agent_id be) ''boundary agent'')"
    and "is_ok (validate_id (gc_consumer_id c) ''consumer id'')" and "storable (gc_generation c)"
    and "be_phase be = TurnFinished \<or> be_phase be = WouldStop"
    and "\<not> has_active_lease (normalize_agent_id (be_agent_id be)) (clock e) (recovered_db e d)"
    and "r \<in> set (batches (recovered_db e d))"
    and "claimable (be_phase be) (normalize_agent_id (be_agent_id be)) (clock e) r"
    and "be_phase be = TurnFinished \<or> b_queue_class r = Steering
         \<or> \<not> steering_pending (normalize_agent_id (be_agent_id be)) (recovered_db e d)"
  shows "\<exists>b d' evs. claim_next e be c lease d = (Returns (Inr (Some b)), d', evs)"
proof -
  let ?agent = "normalize_agent_id (be_agent_id be)"
  obtain d1 recovered where split: "recover_expired_in_tx (clock e) d = (d1, recovered)" by fastforce
  then have d1: "recovered_db e d = d1" by simp
  note claim = assms(6-9) [unfolded d1]
  have inv1: "gq_inv d1" using gq_inv_recover [OF assms(1), of "clock e"] by (simp add: d1)
  obtain x where first: "earliest (claimable (be_phase be) ?agent (clock e)) (batches d1) = Some x"
    using claim(2,3) earliest_None [of "claimable (be_phase be) ?agent (clock e)" "batches d1"] by auto
  from earliest_SomeD [OF first] have x: "x \<in> set (batches d1)" "b_state x = Pending" "b_available_at x \<le> clock e"
    by (auto simp: claimable_def)
  have steer: "\<not> (be_phase be = WouldStop \<and> steering_pending ?agent d1 \<and> \<not> steering_available ?agent (clock e) d1)"
    using claim(2-4) by (auto simp: steering_available_def list_ex_iff claimable_def)
  from assms(2,3) obtain u where v: "bindR (validate_identity (be_agent_id be) ''boundary agent'')
      (\<lambda>_. validate_id (gc_consumer_id c) ''consumer id'') = Inr u"
    by (auto simp: is_ok_iff)
  have safe: "\<not> \<not> can_offer_steering (be_phase be)"
      "\<not> (be_phase be = WouldStop \<and> \<not> can_offer_follow_up (be_phase be))"
    using assms(5) by (auto simp: can_offer_steering_def can_offer_follow_up_def)
  show ?thesis
    unfolding claim_next_def v sum.case if_not_P [OF safe(1)] if_not_P [OF safe(2)] split Let_def prod.case
      if_not_P [OF claim(1)] if_not_P [OF steer] first option.case
      claim_selected_eq [OF inv1 row_of_in [OF inv1 x(1)] x(2,3)]
    by (simp add: assms(4))
qed

text \<open>C5. When a claim returns. With valid identifiers at a safe boundary it wedges its own connection exactly when some lease of
  any agent has expired and it finds nothing to offer, because it then emits the recovery events while it still
  holds the connection; with anything else wrong it returns. It makes progress: on a sound database, when the
  agent has no active lease, something is claimable and no steering waits for its retry time at a stopping
  boundary, the claim returns a batch.\<close>

theorem claim_outcome:
  "(fst (claim_next e be c lease d) = Deadlocks \<longleftrightarrow>
     is_ok (validate_identity (be_agent_id be) ''boundary agent'')
     \<and> is_ok (validate_id (gc_consumer_id c) ''consumer id'')
     \<and> (be_phase be = TurnFinished \<or> be_phase be = WouldStop)
     \<and> (\<exists>r \<in> set (batches d). expired (clock e) r)
     \<and> (has_active_lease (normalize_agent_id (be_agent_id be)) (clock e) (recovered_db e d)
        \<or> be_phase be = WouldStop \<and> steering_pending (normalize_agent_id (be_agent_id be)) (recovered_db e d)
            \<and> \<not> steering_available (normalize_agent_id (be_agent_id be)) (clock e) (recovered_db e d)
        \<or> (\<forall>r \<in> set (batches (recovered_db e d)).
            \<not> claimable (be_phase be) (normalize_agent_id (be_agent_id be)) (clock e) r)))
   \<and> (gq_inv d \<and> is_ok (validate_identity (be_agent_id be) ''boundary agent'')
       \<and> is_ok (validate_id (gc_consumer_id c) ''consumer id'') \<and> storable (gc_generation c)
       \<and> (be_phase be = TurnFinished \<or> be_phase be = WouldStop)
       \<and> \<not> has_active_lease (normalize_agent_id (be_agent_id be)) (clock e) (recovered_db e d)
       \<and> (\<exists>r \<in> set (batches (recovered_db e d)). claimable (be_phase be) (normalize_agent_id (be_agent_id be)) (clock e) r
           \<and> (be_phase be = TurnFinished \<or> b_queue_class r = Steering
              \<or> \<not> steering_pending (normalize_agent_id (be_agent_id be)) (recovered_db e d)))
      \<longrightarrow> (\<exists>b d' evs. claim_next e be c lease d = (Returns (Inr (Some b)), d', evs)))"
  by (intro conjI claim_deadlock_iff impI) (elim conjE bexE, rule claim_progress)

theorem claim_outcome_witness:
  "fst (claim_next (demo_env ''d'' 161) (turn_finished ''other'') demo_consumer 60 (fst demo_leased)) = Deadlocks
   \<and> (\<exists>b d' evs. claim_next (demo_env ''b'' 101) (would_stop ''leaf'') demo_consumer 60 demo_two
       = (Returns (Inr (Some b)), d', evs))"
proof
  let ?e = "demo_env ''d'' 161" and ?be = "turn_finished ''other''" and ?d = "fst demo_leased"
  have "is_ok (validate_identity (be_agent_id ?be) ''boundary agent'')"
    and "is_ok (validate_id (gc_consumer_id demo_consumer) ''consumer id'')"
    and "list_ex (expired (clock ?e)) (batches ?d)"
    and "list_all (\<lambda>r. \<not> claimable (be_phase ?be) (normalize_agent_id (be_agent_id ?be)) (clock ?e) r)
      (batches (recovered_db ?e ?d))"
    by code_simp+
  with conjunct1 [OF claim_outcome [of ?e ?be demo_consumer 60 ?d]]
  show "fst (claim_next ?e ?be demo_consumer 60 ?d) = Deadlocks"
    by (simp add: list_ex_iff list_all_iff turn_finished_def)
next
  let ?e = "demo_env ''b'' 101" and ?be = "would_stop ''leaf''"
  have "is_ok (validate_identity (be_agent_id ?be) ''boundary agent'')"
    and "is_ok (validate_id (gc_consumer_id demo_consumer) ''consumer id'')"
    and "storable (gc_generation demo_consumer)"
    and "\<not> has_active_lease (normalize_agent_id (be_agent_id ?be)) (clock ?e) (recovered_db ?e demo_two)"
    by code_simp+
  moreover have "list_ex (\<lambda>r. claimable (be_phase ?be) (normalize_agent_id (be_agent_id ?be)) (clock ?e) r
      \<and> b_queue_class r = Steering) (batches (recovered_db ?e demo_two))" by code_simp
  ultimately show "\<exists>b d' evs. claim_next ?e ?be demo_consumer 60 demo_two = (Returns (Inr (Some b)), d', evs)"
    using conjunct2 [OF claim_outcome [of ?e ?be demo_consumer 60 demo_two]] demo_two_inv
    by (auto simp: list_ex_iff would_stop_def)
qed

text \<open>A claim excludes the agent's other consumers: until the lease it took expires, no claim for
  the same agent returns a batch, whichever consumer asks and at whichever boundary.\<close>

theorem claim_exclusive:
  assumes "gq_inv d" and "claim_next e be c lease d = (Returns (Inr (Some b)), d', evs)"
    and "normalize_agent_id (be_agent_id be2) = normalize_agent_id (be_agent_id be)"
    and "clock e2 < lease_expiry e lease"
  shows "fst (claim_next e2 be2 c2 lease2 d') \<noteq> Returns (Inr (Some b2))"
proof
  assume "fst (claim_next e2 be2 c2 lease2 d') = Returns (Inr (Some b2))"
  then obtain d3 evs3 where run2: "claim_next e2 be2 c2 lease2 d' = (Returns (Inr (Some b2)), d3, evs3)"
    by (metis prod.collapse)
  have inv': "gq_inv d'" by (rule gq_inv_claim [OF assms(1,2)])
  from assms(1,2) obtain x where
      x: "x \<in> set (batches d')" "b_agent_id x = normalize_agent_id (be_agent_id be)" "b_state x = Leased"
        "b_lease_expires_at x = Some (lease_expiry e lease)"
  proof (cases rule: claim_next_cases)
    case (claimed r)
    from earliest_SomeD [OF claimed(5)] that [of "lease_row c (lease_expiry e lease) r"] show thesis
      by (auto simp: claimed(6) set_sql_update claimable_def lease_row_def)
  qed simp_all
  with assms(4) have "\<not> expired (clock e2) x" by (simp add: expired_def)
  with inv' x(1) have "x \<in> set (batches (recovered_db e2 d'))"
    by (auto simp: recover_batches gq_inv_def keys_ok_def set_sql_update)
  with x assms(4) have "has_active_lease (normalize_agent_id (be_agent_id be2)) (clock e2) (recovered_db e2 d')"
    by (auto simp: has_active_lease_def list_ex_iff assms(3) intro!: bexI [of _ x])
  moreover from inv' run2 have "\<not> has_active_lease (normalize_agent_id (be_agent_id be2)) (clock e2) (recovered_db e2 d')"
    by (cases rule: claim_next_cases) auto
  ultimately show False by simp
qed

theorem claim_exclusive_witness:
  "\<forall>b2. fst (claim_next (demo_env ''q'' 120) (would_stop ''root.leaf'') demo_consumer 60 (fst demo_leased))
     \<noteq> Returns (Inr (Some b2))"
proof -
  have "claimed_id (fst (claim_next (demo_env ''b'' 101) (turn_finished ''leaf'') demo_consumer 60 (fst demo_queued)))
      = Some ''a''" by code_simp
  then obtain b where run: "claim_next (demo_env ''b'' 101) (turn_finished ''leaf'') demo_consumer 60 (fst demo_queued)
      = (Returns (Inr (Some b)), fst demo_leased, snd demo_leased)"
    unfolding demo_leased_def by (metis claimed_id_SomeD prod.collapse)
  have "normalize_agent_id (be_agent_id (would_stop ''root.leaf''))
      = normalize_agent_id (be_agent_id (turn_finished ''leaf''))" by code_simp
  moreover have "clock (demo_env ''q'' 120) < lease_expiry (demo_env ''b'' 101) 60" by code_simp
  ultimately show ?thesis by (intro allI claim_exclusive [OF demo_inv(1) run])
qed

end
