(* ===== verification/Guidance_Acceptance.thy ===== *)
theory Guidance_Acceptance
  imports Guidance_Delivery
begin

text \<open>
  What an acknowledgement proves, that enqueueing is idempotent and first-in first-out, and what
  lease recovery does to every expired lease.
\<close>

section \<open>Acknowledgement\<close>

lemma update_new_row: "x \<in> set (sql_update (\<lambda>s. s = r) f rs) \<Longrightarrow> x \<notin> set rs \<Longrightarrow> r \<in> set rs \<and> x = f r"
  by (auto simp: set_sql_update split: if_splits)

lemma recover_new_row:
  "gq_inv d \<Longrightarrow> x \<in> set (batches (fst (recover_expired_in_tx t d))) \<Longrightarrow> x \<notin> set (batches d) \<Longrightarrow>
     b_state x \<noteq> Accepted"
  by (auto simp: recover_batches gq_inv_def keys_ok_def set_sql_update recover_update_def release_row_def
      recovered_state_def Let_def split: if_splits)

lemma claim_new_row:
  assumes inv: "gq_inv d" and run: "claim_next e be c lease d = (out, d', evs)"
    and x: "x \<in> set (batches d')" "x \<notin> set (batches d)"
  shows "b_state x \<noteq> Accepted"
  using inv run
proof (cases rule: claim_next_cases)
  case (claimed r)
  show ?thesis
  proof (cases "x \<in> set (batches (recovered_db e d))")
    case False
    from update_new_row [OF _ False, of r "lease_row c (lease_expiry e lease)"] x(1)
    have "x = lease_row c (lease_expiry e lease) r" by (simp add: claimed(6))
    then show ?thesis by simp
  qed (rule recover_new_row [OF inv _ x(2)])
qed (use x recover_new_row [OF inv] in auto)

text \<open>C7. A batch becomes accepted by one call only: an acknowledgement with exact confidence, from the
  consumer that holds the lease, that names the batch, its agent, its class and exactly its items
  in order. A transport attempt, however successful, a recovery or any other call never accepts.\<close>

theorem accepted_needs_evidence:
  assumes "gq_inv d" and "gq_exec e call d = (returned, d', evs)"
    and "x \<in> set (batches d')" and "x \<notin> set (batches d)" and "b_state x = Accepted"
  shows "\<exists>ev r. call = AckCall ev \<and> ae_confidence ev = Exact \<and> ae_batch_id ev = b_batch_id x
     \<and> row_of d (b_batch_id x) = Some r \<and> in_flight (b_state r) \<and> b_lease_owner r = Some (ae_consumer_id ev)
     \<and> normalize_agent_id (ae_agent_id ev) = b_agent_id x \<and> ae_queue_class ev = class_str (b_queue_class x)
     \<and> ae_item_ids ev = map i_item_id (batch_items d (b_batch_id x)) \<and> x = accept_row (clock e) r"
proof (cases call)
  case (EnqueueCall rq)
  then obtain res where "enqueue_batch e rq d = (res, d', evs)" using assms(2) snd_eq_tripleI by fastforce
  then show ?thesis
  proof (cases rule: enqueue_batch_cases)
    case (created res')
    with insert_new_batch_InrD [OF created(4)] assms(3-5) show ?thesis by auto
  qed (use assms in auto)
next
  case (ClaimCall be c lease)
  then obtain out where "claim_next e be c lease d = (out, d', evs)" using assms(2) snd_eq_tripleI by fastforce
  from claim_new_row [OF assms(1) this assms(3,4)] assms(5) show ?thesis by simp
next
  case (AttemptCall bid consumer ta)
  then obtain out where "record_transport_attempt e bid consumer ta d = (out, d', evs)"
    using assms(2) snd_eq_tripleI by fastforce
  with assms(1) show ?thesis
    by (cases rule: record_transport_attempt_cases) (use assms(3-5) in \<open>auto dest: update_new_row\<close>)
next
  case (AckCall ev)
  then obtain out where "acknowledge_runtime e ev d = (out, d', evs)" using assms(2) snd_eq_tripleI by fastforce
  with assms(1) show ?thesis
  proof (cases rule: acknowledge_runtime_cases)
    case (accepted r)
    with update_new_row [of x r "accept_row (clock e)" "batches d"] assms(3,4)
    have "x = accept_row (clock e) r" by auto
    with accepted row_of_SomeD [OF accepted(1)] AckCall show ?thesis
      by (auto simp: evidence_matches_batch_def Let_def accept_row_def)
  qed (use assms(3-5) in auto)
next
  case (ReleaseCall bid consumer reason t)
  then obtain out where "release_for_retry e bid consumer reason t d = (out, d', evs)"
    using assms(2) snd_eq_tripleI by fastforce
  with assms(1) show ?thesis
    by (cases rule: release_for_retry_cases)
      (use assms(3-5) in \<open>auto dest!: update_new_row simp: release_row_def recovered_state_def Let_def split: if_splits\<close>)
next
  case (CancelCall bid reason)
  then obtain out where "cancel_batch e bid reason d = (out, d', evs)" using assms(2) snd_eq_tripleI by fastforce
  with assms(1) show ?thesis
    by (cases rule: cancel_batch_cases) (use assms(3-5) in \<open>auto dest: update_new_row\<close>)
next
  case (RecoverCall t)
  with assms(2) have "d' = fst (recover_expired_in_tx t d)" using recover_expired_leases_db [of t d] by auto
  with recover_new_row [OF assms(1)] assms(3-5) show ?thesis by blast
qed

theorem accepted_needs_evidence_witness:
  "\<exists>ev. AckCall demo_evidence = AckCall ev \<and> ae_confidence ev = Exact
     \<and> ae_item_ids ev = map i_item_id (batch_items (fst demo_leased) ''a'')"
proof -
  let ?x = "accept_row 102 (lease_row demo_consumer 161 demo_row)"
  have run: "gq_exec (demo_env ''c'' 102) (AckCall demo_evidence) (fst demo_leased)
      = (True, fst demo_accepted, snd demo_accepted)" by (simp add: demo_accepted_def)
  have x: "?x \<in> set (batches (fst demo_accepted))" by (simp add: demo_accepted_rows)
  have "b_state ?x \<noteq> b_state (lease_row demo_consumer 161 demo_row)" by simp
  then have "?x \<noteq> lease_row demo_consumer 161 demo_row" by metis
  then have old: "?x \<notin> set (batches (fst demo_leased))" by (simp add: demo_leased_rows)
  have "b_batch_id ?x = ''a''" by (simp add: demo_row_def demo_env_def)
  with accepted_needs_evidence [OF demo_inv(2) run x old] show ?thesis by auto
qed

text \<open>Acknowledging twice is harmless: once an acknowledgement was accepted, the same evidence is
  answered as already accepted at any later time, changes nothing and mirrors nothing.\<close>

lemma acknowledge_idempotent:
  assumes "gq_inv d" and "acknowledge_runtime e ev d = (Inr AckAccepted, d', evs)"
  shows "acknowledge_runtime e2 ev d' = (Inr AckAlreadyAccepted, d', [])"
  using assms
proof (cases rule: acknowledge_runtime_cases)
  case (accepted r)
  let ?r = "accept_row (clock e) r"
  have inv': "gq_inv d'" by (rule gq_inv_acknowledge [OF assms])
  have row: "row_of d' (ae_batch_id ev) = Some ?r"
    unfolding accepted(7) by (subst row_of_update) (simp_all add: accepted(1))
  have id: "b_batch_id ?r = ae_batch_id ev" using row_of_SomeD [OF row] by simp
  have load: "load_batch_optional d' (ae_batch_id ev) = Inr (Some (loaded d' ?r))"
    using gq_inv_load [OF inv' row] id by (simp add: load_batch_optional_def row)
  have same: "b_identity ?r = b_identity r" "b_queue_class ?r = b_queue_class r" "b_lease_owner ?r = None"
    by (simp_all add: accept_row_def)
  have items: "batch_items d' (b_batch_id r) = batch_items d (b_batch_id r)" by (simp add: accepted(7))
  have match: "evidence_matches_batch (loaded d' ?r) ev"
    using accepted(3) items by (simp add: evidence_matches_batch_def Let_def same)
  then have agent: "b_agent_id ?r = normalize_agent_id (ae_agent_id ev)"
    by (simp add: evidence_matches_batch_def Let_def)
  define v where "v = (\<lambda>d. bindR (validate_id (ae_batch_id ev) ''batch id'') (\<lambda>_.
           bindR (validate_id (ae_agent_id ev) ''evidence agent'') (\<lambda>_.
           bindR (validate_id (ae_consumer_id ev) ''consumer id'') (\<lambda>_.
             load_batch_optional d (ae_batch_id ev)))))"
  have ack: "acknowledge_runtime e2 ev d2 = (case v d2 of
        Inl err \<Rightarrow> (Inl err, d2, [])
      | Inr None \<Rightarrow> (Inr (AckRejected ''unknown guidance batch''), d2, [])
      | Inr (Some b) \<Rightarrow>
          (case acknowledge_loaded e2 ev b d2 of (res, d', evs) \<Rightarrow> (Inr res, d', evs)))" for e2 d2
    by (simp add: acknowledge_runtime_def v_def)
  have "is_ok (v d)" using assms(2) by (cases "v d") (simp_all add: ack)
  then have "v d' = Inr (Some (loaded d' ?r))"
    by (auto simp: v_def is_ok_iff load)
  then show ?thesis
    using match agent
    by (simp add: ack acknowledge_loaded_def Let_def)
qed simp_all

section \<open>Enqueue\<close>

text \<open>Enqueueing is idempotent: repeating a successful request that carries an idempotency key, at
  any later time and with any fresh identifiers, returns the same batch as not created, changes
  nothing and mirrors nothing.\<close>

lemma find_idempotent_unique:
  assumes "gq_inv d" and "r \<in> set (batches d)" and "b_idempotency_key r = Some key"
  shows "find_idempotent_batch d (b_agent_id r) key (b_queue_class r) = Inr (Some (b_batch_id r))"
proof -
  have "distinct (idem_keys rs) \<Longrightarrow> r \<in> set rs \<Longrightarrow>
      find (\<lambda>s. b_agent_id s = b_agent_id r \<and> b_idempotency_key s = Some key) rs = Some r" for rs
    using assms(3) by (induction rs) (auto simp: idem_keys_def image_iff split: if_splits)
  with assms show ?thesis by (simp add: find_idempotent_batch_def gq_inv_def keys_ok_def)
qed

lemma enqueue_success_valid:
  "enqueue_batch e rq d = (Inr res, d', evs) \<Longrightarrow> validate_batch_request rq = Inr ()"
  by (auto simp: enqueue_batch_def split: sum.splits prod.splits)

lemma enqueue_existing:
  assumes "gq_inv d" and "validate_batch_request rq = Inr ()" and "rq_idempotency_key rq = Some key"
    and "find_idempotent_batch d (normalize_agent_id (rq_agent_id rq)) key (rq_queue_class rq) = Inr (Some bid)"
    and "load_batch d bid = Inr b"
  shows "enqueue_batch e rq d = (Inr \<lparr>er_batch = b, er_created = False\<rparr>, d, [])"
  using assms by (simp add: enqueue_batch_def enqueue_batch_in_transaction_def append_enqueue_event_def)

lemma enqueue_idempotent:
  assumes "gq_inv d" and "enqueue_batch e rq d = (Inr res, d', evs)" and "rq_idempotency_key rq \<noteq> None"
  shows "enqueue_batch e2 rq d' = (Inr \<lparr>er_batch = er_batch res, er_created = False\<rparr>, d', [])"
  using assms(2)
proof (cases rule: enqueue_batch_cases)
  case (replayed res' bid key)
  with enqueue_existing [OF assms(1) enqueue_success_valid [OF assms(2)]] show ?thesis by simp
next
  case (created res')
  let ?agent = "normalize_agent_id (rq_agent_id rq)"
  define row where "row = new_batch_row e rq ?agent (next_queue_seq d ?agent)"
  from assms(3) obtain key where key: "rq_idempotency_key rq = Some key" by auto
  from insert_new_batch_InrD [OF created(4)] have rin: "row \<in> set (batches d')"
    and load: "load_batch d' (uuid e 0) = Inr (er_batch res')" by (auto simp: row_def)
  have inv': "gq_inv d'" by (rule gq_inv_enqueue [OF assms(1,2)])
  from find_idempotent_unique [OF inv' rin] key
  have "find_idempotent_batch d' ?agent key (rq_queue_class rq) = Inr (Some (uuid e 0))" by (simp add: row_def)
  from enqueue_existing [OF inv' created(5) key this load] show ?thesis using created(1) by simp
qed simp

text \<open>C12. The queue tolerates retries. Repeating a successful enqueue that carries an idempotency key, at
  any later time and with any fresh identifiers, returns the same batch as not created; repeating the
  evidence of an accepted acknowledgement, at any later time, is answered as already accepted; neither changes or mirrors anything.\<close>

theorem retries_idempotent:
  assumes "gq_inv d"
  shows "(enqueue_batch e rq d = (Inr res, d1, evs1) \<and> rq_idempotency_key rq \<noteq> None
      \<longrightarrow> enqueue_batch e2 rq d1 = (Inr \<lparr>er_batch = er_batch res, er_created = False\<rparr>, d1, []))
    \<and> (acknowledge_runtime e ev d = (Inr AckAccepted, d2, evs2)
      \<longrightarrow> acknowledge_runtime e2 ev d2 = (Inr AckAlreadyAccepted, d2, []))"
  using enqueue_idempotent [OF assms] acknowledge_idempotent [OF assms] by blast

theorem retries_idempotent_witness:
  "(\<exists>b. enqueue_batch (demo_env ''w'' 900) (demo_request Steering ''k'') (fst demo_queued)
     = (Inr \<lparr>er_batch = b, er_created = False\<rparr>, fst demo_queued, []))
   \<and> acknowledge_runtime (demo_env ''n'' 500) demo_evidence (fst demo_accepted)
     = (Inr AckAlreadyAccepted, fst demo_accepted, [])"
proof
  have "is_ok (fst (enqueue_batch (demo_env ''a'' 100) (demo_request Steering ''k'') empty_db))" by code_simp
  then obtain res where "enqueue_batch (demo_env ''a'' 100) (demo_request Steering ''k'') empty_db
      = (Inr res, fst demo_queued, snd demo_queued)"
    unfolding demo_queued_def is_ok_iff by (metis prod.collapse)
  moreover have "rq_idempotency_key (demo_request Steering ''k'') \<noteq> None" by (simp add: demo_request_def)
  ultimately show "\<exists>b. enqueue_batch (demo_env ''w'' 900) (demo_request Steering ''k'') (fst demo_queued)
     = (Inr \<lparr>er_batch = b, er_created = False\<rparr>, fst demo_queued, [])"
    using retries_idempotent [OF gq_inv_empty] by blast
next
  have "fst (acknowledge_runtime (demo_env ''c'' 102) demo_evidence (fst demo_leased)) = Inr AckAccepted"
    by code_simp
  then have "acknowledge_runtime (demo_env ''c'' 102) demo_evidence (fst demo_leased)
      = (Inr AckAccepted, fst demo_accepted, snd demo_accepted)"
    unfolding demo_accepted_def by (metis prod.collapse)
  then show "acknowledge_runtime (demo_env ''n'' 500) demo_evidence (fst demo_accepted) = (Inr AckAlreadyAccepted, fst demo_accepted, [])"
    using retries_idempotent [OF demo_inv(2)] by blast
qed

text \<open>A created batch is at the end of its agent's queue and carries exactly the request: it is
  pending and available now, its sequence number is above that of every earlier batch of the agent,
  its items are the request's in order, and nothing else in the database changed.\<close>

lemma enqueue_appends:
  assumes "gq_inv d" and "enqueue_batch e rq d = (Inr res, d', evs)" and "er_created res"
  shows "\<exists>r. batches d' = batches d @ [r] \<and> load_batch d' (b_batch_id r) = Inr (er_batch res)
     \<and> gb_row (er_batch res) = r \<and> b_agent_id r = normalize_agent_id (rq_agent_id rq)
     \<and> b_queue_class r = rq_queue_class rq \<and> b_state r = Pending \<and> b_available_at r = clock e
     \<and> (\<forall>s \<in> set (batches d). b_agent_id s = b_agent_id r \<longrightarrow> b_queue_seq s < b_queue_seq r)
     \<and> map (\<lambda>i. (i_from_agent i, i_content i, i_summary i)) (gb_items (er_batch res))
        = map (\<lambda>i. (ii_from_agent i, ii_content i, ii_summary i)) (rq_items rq)
     \<and> messages d' = messages d \<and> metas d' = metas d"
  using assms(2)
proof (cases rule: enqueue_batch_cases)
  case (created res')
  let ?agent = "normalize_agent_id (rq_agent_id rq)"
  define row where "row = new_batch_row e rq ?agent (next_queue_seq d ?agent)"
  from insert_new_batch_InrD [OF created(4)] have bs: "batches d' = batches d @ [row]"
    and load: "load_batch d' (uuid e 0) = Inr (er_batch res')"
    and frame: "messages d' = messages d" "metas d' = metas d" by (auto simp: row_def)
  from gq_inv_insert [OF assms(1) created(4)] validate_batch_request_Inr [OF created(5)]
  have inv': "gq_inv d'" and its: "batch_items d' (uuid e 0) = item_rows e 0 (rq_items rq)" by auto
  have "row_of d' (uuid e 0) = Some row" using row_of_in [OF inv', of row] bs by (simp add: row_def)
  with load inv' have b: "er_batch res' = loaded d' row" using gq_inv_load by fastforce
  have "map (\<lambda>i. (i_from_agent i, i_content i, i_summary i)) (item_rows e n xs)
      = map (\<lambda>i. (ii_from_agent i, ii_content i, ii_summary i)) xs" for n xs
    by (induction xs arbitrary: n) (auto simp: new_item_row_def)
  with b its bs load frame created(1) show ?thesis
    by (auto simp: row_def intro: next_queue_seq_gt)
qed (use assms(3) in auto)

section \<open>Lease recovery\<close>

text \<open>C14. Recovery is complete and exact: it returns the identifiers of exactly the batches whose
  lease had expired; each of them is pending again after a delay of between one and 256 seconds, or
  abandoned when its eight attempts are used up; every other batch is untouched; and no expired
  lease is left.\<close>

lemma backoff_range: "1 \<le> retry_backoff_seconds n \<and> retry_backoff_seconds n \<le> 256"
proof -
  have "(2::int) ^ nat (max 0 (min 8 n)) \<le> 2 ^ 8" by (rule power_increasing) auto
  moreover have "(1::int) \<le> 2 ^ nat (max 0 (min 8 n))" by simp
  ultimately show ?thesis by (simp add: retry_backoff_seconds_def max_retry_backoff_seconds_def)
qed

theorem recovery_complete:
  assumes "gq_inv d" and "0 \<le> t" and "t + 256 \<le> i64_max"
    and "recover_expired_leases t d = (ids, d', evs)"
  shows "ids = map b_batch_id (filter (expired t) (batches d))
     \<and> (\<forall>r \<in> set (batches d'). \<not> expired t r)
     \<and> (\<forall>r \<in> set (batches d). \<not> expired t r \<longrightarrow> r \<in> set (batches d'))
     \<and> (\<forall>r \<in> set (batches d). expired t r \<longrightarrow> (\<exists>s \<in> set (batches d'). row_key s = row_key r
          \<and> b_lease_owner s = None \<and> b_attempt_count s = b_attempt_count r
          \<and> (if b_attempt_count r < 8
             then b_state s = Pending \<and> t + 1 \<le> b_available_at s \<and> b_available_at s \<le> t + 256
             else b_state s = Abandoned \<and> b_terminal_at s = Some t)))"
proof -
  have dist: "distinct (map b_batch_id (batches d))" using assms(1) by (simp add: gq_inv_def keys_ok_def)
  from assms(4) have d': "d' = fst (recover_expired_in_tx t d)"
    and ids: "ids = map fst (snd (recover_expired_in_tx t d))"
    by (auto simp: recover_expired_leases_def split: prod.splits)
  then have bs: "batches d' = sql_update (expired t) (recover_update t) (batches d)"
    by (simp add: recover_batches [OF dist])
  have "\<exists>s \<in> set (batches d'). row_key s = row_key r \<and> b_lease_owner s = None
       \<and> b_attempt_count s = b_attempt_count r
       \<and> (if b_attempt_count r < 8
          then b_state s = Pending \<and> t + 1 \<le> b_available_at s \<and> b_available_at s \<le> t + 256
          else b_state s = Abandoned \<and> b_terminal_at s = Some t)"
    if r: "r \<in> set (batches d)" "expired t r" for r
  proof (rule bexI)
    show "recover_update t r \<in> set (batches d')" using r by (auto simp: bs set_sql_update)
    have "sat_add t (retry_backoff_seconds (b_attempt_count r)) = t + retry_backoff_seconds (b_attempt_count r)"
      using assms(2,3) backoff_range [of "b_attempt_count r"] by (intro sat_add_exact) auto
    then show "row_key (recover_update t r) = row_key r \<and> b_lease_owner (recover_update t r) = None
       \<and> b_attempt_count (recover_update t r) = b_attempt_count r
       \<and> (if b_attempt_count r < 8
          then b_state (recover_update t r) = Pending \<and> t + 1 \<le> b_available_at (recover_update t r)
               \<and> b_available_at (recover_update t r) \<le> t + 256
          else b_state (recover_update t r) = Abandoned \<and> b_terminal_at (recover_update t r) = Some t)"
      using backoff_range [of "b_attempt_count r"]
      by (simp add: recover_update_def release_row_def row_key_def recovered_state_def max_retry_attempts_def)
  qed
  moreover have "\<not> expired t (recover_update t r)" for r by (auto dest: expired_in_flight)
  ultimately show ?thesis by (auto simp: ids recover_list comp_def bs set_sql_update)
qed

theorem recovery_complete_witness:
  "fst (recover_expired_leases 161 (fst demo_leased)) = [''a'']
   \<and> (\<exists>s \<in> set (batches (fst (snd (recover_expired_leases 161 (fst demo_leased))))).
        b_state s = Pending \<and> 162 \<le> b_available_at s)"
proof -
  let ?r = "lease_row demo_consumer 161 demo_row"
  have run: "recover_expired_leases 161 (fst demo_leased) =
      (fst (recover_expired_leases 161 (fst demo_leased)), fst (snd (recover_expired_leases 161 (fst demo_leased))),
       snd (snd (recover_expired_leases 161 (fst demo_leased))))" by simp
  have "expired 161 ?r" "b_batch_id ?r = ''a''" "b_attempt_count ?r = 0"
    by code_simp+
  with recovery_complete [OF demo_inv(2) _ _ run] show ?thesis
    by (auto simp: demo_leased_rows i64_max_def)
qed

end
