(* ===== verification/Topic_Vocabulary.thy ===== *)
theory Topic_Vocabulary
  imports Guidance_Queue
begin

text \<open>
  Topics, \<^verbatim>\<open>services/topic_vocabulary.rs\<close>: the segment encoding, whole topics, and the three
  typed topics \<^verbatim>\<open>in/agent/..\<close>, \<^verbatim>\<open>obs/event/..\<close> and \<^verbatim>\<open>signal/park/..\<close>. Parsing and
  serialising are shown to be inverse to each other in both directions: every topic the parser
  accepts is the one canonical spelling of its segments.
\<close>

datatype topic_error =
    EmptySegment
  | BareWildcard
  | NulInSegment
  | BadEscape
  | PathNavigation
  | SlashOrNul
  | TooFewSegments
  | UnsupportedVerb string
  | BadInTopic
  | BadObsTopic
  | BadParkSignal
  | UnsupportedQueueClass
  | UnsupportedCause string

section \<open>Segments\<close>

definition validate_decoded_segment :: "string \<Rightarrow> topic_error + unit" where
  "validate_decoded_segment s =
     (if s = [] \<or> s = ''.'' \<or> s = ''..'' then Inl PathNavigation
      else if CHR ''/'' \<in> set s \<or> CHR 0x00 \<in> set s then Inl SlashOrNul
      else Inr ())"

text \<open>\<^verbatim>\<open>decode_escape\<close> on the two characters after a percent sign.\<close>

fun decode_escape :: "char list \<Rightarrow> topic_error + char" where
  "decode_escape [a, b] =
     (if a = CHR ''2'' \<and> b = CHR ''3'' then Inr (CHR ''#'')
      else if a = CHR ''2'' \<and> b = CHR ''5'' then Inr (CHR ''%'')
      else if a = CHR ''2'' \<and> b = CHR ''B'' then Inr (CHR ''+'')
      else Inl BadEscape)"
| "decode_escape _ = Inl BadEscape"

function decode_chars :: "string \<Rightarrow> topic_error + string" where
  "decode_chars [] = Inr []"
| "decode_chars (c # cs) =
     (if c = CHR ''+'' \<or> c = CHR ''#'' then Inl BareWildcard
      else if c = CHR ''%''
      then bindR (decode_escape (take 2 cs)) (\<lambda>x. bindR (decode_chars (drop 2 cs)) (\<lambda>xs. Inr (x # xs)))
      else if c = CHR 0x00 then Inl NulInSegment
      else bindR (decode_chars cs) (\<lambda>xs. Inr (c # xs)))"
  by pat_completeness auto
termination
  by (relation "measure length") auto

definition decode_segment :: "string \<Rightarrow> topic_error + string" where
  "decode_segment encoded =
     (if encoded = [] then Inl EmptySegment
      else bindR (decode_chars encoded) (\<lambda>decoded.
           bindR (validate_decoded_segment decoded) (\<lambda>_. Inr decoded)))"

fun encode_chars :: "string \<Rightarrow> string" where
  "encode_chars [] = []"
| "encode_chars (c # cs) =
     (if c = CHR ''+'' then ''%2B'' else if c = CHR ''#'' then ''%23''
      else if c = CHR ''%'' then ''%25'' else [c]) @ encode_chars cs"

definition encode_segment :: "string \<Rightarrow> topic_error + string" where
  "encode_segment raw = bindR (validate_decoded_segment raw) (\<lambda>_. Inr (encode_chars raw))"

lemma valid_segment_iff:
  "validate_decoded_segment s = Inr () \<longleftrightarrow>
     s \<noteq> [] \<and> s \<noteq> ''.'' \<and> s \<noteq> ''..'' \<and> CHR ''/'' \<notin> set s \<and> CHR 0x00 \<notin> set s"
  by (auto simp: validate_decoded_segment_def)

lemma decode_encode_chars: "CHR 0x00 \<notin> set s \<Longrightarrow> decode_chars (encode_chars s) = Inr s"
  by (induction s) auto

lemma decode_escape_InrD:
  "decode_escape (take 2 cs) = Inr x \<Longrightarrow>
     (x = CHR ''+'' \<or> x = CHR ''#'' \<or> x = CHR ''%'') \<and> encode_chars [x] = CHR ''%'' # take 2 cs"
  by (cases "take 2 cs" rule: decode_escape.cases) (auto split: if_splits)

lemma encode_decode_chars: "decode_chars t = Inr s \<Longrightarrow> encode_chars s = t"
proof (induction t arbitrary: s rule: decode_chars.induct)
  case (2 c cs)
  show ?case
  proof (cases "c = CHR ''%''")
    case True
    with "2.prems" obtain x xs where esc: "decode_escape (take 2 cs) = Inr x"
      and rest: "decode_chars (drop 2 cs) = Inr xs" and s: "s = x # xs" by auto
    have "encode_chars xs = drop 2 cs" using "2.IH"(1) True esc rest by simp
    moreover have "encode_chars (x # xs) = encode_chars [x] @ encode_chars xs" by simp
    ultimately show ?thesis using decode_escape_InrD [OF esc] True s by (metis append_Cons append_take_drop_id)
  next
    case False
    with "2.prems" "2.IH"(2) show ?thesis by (auto split: if_splits)
  qed
qed simp

lemma encode_chars_nonempty: "s \<noteq> [] \<Longrightarrow> encode_chars s \<noteq> []"
  by (cases s) auto

lemma encode_chars_no_slash: "CHR ''/'' \<notin> set s \<Longrightarrow> CHR ''/'' \<notin> set (encode_chars s)"
  by (induction s) auto

lemma segment_codec: "encode_segment s = Inr t \<longleftrightarrow> decode_segment t = Inr s"
proof
  assume "encode_segment s = Inr t"
  then have v: "validate_decoded_segment s = Inr ()" and t: "t = encode_chars s"
    by (auto simp: encode_segment_def)
  from v have "s \<noteq> []" and "CHR 0x00 \<notin> set s" by (auto simp: valid_segment_iff)
  with v t show "decode_segment t = Inr s"
    by (simp add: decode_segment_def encode_chars_nonempty decode_encode_chars)
next
  assume "decode_segment t = Inr s"
  then have "decode_chars t = Inr s" and "validate_decoded_segment s = Inr ()"
    by (auto simp: decode_segment_def split: if_splits)
  then show "encode_segment s = Inr t" by (simp add: encode_segment_def encode_decode_chars)
qed

section \<open>Topics\<close>

definition topic_verb :: "string \<Rightarrow> bool" where
  "topic_verb v \<longleftrightarrow> v = ''in'' \<or> v = ''obs'' \<or> v = ''signal''"

definition check_shape :: "string list \<Rightarrow> topic_error + unit" where
  "check_shape segs =
     (if length segs < 3 then Inl TooFewSegments
      else if \<not> topic_verb (hd segs) then Inl (UnsupportedVerb (hd segs))
      else Inr ())"

definition parse_topic :: "string \<Rightarrow> topic_error + string list" where
  "parse_topic topic =
     bindR (traverse decode_segment (split_on (CHR ''/'') topic)) (\<lambda>segs.
     bindR (check_shape segs) (\<lambda>_. Inr segs))"

definition serialize_topic :: "string list \<Rightarrow> topic_error + string" where
  "serialize_topic segs =
     bindR (check_shape segs) (\<lambda>_.
     bindR (traverse encode_segment segs) (\<lambda>encoded. Inr (join_with ''/'' encoded)))"

lemma traverse_iff_list_all2: "traverse f xs = Inr ys \<longleftrightarrow> list_all2 (\<lambda>x y. f x = Inr y) xs ys"
proof (induction xs arbitrary: ys)
  case (Cons x xs)
  then show ?case by (cases ys) auto
qed auto

lemma traverse_codec: "traverse encode_segment segs = Inr enc \<longleftrightarrow> traverse decode_segment enc = Inr segs"
  unfolding traverse_iff_list_all2 segment_codec by (auto simp: list_all2_conv_all_nth)

lemma encode_segment_no_slash: "encode_segment s = Inr t \<Longrightarrow> CHR ''/'' \<notin> set t"
  by (auto simp: encode_segment_def valid_segment_iff dest: encode_chars_no_slash)

lemma encoded_no_slash:
  "traverse encode_segment segs = Inr enc \<Longrightarrow> t \<in> set enc \<Longrightarrow> CHR ''/'' \<notin> set t"
  by (induction segs arbitrary: enc) (auto dest: encode_segment_no_slash)

lemma topic_codec: "parse_topic t = Inr segs \<longleftrightarrow> serialize_topic segs = Inr t"
proof
  assume "parse_topic t = Inr segs"
  then have "traverse decode_segment (split_on (CHR ''/'') t) = Inr segs" and "check_shape segs = Inr ()"
    by (auto simp: parse_topic_def)
  then show "serialize_topic segs = Inr t"
    by (simp add: serialize_topic_def traverse_codec [symmetric] join_split_on)
next
  assume "serialize_topic segs = Inr t"
  then obtain enc where shape: "check_shape segs = Inr ()" and enc: "traverse encode_segment segs = Inr enc"
    and t: "t = join_with ''/'' enc" by (auto simp: serialize_topic_def)
  from shape have "segs \<noteq> []" by (auto simp: check_shape_def)
  with enc have "enc \<noteq> []" by (auto simp: traverse_iff_list_all2)
  then have "split_on (CHR ''/'') t = enc" unfolding t
    by (rule split_on_join) (rule encoded_no_slash [OF enc])
  with enc shape show "parse_topic t = Inr segs"
    by (simp add: parse_topic_def traverse_codec)
qed

section \<open>Typed topics\<close>

record in_topic =
  it_agent_id :: string
  it_queue_class :: queue_class

definition in_topic_parse :: "string \<Rightarrow> topic_error + in_topic" where
  "in_topic_parse topic =
     bindR (parse_topic topic) (\<lambda>segs.
       if length segs \<noteq> 4 \<or> segs ! 0 \<noteq> ''in'' \<or> segs ! 1 \<noteq> ''agent'' then Inl BadInTopic
       else case class_parse (segs ! 3) of
              None \<Rightarrow> Inl UnsupportedQueueClass
            | Some c \<Rightarrow> Inr \<lparr>it_agent_id = segs ! 2, it_queue_class = c\<rparr>)"

definition in_topic_topic :: "in_topic \<Rightarrow> topic_error + string" where
  "in_topic_topic x = serialize_topic [''in'', ''agent'', it_agent_id x, class_str (it_queue_class x)]"

definition into_request ::
    "in_topic \<Rightarrow> item_input list \<Rightarrow> guidance_identity \<Rightarrow> string option \<Rightarrow> int option \<Rightarrow> batch_request" where
  "into_request x is identity key mid =
     \<lparr>rq_agent_id = it_agent_id x, rq_queue_class = it_queue_class x, rq_items = is,
      rq_identity = identity, rq_idempotency_key = key, rq_source_message_id = mid\<rparr>"

definition obs_topic_parse :: "string \<Rightarrow> topic_error + string" where
  "obs_topic_parse topic =
     bindR (parse_topic topic) (\<lambda>segs.
       if length segs \<noteq> 3 \<or> segs ! 0 \<noteq> ''obs'' \<or> segs ! 1 \<noteq> ''event'' then Inl BadObsTopic
       else Inr (segs ! 2))"

definition obs_topic_topic :: "string \<Rightarrow> topic_error + string" where
  "obs_topic_topic event_type = serialize_topic [''obs'', ''event'', event_type]"

definition park_causes :: "string list" where
  "park_causes = [''retries_exhausted'', ''budget_exhausted'', ''no_capable_harness'',
     ''schedule_deadlock'', ''review_stuck'', ''review_rounds_exhausted'',
     ''harness_switch_requested'', ''stall_detected'']"

record park_signal =
  ps_run_id :: string
  ps_cause :: string

definition park_signal_parse :: "string \<Rightarrow> topic_error + park_signal" where
  "park_signal_parse topic =
     bindR (parse_topic topic) (\<lambda>segs.
       if length segs \<noteq> 4 \<or> segs ! 0 \<noteq> ''signal'' \<or> segs ! 1 \<noteq> ''park'' then Inl BadParkSignal
       else if segs ! 3 \<notin> set park_causes then Inl (UnsupportedCause (segs ! 3))
       else Inr \<lparr>ps_run_id = segs ! 2, ps_cause = segs ! 3\<rparr>)"

definition park_signal_topic :: "park_signal \<Rightarrow> topic_error + string" where
  "park_signal_topic x = serialize_topic [''signal'', ''park'', ps_run_id x, ps_cause x]"

text \<open>\<^verbatim>\<open>enqueue_in_topic\<close> of \<^verbatim>\<open>services/guidance_queue.rs\<close>: the topic's destination, then the
  queue.\<close>

definition enqueue_in_topic ::
    "call_env \<Rightarrow> string \<Rightarrow> item_input list \<Rightarrow> guidance_identity \<Rightarrow> string option \<Rightarrow> int option \<Rightarrow> db \<Rightarrow>
     ((topic_error + gq_error) + enqueue_result) \<times> db \<times> mirror_event list" where
  "enqueue_in_topic e topic is identity key mid d =
     (case in_topic_parse topic of
        Inl err \<Rightarrow> (Inl (Inl err), d, [])
      | Inr x \<Rightarrow>
          (case enqueue_batch e (into_request x is identity key mid) d of
             (Inl err, d', evs) \<Rightarrow> (Inl (Inr err), d', evs)
           | (Inr res, d', evs) \<Rightarrow> (Inr res, d', evs)))"

lemma four_segments: "length xs = 4 \<Longrightarrow> xs = [xs ! 0, xs ! 1, xs ! 2, xs ! 3]"
  by (intro nth_equalityI) (auto simp: less_Suc_eq numeral_eq_Suc nth_Cons split: nat.split)

lemma three_segments: "length xs = 3 \<Longrightarrow> xs = [xs ! 0, xs ! 1, xs ! 2]"
  by (intro nth_equalityI) (auto simp: less_Suc_eq numeral_eq_Suc nth_Cons split: nat.split)

lemma in_topic_codec: "in_topic_parse t = Inr x \<longleftrightarrow> in_topic_topic x = Inr t"
proof
  assume "in_topic_parse t = Inr x"
  then obtain segs where p: "parse_topic t = Inr segs" and len: "length segs = 4"
    and s: "segs ! 0 = ''in''" "segs ! 1 = ''agent''" "segs ! 2 = it_agent_id x"
    and c: "class_parse (segs ! 3) = Some (it_queue_class x)"
    by (auto simp: in_topic_parse_def split: if_splits option.splits)
  from four_segments [OF len] s class_parse_SomeD [OF c]
  have "segs = [''in'', ''agent'', it_agent_id x, class_str (it_queue_class x)]" by simp
  with p show "in_topic_topic x = Inr t" by (simp add: in_topic_topic_def topic_codec)
next
  assume "in_topic_topic x = Inr t"
  then show "in_topic_parse t = Inr x"
    by (simp add: in_topic_topic_def topic_codec [symmetric] in_topic_parse_def)
qed

lemma obs_topic_codec: "obs_topic_parse t = Inr ev \<longleftrightarrow> obs_topic_topic ev = Inr t"
proof
  assume "obs_topic_parse t = Inr ev"
  then obtain segs where p: "parse_topic t = Inr segs" and len: "length segs = 3"
    and s: "segs ! 0 = ''obs''" "segs ! 1 = ''event''" "segs ! 2 = ev"
    by (auto simp: obs_topic_parse_def split: if_splits)
  from three_segments [OF len] s have "segs = [''obs'', ''event'', ev]" by simp
  with p show "obs_topic_topic ev = Inr t" by (simp add: obs_topic_topic_def topic_codec)
next
  assume "obs_topic_topic ev = Inr t"
  then show "obs_topic_parse t = Inr ev"
    by (simp add: obs_topic_topic_def topic_codec [symmetric] obs_topic_parse_def)
qed

lemma park_signal_codec:
  "park_signal_parse t = Inr x \<longleftrightarrow> park_signal_topic x = Inr t \<and> ps_cause x \<in> set park_causes"
proof
  assume "park_signal_parse t = Inr x"
  then obtain segs where p: "parse_topic t = Inr segs" and len: "length segs = 4"
    and s: "segs ! 0 = ''signal''" "segs ! 1 = ''park''" "segs ! 2 = ps_run_id x" "segs ! 3 = ps_cause x"
    and c: "ps_cause x \<in> set park_causes"
    by (auto simp: park_signal_parse_def split: if_splits)
  from four_segments [OF len] s have "segs = [''signal'', ''park'', ps_run_id x, ps_cause x]" by simp
  with p c show "park_signal_topic x = Inr t \<and> ps_cause x \<in> set park_causes"
    by (simp add: park_signal_topic_def topic_codec)
next
  assume "park_signal_topic x = Inr t \<and> ps_cause x \<in> set park_causes"
  then show "park_signal_parse t = Inr x"
    by (simp add: park_signal_topic_def topic_codec [symmetric] park_signal_parse_def)
qed

text \<open>C16. Every topic has exactly one spelling: parsing accepts a string as a list of segments, as an
  inbox destination, as an observation or as a park signal if and only if serialising that value
  gives back the very same string; a park signal moreover names one of the eight known causes.\<close>

theorem topics_canonical:
  "(parse_topic t = Inr segs \<longleftrightarrow> serialize_topic segs = Inr t)
   \<and> (in_topic_parse t = Inr x \<longleftrightarrow> in_topic_topic x = Inr t)
   \<and> (obs_topic_parse t = Inr ev \<longleftrightarrow> obs_topic_topic ev = Inr t)
   \<and> (park_signal_parse t = Inr s \<longleftrightarrow> park_signal_topic s = Inr t \<and> ps_cause s \<in> set park_causes)"
  by (simp only: topic_codec in_topic_codec obs_topic_codec park_signal_codec)

end
