(* ===== verification/Inbox_Store.thy ===== *)
theory Inbox_Store
  imports Guidance_Preservation
begin

text \<open>
  The per-agent inbox of \<^verbatim>\<open>services/inbox_store.rs\<close>: writing, peeking and draining messages,
  the poke schedule with its backoff, and the data part of the schema migration. It shares its
  database with the guidance queue. A message identifier is the SQLite row identifier of an
  \<^verbatim>\<open>INTEGER PRIMARY KEY\<close> column, one more than the largest in the table.
\<close>

section \<open>Messages\<close>

definition clear_all :: "db \<Rightarrow> db \<times> mirror_event list" where
  "clear_all d =
     (empty_db,
      (if length (messages d) > 0
       then [(''agent_inbox.messages_abandoned'',
              JObj [(''operation'', JStr ''clear_all''), (''count'', JInt (int (length (messages d)))),
                    (''outcome'', JStr ''abandoned'')])]
       else []) @ [(state_changed, JObj [(''operation'', JStr ''clear_all'')])])"

definition next_message_id :: "message_row list \<Rightarrow> int" where
  "next_message_id ms = fold max (map m_id ms) 0 + 1"

definition insert_message ::
    "call_env \<Rightarrow> string \<Rightarrow> string \<Rightarrow> string \<Rightarrow> string option \<Rightarrow> db \<Rightarrow> int \<times> db" where
  "insert_message e sender receiver content summary d =
     (let i = next_message_id (messages d) in
      (i, d\<lparr>messages := messages d @
             [\<lparr>m_id = i, m_from_agent = sender, m_to_agent = receiver, m_content = content,
               m_summary = summary, m_created_at = clock e, m_notified_at = None, m_read_at = None\<rparr>]\<rparr>))"

definition write_message ::
    "call_env \<Rightarrow> string \<Rightarrow> string \<Rightarrow> string \<Rightarrow> string option \<Rightarrow> db \<Rightarrow> int \<times> db \<times> mirror_event list" where
  "write_message e sender receiver content summary d =
     (let receiver' = normalize_agent_id receiver;
          (i, d') = insert_message e sender receiver' content summary d in
      (i, d',
       [(state_changed,
         JObj [(''operation'', JStr ''write_message''), (''message_id'', JInt i),
               (''from_agent'', JStr sender), (''to_agent'', JStr receiver'),
               (''content'', JStr content), (''summary'', json_opt JStr summary),
               (''created_at'', JInt (clock e))]),
        (''message.delivery'',
         JObj [(''message_id'', JInt i), (''from_agent'', JStr sender),
               (''to_agent'', JStr receiver'), (''attempt'', JInt 1),
               (''outcome'', JStr ''accepted''), (''transport'', JStr ''durable_inbox'')])]))"

text \<open>\<^verbatim>\<open>ORDER BY created_at ASC, id ASC\<close>.\<close>

definition select_messages :: "(message_row \<Rightarrow> bool) \<Rightarrow> message_row list \<Rightarrow> message_row list" where
  "select_messages p ms = sort_key (\<lambda>m. (m_created_at m, m_id m)) (filter p ms)"

definition mark_notified :: "int \<Rightarrow> int list \<Rightarrow> message_row list \<Rightarrow> message_row list" where
  "mark_notified t ids ms =
     fold (\<lambda>i. sql_update (\<lambda>m. m_id m = i) (\<lambda>m. m\<lparr>m_notified_at := Some t\<rparr>)) ids ms"

definition peek_unnotified :: "call_env \<Rightarrow> string \<Rightarrow> db \<Rightarrow> message_row list \<times> db \<times> mirror_event list" where
  "peek_unnotified e agent d =
     (let a = normalize_agent_id agent;
          ms = select_messages (\<lambda>m. m_to_agent m = a \<and> m_read_at m = None \<and> m_notified_at m = None)
                 (messages d)
      in (ms, d\<lparr>messages := mark_notified (clock e) (map m_id ms) (messages d)\<rparr>,
          if ms \<noteq> []
          then [(state_changed,
                 JObj [(''operation'', JStr ''mark_notified''), (''agent_id'', JStr a),
                       (''message_ids'', JArr (map (\<lambda>m. JInt (m_id m)) ms)),
                       (''notified_at'', JInt (clock e))])]
          else []))"

definition unread_for :: "string \<Rightarrow> message_row \<Rightarrow> bool" where
  "unread_for a m \<longleftrightarrow> m_to_agent m = a \<and> m_read_at m = None"

text \<open>\<^verbatim>\<open>INSERT .. ON CONFLICT(agent_id) DO UPDATE\<close> on the metadata table.\<close>

definition upsert_meta :: "meta_row \<Rightarrow> (meta_row \<Rightarrow> meta_row) \<Rightarrow> meta_row list \<Rightarrow> meta_row list" where
  "upsert_meta n f t =
     (if list_ex (\<lambda>a. a_agent_id a = a_agent_id n) t
      then sql_update (\<lambda>a. a_agent_id a = a_agent_id n) f t else t @ [n])"

definition checked_meta :: "string \<Rightarrow> int \<Rightarrow> meta_row list \<Rightarrow> meta_row list" where
  "checked_meta a t = upsert_meta
     \<lparr>a_agent_id = a, a_last_check_inbox_at = Some t, a_last_poke_at = None,
      a_last_poke_message_id = None, a_poke_backoff_secs = None\<rparr>
     (\<lambda>m. m\<lparr>a_last_check_inbox_at := Some t\<rparr>)"

definition consumed_event :: "string \<Rightarrow> int \<Rightarrow> message_row \<Rightarrow> guidance_batch option \<Rightarrow> mirror_event" where
  "consumed_event a t m b =
     (let ev = JObj [(''message_id'', JInt (m_id m)), (''from_agent'', JStr (m_from_agent m)),
                     (''to_agent'', JStr (m_to_agent m)), (''consumer'', JStr a),
                     (''outcome'', JStr ''consumed''), (''ack_kind'', JStr ''inbox_read''),
                     (''confidence'', JStr ''unknown''), (''read_at'', JInt t)]
      in (''message.consumed'', case b of None \<Rightarrow> ev | Some b' \<Rightarrow> with_batch_identity ev b'))"

definition drain_unread ::
    "call_env \<Rightarrow> string \<Rightarrow> db \<Rightarrow> (gq_error + message_row list) \<times> db \<times> mirror_event list" where
  "drain_unread e agent d =
     (let a = normalize_agent_id agent;
          ms = select_messages (unread_for a) (messages d)
      in case traverse (\<lambda>m. load_batch_by_source_message_id d (m_id m)) ms of
           Inl err \<Rightarrow> (Inl err, d, [])
         | Inr bs \<Rightarrow>
             (Inr ms,
              d\<lparr>messages := sql_update (unread_for a) (\<lambda>m. m\<lparr>m_read_at := Some (clock e)\<rparr>) (messages d),
                metas := checked_meta a (clock e) (metas d)\<rparr>,
              if ms \<noteq> []
              then (state_changed,
                    JObj [(''operation'', JStr ''mark_read''), (''agent_id'', JStr a),
                          (''message_ids'', JArr (map (\<lambda>m. JInt (m_id m)) ms)),
                          (''read_at'', JInt (clock e))]) #
                   map (\<lambda>(m, b). consumed_event a (clock e) m b) (zip ms bs)
              else []))"

definition unread_count :: "string \<Rightarrow> db \<Rightarrow> nat" where
  "unread_count agent d = length (filter (unread_for (normalize_agent_id agent)) (messages d))"

definition has_unread :: "string \<Rightarrow> db \<Rightarrow> bool" where
  "has_unread agent d \<longleftrightarrow> unread_count agent d > 0"

definition meta_of :: "string \<Rightarrow> db \<Rightarrow> meta_row option" where
  "meta_of a d = find (\<lambda>m. a_agent_id m = a) (metas d)"

definition last_check_inbox_at :: "string \<Rightarrow> db \<Rightarrow> int option" where
  "last_check_inbox_at agent d = Option.bind (meta_of (normalize_agent_id agent) d) a_last_check_inbox_at"

section \<open>Pokes\<close>

text \<open>\<^verbatim>\<open>i64::try_from(u64).unwrap_or(i64::MAX)\<close>.\<close>

definition to_i64 :: "nat \<Rightarrow> int" where
  "to_i64 n = min i64_max (int n)"

record poke_candidate =
  pc_agent_id :: string
  pc_unread_count :: nat
  pc_newest_message_id :: int

definition option_or :: "'a option \<Rightarrow> 'a \<Rightarrow> 'a" where
  "option_or x y = (case x of None \<Rightarrow> y | Some v \<Rightarrow> v)"

definition due_at :: "int \<Rightarrow> int \<Rightarrow> int \<Rightarrow> meta_row option \<Rightarrow> int" where
  "due_at base newest_id newest_at meta =
     (if Option.bind meta a_last_poke_message_id \<noteq> Some newest_id
      then sat_add newest_at base
      else sat_add (option_or (Option.bind meta a_last_poke_at) newest_at)
             (option_or (Option.bind meta a_poke_backoff_secs) base))"

definition poke_candidate_for :: "call_env \<Rightarrow> int \<Rightarrow> db \<Rightarrow> string \<Rightarrow> poke_candidate option" where
  "poke_candidate_for e base d a =
     (let unread = filter (unread_for a) (messages d);
          newest_id = fold max (map m_id (tl unread)) (m_id (hd unread));
          newest_at = fold max (map m_created_at (tl unread)) (m_created_at (hd unread));
          meta = meta_of a d;
          due = due_at base newest_id newest_at meta;
          checked_after_due = (case Option.bind meta a_last_check_inbox_at of
                                 None \<Rightarrow> False | Some checked \<Rightarrow> checked \<ge> due)
      in if checked_after_due \<or> clock e < due then None
         else Some \<lparr>pc_agent_id = a, pc_unread_count = length unread, pc_newest_message_id = newest_id\<rparr>)"

text \<open>\<^verbatim>\<open>GROUP BY m.to_agent ORDER BY m.to_agent\<close> over the unread messages.\<close>

definition agents_needing_poke :: "call_env \<Rightarrow> nat \<Rightarrow> db \<Rightarrow> poke_candidate list" where
  "agents_needing_poke e base_interval d =
     List.map_filter (poke_candidate_for e (to_i64 base_interval) d)
       (sort (remdups (map m_to_agent (filter (\<lambda>m. m_read_at m = None) (messages d)))))"

definition next_backoff :: "int \<Rightarrow> int \<Rightarrow> int \<Rightarrow> meta_row option \<Rightarrow> int" where
  "next_backoff base limit newest_id meta =
     (if Option.bind meta a_last_poke_message_id = Some newest_id
      then min (sat_mul (option_or (Option.bind meta a_poke_backoff_secs) base) 2) limit
      else base)"

definition record_poke ::
    "call_env \<Rightarrow> string \<Rightarrow> int \<Rightarrow> nat \<Rightarrow> nat \<Rightarrow> db \<Rightarrow> db \<times> mirror_event list" where
  "record_poke e agent newest_id base_interval max_interval d =
     (let a = normalize_agent_id agent;
          backoff = next_backoff (to_i64 base_interval) (to_i64 max_interval) newest_id (meta_of a d)
      in (d\<lparr>metas := upsert_meta
              \<lparr>a_agent_id = a, a_last_check_inbox_at = None, a_last_poke_at = Some (clock e),
               a_last_poke_message_id = Some newest_id, a_poke_backoff_secs = Some backoff\<rparr>
              (\<lambda>m. m\<lparr>a_last_poke_at := Some (clock e), a_last_poke_message_id := Some newest_id,
                     a_poke_backoff_secs := Some backoff\<rparr>) (metas d)\<rparr>,
          [(state_changed,
            JObj [(''operation'', JStr ''record_poke''), (''agent_id'', JStr a),
                  (''newest_message_id'', JInt newest_id), (''poke_backoff_secs'', JInt backoff),
                  (''last_poke_at'', JInt (clock e))])]))"

section \<open>Migration of existing rows\<close>

fun max_option :: "int option \<Rightarrow> int option \<Rightarrow> int option" where
  "max_option (Some a) (Some b) = Some (max a b)"
| "max_option (Some a) None = Some a"
| "max_option None (Some b) = Some b"
| "max_option None None = None"

definition message_updates :: "message_row list \<Rightarrow> (int \<times> string) list" where
  "message_updates ms =
     map (\<lambda>m. (m_id m, normalize_agent_id (m_to_agent m)))
       (filter (\<lambda>m. normalize_agent_id (m_to_agent m) \<noteq> m_to_agent m) ms)"

definition normalize_messages :: "message_row list \<Rightarrow> message_row list" where
  "normalize_messages ms =
     fold (\<lambda>(i, a). sql_update (\<lambda>m. m_id m = i) (\<lambda>m. m\<lparr>m_to_agent := a\<rparr>)) (message_updates ms) ms"

definition merge_meta :: "meta_row \<Rightarrow> meta_row \<Rightarrow> meta_row" where
  "merge_meta entry r =
     entry\<lparr>a_last_check_inbox_at := max_option (a_last_check_inbox_at entry) (a_last_check_inbox_at r),
           a_last_poke_at := max_option (a_last_poke_at entry) (a_last_poke_at r),
           a_last_poke_message_id := max_option (a_last_poke_message_id entry) (a_last_poke_message_id r),
           a_poke_backoff_secs := max_option (a_poke_backoff_secs entry) (a_poke_backoff_secs r)\<rparr>"

definition default_meta :: "string \<Rightarrow> meta_row" where
  "default_meta a = \<lparr>a_agent_id = a, a_last_check_inbox_at = None, a_last_poke_at = None,
     a_last_poke_message_id = None, a_poke_backoff_secs = None\<rparr>"

text \<open>The \<^verbatim>\<open>BTreeMap\<close> of merged metadata, as the list of its entries in ascending key order;
  \<^verbatim>\<open>entry(k).or_default()\<close> finds or makes the entry.\<close>

fun merge_entry :: "string \<Rightarrow> meta_row \<Rightarrow> meta_row list \<Rightarrow> meta_row list" where
  "merge_entry k r [] = [merge_meta (default_meta k) r]"
| "merge_entry k r (x # xs) =
     (if k = a_agent_id x then merge_meta x r # xs
      else if k < a_agent_id x then merge_meta (default_meta k) r # x # xs
      else x # merge_entry k r xs)"

definition normalize_metas :: "meta_row list \<Rightarrow> meta_row list" where
  "normalize_metas rs = fold (\<lambda>r. merge_entry (normalize_agent_id (a_agent_id r)) r) rs []"

definition normalize_existing_agent_ids :: "db \<Rightarrow> db" where
  "normalize_existing_agent_ids d =
     d\<lparr>messages := normalize_messages (messages d), metas := normalize_metas (metas d)\<rparr>"

definition legacy_branch :: "string \<Rightarrow> bool" where
  "legacy_branch a \<longleftrightarrow> a = ''main'' \<or> a = ''master'' \<or> a = ''parent''"

definition remap_legacy_branch_recipients :: "db \<Rightarrow> db" where
  "remap_legacy_branch_recipients d =
     d\<lparr>metas := filter (\<lambda>a. \<not> legacy_branch (a_agent_id a)) (metas d),
       messages := sql_update (\<lambda>m. legacy_branch (m_to_agent m)) (\<lambda>m. m\<lparr>m_to_agent := ''root''\<rparr>)
                     (messages d)\<rparr>"

definition migrate :: "db \<Rightarrow> db" where
  "migrate d = remap_legacy_branch_recipients (normalize_existing_agent_ids d)"

end
