(* ===== verification/Inbox_Properties.thy ===== *)
theory Inbox_Properties
  imports Inbox_Store Guidance_System "HOL-Library.Multiset"
begin

text \<open>
  The guarantees of single calls of the inbox: what a drain returns and marks, the schedule of pokes, and the
  migration. Runs of the inbox and the guidance queue together are in \<^verbatim>\<open>Inbox_Run\<close>.
\<close>

section \<open>Selecting and marking messages\<close>

lemma select_messages_set [simp]: "set (select_messages p ms) = {m \<in> set ms. p m}"
  by (auto simp: select_messages_def)

lemma select_messages_mset: "mset (select_messages p ms) = mset (filter p ms)"
  by (simp add: select_messages_def)

lemma mark_notified_eq:
  "mark_notified t ids ms = map (\<lambda>m. if m_id m \<in> set ids then m\<lparr>m_notified_at := Some t\<rparr> else m) ms"
  unfolding mark_notified_def
  by (induction ids arbitrary: ms) (auto simp: sql_update_def comp_def)

lemma next_message_id_gt: "m \<in> set ms \<Longrightarrow> m_id m < next_message_id ms"
proof -
  assume "m \<in> set ms"
  then have "m_id m \<le> Max (insert 0 (m_id ` set ms))" by simp
  moreover have "next_message_id ms = Max (insert 0 (m_id ` set ms)) + 1"
    by (simp add: next_message_id_def flip: Max.set_eq_fold)
  ultimately show ?thesis by simp
qed

lemma upsert_meta_find:
  assumes "\<And>m. a_agent_id (f m) = a_agent_id m"
  shows "find (\<lambda>m. a_agent_id m = a_agent_id n) (upsert_meta n f t) =
     Some (case find (\<lambda>m. a_agent_id m = a_agent_id n) t of None \<Rightarrow> n | Some m \<Rightarrow> f m)"
proof -
  have upd: "find (\<lambda>m. a_agent_id m = a_agent_id n) (sql_update (\<lambda>a. a_agent_id a = a_agent_id n) f t)
      = map_option f (find (\<lambda>m. a_agent_id m = a_agent_id n) t)"
    using assms by (induction t) (auto simp: sql_update_def)
  show ?thesis
  proof (cases "find (\<lambda>m. a_agent_id m = a_agent_id n) t")
    case None
    then have "\<not> list_ex (\<lambda>a. a_agent_id a = a_agent_id n) t"
      by (simp add: find_None_iff list_ex_iff)
    with None show ?thesis by (simp add: upsert_meta_def find_append)
  next
    case (Some m)
    then have "list_ex (\<lambda>a. a_agent_id a = a_agent_id n) t"
      by (auto simp: list_ex_iff dest: find_key_SomeD)
    with Some upd show ?thesis by (simp add: upsert_meta_def)
  qed
qed

section \<open>What the operations leave alone\<close>

lemma gq_exec_messages:
  assumes "gq_inv d" and "gq_exec e call d = (returned, d', evs)"
  shows "messages d' = messages d \<and> metas d' = metas d"
proof (cases call)
  case (EnqueueCall rq)
  with assms(2) have "snd (enqueue_batch e rq d) = (d', evs)" by simp
  from snd_eq_tripleI [OF this] obtain res where "enqueue_batch e rq d = (res, d', evs)" by blast
  then show ?thesis
  proof (cases rule: enqueue_batch_cases)
    case (created res')
    from insert_new_batch_InrD [OF created(4)] show ?thesis by blast
  qed simp_all
next
  case (ClaimCall be c lease)
  with assms(2) have "snd (claim_next e be c lease d) = (d', evs)" by simp
  from snd_eq_tripleI [OF this] obtain out where "claim_next e be c lease d = (out, d', evs)" by blast
  with assms(1) show ?thesis
    by (cases rule: claim_next_cases) (use assms(1) in \<open>auto simp: recover_batches gq_inv_def keys_ok_def\<close>)
next
  case (AttemptCall bid consumer ta)
  with assms(2) have "snd (record_transport_attempt e bid consumer ta d) = (d', evs)" by simp
  from snd_eq_tripleI [OF this] obtain out where "record_transport_attempt e bid consumer ta d = (out, d', evs)" by blast
  with assms(1) show ?thesis by (cases rule: record_transport_attempt_cases) auto
next
  case (AckCall ev)
  with assms(2) have "snd (acknowledge_runtime e ev d) = (d', evs)" by simp
  from snd_eq_tripleI [OF this] obtain out where "acknowledge_runtime e ev d = (out, d', evs)" by blast
  with assms(1) show ?thesis by (cases rule: acknowledge_runtime_cases) auto
next
  case (ReleaseCall bid consumer reason t)
  with assms(2) have "snd (release_for_retry e bid consumer reason t d) = (d', evs)" by simp
  from snd_eq_tripleI [OF this] obtain out where "release_for_retry e bid consumer reason t d = (out, d', evs)" by blast
  with assms(1) show ?thesis by (cases rule: release_for_retry_cases) auto
next
  case (CancelCall bid reason)
  with assms(2) have "snd (cancel_batch e bid reason d) = (d', evs)" by simp
  from snd_eq_tripleI [OF this] obtain out where "cancel_batch e bid reason d = (out, d', evs)" by blast
  with assms(1) show ?thesis by (cases rule: cancel_batch_cases) auto
next
  case (RecoverCall t)
  with assms have "d' = fst (recover_expired_in_tx t d)" using recover_expired_leases_db [of t d] by auto
  with assms(1) show ?thesis by (simp add: recover_batches gq_inv_def keys_ok_def)
qed

lemma gq_inv_frame:
  assumes "batches d' = batches d" and "items d' = items d"
  shows "gq_inv d' = gq_inv d"
proof -
  have "items_ok d' = items_ok d" by (rule ext) (simp add: items_ok_def batch_items_def assms)
  with assms show ?thesis by (simp add: gq_inv_def item_table_ok_def)
qed

lemma drain_frame: "drain_unread e a d = (res, d', evs) \<Longrightarrow> batches d' = batches d \<and> items d' = items d"
  by (auto simp: drain_unread_def Let_def split: sum.splits)

lemma load_by_source_ok:
  assumes "gq_inv d"
  shows "is_ok (load_batch_by_source_message_id d i)"
proof (cases "find (\<lambda>r. b_source_message_id r = Some i) (batches d)")
  case (Some r)
  then have "r \<in> set (batches d)" by (auto simp: find_Some_iff)
  from gq_inv_load [OF assms row_of_in [OF assms this]] Some show ?thesis
    by (simp add: load_batch_by_source_message_id_def)
qed (simp add: load_batch_by_source_message_id_def)

lemma traverse_ok: "(\<And>x. x \<in> set xs \<Longrightarrow> is_ok (f x)) \<Longrightarrow> is_ok (traverse f xs)"
  by (induction xs) (fastforce simp: is_ok_iff)+

text \<open>With the queue's invariant a drain always succeeds.\<close>

lemma drain_succeeds:
  fixes agent :: string
  assumes "gq_inv d"
  defines "a \<equiv> normalize_agent_id agent"
  shows "\<exists>evs. drain_unread e agent d =
     (Inr (select_messages (unread_for a) (messages d)),
      d\<lparr>messages := sql_update (unread_for a) (\<lambda>m. m\<lparr>m_read_at := Some (clock e)\<rparr>) (messages d),
        metas := checked_meta a (clock e) (metas d)\<rparr>, evs)"
proof -
  have "is_ok (traverse (\<lambda>m. load_batch_by_source_message_id d (m_id m))
      (select_messages (unread_for a) (messages d)))"
    by (rule traverse_ok) (rule load_by_source_ok [OF assms(1)])
  then obtain bs where "traverse (\<lambda>m. load_batch_by_source_message_id d (m_id m))
      (select_messages (unread_for a) (messages d)) = Inr bs" by (auto simp: is_ok_iff)
  then show ?thesis by (simp add: drain_unread_def a_def Let_def)
qed

lemma unread_after_read: "\<not> unread_for a (m\<lparr>m_read_at := Some t\<rparr>)"
  by (simp add: unread_for_def)

lemma filter_after_drain:
  "filter (unread_for a) (sql_update (unread_for a) (\<lambda>m. m\<lparr>m_read_at := Some t\<rparr>) ms) = []"
  by (induction ms) (auto simp: sql_update_def unread_after_read)

lemma filter_other_after_drain:
  "filter (\<lambda>m. m_to_agent m \<noteq> a) (sql_update (unread_for a) (\<lambda>m. m\<lparr>m_read_at := Some t\<rparr>) ms)
     = filter (\<lambda>m. m_to_agent m \<noteq> a) ms"
  by (induction ms) (auto simp: sql_update_def unread_for_def)

section \<open>Draining\<close>

text \<open>A drain returns exactly the agent's unread messages, oldest first, marks them and nothing
  else as read, and records the check: afterwards the agent has no unread message, every message of
  another agent is as it was, and a second drain returns nothing.\<close>

theorem drain_exact:
  assumes "gq_inv d"
  shows "\<exists>ms d' evs. drain_unread e agent d = (Inr ms, d', evs)
     \<and> set ms = {m \<in> set (messages d). unread_for (normalize_agent_id agent) m}
     \<and> length ms = unread_count agent d
     \<and> sorted (map (\<lambda>m. (m_created_at m, m_id m)) ms)
     \<and> unread_count agent d' = 0 \<and> last_check_inbox_at agent d' = Some (clock e)
     \<and> filter (\<lambda>m. m_to_agent m \<noteq> normalize_agent_id agent) (messages d')
        = filter (\<lambda>m. m_to_agent m \<noteq> normalize_agent_id agent) (messages d)
     \<and> map m_id (messages d') = map m_id (messages d)
     \<and> fst (drain_unread e2 agent d') = Inr []"
proof -
  let ?a = "normalize_agent_id agent"
  define d' where "d' = d\<lparr>messages := sql_update (unread_for ?a) (\<lambda>m. m\<lparr>m_read_at := Some (clock e)\<rparr>) (messages d),
        metas := checked_meta ?a (clock e) (metas d)\<rparr>"
  from drain_succeeds [OF assms, of e agent] obtain evs where
    run: "drain_unread e agent d = (Inr (select_messages (unread_for ?a) (messages d)), d', evs)"
    unfolding d'_def by blast
  have inv': "gq_inv d'" using gq_inv_frame [of d' d] assms by (simp add: d'_def)
  from drain_succeeds [OF inv', of e2 agent]
  have "fst (drain_unread e2 agent d') = Inr (select_messages (unread_for ?a) (messages d'))" by auto
  moreover have none: "filter (unread_for ?a) (messages d') = []" by (simp add: d'_def filter_after_drain)
  ultimately have again: "fst (drain_unread e2 agent d') = Inr []" by (simp add: select_messages_def)
  have keep: "filter (\<lambda>m. m_to_agent m \<noteq> ?a) (messages d') = filter (\<lambda>m. m_to_agent m \<noteq> ?a) (messages d)"
    by (simp add: d'_def filter_other_after_drain)
  have ids: "map m_id (messages d') = map m_id (messages d)"
    unfolding d'_def by (simp add: sql_update_map_frame)
  have check: "last_check_inbox_at agent d' = Some (clock e)"
    using upsert_meta_find [of "\<lambda>m. m\<lparr>a_last_check_inbox_at := Some (clock e)\<rparr>"
        "\<lparr>a_agent_id = ?a, a_last_check_inbox_at = Some (clock e), a_last_poke_at = None,
      a_last_poke_message_id = None, a_poke_backoff_secs = None\<rparr>" "metas d"]
    by (simp add: last_check_inbox_at_def meta_of_def d'_def checked_meta_def split: option.splits)
  have "length (select_messages (unread_for ?a) (messages d)) = unread_count agent d"
    by (simp add: select_messages_def unread_count_def)
  moreover have "sorted (map (\<lambda>m. (m_created_at m, m_id m)) (select_messages (unread_for ?a) (messages d)))"
    by (simp add: select_messages_def)
  ultimately show ?thesis
    using run none again keep ids check by (auto simp: unread_count_def)
qed

text \<open>A message with a guidance batch that points at it.\<close>

theorem drain_exact_witness:
  "\<exists>ms d' evs. drain_unread \<lparr>clock = 9, uuid = (\<lambda>_. [])\<rparr> ''root.leaf''
       (fst (snd (write_message \<lparr>clock = 5, uuid = (\<lambda>_. [])\<rparr> ''tl'' ''leaf'' ''hi'' None empty_db))) = (Inr ms, d', evs)
     \<and> length ms = 1 \<and> unread_count ''root.leaf'' d' = 0"
proof -
  let ?e = "\<lparr>clock = 5, uuid = (\<lambda>_. [])\<rparr>"
  let ?d = "fst (snd (write_message ?e ''tl'' ''leaf'' ''hi'' None empty_db))"
  have inv: "gq_inv ?d" using gq_inv_frame [of ?d empty_db] gq_inv_empty
    by (simp add: write_message_def insert_message_def Let_def)
  have one: "unread_count ''root.leaf'' ?d = 1" by code_simp
  obtain ms d' evs where "drain_unread \<lparr>clock = 9, uuid = (\<lambda>_. [])\<rparr> ''root.leaf'' ?d = (Inr ms, d', evs)"
      and "length ms = 1" and "unread_count ''root.leaf'' d' = 0"
    using drain_exact [OF inv, of "\<lparr>clock = 9, uuid = (\<lambda>_. [])\<rparr>" "''root.leaf''" ?e, unfolded one] by blast
  then show ?thesis by (intro exI conjI)
qed

section \<open>Pokes\<close>

lemma to_i64_bounds: "0 \<le> to_i64 n" "to_i64 n \<le> i64_max" "m \<le> n \<Longrightarrow> to_i64 m \<le> to_i64 n"
  by (auto simp: to_i64_def)

lemma meta_after_poke:
  assumes "record_poke e agent newest base limit d = (d', evs)"
  defines "a \<equiv> normalize_agent_id agent"
  shows "\<exists>m. meta_of a d' = Some m \<and> a_last_poke_at m = Some (clock e) \<and> a_last_poke_message_id m = Some newest
     \<and> a_poke_backoff_secs m = Some (next_backoff (to_i64 base) (to_i64 limit) newest (meta_of a d))
     \<and> messages d' = messages d"
proof -
  let ?b = "next_backoff (to_i64 base) (to_i64 limit) newest (meta_of a d)"
  have d': "d' = d\<lparr>metas := upsert_meta
              \<lparr>a_agent_id = a, a_last_check_inbox_at = None, a_last_poke_at = Some (clock e),
               a_last_poke_message_id = Some newest, a_poke_backoff_secs = Some ?b\<rparr>
              (\<lambda>m. m\<lparr>a_last_poke_at := Some (clock e), a_last_poke_message_id := Some newest,
                     a_poke_backoff_secs := Some ?b\<rparr>) (metas d)\<rparr>"
    using assms by (auto simp: record_poke_def Let_def)
  show ?thesis
    using upsert_meta_find [of "\<lambda>m. m\<lparr>a_last_poke_at := Some (clock e), a_last_poke_message_id := Some newest,
                     a_poke_backoff_secs := Some ?b\<rparr>" "\<lparr>a_agent_id = a, a_last_check_inbox_at = None, a_last_poke_at = Some (clock e),
               a_last_poke_message_id = Some newest, a_poke_backoff_secs = Some ?b\<rparr>" "metas d"]
    by (cases "find (\<lambda>m. a_agent_id m = a) (metas d)") (simp_all add: d' meta_of_def)
qed

lemma poke_candidateD:
  assumes "poke_candidate_for e base d a = Some c"
  shows "pc_agent_id c = a \<and> pc_unread_count c = length (filter (unread_for a) (messages d))
     \<and> (\<exists>newest_at. due_at base (pc_newest_message_id c) newest_at (meta_of a d) \<le> clock e)"
  using assms by (auto simp: poke_candidate_for_def Let_def not_less split: if_splits)

lemma agents_needing_pokeD:
  assumes "c \<in> set (agents_needing_poke e base d)"
  shows "poke_candidate_for e (to_i64 base) d (pc_agent_id c) = Some c
     \<and> filter (unread_for (pc_agent_id c)) (messages d) \<noteq> []"
proof -
  from assms obtain a where a: "a \<in> m_to_agent ` {m \<in> set (messages d). m_read_at m = None}"
    and c: "poke_candidate_for e (to_i64 base) d a = Some c"
    by (fastforce simp: agents_needing_poke_def List.map_filter_def)
  from a have "filter (unread_for a) (messages d) \<noteq> []" by (auto simp: filter_empty_conv unread_for_def)
  with c poke_candidateD [OF c] show ?thesis by simp
qed

text \<open>C19. Pokes back off: after an agent was poked about its newest message, it is not poked about that
  message again before the recorded backoff has passed; the backoff doubles with every such poke,
  starts at the base interval, never falls below it and never exceeds the maximum.\<close>

theorem poke_backoff:
  assumes "base \<le> limit" and "record_poke e agent newest base limit d = (d', evs)"
    and "\<And>m b. meta_of (normalize_agent_id agent) d = Some m \<Longrightarrow> a_poke_backoff_secs m = Some b \<Longrightarrow>
      to_i64 base \<le> b \<and> b \<le> to_i64 limit"
  shows "\<exists>b m. meta_of (normalize_agent_id agent) d' = Some m \<and> a_poke_backoff_secs m = Some b
     \<and> to_i64 base \<le> b \<and> b \<le> to_i64 limit
     \<and> (\<forall>old b0. meta_of (normalize_agent_id agent) d = Some old \<and> a_last_poke_message_id old = Some newest
          \<and> a_poke_backoff_secs old = Some b0 \<longrightarrow> b = min (2 * b0) (to_i64 limit))
     \<and> (\<forall>e2 c. c \<in> set (agents_needing_poke e2 base d') \<and> pc_agent_id c = normalize_agent_id agent
          \<and> pc_newest_message_id c = newest \<longrightarrow> sat_add (clock e) b \<le> clock e2)"
proof -
  let ?a = "normalize_agent_id agent"
  let ?b = "next_backoff (to_i64 base) (to_i64 limit) newest (meta_of ?a d)"
  from meta_after_poke [OF assms(2)] obtain m where m: "meta_of ?a d' = Some m" "a_last_poke_at m = Some (clock e)"
      "a_last_poke_message_id m = Some newest" "a_poke_backoff_secs m = Some ?b" by blast
  note lims = to_i64_bounds(1,2) [of base] to_i64_bounds(1,2) [of limit] to_i64_bounds(3) [OF assms(1)]
  have double: "min (sat_mul x 2) (to_i64 limit) = min (2 * x) (to_i64 limit)"
    if "to_i64 base \<le> x" "x \<le> to_i64 limit" for x
    using that lims by (simp add: sat_mul_def i64_max_def)
  have new: "to_i64 base \<le> option_or (Option.bind (meta_of ?a d) a_poke_backoff_secs) (to_i64 base)
      \<and> option_or (Option.bind (meta_of ?a d) a_poke_backoff_secs) (to_i64 base) \<le> to_i64 limit"
    using assms(3) lims
    by (cases "meta_of ?a d"; cases "a_poke_backoff_secs (the (meta_of ?a d))") (auto simp: option_or_def)
  then have range: "to_i64 base \<le> ?b \<and> ?b \<le> to_i64 limit"
    using lims double [of "option_or (Option.bind (meta_of ?a d) a_poke_backoff_secs) (to_i64 base)"]
    by (auto simp: next_backoff_def)
  have dbl: "?b = min (2 * b0) (to_i64 limit)"
    if "meta_of ?a d = Some old" "a_last_poke_message_id old = Some newest" "a_poke_backoff_secs old = Some b0" for old b0
    using that new double [of b0] by (simp add: next_backoff_def option_or_def)
  have wait: "sat_add (clock e) ?b \<le> clock e2"
    if "c \<in> set (agents_needing_poke e2 base d')" "pc_agent_id c = ?a" "pc_newest_message_id c = newest" for e2 c
  proof -
    from agents_needing_pokeD [OF that(1)] that(2)
    have "poke_candidate_for e2 (to_i64 base) d' ?a = Some c" by simp
    from poke_candidateD [OF this] that(3) m show ?thesis by (auto simp: due_at_def option_or_def)
  qed
  from m(1,4) range dbl wait show ?thesis by blast
qed

theorem poke_backoff_witness:
  "\<exists>b m. meta_of ''leaf'' (fst (record_poke \<lparr>clock = 5, uuid = (\<lambda>_. [])\<rparr> ''leaf'' 1 60 600 empty_db)) = Some m
     \<and> a_poke_backoff_secs m = Some b \<and> 60 \<le> b \<and> b \<le> 600"
proof -
  let ?e = "\<lparr>clock = 5, uuid = (\<lambda>_. [])\<rparr>"
  have run: "record_poke ?e ''leaf'' 1 60 600 empty_db =
      (fst (record_poke ?e ''leaf'' 1 60 600 empty_db), snd (record_poke ?e ''leaf'' 1 60 600 empty_db))" by simp
  have none: "meta_of (normalize_agent_id ''leaf'') empty_db = None" by (simp add: meta_of_def empty_db_def)
  have "normalize_agent_id ''leaf'' = ''leaf''" and "to_i64 60 = 60" and "to_i64 600 = 600" by code_simp+
  with poke_backoff [OF _ run] none show ?thesis by fastforce
qed

text \<open>Pokes go only where there is unread mail: every candidate is an agent with at least one unread
  message, with the exact count; no agent appears twice; and right after an agent drained its
  inbox it is no candidate.\<close>

lemma pokes_only_unread:
  "(\<forall>c. c \<in> set (agents_needing_poke e base d) \<longrightarrow>
      pc_unread_count c = length (filter (unread_for (pc_agent_id c)) (messages d)) \<and> 0 < pc_unread_count c)
   \<and> distinct (map pc_agent_id (agents_needing_poke e base d))
   \<and> (\<forall>c e0 agent ms d' evs. drain_unread e0 agent d = (Inr ms, d', evs) \<and> c \<in> set (agents_needing_poke e base d')
        \<longrightarrow> pc_agent_id c \<noteq> normalize_agent_id agent)"
proof -
  have filter_ids: "map pc_agent_id (List.map_filter (poke_candidate_for e (to_i64 base) d) as)
      = filter (\<lambda>a. poke_candidate_for e (to_i64 base) d a \<noteq> None) as" for as
    by (induction as) (auto simp: List.map_filter_def dest: poke_candidateD)
  have "distinct (map pc_agent_id (agents_needing_poke e base d))"
    unfolding agents_needing_poke_def filter_ids by simp
  moreover have "pc_agent_id c \<noteq> normalize_agent_id agent"
    if "drain_unread e0 agent d = (Inr ms, d', evs)" "c \<in> set (agents_needing_poke e base d')" for c e0 agent ms d' evs
  proof
    assume same: "pc_agent_id c = normalize_agent_id agent"
    from that(1) have "messages d' = sql_update (unread_for (normalize_agent_id agent))
        (\<lambda>m. m\<lparr>m_read_at := Some (clock e0)\<rparr>) (messages d)"
      by (auto simp: drain_unread_def Let_def split: sum.splits)
    then have "filter (unread_for (normalize_agent_id agent)) (messages d') = []"
      by (simp add: filter_after_drain)
    with agents_needing_pokeD [OF that(2)] same show False by simp
  qed
  moreover have "pc_unread_count c = length (filter (unread_for (pc_agent_id c)) (messages d)) \<and> 0 < pc_unread_count c"
    if "c \<in> set (agents_needing_poke e base d)" for c
    using agents_needing_pokeD [OF that] poke_candidateD [of e "to_i64 base" d "pc_agent_id c" c] by simp
  ultimately show ?thesis by blast
qed

definition demo_unread :: db where
  "demo_unread = fst (snd (write_message \<lparr>clock = 5, uuid = (\<lambda>_. [])\<rparr> ''tl'' ''leaf'' ''hi'' None empty_db))"

section \<open>Migration\<close>

lemma normalize_agent_id_idem [simp]: "normalize_agent_id (normalize_agent_id a) = normalize_agent_id a"
  by (auto simp: normalize_agent_id_def after_last_def dest: set_takeWhileD split: option.splits if_splits)

lemma fold_update_by_id:
  assumes "distinct (map fst us)"
  shows "fold (\<lambda>(i, a). sql_update (\<lambda>m. m_id m = i) (\<lambda>m. m\<lparr>m_to_agent := a\<rparr>)) us ms =
     map (\<lambda>m. case map_of us (m_id m) of None \<Rightarrow> m | Some a \<Rightarrow> m\<lparr>m_to_agent := a\<rparr>) ms"
  using assms
proof (induction us arbitrary: ms)
  case (Cons u us)
  obtain i a where u: "u = (i, a)" by (cases u)
  with Cons.prems have "map_of us i = None" by (simp add: map_of_eq_None_iff)
  then show ?case using Cons u by (simp add: sql_update_def)
qed simp

lemma normalize_messages_map:
  assumes "distinct (map m_id ms)"
  shows "normalize_messages ms = map (\<lambda>m. m\<lparr>m_to_agent := normalize_agent_id (m_to_agent m)\<rparr>) ms"
proof -
  let ?p = "\<lambda>m. normalize_agent_id (m_to_agent m) \<noteq> m_to_agent m"
  have dist: "distinct (map fst (message_updates ms))"
    using assms by (simp add: message_updates_def comp_def distinct_map_filter)
  have "map_of (message_updates ms) (m_id m) = (if ?p m then Some (normalize_agent_id (m_to_agent m)) else None)"
    if "m \<in> set ms" for m
  proof (cases "?p m")
    case True
    with that show ?thesis using dist by (auto intro!: map_of_is_SomeI simp: message_updates_def)
  next
    case False
    have "m_id m \<notin> fst ` set (message_updates ms)"
      using False distinct_map_unique [OF assms that] by (auto simp: message_updates_def)
    with False show ?thesis by (simp add: map_of_eq_None_iff)
  qed
  then show ?thesis unfolding normalize_messages_def fold_update_by_id [OF dist] by (auto split: option.splits)
qed

text \<open>Merging into an ascending list of entries keeps it ascending.\<close>

lemma merge_meta_id [simp]: "a_agent_id (merge_meta x r) = a_agent_id x" "a_agent_id (default_meta k) = k"
  by (simp_all add: merge_meta_def default_meta_def)

lemma merge_entry_keys:
  "set (map a_agent_id (merge_entry k r xs)) = insert k (set (map a_agent_id xs))"
  by (induction xs) auto

lemma merge_entry_ascending:
  "sorted_wrt (<) (map a_agent_id xs) \<Longrightarrow> sorted_wrt (<) (map a_agent_id (merge_entry k r xs))"
proof (induction xs)
  case (Cons x xs)
  then show ?case using merge_entry_keys [of k r xs]
    by (auto simp del: set_map)
qed simp

lemma normalize_metas_shape:
  "sorted_wrt (<) (map a_agent_id (normalize_metas rs))
   \<and> (\<forall>k \<in> set (map a_agent_id (normalize_metas rs)). normalize_agent_id k = k)"
proof -
  have gen: "sorted_wrt (<) (map a_agent_id acc) \<Longrightarrow> (\<forall>k \<in> set (map a_agent_id acc). normalize_agent_id k = k) \<Longrightarrow>
      sorted_wrt (<) (map a_agent_id (fold (\<lambda>r. merge_entry (normalize_agent_id (a_agent_id r)) r) rs acc))
      \<and> (\<forall>k \<in> set (map a_agent_id (fold (\<lambda>r. merge_entry (normalize_agent_id (a_agent_id r)) r) rs acc)).
           normalize_agent_id k = k)" for acc
  proof (induction rs arbitrary: acc)
    case (Cons r rs)
    have "\<forall>k \<in> set (map a_agent_id (merge_entry (normalize_agent_id (a_agent_id r)) r acc)). normalize_agent_id k = k"
      using Cons.prems(2) unfolding merge_entry_keys by simp
    then show ?case unfolding fold_Cons comp_apply
      by (rule Cons.IH [OF merge_entry_ascending [OF Cons.prems(1)]])
  qed simp
  show ?thesis unfolding normalize_metas_def by (rule gen) simp_all
qed

lemma merge_default: "merge_meta (default_meta (a_agent_id r)) r = r"
proof -
  have "max_option None x = x" for x by (cases x) auto
  then show ?thesis by (simp add: merge_meta_def default_meta_def)
qed

lemma merge_entry_last:
  "(\<And>x. x \<in> set xs \<Longrightarrow> a_agent_id x < k) \<Longrightarrow> merge_entry k r xs = xs @ [merge_meta (default_meta k) r]"
  by (induction xs) (auto dest: order_less_not_sym)

lemma normalize_metas_fix:
  assumes "sorted_wrt (<) (map a_agent_id rs)"
    and "\<And>r. r \<in> set rs \<Longrightarrow> normalize_agent_id (a_agent_id r) = a_agent_id r"
  shows "normalize_metas rs = rs"
proof -
  have "sorted_wrt (<) (map a_agent_id (acc @ rs)) \<Longrightarrow> (\<And>r. r \<in> set rs \<Longrightarrow> normalize_agent_id (a_agent_id r) = a_agent_id r) \<Longrightarrow>
      fold (\<lambda>r. merge_entry (normalize_agent_id (a_agent_id r)) r) rs acc = acc @ rs" for acc
  proof (induction rs arbitrary: acc)
    case (Cons r rs)
    have "merge_entry (a_agent_id r) r acc = acc @ [r]"
      using Cons.prems(1) merge_default [of r] by (subst merge_entry_last) (auto simp: sorted_wrt_append)
    moreover have "sorted_wrt (<) (map a_agent_id ((acc @ [r]) @ rs))" using Cons.prems(1) by simp
    ultimately show ?case using Cons.IH [of "acc @ [r]"] Cons.prems(2) by simp
  qed simp
  from this [of "[]"] assms show ?thesis by (simp add: normalize_metas_def)
qed

definition migrated_row :: "message_row \<Rightarrow> message_row" where
  "migrated_row m = (let a = normalize_agent_id (m_to_agent m) in
     m\<lparr>m_to_agent := (if legacy_branch a then ''root'' else a)\<rparr>)"

lemma migrate_messages:
  "distinct (map m_id (messages d)) \<Longrightarrow> messages (migrate d) = map migrated_row (messages d)"
  unfolding migrate_def remap_legacy_branch_recipients_def normalize_existing_agent_ids_def
  by (simp add: normalize_messages_map sql_update_def migrated_row_def Let_def comp_def)

lemma migrate_frame: "batches (migrate d) = batches d" "items (migrate d) = items d"
  by (simp_all add: migrate_def remap_legacy_branch_recipients_def normalize_existing_agent_ids_def)

text \<open>The migration is idempotent and complete: run again it changes nothing; afterwards every
  message is addressed to a bare agent name that is not one of the legacy branch names, and the
  metadata has one row per agent; no message is lost, and nothing but recipients changed.\<close>

lemma migrate_idempotent:
  assumes "distinct (map m_id (messages d))"
  shows "migrate (migrate d) = migrate d
     \<and> (\<forall>m \<in> set (messages (migrate d)). normalize_agent_id (m_to_agent m) = m_to_agent m \<and> \<not> legacy_branch (m_to_agent m))
     \<and> distinct (map a_agent_id (metas (migrate d)))
     \<and> map (\<lambda>m. m\<lparr>m_to_agent := []\<rparr>) (messages (migrate d)) = map (\<lambda>m. m\<lparr>m_to_agent := []\<rparr>) (messages d)
     \<and> batches (migrate d) = batches d \<and> items (migrate d) = items d"
proof -
  have root: "\<not> legacy_branch ''root''" "normalize_agent_id ''root'' = ''root''"
    by (simp_all add: legacy_branch_def normalize_agent_id_def after_last_def)
  have meta: "metas (migrate x) = filter (\<lambda>a. \<not> legacy_branch (a_agent_id a)) (normalize_metas (metas x))" for x
    by (simp add: migrate_def remap_legacy_branch_recipients_def normalize_existing_agent_ids_def)
  have ids: "m_id (migrated_row m) = m_id m" "migrated_row (migrated_row m) = migrated_row m" "(migrated_row m)\<lparr>m_to_agent := []\<rparr> = m\<lparr>m_to_agent := []\<rparr>"
    "normalize_agent_id (m_to_agent (migrated_row m)) = m_to_agent (migrated_row m)" "\<not> legacy_branch (m_to_agent (migrated_row m))" for m
    using root by (auto simp: migrated_row_def Let_def)
  have dist': "distinct (map m_id (messages (migrate d)))" using assms by (simp add: migrate_messages [OF assms] comp_def ids)
  have shape: "sorted_wrt (<) (map a_agent_id (metas (migrate d)))"
    "\<And>r. r \<in> set (metas (migrate d)) \<Longrightarrow> normalize_agent_id (a_agent_id r) = a_agent_id r \<and> \<not> legacy_branch (a_agent_id r)"
    using normalize_metas_shape [of "metas d"]
    by (auto simp: meta sorted_wrt_map sorted_wrt_filter)
  have "metas (migrate (migrate d)) = metas (migrate d)"
    using shape normalize_metas_fix [OF shape(1)] by (subst meta) (auto intro: filter_True)
  moreover have "messages (migrate (migrate d)) = messages (migrate d)"
    by (simp add: migrate_messages [OF dist'] migrate_messages [OF assms] ids)
  ultimately have "migrate (migrate d) = migrate d" by (simp add: migrate_frame)
  moreover have "distinct (map a_agent_id (metas (migrate d)))"
    using shape(1) by (simp add: strict_sorted_iff)
  ultimately show ?thesis by (simp add: migrate_messages [OF assms] migrate_frame ids comp_def)
qed

end
