(* ===== verification/Guidance_Shadow.thy ===== *)
theory Guidance_Shadow
  imports Inbox_Properties
begin

text \<open>
  The shadow comparison of a durable batch with its legacy inbox message,
  \<^verbatim>\<open>services/guidance_shadow.rs\<close>, and the compatible enqueue of
  \<^verbatim>\<open>services/guidance_queue.rs\<close> that writes both in one transaction. The SHA-256 digest of
  the \<^verbatim>\<open>sha2\<close> crate is the parameter \<open>digest\<close> of the definitions; nothing is assumed of it.
\<close>

record shadow_legacy =
  sl_message_id :: int
  sl_from_agent :: string
  sl_to_agent :: string
  sl_content_digest :: string
  sl_summary_digest :: "string option"
  sl_read :: bool

record shadow_queue =
  sq_batch_id :: string
  sq_item_ids :: "string list"
  sq_source_message_id :: "int option"
  sq_agent_id :: string
  sq_queue_class :: queue_class
  sq_queue_seq :: int
  sq_state :: gstate
  sq_identity :: guidance_identity
  sq_item_count :: nat
  sq_item_from_agent :: "string option"
  sq_item_content_digest :: "string option"
  sq_item_summary_digest :: "string option"

datatype shadow_diff =
    QueueBatchMissing
  | LegacySourcePointerMissing
  | LegacyMessageMissing
  | TargetAgentMismatch
  | SenderMismatch
  | ContentMismatch
  | SummaryMismatch
  | BatchShapeMismatch

fun diff_str :: "shadow_diff \<Rightarrow> string" where
  "diff_str QueueBatchMissing = ''queue_batch_missing''"
| "diff_str LegacySourcePointerMissing = ''legacy_source_pointer_missing''"
| "diff_str LegacyMessageMissing = ''legacy_message_missing''"
| "diff_str TargetAgentMismatch = ''target_agent_mismatch''"
| "diff_str SenderMismatch = ''sender_mismatch''"
| "diff_str ContentMismatch = ''content_mismatch''"
| "diff_str SummaryMismatch = ''summary_mismatch''"
| "diff_str BatchShapeMismatch = ''batch_shape_mismatch''"

record shadow_comparison =
  sc_queue :: "shadow_queue option"
  sc_legacy :: "shadow_legacy option"
  sc_diffs :: "shadow_diff list"

definition in_sync :: "shadow_comparison \<Rightarrow> bool" where
  "in_sync c \<longleftrightarrow> sc_diffs c = []"

definition diff_count :: "shadow_comparison \<Rightarrow> nat" where
  "diff_count c = length (sc_diffs c)"

definition first_item :: "guidance_batch \<Rightarrow> item_row option" where
  "first_item b = (case gb_items b of [] \<Rightarrow> None | i # _ \<Rightarrow> Some i)"

definition queue_projection :: "(string \<Rightarrow> string) \<Rightarrow> guidance_batch \<Rightarrow> shadow_queue" where
  "queue_projection digest b =
     (let r = gb_row b in
      \<lparr>sq_batch_id = b_batch_id r, sq_item_ids = map i_item_id (gb_items b),
       sq_source_message_id = b_source_message_id r, sq_agent_id = b_agent_id r,
       sq_queue_class = b_queue_class r, sq_queue_seq = b_queue_seq r, sq_state = b_state r,
       sq_identity = b_identity r, sq_item_count = length (gb_items b),
       sq_item_from_agent = map_option i_from_agent (first_item b),
       sq_item_content_digest = map_option (\<lambda>i. digest (i_content i)) (first_item b),
       sq_item_summary_digest = Option.bind (first_item b) (\<lambda>i. map_option digest (i_summary i))\<rparr>)"

definition legacy_projection :: "(string \<Rightarrow> string) \<Rightarrow> message_row \<Rightarrow> shadow_legacy" where
  "legacy_projection digest m =
     \<lparr>sl_message_id = m_id m, sl_from_agent = m_from_agent m, sl_to_agent = m_to_agent m,
      sl_content_digest = digest (m_content m), sl_summary_digest = map_option digest (m_summary m),
      sl_read = (m_read_at m \<noteq> None)\<rparr>"

definition item_diffs :: "(string \<Rightarrow> string) \<Rightarrow> shadow_legacy \<Rightarrow> guidance_batch \<Rightarrow> shadow_diff list" where
  "item_diffs digest l b =
     (if length (gb_items b) \<noteq> 1 then [BatchShapeMismatch]
      else case first_item b of
        None \<Rightarrow> []
      | Some i \<Rightarrow>
          (if sl_from_agent l \<noteq> i_from_agent i then [SenderMismatch] else []) @
          (if sl_content_digest l \<noteq> digest (i_content i) then [ContentMismatch] else []) @
          (if sl_summary_digest l \<noteq> map_option digest (i_summary i) then [SummaryMismatch] else []))"

definition compare_loaded_batch :: "(string \<Rightarrow> string) \<Rightarrow> db \<Rightarrow> guidance_batch \<Rightarrow> shadow_comparison" where
  "compare_loaded_batch digest d b =
     (let q = queue_projection digest b in
      case b_source_message_id (gb_row b) of
        None \<Rightarrow> \<lparr>sc_queue = Some q, sc_legacy = None, sc_diffs = [LegacySourcePointerMissing]\<rparr>
      | Some mid \<Rightarrow>
          (case find (\<lambda>m. m_id m = mid) (messages d) of
             None \<Rightarrow> \<lparr>sc_queue = Some q, sc_legacy = None, sc_diffs = [LegacyMessageMissing]\<rparr>
           | Some m \<Rightarrow>
               (let l = legacy_projection digest m in
                \<lparr>sc_queue = Some q, sc_legacy = Some l,
                 sc_diffs = (if sl_to_agent l \<noteq> b_agent_id (gb_row b) then [TargetAgentMismatch] else [])
                   @ item_diffs digest l b\<rparr>)))"

definition compare_batch :: "(string \<Rightarrow> string) \<Rightarrow> db \<Rightarrow> string \<Rightarrow> gq_error + shadow_comparison" where
  "compare_batch digest d bid =
     bindR (inspect_batch d bid) (\<lambda>found.
       Inr (case found of
              None \<Rightarrow> \<lparr>sc_queue = None, sc_legacy = None, sc_diffs = [QueueBatchMissing]\<rparr>
            | Some b \<Rightarrow> compare_loaded_batch digest d b))"

definition emit_comparison :: "shadow_comparison \<Rightarrow> mirror_event" where
  "emit_comparison c =
     (let q = sc_queue c; str = (\<lambda>f. json_opt JStr (Option.bind q f)) in
      (state_changed,
       JObj [(''operation'', JStr ''shadow_compare''),
             (''batch_id'', str (\<lambda>x. Some (sq_batch_id x))),
             (''item_ids'', json_opt (\<lambda>x. JArr (map JStr (sq_item_ids x))) q),
             (''item_id'', str (\<lambda>x. case sq_item_ids x of [i] \<Rightarrow> Some i | _ \<Rightarrow> None)),
             (''source_message_id'', json_opt JInt (Option.bind q sq_source_message_id)),
             (''agent_id'', str (\<lambda>x. Some (sq_agent_id x))),
             (''queue_class'', str (\<lambda>x. Some (class_str (sq_queue_class x)))),
             (''queue_seq'', json_opt (\<lambda>x. JInt (sq_queue_seq x)) q),
             (''run_id'', str (\<lambda>x. gi_run_id (sq_identity x))),
             (''session_id'', str (\<lambda>x. gi_session_id (sq_identity x))),
             (''invocation_id'', str (\<lambda>x. gi_invocation_id (sq_identity x))),
             (''generation'', json_opt (\<lambda>n. JInt (int n)) (Option.bind q (\<lambda>x. gi_generation (sq_identity x)))),
             (''runtime'', str (\<lambda>x. gi_runtime (sq_identity x))),
             (''harness'', str (\<lambda>x. gi_harness (sq_identity x))),
             (''role'', str (\<lambda>x. gi_role (sq_identity x))),
             (''in_sync'', JBool (in_sync c)), (''diff_count'', JInt (int (diff_count c))),
             (''diffs'', JArr (map (\<lambda>x. JStr (diff_str x)) (sc_diffs c)))]))"

section \<open>The compatible enqueue\<close>

text \<open>The tail both branches share: compare the committed batch and mirror the comparison. An error
  here is returned although the transaction was committed.\<close>

definition compat_finish ::
    "(string \<Rightarrow> string) \<Rightarrow> enqueue_result \<Rightarrow> db \<Rightarrow> mirror_event list \<Rightarrow>
     (gq_error + enqueue_result) \<times> db \<times> mirror_event list" where
  "compat_finish digest res d evs =
     (case compare_batch digest d (b_batch_id (gb_row (er_batch res))) of
        Inl err \<Rightarrow> (Inl err, d, evs)
      | Inr c \<Rightarrow> (Inr res, d, evs @ [emit_comparison c]))"

definition compat_events ::
    "call_env \<Rightarrow> int \<Rightarrow> string \<Rightarrow> string \<Rightarrow> string \<Rightarrow> string option \<Rightarrow> enqueue_result \<Rightarrow> mirror_event list" where
  "compat_events e mid sender receiver content summary res =
     [(state_changed,
       with_batch_identity
         (JObj [(''operation'', JStr ''write_message''), (''message_id'', JInt mid),
                (''from_agent'', JStr sender), (''to_agent'', JStr receiver),
                (''content'', JStr content), (''summary'', json_opt JStr summary),
                (''created_at'', JInt (clock e))]) (er_batch res)),
      (''message.delivery'',
       with_batch_identity
         (JObj [(''message_id'', JInt mid), (''from_agent'', JStr sender),
                (''to_agent'', JStr receiver), (''attempt'', JInt 1),
                (''outcome'', JStr ''accepted''), (''transport'', JStr ''durable_inbox'')])
         (er_batch res))]"

definition compat_transaction ::
    "call_env \<Rightarrow> batch_request \<Rightarrow> string \<Rightarrow> string \<Rightarrow> string \<Rightarrow> string option \<Rightarrow> db \<Rightarrow>
     gq_error + (int \<times> enqueue_result \<times> db)" where
  "compat_transaction e rq agent sender content summary d =
     (let (mid, d1) = insert_message e sender (normalize_agent_id agent) content summary d in
      bindR (enqueue_batch_in_transaction e (rq\<lparr>rq_source_message_id := Some mid\<rparr>) agent d1)
        (\<lambda>(res, d2). Inr (mid, res, d2)))"

definition enqueue_batch_with_compatibility ::
    "(string \<Rightarrow> string) \<Rightarrow> call_env \<Rightarrow> batch_request \<Rightarrow> string \<Rightarrow> string \<Rightarrow> string option \<Rightarrow> db \<Rightarrow>
     (gq_error + enqueue_result) \<times> db \<times> mirror_event list" where
  "enqueue_batch_with_compatibility digest e rq sender content summary d =
     (let agent = normalize_agent_id (rq_agent_id rq) in
      case bindR (validate_batch_request rq) (\<lambda>_.
           bindR (validate_identity sender ''sender agent'') (\<lambda>_.
             case rq_idempotency_key rq of
               None \<Rightarrow> Inr None
             | Some key \<Rightarrow> find_idempotent_batch d agent key (rq_queue_class rq))) of
        Inl err \<Rightarrow> (Inl err, d, [])
      | Inr (Some bid) \<Rightarrow>
          (case load_batch d bid of
             Inl err \<Rightarrow> (Inl err, d, [])
           | Inr b \<Rightarrow> compat_finish digest \<lparr>er_batch = b, er_created = False\<rparr> d [])
      | Inr None \<Rightarrow>
          (case compat_transaction e rq agent sender content summary d of
             Inl err \<Rightarrow> (Inl err, d, [])
           | Inr (mid, res, d') \<Rightarrow>
               compat_finish digest res d'
                 (compat_events e mid sender (normalize_agent_id agent) content summary res
                  @ append_enqueue_event res)))"

section \<open>The two projections agree\<close>

lemma compat_finish_InrD:
  "compat_finish digest res d evs = (Inr r, d', evs') \<Longrightarrow> r = res \<and> d' = d"
  by (auto simp: compat_finish_def split: sum.splits)

lemma compat_createdD:
  assumes run: "enqueue_batch_with_compatibility digest e rq sender content summary d = (Inr res, d', evs)"
    and created: "er_created res"
  defines "agent \<equiv> normalize_agent_id (rq_agent_id rq)"
  shows "validate_batch_request rq = Inr ()
     \<and> (\<exists>mid. compat_transaction e rq agent sender content summary d = Inr (mid, res, d')
          \<and> (rq_idempotency_key rq = None \<or>
             (\<exists>key. rq_idempotency_key rq = Some key
                \<and> find_idempotent_batch d agent key (rq_queue_class rq) = Inr None)))
     \<and> is_ok (compare_batch digest d' (b_batch_id (gb_row (er_batch res))))"
proof -
  define v where "v = bindR (validate_batch_request rq) (\<lambda>_.
           bindR (validate_identity sender ''sender agent'') (\<lambda>_.
             case rq_idempotency_key rq of
               None \<Rightarrow> Inr None
             | Some key \<Rightarrow> find_idempotent_batch d agent key (rq_queue_class rq)))"
  note run' = run [unfolded enqueue_batch_with_compatibility_def Let_def, folded agent_def, folded v_def]
  from run' created have v: "v = Inr None"
    by (auto simp: compat_finish_def split: sum.splits option.splits)
  with run' obtain mid res' d2 evs2 where tx: "compat_transaction e rq agent sender content summary d = Inr (mid, res', d2)"
    and fin: "compat_finish digest res' d2 evs2 = (Inr res, d', evs)"
    by (auto split: sum.splits prod.splits)
  from compat_finish_InrD [OF fin] have eq: "res' = res" "d2 = d'" by auto
  from fin have "is_ok (compare_batch digest d2 (b_batch_id (gb_row (er_batch res'))))"
    by (auto simp: compat_finish_def split: sum.splits)
  with v tx eq show ?thesis by (auto simp: v_def split: option.splits)
qed

lemma compat_transactionD:
  assumes inv: "gq_inv d" and tx: "compat_transaction e rq agent sender content summary d = Inr (mid, res, d')"
    and valid: "validate_batch_request rq = Inr ()"
    and fresh: "rq_idempotency_key rq = None \<or>
      (\<exists>key. rq_idempotency_key rq = Some key \<and> find_idempotent_batch d agent key (rq_queue_class rq) = Inr None)"
  defines "rq' \<equiv> rq\<lparr>rq_source_message_id := Some mid\<rparr>"
  shows "gq_inv d' \<and> batch_items d' (uuid e 0) = item_rows e 0 (rq_items rq)
     \<and> er_batch res = loaded d' (new_batch_row e rq' agent (next_queue_seq d agent))
     \<and> row_of d' (uuid e 0) = Some (new_batch_row e rq' agent (next_queue_seq d agent))
     \<and> find (\<lambda>m. m_id m = mid) (messages d') = Some
         \<lparr>m_id = mid, m_from_agent = sender, m_to_agent = normalize_agent_id agent, m_content = content,
          m_summary = summary, m_created_at = clock e, m_notified_at = None, m_read_at = None\<rparr>
     \<and> messages d' = messages d @
         [\<lparr>m_id = mid, m_from_agent = sender, m_to_agent = normalize_agent_id agent, m_content = content,
           m_summary = summary, m_created_at = clock e, m_notified_at = None, m_read_at = None\<rparr>]"
proof -
  define m where "m = \<lparr>m_id = mid, m_from_agent = sender, m_to_agent = normalize_agent_id agent, m_content = content,
          m_summary = summary, m_created_at = clock e, m_notified_at = None, m_read_at = None\<rparr>"
  define d1 where "d1 = d\<lparr>messages := messages d @ [m]\<rparr>"
  from tx have mid: "mid = next_message_id (messages d)"
    and etx: "enqueue_batch_in_transaction e rq' agent d1 = Inr (res, d')"
    by (auto simp: compat_transaction_def insert_message_def Let_def m_def d1_def rq'_def)
  have inv1: "gq_inv d1" using gq_inv_frame [of d1 d] inv by (simp add: d1_def)
  have seq: "next_queue_seq d1 agent = next_queue_seq d agent" by (simp add: d1_def next_queue_seq_def)
  have "(case rq_idempotency_key rq' of None \<Rightarrow> Inr None
      | Some key \<Rightarrow> find_idempotent_batch d1 agent key (rq_queue_class rq')) = Inr None"
    using fresh by (auto simp: rq'_def d1_def find_idempotent_batch_def)
  with etx have ins: "insert_new_batch e rq' agent d1 = Inr (res, d')"
    by (simp add: enqueue_batch_in_transaction_def)
  let ?row = "new_batch_row e rq' agent (next_queue_seq d agent)"
  from insert_new_batch_InrD [OF ins] seq have bs: "batches d' = batches d1 @ [?row]"
    and msgs: "messages d' = messages d1" and load: "load_batch d' (uuid e 0) = Inr (er_batch res)" by auto
  from gq_inv_insert [OF inv1 ins] validate_batch_request_Inr [OF valid]
  have inv': "gq_inv d'" and its: "batch_items d' (uuid e 0) = item_rows e 0 (rq_items rq)"
    by (auto simp: rq'_def)
  have row: "row_of d' (uuid e 0) = Some ?row" using row_of_in [OF inv', of ?row] bs by simp
  with load inv' have b: "er_batch res = loaded d' ?row" using gq_inv_load by fastforce
  have "find (\<lambda>x. m_id x = mid) (messages d) = None"
    using mid by (auto simp: find_None_iff dest: next_message_id_gt)
  then have "find (\<lambda>x. m_id x = mid) (messages d') = Some m"
    by (simp add: msgs d1_def find_append m_def)
  moreover have "messages d' = messages d @ [m]" by (simp add: msgs d1_def)
  ultimately show ?thesis using inv' its b row by (simp add: m_def)
qed

text \<open>Whatever it returns, the call leaves the database alone or adds one unread message behind the others, and
  it keeps the invariant of the queue; a difference of the projections is reported after the commit.\<close>

lemma compat_messages:
  assumes inv: "gq_inv d"
    and run: "enqueue_batch_with_compatibility digest e rq sender content summary d = (r, d', evs)"
  shows "d' = d \<or> (\<exists>m. messages d' = messages d @ [m] \<and> gq_inv d' \<and> m_id m = next_message_id (messages d)
    \<and> m_read_at m = None \<and> m_notified_at m = None)"
proof (cases "d' = d")
  case False
  let ?agent = "normalize_agent_id (rq_agent_id rq)"
  have fin: "d2 = d3" if "compat_finish digest res d2 evs2 = (r2, d3, evs3)" for res d2 d3 r2 evs2 evs3
    using that by (auto simp: compat_finish_def split: sum.splits)
  define v where "v = bindR (validate_batch_request rq) (\<lambda>_.
           bindR (validate_identity sender ''sender agent'') (\<lambda>_.
             case rq_idempotency_key rq of
               None \<Rightarrow> Inr None
             | Some key \<Rightarrow> find_idempotent_batch d ?agent key (rq_queue_class rq)))"
  note run' = run [unfolded enqueue_batch_with_compatibility_def Let_def, folded v_def]
  from run' False have v: "v = Inr None"
    by (auto split: sum.splits option.splits dest: fin)
  with run' False obtain mid res d2 where tx: "compat_transaction e rq ?agent sender content summary d = Inr (mid, res, d2)"
    and "d2 = d'" by (auto split: sum.splits prod.splits dest: fin)
  moreover from v have "validate_batch_request rq = Inr ()"
    "rq_idempotency_key rq = None \<or>
      (\<exists>key. rq_idempotency_key rq = Some key \<and> find_idempotent_batch d ?agent key (rq_queue_class rq) = Inr None)"
    by (auto simp: v_def split: option.splits)
  ultimately have "gq_inv d'" "messages d' = messages d @
         [\<lparr>m_id = mid, m_from_agent = sender, m_to_agent = normalize_agent_id ?agent, m_content = content,
           m_summary = summary, m_created_at = clock e, m_notified_at = None, m_read_at = None\<rparr>]"
    using compat_transactionD [OF inv, of e rq ?agent sender content summary mid res d'] by auto
  moreover have "mid = next_message_id (messages d)"
    using tx by (auto simp: compat_transaction_def insert_message_def Let_def)
  ultimately show ?thesis by auto
qed simp

text \<open>A compatible enqueue leaves the two projections in sync: when it creates a batch whose one item
  carries the sender, text and summary of the legacy message, the batch points at that message and
  the comparison finds no difference, whatever the digest function is.\<close>

theorem compatible_enqueue_in_sync:
  assumes "gq_inv d" and "rq_items rq = [i]" and "ii_from_agent i = sender" and "ii_content i = content"
    and "ii_summary i = summary" and "er_created res"
    and "enqueue_batch_with_compatibility digest e rq sender content summary d = (Inr res, d', evs)"
  shows "gq_inv d' \<and> (\<exists>c m. compare_batch digest d' (b_batch_id (gb_row (er_batch res))) = Inr c \<and> in_sync c
     \<and> m \<in> set (messages d') \<and> b_source_message_id (gb_row (er_batch res)) = Some (m_id m)
     \<and> m_read_at m = None \<and> m_to_agent m = b_agent_id (gb_row (er_batch res)))"
proof -
  let ?agent = "normalize_agent_id (rq_agent_id rq)"
  from compat_createdD [OF assms(7,6)] obtain mid where
      valid: "validate_batch_request rq = Inr ()"
      and tx: "compat_transaction e rq ?agent sender content summary d = Inr (mid, res, d')"
      and fresh: "rq_idempotency_key rq = None \<or>
        (\<exists>key. rq_idempotency_key rq = Some key \<and> find_idempotent_batch d ?agent key (rq_queue_class rq) = Inr None)"
      and ok: "is_ok (compare_batch digest d' (b_batch_id (gb_row (er_batch res))))" by blast
  note D = compat_transactionD [OF assms(1) tx valid fresh]
  let ?row = "new_batch_row e (rq\<lparr>rq_source_message_id := Some mid\<rparr>) ?agent (next_queue_seq d ?agent)"
  let ?m = "\<lparr>m_id = mid, m_from_agent = sender, m_to_agent = normalize_agent_id ?agent, m_content = content,
          m_summary = summary, m_created_at = clock e, m_notified_at = None, m_read_at = None\<rparr>"
  from D have res: "er_batch res = loaded d' ?row" and row: "row_of d' (uuid e 0) = Some ?row"
    and msg: "find (\<lambda>m. m_id m = mid) (messages d') = Some ?m"
    and its: "batch_items d' (uuid e 0) = [new_item_row e 0 i]" and inv': "gq_inv d'"
    using assms(2) by auto
  from ok res obtain found where "inspect_batch d' (uuid e 0) = Inr found"
    by (auto simp: compare_batch_def is_ok_iff)
  then have "load_batch_optional d' (uuid e 0) = Inr found" and "inspect_batch d' (uuid e 0) = Inr found"
    by (auto simp: inspect_batch_def)
  with load_batch_optional_InrD row have "inspect_batch d' (uuid e 0) = Inr (Some (loaded d' ?row))" by fastforce
  then have "compare_batch digest d' (uuid e 0) = Inr (compare_loaded_batch digest d' (loaded d' ?row))"
    by (simp add: compare_batch_def)
  moreover have "in_sync (compare_loaded_batch digest d' (loaded d' ?row))"
    using assms(3-5) msg its
    by (simp add: compare_loaded_batch_def in_sync_def item_diffs_def first_item_def legacy_projection_def
        new_item_row_def Let_def)
  moreover have "?m \<in> set (messages d')" using msg by (auto dest: find_key_SomeD)
  ultimately show ?thesis using inv' res
    by (intro conjI exI [of _ "compare_loaded_batch digest d' (loaded d' ?row)"] exI [of _ ?m]) simp_all
qed

definition compat_request :: batch_request where
  "compat_request = \<lparr>rq_agent_id = ''leaf'', rq_queue_class = FollowUp,
     rq_items = [\<lparr>ii_from_agent = ''tl'', ii_content = ''hi'', ii_summary = None, ii_injection_options = JNull\<rparr>],
     rq_identity = no_identity, rq_idempotency_key = None, rq_source_message_id = None\<rparr>"

definition compat_env :: call_env where
  "compat_env = \<lparr>clock = 7, uuid = (\<lambda>n. replicate (Suc n) (CHR ''u''))\<rparr>"

theorem compatible_enqueue_in_sync_witness:
  "\<exists>res d' evs. enqueue_batch_with_compatibility rev compat_env compat_request ''tl'' ''hi'' None empty_db = (Inr res, d', evs)
     \<and> gq_inv d' \<and> (\<exists>c. compare_batch rev d' (b_batch_id (gb_row (er_batch res))) = Inr c \<and> in_sync c)"
proof -
  let ?x = "enqueue_batch_with_compatibility rev compat_env compat_request ''tl'' ''hi'' None empty_db"
  have "case fst ?x of Inl _ \<Rightarrow> False | Inr res \<Rightarrow> er_created res" by code_simp
  then obtain res where res: "fst ?x = Inr res" "er_created res" by (auto split: sum.splits)
  then have run: "?x = (Inr res, fst (snd ?x), snd (snd ?x))" by (metis prod.collapse)
  have items: "rq_items compat_request = [\<lparr>ii_from_agent = ''tl'', ii_content = ''hi'', ii_summary = None,
      ii_injection_options = JNull\<rparr>]" by (simp add: compat_request_def)
  from compatible_enqueue_in_sync [OF gq_inv_empty items _ _ _ res(2) run] run show ?thesis by fastforce
qed

end
