(* ===== verification/Inbox_Run.thy ===== *)
theory Inbox_Run
  imports Guidance_Shadow
begin

text \<open>
  Runs of all calls of \<^verbatim>\<open>services/inbox_store.rs\<close> and \<^verbatim>\<open>services/guidance_queue.rs\<close> that
  write to the shared database: the calls of the queue, writing, peeking, draining and poking, the enqueue
  that also writes a message, the migration at every opening of the store, and clearing the store, after
  which SQLite gives out the row identifiers again. Every message is read at most once and none is
  lost but by clearing.
\<close>

section \<open>The machine\<close>

text \<open>The identifiers of the messages written, returned by a peek and returned by a drain since the store was
  last cleared; for each time it was cleared these lists as they stood and the messages unread then. The code
  stores none of them.\<close>

record inbox_epoch =
  ep_written :: "int list"
  ep_notified :: "int list"
  ep_drained :: "int list"
  ep_abandoned :: "int list"

record inbox_run =
  ir_db :: db
  ir_written :: "int list"
  ir_notified :: "int list"
  ir_drained :: "int list"
  ir_cleared :: "inbox_epoch list"

definition unread_ids :: "db \<Rightarrow> int list" where
  "unread_ids d = map m_id (filter (\<lambda>m. m_read_at m = None) (messages d))"

definition added_ids :: "db \<Rightarrow> db \<Rightarrow> int list" where
  "added_ids d d' = map m_id (drop (length (messages d)) (messages d'))"

definition this_epoch :: "inbox_run \<Rightarrow> inbox_epoch" where
  "this_epoch s = \<lparr>ep_written = ir_written s, ep_notified = ir_notified s, ep_drained = ir_drained s,
     ep_abandoned = unread_ids (ir_db s)\<rparr>"

inductive inbox_step :: "inbox_run \<Rightarrow> inbox_run \<Rightarrow> bool" where
  step_write: "write_message e sender receiver content summary (ir_db s) = (i, d', evs) \<Longrightarrow>
     inbox_step s (s\<lparr>ir_db := d', ir_written := ir_written s @ [i]\<rparr>)"
| step_compatible: "enqueue_batch_with_compatibility digest e rq sender content summary (ir_db s) = (res, d', evs) \<Longrightarrow>
     inbox_step s (s\<lparr>ir_db := d', ir_written := ir_written s @ added_ids (ir_db s) d'\<rparr>)"
| step_peek: "peek_unnotified e agent (ir_db s) = (ms, d', evs) \<Longrightarrow>
     inbox_step s (s\<lparr>ir_db := d', ir_notified := ir_notified s @ map m_id ms\<rparr>)"
| step_drain: "drain_unread e agent (ir_db s) = (Inr ms, d', evs) \<Longrightarrow>
     inbox_step s (s\<lparr>ir_db := d', ir_drained := ir_drained s @ map m_id ms\<rparr>)"
| step_poke: "record_poke e agent newest base limit (ir_db s) = (d', evs) \<Longrightarrow> inbox_step s (s\<lparr>ir_db := d'\<rparr>)"
| step_queue: "gq_exec e call (ir_db s) = (returned, d', evs) \<Longrightarrow> inbox_step s (s\<lparr>ir_db := d'\<rparr>)"
| step_open: "inbox_step s (s\<lparr>ir_db := migrate (ir_db s)\<rparr>)"
| step_clear: "clear_all (ir_db s) = (d', evs) \<Longrightarrow>
     inbox_step s \<lparr>ir_db = d', ir_written = [], ir_notified = [], ir_drained = [],
       ir_cleared = ir_cleared s @ [this_epoch s]\<rparr>"

definition inbox_start :: "inbox_run \<Rightarrow> bool" where
  "inbox_start s \<longleftrightarrow> s = \<lparr>ir_db = empty_db, ir_written = [], ir_notified = [], ir_drained = [], ir_cleared = []\<rparr>"

section \<open>Invariant\<close>

text \<open>What holds between two clearings: nothing is drained or peeked twice, and the messages written are those
  drained and those left unread.\<close>

definition once :: "inbox_epoch \<Rightarrow> bool" where
  "once ep \<longleftrightarrow> distinct (ep_written ep) \<and> distinct (ep_drained ep) \<and> distinct (ep_notified ep)
     \<and> set (ep_written ep) = set (ep_drained ep) \<union> set (ep_abandoned ep)
     \<and> set (ep_drained ep) \<inter> set (ep_abandoned ep) = {}"

definition ids_where :: "(message_row \<Rightarrow> bool) \<Rightarrow> db \<Rightarrow> int set" where
  "ids_where p d = set (map m_id (filter p (messages d)))"

definition inbox_inv :: "inbox_run \<Rightarrow> bool" where
  "inbox_inv s \<longleftrightarrow> gq_inv (ir_db s) \<and> map m_id (messages (ir_db s)) = ir_written s
     \<and> distinct (ir_written s) \<and> distinct (ir_drained s) \<and> distinct (ir_notified s)
     \<and> set (ir_drained s) = ids_where (\<lambda>m. m_read_at m \<noteq> None) (ir_db s)
     \<and> set (ir_notified s) = ids_where (\<lambda>m. m_notified_at m \<noteq> None) (ir_db s)
     \<and> (\<forall>ep \<in> set (ir_cleared s). once ep)"

lemma inbox_invI:
  assumes "gq_inv (ir_db s)" and "map m_id (messages (ir_db s)) = ir_written s" and "distinct (ir_written s)"
    and "distinct (ir_drained s) \<and> set (ir_drained s) = ids_where (\<lambda>m. m_read_at m \<noteq> None) (ir_db s)"
    and "distinct (ir_notified s) \<and> set (ir_notified s) = ids_where (\<lambda>m. m_notified_at m \<noteq> None) (ir_db s)"
    and "\<forall>ep \<in> set (ir_cleared s). once ep"
  shows "inbox_inv s"
  using assms by (simp add: inbox_inv_def)

lemma inbox_invD:
  assumes "inbox_inv s"
  shows "gq_inv (ir_db s)" and "map m_id (messages (ir_db s)) = ir_written s" and "distinct (ir_written s)"
    and "distinct (ir_drained s) \<and> set (ir_drained s) = ids_where (\<lambda>m. m_read_at m \<noteq> None) (ir_db s)"
    and "distinct (ir_notified s) \<and> set (ir_notified s) = ids_where (\<lambda>m. m_notified_at m \<noteq> None) (ir_db s)"
    and "\<forall>ep \<in> set (ir_cleared s). once ep"
  using assms by (simp_all add: inbox_inv_def)

lemma ids_where_map:
  assumes "messages d' = map h (messages d)" and "\<And>m. m_id (h m) = m_id m"
  shows "map m_id (messages d') = map m_id (messages d)"
    and "ids_where q d' = ids_where (\<lambda>m. q (h m)) d"
  using assms by (simp_all add: ids_where_def filter_map comp_def)

text \<open>A marking that sets a column of exactly the rows selected by \<open>p\<close>, all of which had it empty.\<close>

lemma mark_ids:
  assumes dist: "distinct (map m_id (messages d))"
    and old: "distinct L \<and> set L = ids_where (\<lambda>m. g m \<noteq> None) d"
    and sel: "\<And>m. p m \<Longrightarrow> g m = None" and f: "\<And>m. m_id (f m) = m_id m" "\<And>m. g (f m) \<noteq> None"
    and d': "messages d' = map (\<lambda>m. if p m then f m else m) (messages d)"
    and chosen: "mset chosen = mset (filter p (messages d))"
  shows "distinct (L @ map m_id chosen) \<and> set (L @ map m_id chosen) = ids_where (\<lambda>m. g m \<noteq> None) d'"
proof -
  have set: "set chosen = set (filter p (messages d))" using chosen by (rule mset_eq_setD)
  have "mset (map m_id chosen) = mset (map m_id (filter p (messages d)))" using chosen by simp
  then have "distinct (map m_id chosen)"
    using dist by (metis distinct_map_filter mset_eq_imp_distinct_iff)
  moreover have "m_id x \<noteq> m_id m" if "m \<in> set (messages d)" "g m \<noteq> None" "x \<in> set chosen" for m x
    using distinct_map_unique [OF dist, of m x] that set sel [of x] by auto
  then have "set L \<inter> set (map m_id chosen) = {}" using old by (fastforce simp: ids_where_def)
  moreover have "ids_where (\<lambda>m. g m \<noteq> None) d' = ids_where (\<lambda>m. g m \<noteq> None) d \<union> set (map m_id chosen)"
  proof -
    have "g (if p m then f m else m) \<noteq> None \<longleftrightarrow> p m \<or> g m \<noteq> None" for m using f(2) [of m] by simp
    then have "ids_where (\<lambda>m. g m \<noteq> None) d' = ids_where (\<lambda>m. p m \<or> g m \<noteq> None) d"
      using ids_where_map(2) [OF d', of "\<lambda>m. g m \<noteq> None"] f(1) by simp
    also have "\<dots> = ids_where (\<lambda>m. g m \<noteq> None) d \<union> set (map m_id chosen)"
      unfolding ids_where_def set_map set by auto
    finally show ?thesis .
  qed
  ultimately show ?thesis using old by simp
qed

lemma inbox_once:
  assumes "inbox_inv s"
  shows "once (this_epoch s)"
proof -
  note I = inbox_invD [OF assms]
  have dist: "distinct (map m_id (messages (ir_db s)))" using I(2,3) by simp
  have all: "set (ir_written s) = m_id ` set (messages (ir_db s))" by (simp flip: I(2))
  have same: "m_read_at x = m_read_at y"
    if "x \<in> set (messages (ir_db s))" "y \<in> set (messages (ir_db s))" "m_id x = m_id y" for x y
    using distinct_map_unique [OF dist that] by simp
  have "m_id ` set (messages (ir_db s)) = ids_where (\<lambda>m. m_read_at m \<noteq> None) (ir_db s)
      \<union> ids_where (\<lambda>m. m_read_at m = None) (ir_db s)"
    unfolding ids_where_def set_map image_Un [symmetric] by (rule arg_cong [where f = "image m_id"]) auto
  moreover have "ids_where (\<lambda>m. m_read_at m \<noteq> None) (ir_db s) \<inter> ids_where (\<lambda>m. m_read_at m = None) (ir_db s) = {}"
    unfolding ids_where_def by (auto dest: same)
  ultimately show ?thesis using I(3-5) all
    by (simp add: once_def this_epoch_def unread_ids_def ids_where_def)
qed

text \<open>A row added behind the others, with a fresh identifier, unread and not notified.\<close>

lemma inbox_inv_insert:
  assumes inv: "inbox_inv s" and d': "messages d' = messages (ir_db s) @ [m]" "gq_inv d'"
    and m: "m_id m = next_message_id (messages (ir_db s))" "m_read_at m = None" "m_notified_at m = None"
  shows "inbox_inv (s\<lparr>ir_db := d', ir_written := ir_written s @ [m_id m]\<rparr>)"
proof -
  note I = inbox_invD [OF inv]
  have "m_id m \<notin> set (map m_id (messages (ir_db s)))" using m(1) by (auto dest: next_message_id_gt)
  then have fresh: "m_id m \<notin> set (ir_written s)" by (simp add: I(2) del: set_map)
  show ?thesis by (rule inbox_invI) (use I fresh m d' in \<open>simp_all add: ids_where_def\<close>)
qed

lemma inbox_inv_write:
  assumes inv: "inbox_inv s" and run: "write_message e sender receiver content summary (ir_db s) = (i, d', evs)"
  shows "inbox_inv (s\<lparr>ir_db := d', ir_written := ir_written s @ [i]\<rparr>)"
proof -
  define m where "m = \<lparr>m_id = i, m_from_agent = sender, m_to_agent = normalize_agent_id receiver,
     m_content = content, m_summary = summary, m_created_at = clock e, m_notified_at = None, m_read_at = None\<rparr>"
  from run have d': "d' = (ir_db s)\<lparr>messages := messages (ir_db s) @ [m]\<rparr>"
    and i: "i = next_message_id (messages (ir_db s))"
    by (auto simp: m_def write_message_def insert_message_def Let_def)
  have "gq_inv d'" using inbox_invD(1) [OF inv] gq_inv_frame [of d' "ir_db s"] by (simp add: d')
  with inbox_inv_insert [OF inv, of d' m] i show ?thesis by (simp add: d' m_def)
qed

lemma inbox_inv_compatible:
  assumes inv: "inbox_inv s"
    and run: "enqueue_batch_with_compatibility digest e rq sender content summary (ir_db s) = (res, d', evs)"
  shows "inbox_inv (s\<lparr>ir_db := d', ir_written := ir_written s @ added_ids (ir_db s) d'\<rparr>)"
proof -
  note I = inbox_invD [OF inv]
  from compat_messages [OF I(1) run] consider (same) "d' = ir_db s"
    | (added) m where "messages d' = messages (ir_db s) @ [m]" "gq_inv d'"
        "m_id m = next_message_id (messages (ir_db s))" "m_read_at m = None" "m_notified_at m = None"
    by blast
  then show ?thesis
  proof cases
    case same
    then show ?thesis using inv by (simp add: added_ids_def)
  next
    case added
    with inbox_inv_insert [OF inv added] show ?thesis by (simp add: added_ids_def)
  qed
qed

lemma inbox_inv_peek:
  assumes inv: "inbox_inv s" and run: "peek_unnotified e agent (ir_db s) = (ms, d', evs)"
  shows "inbox_inv (s\<lparr>ir_db := d', ir_notified := ir_notified s @ map m_id ms\<rparr>)"
proof -
  note I = inbox_invD [OF inv]
  let ?p = "\<lambda>m. m_to_agent m = normalize_agent_id agent \<and> m_read_at m = None \<and> m_notified_at m = None"
  let ?h = "\<lambda>m. if ?p m then m\<lparr>m_notified_at := Some (clock e)\<rparr> else m"
  have dist: "distinct (map m_id (messages (ir_db s)))" using I(2,3) by simp
  from run have ms: "ms = select_messages ?p (messages (ir_db s))"
    and d': "d' = (ir_db s)\<lparr>messages := mark_notified (clock e) (map m_id ms) (messages (ir_db s))\<rparr>"
    by (auto simp: peek_unnotified_def Let_def)
  have "m_id m \<in> set (map m_id ms) \<longleftrightarrow> ?p m" if "m \<in> set (messages (ir_db s))" for m
    using that distinct_map_unique [OF dist that] by (auto simp: ms)
  then have msgs: "messages d' = map ?h (messages (ir_db s))" by (simp add: d' mark_notified_eq)
  have id: "m_id (?h m) = m_id m" for m by simp
  have read: "(\<lambda>m. m_read_at (?h m) \<noteq> None) = (\<lambda>m. m_read_at m \<noteq> None)" by (rule ext) simp
  have "distinct (ir_notified s @ map m_id ms)
      \<and> set (ir_notified s @ map m_id ms) = ids_where (\<lambda>m. m_notified_at m \<noteq> None) d'"
    by (rule mark_ids [OF dist I(5) _ _ _ msgs]) (simp_all add: ms select_messages_mset)
  moreover have "ids_where (\<lambda>m. m_read_at m \<noteq> None) d' = ids_where (\<lambda>m. m_read_at m \<noteq> None) (ir_db s)"
    using ids_where_map(2) [OF msgs id, of "\<lambda>m. m_read_at m \<noteq> None"] unfolding read .
  moreover have "map m_id (messages d') = ir_written s" using ids_where_map(1) [OF msgs id] I(2) by simp
  moreover have "gq_inv d'" using I(1) gq_inv_frame [of d' "ir_db s"] by (simp add: d')
  ultimately show ?thesis using I(3,4,6) by (intro inbox_invI) simp_all
qed

lemma inbox_inv_drain:
  assumes inv: "inbox_inv s" and run: "drain_unread e agent (ir_db s) = (Inr ms, d', evs)"
  shows "inbox_inv (s\<lparr>ir_db := d', ir_drained := ir_drained s @ map m_id ms\<rparr>)"
proof -
  note I = inbox_invD [OF inv]
  let ?p = "unread_for (normalize_agent_id agent)"
  let ?h = "\<lambda>m. if ?p m then m\<lparr>m_read_at := Some (clock e)\<rparr> else m"
  have dist: "distinct (map m_id (messages (ir_db s)))" using I(2,3) by simp
  from run have ms: "ms = select_messages ?p (messages (ir_db s))"
    and msgs: "messages d' = map ?h (messages (ir_db s))"
    by (auto simp: drain_unread_def Let_def sql_update_def split: sum.splits)
  have id: "m_id (?h m) = m_id m" for m by simp
  have ntf: "(\<lambda>m. m_notified_at (?h m) \<noteq> None) = (\<lambda>m. m_notified_at m \<noteq> None)" by (rule ext) simp
  have "distinct (ir_drained s @ map m_id ms)
      \<and> set (ir_drained s @ map m_id ms) = ids_where (\<lambda>m. m_read_at m \<noteq> None) d'"
    by (rule mark_ids [OF dist I(4) _ _ _ msgs]) (simp_all add: ms select_messages_mset unread_for_def)
  moreover have "ids_where (\<lambda>m. m_notified_at m \<noteq> None) d' = ids_where (\<lambda>m. m_notified_at m \<noteq> None) (ir_db s)"
    using ids_where_map(2) [OF msgs id, of "\<lambda>m. m_notified_at m \<noteq> None"] unfolding ntf .
  moreover have "map m_id (messages d') = ir_written s" using ids_where_map(1) [OF msgs id] I(2) by simp
  moreover have "gq_inv d'" using I(1) gq_inv_frame [of d' "ir_db s"] drain_frame [OF run] by simp
  ultimately show ?thesis using I(3,5,6) by (intro inbox_invI) simp_all
qed

lemma inbox_inv_frame:
  assumes "inbox_inv s" and "messages d' = map h (messages (ir_db s))" and "gq_inv d'"
    and "\<And>m. m_id (h m) = m_id m" "\<And>m. m_read_at (h m) = m_read_at m" "\<And>m. m_notified_at (h m) = m_notified_at m"
  shows "inbox_inv (s\<lparr>ir_db := d'\<rparr>)"
  using inbox_invD [OF assms(1)] ids_where_map [OF assms(2,4)] assms(3,5,6) by (intro inbox_invI) simp_all

lemma inbox_inv_open:
  assumes "inbox_inv s"
  shows "inbox_inv (s\<lparr>ir_db := migrate (ir_db s)\<rparr>)"
proof -
  note I = inbox_invD [OF assms]
  have dist: "distinct (map m_id (messages (ir_db s)))" using I(2,3) by simp
  have "gq_inv (migrate (ir_db s))"
    using I(1) gq_inv_frame [of "migrate (ir_db s)" "ir_db s"] by (simp add: migrate_frame)
  then show ?thesis by (rule inbox_inv_frame [OF assms migrate_messages [OF dist]]) (simp_all add: migrated_row_def Let_def)
qed

lemma inbox_inv_step: "inbox_step s t \<Longrightarrow> inbox_inv s \<Longrightarrow> inbox_inv t"
proof (induction rule: inbox_step.induct)
  case (step_poke e agent newest base limit s d' evs)
  then have "messages d' = messages (ir_db s)" "batches d' = batches (ir_db s)" "items d' = items (ir_db s)"
    by (auto simp: record_poke_def Let_def)
  with step_poke gq_inv_frame [of d' "ir_db s"] inbox_invD(1) show ?case by (intro inbox_inv_frame [where h = "\<lambda>m. m"]) simp_all
next
  case (step_queue e call s returned d' evs)
  note inv = inbox_invD(1) [OF step_queue(2)]
  from gq_exec_messages [OF inv step_queue(1)] gq_exec_inv [OF inv step_queue(1)] step_queue(2)
  show ?case by (intro inbox_inv_frame [where h = "\<lambda>m. m"]) simp_all
next
  case (step_clear s d' evs)
  then have "d' = empty_db" by (simp add: clear_all_def)
  with inbox_once [OF step_clear(2)] inbox_invD(6) [OF step_clear(2)] gq_inv_empty
  show ?case by (intro inbox_invI) (auto simp: ids_where_def empty_db_def)
qed (blast intro: inbox_inv_write inbox_inv_compatible inbox_inv_peek inbox_inv_drain inbox_inv_open)+

lemma inbox_inv_start: "inbox_start s \<Longrightarrow> inbox_inv s"
  using gq_inv_empty by (intro inbox_invI) (auto simp: inbox_start_def ids_where_def empty_db_def)

interpretation inbox: inductive_invariant inbox_start inbox_step inbox_inv
  by unfold_locales (auto intro: inbox_inv_start inbox_inv_step)

section \<open>Exactly-once reading\<close>

text \<open>C18. Every message is read exactly once: on any run of the calls of the inbox and the queue, with the
  enqueue that also writes a message, the migration at every opening of the store and clearing it among them,
  whatever agents drain and however the calls interleave, the following holds since the store was last
  cleared, and held for each stretch between two clearings when it ended: no message is
  returned by two drains or by two peeks, no identifier is given to two messages, and what was written is
  exactly what was drained together with what is still unread, or was unread and lost when the store was
  cleared. The invariant of the queue holds throughout.\<close>

theorem exactly_once:
  assumes "reach inbox_start inbox_step s"
  shows "distinct (ir_written s) \<and> distinct (ir_drained s) \<and> distinct (ir_notified s)
     \<and> set (ir_written s) = set (ir_drained s) \<union> ids_where (\<lambda>m. m_read_at m = None) (ir_db s)
     \<and> set (ir_drained s) \<inter> ids_where (\<lambda>m. m_read_at m = None) (ir_db s) = {}
     \<and> (\<forall>ep \<in> set (ir_cleared s). distinct (ep_written ep) \<and> distinct (ep_drained ep) \<and> distinct (ep_notified ep)
          \<and> set (ep_written ep) = set (ep_drained ep) \<union> set (ep_abandoned ep)
          \<and> set (ep_drained ep) \<inter> set (ep_abandoned ep) = {})
     \<and> gq_inv (ir_db s)"
proof -
  note inv = inbox.reach_invar [OF assms]
  have "set (unread_ids (ir_db s)) = ids_where (\<lambda>m. m_read_at m = None) (ir_db s)"
    by (simp add: unread_ids_def ids_where_def)
  with inbox_once [OF inv] inbox_invD(1,6) [OF inv] show ?thesis
    by (simp add: once_def this_epoch_def)
qed

text \<open>A message is written and lost when the store is cleared; the next one has the same identifier and is
  drained.\<close>

definition demo_env :: call_env where
  "demo_env = \<lparr>clock = 5, uuid = (\<lambda>_. [])\<rparr>"

definition demo_written :: inbox_run where
  "demo_written =
     \<lparr>ir_db = fst (snd (write_message demo_env ''tl'' ''leaf'' ''hi'' None empty_db)), ir_written = [1],
      ir_notified = [], ir_drained = [], ir_cleared = []\<rparr>"

definition demo_cleared :: inbox_run where
  "demo_cleared =
     \<lparr>ir_db = empty_db, ir_written = [], ir_notified = [], ir_drained = [],
      ir_cleared = [\<lparr>ep_written = [1], ep_notified = [], ep_drained = [], ep_abandoned = [1]\<rparr>]\<rparr>"

definition demo_rewritten :: inbox_run where
  "demo_rewritten = demo_cleared\<lparr>ir_db := ir_db demo_written, ir_written := [1]\<rparr>"

definition demo_drained :: inbox_run where
  "demo_drained = demo_rewritten\<lparr>ir_db := fst (snd (drain_unread demo_env ''leaf'' (ir_db demo_written))), ir_drained := [1]\<rparr>"

lemma demo_run_facts:
  "fst (write_message demo_env ''tl'' ''leaf'' ''hi'' None empty_db) = 1"
  "unread_ids (ir_db demo_written) = [1]"
  "map m_id (case fst (drain_unread demo_env ''leaf'' (ir_db demo_written)) of Inl _ \<Rightarrow> [] | Inr ms \<Rightarrow> ms) = [1]"
  by code_simp+

lemma demo_drained_reach: "reach inbox_start inbox_step demo_drained"
proof -
  let ?s = "\<lparr>ir_db = empty_db, ir_written = [], ir_notified = [], ir_drained = [], ir_cleared = []\<rparr>"
  have wr: "inbox_step s (s\<lparr>ir_db := ir_db demo_written, ir_written := ir_written s @ [1]\<rparr>)"
    if "ir_db s = empty_db" for s
  proof -
    obtain i d evs where w: "write_message demo_env ''tl'' ''leaf'' ''hi'' None empty_db = (i, d, evs)"
      by (metis prod.exhaust)
    with demo_run_facts(1) have "i = 1" "ir_db demo_written = d" by (simp_all add: demo_written_def)
    with step_write [of demo_env "''tl''" "''leaf''" "''hi''" None s i d evs] w that show ?thesis by simp
  qed
  have "reach inbox_start inbox_step ?s" by (rule reach_start) (simp add: inbox_start_def)
  moreover have "inbox_step ?s demo_written"
    using wr [of ?s] by (simp add: demo_written_def)
  moreover have "inbox_step demo_written demo_cleared"
    using step_clear [of demo_written empty_db] demo_run_facts(2)
    by (simp add: clear_all_def demo_cleared_def this_epoch_def) (simp add: demo_written_def)
  moreover have "inbox_step demo_cleared demo_rewritten"
    using wr [of demo_cleared] by (simp add: demo_rewritten_def demo_cleared_def)
  moreover have "inbox_step demo_rewritten demo_drained"
  proof -
    let ?x = "drain_unread demo_env ''leaf'' (ir_db demo_written)"
    from demo_run_facts(3) obtain ms where ms: "fst ?x = Inr ms" "map m_id ms = [1]" by (auto split: sum.splits)
    then have "?x = (Inr ms, fst (snd ?x), snd (snd ?x))" by (simp add: prod_eq_iff)
    with step_drain [of demo_env "''leaf''" demo_rewritten ms "fst (snd ?x)" "snd (snd ?x)"] ms(2)
    show ?thesis by (simp add: demo_drained_def demo_rewritten_def demo_cleared_def)
  qed
  ultimately show ?thesis by (meson reach_step)
qed

theorem exactly_once_witness:
  "reach inbox_start inbox_step demo_drained \<and> ir_drained demo_drained = [1]
   \<and> ids_where (\<lambda>m. m_read_at m = None) (ir_db demo_drained) = {}
   \<and> map ep_abandoned (ir_cleared demo_drained) = [[1]] \<and> gq_inv (ir_db demo_drained)"
proof -
  have f: "ir_written demo_drained = [1]" "ir_drained demo_drained = [1]"
    "map ep_abandoned (ir_cleared demo_drained) = [[1]]"
    by (simp_all add: demo_drained_def demo_rewritten_def demo_cleared_def)
  with demo_drained_reach exactly_once [OF demo_drained_reach] show ?thesis by auto
qed

end
