(* ===== verification/Sink_Paths.thy ===== *)
theory Sink_Paths
  imports Prelude
begin

text \<open>
  \<^verbatim>\<open>services/sink_paths.rs\<close>: where a telemetry record may be written. The outcome of the bounded
  wait for the project's lifecycle lock and the answer of \<^verbatim>\<open>git worktree list\<close> are what the
  operating system and git say at the moment of the write; they are the record \<open>sink_env\<close>.
\<close>

datatype lock_attempt = LockTaken | LockHeld | LockError

record sink_env =
  lifecycle_lock :: "string \<Rightarrow> lock_attempt"
  registered_worktree :: "string \<Rightarrow> string \<Rightarrow> bool option"

record sink_destination =
  sd_dir :: string
  sd_locked :: bool

definition verified_candidate :: "sink_env \<Rightarrow> string \<Rightarrow> string \<Rightarrow> string" where
  "verified_candidate w root candidate =
     (if candidate = root then root
      else case registered_worktree w root candidate of
             Some True \<Rightarrow> candidate
           | _ \<Rightarrow> root)"

definition resolve_sink :: "sink_env \<Rightarrow> string \<Rightarrow> string \<Rightarrow> sink_destination" where
  "resolve_sink w root candidate =
     (if candidate = root then \<lparr>sd_dir = root, sd_locked = False\<rparr>
      else let locked = (case lifecycle_lock w root of
                           LockTaken \<Rightarrow> True | LockHeld \<Rightarrow> False | LockError \<Rightarrow> False)
           in \<lparr>sd_dir = (if locked then verified_candidate w root candidate else root),
               sd_locked = locked\<rparr>)"

definition sink_dir_hint :: "sink_env \<Rightarrow> string \<Rightarrow> string \<Rightarrow> string" where
  "sink_dir_hint w root candidate = verified_candidate w root candidate"

lemma resolve_sink_cases:
  "sd_dir (resolve_sink w root candidate) = root \<or>
   (sd_dir (resolve_sink w root candidate) = candidate \<and> sd_locked (resolve_sink w root candidate)
    \<and> registered_worktree w root candidate = Some True)"
  by (auto simp: resolve_sink_def verified_candidate_def Let_def
      split: lock_attempt.splits option.splits bool.splits)

end
