(* ===== verification/Str_Ops.thy ===== *)
theory Str_Ops
  imports Prelude
begin

text \<open>
  The operations of Rust's \<^verbatim>\<open>str\<close> that the message and key formats rest on: prefixes,
  searching, splitting at the first match of a pattern, the decimal form of an unsigned
  integer with its parser, trimming and lines, and the combinators of \<^verbatim>\<open>Option\<close> they are used with.
\<close>

definition starts_with :: "string \<Rightarrow> string \<Rightarrow> bool" where
  "starts_with p s \<longleftrightarrow> take (length p) s = p"

definition strip_prefix :: "string \<Rightarrow> string \<Rightarrow> string option" where
  "strip_prefix p s = (if starts_with p s then Some (drop (length p) s) else None)"

definition ends_with :: "string \<Rightarrow> string \<Rightarrow> bool" where
  "ends_with p s \<longleftrightarrow> starts_with (rev p) (rev s)"

fun split_once :: "string \<Rightarrow> string \<Rightarrow> (string \<times> string) option" where
  "split_once p [] = (if p = [] then Some ([], []) else None)"
| "split_once p (c # s) =
     (if starts_with p (c # s) then Some ([], drop (length p) (c # s))
      else map_option (\<lambda>(a, b). (c # a, b)) (split_once p s))"

definition contains :: "string \<Rightarrow> string \<Rightarrow> bool" where
  "contains p s \<longleftrightarrow> split_once p s \<noteq> None"

lemma starts_with_iff: "starts_with p s \<longleftrightarrow> (\<exists>t. s = p @ t)"
  unfolding starts_with_def by (metis append_take_drop_id append_eq_conv_conj)

lemma starts_with_append [simp]: "starts_with p (p @ t)"
  by (auto simp: starts_with_iff)

lemma strip_prefix_append [simp]: "strip_prefix p (p @ t) = Some t"
  by (simp add: strip_prefix_def)

lemma strip_prefix_SomeD: "strip_prefix p s = Some t \<Longrightarrow> s = p @ t"
  by (auto simp: strip_prefix_def starts_with_iff split: if_splits)

lemma ends_with_iff: "ends_with p s \<longleftrightarrow> (\<exists>t. s = t @ p)"
  unfolding ends_with_def starts_with_iff
  by (metis rev_append rev_rev_ident)

lemma split_once_SomeD: "split_once p s = Some (a, b) \<Longrightarrow> s = a @ p @ b"
  by (induction p s arbitrary: a rule: split_once.induct)
    (auto simp: starts_with_iff split: if_splits)

lemma split_once_prefix [simp]: "split_once p (p @ t) = Some ([], t)"
proof (cases "p @ t")
  case (Cons c s)
  then have "starts_with p (c # s)" and "drop (length p) (c # s) = t"
    by (metis starts_with_append, metis append_eq_conv_conj)
  with Cons show ?thesis by simp
qed auto

lemma contains_append: "contains p (a @ p @ b)"
proof (induction a)
  case Nil
  show ?case by (simp add: contains_def)
next
  case (Cons c a)
  then show ?case by (auto simp: contains_def)
qed

lemma contains_iff: "contains p s \<longleftrightarrow> (\<exists>a b. s = a @ p @ b)"
  by (metis contains_append contains_def not_None_eq prod.exhaust split_once_SomeD)

section \<open>Decimal numbers\<close>

definition is_ascii_digit :: "char \<Rightarrow> bool" where
  "is_ascii_digit c \<longleftrightarrow> 48 \<le> (of_char c :: nat) \<and> (of_char c :: nat) \<le> 57"

definition digit_value :: "char \<Rightarrow> nat" where
  "digit_value c = of_char c - 48"

definition digit_char :: "nat \<Rightarrow> char" where
  "digit_char d = char_of (48 + d)"

fun nat_str :: "nat \<Rightarrow> string" where
  "nat_str n = (if n < 10 then [digit_char n] else nat_str (n div 10) @ [digit_char (n mod 10)])"

declare nat_str.simps [simp del]

definition digits_value :: "string \<Rightarrow> nat" where
  "digits_value s = foldl (\<lambda>v c. 10 * v + digit_value c) 0 s"

text \<open>\<^verbatim>\<open>str::parse::<u64>()\<close> on a string of digits, which fails on overflow.\<close>

definition parse_u64_digits :: "string \<Rightarrow> nat option" where
  "parse_u64_digits s =
     (if s \<noteq> [] \<and> list_all is_ascii_digit s \<and> digits_value s < 2 ^ 64
      then Some (digits_value s) else None)"

text \<open>The whole of \<^verbatim>\<open>str::parse::<u64>()\<close> also takes one leading plus sign.\<close>

definition parse_u64 :: "string \<Rightarrow> nat option" where
  "parse_u64 s = (case strip_prefix ''+'' s of Some t \<Rightarrow> parse_u64_digits t | None \<Rightarrow> parse_u64_digits s)"

lemma of_char_digit: "d < 10 \<Longrightarrow> (of_char (digit_char d) :: nat) = 48 + d"
  by (simp add: digit_char_def of_char_of)

lemma digit_char_props [simp]:
  "d < 10 \<Longrightarrow> is_ascii_digit (digit_char d)" "d < 10 \<Longrightarrow> digit_value (digit_char d) = d"
  by (simp_all add: is_ascii_digit_def digit_value_def of_char_digit)

lemma nat_str_nonempty [simp]: "nat_str n \<noteq> []"
  by (subst nat_str.simps) simp

lemma nat_str_digits: "list_all is_ascii_digit (nat_str n)"
proof (induction n rule: nat_str.induct)
  case (1 n)
  then show ?case by (cases "n < 10") (auto simp: nat_str.simps [of n])
qed

lemma digits_value_nat_str [simp]: "digits_value (nat_str n) = n"
proof (induction n rule: nat_str.induct)
  case (1 n)
  then show ?case by (cases "n < 10") (auto simp: nat_str.simps [of n] digits_value_def)
qed

lemma nat_str_inject [simp]: "nat_str m = nat_str n \<longleftrightarrow> m = n"
  by (metis digits_value_nat_str)

lemma parse_u64_digits_nat_str [simp]: "n < 2 ^ 64 \<Longrightarrow> parse_u64_digits (nat_str n) = Some n"
  by (simp add: parse_u64_digits_def nat_str_digits)

lemma takeWhile_digits_nat_str:
  assumes "s = [] \<or> \<not> is_ascii_digit (hd s)"
  shows "takeWhile is_ascii_digit (nat_str n @ s) = nat_str n"
proof -
  have "\<And>c. c \<in> set (nat_str n) \<Longrightarrow> is_ascii_digit c" using nat_str_digits by (simp add: list_all_iff)
  then have "takeWhile is_ascii_digit (nat_str n @ s) = nat_str n @ takeWhile is_ascii_digit s"
    by (simp add: takeWhile_append2)
  moreover have "takeWhile is_ascii_digit s = []" using assms by (cases s) auto
  ultimately show ?thesis by simp
qed

section \<open>Trimming, lines and optional values\<close>

definition trailing_space :: "string \<Rightarrow> string option" where
  "trailing_space s = find (\<lambda>w. ends_with w s) white_space"

lemma trailing_space_SomeD:
  assumes "trailing_space s = Some w"
  shows "w \<noteq> [] \<and> s \<noteq> []"
proof -
  from assms have "w \<in> set white_space" and "ends_with w s"
    by (auto simp: trailing_space_def find_Some_iff)
  with white_space_nonempty show ?thesis by (auto simp: ends_with_iff)
qed

text \<open>\<^verbatim>\<open>str::trim\<close>, one end after the other.\<close>

function trim_start :: "string \<Rightarrow> string" where
  "trim_start s = (case leading_space s of None \<Rightarrow> s | Some w \<Rightarrow> trim_start (drop (length w) s))"
  by pat_completeness auto
termination
  by (relation "measure length") (auto dest!: leading_space_SomeD)

function trim_end :: "string \<Rightarrow> string" where
  "trim_end s = (case trailing_space s of None \<Rightarrow> s | Some w \<Rightarrow> trim_end (take (length s - length w) s))"
  by pat_completeness auto
termination
  by (relation "measure length") (auto dest!: trailing_space_SomeD)

declare trim_start.simps [simp del] trim_end.simps [simp del]

definition str_trim :: "string \<Rightarrow> string" where
  "str_trim s = trim_end (trim_start s)"

text \<open>\<^verbatim>\<open>str::lines\<close>: a line break is a line feed with the carriage return in front of
  it, if there is one; what follows the last line break is a line unless it is empty.\<close>

definition strip_cr :: "string \<Rightarrow> string" where
  "strip_cr s = (if ends_with [CHR 0x0D] s then butlast s else s)"

definition str_lines :: "string \<Rightarrow> string list" where
  "str_lines s =
     (let pieces = split_on (CHR 0x0A) s in
      map strip_cr (butlast pieces) @ (if last pieces = [] then [] else [last pieces]))"

text \<open>\<^verbatim>\<open>str::split_whitespace\<close>.\<close>

fun word_prefix :: "string \<Rightarrow> string" where
  "word_prefix [] = []"
| "word_prefix (c # s) = (if leading_space (c # s) = None then c # word_prefix s else [])"

lemma trim_start_length: "length (trim_start s) \<le> length s"
proof (induction s rule: trim_start.induct)
  case (1 s)
  then show ?case by (cases "leading_space s") (auto simp: trim_start.simps [of s] dest: leading_space_SomeD)
qed

lemma trim_start_no_space: "leading_space (trim_start s) = None"
proof (induction s rule: trim_start.induct)
  case (1 s)
  then show ?case by (cases "leading_space s") (simp_all add: trim_start.simps [of s])
qed

lemma word_prefix_nonempty: "t \<noteq> [] \<Longrightarrow> leading_space t = None \<Longrightarrow> word_prefix t \<noteq> []"
  by (cases t) auto

function split_whitespace :: "string \<Rightarrow> string list" where
  "split_whitespace s =
     (let t = trim_start s in
      if t = [] then [] else word_prefix t # split_whitespace (drop (length (word_prefix t)) t))"
  by pat_completeness auto
termination
proof (relation "measure length")
  fix s x
  assume "x = trim_start s" "x \<noteq> []"
  then have "0 < length (word_prefix x)" "length x \<le> length s" "0 < length x"
    using trim_start_no_space [of s] trim_start_length [of s] word_prefix_nonempty [of x] by auto
  then show "(drop (length (word_prefix x)) x, s) \<in> measure length" unfolding in_measure length_drop by linarith
qed simp

declare split_whitespace.simps [simp del]

definition to_ascii_lowercase :: "char \<Rightarrow> char" where
  "to_ascii_lowercase c =
     (if 65 \<le> (of_char c :: nat) \<and> (of_char c :: nat) \<le> 90 then char_of ((of_char c :: nat) + 32) else c)"

definition eq_ignore_ascii_case :: "string \<Rightarrow> string \<Rightarrow> bool" where
  "eq_ignore_ascii_case a b \<longleftrightarrow> map to_ascii_lowercase a = map to_ascii_lowercase b"

text \<open>\<^verbatim>\<open>filter(|value| !value.is_empty())\<close> on an optional string.\<close>

definition nonempty :: "string option \<Rightarrow> string option" where
  "nonempty v = (case v of Some s \<Rightarrow> if s = [] then None else Some s | None \<Rightarrow> None)"

text \<open>\<^verbatim>\<open>Option::or\<close>.\<close>

definition or_opt :: "'a option \<Rightarrow> 'a option \<Rightarrow> 'a option" where
  "or_opt a b = (case a of Some x \<Rightarrow> Some x | None \<Rightarrow> b)"

lemma or_opt_simps [simp]: "or_opt None b = b" "or_opt (Some x) b = Some x"
  by (simp_all add: or_opt_def)

definition opt_is :: "('a \<Rightarrow> bool) \<Rightarrow> 'a option \<Rightarrow> bool" where
  "opt_is p v = (case v of Some x \<Rightarrow> p x | None \<Rightarrow> False)"

lemma opt_is_simps [simp]: "\<not> opt_is p None" "opt_is p (Some x) = p x"
  by (simp_all add: opt_is_def)

end
