(* ===== verification/Agent_Inbox.thy ===== *)
theory Agent_Inbox
  imports Guidance_Ops Sink_Paths Str_Ops
begin

text \<open>
  \<^verbatim>\<open>services/agent_inbox.rs\<close>: the process-local transport cache that serialises the injection of
  messages into an agent's pane, and its reconstruction from the durable guidance queue. The map
  of queues is a partial function from agent names; \<^verbatim>\<open>AtomicU64::fetch_add\<close> wraps at
  \<^verbatim>\<open>2^64\<close>. The random UUID of a free-form message is an argument.
\<close>

section \<open>Messages\<close>

record injection_options =
  io_file_indirect :: bool
  io_submit :: bool
  io_skip_verify :: bool

definition claude_default :: injection_options where
  "claude_default = \<lparr>io_file_indirect = True, io_submit = True, io_skip_verify = False\<rparr>"

definition inline_submit :: injection_options where
  "inline_submit = \<lparr>io_file_indirect = False, io_submit = True, io_skip_verify = True\<rparr>"

record inbox_message =
  im_id :: nat
  im_target :: string
  im_project_dir :: string
  im_project_root :: string
  im_from :: string
  im_recipient :: string
  im_body :: string
  im_detail :: string
  im_injection_options :: injection_options
  im_cache_key :: "string option"

definition inbox_message_new ::
  "string \<Rightarrow> string \<Rightarrow> string \<Rightarrow> string \<Rightarrow> string \<Rightarrow> string \<Rightarrow> inbox_message" where
  "inbox_message_new target project_dir from recipient body detail =
     \<lparr>im_id = 0, im_target = target, im_project_dir = project_dir, im_project_root = project_dir,
      im_from = from, im_recipient = recipient, im_body = body, im_detail = detail,
      im_injection_options = claude_default, im_cache_key = None\<rparr>"

definition with_project_root :: "string \<Rightarrow> inbox_message \<Rightarrow> inbox_message" where
  "with_project_root root m = m\<lparr>im_project_root := root\<rparr>"

definition with_injection_options :: "injection_options \<Rightarrow> inbox_message \<Rightarrow> inbox_message" where
  "with_injection_options opts m = m\<lparr>im_injection_options := opts\<rparr>"

definition with_cache_key :: "string \<Rightarrow> inbox_message \<Rightarrow> inbox_message" where
  "with_cache_key k m = m\<lparr>im_cache_key := Some k\<rparr>"

section \<open>Producer identity of structured messages\<close>

definition parse_leading_u64 :: "string \<Rightarrow> nat option" where
  "parse_leading_u64 s =
     (let digits = takeWhile is_ascii_digit s in
      if digits = [] then None else parse_u64_digits digits)"

definition parse_pr_number :: "string \<Rightarrow> nat option" where
  "parse_pr_number body =
     (case split_once ''PR #'' body of None \<Rightarrow> None | Some (_, after) \<Rightarrow> parse_leading_u64 after)"

definition parse_stuck_scope :: "string \<Rightarrow> nat option" where
  "parse_stuck_scope body =
     (case split_once ''[STUCK: '' body of
        None \<Rightarrow> None
      | Some (_, after) \<Rightarrow>
          parse_leading_u64 (case strip_prefix ''PR #'' after of None \<Rightarrow> after | Some rest \<Rightarrow> rest))"

definition structured_tags :: "(string \<times> string) list" where
  "structured_tags =
     [(''[MERGE READY]'', ''MergeReady''), (''[PR READY]'', ''ReviewApproved''),
      (''[FIXES PUSHED]'', ''FixesPushed''), (''[COMMITS PUSHED]'', ''CommitsPushed''),
      (''[REVIEW TIMEOUT]'', ''ReviewTimeout''), (''[CI Status]'', ''CIStatus'')]"

definition pr_key :: "string \<Rightarrow> string \<Rightarrow> string \<Rightarrow> string" where
  "pr_key recipient event_type body =
     ''structured:'' @ recipient @ '':'' @ event_type @ '':'' @
       (case parse_pr_number body of None \<Rightarrow> ''none'' | Some n \<Rightarrow> nat_str n)"

definition idempotency_key_for_message :: "string \<Rightarrow> string \<Rightarrow> string \<Rightarrow> string" where
  "idempotency_key_for_message fresh_uuid recipient body =
     (case find (\<lambda>(tag, _). contains tag body) structured_tags of
        Some (_, event_type) \<Rightarrow> pr_key recipient event_type body
      | None \<Rightarrow>
          if contains ''## Review on PR #'' body \<or> contains ''[CHANGES REQUESTED] PR #'' body
          then pr_key recipient ''ReviewReceived'' body
          else case parse_stuck_scope body of
                 Some n \<Rightarrow> ''structured:'' @ recipient @ '':Stuck:'' @ nat_str n
               | None \<Rightarrow> fresh_uuid)"

section \<open>Queues\<close>

record enqueue_outcome =
  eo_depth :: nat
  eo_warning_emitted :: bool
  eo_should_start_consumer :: bool
  eo_dropped_as_duplicate :: bool

record agent_queue =
  aq_messages :: "inbox_message list"
  aq_consumer_active :: bool
  aq_queued_cache_keys :: "string set"

definition default_queue :: agent_queue where
  "default_queue = \<lparr>aq_messages = [], aq_consumer_active = False, aq_queued_cache_keys = {}\<rparr>"

record agent_inbox =
  ai_queues :: "string \<Rightarrow> agent_queue option"
  ai_next_id :: nat
  ai_warning_threshold :: nat
  ai_hard_cap :: nat

definition agent_inbox_new :: "nat \<Rightarrow> nat \<Rightarrow> agent_inbox" where
  "agent_inbox_new warning_threshold hard_cap =
     \<lparr>ai_queues = (\<lambda>_. None), ai_next_id = 1, ai_warning_threshold = warning_threshold,
      ai_hard_cap = hard_cap\<rparr>"

definition agent_inbox_default :: agent_inbox where
  "agent_inbox_default = agent_inbox_new 8 32"

datatype inbox_error = InboxFull string nat nat | NoItems | StoreError gq_error

text \<open>A call of \<^verbatim>\<open>append_inbox_event\<close>: the sink directory, the agent, the event type and its
  payload.\<close>

type_synonym inbox_event = "string \<times> string \<times> string \<times> json"

definition queue_entry :: "agent_inbox \<Rightarrow> string \<Rightarrow> agent_queue" where
  "queue_entry ib agent =
     (case ai_queues ib agent of None \<Rightarrow> default_queue | Some q \<Rightarrow> q)"

definition set_queue :: "string \<Rightarrow> agent_queue \<Rightarrow> agent_inbox \<Rightarrow> agent_inbox" where
  "set_queue agent q ib = ib\<lparr>ai_queues := (ai_queues ib)(agent \<mapsto> q)\<rparr>"

definition is_duplicate :: "agent_queue \<Rightarrow> inbox_message \<Rightarrow> bool" where
  "is_duplicate q m \<longleftrightarrow>
     (case im_cache_key m of None \<Rightarrow> False | Some k \<Rightarrow> k \<in> aq_queued_cache_keys q)"

definition duplicate_event :: "sink_env \<Rightarrow> inbox_message \<Rightarrow> inbox_event" where
  "duplicate_event w m =
     (sd_dir (resolve_sink w (im_project_root m) (im_project_dir m)), im_recipient m,
      ''agent_inbox.duplicates_dropped'',
      JObj [(''recipient'', JStr (im_recipient m)), (''cache_key'', json_opt JStr (im_cache_key m)),
            (''outcome'', JStr ''dropped''), (''authority'', JStr ''transport_cache'')])"

definition push_message :: "inbox_message \<Rightarrow> agent_queue \<Rightarrow> agent_queue" where
  "push_message m q =
     q\<lparr>aq_messages := aq_messages q @ [m],
       aq_queued_cache_keys :=
         (case im_cache_key m of None \<Rightarrow> aq_queued_cache_keys q
                               | Some k \<Rightarrow> insert k (aq_queued_cache_keys q))\<rparr>"

definition enqueue ::
  "sink_env \<Rightarrow> string \<Rightarrow> inbox_message \<Rightarrow> agent_inbox
     \<Rightarrow> (inbox_error + enqueue_outcome) \<times> agent_inbox \<times> inbox_event list" where
  "enqueue w agent m ib =
     (let q = queue_entry ib agent; ib1 = set_queue agent q ib in
      if is_duplicate q m then
        (Inr \<lparr>eo_depth = length (aq_messages q), eo_warning_emitted = False,
              eo_should_start_consumer = (\<not> aq_consumer_active q \<and> aq_messages q \<noteq> []),
              eo_dropped_as_duplicate = True\<rparr>, ib1, [duplicate_event w m])
      else if length (aq_messages q) \<ge> ai_hard_cap ib then
        (Inl (InboxFull agent (length (aq_messages q)) (ai_hard_cap ib)), ib1, [])
      else
        (let m' = m\<lparr>im_id := ai_next_id ib\<rparr>; q' = push_message m' q; depth = length (aq_messages q') in
         (Inr \<lparr>eo_depth = depth, eo_warning_emitted = (depth \<ge> ai_warning_threshold ib),
               eo_should_start_consumer = (\<not> aq_consumer_active q'),
               eo_dropped_as_duplicate = False\<rparr>,
          set_queue agent q' (ib\<lparr>ai_next_id := (ai_next_id ib + 1) mod 2 ^ 64\<rparr>), [])))"

section \<open>Delivery\<close>

definition begin_delivery :: "string \<Rightarrow> agent_inbox \<Rightarrow> inbox_message option \<times> agent_inbox" where
  "begin_delivery agent ib =
     (case ai_queues ib agent of
        None \<Rightarrow> (None, ib)
      | Some q \<Rightarrow>
          if aq_consumer_active q then (None, ib)
          else case aq_messages q of
                 [] \<Rightarrow> (None, ib)
               | m # _ \<Rightarrow> (Some m, set_queue agent (q\<lparr>aq_consumer_active := True\<rparr>) ib))"

definition head_is :: "nat \<Rightarrow> agent_queue \<Rightarrow> bool" where
  "head_is message_id q \<longleftrightarrow>
     (case aq_messages q of [] \<Rightarrow> False | m # _ \<Rightarrow> im_id m = message_id)"

definition pop_message :: "agent_queue \<Rightarrow> agent_queue" where
  "pop_message q =
     (case aq_messages q of
        [] \<Rightarrow> q
      | m # ms \<Rightarrow>
          q\<lparr>aq_messages := ms,
            aq_queued_cache_keys :=
              (case im_cache_key m of None \<Rightarrow> aq_queued_cache_keys q
                                    | Some k \<Rightarrow> aq_queued_cache_keys q - {k})\<rparr>)"

definition complete_delivery :: "string \<Rightarrow> nat \<Rightarrow> bool \<Rightarrow> agent_inbox \<Rightarrow> agent_inbox" where
  "complete_delivery agent message_id success ib =
     (case ai_queues ib agent of
        None \<Rightarrow> ib
      | Some q \<Rightarrow>
          (let q' = (if success \<and> head_is message_id q then pop_message q else q)
           in set_queue agent (q'\<lparr>aq_consumer_active := False\<rparr>) ib))"

definition abandon_delivery :: "string \<Rightarrow> nat \<Rightarrow> agent_inbox \<Rightarrow> inbox_message option \<times> agent_inbox" where
  "abandon_delivery agent message_id ib =
     (case ai_queues ib agent of
        None \<Rightarrow> (None, ib)
      | Some q \<Rightarrow>
          if head_is message_id q
          then (Some (hd (aq_messages q)),
                set_queue agent ((pop_message q)\<lparr>aq_consumer_active := False\<rparr>) ib)
          else (None, set_queue agent (q\<lparr>aq_consumer_active := False\<rparr>) ib))"

definition queue_depth :: "string \<Rightarrow> agent_inbox \<Rightarrow> nat" where
  "queue_depth agent ib =
     (case ai_queues ib agent of None \<Rightarrow> 0 | Some q \<Rightarrow> length (aq_messages q))"

definition is_consumer_active :: "string \<Rightarrow> agent_inbox \<Rightarrow> bool" where
  "is_consumer_active agent ib =
     (case ai_queues ib agent of None \<Rightarrow> False | Some q \<Rightarrow> aq_consumer_active q)"

section \<open>Reconstruction from the durable queue\<close>

definition message_from_batch ::
  "guidance_batch \<Rightarrow> string \<Rightarrow> string \<Rightarrow> injection_options \<Rightarrow> inbox_error + inbox_message" where
  "message_from_batch b target project_dir opts =
     (case gb_items b of
        [] \<Rightarrow> Inl NoItems
      | first_item # _ \<Rightarrow>
          (let body = join_with (replicate 2 (CHR 0x0A)) (map i_content (gb_items b));
               summary = (case map_option the (find (\<lambda>s. s \<noteq> None) (map i_summary (gb_items b))) of
                            None \<Rightarrow> ''durable guidance'' | Some s \<Rightarrow> s);
               bid = b_batch_id (gb_row b)
           in Inr (with_cache_key bid (with_injection_options opts
                (inbox_message_new target project_dir (i_from_agent first_item)
                   (b_agent_id (gb_row b)) body
                   (''durable guidance batch '' @ bid @ '': '' @ summary))))))"

fun enqueue_batches ::
  "sink_env \<Rightarrow> string \<Rightarrow> string \<Rightarrow> string \<Rightarrow> injection_options \<Rightarrow> guidance_batch list \<Rightarrow> nat
     \<Rightarrow> agent_inbox \<Rightarrow> (inbox_error + nat) \<times> agent_inbox \<times> inbox_event list" where
  "enqueue_batches w agent target dir opts [] restored ib = (Inr restored, ib, [])"
| "enqueue_batches w agent target dir opts (b # bs) restored ib =
     (case message_from_batch b target dir opts of
        Inl e \<Rightarrow> (Inl e, ib, [])
      | Inr m \<Rightarrow>
          (case enqueue w agent m ib of
             (Inl e, ib1, evs) \<Rightarrow> (Inl e, ib1, evs)
           | (Inr out, ib1, evs) \<Rightarrow>
               (let restored' = (if eo_dropped_as_duplicate out then restored else restored + 1);
                    (r, ib2, evs2) = enqueue_batches w agent target dir opts bs restored' ib1
                in (r, ib2, evs @ evs2))))"

definition rebuild_from_durable_at ::
  "sink_env \<Rightarrow> string \<Rightarrow> string \<Rightarrow> string \<Rightarrow> injection_options \<Rightarrow> int \<Rightarrow> db \<Rightarrow> agent_inbox
     \<Rightarrow> (inbox_error + nat) \<times> agent_inbox \<times> db \<times> mirror_event list \<times> inbox_event list" where
  "rebuild_from_durable_at w agent target dir opts t d ib =
     (let (_, d1, mirrored) = recover_expired_leases t d in
      case pending_batches_for_agent d1 agent t of
        Inl e \<Rightarrow> (Inl (StoreError e), ib, d1, mirrored, [])
      | Inr bs \<Rightarrow>
          (let (r, ib1, evs) = enqueue_batches w agent target dir opts bs 0 ib
           in (r, ib1, d1, mirrored, evs)))"

end
