(* ===== verification/Agent_Inbox_Invariant.thy ===== *)
theory Agent_Inbox_Invariant
  imports Agent_Inbox
begin

text \<open>
  The transport cache keeps at most its hard cap of messages per agent, holds every durable batch at
  most once, hands one message at a time to a consumer in first-in first-out order.
\<close>

section \<open>Invariant of the queues\<close>

definition cache_keys :: "inbox_message list \<Rightarrow> string list" where
  "cache_keys ms = List.map_filter im_cache_key ms"

definition queue_ok :: "nat \<Rightarrow> agent_queue \<Rightarrow> bool" where
  "queue_ok cap q \<longleftrightarrow> length (aq_messages q) \<le> cap
     \<and> aq_queued_cache_keys q = set (cache_keys (aq_messages q))
     \<and> distinct (cache_keys (aq_messages q))
     \<and> (aq_consumer_active q \<longrightarrow> aq_messages q \<noteq> [])"

definition ai_inv :: "agent_inbox \<Rightarrow> bool" where
  "ai_inv ib \<longleftrightarrow> (\<forall>agent q. ai_queues ib agent = Some q \<longrightarrow> queue_ok (ai_hard_cap ib) q)"

definition queued :: "agent_inbox \<Rightarrow> string \<Rightarrow> inbox_message list" where
  "queued ib agent = aq_messages (queue_entry ib agent)"

lemma cache_keys_simps [simp]:
  "cache_keys [] = []"
  "cache_keys (m # ms) = (case im_cache_key m of None \<Rightarrow> cache_keys ms | Some k \<Rightarrow> k # cache_keys ms)"
  "cache_keys (ms @ ns) = cache_keys ms @ cache_keys ns"
  by (simp_all add: cache_keys_def List.map_filter_def split: option.split)

lemma queue_ok_default [simp]: "queue_ok cap default_queue"
  by (simp add: queue_ok_def default_queue_def)

lemma ai_inv_entry: "ai_inv ib \<Longrightarrow> queue_ok (ai_hard_cap ib) (queue_entry ib agent)"
  by (auto simp: ai_inv_def queue_entry_def split: option.split)

lemma set_queue_simps [simp]:
  "ai_queues (set_queue agent q ib) = (ai_queues ib)(agent \<mapsto> q)"
  "ai_hard_cap (set_queue agent q ib) = ai_hard_cap ib"
  "ai_next_id (set_queue agent q ib) = ai_next_id ib"
  "queue_entry (set_queue agent q ib) agent' = (if agent' = agent then q else queue_entry ib agent')"
  by (auto simp: set_queue_def queue_entry_def)

lemma queue_entry_next_id [simp]: "queue_entry (ai_next_id_update f ib) = queue_entry ib"
  by (simp add: fun_eq_iff queue_entry_def)

lemma ai_inv_set_queue: "ai_inv ib \<Longrightarrow> queue_ok (ai_hard_cap ib) q \<Longrightarrow> ai_inv (set_queue agent q ib)"
  by (auto simp: ai_inv_def)

lemma queue_ok_push:
  "queue_ok cap q \<Longrightarrow> \<not> is_duplicate q m \<Longrightarrow> length (aq_messages q) < cap \<Longrightarrow> queue_ok cap (push_message m q)"
  by (auto simp: queue_ok_def is_duplicate_def push_message_def split: option.splits)

lemma queue_ok_pop_idle: "queue_ok cap q \<Longrightarrow> queue_ok cap ((pop_message q)\<lparr>aq_consumer_active := False\<rparr>)"
  by (auto simp: queue_ok_def pop_message_def split: list.splits option.splits)

lemma queue_ok_idle: "queue_ok cap q \<Longrightarrow> queue_ok cap (q\<lparr>aq_consumer_active := False\<rparr>)"
  by (simp add: queue_ok_def)

lemma queue_ok_active: "queue_ok cap q \<Longrightarrow> aq_messages q \<noteq> [] \<Longrightarrow> queue_ok cap (q\<lparr>aq_consumer_active := True\<rparr>)"
  by (simp add: queue_ok_def)

lemma enqueue_cases:
  assumes "enqueue w agent m ib = (res, ib', evs)"
  obtains (duplicate) out where "is_duplicate (queue_entry ib agent) m" and "res = Inr out"
      and "eo_dropped_as_duplicate out" and "ib' = set_queue agent (queue_entry ib agent) ib"
      and "evs = [duplicate_event w m]"
  | (full) "\<not> is_duplicate (queue_entry ib agent) m" and "length (queued ib agent) \<ge> ai_hard_cap ib"
      and "res = Inl (InboxFull agent (length (queued ib agent)) (ai_hard_cap ib))"
      and "ib' = set_queue agent (queue_entry ib agent) ib" and "evs = []"
  | (pushed) out where "\<not> is_duplicate (queue_entry ib agent) m" and "length (queued ib agent) < ai_hard_cap ib"
      and "res = Inr out" and "\<not> eo_dropped_as_duplicate out" and "evs = []"
      and "ib' = set_queue agent (push_message (m\<lparr>im_id := ai_next_id ib\<rparr>) (queue_entry ib agent))
                   (ib\<lparr>ai_next_id := (ai_next_id ib + 1) mod 2 ^ 64\<rparr>)"
proof -
  let ?q = "queue_entry ib agent"
  consider (d) "is_duplicate ?q m" | (f) "\<not> is_duplicate ?q m" "length (queued ib agent) \<ge> ai_hard_cap ib"
    | (p) "\<not> is_duplicate ?q m" "length (queued ib agent) < ai_hard_cap ib" by linarith
  then show thesis
  proof cases
    case d
    with assms show thesis by (intro duplicate [of "projr res"]) (auto simp: enqueue_def Let_def)
  next
    case f
    with assms show thesis by (intro full) (auto simp: enqueue_def Let_def queued_def)
  next
    case p
    with assms show thesis by (intro pushed [of "projr res"]) (auto simp: enqueue_def Let_def queued_def)
  qed
qed

lemma is_duplicate_id [simp]: "is_duplicate q (m\<lparr>im_id := n\<rparr>) = is_duplicate q m"
  by (simp add: is_duplicate_def)

lemma ai_inv_next_id [simp]: "ai_inv (ai_next_id_update f ib) = ai_inv ib"
  by (simp add: ai_inv_def)

lemma ai_inv_enqueue:
  assumes "enqueue w agent m ib = (res, ib', evs)" and "ai_inv ib"
  shows "ai_inv ib'"
  using assms(1)
proof (cases rule: enqueue_cases)
  case (pushed out)
  then show ?thesis using ai_inv_entry [OF assms(2), of agent]
    by (auto intro!: ai_inv_set_queue queue_ok_push simp: assms(2) queued_def)
qed (use ai_inv_entry [OF assms(2), of agent] assms(2) in \<open>auto intro: ai_inv_set_queue\<close>)

section \<open>The cache as a state machine\<close>

datatype inbox_call =
    Enqueue string inbox_message
  | Begin string
  | Complete string nat bool
  | Abandon string nat

fun ai_exec :: "sink_env \<Rightarrow> inbox_call \<Rightarrow> agent_inbox \<Rightarrow> agent_inbox" where
  "ai_exec w (Enqueue agent m) ib = fst (snd (enqueue w agent m ib))"
| "ai_exec w (Begin agent) ib = snd (begin_delivery agent ib)"
| "ai_exec w (Complete agent i success) ib = complete_delivery agent i success ib"
| "ai_exec w (Abandon agent i) ib = snd (abandon_delivery agent i ib)"

text \<open>Each call runs under the lock of the map of queues. The history records, per agent, the
  messages that entered its queue and those that left it.\<close>

type_synonym history = "string \<Rightarrow> inbox_message list"

inductive ai_step :: "agent_inbox \<times> history \<times> history \<Rightarrow> agent_inbox \<times> history \<times> history \<Rightarrow> bool" where
  ai_step_call: "ib' = ai_exec w call ib \<Longrightarrow>
     ai_step (ib, entered, left)
       (ib', \<lambda>a. entered a @ drop (length (queued ib a)) (queued ib' a),
             \<lambda>a. left a @ take (length (queued ib a) - length (queued ib' a)) (queued ib a))"

inductive_cases ai_stepE: "ai_step s t"

fun ai_start :: "agent_inbox \<times> history \<times> history \<Rightarrow> bool" where
  "ai_start (ib, entered, left) \<longleftrightarrow>
     (\<exists>warn cap. ib = agent_inbox_new warn cap) \<and> entered = (\<lambda>_. []) \<and> left = (\<lambda>_. [])"

fun ai_history_ok :: "agent_inbox \<times> history \<times> history \<Rightarrow> bool" where
  "ai_history_ok (ib, entered, left) \<longleftrightarrow>
     ai_inv ib \<and> (\<forall>a. entered a = left a @ queued ib a)"

lemma begin_delivery_cases:
  assumes "begin_delivery agent ib = (res, ib')"
  obtains (idle) "res = None" and "ib' = ib"
      and "is_consumer_active agent ib \<or> queued ib agent = []"
  | (offered) m ms where "res = Some m" and "aq_messages (queue_entry ib agent) = m # ms"
      and "\<not> is_consumer_active agent ib"
      and "ib' = set_queue agent ((queue_entry ib agent)\<lparr>aq_consumer_active := True\<rparr>) ib"
  using assms
  by (auto simp: begin_delivery_def queue_entry_def queued_def is_consumer_active_def default_queue_def
      split: option.splits if_splits list.splits)

text \<open>What a call may do to the queue of an agent: nothing, append one message, or drop its head.\<close>

definition queue_move :: "inbox_message list \<Rightarrow> inbox_message list \<Rightarrow> bool" where
  "queue_move ms ns \<longleftrightarrow> ns = ms \<or> (\<exists>m. ns = ms @ [m]) \<or> (ms \<noteq> [] \<and> ns = tl ms)"

lemma queue_move_history:
  "queue_move ms ns \<Longrightarrow> ms @ drop (length ms) ns = take (length ms - length ns) ms @ ns"
  by (cases ms) (auto simp: queue_move_def)

lemma queued_set_queue: "queued (set_queue agent q ib) a = (if a = agent then aq_messages q else queued ib a)"
  by (simp add: queued_def)

lemma pop_message_messages: "aq_messages (pop_message q) = tl (aq_messages q)"
  by (simp add: pop_message_def split: list.split)

lemma head_is_nonempty: "head_is i q \<Longrightarrow> aq_messages q \<noteq> []"
  by (auto simp: head_is_def)

lemma queue_entry_Some: "ai_queues ib agent = Some q \<Longrightarrow> queue_entry ib agent = q"
  by (simp add: queue_entry_def)

lemma complete_moves: "queue_move (queued ib a) (queued (complete_delivery agent i success ib) a)"
  by (auto simp: complete_delivery_def queue_move_def queued_set_queue pop_message_messages Let_def
      queued_def queue_entry_Some dest: head_is_nonempty split: option.split)

lemma abandon_moves: "queue_move (queued ib a) (queued (snd (abandon_delivery agent i ib)) a)"
  by (auto simp: abandon_delivery_def queue_move_def queued_set_queue pop_message_messages
      queued_def queue_entry_Some dest: head_is_nonempty split: option.split)

lemma enqueue_moves:
  assumes "enqueue w agent m ib = (res, ib', evs)"
  shows "queue_move (queued ib a) (queued ib' a)"
  using assms by (cases rule: enqueue_cases) (auto simp: queue_move_def queued_def push_message_def)

lemma begin_moves: "queued (snd (begin_delivery agent ib)) a = queued ib a"
  by (rule begin_delivery_cases [of agent ib, OF surjective_pairing]) (auto simp: queued_def)

lemma exec_moves: "queue_move (queued ib a) (queued (ai_exec w call ib) a)"
proof (cases call)
  case (Enqueue agent m)
  then show ?thesis using enqueue_moves [of w agent m ib] by (cases "enqueue w agent m ib") simp
next
  case (Begin agent)
  then show ?thesis by (simp add: begin_moves queue_move_def)
qed (simp_all add: complete_moves abandon_moves)

lemma ai_inv_complete: "ai_inv ib \<Longrightarrow> ai_inv (complete_delivery agent i success ib)"
  using ai_inv_entry [of ib agent]
  by (auto simp: complete_delivery_def Let_def queue_entry_Some intro!: ai_inv_set_queue
      intro: queue_ok_pop_idle queue_ok_idle split: option.split)

lemma ai_inv_abandon: "ai_inv ib \<Longrightarrow> ai_inv (snd (abandon_delivery agent i ib))"
  using ai_inv_entry [of ib agent]
  by (auto simp: abandon_delivery_def queue_entry_Some intro!: ai_inv_set_queue
      intro: queue_ok_pop_idle queue_ok_idle split: option.split)

lemma ai_inv_begin: "ai_inv ib \<Longrightarrow> ai_inv (snd (begin_delivery agent ib))"
  by (rule begin_delivery_cases [of agent ib, OF surjective_pairing])
    (auto intro!: ai_inv_set_queue queue_ok_active ai_inv_entry)

lemma ai_inv_exec: "ai_inv ib \<Longrightarrow> ai_inv (ai_exec w call ib)"
proof (cases call)
  case (Enqueue agent m)
  assume "ai_inv ib"
  then show ?thesis using Enqueue ai_inv_enqueue [of w agent m ib] by (cases "enqueue w agent m ib") simp
qed (simp_all add: ai_inv_complete ai_inv_abandon ai_inv_begin)

interpretation cache: inductive_invariant ai_start ai_step ai_history_ok
proof unfold_locales
  fix s t :: "agent_inbox \<times> history \<times> history"
  show "ai_history_ok s" if "ai_start s"
    using that by (cases s)
      (auto simp: ai_inv_def agent_inbox_new_def queued_def queue_entry_def default_queue_def)
  show "ai_history_ok t" if "ai_history_ok s" and "ai_step s t"
    using that(2,1)
  proof cases
    case (ai_step_call ib' w call ib entered left)
    then show ?thesis using that(1) queue_move_history [OF exec_moves [of ib _ w call]]
      by (auto simp: ai_inv_exec)
  qed
qed

end
