(* ===== verification/Agent_Inbox_Properties.thy ===== *)
theory Agent_Inbox_Properties
  imports Agent_Inbox_Invariant
begin

text \<open>
  What the transport cache promises its clients: bounded first-in first-out queues that hold a
  durable batch at most once, one consumer at a time, and structured producer keys that determine the
  pull request.
\<close>

section \<open>Example data\<close>

definition demo_sink :: sink_env where
  "demo_sink = \<lparr>lifecycle_lock = (\<lambda>_. LockTaken), registered_worktree = (\<lambda>_ _. Some False)\<rparr>"

definition demo_message :: "string \<Rightarrow> inbox_message" where
  "demo_message k = with_cache_key k (inbox_message_new ''%1'' ''/w'' ''tl'' ''leaf'' ''rebase'' ''d'')"

definition demo_cache :: agent_inbox where
  "demo_cache = fst (snd (enqueue demo_sink ''leaf'' (demo_message ''b'')
     (fst (snd (enqueue demo_sink ''leaf'' (demo_message ''a'') agent_inbox_default)))))"

section \<open>Queues\<close>

text \<open>C23. On every run of the transport cache, for every agent: the queue never exceeds the hard cap,
  no durable batch is queued twice, the set of cached keys is exactly that of the queued messages, a
  consumer is active only while there is a message to deliver, and the messages that entered are,
  in order, those that left followed by those still queued.\<close>

theorem cache_fifo_bounded:
  assumes "reach ai_start ai_step (ib, entered, left)"
  shows "length (queued ib a) \<le> ai_hard_cap ib
     \<and> distinct (cache_keys (queued ib a))
     \<and> aq_queued_cache_keys (queue_entry ib a) = set (cache_keys (queued ib a))
     \<and> (is_consumer_active a ib \<longrightarrow> queued ib a \<noteq> [])
     \<and> entered a = left a @ queued ib a"
proof -
  from cache.reach_invar [OF assms] have "ai_inv ib" and h: "entered a = left a @ queued ib a" by auto
  from ai_inv_entry [OF this(1), of a] h show ?thesis
    by (auto simp: queue_ok_def queued_def is_consumer_active_def queue_entry_def split: option.splits)
qed

definition demo_history :: "agent_inbox \<times> history \<times> history" where
  "demo_history = (fst (snd (enqueue demo_sink ''leaf'' (demo_message ''a'') agent_inbox_default)),
     queued (fst (snd (enqueue demo_sink ''leaf'' (demo_message ''a'') agent_inbox_default))), \<lambda>_. [])"

lemma demo_history_reach: "reach ai_start ai_step demo_history"
proof -
  let ?ib = "ai_exec demo_sink (Enqueue ''leaf'' (demo_message ''a'')) agent_inbox_default"
  have q: "queued agent_inbox_default a = []" for a
    by (simp add: queued_def queue_entry_def agent_inbox_default_def agent_inbox_new_def default_queue_def)
  have "ai_step (agent_inbox_default, \<lambda>_. [], \<lambda>_. []) demo_history"
    using ai_step_call [of ?ib demo_sink "Enqueue ''leaf'' (demo_message ''a'')" agent_inbox_default "\<lambda>_. []" "\<lambda>_. []"]
    by (simp add: demo_history_def q)
  moreover have "ai_start (agent_inbox_default, \<lambda>_. [], \<lambda>_. [])" by (auto simp: agent_inbox_default_def)
  ultimately show ?thesis by (meson reach_start reach_step)
qed

theorem cache_fifo_bounded_witness:
  "length (queued (fst demo_history) ''leaf'') \<le> ai_hard_cap (fst demo_history)
   \<and> fst (snd demo_history) ''leaf'' = queued (fst demo_history) ''leaf''"
  using cache_fifo_bounded [of "fst demo_history" "fst (snd demo_history)" "snd (snd demo_history)" "''leaf''"]
    demo_history_reach by (simp add: demo_history_def)

section \<open>One consumer at a time\<close>

fun releases :: "string \<Rightarrow> inbox_call \<Rightarrow> bool" where
  "releases a (Complete agent _ _) \<longleftrightarrow> agent = a"
| "releases a (Abandon agent _) \<longleftrightarrow> agent = a"
| "releases a _ \<longleftrightarrow> False"

lemma is_consumer_active_entry: "is_consumer_active a ib = aq_consumer_active (queue_entry ib a)"
  by (simp add: is_consumer_active_def queue_entry_def default_queue_def split: option.split)

definition being_delivered :: "string \<Rightarrow> inbox_message \<Rightarrow> agent_inbox \<Rightarrow> bool" where
  "being_delivered a m ib \<longleftrightarrow> is_consumer_active a ib \<and> (\<exists>ms. queued ib a = m # ms)"

lemma being_delivered_exec:
  assumes "being_delivered a m ib" and "\<not> releases a call"
  shows "being_delivered a m (ai_exec w call ib)"
proof (cases call)
  case (Enqueue agent m')
  obtain res ib' evs where run: "enqueue w agent m' ib = (res, ib', evs)" by (metis prod_cases3)
  from run assms(1) have "being_delivered a m ib'"
    by (cases rule: enqueue_cases)
      (auto simp: being_delivered_def is_consumer_active_entry queued_def push_message_def)
  with run Enqueue show ?thesis by simp
next
  case (Begin agent)
  have "being_delivered a m (snd (begin_delivery agent ib))"
    by (rule begin_delivery_cases [of agent ib, OF surjective_pairing])
      (use assms(1) in \<open>auto simp: being_delivered_def is_consumer_active_entry queued_def\<close>)
  with Begin show ?thesis by simp
qed (use assms in \<open>auto simp: being_delivered_def is_consumer_active_entry queued_def complete_delivery_def
      abandon_delivery_def queue_entry_def Let_def set_queue_def split: option.splits\<close>)

lemma being_delivered_run:
  "being_delivered a m ib \<Longrightarrow> (\<And>w call. (w, call) \<in> set calls \<Longrightarrow> \<not> releases a call) \<Longrightarrow>
     being_delivered a m (foldl (\<lambda>i (w, call). ai_exec w call i) ib calls)"
proof (induction calls arbitrary: ib)
  case (Cons x calls)
  obtain w call where x: "x = (w, call)" by (cases x)
  with Cons have "being_delivered a m (ai_exec w call ib)" by (intro being_delivered_exec) auto
  then have "being_delivered a m (foldl (\<lambda>i (w, call). ai_exec w call i) (ai_exec w call ib) calls)"
    by (rule Cons.IH) (use Cons.prems(2) in auto)
  with x show ?case by simp
qed simp

text \<open>C24. Once a delivery for an agent has begun, then whatever calls follow, as long as none of them
  completes or abandons a delivery for that agent, no second delivery begins and the message stays at
  the head; completing it successfully then removes exactly this message, completing it
  unsuccessfully keeps the queue, and abandoning it hands exactly this message back; each of the
  three frees the consumer.\<close>

theorem delivery_exclusive:
  assumes "begin_delivery a ib = (Some m, ib0)"
    and "\<forall>(w, call) \<in> set calls. \<not> releases a call"
    and "ib' = foldl (\<lambda>i (w, call). ai_exec w call i) ib0 calls"
  shows "begin_delivery a ib' = (None, ib')
     \<and> (\<exists>ms. queued ib' a = m # ms
         \<and> queued (complete_delivery a (im_id m) True ib') a = ms
         \<and> queued (complete_delivery a (im_id m) False ib') a = m # ms
         \<and> fst (abandon_delivery a (im_id m) ib') = Some m
         \<and> queued (snd (abandon_delivery a (im_id m) ib')) a = ms)
     \<and> \<not> is_consumer_active a (complete_delivery a (im_id m) success ib')
     \<and> \<not> is_consumer_active a (snd (abandon_delivery a (im_id m) ib'))"
proof -
  from assms(1) have "being_delivered a m ib0"
    by (cases rule: begin_delivery_cases)
      (auto simp: being_delivered_def is_consumer_active_entry queued_def)
  then have "being_delivered a m ib'" unfolding assms(3) by (rule being_delivered_run) (use assms(2) in auto)
  then obtain q ms where q: "ai_queues ib' a = Some q" "aq_consumer_active q" "aq_messages q = m # ms"
    by (auto simp: being_delivered_def is_consumer_active_def queued_def queue_entry_def split: option.splits)
  then show ?thesis
    by (simp add: begin_delivery_def complete_delivery_def abandon_delivery_def head_is_def queued_def
        queue_entry_Some pop_message_messages is_consumer_active_entry Let_def)
qed

theorem delivery_exclusive_witness:
  "fst (begin_delivery ''leaf'' demo_cache) = Some (demo_message ''a''\<lparr>im_id := 1\<rparr>)
   \<and> fst (begin_delivery ''leaf'' (snd (begin_delivery ''leaf'' demo_cache))) = None"
proof -
  have m: "fst (begin_delivery ''leaf'' demo_cache) = Some (demo_message ''a''\<lparr>im_id := 1\<rparr>)" by code_simp
  then have "begin_delivery ''leaf'' demo_cache =
      (Some (demo_message ''a''\<lparr>im_id := 1\<rparr>), snd (begin_delivery ''leaf'' demo_cache))"
    by (metis prod.collapse)
  from delivery_exclusive [OF this, of "[]" "snd (begin_delivery ''leaf'' demo_cache)"] m
  show ?thesis by simp
qed

section \<open>Structured producer keys\<close>

lemma parse_leading_u64_nat_str:
  assumes "n < 2 ^ 64" and "s = [] \<or> \<not> is_ascii_digit (hd s)"
  shows "parse_leading_u64 (nat_str n @ s) = Some n"
  using assms by (simp add: parse_leading_u64_def takeWhile_digits_nat_str Let_def)

lemma pr_number_of_notice:
  assumes "(tag, event_type) \<in> set structured_tags" and "n < 2 ^ 64" and "s = [] \<or> \<not> is_ascii_digit (hd s)"
  shows "parse_pr_number (tag @ '' PR #'' @ nat_str n @ s) = Some n"
proof -
  from assms(1) have "\<exists>pre. split_once ''PR #'' (tag @ '' PR #'' @ nat_str n @ s) = Some (pre, nat_str n @ s)"
    by (auto simp: structured_tags_def starts_with_def)
  then show ?thesis using parse_leading_u64_nat_str [OF assms(2,3)] by (auto simp: parse_pr_number_def)
qed

lemma find_structured_tag:
  assumes "(tag, event_type) \<in> set structured_tags" and "contains tag body"
    and "\<forall>(t, _) \<in> set structured_tags. contains t body \<longrightarrow> t = tag"
  shows "find (\<lambda>(t, _). contains t body) structured_tags = Some (tag, event_type)"
proof -
  have "find (\<lambda>(t, _). contains t body) structured_tags \<noteq> None"
    using assms(1,2) by (auto simp: find_None_iff)
  then obtain t ty where f: "find (\<lambda>(t, _). contains t body) structured_tags = Some (t, ty)" by auto
  then have "contains t body" and mem: "(t, ty) \<in> set structured_tags"
    by (auto simp: find_Some_iff in_set_conv_nth)
  with assms(3) have "t = tag" by auto
  moreover have "distinct (map fst structured_tags)" by code_simp
  with mem assms(1) \<open>t = tag\<close> have "ty = event_type" by (metis eq_key_imp_eq_value)
  ultimately show ?thesis using f by simp
qed

lemma notice_key:
  assumes "(tag, event_type) \<in> set structured_tags" and "n < 2 ^ 64" and "s = [] \<or> \<not> is_ascii_digit (hd s)"
    and "\<forall>(t, _) \<in> set structured_tags. contains t (tag @ '' PR #'' @ nat_str n @ s) \<longrightarrow> t = tag"
  shows "idempotency_key_for_message u recipient (tag @ '' PR #'' @ nat_str n @ s)
       = ''structured:'' @ recipient @ '':'' @ event_type @ '':'' @ nat_str n"
proof -
  have "contains tag (tag @ '' PR #'' @ nat_str n @ s)" using contains_append [of tag "[]"] by simp
  from find_structured_tag [OF assms(1) this assms(4)] pr_number_of_notice [OF assms(1-3)]
  show ?thesis by (simp add: idempotency_key_for_message_def pr_key_def)
qed

text \<open>The producer key of a structured notification names its recipient, the kind of the event and
  the pull request: for a body that begins with one of the six tags followed by the first
  pull-request reference, the key is the recipient, the tag's event name and the number in decimal, so that it
  does not depend on the fresh UUID or on anything after the number, and two such keys for one recipient and tag are equal exactly when
  the pull requests are.\<close>

lemma structured_key:
  assumes "(tag, event_type) \<in> set structured_tags"
    and "n < 2 ^ 64" and "n' < 2 ^ 64"
    and "s = [] \<or> \<not> is_ascii_digit (hd s)" and "s' = [] \<or> \<not> is_ascii_digit (hd s')"
    and "\<forall>(t, _) \<in> set structured_tags. contains t (tag @ '' PR #'' @ nat_str n @ s) \<longrightarrow> t = tag"
    and "\<forall>(t, _) \<in> set structured_tags. contains t (tag @ '' PR #'' @ nat_str n' @ s') \<longrightarrow> t = tag"
  shows "idempotency_key_for_message u recipient (tag @ '' PR #'' @ nat_str n @ s)
       = ''structured:'' @ recipient @ '':'' @ event_type @ '':'' @ nat_str n
     \<and> (idempotency_key_for_message u recipient (tag @ '' PR #'' @ nat_str n @ s)
         = idempotency_key_for_message u' recipient (tag @ '' PR #'' @ nat_str n' @ s') \<longleftrightarrow> n = n')"
  using notice_key [OF assms(1,2,4,6)] notice_key [OF assms(1,3,5,7)] by simp

end
