(* ===== verification/Agent_Inbox_Rebuild.thy ===== *)
theory Agent_Inbox_Rebuild
  imports Agent_Inbox_Properties Guidance_Properties
begin

text \<open>
  The transport cache composed with the durable queue: reconstruction copies every available
  pending batch once, in queue order, unless the hard cap is reached, and repeating it changes nothing.
\<close>

section \<open>Copying a list of batches\<close>

abbreviation batch_key :: "guidance_batch \<Rightarrow> string" where
  "batch_key b \<equiv> b_batch_id (gb_row b)"

definition uncached :: "agent_inbox \<Rightarrow> string \<Rightarrow> guidance_batch list \<Rightarrow> string list" where
  "uncached ib agent bs = filter (\<lambda>k. k \<notin> set (cache_keys (queued ib agent))) (map batch_key bs)"

lemma message_from_batch_ok:
  assumes "gb_items b \<noteq> []"
  obtains m where "message_from_batch b target dir opts = Inr m" and "im_cache_key m = Some (batch_key b)"
  using assms by (cases "gb_items b")
    (auto simp: message_from_batch_def Let_def with_cache_key_def)

lemma is_duplicate_inv:
  "ai_inv ib \<Longrightarrow> im_cache_key m = Some k \<Longrightarrow>
     is_duplicate (queue_entry ib agent) m \<longleftrightarrow> k \<in> set (cache_keys (queued ib agent))"
  using ai_inv_entry [of ib agent] by (simp add: is_duplicate_def queue_ok_def queued_def)

lemma set_queue_entry: "ai_queues ib agent \<noteq> None \<Longrightarrow> set_queue agent (queue_entry ib agent) ib = ib"
  by (auto simp: set_queue_def queue_entry_def map_upd_triv)

lemma cached_known: "k \<in> set (cache_keys (queued ib agent)) \<Longrightarrow> ai_queues ib agent \<noteq> None"
  by (auto simp: queued_def queue_entry_def default_queue_def split: option.splits)

lemma enqueue_cached:
  assumes "ai_inv ib" and "im_cache_key m = Some k" and "k \<in> set (cache_keys (queued ib agent))"
  obtains out evs where "enqueue w agent m ib = (Inr out, ib, evs)" and "eo_dropped_as_duplicate out"
proof -
  obtain res ib' evs where run: "enqueue w agent m ib = (res, ib', evs)" by (metis prod_cases3)
  then show thesis
    by (cases rule: enqueue_cases)
      (use that run assms is_duplicate_inv [OF assms(1,2), of agent] in
        \<open>auto simp: set_queue_entry [OF cached_known [OF assms(3)]]\<close>)
qed

lemma enqueue_uncached:
  assumes "ai_inv ib" and "im_cache_key m = Some k" and "k \<notin> set (cache_keys (queued ib agent))"
    and "length (queued ib agent) < ai_hard_cap ib"
  obtains out ib' evs where "enqueue w agent m ib = (Inr out, ib', evs)" and "\<not> eo_dropped_as_duplicate out"
    and "ai_inv ib'" and "ai_hard_cap ib' = ai_hard_cap ib" and "length (queued ib' agent) = Suc (length (queued ib agent))"
    and "cache_keys (queued ib' agent) = cache_keys (queued ib agent) @ [k]"
proof -
  obtain res ib' evs where run: "enqueue w agent m ib = (res, ib', evs)" by (metis prod_cases3)
  then show thesis
  proof (cases rule: enqueue_cases)
    case (pushed out)
    show thesis
      by (rule that [of out ib' evs])
        (use run pushed ai_inv_enqueue [OF run assms(1)] assms(2) in
          \<open>auto simp: queued_def push_message_def\<close>)
  qed (use assms is_duplicate_inv [OF assms(1,2), of agent] in auto)
qed

lemma enqueue_full:
  assumes "ai_inv ib" and "im_cache_key m = Some k" and "k \<notin> set (cache_keys (queued ib agent))"
    and "\<not> length (queued ib agent) < ai_hard_cap ib"
  shows "fst (enqueue w agent m ib) = Inl (InboxFull agent (ai_hard_cap ib) (ai_hard_cap ib))"
proof -
  obtain res ib' evs where run: "enqueue w agent m ib = (res, ib', evs)" by (metis prod_cases3)
  have "length (queued ib agent) = ai_hard_cap ib"
    using ai_inv_entry [OF assms(1), of agent] assms(4) by (simp add: queue_ok_def queued_def)
  from run this show ?thesis
    by (cases rule: enqueue_cases) (use assms run is_duplicate_inv [OF assms(1,2), of agent] in auto)
qed

lemma uncached_after:
  "cache_keys (queued ib' agent) = cache_keys (queued ib agent) @ [k] \<Longrightarrow> k \<notin> set (map batch_key bs) \<Longrightarrow>
     uncached ib' agent bs = uncached ib agent bs"
  by (auto simp: uncached_def intro: filter_cong)

lemma enqueue_batches_fit:
  assumes "ai_inv ib" and "distinct (map batch_key bs)" and "\<forall>b \<in> set bs. gb_items b \<noteq> []"
    and "length (queued ib agent) + length (uncached ib agent bs) \<le> ai_hard_cap ib"
  shows "\<exists>ib' evs. enqueue_batches w agent target dir opts bs n ib
       = (Inr (n + length (uncached ib agent bs)), ib', evs)
     \<and> ai_inv ib' \<and> ai_hard_cap ib' = ai_hard_cap ib
     \<and> cache_keys (queued ib' agent) = cache_keys (queued ib agent) @ uncached ib agent bs"
  using assms
proof (induction bs arbitrary: n ib)
  case Nil
  then show ?case by (simp add: uncached_def)
next
  case (Cons b bs)
  from Cons.prems(3) obtain m where m: "message_from_batch b target dir opts = Inr m"
    "im_cache_key m = Some (batch_key b)" using message_from_batch_ok by (metis list.set_intros(1))
  show ?case
  proof (cases "batch_key b \<in> set (cache_keys (queued ib agent))")
    case True
    obtain out evs where e: "enqueue w agent m ib = (Inr out, ib, evs)" "eo_dropped_as_duplicate out"
      by (rule enqueue_cached [OF Cons.prems(1) m(2) True])
    from True have u: "uncached ib agent (b # bs) = uncached ib agent bs" by (simp add: uncached_def)
    from Cons.IH [of ib n] Cons.prems show ?thesis by (auto simp: m e u)
  next
    case False
    then have u: "uncached ib agent (b # bs) = batch_key b # uncached ib agent bs" by (simp add: uncached_def)
    with Cons.prems(4) have "length (queued ib agent) < ai_hard_cap ib" by simp
    from enqueue_uncached [OF Cons.prems(1) m(2) False this, of w]
    obtain out ib1 evs where e: "enqueue w agent m ib = (Inr out, ib1, evs)" "\<not> eo_dropped_as_duplicate out"
      "ai_inv ib1" "ai_hard_cap ib1 = ai_hard_cap ib" "length (queued ib1 agent) = Suc (length (queued ib agent))"
      "cache_keys (queued ib1 agent) = cache_keys (queued ib agent) @ [batch_key b]" by blast
    have u1: "uncached ib1 agent bs = uncached ib agent bs"
      using e(6) Cons.prems(2) by (intro uncached_after) auto
    from Cons.IH [of ib1 "n + 1"] Cons.prems e u u1 show ?thesis by (auto simp: m)
  qed
qed

lemma enqueue_batches_overflow:
  assumes "ai_inv ib" and "distinct (map batch_key bs)" and "\<forall>b \<in> set bs. gb_items b \<noteq> []"
    and "length (queued ib agent) + length (uncached ib agent bs) > ai_hard_cap ib"
  shows "fst (enqueue_batches w agent target dir opts bs n ib)
    = Inl (InboxFull agent (ai_hard_cap ib) (ai_hard_cap ib))"
  using assms
proof (induction bs arbitrary: n ib)
  case Nil
  then show ?case using ai_inv_entry [of ib agent] by (simp add: uncached_def queue_ok_def queued_def)
next
  case (Cons b bs)
  from Cons.prems(3) obtain m where m: "message_from_batch b target dir opts = Inr m"
    "im_cache_key m = Some (batch_key b)" using message_from_batch_ok by (metis list.set_intros(1))
  consider (dup) "batch_key b \<in> set (cache_keys (queued ib agent))"
    | (full) "batch_key b \<notin> set (cache_keys (queued ib agent))" "\<not> length (queued ib agent) < ai_hard_cap ib"
    | (room) "batch_key b \<notin> set (cache_keys (queued ib agent))" "length (queued ib agent) < ai_hard_cap ib" by blast
  then show ?case
  proof cases
    case dup
    obtain out evs where e: "enqueue w agent m ib = (Inr out, ib, evs)" "eo_dropped_as_duplicate out"
      by (rule enqueue_cached [OF Cons.prems(1) m(2) dup])
    from dup have u: "uncached ib agent (b # bs) = uncached ib agent bs" by (simp add: uncached_def)
    from Cons.IH [of ib n] Cons.prems show ?thesis by (auto simp: m e u split: prod.split)
  next
    case full
    from enqueue_full [OF Cons.prems(1) m(2) full, of w] show ?thesis
      by (auto simp: m split: prod.splits sum.splits)
  next
    case room
    then have u: "uncached ib agent (b # bs) = batch_key b # uncached ib agent bs" by (simp add: uncached_def)
    from enqueue_uncached [OF Cons.prems(1) m(2) room, of w]
    obtain out ib1 evs where e: "enqueue w agent m ib = (Inr out, ib1, evs)" "\<not> eo_dropped_as_duplicate out"
      "ai_inv ib1" "ai_hard_cap ib1 = ai_hard_cap ib" "length (queued ib1 agent) = Suc (length (queued ib agent))"
      "cache_keys (queued ib1 agent) = cache_keys (queued ib agent) @ [batch_key b]" by blast
    have u1: "uncached ib1 agent bs = uncached ib agent bs"
      using e(6) Cons.prems(2) by (intro uncached_after) auto
    from Cons.IH [of ib1 "n + 1"] Cons.prems e u u1 show ?thesis by (auto simp: m split: prod.split)
  qed
qed

lemma enqueue_batches_cached:
  assumes "ai_inv ib" and "\<forall>b \<in> set bs. gb_items b \<noteq> []"
    and "set (map batch_key bs) \<subseteq> set (cache_keys (queued ib agent))"
  shows "\<exists>evs. enqueue_batches w agent target dir opts bs n ib = (Inr n, ib, evs)"
  using assms(2,3)
proof (induction bs)
  case (Cons b bs)
  then obtain m where m: "message_from_batch b target dir opts = Inr m"
    "im_cache_key m = Some (batch_key b)" using message_from_batch_ok by (metis list.set_intros(1))
  obtain out evs where e: "enqueue w agent m ib = (Inr out, ib, evs)" "eo_dropped_as_duplicate out"
    by (rule enqueue_cached [OF assms(1) m(2), of agent w]) (use Cons.prems in auto)
  from Cons m e show ?case by auto
qed simp

section \<open>The pending batches of the durable queue\<close>

definition available_rows :: "db \<Rightarrow> string \<Rightarrow> int \<Rightarrow> batch_row list" where
  "available_rows d agent t = sort_key b_queue_seq
     (filter (\<lambda>r. b_agent_id r = normalize_agent_id agent \<and> b_state r = Pending \<and> b_available_at r \<le> t)
       (batches d))"

lemma pending_batches_loaded:
  assumes "gq_inv d"
  shows "pending_batches_for_agent d agent t = Inr (map (loaded d) (available_rows d agent t))"
proof -
  have "load_batch d (b_batch_id r) = Inr (loaded d r)" if "r \<in> set (available_rows d agent t)" for r
    using that gq_inv_load [OF assms row_of_in [OF assms]] by (auto simp: available_rows_def)
  then have "traverse (\<lambda>r. load_batch d (b_batch_id r)) (available_rows d agent t)
      = Inr (map (loaded d) (available_rows d agent t))" by (rule traverse_all_Inr)
  moreover have "traverse f (map g xs) = traverse (\<lambda>x. f (g x)) xs" for f :: "string \<Rightarrow> gq_error + guidance_batch"
    and g :: "batch_row \<Rightarrow> string" and xs by (induction xs) auto
  ultimately show ?thesis by (simp add: pending_batches_for_agent_def available_rows_def)
qed

lemma available_ids_distinct: "gq_inv d \<Longrightarrow> distinct (map b_batch_id (available_rows d agent t))"
  by (auto simp: available_rows_def gq_inv_def keys_ok_def distinct_map inj_on_def)

lemma available_items: "gq_inv d \<Longrightarrow> r \<in> set (available_rows d agent t) \<Longrightarrow> batch_items d (b_batch_id r) \<noteq> []"
  by (auto simp: available_rows_def gq_inv_def item_table_ok_def list_all_iff items_ok_def)

lemma recover_idempotent:
  assumes "gq_inv d"
  shows "fst (recover_expired_in_tx t (fst (recover_expired_in_tx t d))) = fst (recover_expired_in_tx t d)"
proof -
  let ?d = "fst (recover_expired_in_tx t d)"
  have "sql_update (expired t) (recover_update t) (batches ?d) = batches ?d"
    by (rule sql_update_none)
      (use assms in \<open>auto simp: recover_batches gq_inv_def keys_ok_def set_sql_update recover_update_def dest: expired_in_flight\<close>)
  moreover have "gq_inv ?d" by (rule gq_inv_recover [OF assms])
  ultimately show ?thesis by (simp add: recover_batches gq_inv_def keys_ok_def)
qed

lemma rebuild_eq:
  fixes d :: db and t :: int and w :: sink_env and agent target dir :: string
    and opts :: injection_options and ib :: agent_inbox
  assumes "gq_inv d"
  defines "d1 \<equiv> fst (recover_expired_in_tx t d)"
  defines "run \<equiv> enqueue_batches w agent target dir opts (map (loaded d1) (available_rows d1 agent t)) 0 ib"
  shows "rebuild_from_durable_at w agent target dir opts t d ib =
     (fst run, fst (snd run), d1, snd (snd (recover_expired_leases t d)), snd (snd run))"
proof -
  have "gq_inv d1" unfolding d1_def by (rule gq_inv_recover [OF assms(1)])
  moreover have "fst (snd (recover_expired_leases t d)) = d1"
    by (simp add: d1_def recover_expired_leases_db)
  ultimately show ?thesis
    by (auto simp: rebuild_from_durable_at_def pending_batches_loaded run_def split: prod.splits)
qed

text \<open>C26. Rebuilding an agent's queue of the transport cache from the durable queue: expired leases are
  recovered first; then, when the batches not yet cached fit under the hard cap, every available
  pending batch of the agent is cached exactly once, the new ones behind the old ones in
  queue order, the number of new ones is returned, and repeating the rebuild restores nothing and
  changes nothing; when they do not fit, the rebuild fails with the full queue as its error.\<close>

theorem rebuild_complete:
  assumes "gq_inv d" and "ai_inv ib"
    and "rebuild_from_durable_at w agent target dir opts t d ib = (res, ib', d', mirrored, evs)"
    and "pending = map b_batch_id (available_rows d' agent t)"
    and "fresh = filter (\<lambda>k. k \<notin> set (cache_keys (queued ib agent))) pending"
  shows "d' = fst (recover_expired_in_tx t d)
     \<and> (if length (queued ib agent) + length fresh \<le> ai_hard_cap ib
        then res = Inr (length fresh)
          \<and> cache_keys (queued ib' agent) = cache_keys (queued ib agent) @ fresh
          \<and> distinct (cache_keys (queued ib' agent)) \<and> set pending \<subseteq> set (cache_keys (queued ib' agent))
          \<and> fst (rebuild_from_durable_at w agent target dir opts t d' ib') = Inr 0
          \<and> fst (snd (rebuild_from_durable_at w agent target dir opts t d' ib')) = ib'
        else res = Inl (InboxFull agent (ai_hard_cap ib) (ai_hard_cap ib)))"
proof -
  let ?bs = "map (loaded d') (available_rows d' agent t)"
  from assms(3) have d': "d' = fst (recover_expired_in_tx t d)"
    and run: "res = fst (enqueue_batches w agent target dir opts ?bs 0 ib)"
      "ib' = fst (snd (enqueue_batches w agent target dir opts ?bs 0 ib))"
    by (auto simp: rebuild_eq [OF assms(1)])
  have inv: "gq_inv d'" unfolding d' by (rule gq_inv_recover [OF assms(1)])
  have again: "fst (recover_expired_in_tx t d') = d'" unfolding d' by (rule recover_idempotent [OF assms(1)])
  have keys: "map batch_key ?bs = pending" by (simp add: assms(4) comp_def)
  have dist: "distinct (map batch_key ?bs)" using available_ids_distinct [OF inv] by (simp add: comp_def)
  have nonempty: "\<forall>b \<in> set ?bs. gb_items b \<noteq> []" using available_items [OF inv] by auto
  have fresh: "uncached ib agent ?bs = fresh" unfolding uncached_def keys assms(5) ..
  show ?thesis
  proof (cases "length (queued ib agent) + length fresh \<le> ai_hard_cap ib")
    case True
    from enqueue_batches_fit [OF assms(2) dist nonempty, of agent w target dir opts 0] True fresh run
    have fit: "res = Inr (length fresh)" "ai_inv ib'"
      and ks: "cache_keys (queued ib' agent) = cache_keys (queued ib agent) @ fresh" by auto
    from ks assms(5) have sub: "set pending \<subseteq> set (cache_keys (queued ib' agent))" by auto
    then obtain evs2 where "enqueue_batches w agent target dir opts ?bs 0 ib' = (Inr 0, ib', evs2)"
      using enqueue_batches_cached [OF fit(2) nonempty, of agent w target dir opts 0] unfolding keys by blast
    moreover have "distinct (cache_keys (queued ib' agent))"
      using ai_inv_entry [OF fit(2), of agent] by (simp add: queue_ok_def queued_def)
    ultimately show ?thesis using True fit(1) ks sub
      by (simp add: rebuild_eq [OF inv] again) (rule d')
  next
    case False
    with enqueue_batches_overflow [OF assms(2) dist nonempty, of agent w target dir opts 0] fresh run d'
    show ?thesis by simp
  qed
qed

abbreviation demo_rebuild :: "(inbox_error + nat) \<times> agent_inbox \<times> db \<times> mirror_event list \<times> inbox_event list" where
  "demo_rebuild \<equiv> rebuild_from_durable_at demo_sink ''leaf'' ''%1'' ''/w'' inline_submit 200 (fst demo_queued) agent_inbox_default"

theorem rebuild_complete_witness:
  "fst demo_rebuild = Inr 1 \<and> cache_keys (queued (fst (snd demo_rebuild)) ''leaf'') = [''a'']
   \<and> fst (rebuild_from_durable_at demo_sink ''leaf'' ''%1'' ''/w'' inline_submit 200
            (fst (snd (snd demo_rebuild))) (fst (snd demo_rebuild))) = Inr 0"
proof -
  have inv: "ai_inv agent_inbox_default" by (simp add: ai_inv_def agent_inbox_default_def agent_inbox_new_def)
  have run: "demo_rebuild = (fst demo_rebuild, fst (snd demo_rebuild), fst (snd (snd demo_rebuild)),
      fst (snd (snd (snd demo_rebuild))), snd (snd (snd (snd demo_rebuild))))" by simp
  have pending: "map b_batch_id (available_rows (fst (snd (snd demo_rebuild))) ''leaf'' 200) = [''a'']" by code_simp
  have q: "queued agent_inbox_default ''leaf'' = []" "ai_hard_cap agent_inbox_default = 32" by code_simp+
  from conjunct2 [OF rebuild_complete [OF demo_inv(1) inv run refl refl]] show ?thesis by (simp add: pending q)
qed

end
