(* ===== verification/Mutex_Registry.thy ===== *)
theory Mutex_Registry
  imports Prelude
begin

text \<open>
  \<^verbatim>\<open>services/mutex_registry.rs\<close>: named advisory locks with waiting queues. \<^verbatim>\<open>Instant\<close> and
  \<^verbatim>\<open>Duration\<close> are natural numbers; a \<^verbatim>\<open>oneshot\<close> channel is a number, whose receiver may have been
  dropped (its waiter timed out or went away) and to which one response may have been sent; the sender
  of a waiter that is dropped without an answer closes its channel.

  The two maps have a lock each. \<^verbatim>\<open>acquire\<close> takes and releases them in turn, and
  \<^verbatim>\<open>grant_next_waiter\<close> holds the one of the waiters and takes the other in every iteration, so that
  other tasks run between these points: the steps of the machine at the end are exactly the stretches
  between them.
\<close>

section \<open>State\<close>

record lock_state =
  lk_lock_id :: string
  lk_holder_agent :: string
  lk_intent :: string
  lk_acquired_at :: nat
  lk_expires_at :: nat

record waiter =
  wt_agent :: string
  wt_intent :: string
  wt_estimated_time :: nat
  wt_tx :: nat

record acquire_response =
  ar_acquired :: bool
  ar_lock_id :: string
  ar_holder_intent :: string

record mutex_registry =
  mr_locks :: "string \<Rightarrow> lock_state option"
  mr_waiters :: "string \<Rightarrow> waiter list option"
  mr_dropped :: "nat list"
  mr_sent :: "(nat \<times> acquire_response) list"
  mr_closed :: "nat list"

definition mutex_registry_new :: mutex_registry where
  "mutex_registry_new = \<lparr>mr_locks = (\<lambda>_. None), mr_waiters = (\<lambda>_. None), mr_dropped = [],
     mr_sent = [], mr_closed = []\<rparr>"

section \<open>Operations\<close>

definition new_lock :: "string \<Rightarrow> string \<Rightarrow> string \<Rightarrow> nat \<Rightarrow> nat \<Rightarrow> lock_state" where
  "new_lock uuid agent intent now estimated_time =
     \<lparr>lk_lock_id = uuid, lk_holder_agent = agent, lk_intent = intent, lk_acquired_at = now,
      lk_expires_at = now + estimated_time\<rparr>"

text \<open>The fast path of \<^verbatim>\<open>acquire\<close>: \<open>None\<close> sends the caller to the slow path.\<close>

definition acquire_fast ::
  "string \<Rightarrow> nat \<Rightarrow> string \<Rightarrow> string \<Rightarrow> string \<Rightarrow> nat \<Rightarrow> mutex_registry
     \<Rightarrow> acquire_response option \<times> mutex_registry" where
  "acquire_fast uuid now resource agent intent estimated_time mr =
     (case mr_locks mr resource of
        Some lock \<Rightarrow>
          if lk_holder_agent lock = agent
          then (Some \<lparr>ar_acquired = True, ar_lock_id = lk_lock_id lock, ar_holder_intent = lk_intent lock\<rparr>, mr)
          else (None, mr)
      | None \<Rightarrow>
          (Some \<lparr>ar_acquired = True, ar_lock_id = uuid, ar_holder_intent = intent\<rparr>,
           mr\<lparr>mr_locks := (mr_locks mr)(resource \<mapsto> new_lock uuid agent intent now estimated_time)\<rparr>))"

definition current_holder_intent :: "string \<Rightarrow> mutex_registry \<Rightarrow> string" where
  "current_holder_intent resource mr =
     (case mr_locks mr resource of None \<Rightarrow> [] | Some lock \<Rightarrow> lk_intent lock)"

definition register_waiter :: "string \<Rightarrow> waiter \<Rightarrow> mutex_registry \<Rightarrow> mutex_registry" where
  "register_waiter resource w mr =
     mr\<lparr>mr_waiters := (mr_waiters mr)(resource \<mapsto>
          (case mr_waiters mr resource of None \<Rightarrow> [] | Some q \<Rightarrow> q) @ [w])\<rparr>"

text \<open>How the slow path ends: with the response that was sent, or without the lock when the channel
  was closed or the wait timed out.\<close>

datatype wait_outcome = Received acquire_response | ChannelClosed | TimedOut

fun acquire_slow_result :: "string \<Rightarrow> wait_outcome \<Rightarrow> acquire_response" where
  "acquire_slow_result holder_intent (Received resp) = resp"
| "acquire_slow_result holder_intent ChannelClosed =
     \<lparr>ar_acquired = False, ar_lock_id = [], ar_holder_intent = holder_intent\<rparr>"
| "acquire_slow_result holder_intent TimedOut =
     \<lparr>ar_acquired = False, ar_lock_id = [], ar_holder_intent = holder_intent\<rparr>"

text \<open>The part of \<^verbatim>\<open>release\<close> under the lock of the locks; \<open>True\<close> sends the caller on to
  \<^verbatim>\<open>grant_next_waiter\<close>.\<close>

definition release_lock :: "string \<Rightarrow> string \<Rightarrow> mutex_registry \<Rightarrow> bool \<times> mutex_registry" where
  "release_lock resource lock_id mr =
     (case mr_locks mr resource of
        None \<Rightarrow> (False, mr)
      | Some lock \<Rightarrow>
          if lk_lock_id lock = lock_id
          then (True, mr\<lparr>mr_locks := (mr_locks mr)(resource := None)\<rparr>)
          else (False, mr))"

text \<open>One iteration of the loop of \<^verbatim>\<open>grant_next_waiter\<close>; \<open>True\<close> is another iteration.\<close>

definition grant_iteration :: "string \<Rightarrow> nat \<Rightarrow> string \<Rightarrow> mutex_registry \<Rightarrow> bool \<times> mutex_registry" where
  "grant_iteration uuid now resource mr =
     (case mr_waiters mr resource of
        None \<Rightarrow> (False, mr)
      | Some [] \<Rightarrow> (False, mr)
      | Some (w # q) \<Rightarrow>
          (let mr1 = mr\<lparr>mr_waiters := (mr_waiters mr)(resource \<mapsto> q)\<rparr> in
           if mr_locks mr1 resource = None then
             (let mr2 = mr1\<lparr>mr_locks := (mr_locks mr1)(resource \<mapsto>
                             new_lock uuid (wt_agent w) (wt_intent w) now (wt_estimated_time w))\<rparr>;
                  resp = \<lparr>ar_acquired = True, ar_lock_id = uuid, ar_holder_intent = wt_intent w\<rparr>
              in if wt_tx w \<notin> set (mr_dropped mr)
                 then (False, mr2\<lparr>mr_sent := mr_sent mr2 @ [(wt_tx w, resp)]\<rparr>)
                 else (True, mr2\<lparr>mr_locks := (mr_locks mr2)(resource := None)\<rparr>))
           else (True, mr1\<lparr>mr_closed := mr_closed mr1 @ [wt_tx w]\<rparr>)))"

definition queue_length :: "string \<Rightarrow> mutex_registry \<Rightarrow> nat" where
  "queue_length resource mr = (case mr_waiters mr resource of None \<Rightarrow> 0 | Some q \<Rightarrow> length q)"

lemma grant_iteration_shrinks:
  "grant_iteration uuid now resource mr = (True, mr') \<Longrightarrow> queue_length resource mr' < queue_length resource mr"
  by (auto simp: grant_iteration_def queue_length_def Let_def split: option.splits list.splits if_splits)

text \<open>\<^verbatim>\<open>grant_next_waiter\<close> when no other task runs in between: the n-th iteration draws the n-th UUID and
  reads the clock once.\<close>

function grant_next_waiter :: "(nat \<Rightarrow> string \<times> nat) \<Rightarrow> nat \<Rightarrow> string \<Rightarrow> mutex_registry \<Rightarrow> mutex_registry" where
  "grant_next_waiter env n resource mr =
     (case grant_iteration (fst (env n)) (snd (env n)) resource mr of
        (False, mr') \<Rightarrow> mr'
      | (True, mr') \<Rightarrow> grant_next_waiter env (Suc n) resource mr')"
  by pat_completeness auto
termination
  by (relation "measure (\<lambda>(env, n, resource, mr). queue_length resource mr)")
    (auto dest: sym [THEN grant_iteration_shrinks])

declare grant_next_waiter.simps [simp del]

definition release :: "(nat \<Rightarrow> string \<times> nat) \<Rightarrow> string \<Rightarrow> string \<Rightarrow> mutex_registry \<Rightarrow> bool \<times> mutex_registry" where
  "release env resource lock_id mr =
     (case release_lock resource lock_id mr of
        (False, mr1) \<Rightarrow> (False, mr1)
      | (True, mr1) \<Rightarrow> (True, grant_next_waiter env 0 resource mr1))"

text \<open>One tick of the expiry task: it collects the expired locks in the order in which the map lists its
  resources and then releases each; \<open>env k\<close> serves the k-th release.\<close>

fun is_expired :: "nat \<Rightarrow> mutex_registry \<Rightarrow> string \<Rightarrow> string option" where
  "is_expired now mr resource =
     (case mr_locks mr resource of
        None \<Rightarrow> None
      | Some lock \<Rightarrow> if now \<ge> lk_expires_at lock then Some (lk_lock_id lock) else None)"

fun release_all :: "(nat \<Rightarrow> nat \<Rightarrow> string \<times> nat) \<Rightarrow> nat \<Rightarrow> (string \<times> string) list \<Rightarrow> mutex_registry \<Rightarrow> mutex_registry" where
  "release_all env k [] mr = mr"
| "release_all env k ((resource, lock_id) # rest) mr =
     release_all env (Suc k) rest (snd (release (env k) resource lock_id mr))"

definition expiry_tick ::
  "(nat \<Rightarrow> nat \<Rightarrow> string \<times> nat) \<Rightarrow> nat \<Rightarrow> string list \<Rightarrow> mutex_registry \<Rightarrow> mutex_registry" where
  "expiry_tick env now resources mr =
     release_all env 0
       (List.map_filter (\<lambda>r. map_option (Pair r) (is_expired now mr r)) resources) mr"

end
