(* ===== verification/Mutex_Properties.thy ===== *)
theory Mutex_Properties
  imports Mutex_Registry
begin

text \<open>
  The registry as a machine of interleaved tasks, mutual exclusion of the holders along its runs, and
  the hand-over of a released lock compared with a reference: the first waiter still there gets it.
\<close>

section \<open>Interleaved tasks\<close>

record mutex_world =
  mw_reg :: mutex_registry
  mw_registering :: "(string \<times> waiter) list"
  mw_to_grant :: "string list"
  mw_granting :: "string option"

definition mutex_start :: mutex_world where
  "mutex_start = \<lparr>mw_reg = mutex_registry_new, mw_registering = [], mw_to_grant = [], mw_granting = None\<rparr>"

datatype mutex_label = Answered string string acquire_response | Released string string | Silent

definition grant_label :: "string \<Rightarrow> mutex_registry \<Rightarrow> mutex_registry \<Rightarrow> mutex_label" where
  "grant_label r mr mr' =
     (if mr_sent mr' = mr_sent mr then Silent
      else Answered r (wt_agent (hd (the (mr_waiters mr r)))) (snd (last (mr_sent mr'))))"

text \<open>A waiter is between the fast path and its registration while it is in \<open>mw_registering\<close>;
  \<open>mw_to_grant\<close> holds the releases that wait for the lock of the waiters and \<open>mw_granting\<close> the one that
  has it. The expiry task releases like any client.\<close>

inductive mutex_step :: "mutex_world \<Rightarrow> mutex_label \<Rightarrow> mutex_world \<Rightarrow> bool" where
  fast_answer: "acquire_fast uuid now r a i est (mw_reg s) = (Some resp, mr) \<Longrightarrow>
     mutex_step s (Answered r a resp) (s\<lparr>mw_reg := mr\<rparr>)"
| fast_wait: "acquire_fast uuid now r a i est (mw_reg s) = (None, mr) \<Longrightarrow>
     mutex_step s Silent (s\<lparr>mw_reg := mr, mw_registering := mw_registering s @
       [(r, \<lparr>wt_agent = a, wt_intent = i, wt_estimated_time = est, wt_tx = ch\<rparr>)]\<rparr>)"
| slow_register: "mw_granting s = None \<Longrightarrow> (r, w) \<in> set (mw_registering s) \<Longrightarrow>
     mutex_step s Silent (s\<lparr>mw_reg := register_waiter r w (mw_reg s),
       mw_registering := remove1 (r, w) (mw_registering s)\<rparr>)"
| waiter_gone: "mutex_step s Silent (s\<lparr>mw_reg := (mw_reg s)\<lparr>mr_dropped := ch # mr_dropped (mw_reg s)\<rparr>\<rparr>)"
| release_hit: "release_lock r lid (mw_reg s) = (True, mr) \<Longrightarrow>
     mutex_step s (Released r lid) (s\<lparr>mw_reg := mr, mw_to_grant := mw_to_grant s @ [r]\<rparr>)"
| release_miss: "release_lock r lid (mw_reg s) = (False, mr) \<Longrightarrow>
     mutex_step s Silent (s\<lparr>mw_reg := mr\<rparr>)"
| grant_begin: "mw_granting s = None \<Longrightarrow> r \<in> set (mw_to_grant s) \<Longrightarrow>
     mutex_step s Silent (s\<lparr>mw_to_grant := remove1 r (mw_to_grant s), mw_granting := Some r\<rparr>)"
| grant_iterate: "mw_granting s = Some r \<Longrightarrow> grant_iteration uuid now r (mw_reg s) = (again, mr) \<Longrightarrow>
     mutex_step s (grant_label r (mw_reg s) mr) (s\<lparr>mw_reg := mr, mw_granting := (if again then Some r else None)\<rparr>)"

inductive mutex_run :: "mutex_world \<Rightarrow> mutex_label list \<Rightarrow> mutex_world \<Rightarrow> bool" where
  run_nil: "mutex_run s [] s"
| run_cons: "mutex_step s l t \<Longrightarrow> mutex_run t ls u \<Longrightarrow> mutex_run s (l # ls) u"

inductive_cases mutex_run_ConsE: "mutex_run s (l # ls) u"

abbreviation lock_at :: "mutex_world \<Rightarrow> string \<Rightarrow> lock_state option" where
  "lock_at s r \<equiv> mr_locks (mw_reg s) r"

section \<open>Mutual exclusion\<close>

lemma grant_iteration_held:
  assumes "grant_iteration uuid now r' mr = (again, mr')" and "mr_locks mr r = Some lock"
  shows "mr_locks mr' r = Some lock" and "grant_label r' mr mr' = Answered r a resp \<Longrightarrow> False"
  using assms
  by (auto simp: grant_iteration_def grant_label_def Let_def split: option.splits list.splits if_splits)

lemma held_step:
  assumes "mutex_step s l t" and "lock_at s r = Some lock" and "l \<noteq> Released r (lk_lock_id lock)"
  shows "lock_at t r = Some lock"
  using assms
proof cases
  case (grant_iterate r' uuid now again mr)
  then show ?thesis using grant_iteration_held(1) [OF grant_iterate(4) assms(2)] by simp
qed (auto simp: acquire_fast_def register_waiter_def release_lock_def split: option.splits if_splits)

lemma held_answer:
  assumes "mutex_step s (Answered r a resp) t" and "lock_at s r = Some lock"
  shows "a = lk_holder_agent lock \<and> ar_acquired resp \<and> ar_lock_id resp = lk_lock_id lock"
  using assms(1)
proof cases
  case (grant_iterate r' uuid now again mr)
  from grant_iterate(1) grant_iteration_held(2) [OF grant_iterate(4) assms(2), of a resp]
  show ?thesis by metis
qed (use assms(2) in \<open>auto simp: acquire_fast_def split: if_splits\<close>)

text \<open>C27. Mutual exclusion. While an agent holds a resource, that is on every run on which its lock
  identifier is not released, by itself or by the expiry task, the lock stays exactly as it is, and every answer that grants the resource goes to the
  same agent and repeats the same lock identifier, whatever other agents acquire, wait, give up or
  release in between and however the tasks interleave.\<close>

theorem mutex_exclusive:
  assumes "mutex_run s labels t" and "lock_at s r = Some lock"
    and "Released r (lk_lock_id lock) \<notin> set labels"
  shows "lock_at t r = Some lock
     \<and> (\<forall>a resp. Answered r a resp \<in> set labels \<longrightarrow>
          a = lk_holder_agent lock \<and> ar_acquired resp \<and> ar_lock_id resp = lk_lock_id lock)"
  using assms
proof (induction rule: mutex_run.induct)
  case (run_cons s l t ls u)
  then have "lock_at t r = Some lock" by (auto intro: held_step)
  with run_cons show ?case using held_answer by fastforce
qed auto

definition demo_lock :: lock_state where
  "demo_lock = new_lock ''l1'' ''alice'' ''rebase'' 5 60"

definition demo_held :: mutex_world where
  "demo_held = mutex_start\<lparr>mw_reg := mutex_registry_new\<lparr>mr_locks := [''main'' \<mapsto> demo_lock]\<rparr>\<rparr>"

definition demo_answer :: acquire_response where
  "demo_answer = \<lparr>ar_acquired = True, ar_lock_id = ''l1'', ar_holder_intent = ''rebase''\<rparr>"

lemma demo_reacquire: "mutex_run demo_held [Answered ''main'' ''alice'' demo_answer] demo_held"
proof -
  have "acquire_fast ''l2'' 9 ''main'' ''alice'' ''push'' 10 (mw_reg demo_held) = (Some demo_answer, mw_reg demo_held)"
    by (simp add: acquire_fast_def demo_held_def demo_lock_def demo_answer_def new_lock_def)
  from fast_answer [OF this] have "mutex_step demo_held (Answered ''main'' ''alice'' demo_answer) demo_held"
    by (simp add: demo_held_def)
  from run_cons [OF this run_nil] show ?thesis .
qed

theorem mutex_exclusive_witness:
  "lock_at demo_held ''main'' = Some demo_lock \<and> ar_lock_id demo_answer = lk_lock_id demo_lock"
proof -
  have "lock_at demo_held ''main'' = Some demo_lock" by (simp add: demo_held_def)
  from mutex_exclusive [OF demo_reacquire this] show ?thesis by simp
qed

section \<open>Hand-over\<close>

text \<open>The reference: the waiters whose receiver is gone are skipped, the first other one gets the lock.\<close>

definition hand_over :: "(nat \<Rightarrow> string \<times> nat) \<Rightarrow> nat \<Rightarrow> string \<Rightarrow> waiter list \<Rightarrow> mutex_registry \<Rightarrow> mutex_registry" where
  "hand_over env n r q mr =
     (let gone = (\<lambda>w. wt_tx w \<in> set (mr_dropped mr)); k = n + length (takeWhile gone q) in
      case dropWhile gone q of
        [] \<Rightarrow> mr\<lparr>mr_waiters := (mr_waiters mr)(r \<mapsto> [])\<rparr>
      | w # ws \<Rightarrow>
          mr\<lparr>mr_waiters := (mr_waiters mr)(r \<mapsto> ws),
             mr_locks := (mr_locks mr)(r \<mapsto>
               new_lock (fst (env k)) (wt_agent w) (wt_intent w) (snd (env k)) (wt_estimated_time w)),
             mr_sent := mr_sent mr @
               [(wt_tx w, \<lparr>ar_acquired = True, ar_lock_id = fst (env k), ar_holder_intent = wt_intent w\<rparr>)]\<rparr>)"

lemma waiters_triv: "mr_waiters mr r = Some q \<Longrightarrow> mr\<lparr>mr_waiters := (mr_waiters mr)(r \<mapsto> q)\<rparr> = mr"
  by (cases mr) (auto simp: fun_upd_idem)

lemma locks_triv: "mr\<lparr>mr_locks := mr_locks mr, mr_waiters := f\<rparr> = mr\<lparr>mr_waiters := f\<rparr>"
  by simp

lemma grant_free:
  "mr_waiters mr r = Some q \<Longrightarrow> mr_locks mr r = None \<Longrightarrow> grant_next_waiter env n r mr = hand_over env n r q mr"
proof (induction q arbitrary: mr n)
  case Nil
  then show ?case
    by (simp add: grant_next_waiter.simps [of env n] grant_iteration_def hand_over_def waiters_triv)
next
  case (Cons w q)
  let ?mr = "mr\<lparr>mr_waiters := (mr_waiters mr)(r \<mapsto> q), mr_locks := (mr_locks mr)(r := None)\<rparr>"
  show ?case
  proof (cases "wt_tx w \<in> set (mr_dropped mr)")
    case True
    with Cons.prems have "grant_next_waiter env n r mr = grant_next_waiter env (Suc n) r ?mr"
      by (simp add: grant_next_waiter.simps [of env n] grant_iteration_def Let_def)
    also have "\<dots> = hand_over env (Suc n) r q ?mr" by (rule Cons.IH) auto
    also have "\<dots> = hand_over env n r (w # q) mr"
      using True Cons.prems by (simp add: hand_over_def Let_def fun_upd_idem locks_triv del: dropWhile_eq_Nil_conv split: list.split)
    finally show ?thesis .
  next
    case False
    with Cons.prems show ?thesis
      by (simp add: grant_next_waiter.simps [of env n] grant_iteration_def hand_over_def Let_def)
  qed
qed

lemma grant_taken:
  "mr_waiters mr r = Some q \<Longrightarrow> mr_locks mr r = Some lock \<Longrightarrow> grant_next_waiter env n r mr =
     mr\<lparr>mr_waiters := (mr_waiters mr)(r \<mapsto> []), mr_closed := mr_closed mr @ map wt_tx q\<rparr>"
proof (induction q arbitrary: mr n)
  case Nil
  then show ?case
    by (cases mr) (auto simp: grant_next_waiter.simps [of env n] grant_iteration_def fun_eq_iff)
next
  case (Cons w q)
  let ?mr = "mr\<lparr>mr_waiters := (mr_waiters mr)(r \<mapsto> q), mr_closed := mr_closed mr @ [wt_tx w]\<rparr>"
  from Cons.prems have "grant_next_waiter env n r mr = grant_next_waiter env (Suc n) r ?mr"
    by (simp add: grant_next_waiter.simps [of env n] grant_iteration_def Let_def)
  also have "\<dots> = ?mr\<lparr>mr_waiters := (mr_waiters ?mr)(r \<mapsto> []), mr_closed := mr_closed ?mr @ map wt_tx q\<rparr>"
    by (rule Cons.IH) (use Cons.prems in auto)
  finally show ?case by (simp add: fun_upd_def cong: if_cong)
qed

text \<open>C28. The release of a held resource, with no other task in between: with another lock identifier it
  returns false and changes nothing; with the holder's it frees the resource and agrees with the
  reference, whatever mixture of waiters is queued: the waiters that are gone are skipped, the first
  one that is still there holds the resource and has been sent a granting answer with its new
  lock identifier, and those behind it keep their places. When instead another task has taken the resource before the loop
  runs, the loop ends with the whole queue emptied and every waiter refused.\<close>

theorem release_hands_over:
  assumes "mr_locks mr r = Some lock" and "mr_waiters mr r = Some q"
  shows "release env r lid mr =
       (if lid = lk_lock_id lock
        then (True, hand_over env 0 r q (mr\<lparr>mr_locks := (mr_locks mr)(r := None)\<rparr>))
        else (False, mr))
     \<and> grant_next_waiter env n r mr =
         mr\<lparr>mr_waiters := (mr_waiters mr)(r \<mapsto> []), mr_closed := mr_closed mr @ map wt_tx q\<rparr>"
  using assms grant_free [of "mr\<lparr>mr_locks := (mr_locks mr)(r := None)\<rparr>" r q env 0] grant_taken [of mr r q lock]
  by (simp add: release_def release_lock_def)

definition demo_waiter :: "string \<Rightarrow> nat \<Rightarrow> waiter" where
  "demo_waiter a ch = \<lparr>wt_agent = a, wt_intent = ''push'', wt_estimated_time = 10, wt_tx = ch\<rparr>"

definition demo_contended :: mutex_registry where
  "demo_contended = mutex_registry_new\<lparr>mr_locks := [''main'' \<mapsto> demo_lock],
     mr_waiters := [''main'' \<mapsto> [demo_waiter ''bob'' 1, demo_waiter ''carol'' 2, demo_waiter ''dan'' 3]],
     mr_dropped := [1]\<rparr>"

theorem release_hands_over_witness:
  "map_option lk_holder_agent (mr_locks (snd (release (\<lambda>k. (''u'', 7)) ''main'' ''l1'' demo_contended)) ''main'')
     = Some ''carol''
   \<and> mr_waiters (snd (release (\<lambda>k. (''u'', 7)) ''main'' ''l1'' demo_contended)) ''main'' = Some [demo_waiter ''dan'' 3]"
  using release_hands_over [of demo_contended "''main''" demo_lock
      "[demo_waiter ''bob'' 1, demo_waiter ''carol'' 2, demo_waiter ''dan'' 3]" "\<lambda>k. (''u'', 7)" "''l1''"]
  by (simp add: demo_contended_def demo_lock_def hand_over_def new_lock_def demo_waiter_def)

section \<open>A waiter that misses its wake-up\<close>

text \<open>The fast path and the registration of a waiter are two separate critical sections: a release in between
  finds no waiter to grant, after which the resource is free while the waiter sleeps and no task is left that would
  wake it.\<close>

definition demo_missed :: mutex_world where
  "demo_missed = mutex_start\<lparr>mw_reg := mutex_registry_new\<lparr>mr_waiters := [''main'' \<mapsto> [demo_waiter ''bob'' 1]]\<rparr>\<rparr>"

lemma mutex_missed_wakeup:
  "\<exists>labels. mutex_run mutex_start labels demo_missed \<and> lock_at demo_missed ''main'' = None
     \<and> mr_waiters (mw_reg demo_missed) ''main'' = Some [demo_waiter ''bob'' 1]
     \<and> mr_dropped (mw_reg demo_missed) = [] \<and> mw_to_grant demo_missed = [] \<and> mw_granting demo_missed = None"
proof -
  let ?waiting = "demo_held\<lparr>mw_registering := [(''main'', demo_waiter ''bob'' 1)]\<rparr>"
  let ?freed = "?waiting\<lparr>mw_reg := mutex_registry_new, mw_to_grant := [''main'']\<rparr>"
  let ?granting = "?freed\<lparr>mw_to_grant := [], mw_granting := Some ''main''\<rparr>"
  let ?granted = "?granting\<lparr>mw_granting := None\<rparr>"
  have "mutex_step mutex_start (Answered ''main'' ''alice'' demo_answer) demo_held"
    using fast_answer [of "''l1''" 5 "''main''" "''alice''" "''rebase''" 60 mutex_start demo_answer]
    by (auto simp: acquire_fast_def mutex_start_def mutex_registry_new_def demo_answer_def demo_held_def demo_lock_def)
  moreover have "mutex_step demo_held Silent ?waiting"
    using fast_wait [of "''l2''" 6 "''main''" "''bob''" "''push''" 10 demo_held "mw_reg demo_held" 1]
    by (simp add: acquire_fast_def demo_held_def demo_lock_def new_lock_def mutex_start_def demo_waiter_def)
  moreover have "mutex_step ?waiting (Released ''main'' ''l1'') ?freed"
    using release_hit [of "''main''" "''l1''" ?waiting mutex_registry_new]
    by (simp add: release_lock_def demo_held_def demo_lock_def new_lock_def mutex_start_def mutex_registry_new_def fun_upd_triv)
  moreover have "mutex_step ?freed Silent ?granting"
    using grant_begin [of ?freed "''main''"] by (simp add: demo_held_def mutex_start_def)
  moreover have "mutex_step ?granting Silent ?granted"
    using grant_iterate [of ?granting "''main''" "''l3''" 8 False mutex_registry_new]
    by (simp add: grant_iteration_def mutex_registry_new_def grant_label_def demo_held_def mutex_start_def)
  moreover have "mutex_step ?granted Silent demo_missed"
    using slow_register [of ?granted "''main''" "demo_waiter ''bob'' 1"]
    by (simp add: register_waiter_def mutex_registry_new_def demo_missed_def demo_held_def mutex_start_def)
  ultimately have "\<exists>labels. mutex_run mutex_start labels demo_missed" by (meson run_cons run_nil)
  then show ?thesis by (simp add: demo_missed_def mutex_start_def mutex_registry_new_def)
qed

end
