(* ===== verification/Event_Queue.thy ===== *)
theory Event_Queue
  imports Str_Ops
begin

text \<open>
  \<^verbatim>\<open>services/event_queue.rs\<close>: per-session queues of events with wakers. The event payload is that of
  \<^verbatim>\<open>proto/effects/events.proto\<close>; a waker is the number of its \<^verbatim>\<open>oneshot\<close> channel. A call of
  \<^verbatim>\<open>notify_event\<close> first draws an identifier and then, in a second critical section, appends and wakes;
  \<^verbatim>\<open>wait_for_event\<close> first looks into the queue and then registers its waker. The machine at the end
  interleaves these parts. Identifiers are \<^verbatim>\<open>u64\<close> counted from one; the increment wraps to zero
  at \<open>2^64\<close>, and the identifier zero is the cursor that means no cursor.
\<close>

section \<open>State\<close>

datatype event_type =
    AgentMessage string string "string list" string
  | TimeoutEvent int
  | IssueClosed nat string

record event =
  ev_event_id :: nat
  ev_event_type :: "event_type option"

definition max_queue_size :: nat where "max_queue_size = 1000"

record event_queue =
  eq_queues :: "string \<Rightarrow> event list option"
  eq_wakers :: "string \<Rightarrow> nat list option"
  eq_next_id :: nat

definition event_queue_new :: event_queue where
  "event_queue_new = \<lparr>eq_queues = (\<lambda>_. None), eq_wakers = (\<lambda>_. None), eq_next_id = 1\<rparr>"

section \<open>Matching\<close>

definition matches_type :: "event \<Rightarrow> string list \<Rightarrow> bool" where
  "matches_type e types \<longleftrightarrow>
     types = [] \<or>
     (case ev_event_type e of
        Some (AgentMessage _ _ _ _) \<Rightarrow> ''agent_message'' \<in> set types
      | Some (TimeoutEvent _) \<Rightarrow> ''timeout'' \<in> set types
      | Some (IssueClosed _ _) \<Rightarrow> ''issue_closed'' \<in> set types
      | None \<Rightarrow> False)"

definition after_cursor :: "nat \<Rightarrow> string list \<Rightarrow> event \<Rightarrow> bool" where
  "after_cursor after types e \<longleftrightarrow> (after = 0 \<or> ev_event_id e > after) \<and> matches_type e types"

fun position :: "('a \<Rightarrow> bool) \<Rightarrow> 'a list \<Rightarrow> nat option" where
  "position p [] = None"
| "position p (x # xs) = (if p x then Some 0 else map_option Suc (position p xs))"

definition find_matching :: "event list \<Rightarrow> string list \<Rightarrow> nat \<Rightarrow> (event \<times> event list) option" where
  "find_matching q types after =
     (case position (after_cursor after types) q of
        None \<Rightarrow> None
      | Some i \<Rightarrow> Some (q ! i, take i q @ drop (Suc i) q))"

text \<open>\<^verbatim>\<open>timeout.as_secs() as i32\<close> keeps the low 32 bits.\<close>

definition timeout_event :: "nat \<Rightarrow> event" where
  "timeout_event secs =
     \<lparr>ev_event_id = 0,
      ev_event_type = Some (TimeoutEvent (let n = int (secs mod 2 ^ 32) in if n < 2 ^ 31 then n else n - 2 ^ 32))\<rparr>"

section \<open>Waiting and notifying\<close>

text \<open>The first critical section of \<^verbatim>\<open>wait_for_event\<close>.\<close>

definition check_queue :: "string \<Rightarrow> string list \<Rightarrow> nat \<Rightarrow> event_queue \<Rightarrow> event option \<times> event_queue" where
  "check_queue session types after eq =
     (case eq_queues eq session of
        None \<Rightarrow> (None, eq)
      | Some q \<Rightarrow>
          (case find_matching q types after of
             None \<Rightarrow> (None, eq)
           | Some (e, q') \<Rightarrow> (Some e, eq\<lparr>eq_queues := (eq_queues eq)(session \<mapsto> q')\<rparr>)))"

definition register_waker :: "string \<Rightarrow> nat \<Rightarrow> event_queue \<Rightarrow> event_queue" where
  "register_waker session tx eq =
     eq\<lparr>eq_wakers := (eq_wakers eq)(session \<mapsto>
          (case eq_wakers eq session of None \<Rightarrow> [] | Some ws \<Rightarrow> ws) @ [tx])\<rparr>"

datatype wait_error = NonMatching | WakerClosed

datatype wake = Woken event | WaitTimedOut | ChannelGone

fun wait_result :: "string list \<Rightarrow> nat \<Rightarrow> nat \<Rightarrow> wake \<Rightarrow> wait_error + event" where
  "wait_result types after secs (Woken e) =
     (if after_cursor after types e then Inr e else Inl NonMatching)"
| "wait_result types after secs WaitTimedOut = Inr (timeout_event secs)"
| "wait_result types after secs ChannelGone = Inl WakerClosed"

definition draw_id :: "event \<Rightarrow> event_queue \<Rightarrow> event \<times> event_queue" where
  "draw_id e eq =
     (e\<lparr>ev_event_id := eq_next_id eq\<rparr>, eq\<lparr>eq_next_id := (eq_next_id eq + 1) mod 2 ^ 64\<rparr>)"

fun trim :: "event list \<Rightarrow> event list" where
  "trim [] = []"
| "trim (e # q) = (if length (e # q) \<ge> max_queue_size then trim q else e # q)"

text \<open>The second critical section of \<^verbatim>\<open>notify_event\<close>; the result lists the wakers the event is sent
  to.\<close>

definition append_event :: "string \<Rightarrow> event \<Rightarrow> event_queue \<Rightarrow> nat list \<times> event_queue" where
  "append_event session e eq =
     (let q = trim (case eq_queues eq session of None \<Rightarrow> [] | Some q \<Rightarrow> q) @ [e] in
      ((case eq_wakers eq session of None \<Rightarrow> [] | Some ws \<Rightarrow> ws),
       eq\<lparr>eq_queues := (eq_queues eq)(session \<mapsto> q), eq_wakers := (eq_wakers eq)(session := None)\<rparr>))"

definition queue_len :: "string \<Rightarrow> event_queue \<Rightarrow> nat" where
  "queue_len session eq = (case eq_queues eq session of None \<Rightarrow> 0 | Some q \<Rightarrow> length q)"

section \<open>Interleaved calls\<close>

text \<open>\<open>drawn\<close> holds the notifications between their two critical sections and \<open>woken\<close> what the wakers
  received; \<open>count\<close> counts the identifiers drawn so far, which the code does not store.\<close>

record event_world =
  ew_queue :: event_queue
  ew_drawn :: "(string \<times> event) list"
  ew_woken :: "(nat \<times> event) list"
  ew_count :: nat

definition event_start :: "event_world \<Rightarrow> bool" where
  "event_start s \<longleftrightarrow> s = \<lparr>ew_queue = event_queue_new, ew_drawn = [], ew_woken = [], ew_count = 0\<rparr>"

inductive event_step :: "event_world \<Rightarrow> event_world \<Rightarrow> bool" where
  step_check: "check_queue session types after (ew_queue s) = (res, eq) \<Longrightarrow>
     event_step s (s\<lparr>ew_queue := eq\<rparr>)"
| step_register: "event_step s (s\<lparr>ew_queue := register_waker session tx (ew_queue s)\<rparr>)"
| step_draw: "draw_id e (ew_queue s) = (e', eq) \<Longrightarrow>
     event_step s (s\<lparr>ew_queue := eq, ew_drawn := ew_drawn s @ [(session, e')], ew_count := Suc (ew_count s)\<rparr>)"
| step_append: "ew_drawn s = xs @ (session, e) # ys \<Longrightarrow> append_event session e (ew_queue s) = (ws, eq) \<Longrightarrow>
     event_step s (s\<lparr>ew_queue := eq, ew_drawn := xs @ ys, ew_woken := ew_woken s @ map (\<lambda>tx. (tx, e)) ws\<rparr>)"

section \<open>Invariant\<close>

definition session_events :: "event_queue \<Rightarrow> string \<Rightarrow> event list" where
  "session_events eq session = (case eq_queues eq session of None \<Rightarrow> [] | Some q \<Rightarrow> q)"

definition live :: "event_world \<Rightarrow> nat \<Rightarrow> string \<Rightarrow> bool" where
  "live s i session \<longleftrightarrow> i \<in> ev_event_id ` set (session_events (ew_queue s) session)
     \<or> (\<exists>e. (session, e) \<in> set (ew_drawn s) \<and> ev_event_id e = i)"

text \<open>Until the counter wraps: live identifiers are among those drawn, and no two live events share
  one.\<close>

definition ids_ok :: "event_world \<Rightarrow> bool" where
  "ids_ok s \<longleftrightarrow>
     (\<forall>session. distinct (map ev_event_id (session_events (ew_queue s) session))
        \<and> (\<forall>e. (session, e) \<in> set (ew_drawn s) \<longrightarrow>
             ev_event_id e \<notin> ev_event_id ` set (session_events (ew_queue s) session)))
     \<and> distinct (map (\<lambda>x. ev_event_id (snd x)) (ew_drawn s))
     \<and> (\<forall>i session. live s i session \<longrightarrow> 0 < i \<and> i \<le> ew_count s)
     \<and> (\<forall>i session session'. live s i session \<longrightarrow> live s i session' \<longrightarrow> session' = session)"

definition event_inv :: "event_world \<Rightarrow> bool" where
  "event_inv s \<longleftrightarrow>
     (\<forall>session. length (session_events (ew_queue s) session) \<le> max_queue_size)
     \<and> eq_next_id (ew_queue s) = Suc (ew_count s) mod 2 ^ 64
     \<and> (ew_count s < 2 ^ 64 \<longrightarrow> ids_ok s)"

lemma ids_ok_queue:
  "ids_ok s \<Longrightarrow> distinct (map ev_event_id (session_events (ew_queue s) a))"
  "ids_ok s \<Longrightarrow> (a, e) \<in> set (ew_drawn s) \<Longrightarrow> ev_event_id e \<notin> ev_event_id ` set (session_events (ew_queue s) a)"
  "ids_ok s \<Longrightarrow> distinct (map (\<lambda>x. ev_event_id (snd x)) (ew_drawn s))"
  unfolding ids_ok_def by blast+

lemma ids_ok_live:
  "ids_ok s \<Longrightarrow> live s i a \<Longrightarrow> 0 < i \<and> i \<le> ew_count s"
  "ids_ok s \<Longrightarrow> live s i a \<Longrightarrow> live s i b \<Longrightarrow> b = a"
  unfolding ids_ok_def by blast+

lemma trim_suffix: "\<exists>k. trim q = drop k q \<and> length (trim q) < max_queue_size"
proof (induction q)
  case Nil
  show ?case by (simp add: max_queue_size_def)
next
  case (Cons e q)
  show ?case
  proof (cases "length (e # q) \<ge> max_queue_size")
    case True
    from Cons obtain k where "trim q = drop k q" "length (trim q) < max_queue_size" by blast
    with True show ?thesis by (intro exI [of _ "Suc k"]) simp
  next
    case False
    then show ?thesis by (intro exI [of _ 0]) auto
  qed
qed

lemma position_SomeD: "position p xs = Some i \<Longrightarrow> i < length xs \<and> p (xs ! i) \<and> (\<forall>j < i. \<not> p (xs ! j))"
  by (induction xs arbitrary: i) (auto simp: less_Suc_eq_0_disj nth_Cons split: if_splits nat.splits)

lemma position_None: "position p xs = None \<longleftrightarrow> (\<forall>x \<in> set xs. \<not> p x)"
  by (induction xs) auto

lemma find_matching_SomeD:
  assumes "find_matching q types after = Some (e, q')"
  obtains xs ys where "q = xs @ e # ys" and "q' = xs @ ys" and "after_cursor after types e"
    and "\<forall>x \<in> set xs. \<not> after_cursor after types x"
proof -
  from assms obtain i where i: "position (after_cursor after types) q = Some i"
    and eq: "e = q ! i" "q' = take i q @ drop (Suc i) q" by (auto simp: find_matching_def split: option.splits)
  from position_SomeD [OF i] have "i < length q" "after_cursor after types e"
    "\<forall>x \<in> set (take i q). \<not> after_cursor after types x" by (auto simp: eq in_set_conv_nth)
  with eq show thesis by (intro that [of "take i q" "drop (Suc i) q"]) (auto simp: id_take_nth_drop)
qed

lemma check_queue_events:
  assumes "check_queue session types after eq = (res, eq')"
  shows "set (session_events eq' a) \<subseteq> set (session_events eq a)"
    and "length (session_events eq' a) \<le> length (session_events eq a)"
    and "distinct (map ev_event_id (session_events eq a)) \<Longrightarrow> distinct (map ev_event_id (session_events eq' a))"
    and "eq_next_id eq' = eq_next_id eq"
  using assms
  by (auto simp: check_queue_def session_events_def split: option.splits if_splits elim!: find_matching_SomeD)

lemma live_check:
  "check_queue session types after (ew_queue s) = (res, eq) \<Longrightarrow> live (s\<lparr>ew_queue := eq\<rparr>) i a \<Longrightarrow> live s i a"
  using check_queue_events(1) [of session types after "ew_queue s" res eq a] unfolding live_def by auto

lemma ids_ok_check:
  assumes inv: "ids_ok s" and run: "check_queue session types after (ew_queue s) = (res, eq)"
  shows "ids_ok (s\<lparr>ew_queue := eq\<rparr>)"
proof -
  note ev = check_queue_events [OF run]
  have "distinct (map ev_event_id (session_events eq a))" for a
    using ids_ok_queue(1) [OF inv, of a] ev(3) [of a] by auto
  moreover have "ev_event_id e \<notin> ev_event_id ` set (session_events eq a)" if "(a, e) \<in> set (ew_drawn s)" for a e
    using ids_ok_queue(2) [OF inv that] ev(1) [of a] by auto
  moreover have "0 < i \<and> i \<le> ew_count s" if "live (s\<lparr>ew_queue := eq\<rparr>) i a" for i a
    by (rule ids_ok_live(1) [OF inv live_check [OF run that]])
  moreover have "b = a" if "live (s\<lparr>ew_queue := eq\<rparr>) i a" "live (s\<lparr>ew_queue := eq\<rparr>) i b" for i a b
    by (rule ids_ok_live(2) [OF inv live_check [OF run that(1)] live_check [OF run that(2)]])
  ultimately show ?thesis using inv unfolding ids_ok_def by auto
qed

lemma event_inv_check:
  assumes "event_inv s" and "check_queue session types after (ew_queue s) = (res, eq)"
  shows "event_inv (s\<lparr>ew_queue := eq\<rparr>)"
  using assms(1) ids_ok_check [OF _ assms(2)] check_queue_events(2,4) [OF assms(2)]
  by (auto simp: event_inv_def intro: order_trans)

lemma event_inv_register: "event_inv s \<Longrightarrow> event_inv (s\<lparr>ew_queue := register_waker session tx (ew_queue s)\<rparr>)"
  by (simp add: event_inv_def ids_ok_def live_def register_waker_def session_events_def)

lemma session_events_next_id [simp]: "session_events (eq\<lparr>eq_next_id := n\<rparr>) = session_events eq"
  by (simp add: fun_eq_iff session_events_def)

lemma live_draw:
  "live (s\<lparr>ew_queue := (ew_queue s)\<lparr>eq_next_id := n\<rparr>, ew_drawn := ew_drawn s @ [(session, e)], ew_count := k\<rparr>) i a
     \<longleftrightarrow> live s i a \<or> (a = session \<and> i = ev_event_id e)"
  by (auto simp: live_def session_events_def)

lemma ids_ok_draw:
  assumes inv: "ids_ok s" and e: "ev_event_id e = Suc (ew_count s)"
  shows "ids_ok (s\<lparr>ew_queue := (ew_queue s)\<lparr>eq_next_id := n\<rparr>, ew_drawn := ew_drawn s @ [(session, e)],
    ew_count := Suc (ew_count s)\<rparr>)"
proof -
  let ?n = "Suc (ew_count s)"
  have fresh: "\<not> live s ?n a" for a using ids_ok_live(1) [OF inv, of ?n a] by auto
  have drawn: "live s (ev_event_id x) a" if "(a, x) \<in> set (ew_drawn s)" for x a
    using that by (auto simp: live_def)
  have "?n \<notin> ev_event_id ` set (session_events (ew_queue s) a)" for a
    using fresh [of a] by (auto simp: live_def)
  moreover have "?n \<notin> (\<lambda>x. ev_event_id (snd x)) ` set (ew_drawn s)"
    using fresh drawn by fastforce
  moreover have "0 < i \<and> i \<le> ?n" if "live s i a" for i a
    using ids_ok_live(1) [OF inv that] by simp
  moreover note ids_ok_live(2) [OF inv]
  ultimately show ?thesis
    using ids_ok_queue [OF inv] fresh unfolding ids_ok_def live_draw
    by (auto simp: e)
qed

lemma event_inv_draw:
  assumes inv: "event_inv s" and run: "draw_id e (ew_queue s) = (e', eq)"
  shows "event_inv (s\<lparr>ew_queue := eq, ew_drawn := ew_drawn s @ [(session, e')], ew_count := Suc (ew_count s)\<rparr>)"
proof -
  let ?n = "eq_next_id (ew_queue s)"
  from run have e': "ev_event_id e' = ?n" and eq: "eq = (ew_queue s)\<lparr>eq_next_id := (?n + 1) mod 2 ^ 64\<rparr>"
    by (auto simp: draw_id_def)
  have n: "?n = Suc (ew_count s) mod 2 ^ 64" and l: "\<forall>a. length (session_events (ew_queue s) a) \<le> max_queue_size"
    using inv unfolding event_inv_def by blast+
  have "(?n + 1) mod 2 ^ 64 = Suc (Suc (ew_count s)) mod 2 ^ 64" unfolding n by (simp only: mod_add_left_eq Suc_eq_plus1)
  moreover have "ids_ok (s\<lparr>ew_queue := eq, ew_drawn := ew_drawn s @ [(session, e')], ew_count := Suc (ew_count s)\<rparr>)"
    if b: "Suc (ew_count s) < 2 ^ 64"
    unfolding eq
  proof (rule ids_ok_draw)
    show "ids_ok s" using inv b unfolding event_inv_def by simp
    show "ev_event_id e' = Suc (ew_count s)" using b by (simp only: e' n mod_less)
  qed
  ultimately show ?thesis using l unfolding event_inv_def by (simp add: eq del: Suc_eq_plus1)
qed

lemma append_event_events:
  assumes "append_event session e eq = (ws, eq')"
  shows "session_events eq' a = (if a = session then trim (session_events eq session) @ [e] else session_events eq a)"
    and "eq_next_id eq' = eq_next_id eq"
  using assms by (auto simp: append_event_def Let_def session_events_def)

lemma set_trim: "set (trim q) \<subseteq> set q"
  using trim_suffix [of q] set_drop_subset by metis

lemma ids_ok_append:
  assumes inv: "ids_ok s" and drawn: "ew_drawn s = xs @ (session, e) # ys"
    and run: "append_event session e (ew_queue s) = (ws, eq)"
  shows "ids_ok (s\<lparr>ew_queue := eq, ew_drawn := xs @ ys, ew_woken := w\<rparr>)" (is "ids_ok ?s")
proof -
  note ev = append_event_events [OF run]
  let ?q = "session_events (ew_queue s)"
  have live: "live ?s i a \<Longrightarrow> live s i a" for i a
    using set_trim [of "?q session"] by (auto simp: live_def ev drawn split: if_splits)
  obtain k where k: "trim (?q session) = drop k (?q session)"
    using trim_suffix by blast
  have d: "distinct (map ev_event_id (?q a))" for a
    using ids_ok_queue [OF inv] by auto
  have e: "ev_event_id e \<notin> ev_event_id ` set (?q session)"
    by (rule ids_ok_queue(2) [OF inv]) (simp add: drawn)
  have disj: "ev_event_id x \<notin> ev_event_id ` set (?q a)" if "(a, x) \<in> set (xs @ ys)" for a x
    by (rule ids_ok_queue(2) [OF inv]) (use that drawn in auto)
  have ne: "ev_event_id x \<noteq> ev_event_id e" if "(a, x) \<in> set (xs @ ys)" for a x
    using ids_ok_queue(3) [OF inv] that by (force simp: drawn)
  have "distinct (map ev_event_id (session_events eq a))" for a
    using d [of session] d [of a] e set_trim [of "?q session"] k
    by (auto simp: ev drop_map [symmetric] distinct_drop dest!: in_set_dropD)
  moreover have "ev_event_id x \<notin> ev_event_id ` set (session_events eq a)" if "(a, x) \<in> set (xs @ ys)" for a x
    using disj [OF that] ne [OF that] set_trim [of "?q session"] by (auto simp: ev)
  moreover have "distinct (map (\<lambda>x. ev_event_id (snd x)) (xs @ ys))"
    using ids_ok_queue(3) [OF inv] by (simp add: drawn)
  moreover have "0 < i \<and> i \<le> ew_count s" if "live ?s i a" for i a
    by (rule ids_ok_live(1) [OF inv live [OF that]])
  moreover have "b = a" if "live ?s i a" "live ?s i b" for i a b
    by (rule ids_ok_live(2) [OF inv live [OF that(1)] live [OF that(2)]])
  ultimately show ?thesis using inv unfolding ids_ok_def by (auto simp: ev)
qed

lemma event_inv_append:
  assumes "event_inv s" and "ew_drawn s = xs @ (session, e) # ys"
    and "append_event session e (ew_queue s) = (ws, eq)"
  shows "event_inv (s\<lparr>ew_queue := eq, ew_drawn := xs @ ys, ew_woken := w\<rparr>)"
  using assms(1) ids_ok_append [OF _ assms(2,3)] trim_suffix [of "session_events (ew_queue s) session"]
  by (auto simp: event_inv_def append_event_events [OF assms(3)] Suc_le_eq)

interpretation events: inductive_invariant event_start event_step event_inv
proof unfold_locales
  fix s t
  show "event_inv s" if "event_start s"
    using that by (auto simp: event_start_def event_inv_def ids_ok_def live_def event_queue_new_def max_queue_size_def
        session_events_def)
  show "event_inv t" if "event_inv s" and "event_step s t"
    using that(2,1)
    by cases (auto intro: event_inv_check event_inv_register event_inv_draw event_inv_append)
qed

text \<open>The wrap: after \<open>2^64 - 1\<close> notifications the next one gets the identifier zero, and a client
  that passes the identifier it received as its cursor waits without a cursor.\<close>

lemma event_id_wraps:
  assumes "reach event_start event_step s" "ew_count s = 2 ^ 64 - 1"
  shows "ev_event_id (fst (draw_id e (ew_queue s))) = 0"
    and "after_cursor (ev_event_id (fst (draw_id e (ew_queue s)))) types x \<longleftrightarrow> matches_type x types"
proof -
  from events.reach_invar [OF assms(1)] show z: "ev_event_id (fst (draw_id e (ew_queue s))) = 0"
    by (simp add: event_inv_def draw_id_def assms(2))
  show "after_cursor (ev_event_id (fst (draw_id e (ew_queue s)))) types x \<longleftrightarrow> matches_type x types"
    unfolding z by (simp add: after_cursor_def)
qed

text \<open>C31. Waiting with a cursor. On every run of the interleaved event queue in which fewer than \<open>2^64\<close>
  notifications have drawn an identifier, so that the \<^verbatim>\<open>u64\<close> counter has not handed out the wrapped
  value zero, the queue of a session holds at most a thousand events with pairwise different positive
  identifiers; a wait that finds an event in the queue takes exactly the oldest queued one of the wanted
  types beyond the cursor and leaves the others in order; and a client that passes the identifier of
  that event as its next cursor gets from the queue or from its waker only events with a larger
  identifier, never the same one again. The bound is sharp: the notification after \<open>2^64 - 1\<close> of them is
  numbered zero, as the last part says.\<close>

theorem event_cursor:
  assumes "reach event_start event_step s" and "ew_count s < 2 ^ 64"
    and "check_queue session types after (ew_queue s) = (Some e, eq)"
  shows "length (session_events (ew_queue s) session) \<le> 1000
     \<and> distinct (map ev_event_id (session_events (ew_queue s) session))
     \<and> 0 < ev_event_id e \<and> (after = 0 \<or> after < ev_event_id e) \<and> matches_type e types
     \<and> (\<exists>xs ys. session_events (ew_queue s) session = xs @ e # ys \<and> session_events eq session = xs @ ys
          \<and> (\<forall>x \<in> set xs. \<not> after_cursor after types x))
     \<and> (\<forall>eq' types' e' eq''. check_queue session types' (ev_event_id e) eq' = (Some e', eq'') \<longrightarrow>
          ev_event_id e < ev_event_id e')
     \<and> (\<forall>types' e' secs. wait_result types' (ev_event_id e) secs (Woken e') = Inr e' \<longrightarrow>
          ev_event_id e < ev_event_id e')
     \<and> (\<forall>e'. ev_event_id (fst (draw_id e' (ew_queue s))) = (if ew_count s = 2 ^ 64 - 1 then 0 else ew_count s + 1))"
proof -
  from events.reach_invar [OF assms(1)] have len: "length (session_events (ew_queue s) session) \<le> max_queue_size"
    and nxt: "eq_next_id (ew_queue s) = Suc (ew_count s) mod 2 ^ 64" and inv: "ids_ok s"
    using assms(2) unfolding event_inv_def by blast+
  from assms(3) obtain q q' where q: "eq_queues (ew_queue s) session = Some q"
    "find_matching q types after = Some (e, q')" "session_events eq session = q'"
    by (auto simp: check_queue_def session_events_def split: option.splits)
  from find_matching_SomeD [OF q(2)] obtain xs ys where split: "q = xs @ e # ys" "q' = xs @ ys"
    "after_cursor after types e" "\<forall>x \<in> set xs. \<not> after_cursor after types x" by blast
  have "live s (ev_event_id e) session" by (simp add: live_def session_events_def q(1) split)
  from ids_ok_live(1) [OF inv this] have pos: "0 < ev_event_id e" by simp
  have larger: "ev_event_id e < ev_event_id e'"
    if "check_queue session types' (ev_event_id e) eq' = (Some e', eq'')" for types' e' eq' eq''
    using that pos
    by (auto simp: check_queue_def after_cursor_def split: option.splits elim!: find_matching_SomeD)
  have woken: "ev_event_id e < ev_event_id e'" if "wait_result types' (ev_event_id e) secs (Woken e') = Inr e'" for types' e' secs
    using that pos by (auto simp: after_cursor_def split: if_splits)
  have "session_events (ew_queue s) session = xs @ e # ys" "session_events eq session = xs @ ys"
    using q split by (simp_all add: session_events_def)
  moreover have "length (session_events (ew_queue s) session) \<le> 1000"
    using len by (simp add: max_queue_size_def)
  moreover have "ev_event_id (fst (draw_id e' (ew_queue s))) = (if ew_count s = 2 ^ 64 - 1 then 0 else ew_count s + 1)" for e'
    using assms(2) by (simp add: draw_id_def nxt)
  moreover note ids_ok_queue(1) [OF inv, of session] pos larger woken split(3,4)
  ultimately show ?thesis unfolding after_cursor_def by blast
qed

definition demo_event :: event where
  "demo_event = \<lparr>ev_event_id = 0, ev_event_type = Some (AgentMessage ''w'' ''success'' [] ''done'')\<rparr>"

definition demo_notified :: event_world where
  "demo_notified =
     \<lparr>ew_queue = event_queue_new\<lparr>eq_next_id := 2, eq_queues := [''s'' \<mapsto> [demo_event\<lparr>ev_event_id := 1\<rparr>]]\<rparr>,
      ew_drawn = [], ew_woken = [], ew_count = 1\<rparr>"

lemma demo_notified_reach: "reach event_start event_step demo_notified"
proof -
  let ?s = "\<lparr>ew_queue = event_queue_new, ew_drawn = [], ew_woken = [], ew_count = 0\<rparr>"
  let ?t = "\<lparr>ew_queue = event_queue_new\<lparr>eq_next_id := 2\<rparr>, ew_drawn = [(''s'', demo_event\<lparr>ev_event_id := 1\<rparr>)], ew_woken = [], ew_count = 1\<rparr>"
  have "event_start ?s" by (simp add: event_start_def)
  moreover have "event_step ?s ?t"
    using step_draw [of demo_event ?s "demo_event\<lparr>ev_event_id := 1\<rparr>" "event_queue_new\<lparr>eq_next_id := 2\<rparr>" "''s''"]
    by (simp add: draw_id_def event_queue_new_def)
  moreover have "event_step ?t demo_notified"
    using step_append [of ?t "[]" "''s''" "demo_event\<lparr>ev_event_id := 1\<rparr>" "[]" "[]" "ew_queue demo_notified"]
    by (simp add: append_event_def event_queue_new_def demo_notified_def fun_upd_def)
  ultimately show ?thesis by (meson reach_start reach_step)
qed

theorem event_cursor_witness:
  "ev_event_id (demo_event\<lparr>ev_event_id := 1\<rparr>) = 1 \<and> 0 < ev_event_id (demo_event\<lparr>ev_event_id := 1\<rparr>)
   \<and> fst (check_queue ''s'' [''agent_message''] 0 (ew_queue demo_notified)) = Some (demo_event\<lparr>ev_event_id := 1\<rparr>)
   \<and> ev_event_id (fst (draw_id demo_event (ew_queue demo_notified))) = 2"
proof -
  have b: "ew_count demo_notified < 2 ^ 64" by (simp add: demo_notified_def)
  have c: "fst (check_queue ''s'' [''agent_message''] 0 (ew_queue demo_notified)) = Some (demo_event\<lparr>ev_event_id := 1\<rparr>)"
    by code_simp
  then have "check_queue ''s'' [''agent_message''] 0 (ew_queue demo_notified)
      = (Some (demo_event\<lparr>ev_event_id := 1\<rparr>), snd (check_queue ''s'' [''agent_message''] 0 (ew_queue demo_notified)))"
    by (metis prod.collapse)
  from event_cursor [OF demo_notified_reach b this] c show ?thesis by (simp add: demo_notified_def)
qed

end
