(* ===== verification/Resilience.thy ===== *)
theory Resilience
  imports Prelude
begin

text \<open>
  \<^verbatim>\<open>services/resilience.rs\<close>: backoff, bounded retry and the consecutive-failure tracker. A
  \<^verbatim>\<open>Duration\<close> is its number of nanoseconds, at most \<open>duration_max\<close>; a \<^verbatim>\<open>u32\<close> is a natural
  number with its wrap-around or its panic written out. The awaited operation is a function from the
  number of the call to its outcome, so that it may behave differently every time.
\<close>

section \<open>Backoff\<close>

definition u32_max :: nat where "u32_max = 2 ^ 32 - 1"

definition duration_max :: nat where
  "duration_max = (2 ^ 64 - 1) * 10 ^ 9 + 999999999"

datatype backoff = Fixed nat | Linear nat | Exponential nat nat

text \<open>\<^verbatim>\<open>Duration * u32\<close> panics on overflow, \<^verbatim>\<open>saturating_mul\<close> does not; \<^verbatim>\<open>checked_shl\<close> fails from
  the width of the type on and otherwise loses the bits above it.\<close>

definition duration_mul :: "nat \<Rightarrow> nat \<Rightarrow> nat option" where
  "duration_mul d k = (if d * k \<le> duration_max then Some (d * k) else None)"

definition duration_saturating_mul :: "nat \<Rightarrow> nat \<Rightarrow> nat" where
  "duration_saturating_mul d k = min duration_max (d * k)"

definition shl_one :: "nat \<Rightarrow> nat" where
  "shl_one n = (if n < 32 then 2 ^ n mod 2 ^ 32 else u32_max)"

fun delay :: "backoff \<Rightarrow> nat \<Rightarrow> nat option" where
  "delay (Fixed d) attempt = Some d"
| "delay (Linear initial) attempt =
     (if attempt + 1 \<le> u32_max then duration_mul initial (attempt + 1) else None)"
| "delay (Exponential initial cap) attempt =
     Some (min (duration_saturating_mul initial (shl_one attempt)) cap)"

section \<open>Retry\<close>

record 'e retry_policy =
  rp_max_attempts :: nat
  rp_backoff :: backoff
  rp_should_retry :: "'e \<Rightarrow> bool"

definition retry_policy_new :: "nat \<Rightarrow> backoff \<Rightarrow> 'e retry_policy" where
  "retry_policy_new n b = \<lparr>rp_max_attempts = n, rp_backoff = b, rp_should_retry = (\<lambda>_. True)\<rparr>"

definition retry_policy_filtered :: "nat \<Rightarrow> backoff \<Rightarrow> ('e \<Rightarrow> bool) \<Rightarrow> 'e retry_policy" where
  "retry_policy_filtered n b p = \<lparr>rp_max_attempts = n, rp_backoff = b, rp_should_retry = p\<rparr>"

text \<open>The loop of \<^verbatim>\<open>retry\<close>: the outcome and the delays slept; \<open>None\<close> is the panic of a delay that
  does not fit.\<close>

function retry_from ::
  "'e retry_policy \<Rightarrow> (nat \<Rightarrow> 'e + 'v) \<Rightarrow> nat \<Rightarrow> nat list \<Rightarrow> (('e + 'v) \<times> nat list) option" where
  "retry_from policy f attempt slept =
     (case f attempt of
        Inr v \<Rightarrow> Some (Inr v, slept)
      | Inl e \<Rightarrow>
          if attempt + 1 < rp_max_attempts policy \<and> rp_should_retry policy e
          then (case delay (rp_backoff policy) attempt of
                  None \<Rightarrow> None
                | Some d \<Rightarrow> retry_from policy f (attempt + 1) (slept @ [d]))
          else Some (Inl e, slept))"
  by pat_completeness auto
termination
  by (relation "measure (\<lambda>(policy, f, attempt, slept). rp_max_attempts policy - attempt)") auto

declare retry_from.simps [simp del]

definition retry :: "'e retry_policy \<Rightarrow> (nat \<Rightarrow> 'e + 'v) \<Rightarrow> (('e + 'v) \<times> nat list) option" where
  "retry policy f = retry_from policy f 0 []"

section \<open>Health tracker\<close>

record health_tracker =
  ht_consecutive_failures :: nat
  ht_threshold :: nat
  ht_recoveries :: nat

definition health_tracker_new :: "nat \<Rightarrow> health_tracker" where
  "health_tracker_new threshold =
     \<lparr>ht_consecutive_failures = 0, ht_threshold = threshold, ht_recoveries = 0\<rparr>"

definition report_success :: "health_tracker \<Rightarrow> health_tracker" where
  "report_success h = h\<lparr>ht_consecutive_failures := 0\<rparr>"

text \<open>\<open>ht_recoveries\<close> counts the calls of the recovery function. \<^verbatim>\<open>prev + 1\<close> is a plain
  \<^verbatim>\<open>u32\<close> addition; it cannot overflow below the threshold.\<close>

definition report_failure :: "health_tracker \<Rightarrow> health_tracker" where
  "report_failure h =
     (let prev = ht_consecutive_failures h;
          h1 = h\<lparr>ht_consecutive_failures := (prev + 1) mod 2 ^ 32\<rparr>
      in if prev + 1 \<ge> ht_threshold h
         then h1\<lparr>ht_recoveries := ht_recoveries h1 + 1, ht_consecutive_failures := 0\<rparr>
         else h1)"

definition failure_count :: "health_tracker \<Rightarrow> nat" where
  "failure_count h = ht_consecutive_failures h"

section \<open>What they guarantee\<close>

text \<open>Why the loop goes on after a call.\<close>

definition goes_on :: "'e retry_policy \<Rightarrow> (nat \<Rightarrow> 'e + 'v) \<Rightarrow> nat \<Rightarrow> bool" where
  "goes_on policy f k \<longleftrightarrow> k + 1 < rp_max_attempts policy
     \<and> (case f k of Inr _ \<Rightarrow> False | Inl e \<Rightarrow> rp_should_retry policy e)"

lemma retry_from_stops: "\<not> goes_on policy f k \<Longrightarrow> retry_from policy f k slept = Some (f k, slept)"
  by (auto simp: retry_from.simps [of policy f k slept] goes_on_def split: sum.splits)

lemma retry_from_goes_on:
  "goes_on policy f k \<Longrightarrow> delay (rp_backoff policy) k = Some d \<Longrightarrow>
     retry_from policy f k slept = retry_from policy f (k + 1) (slept @ [d])"
  by (simp add: retry_from.simps [of policy f k slept] goes_on_def split: sum.splits)

lemma retry_from_run:
  assumes "\<forall>j < m. delay (rp_backoff policy) (k + j) \<noteq> None" and "\<forall>j < m. goes_on policy f (k + j)"
    and "\<not> goes_on policy f (k + m)"
  shows "retry_from policy f k slept
    = Some (f (k + m), slept @ map (\<lambda>j. the (delay (rp_backoff policy) j)) [k..<k + m])"
  using assms
proof (induction m arbitrary: k slept)
  case 0
  then show ?case by (simp add: retry_from_stops)
next
  case (Suc m)
  from Suc.prems(1) obtain d where d: "delay (rp_backoff policy) k = Some d" by force
  from Suc.prems(2) have "goes_on policy f k" by force
  from retry_from_goes_on [OF this d]
  have "retry_from policy f k slept = retry_from policy f (k + 1) (slept @ [d])" .
  also have "\<dots> = Some (f (k + 1 + m), (slept @ [d]) @ map (\<lambda>j. the (delay (rp_backoff policy) j)) [k + 1..<k + 1 + m])"
    by (rule Suc.IH) (use Suc.prems in \<open>force+\<close>)
  finally show ?case using d by (simp add: upt_rec [of k])
qed

lemma some_call_stops: "\<exists>m < max 1 (rp_max_attempts policy). \<not> goes_on policy f m \<and> (\<forall>j < m. goes_on policy f j)"
proof -
  have stop: "\<not> goes_on policy f (rp_max_attempts policy - 1)"
    by (cases "rp_max_attempts policy") (simp_all add: goes_on_def)
  define m where "m = (LEAST k. \<not> goes_on policy f k)"
  from stop have "m \<le> rp_max_attempts policy - 1" unfolding m_def by (rule Least_le)
  moreover have "\<not> goes_on policy f m" unfolding m_def by (rule LeastI [of "\<lambda>k. \<not> goes_on policy f k", OF stop])
  moreover have "goes_on policy f j" if "j < m" for j using not_less_Least that unfolding m_def by blast
  ultimately show ?thesis by (intro exI [of _ m]) auto
qed

lemma exponential_delay:
  "\<exists>d. delay (Exponential initial cap) n = Some d \<and> d \<le> cap"
  "n \<le> n' \<Longrightarrow> the (delay (Exponential initial cap) n) \<le> the (delay (Exponential initial cap) n')"
proof -
  show "\<exists>d. delay (Exponential initial cap) n = Some d \<and> d \<le> cap" by simp
  assume "n \<le> n'"
  have "shl_one n \<le> shl_one n'"
  proof (cases "n' < 32")
    case True
    with \<open>n \<le> n'\<close> have "(2::nat) ^ n' < 2 ^ 32" "(2::nat) ^ n < 2 ^ 32" "(2::nat) ^ n \<le> 2 ^ n'"
      by (auto intro: power_strict_increasing power_increasing simp del: power_numeral)
    with True \<open>n \<le> n'\<close> show ?thesis
      by (simp add: shl_one_def) (rule order_trans [OF mod_less_eq_dividend power_increasing], simp_all)
  next
    case False
    then show ?thesis by (auto simp: shl_one_def u32_max_def intro: less_imp_le Suc_leI)
  qed
  then show "the (delay (Exponential initial cap) n) \<le> the (delay (Exponential initial cap) n')"
    by (auto simp: duration_saturating_mul_def min_le_iff_disj)
qed

text \<open>C29. A retried operation. With a backoff whose delays are representable, \<^verbatim>\<open>retry\<close> returns: it
  calls the operation some number of times between one and the larger of one and the policy's maximum, every call
  but the last failed with an error the policy retries, the result is that of the last call, which
  succeeded, failed with an error that is not retried, or used up the attempts, and between
  consecutive calls it slept the backoff's delays in order. The delays of an exponential backoff are always
  representable, never exceed its cap and never decrease.\<close>

theorem retry_returns:
  assumes "\<forall>k < rp_max_attempts policy. delay (rp_backoff policy) k \<noteq> None"
  shows "(\<exists>m < max 1 (rp_max_attempts policy).
         retry policy f = Some (f m, map (\<lambda>j. the (delay (rp_backoff policy) j)) [0..<m])
         \<and> (\<forall>j < m. \<exists>e. f j = Inl e \<and> rp_should_retry policy e)
         \<and> (m + 1 \<ge> rp_max_attempts policy \<or> (\<exists>v. f m = Inr v)
            \<or> (\<exists>e. f m = Inl e \<and> \<not> rp_should_retry policy e)))
     \<and> (\<forall>initial cap n n'. \<exists>d d'. delay (Exponential initial cap) n = Some d
          \<and> delay (Exponential initial cap) n' = Some d' \<and> d \<le> cap \<and> (n \<le> n' \<longrightarrow> d \<le> d'))"
proof -
  obtain m where m: "m < max 1 (rp_max_attempts policy)" "\<not> goes_on policy f m" "\<forall>j < m. goes_on policy f j"
    using some_call_stops by blast
  from m(3) have "\<forall>j < m. delay (rp_backoff policy) j \<noteq> None" using assms by (auto simp: goes_on_def)
  with retry_from_run [of m policy 0 f "[]"] m
  have "retry policy f = Some (f m, map (\<lambda>j. the (delay (rp_backoff policy) j)) [0..<m])"
    by (simp add: retry_def)
  moreover have "\<forall>j < m. \<exists>e. f j = Inl e \<and> rp_should_retry policy e"
    using m(3) by (fastforce simp: goes_on_def split: sum.splits)
  moreover have "m + 1 \<ge> rp_max_attempts policy \<or> (\<exists>v. f m = Inr v) \<or> (\<exists>e. f m = Inl e \<and> \<not> rp_should_retry policy e)"
    using m(2) by (cases "f m") (auto simp: goes_on_def)
  moreover have "\<exists>d d'. delay (Exponential initial cap) n = Some d
      \<and> delay (Exponential initial cap) n' = Some d' \<and> d \<le> cap \<and> (n \<le> n' \<longrightarrow> d \<le> d')" for initial cap n n'
    using exponential_delay [of initial cap n] exponential_delay(2) [of n n' initial cap] by fastforce
  ultimately show ?thesis using m(1) by blast
qed

definition demo_policy :: "string retry_policy" where
  "demo_policy = retry_policy_new 4 (Exponential 500 1500)"

definition demo_flaky :: "nat \<Rightarrow> string + nat" where
  "demo_flaky k = (if k < 3 then Inl ''busy'' else Inr 7)"

theorem retry_returns_witness:
  "(\<exists>m < 4. retry demo_policy demo_flaky
       = Some (demo_flaky m, map (\<lambda>j. the (delay (rp_backoff demo_policy) j)) [0..<m]))
   \<and> retry demo_policy demo_flaky = Some (Inr 7, [500, 1000, 1500])"
proof -
  have "\<forall>k < rp_max_attempts demo_policy. delay (rp_backoff demo_policy) k \<noteq> None"
    by (simp add: demo_policy_def retry_policy_new_def)
  moreover have "max 1 (rp_max_attempts demo_policy) = 4" by (simp add: demo_policy_def retry_policy_new_def)
  moreover have "retry demo_policy demo_flaky = Some (Inr 7, [500, 1000, 1500])" by code_simp
  ultimately show ?thesis using retry_returns [of demo_policy demo_flaky] by auto
qed

lemma report_failure_mod:
  assumes "0 < ht_threshold h" and "ht_threshold h \<le> u32_max" and "ht_consecutive_failures h < ht_threshold h"
  shows "report_failure h = h\<lparr>ht_consecutive_failures := (ht_consecutive_failures h + 1) mod ht_threshold h,
     ht_recoveries := ht_recoveries h + (ht_consecutive_failures h + 1) div ht_threshold h\<rparr>"
proof (cases "ht_consecutive_failures h + 1 = ht_threshold h")
  case True
  then show ?thesis using assms by (simp add: report_failure_def Let_def)
next
  case False
  with assms have "ht_consecutive_failures h + 1 < ht_threshold h" "ht_consecutive_failures h + 1 < 2 ^ 32"
    by (auto simp: u32_max_def)
  then show ?thesis by (cases h) (simp add: report_failure_def Let_def)
qed

text \<open>The health tracker counts consecutive failures: after any history that ends in a success or is empty,
  followed by a run of failures reported one at a time, the counter is the length of the run
  modulo the threshold and recovery has been called once for every threshold failures of the run; the counter
  stays below the threshold.\<close>

lemma health_tracker_counts:
  assumes "0 < threshold" and "threshold \<le> u32_max"
    and "ht_threshold h = threshold"
  shows "(report_failure ^^ n) (report_success h) =
       (report_success h)\<lparr>ht_consecutive_failures := n mod threshold, ht_recoveries := ht_recoveries h + n div threshold\<rparr>
     \<and> failure_count ((report_failure ^^ n) (report_success h)) < threshold"
proof -
  have "(report_failure ^^ n) (report_success h) = (report_success h)\<lparr>ht_consecutive_failures := n mod threshold,
      ht_recoveries := ht_recoveries h + n div threshold\<rparr>"
  proof (induction n)
    case 0
    then show ?case by (cases h) (simp add: report_success_def)
  next
    case (Suc n)
    let ?h = "(report_success h)\<lparr>ht_consecutive_failures := n mod threshold, ht_recoveries := ht_recoveries h + n div threshold\<rparr>"
    have "report_failure ?h = ?h\<lparr>ht_consecutive_failures := (n mod threshold + 1) mod threshold,
        ht_recoveries := ht_recoveries h + n div threshold + (n mod threshold + 1) div threshold\<rparr>"
      using report_failure_mod [of ?h] assms by (simp add: report_success_def)
    moreover have "(n mod threshold + 1) mod threshold = Suc n mod threshold" by (simp add: mod_Suc_eq)
    moreover have "n div threshold + (n mod threshold + 1) div threshold = Suc n div threshold"
      by (metis Suc_eq_plus1 div_mult_self3 add.commute add_Suc_right assms(1) div_mult_mod_eq mult.commute not_less0)
    ultimately show ?case using Suc by (simp add: add.assoc)
  qed
  then show ?thesis using assms(1) by (simp add: failure_count_def)
qed

end
