(* ===== verification/Pr_Publication.thy ===== *)
theory Pr_Publication
  imports Json
begin

text \<open>
  The publication registry of \<^verbatim>\<open>services/pr_registry.rs\<close>: which pull-request heads were published by
  which agent, slice and invocation, how ownership passes to a recreated invocation, and the
  registry file. The file is its parsed JSON document; what \<^verbatim>\<open>serde\<close> derives for the stored
  structures is written out in \<open>head_to_json\<close> and \<open>head_from_json\<close>. Failing reads and writes of the
  operating system other than a missing file are not modelled.
\<close>

section \<open>Data\<close>

datatype provenance = Legacy | LedgerOwned

datatype succession_reason = SessionRecreate

record invocation_succession =
  is_from_invocation_id :: string
  is_to_invocation_id :: string
  is_reason :: succession_reason
  is_recorded_at :: nat

record published_head =
  ph_pr_number :: nat
  ph_head_branch :: string
  ph_base_branch :: string
  ph_head_sha :: string
  ph_author_agent :: "string option"
  ph_author_role :: "string option"
  ph_provenance :: provenance
  ph_slice_id :: "string option"
  ph_invocation_id :: "string option"
  ph_invocation_trigger :: "string option"
  ph_invocation_runtime :: "string option"
  ph_invocation_succession :: "invocation_succession list"

record publication_adoption =
  pa_pr_number :: nat
  pa_succession :: invocation_succession

record adoption_request =
  aq_agent_name :: string
  aq_head_branch :: string
  aq_base_branch :: string
  aq_slice_id :: string
  aq_pr_number :: "nat option"
  aq_head_sha :: "string option"
  aq_from_invocation_id :: string
  aq_to_invocation_id :: string

datatype live_pr_resolution = NeverPublished | AllAttemptsAbandoned | Live nat

record abandoned_attempt =
  ab_attempt :: nat
  ab_pr_number :: "nat option"
  ab_head_sha :: "string option"
  ab_invocation_id :: "string option"

datatype ownership_error =
    MissingAuthor
  | OwnerMismatch string string
  | MissingIdentity string
  | BranchMismatch string string
  | BaseBranchMismatch string string
  | MissingSlice
  | SliceMismatch string string
  | MissingInvocationProvenance
  | MissingInvocationRecord string
  | InvocationSuccessionMissing string string

datatype registry_error =
    MissingPrNumber
  | MissingField string
  | EmptySlice
  | LedgerWithoutSlice
  | LedgerWithoutInvocation
  | UnsupportedSchema nat
  | BadDocument
  | BadHead
  | BranchOwnershipChanged nat
  | OwnerIdentityChanged nat
  | OutsideLineage nat
  | NoMatchingPublication
  | InvalidOwner string
  | OwnerWithoutIdentity string
  | Ownership ownership_error

text \<open>\<^verbatim>\<open>filter(|value| !value.trim().is_empty())\<close> on an optional string.\<close>

definition nonblank :: "string option \<Rightarrow> string option" where
  "nonblank v = (case v of None \<Rightarrow> None | Some s \<Rightarrow> if blank s then None else Some s)"

section \<open>Succession of invocations\<close>

definition succession_edges :: "published_head \<Rightarrow> (string \<times> string) list" where
  "succession_edges h = map (\<lambda>s. (is_from_invocation_id s, is_to_invocation_id s)) (ph_invocation_succession h)"

definition successors :: "(string \<times> string) list \<Rightarrow> string \<Rightarrow> string list" where
  "successors es c = map snd (filter (\<lambda>e. fst e = c) es)"

text \<open>The search loop. The vector \<^verbatim>\<open>pending\<close> is a stack with its top at the head of the list, so
  that \<^verbatim>\<open>extend\<close> pushes in reverse.\<close>

function succession_search ::
  "(string \<times> string) list \<Rightarrow> string \<Rightarrow> string list \<Rightarrow> string list \<Rightarrow> bool" where
  "succession_search es current seen [] = False"
| "succession_search es current seen (candidate # pending) =
     (if candidate = current then True
      else if candidate \<in> set seen then succession_search es current seen pending
      else succession_search es current (candidate # seen) (rev (successors es candidate) @ pending))"
  by pat_completeness auto
termination
proof (relation "measures [\<lambda>(es, current, seen, pending). card ((set pending \<union> set (map snd es)) - set seen),
      \<lambda>(es, current, seen, pending). length pending]", goal_cases)
  case (2 es current seen candidate pending)
  have "card (set pending \<union> set (map snd es) - set seen) \<le> card (set (candidate # pending) \<union> set (map snd es) - set seen)"
    by (rule card_mono) auto
  then show ?case by (simp add: le_less)
next
  case (3 es current seen candidate pending)
  have "set (successors es candidate) \<subseteq> set (map snd es)" by (auto simp: successors_def)
  then have "(set (rev (successors es candidate) @ pending) \<union> set (map snd es)) - set (candidate # seen)
      \<subset> (set (candidate # pending) \<union> set (map snd es)) - set seen"
    using 3(2) unfolding set_append set_rev list.set by blast
  then have "card ((set (rev (successors es candidate) @ pending) \<union> set (map snd es)) - set (candidate # seen))
      < card ((set (candidate # pending) \<union> set (map snd es)) - set seen)"
    by (intro psubset_card_mono) simp_all
  then show ?case by (simp only: measures_less split_conv)
qed simp

definition invocation_succession_reaches_current :: "published_head \<Rightarrow> string \<Rightarrow> bool" where
  "invocation_succession_reaches_current h current =
     (case ph_invocation_id h of
        None \<Rightarrow> False
      | Some original \<Rightarrow> succession_search (succession_edges h) current [] [original])"

section \<open>Ownership\<close>

definition publication_owner_matches :: "published_head \<Rightarrow> string option \<Rightarrow> ownership_error + string" where
  "publication_owner_matches h expected_owner =
     (case nonblank (ph_author_agent h) of
        None \<Rightarrow> Inl MissingAuthor
      | Some owner \<Rightarrow>
          (case nonblank expected_owner of
             Some expected \<Rightarrow> if owner \<noteq> expected then Inl (OwnerMismatch owner expected) else Inr owner
           | None \<Rightarrow> Inr owner))"

definition publication_slice :: "published_head \<Rightarrow> ownership_error + string" where
  "publication_slice h =
     (case ph_provenance h of
        LedgerOwned \<Rightarrow> (case nonblank (ph_slice_id h) of None \<Rightarrow> Inl MissingSlice | Some s \<Rightarrow> Inr s)
      | Legacy \<Rightarrow> Inr (case ph_slice_id h of None \<Rightarrow> [] | Some s \<Rightarrow> s))"

definition verify_invocation :: "published_head \<Rightarrow> string option \<Rightarrow> ownership_error + unit" where
  "verify_invocation h current_invocation_id =
     (case ph_invocation_id h of
        None \<Rightarrow> if ph_provenance h = LedgerOwned then Inl MissingInvocationProvenance else Inr ()
      | Some original \<Rightarrow>
          (case current_invocation_id of
             None \<Rightarrow> Inl (MissingInvocationRecord original)
           | Some current \<Rightarrow>
               if current \<noteq> original \<and> \<not> invocation_succession_reaches_current h current
               then Inl (InvocationSuccessionMissing original current) else Inr ()))"

definition verify_owned_by ::
  "published_head \<Rightarrow> string \<Rightarrow> string \<Rightarrow> string option \<Rightarrow> string option \<Rightarrow> string option \<Rightarrow> ownership_error + unit" where
  "verify_owned_by h owner owner_branch owner_parent_branch owner_slice_id current_invocation_id =
     (case owner_parent_branch of
        None \<Rightarrow> Inl (MissingIdentity owner)
      | Some parent \<Rightarrow>
          if owner_branch \<noteq> ph_head_branch h then Inl (BranchMismatch (ph_head_branch h) owner_branch)
          else if parent \<noteq> ph_base_branch h then Inl (BaseBranchMismatch (ph_base_branch h) parent)
          else bindR (publication_slice h) (\<lambda>slice.
            if slice \<noteq> [] \<and> owner_slice_id \<noteq> Some slice
            then Inl (SliceMismatch slice (case owner_slice_id of None \<Rightarrow> ''missing'' | Some s \<Rightarrow> s))
            else verify_invocation h current_invocation_id))"

definition verify_publication_ownership ::
  "published_head \<Rightarrow> string option \<Rightarrow> string option \<Rightarrow> string option \<Rightarrow> string option \<Rightarrow> string option
     \<Rightarrow> ownership_error + unit" where
  "verify_publication_ownership h expected_owner owner_branch owner_parent_branch owner_slice_id current_invocation_id =
     bindR (publication_owner_matches h expected_owner) (\<lambda>owner.
       case owner_branch of
         None \<Rightarrow>
           if ph_provenance h = Legacy \<and> ph_slice_id h = None \<and> ph_invocation_id h = None
           then Inr () else Inl (MissingIdentity owner)
       | Some branch \<Rightarrow>
           verify_owned_by h owner branch owner_parent_branch owner_slice_id current_invocation_id)"

definition matches_current :: "published_head \<Rightarrow> nat \<Rightarrow> string \<Rightarrow> string \<Rightarrow> string \<Rightarrow> bool" where
  "matches_current h pr head_branch base_branch head_sha \<longleftrightarrow>
     ph_pr_number h = pr \<and> ph_head_branch h = head_branch \<and> ph_base_branch h = base_branch
     \<and> ph_head_sha h = head_sha"

abbreviation same_coordinates :: "published_head \<Rightarrow> published_head \<Rightarrow> bool" where
  "same_coordinates h g \<equiv>
     matches_current h (ph_pr_number g) (ph_head_branch g) (ph_base_branch g) (ph_head_sha g)"

definition validate :: "published_head \<Rightarrow> registry_error + unit" where
  "validate h =
     (if ph_pr_number h = 0 then Inl MissingPrNumber
      else if blank (ph_head_branch h) then Inl (MissingField ''head_branch'')
      else if blank (ph_base_branch h) then Inl (MissingField ''base_branch'')
      else if blank (ph_head_sha h) then Inl (MissingField ''head_sha'')
      else if ph_slice_id h \<noteq> None \<and> nonblank (ph_slice_id h) = None then Inl EmptySlice
      else if ph_provenance h = LedgerOwned \<and> nonblank (ph_slice_id h) = None then Inl LedgerWithoutSlice
      else if ph_provenance h = LedgerOwned \<and> nonblank (ph_invocation_id h) = None then Inl LedgerWithoutInvocation
      else Inr ())"

section \<open>The stored form\<close>

fun provenance_str :: "provenance \<Rightarrow> string" where
  "provenance_str Legacy = ''legacy''"
| "provenance_str LedgerOwned = ''ledger_owned''"

definition succession_to_json :: "invocation_succession \<Rightarrow> json" where
  "succession_to_json s =
     JObj [(''from_invocation_id'', JStr (is_from_invocation_id s)),
           (''to_invocation_id'', JStr (is_to_invocation_id s)),
           (''reason'', JStr ''session_recreate''),
           (''recorded_at'', JInt (int (is_recorded_at s)))]"

definition head_to_json :: "published_head \<Rightarrow> json" where
  "head_to_json h =
     JObj ([(''pr_number'', JInt (int (ph_pr_number h))), (''head_branch'', JStr (ph_head_branch h)),
            (''base_branch'', JStr (ph_base_branch h)), (''head_sha'', JStr (ph_head_sha h))]
       @ opt_member ''author_agent'' (ph_author_agent h) @ opt_member ''author_role'' (ph_author_role h)
       @ [(''provenance'', JStr (provenance_str (ph_provenance h)))]
       @ opt_member ''slice_id'' (ph_slice_id h) @ opt_member ''invocation_id'' (ph_invocation_id h)
       @ opt_member ''invocation_trigger'' (ph_invocation_trigger h)
       @ opt_member ''invocation_runtime'' (ph_invocation_runtime h)
       @ (if ph_invocation_succession h = [] then []
          else [(''invocation_succession'', JArr (map succession_to_json (ph_invocation_succession h)))]))"

definition str_field :: "json_object \<Rightarrow> string \<Rightarrow> registry_error + string" where
  "str_field ob k = (case obj_get ob k of Some (JStr s) \<Rightarrow> Inr s | _ \<Rightarrow> Inl BadHead)"

definition u64_field :: "json_object \<Rightarrow> string \<Rightarrow> registry_error + nat" where
  "u64_field ob k = (case obj_get ob k of
      Some j \<Rightarrow> (case as_u64 j of Some n \<Rightarrow> Inr n | None \<Rightarrow> Inl BadHead) | None \<Rightarrow> Inl BadHead)"

definition opt_str_field :: "json_object \<Rightarrow> string \<Rightarrow> registry_error + string option" where
  "opt_str_field ob k = (case obj_get ob k of
      None \<Rightarrow> Inr None | Some JNull \<Rightarrow> Inr None | Some (JStr s) \<Rightarrow> Inr (Some s) | _ \<Rightarrow> Inl BadHead)"

definition provenance_parse :: "string \<Rightarrow> registry_error + provenance" where
  "provenance_parse s =
     (if s = ''legacy'' then Inr Legacy else if s = ''ledger_owned'' then Inr LedgerOwned else Inl BadHead)"

fun succession_from_json :: "json \<Rightarrow> registry_error + invocation_succession" where
  "succession_from_json (JObj ob) =
     bindR (str_field ob ''from_invocation_id'') (\<lambda>f.
     bindR (str_field ob ''to_invocation_id'') (\<lambda>t.
     bindR (str_field ob ''reason'') (\<lambda>r.
     bindR (u64_field ob ''recorded_at'') (\<lambda>at.
       if r = ''session_recreate''
       then Inr \<lparr>is_from_invocation_id = f, is_to_invocation_id = t, is_reason = SessionRecreate, is_recorded_at = at\<rparr>
       else Inl BadHead))))"
| "succession_from_json _ = Inl BadHead"

definition successions_field :: "json_object \<Rightarrow> registry_error + invocation_succession list" where
  "successions_field ob = (case obj_get ob ''invocation_succession'' of
      None \<Rightarrow> Inr [] | Some (JArr xs) \<Rightarrow> traverse succession_from_json xs | _ \<Rightarrow> Inl BadHead)"

fun head_from_json :: "json \<Rightarrow> registry_error + published_head" where
  "head_from_json (JObj ob) =
     bindR (u64_field ob ''pr_number'') (\<lambda>pr.
     bindR (str_field ob ''head_branch'') (\<lambda>hb.
     bindR (str_field ob ''base_branch'') (\<lambda>bb.
     bindR (str_field ob ''head_sha'') (\<lambda>sha.
     bindR (opt_str_field ob ''author_agent'') (\<lambda>aa.
     bindR (opt_str_field ob ''author_role'') (\<lambda>ar.
     bindR (bindR (str_field ob ''provenance'') provenance_parse) (\<lambda>pv.
     bindR (opt_str_field ob ''slice_id'') (\<lambda>sl.
     bindR (opt_str_field ob ''invocation_id'') (\<lambda>iv.
     bindR (opt_str_field ob ''invocation_trigger'') (\<lambda>it.
     bindR (opt_str_field ob ''invocation_runtime'') (\<lambda>ir.
     bindR (successions_field ob) (\<lambda>su.
       Inr \<lparr>ph_pr_number = pr, ph_head_branch = hb, ph_base_branch = bb, ph_head_sha = sha,
            ph_author_agent = aa, ph_author_role = ar, ph_provenance = pv, ph_slice_id = sl,
            ph_invocation_id = iv, ph_invocation_trigger = it, ph_invocation_runtime = ir,
            ph_invocation_succession = su\<rparr>))))))))))))"
| "head_from_json _ = Inl BadHead"

text \<open>The registry file: absent, not a registry document, or its schema version and heads.\<close>

datatype heads_file = NoFile | NotARegistry | HeadsFile "nat option" "json list"

definition published_heads_schema_version :: nat where "published_heads_schema_version = 2"

fun migrate_head :: "nat \<Rightarrow> json \<Rightarrow> registry_error + json" where
  "migrate_head v (JObj ob) = Inr (if v = 0 then JObj (obj_insert ''provenance'' (JStr ''legacy'') ob) else JObj ob)"
| "migrate_head v j = (if v = 0 then Inl BadHead else Inr j)"

fun dedup_into :: "published_head list \<Rightarrow> published_head \<Rightarrow> published_head list" where
  "dedup_into [] h = [h]"
| "dedup_into (g # gs) h =
     (if same_coordinates g h
      then (if ph_provenance g = Legacy \<or> ph_provenance h = LedgerOwned then h # gs else g # gs)
      else g # dedup_into gs h)"

fun read_published_heads_locked :: "heads_file \<Rightarrow> registry_error + published_head list" where
  "read_published_heads_locked NoFile = Inr []"
| "read_published_heads_locked NotARegistry = Inl BadDocument"
| "read_published_heads_locked (HeadsFile version raw) =
     (let v = (case version of None \<Rightarrow> 0 | Some n \<Rightarrow> n) in
      if v > published_heads_schema_version then Inl (UnsupportedSchema v)
      else bindR (traverse (\<lambda>j. bindR (migrate_head v j) head_from_json) raw) (\<lambda>heads.
             Inr (foldl dedup_into [] heads)))"

definition write_published_heads_locked :: "published_head list \<Rightarrow> heads_file" where
  "write_published_heads_locked hs = HeadsFile (Some published_heads_schema_version) (map head_to_json hs)"

end
