(* ===== verification/Pr_Registry.thy ===== *)
theory Pr_Registry
  imports Pr_Publication "HOL-Library.Product_Lexorder"
begin

text \<open>
  The operations of \<^verbatim>\<open>services/pr_registry.rs\<close> on the registry file: publishing a verified head,
  adopting publications for a recreated invocation, removing destroyed pull requests, resolving the live pull request
  of a slice and verifying the current owner. Each runs under the process-wide lock, from reading the
  file to replacing it.
\<close>

fun max_by_key :: "('a \<Rightarrow> 'k::linorder) \<Rightarrow> 'a list \<Rightarrow> 'a option" where
  "max_by_key k [] = None"
| "max_by_key k (x # xs) =
     (case max_by_key k xs of None \<Rightarrow> Some x | Some y \<Rightarrow> if k x > k y then Some x else Some y)"

section \<open>Publishing\<close>

definition ledger_owned_publications_for_pr ::
  "published_head list \<Rightarrow> published_head \<Rightarrow> registry_error + published_head list" where
  "ledger_owned_publications_for_pr heads p =
     (let same_pr = filter (\<lambda>h. ph_pr_number h = ph_pr_number p \<and> ph_provenance h = LedgerOwned) heads in
      if list_ex (\<lambda>h. ph_author_agent h \<noteq> ph_author_agent p \<or> ph_slice_id h \<noteq> ph_slice_id p) same_pr
      then Inl (OwnerIdentityChanged (ph_pr_number p))
      else Inr same_pr)"

definition is_predecessor :: "published_head \<Rightarrow> string \<Rightarrow> published_head \<Rightarrow> bool" where
  "is_predecessor p invocation_id h \<longleftrightarrow>
     ph_head_branch h = ph_head_branch p \<and> ph_base_branch h = ph_base_branch p
     \<and> (ph_invocation_id h = Some invocation_id \<or> invocation_succession_reaches_current h invocation_id)"

definition find_publication_predecessor ::
  "published_head list \<Rightarrow> published_head \<Rightarrow> string \<Rightarrow> published_head option" where
  "find_publication_predecessor same_pr p invocation_id =
     max_by_key (\<lambda>h. length (ph_invocation_succession h)) (filter (is_predecessor p invocation_id) same_pr)"

definition inherit_publication_invocation_lineage ::
  "published_head list \<Rightarrow> published_head \<Rightarrow> registry_error + published_head" where
  "inherit_publication_invocation_lineage heads p =
     (if ph_provenance p \<noteq> LedgerOwned then Inr p
      else bindR (ledger_owned_publications_for_pr heads p) (\<lambda>same_pr.
        case ph_invocation_id p of
          None \<Rightarrow> Inl LedgerWithoutInvocation
        | Some invocation_id \<Rightarrow>
            (case find_publication_predecessor same_pr p invocation_id of
               None \<Rightarrow> if same_pr \<noteq> [] then Inl (OutsideLineage (ph_pr_number p)) else Inr p
             | Some pre \<Rightarrow>
                 Inr (p\<lparr>ph_invocation_id := ph_invocation_id pre,
                        ph_invocation_trigger := ph_invocation_trigger pre,
                        ph_invocation_runtime := ph_invocation_runtime pre,
                        ph_invocation_succession := ph_invocation_succession pre\<rparr>))))"

datatype publication_disposition = Added | Duplicate | Replaced

fun head_position :: "(published_head \<Rightarrow> bool) \<Rightarrow> published_head list \<Rightarrow> nat option" where
  "head_position p [] = None"
| "head_position p (h # hs) = (if p h then Some 0 else map_option Suc (head_position p hs))"

text \<open>The decision of \<^verbatim>\<open>publish_verified_head\<close> on the heads it read; \<open>None\<close> leaves the file alone.\<close>

definition publish_into ::
  "published_head list \<Rightarrow> published_head \<Rightarrow> registry_error + (publication_disposition \<times> published_head list option)" where
  "publish_into heads publication =
     (if list_ex (\<lambda>h. ph_pr_number h = ph_pr_number publication
            \<and> (ph_head_branch h \<noteq> ph_head_branch publication \<or> ph_base_branch h \<noteq> ph_base_branch publication)) heads
      then Inl (BranchOwnershipChanged (ph_pr_number publication))
      else bindR (inherit_publication_invocation_lineage heads publication) (\<lambda>p.
        if p \<in> set heads then Inr (Duplicate, None)
        else case head_position (\<lambda>h. same_coordinates h p) heads of
               Some i \<Rightarrow>
                 if ph_provenance (heads ! i) = LedgerOwned \<and> ph_provenance p = Legacy
                 then Inr (Duplicate, None)
                 else Inr (Replaced, Some (heads[i := p]))
             | None \<Rightarrow> Inr (Added, Some (heads @ [p]))))"

definition publish_verified_head ::
  "published_head \<Rightarrow> heads_file \<Rightarrow> (registry_error + publication_disposition) \<times> heads_file" where
  "publish_verified_head publication file =
     (case bindR (validate publication) (\<lambda>_.
             bindR (read_published_heads_locked file) (\<lambda>heads. publish_into heads publication)) of
        Inl e \<Rightarrow> (Inl e, file)
      | Inr (disposition, None) \<Rightarrow> (Inr disposition, file)
      | Inr (disposition, Some heads) \<Rightarrow> (Inr disposition, write_published_heads_locked heads))"

section \<open>Removal\<close>

definition remove_published_heads_for_prs ::
  "nat set \<Rightarrow> heads_file \<Rightarrow> (registry_error + nat) \<times> heads_file" where
  "remove_published_heads_for_prs prs file =
     (if prs = {} then (Inr 0, file)
      else case read_published_heads_locked file of
             Inl e \<Rightarrow> (Inl e, file)
           | Inr heads \<Rightarrow>
               (let kept = filter (\<lambda>h. ph_pr_number h \<notin> prs) heads;
                    removed = length heads - length kept
                in (Inr removed, if removed > 0 then write_published_heads_locked kept else file)))"

section \<open>Adoption\<close>

definition empty_request :: "adoption_request \<Rightarrow> bool" where
  "empty_request rq \<longleftrightarrow>
     blank (aq_agent_name rq) \<or> blank (aq_head_branch rq) \<or> blank (aq_base_branch rq) \<or> blank (aq_slice_id rq)
     \<or> blank (aq_from_invocation_id rq) \<or> blank (aq_to_invocation_id rq)
     \<or> aq_pr_number rq = Some 0 \<or> (aq_head_sha rq \<noteq> None \<and> nonblank (aq_head_sha rq) = None)"

definition request_matches :: "adoption_request \<Rightarrow> published_head \<Rightarrow> bool" where
  "request_matches rq h \<longleftrightarrow>
     ph_provenance h = LedgerOwned \<and> ph_author_agent h = Some (aq_agent_name rq)
     \<and> ph_head_branch h = aq_head_branch rq \<and> ph_base_branch h = aq_base_branch rq
     \<and> ph_slice_id h = Some (aq_slice_id rq)
     \<and> (case aq_pr_number rq of None \<Rightarrow> True | Some n \<Rightarrow> ph_pr_number h = n)
     \<and> (case aq_head_sha rq of None \<Rightarrow> True | Some sha \<Rightarrow> ph_head_sha h = sha)"

definition adopt_head ::
  "nat \<Rightarrow> adoption_request \<Rightarrow> published_head \<Rightarrow> published_head \<times> publication_adoption option" where
  "adopt_head now rq h =
     (if \<not> request_matches rq h then (h, None)
      else case ph_invocation_id h of
             None \<Rightarrow> (h, None)
           | Some original \<Rightarrow>
               if \<not> invocation_succession_reaches_current h (aq_from_invocation_id rq)
                  \<or> invocation_succession_reaches_current h (aq_to_invocation_id rq)
               then (h, None)
               else if list_ex (\<lambda>s. is_from_invocation_id s = original \<and> is_to_invocation_id s = aq_to_invocation_id rq)
                         (ph_invocation_succession h)
               then (h, None)
               else (let s = \<lparr>is_from_invocation_id = original, is_to_invocation_id = aq_to_invocation_id rq,
                              is_reason = SessionRecreate, is_recorded_at = now\<rparr>
                     in (h\<lparr>ph_invocation_succession := ph_invocation_succession h @ [s]\<rparr>,
                         Some \<lparr>pa_pr_number = ph_pr_number h, pa_succession = s\<rparr>)))"

definition adopt_publication_for_invocation ::
  "nat \<Rightarrow> adoption_request \<Rightarrow> heads_file \<Rightarrow> (registry_error + publication_adoption list) \<times> heads_file" where
  "adopt_publication_for_invocation now rq file =
     (if empty_request rq \<or> aq_from_invocation_id rq = aq_to_invocation_id rq then (Inr [], file)
      else case read_published_heads_locked file of
             Inl e \<Rightarrow> (Inl e, file)
           | Inr heads \<Rightarrow>
               (let adopted = map (adopt_head now rq) heads;
                    adoptions = List.map_filter snd adopted
                in (Inr adoptions,
                    if adoptions \<noteq> [] then write_published_heads_locked (map fst adopted) else file)))"

section \<open>Queries\<close>

definition publication_history_for_slice :: "published_head list \<Rightarrow> string \<Rightarrow> published_head list" where
  "publication_history_for_slice heads slice =
     (if blank slice then [] else filter (\<lambda>h. ph_slice_id h = Some slice) heads)"

definition is_abandoned :: "abandoned_attempt list \<Rightarrow> published_head \<Rightarrow> bool" where
  "is_abandoned abandoned h \<longleftrightarrow>
     list_ex (\<lambda>a.
       (case ab_invocation_id a of None \<Rightarrow> False | Some i \<Rightarrow> ph_invocation_id h = Some i)
       \<or> (\<not> (ab_attempt a \<noteq> 1 \<or> ph_invocation_id h \<noteq> None)
          \<and> (case ab_pr_number a of None \<Rightarrow> True | Some n \<Rightarrow> n = ph_pr_number h)
          \<and> (case ab_head_sha a of None \<Rightarrow> True | Some sha \<Rightarrow> sha = ph_head_sha h))) abandoned"

definition resolve_live_pr_for_slice_with_abandonments ::
  "published_head list \<Rightarrow> string \<Rightarrow> nat set \<Rightarrow> abandoned_attempt list \<Rightarrow> live_pr_resolution" where
  "resolve_live_pr_for_slice_with_abandonments heads slice live abandoned =
     (let history = publication_history_for_slice heads slice;
          matching = filter (\<lambda>h. ph_pr_number h \<in> live \<and> \<not> is_abandoned abandoned h) history
      in if history = [] then NeverPublished
         else case find (\<lambda>h. ph_provenance h = LedgerOwned) (rev matching) of
                Some h \<Rightarrow> Live (ph_pr_number h)
              | None \<Rightarrow> (case rev matching of [] \<Rightarrow> AllAttemptsAbandoned | h # _ \<Rightarrow> Live (ph_pr_number h)))"

definition resolve_live_pr_for_slice :: "published_head list \<Rightarrow> string \<Rightarrow> nat set \<Rightarrow> live_pr_resolution" where
  "resolve_live_pr_for_slice heads slice live =
     resolve_live_pr_for_slice_with_abandonments heads slice live []"

text \<open>What the resolver knows of an agent, of which the check reads three fields.\<close>

record agent_identity =
  id_birth_branch :: string
  id_parent_branch :: string
  id_slice_id :: "string option"

definition verified_current_publication_owner ::
  "(string \<Rightarrow> agent_identity option) \<Rightarrow> (string \<Rightarrow> string option) \<Rightarrow> heads_file
     \<Rightarrow> nat \<Rightarrow> string \<Rightarrow> string \<Rightarrow> string \<Rightarrow> registry_error + string" where
  "verified_current_publication_owner resolver invocation_of file pr head_branch base_branch head_sha =
     bindR (read_published_heads_locked file) (\<lambda>heads.
       case max_by_key (\<lambda>h. (ph_provenance h = LedgerOwned, length (ph_invocation_succession h)))
              (filter (\<lambda>h. matches_current h pr head_branch base_branch head_sha) heads) of
         None \<Rightarrow> Inl NoMatchingPublication
       | Some p \<Rightarrow>
           (case publication_owner_matches p None of
              Inl e \<Rightarrow> Inl (Ownership e)
            | Inr owner \<Rightarrow>
                if owner = [] then Inl (InvalidOwner owner)
                else case resolver owner of
                       None \<Rightarrow> Inl (OwnerWithoutIdentity owner)
                     | Some identity \<Rightarrow>
                         (case verify_publication_ownership p None (Some (id_birth_branch identity))
                                 (Some (id_parent_branch identity)) (id_slice_id identity)
                                 (if ph_invocation_id p \<noteq> None then invocation_of owner else None) of
                            Inl e \<Rightarrow> Inl (Ownership e)
                          | Inr _ \<Rightarrow> Inr owner)))"

end
