(* ===== verification/Pr_Registry_Preservation.thy ===== *)
theory Pr_Registry_Preservation
  imports Pr_Registry_Invariant
begin

text \<open>
  Publishing, removing and adopting keep the registry's invariant, and publishing the same head again
  changes nothing.
\<close>

section \<open>Selecting a predecessor\<close>

lemma max_by_key_append:
  "max_by_key k (xs @ ys) =
     (case max_by_key k ys of
        None \<Rightarrow> max_by_key k xs
      | Some y \<Rightarrow> (case max_by_key k xs of None \<Rightarrow> Some y | Some x \<Rightarrow> if k x > k y then Some x else Some y))"
  by (induction xs) (auto split: option.splits)

lemma max_by_key_in: "max_by_key k xs = Some x \<Longrightarrow> x \<in> set xs"
  by (induction xs arbitrary: x) (auto split: option.splits if_splits)

lemma max_by_key_None: "max_by_key k xs = None \<longleftrightarrow> xs = []"
  by (cases xs) (auto split: option.splits)

text \<open>Putting an element with the largest key in place of another leaves it or the old choice
  selected.\<close>

lemma max_by_key_insert:
  assumes "max_by_key k (as @ xs @ bs) = Some y" and "k p = k y" and "xs = [] \<or> xs = [x]"
  shows "max_by_key k (as @ p # bs) = Some p \<or> max_by_key k (as @ p # bs) = Some y"
  using assms
  by (cases "max_by_key k as"; cases "max_by_key k bs") (auto simp: max_by_key_append split: if_splits)

abbreviation owned_for :: "nat \<Rightarrow> published_head \<Rightarrow> bool" where
  "owned_for pr h \<equiv> ph_pr_number h = pr \<and> ph_provenance h = LedgerOwned"

definition inherit_from :: "published_head \<Rightarrow> published_head \<Rightarrow> published_head" where
  "inherit_from p pre = p\<lparr>ph_invocation_id := ph_invocation_id pre,
     ph_invocation_trigger := ph_invocation_trigger pre,
     ph_invocation_runtime := ph_invocation_runtime pre,
     ph_invocation_succession := ph_invocation_succession pre\<rparr>"

lemma inherit_from_simps [simp]:
  "ph_pr_number (inherit_from p q) = ph_pr_number p" "ph_head_branch (inherit_from p q) = ph_head_branch p"
  "ph_base_branch (inherit_from p q) = ph_base_branch p" "ph_head_sha (inherit_from p q) = ph_head_sha p"
  "ph_author_agent (inherit_from p q) = ph_author_agent p" "ph_provenance (inherit_from p q) = ph_provenance p"
  "ph_slice_id (inherit_from p q) = ph_slice_id p" "ph_invocation_id (inherit_from p q) = ph_invocation_id q"
  "ph_invocation_succession (inherit_from p q) = ph_invocation_succession q"
  "inherit_from p (inherit_from r q) = inherit_from p q"
  by (simp_all add: inherit_from_def)

lemma inherit_cases:
  assumes "inherit_publication_invocation_lineage hs pub = Inr p"
  obtains (legacy) "ph_provenance pub = Legacy" and "p = pub"
  | (first) iv where "ph_provenance pub = LedgerOwned" and "ph_invocation_id pub = Some iv" and "p = pub"
      and "filter (owned_for (ph_pr_number pub)) hs = []"
  | (successor) iv pre where "ph_provenance pub = LedgerOwned" and "ph_invocation_id pub = Some iv"
      and "p = inherit_from pub pre"
      and "find_publication_predecessor (filter (owned_for (ph_pr_number pub)) hs) pub iv = Some pre"
      and "\<forall>h \<in> set hs. owned_for (ph_pr_number pub) h \<longrightarrow>
             ph_author_agent h = ph_author_agent pub \<and> ph_slice_id h = ph_slice_id pub"
proof (cases "ph_provenance pub")
  case Legacy
  with assms have "p = pub" by (simp add: inherit_publication_invocation_lineage_def)
  from legacy [OF Legacy this] show thesis .
next
  case LedgerOwned
  let ?same = "filter (owned_for (ph_pr_number pub)) hs"
  from assms LedgerOwned
  have ok: "\<not> list_ex (\<lambda>h. ph_author_agent h \<noteq> ph_author_agent pub \<or> ph_slice_id h \<noteq> ph_slice_id pub) ?same"
    by (auto simp: inherit_publication_invocation_lineage_def ledger_owned_publications_for_pr_def Let_def split: if_splits)
  from assms LedgerOwned obtain iv where iv: "ph_invocation_id pub = Some iv"
    by (cases "ph_invocation_id pub") (auto simp: inherit_publication_invocation_lineage_def)
  have same: "ledger_owned_publications_for_pr hs pub = Inr ?same"
    using ok unfolding ledger_owned_publications_for_pr_def Let_def by (rule if_not_P)
  note run = assms [unfolded inherit_publication_invocation_lineage_def same bindR.simps iv option.case]
  show thesis
  proof (cases "find_publication_predecessor ?same pub iv")
    case None
    with run LedgerOwned have "?same = []" "p = pub" by (simp_all split: if_splits)
    with first [OF LedgerOwned iv] show thesis by blast
  next
    case (Some pre)
    with run LedgerOwned have "p = inherit_from pub pre" by (simp add: inherit_from_def)
    with successor [OF LedgerOwned iv _ Some] ok show thesis by (auto simp: list_ex_iff)
  qed
qed

lemma predecessorD:
  "find_publication_predecessor (filter (owned_for pr) hs) pub iv = Some pre \<Longrightarrow>
     pre \<in> set hs \<and> owned_for pr pre \<and> is_predecessor pub iv pre"
  unfolding find_publication_predecessor_def by (drule max_by_key_in) auto

section \<open>Publishing\<close>

lemma registry_inv_head: "registry_inv hs \<Longrightarrow> h \<in> set hs \<Longrightarrow> head_ok h"
  by (simp add: registry_inv_def)

lemma registry_inv_compatible: "registry_inv hs \<Longrightarrow> g \<in> set hs \<Longrightarrow> h \<in> set hs \<Longrightarrow> compatible_heads g h"
  by (simp add: registry_inv_def)

lemma inherit_head_ok:
  assumes "registry_inv hs" and "head_ok pub" and "inherit_publication_invocation_lineage hs pub = Inr p"
  shows "head_ok p"
  using assms(3)
proof (cases rule: inherit_cases)
  case (successor iv pre)
  from predecessorD [OF successor(4)] have "pre \<in> set hs" "ph_provenance pre = LedgerOwned" by auto
  then have "head_ok pre" "ph_provenance pre = LedgerOwned" using registry_inv_head [OF assms(1)] by auto
  then show ?thesis using assms(2) successor(1,3)
    by (auto simp: head_ok_def encodable_def validate_def nonblank_def split: if_splits option.splits)
qed (use assms(2) in auto)

lemma inherit_compatible:
  assumes "registry_inv hs" and "inherit_publication_invocation_lineage hs pub = Inr p" and "h \<in> set hs"
    and "\<forall>h \<in> set hs. ph_pr_number h = ph_pr_number pub \<longrightarrow>
           ph_head_branch h = ph_head_branch pub \<and> ph_base_branch h = ph_base_branch pub"
  shows "compatible_heads p h"
  using assms(2)
proof (cases rule: inherit_cases)
  case (first iv)
  then have "\<not> owned_for (ph_pr_number pub) h" using assms(3) by (simp add: filter_empty_conv)
  then show ?thesis using assms(3,4) first by (auto simp: compatible_heads_def)
next
  case (successor iv pre)
  from predecessorD [OF successor(4)] have pre: "pre \<in> set hs" "owned_for (ph_pr_number pub) pre" by auto
  from registry_inv_compatible [OF assms(1) pre(1) assms(3)] pre(2) successor(3,5) assms(3,4)
  show ?thesis by (auto simp: compatible_heads_def same_owner_def)
qed (use assms(3,4) in \<open>auto simp: compatible_heads_def\<close>)

lemma head_position_SomeD: "head_position q hs = Some i \<Longrightarrow> i < length hs \<and> q (hs ! i)"
  by (induction hs arbitrary: i) (auto split: if_splits)

lemma head_position_None: "head_position q hs = None \<longleftrightarrow> (\<forall>h \<in> set hs. \<not> q h)"
  by (induction hs) auto

lemma registry_inv_add:
  assumes "registry_inv hs" and "head_ok p" and "\<forall>h \<in> set hs. compatible_heads p h"
  shows "coordinates p \<notin> coordinates ` set hs \<Longrightarrow> registry_inv (hs @ [p])"
    and "i < length hs \<Longrightarrow> coordinates (hs ! i) = coordinates p \<Longrightarrow> registry_inv (hs[i := p])"
proof -
  have self: "compatible_heads p p" by (simp add: compatible_heads_def same_owner_def)
  show "registry_inv (hs @ [p])" if "coordinates p \<notin> coordinates ` set hs"
    using assms that self compatible_sym by (auto simp: registry_inv_def)
  assume i: "i < length hs" "coordinates (hs ! i) = coordinates p"
  have "map coordinates (hs[i := p]) = map coordinates hs"
    using i by (simp add: map_update) (metis length_map list_update_id nth_map)
  moreover have "set (hs[i := p]) \<subseteq> insert p (set hs)" by (rule set_update_subset_insert)
  ultimately show "registry_inv (hs[i := p])"
    using assms self compatible_sym unfolding registry_inv_def by (metis insertE subsetD)
qed

lemma publish_into_cases:
  assumes "publish_into hs pub = Inr (disposition, result)"
  obtains (same) "disposition = Duplicate" and "result = None"
  | (replaced) p i where "inherit_publication_invocation_lineage hs pub = Inr p" and "i < length hs"
      and "coordinates (hs ! i) = coordinates p" and "disposition = Replaced" and "result = Some (hs[i := p])"
      and "\<forall>h \<in> set hs. ph_pr_number h = ph_pr_number pub \<longrightarrow>
           ph_head_branch h = ph_head_branch pub \<and> ph_base_branch h = ph_base_branch pub"
  | (added) p where "inherit_publication_invocation_lineage hs pub = Inr p"
      and "coordinates p \<notin> coordinates ` set hs" and "disposition = Added" and "result = Some (hs @ [p])"
      and "\<forall>h \<in> set hs. ph_pr_number h = ph_pr_number pub \<longrightarrow>
           ph_head_branch h = ph_head_branch pub \<and> ph_base_branch h = ph_base_branch pub"
proof -
  from assms obtain p where p: "inherit_publication_invocation_lineage hs pub = Inr p"
    and guard: "\<forall>h \<in> set hs. ph_pr_number h = ph_pr_number pub \<longrightarrow>
           ph_head_branch h = ph_head_branch pub \<and> ph_base_branch h = ph_base_branch pub"
    by (auto simp: publish_into_def list_ex_iff split: if_splits)
  then have "\<not> list_ex (\<lambda>h. ph_pr_number h = ph_pr_number pub
      \<and> (ph_head_branch h \<noteq> ph_head_branch pub \<or> ph_base_branch h \<noteq> ph_base_branch pub)) hs"
    by (auto simp: list_ex_iff)
  note run = assms [unfolded publish_into_def if_not_P [OF this] p bindR.simps]
  show thesis
  proof (cases "head_position (\<lambda>h. same_coordinates h p) hs")
    case None
    then have "coordinates p \<notin> coordinates ` set hs" by (auto simp: head_position_None same_coordinates_iff)
    with run None p guard same added show thesis by (auto split: if_splits)
  next
    case (Some i)
    then have "i < length hs" "coordinates (hs ! i) = coordinates p"
      by (auto dest: head_position_SomeD simp: same_coordinates_iff)
    with run Some p guard same replaced show thesis by (auto split: if_splits)
  qed
qed

lemma publish_into_inv:
  assumes "registry_inv hs" and "head_ok pub" and "publish_into hs pub = Inr (disposition, Some hs')"
  shows "registry_inv hs'"
  using assms(3)
proof (cases rule: publish_into_cases)
  case (replaced p i)
  with registry_inv_add(2) [OF assms(1) inherit_head_ok [OF assms(1,2)]] inherit_compatible [OF assms(1)]
  show ?thesis by auto
next
  case (added p)
  with registry_inv_add(1) [OF assms(1) inherit_head_ok [OF assms(1,2)]] inherit_compatible [OF assms(1)]
  show ?thesis by auto
qed simp

section \<open>Publishing again\<close>

text \<open>Once the inherited publication stands in the registry, the same publication inherits the same
  fields again.\<close>

lemma inherit_again:
  assumes "inherit_publication_invocation_lineage hs pub = Inr p"
    and "hs = as @ xs @ bs" and "hs' = as @ p # bs" and "xs = [] \<or> xs = [x]"
  shows "inherit_publication_invocation_lineage hs' pub = Inr p"
  using assms(1)
proof (cases rule: inherit_cases)
  case legacy
  then show ?thesis by (simp add: inherit_publication_invocation_lineage_def)
next
  case (first iv)
  then have "filter (owned_for (ph_pr_number pub)) hs' = [pub]"
    using assms(2,3) by auto
  moreover have "is_predecessor pub iv pub" using first by (simp add: is_predecessor_def)
  ultimately show ?thesis using first
    by (simp add: inherit_publication_invocation_lineage_def ledger_owned_publications_for_pr_def Let_def
        find_publication_predecessor_def list_ex_iff)
next
  case (successor iv pre)
  let ?k = "\<lambda>h. length (ph_invocation_succession h)"
  let ?q = "\<lambda>h. owned_for (ph_pr_number pub) h \<and> is_predecessor pub iv h"
  from predecessorD [OF successor(4)] have pre: "pre \<in> set hs" "owned_for (ph_pr_number pub) pre"
    "is_predecessor pub iv pre" by auto
  have reach: "invocation_succession_reaches_current p iv = invocation_succession_reaches_current pre iv"
    by (simp add: reaches_iff successor(3) succession_edges_def)
  have p: "?q p" using pre(3) reach successor(1,3) by (auto simp: is_predecessor_def)
  have sel: "find_publication_predecessor (filter (owned_for (ph_pr_number pub)) g) pub iv = max_by_key ?k (filter ?q g)" for g
    by (simp add: find_publication_predecessor_def conj_commute)
  have "max_by_key ?k (filter ?q as @ filter ?q xs @ filter ?q bs) = Some pre"
    using successor(4) unfolding sel assms(2) by simp
  moreover have "?k p = ?k pre" by (simp add: successor(3))
  moreover have "filter ?q xs = [] \<or> filter ?q xs = [x]" using assms(4) by auto
  ultimately have "max_by_key ?k (filter ?q as @ p # filter ?q bs) = Some p
      \<or> max_by_key ?k (filter ?q as @ p # filter ?q bs) = Some pre" by (rule max_by_key_insert)
  then have "find_publication_predecessor (filter (owned_for (ph_pr_number pub)) hs') pub iv = Some p
      \<or> find_publication_predecessor (filter (owned_for (ph_pr_number pub)) hs') pub iv = Some pre"
    using p unfolding sel assms(3) by simp
  moreover have "\<not> list_ex (\<lambda>h. ph_author_agent h \<noteq> ph_author_agent pub \<or> ph_slice_id h \<noteq> ph_slice_id pub)
      (filter (owned_for (ph_pr_number pub)) hs')"
    using successor(3,5) by (auto simp: list_ex_iff assms(2,3))
  ultimately show ?thesis using successor(1-3)
    by (auto simp: inherit_publication_invocation_lineage_def ledger_owned_publications_for_pr_def Let_def
        inherit_from_def)
qed

lemma publish_into_again:
  assumes "publish_into hs pub = Inr (disposition, result)"
  shows "publish_into (case result of None \<Rightarrow> hs | Some hs' \<Rightarrow> hs') pub = Inr (Duplicate, None)"
proof -
  have again: "publish_into hs' pub = Inr (Duplicate, None)"
    if "inherit_publication_invocation_lineage hs' pub = Inr p" "p \<in> set hs'"
      and "\<forall>h \<in> set hs'. ph_pr_number h = ph_pr_number pub \<longrightarrow>
           ph_head_branch h = ph_head_branch pub \<and> ph_base_branch h = ph_base_branch pub" for hs' p
    using that by (auto simp: publish_into_def list_ex_iff)
  have branches: "ph_head_branch p = ph_head_branch pub \<and> ph_base_branch p = ph_base_branch pub"
    if "inherit_publication_invocation_lineage hs pub = Inr p" for p
    using that by (cases rule: inherit_cases) auto
  from assms show ?thesis
  proof (cases rule: publish_into_cases)
    case same
    with assms show ?thesis by simp
  next
    case (replaced p i)
    have hs: "hs = take i hs @ [hs ! i] @ drop (Suc i) hs" using replaced(2) by (simp add: id_take_nth_drop)
    have hs': "hs[i := p] = take i hs @ p # drop (Suc i) hs" using replaced(2) by (rule upd_conv_take_nth_drop)
    have "inherit_publication_invocation_lineage (hs[i := p]) pub = Inr p"
      by (rule inherit_again [OF replaced(1) hs hs']) simp
    moreover have "p \<in> set (hs[i := p])" using replaced(2) by (rule set_update_memI)
    moreover have "\<forall>h \<in> set (hs[i := p]). ph_pr_number h = ph_pr_number pub \<longrightarrow>
           ph_head_branch h = ph_head_branch pub \<and> ph_base_branch h = ph_base_branch pub"
      using replaced(6) branches [OF replaced(1)] set_update_subset_insert [of hs i p] by blast
    ultimately show ?thesis using again replaced(5) by simp
  next
    case (added p)
    have "inherit_publication_invocation_lineage (hs @ [p]) pub = Inr p"
      by (rule inherit_again [OF added(1), of hs "[]" "[]"]) simp_all
    then show ?thesis using again [of "hs @ [p]" p] added(4,5) branches [OF added(1)] by auto
  qed
qed

end
