(* ===== verification/Pr_Registry_Properties.thy ===== *)
theory Pr_Registry_Properties
  imports Pr_Registry_Preservation
begin

text \<open>
  What the publication registry guarantees: its invariant on every run, idempotent publication, adoption that only
  extends the lineage of matching publications, the exact condition of the ownership check, and the
  choice of a slice's live pull request.
\<close>

section \<open>Adoption of one head\<close>

lemma adopt_head_cases:
  obtains (kept) "adopt_head now rq h = (h, None)"
      and "request_matches rq h \<Longrightarrow> invocation_succession_reaches_current h (aq_from_invocation_id rq) \<Longrightarrow>
             invocation_succession_reaches_current h (aq_to_invocation_id rq)"
  | (adopted) original s where "request_matches rq h" and "ph_invocation_id h = Some original"
      and "invocation_succession_reaches_current h (aq_from_invocation_id rq)"
      and "s = \<lparr>is_from_invocation_id = original, is_to_invocation_id = aq_to_invocation_id rq,
                is_reason = SessionRecreate, is_recorded_at = now\<rparr>"
      and "adopt_head now rq h = (h\<lparr>ph_invocation_succession := ph_invocation_succession h @ [s]\<rparr>,
             Some \<lparr>pa_pr_number = ph_pr_number h, pa_succession = s\<rparr>)"
proof (cases "request_matches rq h \<and> invocation_succession_reaches_current h (aq_from_invocation_id rq)
    \<and> \<not> invocation_succession_reaches_current h (aq_to_invocation_id rq)")
  case True
  then obtain original where o: "ph_invocation_id h = Some original" by (auto simp: reaches_iff)
  have "\<not> list_ex (\<lambda>s. is_from_invocation_id s = original \<and> is_to_invocation_id s = aq_to_invocation_id rq)
      (ph_invocation_succession h)"
    using True o by (force simp: reaches_iff succession_edges_def list_ex_iff)
  with True o show thesis using adopted by (simp add: adopt_head_def Let_def)
next
  case False
  then have "adopt_head now rq h = (h, None)" by (auto simp: adopt_head_def split: option.split)
  then show thesis using kept False by blast
qed

lemma adopt_head_frame:
  "fst (adopt_head now rq h) = h\<lparr>ph_invocation_succession := ph_invocation_succession (fst (adopt_head now rq h))\<rparr>"
  by (rule adopt_head_cases [of now rq h]) auto

lemma adopt_head_fields [simp]:
  "ph_pr_number (fst (adopt_head now rq h)) = ph_pr_number h"
  "ph_head_branch (fst (adopt_head now rq h)) = ph_head_branch h"
  "ph_base_branch (fst (adopt_head now rq h)) = ph_base_branch h"
  "ph_head_sha (fst (adopt_head now rq h)) = ph_head_sha h"
  "ph_author_agent (fst (adopt_head now rq h)) = ph_author_agent h"
  "ph_provenance (fst (adopt_head now rq h)) = ph_provenance h"
  "ph_slice_id (fst (adopt_head now rq h)) = ph_slice_id h"
  "ph_invocation_id (fst (adopt_head now rq h)) = ph_invocation_id h"
  by (subst adopt_head_frame, simp)+

lemma adopt_head_ok: "now < 2 ^ 64 \<Longrightarrow> head_ok h \<Longrightarrow> head_ok (fst (adopt_head now rq h))"
proof (rule adopt_head_cases [of now rq h])
  fix original s
  have "validate (h\<lparr>ph_invocation_succession := ph_invocation_succession h @ [s]\<rparr>) = validate h"
    by (simp add: validate_def cong: if_cong split del: if_split)
  moreover assume "now < 2 ^ 64" "head_ok h"
  moreover assume "s = \<lparr>is_from_invocation_id = original, is_to_invocation_id = aq_to_invocation_id rq,
                is_reason = SessionRecreate, is_recorded_at = now\<rparr>"
  ultimately have "head_ok (h\<lparr>ph_invocation_succession := ph_invocation_succession h @ [s]\<rparr>)"
    by (simp add: head_ok_def encodable_def)
  moreover assume "adopt_head now rq h = (h\<lparr>ph_invocation_succession := ph_invocation_succession h @ [s]\<rparr>,
             Some \<lparr>pa_pr_number = ph_pr_number h, pa_succession = s\<rparr>)"
  ultimately show ?thesis by simp
qed simp

lemma adopt_head_reaches:
  "invocation_succession_reaches_current h x \<Longrightarrow> invocation_succession_reaches_current (fst (adopt_head now rq h)) x"
proof -
  have "set (succession_edges h) \<subseteq> set (succession_edges (fst (adopt_head now rq h)))"
    by (rule adopt_head_cases [of now rq h]) (auto simp: succession_edges_def)
  from rtrancl_mono [OF this] show "invocation_succession_reaches_current h x \<Longrightarrow> ?thesis"
    by (auto simp: reaches_iff)
qed

lemma adopt_head_grants:
  assumes "request_matches rq h" and "invocation_succession_reaches_current h (aq_from_invocation_id rq)"
  shows "invocation_succession_reaches_current (fst (adopt_head now rq h)) (aq_to_invocation_id rq)"
proof (rule adopt_head_cases [of now rq h])
  assume "adopt_head now rq h = (h, None)"
    and "request_matches rq h \<Longrightarrow> invocation_succession_reaches_current h (aq_from_invocation_id rq) \<Longrightarrow>
             invocation_succession_reaches_current h (aq_to_invocation_id rq)"
  then show ?thesis using assms by simp
qed (auto simp: reaches_iff succession_edges_def intro!: r_into_rtrancl)

lemma request_matches_frame: "request_matches rq (fst (adopt_head now rq' h)) = request_matches rq h"
  by (simp add: request_matches_def split: option.split)

lemma adopt_head_coordinates [simp]: "coordinates (fst (adopt_head now rq h)) = coordinates h"
  by (simp add: coordinates_def)

lemma adopt_head_again:
  assumes "fst (adopt_head now rq h) = g"
  shows "adopt_head now' rq g = (g, None)"
proof (rule adopt_head_cases [of now' rq g])
  fix original s
  assume a: "request_matches rq g" "invocation_succession_reaches_current g (aq_from_invocation_id rq)"
    and run: "adopt_head now' rq g = (g\<lparr>ph_invocation_succession := ph_invocation_succession g @ [s]\<rparr>,
             Some \<lparr>pa_pr_number = ph_pr_number g, pa_succession = s\<rparr>)"
  have "invocation_succession_reaches_current g (aq_to_invocation_id rq)"
  proof (rule adopt_head_cases [of now rq h])
    assume "adopt_head now rq h = (h, None)"
      and "request_matches rq h \<Longrightarrow> invocation_succession_reaches_current h (aq_from_invocation_id rq) \<Longrightarrow>
             invocation_succession_reaches_current h (aq_to_invocation_id rq)"
    then show ?thesis using a assms by simp
  next
    assume "request_matches rq h" "invocation_succession_reaches_current h (aq_from_invocation_id rq)"
    from adopt_head_grants [OF this] assms show ?thesis by auto
  qed
  then have "adopt_head now' rq g = (g, None)" by (simp add: adopt_head_def split: option.split)
  then show ?thesis .
qed auto

section \<open>The registry as a machine\<close>

inductive registry_step :: "heads_file \<Rightarrow> heads_file \<Rightarrow> bool" where
  step_publish: "encodable pub \<Longrightarrow> registry_step f (snd (publish_verified_head pub f))"
| step_remove: "registry_step f (snd (remove_published_heads_for_prs prs f))"
| step_adopt: "now < 2 ^ 64 \<Longrightarrow> registry_step f (snd (adopt_publication_for_invocation now rq f))"

definition registry_start :: "heads_file \<Rightarrow> bool" where
  "registry_start f \<longleftrightarrow> f = NoFile"

lemma publish_file_cases:
  assumes "file_ok f" and "publish_verified_head pub f = (res, f')"
  obtains (failed) e where "res = Inl e" and "f' = f"
  | (unchanged) hs where "read_published_heads_locked f = Inr hs" and "validate pub = Inr ()"
      and "publish_into hs pub = Inr (Duplicate, None)" and "res = Inr Duplicate" and "f' = f"
  | (written) hs disposition hs' where "read_published_heads_locked f = Inr hs" and "registry_inv hs"
      and "validate pub = Inr ()" and "publish_into hs pub = Inr (disposition, Some hs')"
      and "res = Inr disposition" and "f' = write_published_heads_locked hs'"
proof -
  obtain hs where hs: "read_published_heads_locked f = Inr hs" "registry_inv hs"
    by (rule file_ok_read [OF assms(1)])
  show thesis
  proof (cases "validate pub")
    case (Inl e)
    with assms(2) show thesis by (intro failed [of e]) (auto simp: publish_verified_head_def)
  next
    case v: (Inr u)
    show thesis
    proof (cases "publish_into hs pub")
      case (Inl e)
      with assms(2) hs v show thesis by (intro failed [of e]) (auto simp: publish_verified_head_def)
    next
      case (Inr out)
      obtain disposition result where out: "out = (disposition, result)" by (cases out)
      show thesis
      proof (cases result)
        case None
        with Inr out have run: "publish_into hs pub = Inr (disposition, None)" by simp
        then have "disposition = Duplicate" by (cases rule: publish_into_cases) simp_all
        with run have "publish_into hs pub = Inr (Duplicate, None)" by simp
        with assms(2) hs v show thesis by (intro unchanged [of hs]) (auto simp: publish_verified_head_def)
      next
        case (Some hs')
        with assms(2) hs v Inr out show thesis
          by (intro written [of hs disposition hs']) (auto simp: publish_verified_head_def)
      qed
    qed
  qed
qed

lemma file_ok_publish:
  assumes "file_ok f" and "encodable pub"
  shows "file_ok (snd (publish_verified_head pub f))"
proof -
  obtain res f' where run: "publish_verified_head pub f = (res, f')" by fastforce
  from assms(1) run have "file_ok f'"
  proof (cases rule: publish_file_cases)
    case (written hs disposition hs')
    have "registry_inv hs'"
      by (rule publish_into_inv [OF written(2) _ written(4)]) (simp add: head_ok_def assms(2) written(3))
    with written(6) show ?thesis by (simp add: file_ok_write)
  qed (use assms(1) in simp_all)
  with run show ?thesis by simp
qed

lemma registry_inv_filter: "registry_inv hs \<Longrightarrow> registry_inv (filter p hs)"
  by (auto simp: registry_inv_def distinct_map_filter)

lemma file_ok_remove:
  assumes "file_ok f"
  shows "file_ok (snd (remove_published_heads_for_prs prs f))"
proof -
  obtain hs where "read_published_heads_locked f = Inr hs" "registry_inv hs" by (rule file_ok_read [OF assms])
  then show ?thesis
    using assms by (auto simp: remove_published_heads_for_prs_def Let_def intro: file_ok_write registry_inv_filter)
qed

lemma registry_inv_adopt:
  assumes "registry_inv hs" and "now < 2 ^ 64"
  shows "registry_inv (map (\<lambda>h. fst (adopt_head now rq h)) hs)"
proof -
  have "compatible_heads (fst (adopt_head now rq g)) (fst (adopt_head now rq h)) = compatible_heads g h" for g h
    by (simp add: compatible_heads_def same_owner_def)
  then show ?thesis
    using assms(1) unfolding registry_inv_def by (auto simp: comp_def intro: adopt_head_ok [OF assms(2)])
qed

lemma adopt_file_read:
  assumes "file_ok f" and "now < 2 ^ 64" and "read_published_heads_locked f = Inr hs"
    and "adopt_publication_for_invocation now rq f = (Inr as, f')"
    and "\<not> empty_request rq" and "aq_from_invocation_id rq \<noteq> aq_to_invocation_id rq"
  shows "read_published_heads_locked f' = Inr (map (\<lambda>h. fst (adopt_head now rq h)) hs)"
    and "as = List.map_filter (\<lambda>h. snd (adopt_head now rq h)) hs" and "file_ok f'"
proof -
  obtain hs0 where "read_published_heads_locked f = Inr hs0" and "registry_inv hs0" by (rule file_ok_read [OF assms(1)])
  with assms(3) have inv: "registry_inv hs" by simp
  let ?g = "map (\<lambda>h. fst (adopt_head now rq h)) hs"
  from assms(3-6) show as: "as = List.map_filter (\<lambda>h. snd (adopt_head now rq h)) hs"
    by (auto simp: adopt_publication_for_invocation_def Let_def List.map_filter_def comp_def filter_map)
  from assms(3-6) have f': "f' = (if as \<noteq> [] then write_published_heads_locked ?g else f)"
    by (auto simp: adopt_publication_for_invocation_def Let_def comp_def)
  have same: "?g = hs" if "as = []"
  proof -
    have "fst (adopt_head now rq h) = h" if "h \<in> set hs" for h
    proof -
      have none: "snd (adopt_head now rq h) = None"
        using \<open>as = []\<close> that unfolding as by (auto simp: List.map_filter_def filter_empty_conv)
      show ?thesis by (rule adopt_head_cases [of now rq h]) (use none in auto)
    qed
    then show ?thesis by (simp add: map_idI)
  qed
  from registry_inv_adopt [OF inv assms(2)] have invg: "registry_inv ?g" .
  show "read_published_heads_locked f' = Inr ?g"
    using read_write [OF invg] same assms(3) by (auto simp: f')
  show "file_ok f'" using file_ok_write [OF invg] assms(1) by (simp add: f')
qed

lemma file_ok_adopt:
  assumes "file_ok f" and "now < 2 ^ 64"
  shows "file_ok (snd (adopt_publication_for_invocation now rq f))"
proof -
  obtain hs where hs: "read_published_heads_locked f = Inr hs" by (rule file_ok_read [OF assms(1)])
  show ?thesis
  proof (cases "empty_request rq \<or> aq_from_invocation_id rq = aq_to_invocation_id rq")
    case True
    then show ?thesis using assms(1) by (simp add: adopt_publication_for_invocation_def)
  next
    case False
    obtain res f' where run: "adopt_publication_for_invocation now rq f = (res, f')" by fastforce
    with False hs obtain as where "res = Inr as" by (auto simp: adopt_publication_for_invocation_def Let_def)
    with adopt_file_read(3) [OF assms hs] run False show ?thesis by auto
  qed
qed

interpretation registry: inductive_invariant registry_start registry_step file_ok
proof unfold_locales
  fix f g
  show "file_ok f" if "registry_start f" using that by (simp add: registry_start_def file_ok_def)
  show "file_ok g" if "file_ok f" and "registry_step f g"
    using that(2,1) by cases (auto intro: file_ok_publish file_ok_remove file_ok_adopt)
qed

section \<open>Example data\<close>

definition demo_head :: "string \<Rightarrow> string \<Rightarrow> published_head" where
  "demo_head sha iv = \<lparr>ph_pr_number = 7, ph_head_branch = ''main.a'', ph_base_branch = ''main'', ph_head_sha = sha,
     ph_author_agent = Some ''a-claude'', ph_author_role = Some ''leaf'', ph_provenance = LedgerOwned,
     ph_slice_id = Some ''s1'', ph_invocation_id = Some iv, ph_invocation_trigger = None,
     ph_invocation_runtime = None, ph_invocation_succession = []\<rparr>"

definition demo_adopt_request :: adoption_request where
  "demo_adopt_request = \<lparr>aq_agent_name = ''a-claude'', aq_head_branch = ''main.a'', aq_base_branch = ''main'',
     aq_slice_id = ''s1'', aq_pr_number = Some 7, aq_head_sha = None, aq_from_invocation_id = ''i1'',
     aq_to_invocation_id = ''i2''\<rparr>"

definition demo_file :: heads_file where
  "demo_file = snd (publish_verified_head (demo_head ''c1'' ''i1'') NoFile)"

lemma demo_head_encodable: "encodable (demo_head sha iv)"
  by (simp add: encodable_def demo_head_def)

lemma demo_file_reach: "reach registry_start registry_step demo_file"
proof -
  have "registry_step NoFile demo_file" unfolding demo_file_def by (rule step_publish [OF demo_head_encodable])
  moreover have "registry_start NoFile" by (simp add: registry_start_def)
  ultimately show ?thesis by (meson reach_start reach_step)
qed

lemma demo_file_read: "read_published_heads_locked demo_file = Inr [demo_head ''c1'' ''i1'']"
  by code_simp

section \<open>Properties\<close>

text \<open>C32. Whether an invocation may act for a publication is decided by reachability: the search with its
  set of seen invocations always ends, on any succession table, cyclic or not, and accepts an invocation exactly when a chain of
  recorded successions leads to it from the invocation that published the head.\<close>

theorem succession_is_reachability:
  "invocation_succession_reaches_current h current \<longleftrightarrow>
     (\<exists>original. ph_invocation_id h = Some original
        \<and> (original, current) \<in> {(is_from_invocation_id s, is_to_invocation_id s) | s. s \<in> set (ph_invocation_succession h)}\<^sup>*)"
proof -
  have "set (succession_edges h) = {(is_from_invocation_id s, is_to_invocation_id s) | s. s \<in> set (ph_invocation_succession h)}"
    by (auto simp: succession_edges_def)
  then show ?thesis by (simp add: reaches_iff)
qed

text \<open>C33. On every run of the registry, from no file by publishing, adopting and removing, the file
  reads back without error, and: no two entries are for the same pull request, branches and commit; all entries of a
  pull request have the same branches; all ledger-owned entries of a pull request have the same author, slice and publishing
  invocation, which are not blank.\<close>

theorem registry_invariant:
  assumes "reach registry_start registry_step f"
  shows "\<exists>hs. read_published_heads_locked f = Inr hs
     \<and> distinct (map (\<lambda>h. (ph_pr_number h, ph_head_branch h, ph_base_branch h, ph_head_sha h)) hs)
     \<and> (\<forall>g \<in> set hs. \<forall>h \<in> set hs. ph_pr_number g = ph_pr_number h \<longrightarrow>
          ph_head_branch g = ph_head_branch h \<and> ph_base_branch g = ph_base_branch h
          \<and> (ph_provenance g = LedgerOwned \<and> ph_provenance h = LedgerOwned \<longrightarrow>
               ph_author_agent g = ph_author_agent h \<and> ph_slice_id g = ph_slice_id h
               \<and> ph_invocation_id g = ph_invocation_id h))
     \<and> (\<forall>h \<in> set hs. validate h = Inr ())"
proof -
  obtain hs where hs: "read_published_heads_locked f = Inr hs" "registry_inv hs"
    by (rule file_ok_read [OF registry.reach_invar [OF assms]])
  from hs(2) have "distinct (map (\<lambda>h. (ph_pr_number h, ph_head_branch h, ph_base_branch h, ph_head_sha h)) hs)"
    by (simp add: registry_inv_def coordinates_def [abs_def])
  moreover from hs(2) have "\<forall>h \<in> set hs. validate h = Inr ()" by (simp add: registry_inv_def head_ok_def)
  moreover have "ph_head_branch g = ph_head_branch h \<and> ph_base_branch g = ph_base_branch h
          \<and> (ph_provenance g = LedgerOwned \<and> ph_provenance h = LedgerOwned \<longrightarrow>
               ph_author_agent g = ph_author_agent h \<and> ph_slice_id g = ph_slice_id h
               \<and> ph_invocation_id g = ph_invocation_id h)"
    if "g \<in> set hs" "h \<in> set hs" "ph_pr_number g = ph_pr_number h" for g h
    using registry_inv_compatible [OF hs(2) that(1,2)] that(3) by (simp add: compatible_heads_def same_owner_def)
  ultimately show ?thesis using hs(1) by blast
qed

theorem registry_invariant_witness:
  "\<exists>hs. read_published_heads_locked demo_file = Inr hs \<and> map ph_head_sha hs = [''c1'']
     \<and> distinct (map (\<lambda>h. (ph_pr_number h, ph_head_branch h, ph_base_branch h, ph_head_sha h)) hs)"
  using registry_invariant [OF demo_file_reach] by (auto simp: demo_file_read demo_head_def)

text \<open>Publishing is idempotent: after a successful publication, publishing the same head again
  answers that it is a duplicate and leaves the file as it is, even when the first call inherited its invocation lineage from an earlier
  entry of the pull request.\<close>

lemma publish_idempotent:
  assumes "reach registry_start registry_step f" and "encodable pub"
    and "publish_verified_head pub f = (Inr disposition, f')"
  shows "publish_verified_head pub f' = (Inr Duplicate, f')"
  using registry.reach_invar [OF assms(1)] assms(3)
proof (cases rule: publish_file_cases)
  case (unchanged hs)
  then show ?thesis using assms(3) by simp
next
  case (written hs d hs')
  have "head_ok pub" by (simp add: head_ok_def assms(2) written(3))
  from read_write [OF publish_into_inv [OF written(2) this written(4)]]
  have "read_published_heads_locked f' = Inr hs'" by (simp add: written(6))
  with publish_into_again [OF written(4)] written(3) show ?thesis by (simp add: publish_verified_head_def)
qed simp

text \<open>C35. Adoption only extends the lineage. An adoption by a different, non-empty
  invocation rewrites each entry at most in its succession table, by appending a single succession from the publishing to the new
  invocation, and only on a ledger-owned entry with exactly the requested agent, branches, slice and coordinates that the previous invocation could
  already act for; no invocation loses its standing; the new invocation can act for every entry that matches the request and that the previous
  one could act for; and repeating the adoption at any time adopts nothing and changes nothing.\<close>

theorem adoption_extends_lineage:
  assumes "reach registry_start registry_step f" and "now < 2 ^ 64"
    and "\<not> empty_request rq" and "aq_from_invocation_id rq \<noteq> aq_to_invocation_id rq"
    and "read_published_heads_locked f = Inr hs"
    and "adopt_publication_for_invocation now rq f = (Inr adoptions, f')"
  shows "\<exists>hs'. read_published_heads_locked f' = Inr hs'
     \<and> list_all2 (\<lambda>h h'.
          (h' = h \<or> (request_matches rq h \<and> invocation_succession_reaches_current h (aq_from_invocation_id rq)
             \<and> (\<exists>s. h' = h\<lparr>ph_invocation_succession := ph_invocation_succession h @ [s]\<rparr>
                  \<and> ph_invocation_id h = Some (is_from_invocation_id s)
                  \<and> is_to_invocation_id s = aq_to_invocation_id rq)))
          \<and> (\<forall>x. invocation_succession_reaches_current h x \<longrightarrow> invocation_succession_reaches_current h' x)
          \<and> (request_matches rq h \<and> invocation_succession_reaches_current h (aq_from_invocation_id rq) \<longrightarrow>
               invocation_succession_reaches_current h' (aq_to_invocation_id rq))) hs hs'
     \<and> (\<forall>now'. adopt_publication_for_invocation now' rq f' = (Inr [], f'))"
proof -
  let ?hs' = "map (\<lambda>h. fst (adopt_head now rq h)) hs"
  from adopt_file_read [OF registry.reach_invar [OF assms(1)] assms(2,5,6,3,4)]
  have r: "read_published_heads_locked f' = Inr ?hs'" by blast
  have one: "fst (adopt_head now rq h) = h \<or> (request_matches rq h \<and> invocation_succession_reaches_current h (aq_from_invocation_id rq)
             \<and> (\<exists>s. fst (adopt_head now rq h) = h\<lparr>ph_invocation_succession := ph_invocation_succession h @ [s]\<rparr>
                  \<and> ph_invocation_id h = Some (is_from_invocation_id s)
                  \<and> is_to_invocation_id s = aq_to_invocation_id rq))" for h
    by (rule adopt_head_cases [of now rq h]) auto
  have "adopt_publication_for_invocation now' rq f' = (Inr [], f')" for now'
    using assms(3,4)
    by (simp add: adopt_publication_for_invocation_def r Let_def comp_def adopt_head_again [OF refl] List.map_filter_def)
  moreover note one adopt_head_reaches adopt_head_grants
  ultimately show ?thesis using r by (intro exI [of _ ?hs']) (auto simp: list_all2_conv_all_nth)
qed

abbreviation demo_adoption :: "(registry_error + publication_adoption list) \<times> heads_file" where
  "demo_adoption \<equiv> adopt_publication_for_invocation 5 demo_adopt_request demo_file"

theorem adoption_extends_lineage_witness:
  "adopt_publication_for_invocation 9 demo_adopt_request (snd demo_adoption) = (Inr [], snd demo_adoption)
   \<and> map pa_pr_number (projr (fst demo_adoption)) = [7]"
proof -
  have a: "map pa_pr_number (projr (fst demo_adoption)) = [7]" "is_ok (fst demo_adoption)"
    "\<not> empty_request demo_adopt_request" by code_simp+
  from a(2) have "demo_adoption = (Inr (projr (fst demo_adoption)), snd demo_adoption)"
    by (metis is_ok_iff prod.collapse sum.sel(2))
  from adoption_extends_lineage [OF demo_file_reach _ a(3) _ demo_file_read this] a(1) show ?thesis
    by (auto simp: demo_adopt_request_def)
qed

text \<open>C36. The ownership check accepts exactly when: the publication names an author, the expected one if one is expected; and either
  there is no owner record at all and the publication is a legacy one without slice and invocation, or the
  owner's branch and parent branch are those of the publication, a ledger-owned publication has a non-blank
  slice, any slice is the owner's, and the current invocation is the publishing one or reachable from it, which only a legacy publication
  without invocation may omit.\<close>

theorem ownership_accepts_iff:
  "verify_publication_ownership h expected owner_branch owner_parent owner_slice current = Inr () \<longleftrightarrow>
     (\<exists>owner. nonblank (ph_author_agent h) = Some owner \<and> nonblank expected \<in> {None, Some owner})
     \<and> (owner_branch = None \<and> ph_provenance h = Legacy \<and> ph_slice_id h = None \<and> ph_invocation_id h = None
        \<or> owner_branch = Some (ph_head_branch h) \<and> owner_parent = Some (ph_base_branch h)
          \<and> (ph_provenance h = LedgerOwned \<and> nonblank (ph_slice_id h) \<noteq> None \<and> owner_slice = ph_slice_id h
             \<or> ph_provenance h = Legacy \<and> ph_slice_id h \<in> {None, Some [], owner_slice})
          \<and> (case ph_invocation_id h of
               None \<Rightarrow> ph_provenance h = Legacy
             | Some original \<Rightarrow>
                 (\<exists>c. current = Some c \<and> (original, c) \<in> (set (succession_edges h))\<^sup>*)))"
proof -
  have owner: "(\<exists>owner. publication_owner_matches h expected = Inr owner) \<longleftrightarrow>
      (\<exists>owner. nonblank (ph_author_agent h) = Some owner \<and> nonblank expected \<in> {None, Some owner})"
    by (auto simp: publication_owner_matches_def split: option.splits)
  have slice: "(\<exists>s. publication_slice h = Inr s \<and> \<not> (s \<noteq> [] \<and> owner_slice \<noteq> Some s)) \<longleftrightarrow>
      (ph_provenance h = LedgerOwned \<and> nonblank (ph_slice_id h) \<noteq> None \<and> owner_slice = ph_slice_id h
             \<or> ph_provenance h = Legacy \<and> ph_slice_id h \<in> {None, Some [], owner_slice})"
    by (cases "ph_provenance h"; cases "ph_slice_id h"; cases owner_slice)
      (auto simp: publication_slice_def nonblank_def)
  have invocation: "verify_invocation h current = Inr () \<longleftrightarrow> (case ph_invocation_id h of
               None \<Rightarrow> ph_provenance h = Legacy
             | Some original \<Rightarrow> (\<exists>c. current = Some c \<and> (original, c) \<in> (set (succession_edges h))\<^sup>*))"
    by (cases "ph_provenance h") (auto simp: verify_invocation_def reaches_iff split: option.split)
  have body: "verify_owned_by h owner branch owner_parent owner_slice current = Inr () \<longleftrightarrow>
      branch = ph_head_branch h \<and> owner_parent = Some (ph_base_branch h)
      \<and> (\<exists>s. publication_slice h = Inr s \<and> \<not> (s \<noteq> [] \<and> owner_slice \<noteq> Some s))
      \<and> verify_invocation h current = Inr ()" for owner branch
    by (auto simp: verify_owned_by_def split: option.splits if_splits)
  show ?thesis
    unfolding owner [symmetric] slice [symmetric] invocation [symmetric]
    by (cases owner_branch) (auto simp: verify_publication_ownership_def body)
qed

definition candidates :: "published_head list \<Rightarrow> string \<Rightarrow> nat set \<Rightarrow> abandoned_attempt list \<Rightarrow> published_head list" where
  "candidates heads slice live abandoned =
     filter (\<lambda>h. ph_slice_id h = Some slice \<and> ph_pr_number h \<in> live \<and> \<not> is_abandoned abandoned h) heads"

lemma last_filter_eq: "find p (rev xs) = (if filter p xs = [] then None else Some (last (filter p xs)))"
  by (induction xs rule: rev_induct) auto

text \<open>The live pull request of a slice. A slice without publications was never published; otherwise
  the answer is a pull request that the forge reports as live and that the slice published in an attempt that was not abandoned,
  a ledger-owned one if there is such, and the newest of them; and only when there is no such publication is every
  attempt abandoned.\<close>

lemma live_pr_newest:
  assumes "\<not> blank slice"
  shows "resolve_live_pr_for_slice_with_abandonments heads slice live abandoned =
     (if \<forall>h \<in> set heads. ph_slice_id h \<noteq> Some slice then NeverPublished
      else let c = candidates heads slice live abandoned;
               ledger = filter (\<lambda>h. ph_provenance h = LedgerOwned) c
           in if ledger \<noteq> [] then Live (ph_pr_number (last ledger))
              else if c \<noteq> [] then Live (ph_pr_number (last c)) else AllAttemptsAbandoned)"
proof -
  let ?c = "candidates heads slice live abandoned"
  have history: "filter (\<lambda>h. ph_pr_number h \<in> live \<and> \<not> is_abandoned abandoned h) (publication_history_for_slice heads slice) = ?c"
    using assms by (simp add: publication_history_for_slice_def candidates_def)
  have never: "publication_history_for_slice heads slice = [] \<longleftrightarrow> (\<forall>h \<in> set heads. ph_slice_id h \<noteq> Some slice)"
    using assms by (auto simp: publication_history_for_slice_def filter_empty_conv)
  have newest: "(case rev ?c of [] \<Rightarrow> AllAttemptsAbandoned | h # _ \<Rightarrow> Live (ph_pr_number h)) =
      (if ?c \<noteq> [] then Live (ph_pr_number (last ?c)) else AllAttemptsAbandoned)"
    by (cases ?c rule: rev_cases) auto
  show ?thesis
    unfolding resolve_live_pr_for_slice_with_abandonments_def Let_def history never last_filter_eq newest by simp
qed

end
