(* ===== verification/Paths.thy ===== *)
theory Paths
  imports Str_Ops
begin

text \<open>
  Paths as \<^verbatim>\<open>std::path\<close> reads them: the list of the components that \<^verbatim>\<open>Path::components\<close>
  yields, with \<open>''/''\<close> first when the path is absolute, so that equality and prefixes are those of
  Rust. \<open>path_str\<close> is the path as a string.
\<close>

type_synonym path = "string list"

text \<open>The components of a path given as a string: repeated and trailing separators and inner
  dots are skipped.\<close>

definition path_of :: "string \<Rightarrow> path" where
  "path_of s =
     (let pieces = split_on (CHR ''/'') s; inner = filter (\<lambda>c. c \<noteq> [] \<and> c \<noteq> ''.'') in
      if starts_with ''/'' s then ''/'' # inner pieces
      else if hd pieces = ''.'' then ''.'' # inner pieces
      else inner pieces)"

definition is_absolute :: "path \<Rightarrow> bool" where
  "is_absolute p \<longleftrightarrow> p \<noteq> [] \<and> hd p = ''/''"

definition resolve_path :: "path \<Rightarrow> path \<Rightarrow> path" where
  "resolve_path project_dir p = (if is_absolute p then p else project_dir @ p)"

definition path_within :: "path \<Rightarrow> path \<Rightarrow> bool" where
  "path_within parent child \<longleftrightarrow> child = parent \<or> take (length parent) child = parent"

text \<open>\<^verbatim>\<open>Path::join\<close>, \<^verbatim>\<open>Path::parent\<close> and \<^verbatim>\<open>Path::file_name\<close>.\<close>

definition path_join :: "path \<Rightarrow> path \<Rightarrow> path" where
  "path_join p q = (if is_absolute q then q else p @ q)"

definition path_parent :: "path \<Rightarrow> path option" where
  "path_parent p = (if p = [] \<or> p = [''/''] then None else Some (butlast p))"

definition path_file_name :: "path \<Rightarrow> string option" where
  "path_file_name p =
     (if p = [] \<or> last p = ''/'' \<or> last p = ''..'' \<or> last p = ''.'' then None else Some (last p))"

definition path_str :: "path \<Rightarrow> string" where
  "path_str p =
     (case p of
        [] \<Rightarrow> []
      | c # cs \<Rightarrow> if c = ''/'' then ''/'' @ join_with ''/'' cs else join_with ''/'' (c # cs))"

text \<open>\<^verbatim>\<open>OsString::push\<close> on a path that ends in a file name.\<close>

definition path_push_suffix :: "path \<Rightarrow> string \<Rightarrow> path" where
  "path_push_suffix p suffix = (if p = [] then [suffix] else butlast p @ [last p @ suffix])"

end
