(* ===== verification/Cleanup_Types.thy ===== *)
theory Cleanup_Types
  imports Paths
begin

text \<open>
  Verified cleanup, the data (\<^verbatim>\<open>services/cleanup/types.rs\<close>): the request with its
  validation, pull requests, branch evidence, candidates, plans and receipts, and the identity
  record of an agent (\<^verbatim>\<open>services/agent_resolver.rs\<close>).
\<close>

section \<open>Directories of a project\<close>

definition agents_dir :: "path \<Rightarrow> path" where
  "agents_dir project_dir = project_dir @ [''.exo'', ''agents'']"

definition worktrees_dir :: "path \<Rightarrow> path" where
  "worktrees_dir project_dir = project_dir @ [''.exo'', ''worktrees'']"

section \<open>Agents and repositories\<close>

datatype topology = TopologyUnspecified | WorktreePerAgent | SharedDir

datatype agent_type = Claude | Shoal | OpenCode | Codex | Process

record identity_record =
  ir_agent_name :: string
  ir_slug :: string
  ir_agent_type :: agent_type
  ir_birth_branch :: string
  ir_parent_branch :: string
  ir_working_dir :: path
  ir_display_name :: string
  ir_topology :: topology
  ir_model :: "string option"
  ir_effort :: "string option"
  ir_ledger_owned :: bool
  ir_slice_id :: "string option"

record repository_identity =
  rid_owner :: string
  rid_repo :: string
  rid_base_branch :: string
  rid_forge_host :: string
  rid_remote_url :: string
  rid_remote_name :: string

record captured_codex_trust =
  ct_agent_dir :: path
  ct_config_path :: path
  ct_user_config_path :: "path option"
  ct_owned_keys :: "(string \<times> string) list"

section \<open>The request\<close>

record cleanup_request =
  cq_target :: "string option"
  cq_sweep :: bool
  cq_apply :: bool
  cq_delete_remote_branch :: bool
  cq_reason :: "string option"
  cq_allow_no_pr :: bool
  cq_discard_dirty :: bool
  cq_preserve_unique_commits :: bool

definition cleanup_request_default :: cleanup_request where
  "cleanup_request_default =
     \<lparr> cq_target = None, cq_sweep = True, cq_apply = False, cq_delete_remote_branch = False,
       cq_reason = None, cq_allow_no_pr = False, cq_discard_dirty = False,
       cq_preserve_unique_commits = False \<rparr>"

definition cleanup_request_named :: "string \<Rightarrow> cleanup_request" where
  "cleanup_request_named target =
     \<lparr> cq_target = Some target, cq_sweep = False, cq_apply = False, cq_delete_remote_branch = False,
       cq_reason = None, cq_allow_no_pr = False, cq_discard_dirty = False,
       cq_preserve_unique_commits = False \<rparr>"

definition max_cleanup_target_bytes :: nat where "max_cleanup_target_bytes = 256"
definition max_cleanup_reason_bytes :: nat where "max_cleanup_reason_bytes = 1024"

definition validate_request :: "cleanup_request \<Rightarrow> string + unit" where
  "validate_request rq =
     (if cq_target rq \<noteq> None \<and> cq_sweep rq then
        Inl ''cleanup target and sweep cannot be requested together''
      else if \<not> cq_sweep rq \<and> cq_target rq = None then
        Inl ''cleanup requires a named target or sweep=true''
      else if (cq_allow_no_pr rq \<or> cq_discard_dirty rq \<or> cq_preserve_unique_commits rq
               \<or> cq_delete_remote_branch rq) \<and> cq_sweep rq then
        Inl ''cleanup overrides require a named target''
      else if cq_discard_dirty rq \<and> \<not> cq_apply rq then
        Inl ''discard_dirty requires apply=true''
      else if opt_is blank (cq_reason rq) then
        Inl ''cleanup reason cannot be empty''
      else if opt_is (\<lambda>r. length r > max_cleanup_reason_bytes) (cq_reason rq) then
        Inl ''cleanup reason exceeds the maximum length''
      else if opt_is blank (cq_target rq) then
        Inl ''cleanup target cannot be empty''
      else if opt_is (\<lambda>t. length t > max_cleanup_target_bytes) (cq_target rq) then
        Inl ''cleanup target exceeds the maximum length''
      else if opt_is (\<lambda>t. CHR ''/'' \<in> set t \<or> CHR 0x5C \<in> set t) (cq_target rq) then
        Inl ''cleanup target must be an agent name or slug, not a path''
      else Inr ())"

section \<open>Evidence\<close>

datatype cleanup_liveness = Live | Dead | LivenessUnknown

datatype cleanup_decision = Cleanable | Refused string

definition is_cleanable :: "cleanup_decision \<Rightarrow> bool" where
  "is_cleanable d \<longleftrightarrow> d = Cleanable"

fun decision_reason :: "cleanup_decision \<Rightarrow> string option" where
  "decision_reason Cleanable = None"
| "decision_reason (Refused r) = Some r"

record cleanup_pull_request =
  cp_number :: nat
  cp_head_ref :: string
  cp_base_ref :: string
  cp_state :: string
  cp_merged :: bool
  cp_head_sha :: "string option"
  cp_merge_commit_sha :: "string option"
  cp_authoring_agent :: "string option"
  cp_birth_branch :: "string option"

text \<open>A pull request as the forge answers, of which these fields are read.\<close>

record forgejo_pull_request =
  fp_number :: nat
  fp_head_ref :: string
  fp_base_ref :: string
  fp_state :: string
  fp_merged :: bool
  fp_head_sha :: "string option"
  fp_merge_commit_sha :: "string option"
  fp_body :: string

definition pr_metadata_value :: "string \<Rightarrow> string \<Rightarrow> string option" where
  "pr_metadata_value body key =
     nonempty (map_option (\<lambda>l. str_trim (drop (length (key @ '':'')) (str_trim l)))
       (find (\<lambda>l. starts_with (key @ '':'') (str_trim l)) (str_lines body)))"

definition cleanup_pull_request_from :: "forgejo_pull_request \<Rightarrow> cleanup_pull_request" where
  "cleanup_pull_request_from pr =
     \<lparr> cp_number = fp_number pr, cp_head_ref = fp_head_ref pr, cp_base_ref = fp_base_ref pr,
       cp_state = fp_state pr, cp_merged = fp_merged pr, cp_head_sha = fp_head_sha pr,
       cp_merge_commit_sha = fp_merge_commit_sha pr,
       cp_authoring_agent = pr_metadata_value (fp_body pr) ''Authoring-Agent'',
       cp_birth_branch = pr_metadata_value (fp_body pr) ''Birth-Branch'' \<rparr>"

datatype branch_action_status =
  NotRequested | WouldDelete | DeletePending | Deleted | AlreadyAbsent | ActionSkipped | ActionRefused

record branch_action =
  ba_status :: branch_action_status
  ba_reason :: "string option"

record dirty_evidence =
  de_porcelain :: "string list"
  de_tracked_paths :: "string list"
  de_untracked_paths :: "string list"
  de_truncated :: bool
  de_worktree_path :: "path option"
  de_branch :: "string option"
  de_head_sha :: "string option"

record recovered_provenance =
  rp_identity_sources :: "string list"
  rp_branch_sources :: "string list"
  rp_pull_request_sources :: "string list"
  rp_liveness_sources :: "string list"

record branch_evidence =
  be_branch :: "string option"
  be_local_head_sha :: "string option"
  be_remote_name :: "string option"
  be_remote_branch :: "string option"
  be_remote_head_sha :: "string option"
  be_target_branch :: "string option"
  be_target_head_sha :: "string option"
  be_merge_commit_reachable :: "bool option"
  be_local :: branch_action
  be_remote :: branch_action

section \<open>Candidates, plans and receipts\<close>

record cleanup_candidate =
  cc_id :: string
  cc_managed :: bool
  cc_resolver_only :: bool
  cc_recovery_receipt :: bool
  cc_recovered_provenance :: "recovered_provenance option"
  cc_agent_name :: string
  cc_issue :: "string option"
  cc_agent_dir :: path
  cc_worktree_path :: "path option"
  cc_local_branch :: "string option"
  cc_local_head_sha :: "string option"
  cc_remote_branch :: "string option"
  cc_remote_head_sha :: "string option"
  cc_pull_request :: "cleanup_pull_request option"
  cc_liveness :: cleanup_liveness
  cc_dirty :: "bool option"
  cc_dirty_evidence :: "dirty_evidence option"
  cc_protected :: bool
  cc_identity_drift :: bool
  cc_identity_error :: "string option"
  cc_head_matches_pull_request :: "bool option"
  cc_remote_head_matches_pull_request :: "bool option"
  cc_identity :: "identity_record option"
  cc_branch :: "branch_evidence option"
  cc_delete_remote_branch :: bool
  cc_allow_no_pr :: bool
  cc_discard_dirty :: bool
  cc_preserve_unique_commits :: bool
  cc_decision :: cleanup_decision

record target_branch =
  tb_remote_name :: string
  tb_branch :: string
  tb_head_sha :: string

record cleanup_plan =
  pl_schema_version :: nat
  pl_plan_id :: string
  pl_generated_at :: nat
  pl_project_dir :: path
  pl_repository :: "repository_identity option"
  pl_repository_error :: "string option"
  pl_operator_reason :: "string option"
  pl_preserve_unique_commits :: bool
  pl_candidates :: "cleanup_candidate list"
  pl_fetched_target :: "target_branch option"

datatype receipt_status = WouldClean | InProgress | Cleaned | ReceiptSkipped | ReceiptRefused | Failed

record receipt_entry =
  re_candidate_id :: string
  re_agent_name :: string
  re_agent_slug :: string
  re_identity_snapshot :: "identity_record option"
  re_recovered_provenance :: "recovered_provenance option"
  re_pull_request :: "cleanup_pull_request option"
  re_branch :: "branch_evidence option"
  re_status :: receipt_status
  re_actions :: "string list"
  re_reason :: "string option"
  re_dirty_evidence :: "dirty_evidence option"
  re_codex_trust :: "captured_codex_trust list option"

record cleanup_receipt =
  rc_schema_version :: nat
  rc_operation_id :: string
  rc_plan_id :: string
  rc_started_at :: nat
  rc_finished_at :: nat
  rc_dry_run :: bool
  rc_operator_reason :: "string option"
  rc_preserve_unique_commits :: bool
  rc_entries :: "receipt_entry list"

definition cleanup_plan_schema_version :: nat where "cleanup_plan_schema_version = 1"
definition cleanup_receipt_schema_version :: nat where "cleanup_receipt_schema_version = 1"

end
