(* ===== verification/Cleanup_World.thy ===== *)
theory Cleanup_World
  imports Cleanup_Types
begin

text \<open>
  What cleanup observes (\<^verbatim>\<open>services/cleanup/support.rs\<close>,
  \<^verbatim>\<open>inspection_support.rs\<close>, \<^verbatim>\<open>inspection_observation.rs\<close>,
  \<^verbatim>\<open>recovery.rs\<close>). A \<open>world\<close> is what git, the file system, the forge, tmux, the
  resolver and the agents' runtime files answer at one moment; the definitions below are the
  code that asks and interprets. \<^verbatim>\<open>String::from_utf8_lossy\<close> is the identity on the byte
  strings of the model.
\<close>

section \<open>Answers\<close>

record git_output =
  go_code :: "int option"
  go_stdout :: string
  go_stderr :: string

datatype file_kind = IsDir | IsSymlink | IsOther

datatype io_failure = IoNotFound string | IoOther string

fun io_message :: "io_failure \<Rightarrow> string" where
  "io_message (IoNotFound m) = m"
| "io_message (IoOther m) = m"

record world =
  w_git :: "path \<Rightarrow> string list \<Rightarrow> string + git_output"
  w_symlink_metadata :: "path \<Rightarrow> io_failure + file_kind"
  w_exists :: "path \<Rightarrow> bool"
  w_is_dir :: "path \<Rightarrow> bool"
  w_canonicalize :: "path \<Rightarrow> string + path"
  w_read_to_string :: "path \<Rightarrow> io_failure + string"
  w_read_dir :: "path \<Rightarrow> string + string list"
  w_parse_identity :: "string \<Rightarrow> identity_record option"
  w_resolver_get :: "string \<Rightarrow> identity_record option"
  w_repository_identity :: "string + repository_identity"
  w_pull_requests :: "(string \<Rightarrow> string \<Rightarrow> string \<Rightarrow> string + forgejo_pull_request list) option"
  w_read_invocation :: "path \<Rightarrow> string + bool option"
  w_read_routing :: "path \<Rightarrow> string + bool"
  w_routing_target_alive :: "path \<Rightarrow> string + bool"
  w_routing_process_alive :: "path \<Rightarrow> string + bool"
  w_tmux_session :: "string option"
  w_list_windows :: "string + string list"
  w_has_generated_codex_config :: "path \<Rightarrow> bool"
  w_capture_codex_trust :: "path list \<Rightarrow> string + captured_codex_trust list"
  w_release_codex_trust :: "captured_codex_trust list \<Rightarrow> string list"
  w_remove_dir_all :: "path \<Rightarrow> io_failure + unit"
  w_remove_workspace :: "path \<Rightarrow> string + (string + unit)"
  w_remove_synthetic_members :: "identity_record \<Rightarrow> string + unit"
  w_deregister :: "string \<Rightarrow> string + unit"
  w_persist_receipt :: "cleanup_receipt \<Rightarrow> string + unit"

text \<open>\<^verbatim>\<open>context\<close> of anyhow replaces the displayed message.\<close>

definition with_context :: "'e + 'a \<Rightarrow> string \<Rightarrow> string + 'a" where
  "with_context r message = (case r of Inl _ \<Rightarrow> Inl message | Inr v \<Rightarrow> Inr v)"

lemma with_context_simps [simp]:
  "with_context (Inl e) c = Inl c" "with_context (Inr v) c = Inr v"
  by (simp_all add: with_context_def)

text \<open>\<^verbatim>\<open>.ok().flatten()\<close> on a result of an option, and \<^verbatim>\<open>.ok()\<close>.\<close>

fun ok_flatten :: "'e + 'a option \<Rightarrow> 'a option" where
  "ok_flatten (Inl _) = None"
| "ok_flatten (Inr v) = v"

fun ok_opt :: "'e + 'a \<Rightarrow> 'a option" where
  "ok_opt (Inl _) = None"
| "ok_opt (Inr v) = Some v"

definition git_success :: "git_output \<Rightarrow> bool" where
  "git_success out \<longleftrightarrow> go_code out = Some 0"

section \<open>Arguments of git\<close>

definition branch_arg_char_ok :: "char \<Rightarrow> bool" where
  "branch_arg_char_ok c \<longleftrightarrow> c \<notin> set '' ~^:?*['' \<and> c \<noteq> CHR 0x5C"

definition validate_branch_arg :: "string \<Rightarrow> string \<Rightarrow> string + unit" where
  "validate_branch_arg branch label =
     (if branch = [] then Inl (''validate '' @ label)
      else if starts_with ''-'' branch \<or> ends_with ''/'' branch \<or> ends_with ''.'' branch
           \<or> contains ''..'' branch \<or> contains [CHR ''@'', CHR ''{''] branch \<or> contains ''//'' branch
           \<or> \<not> list_all branch_arg_char_ok branch
           \<or> list_ex (\<lambda>part. part = [] \<or> part = ''.'' \<or> part = ''..'') (split_on (CHR ''/'') branch)
           \<or> list_ex (\<lambda>part. ends_with ''.lock'' part) (split_on (CHR ''/'') branch)
      then Inl (label @ '' is not a valid Git branch name'')
      else Inr ())"

definition is_ascii_hexdigit :: "char \<Rightarrow> bool" where
  "is_ascii_hexdigit c \<longleftrightarrow> c \<in> set ''0123456789abcdefABCDEF''"

definition validate_commit_arg :: "string \<Rightarrow> string + unit" where
  "validate_commit_arg commit =
     (if length commit \<notin> {40, 64} \<or> \<not> list_all is_ascii_hexdigit commit
      then Inl ''commit SHA is invalid'' else Inr ())"

section \<open>Reading the repository\<close>

definition checked_out_branch :: "world \<Rightarrow> path \<Rightarrow> string + string option" where
  "checked_out_branch w project_dir =
     bindR (with_context (w_git w project_dir [''branch'', ''--show-current'']) ''read checked-out branch'') (\<lambda>out.
       if \<not> git_success out then Inl (''read checked-out branch: '' @ str_trim (go_stderr out))
       else Inr (nonempty (Some (str_trim (go_stdout out)))))"

definition current_branch :: "world \<Rightarrow> path \<Rightarrow> string option" where
  "current_branch w project_dir = ok_flatten (checked_out_branch w project_dir)"

definition workspace_git_root :: "world \<Rightarrow> path \<Rightarrow> string + path option" where
  "workspace_git_root w worktree =
     bindR (with_context (w_git w worktree [''rev-parse'', ''--show-toplevel'']) ''read worktree git root'') (\<lambda>out.
       if \<not> git_success out then Inr None
       else bindR (w_canonicalize w (path_of (str_trim (go_stdout out)))) (\<lambda>p. Inr (Some p)))"

definition workspace_branch :: "world \<Rightarrow> path \<Rightarrow> string + string option" where
  "workspace_branch w worktree =
     bindR (with_context (w_git w worktree [''branch'', ''--show-current'']) ''read worktree branch'') (\<lambda>out.
       if \<not> git_success out then Inl ''read worktree branch failed''
       else Inr (nonempty (Some (str_trim (go_stdout out)))))"

definition workspace_head_sha :: "world \<Rightarrow> path \<Rightarrow> string + string" where
  "workspace_head_sha w worktree =
     bindR (with_context (w_git w worktree [''rev-parse'', ''--verify'', ''HEAD'']) ''read worktree head'') (\<lambda>out.
       if \<not> git_success out then Inl ''read worktree head failed'' else Inr (str_trim (go_stdout out)))"

definition max_dirty_evidence_bytes :: nat where "max_dirty_evidence_bytes = 16 * 1024"
definition max_dirty_evidence_entries :: nat where "max_dirty_evidence_entries = 256"

definition dirty_lines :: "string \<Rightarrow> string list" where
  "dirty_lines text = filter (\<lambda>l. \<not> length l < 3) (take max_dirty_evidence_entries (str_lines text))"

definition workspace_status :: "world \<Rightarrow> path \<Rightarrow> string + dirty_evidence" where
  "workspace_status w worktree =
     bindR (with_context (w_git w worktree [''status'', ''--porcelain=v1'', ''--untracked-files=all''])
              ''read worktree status'') (\<lambda>out.
       if \<not> git_success out then Inl ''read worktree status failed''
       else let text = take max_dirty_evidence_bytes (go_stdout out); lines = dirty_lines text in
         Inr \<lparr> de_porcelain = lines,
               de_tracked_paths = map (drop 3) (filter (\<lambda>l. \<not> starts_with ''??'' l) lines),
               de_untracked_paths = map (drop 3) (filter (starts_with ''??'') lines),
               de_truncated = length (go_stdout out) > max_dirty_evidence_bytes
                 \<or> length (str_lines text) > max_dirty_evidence_entries,
               de_worktree_path = Some worktree,
               de_branch = ok_flatten (workspace_branch w worktree),
               de_head_sha = ok_opt (workspace_head_sha w worktree) \<rparr>)"

definition local_ref_state :: "world \<Rightarrow> path \<Rightarrow> string \<Rightarrow> string + string option" where
  "local_ref_state w project_dir ref_name =
     bindR (with_context (w_git w project_dir [''rev-parse'', ''--verify'', ref_name]) ''read git ref'') (\<lambda>out.
       Inr (if git_success out then Some (str_trim (go_stdout out)) else None))"

definition local_branch_state :: "world \<Rightarrow> path \<Rightarrow> string \<Rightarrow> string + string option" where
  "local_branch_state w project_dir branch =
     bindR (validate_branch_arg branch ''local branch'') (\<lambda>_.
     bindR (with_context (w_git w project_dir [''rev-parse'', ''--verify'', ''refs/heads/'' @ branch])
              ''read local branch'') (\<lambda>out.
       Inr (if git_success out then Some (str_trim (go_stdout out)) else None)))"

function split_whitespace_from :: "string \<Rightarrow> string \<Rightarrow> string list" where
  "split_whitespace_from acc s =
     (if s = [] then (if acc = [] then [] else [rev acc])
      else case leading_space s of
        Some w \<Rightarrow> (if acc = [] then [] else [rev acc]) @ split_whitespace_from [] (drop (length w) s)
      | None \<Rightarrow> split_whitespace_from (hd s # acc) (tl s))"
  by pat_completeness auto
termination
  by (relation "measure (\<lambda>(acc, s). length s)") (auto dest!: leading_space_SomeD)

declare split_whitespace_from.simps [simp del]

definition parse_remote_branch_line :: "string \<Rightarrow> (string \<times> string) option" where
  "parse_remote_branch_line line =
     (case split_whitespace_from [] line of [sha, reference] \<Rightarrow> Some (sha, reference) | _ \<Rightarrow> None)"

definition remote_branch_state :: "world \<Rightarrow> path \<Rightarrow> string \<Rightarrow> string \<Rightarrow> string + string option" where
  "remote_branch_state w project_dir remote branch =
     (let name = remote @ ''/'' @ branch; ref_name = ''refs/heads/'' @ branch in
      bindR (validate_branch_arg branch ''remote branch'') (\<lambda>_.
      bindR (with_context (w_git w project_dir [''ls-remote'', ''--heads'', remote, ref_name])
               (''read remote branch '' @ name)) (\<lambda>out.
        if \<not> git_success out then
          Inl (''read remote branch '' @ name @ '': '' @ str_trim (go_stderr out))
        else
          bindR (traverse (\<lambda>line. case parse_remote_branch_line line of
                     None \<Rightarrow> Inl (''remote branch '' @ name @ '' returned malformed evidence'')
                   | Some (sha, reference) \<Rightarrow>
                       if reference \<noteq> ref_name
                       then Inl (''remote branch '' @ name @ '' returned conflicting evidence'')
                       else Inr sha)
                   (filter (\<lambda>l. \<not> blank l) (str_lines (go_stdout out)))) (\<lambda>matches.
            case matches of
              [] \<Rightarrow> Inr None
            | [sha] \<Rightarrow> Inr (Some sha)
            | _ \<Rightarrow> Inl (''remote branch '' @ name @ '' has ambiguous heads'')))))"

definition fetch_target_branch :: "world \<Rightarrow> path \<Rightarrow> string \<Rightarrow> string \<Rightarrow> string + target_branch" where
  "fetch_target_branch w project_dir remote branch =
     (let name = remote @ ''/'' @ branch; remote_ref = ''refs/remotes/'' @ name in
      bindR (validate_branch_arg branch ''configured target branch'') (\<lambda>_.
      bindR (with_context (w_git w project_dir
               [''fetch'', ''--no-tags'', remote, ''+refs/heads/'' @ branch @ '':'' @ remote_ref])
               (''fetch configured target '' @ name)) (\<lambda>out.
        if \<not> git_success out then
          Inl (''fetch configured target '' @ name @ '': '' @ str_trim (go_stderr out))
        else
          bindR (local_ref_state w project_dir remote_ref) (\<lambda>head.
            case head of
              None \<Rightarrow> Inl (''fetched configured target '' @ name @ '' has no head'')
            | Some sha \<Rightarrow> Inr \<lparr> tb_remote_name = remote, tb_branch = branch, tb_head_sha = sha \<rparr>))))"

definition merge_commit_reachable :: "world \<Rightarrow> path \<Rightarrow> string \<Rightarrow> target_branch \<Rightarrow> string + bool" where
  "merge_commit_reachable w project_dir merge_commit target =
     bindR (validate_commit_arg merge_commit) (\<lambda>_.
     bindR (with_context (w_git w project_dir
              [''merge-base'', ''--is-ancestor'', merge_commit,
               ''refs/remotes/'' @ tb_remote_name target @ ''/'' @ tb_branch target])
              ''verify pull request merge reachability'') (\<lambda>out.
       if git_success out then Inr True
       else if go_code out = Some 1 then Inr False
       else Inl (''verify pull request merge reachability: '' @ str_trim (go_stderr out))))"

definition branch_checked_out_in_any_worktree :: "world \<Rightarrow> path \<Rightarrow> string \<Rightarrow> string + bool" where
  "branch_checked_out_in_any_worktree w project_dir branch =
     bindR (with_context (w_git w project_dir [''worktree'', ''list'', ''--porcelain''])
              ''read checked-out worktree branches'') (\<lambda>out.
       if \<not> git_success out then
         Inl (''read checked-out worktree branches: '' @ str_trim (go_stderr out))
       else Inr (list_ex (\<lambda>line. strip_prefix ''branch refs/heads/'' line = Some branch)
                   (str_lines (go_stdout out))))"

section \<open>Liveness\<close>

definition classify_routing_target :: "string + bool \<Rightarrow> cleanup_liveness" where
  "classify_routing_target r =
     (case r of Inr True \<Rightarrow> Live | Inr False \<Rightarrow> Dead | Inl _ \<Rightarrow> LivenessUnknown)"

definition liveness :: "world \<Rightarrow> path \<Rightarrow> cleanup_liveness" where
  "liveness w agent_dir =
     (if \<not> w_is_dir w agent_dir then LivenessUnknown
      else let marked_terminal = w_exists w (agent_dir @ [''exited_at'']) \<or> w_exists w (agent_dir @ [''exit_code'']) in
        case w_read_invocation w agent_dir of
          Inl _ \<Rightarrow> LivenessUnknown
        | Inr (Some True) \<Rightarrow> Live
        | Inr invocation \<Rightarrow>
            if \<not> w_exists w (agent_dir @ [''routing.json'']) then
              (if marked_terminal \<or> invocation \<noteq> None then Dead else LivenessUnknown)
            else case w_read_routing w agent_dir of
              Inl _ \<Rightarrow> LivenessUnknown
            | Inr False \<Rightarrow> Dead
            | Inr True \<Rightarrow>
                (if \<not> opt_is (\<lambda>s. \<not> blank s) (w_tmux_session w) then LivenessUnknown
                 else case classify_routing_target (w_routing_target_alive w agent_dir) of
                   Dead \<Rightarrow> Dead
                 | LivenessUnknown \<Rightarrow> LivenessUnknown
                 | Live \<Rightarrow> (case w_routing_process_alive w agent_dir of
                     Inr True \<Rightarrow> Live | Inr False \<Rightarrow> Dead | Inl _ \<Rightarrow> LivenessUnknown)))"

definition recovered_liveness :: "world \<Rightarrow> identity_record \<Rightarrow> cleanup_liveness" where
  "recovered_liveness w identity =
     (if \<not> opt_is (\<lambda>s. \<not> blank s) (w_tmux_session w) then LivenessUnknown
      else case w_list_windows w of
        Inl _ \<Rightarrow> LivenessUnknown
      | Inr windows \<Rightarrow>
          if list_ex (\<lambda>name. name = ir_display_name identity \<or> name = ir_agent_name identity) windows
          then Live else Dead)"

section \<open>Pull requests\<close>

definition pull_request_state ::
  "world \<Rightarrow> string option \<Rightarrow> bool \<Rightarrow> repository_identity option \<Rightarrow> string option
     \<Rightarrow> cleanup_pull_request option \<times> string option" where
  "pull_request_state w branch_name is_worktree repository repository_error =
     (if \<not> is_worktree then (None, None)
      else case branch_name of
        None \<Rightarrow> (None, Some ''managed worktree branch is unavailable'')
      | Some branch \<Rightarrow>
          (case repository of
             None \<Rightarrow> (None, repository_error)
           | Some rid \<Rightarrow>
               (case w_pull_requests w of
                  None \<Rightarrow> (None, Some ''Forgejo client is not configured'')
                | Some find_by_head \<Rightarrow>
                    if branch = [] then (None, Some ''empty branch_name'')
                    else (case find_by_head (rid_owner rid) (rid_repo rid) branch of
                       Inl e \<Rightarrow> (None, Some e)
                     | Inr [pr] \<Rightarrow> (Some (cleanup_pull_request_from pr), None)
                     | Inr [] \<Rightarrow> (None, None)
                     | Inr prs \<Rightarrow> (None, Some (nat_str (length prs) @ '' pull requests own this branch''))))))"

end
