(* ===== verification/Cleanup_Decision.thy ===== *)
theory Cleanup_Decision
  imports Cleanup_World
begin

text \<open>
  Whether a managed resource may be cleaned (\<^verbatim>\<open>services/cleanup/decision.rs\<close>,
  \<^verbatim>\<open>inspection_branch.rs\<close>, \<^verbatim>\<open>inspection_observation.rs\<close>,
  \<^verbatim>\<open>inspection_collect.rs\<close>, \<^verbatim>\<open>inspection_build.rs\<close>): the observations of one
  resource, the decision on them, and the candidate they become.
\<close>

section \<open>The decision\<close>

record decision_context =
  dc_identity :: "identity_record option"
  dc_identity_error :: "string option"
  dc_liveness :: cleanup_liveness
  dc_dirty :: "bool option"
  dc_protected :: bool
  dc_identity_drift :: bool
  dc_repository :: "repository_identity option"
  dc_repository_error :: "string option"
  dc_remote_error :: "string option"
  dc_pull_request :: "cleanup_pull_request option"
  dc_pr_error :: "string option"
  dc_head_matches_pull_request :: "bool option"
  dc_remote_head_matches_pull_request :: "bool option"
  dc_merge_commit_reachable :: "(string + bool) option"
  dc_target_error :: "string option"
  dc_resolver_only :: bool
  dc_recovery_receipt :: bool
  dc_allow_no_pr :: bool
  dc_discard_dirty :: bool

definition reject_identity :: "decision_context \<Rightarrow> cleanup_decision option" where
  "reject_identity c =
     (case dc_identity_error c of
        Some e \<Rightarrow> Some (Refused e)
      | None \<Rightarrow>
          (case dc_identity c of
             None \<Rightarrow> None
           | Some identity \<Rightarrow>
               if ir_ledger_owned identity then
                 Some (Refused ''ledger-owned agent requires controller reconciliation'')
               else if ir_topology identity = TopologyUnspecified then
                 Some (Refused ''agent topology is unspecified'')
               else if dc_identity_drift c then
                 Some (Refused ''agent identity or worktree path drifted'')
               else None))"

definition reject_liveness :: "decision_context \<Rightarrow> cleanup_decision option" where
  "reject_liveness c =
     (case dc_liveness c of
        Live \<Rightarrow> Some (Refused ''agent is live'')
      | LivenessUnknown \<Rightarrow> Some (Refused ''agent liveness is unknown'')
      | Dead \<Rightarrow> None)"

definition reject_candidate_state :: "decision_context \<Rightarrow> cleanup_decision option" where
  "reject_candidate_state c =
     (if dc_dirty c = Some True \<and> \<not> dc_discard_dirty c then
        Some (Refused ''worktree is dirty; discard_dirty authorization is required'')
      else if dc_dirty c = None then Some (Refused ''worktree is dirty or unavailable'')
      else if dc_protected c then
        Some (Refused ''branch is protected or is the current/base branch'')
      else if dc_resolver_only c \<and> \<not> dc_recovery_receipt c then
        Some (Refused ''resolver-only cleanup lacks a matching in-progress receipt'')
      else None)"

definition reject_head_mismatch :: "decision_context \<Rightarrow> cleanup_decision option" where
  "reject_head_mismatch c =
     (if dc_head_matches_pull_request c = Some False then
        Some (Refused ''managed branch head differs from the pull-request head'')
      else if dc_remote_head_matches_pull_request c = Some False then
        Some (Refused ''configured remote branch head differs from the pull-request head'')
      else None)"

definition closed_unmerged :: "cleanup_pull_request \<Rightarrow> bool" where
  "closed_unmerged pr \<longleftrightarrow> \<not> cp_merged pr \<and> eq_ignore_ascii_case (cp_state pr) ''closed''"

definition unwrap_or_cleanable :: "cleanup_decision option \<Rightarrow> cleanup_decision" where
  "unwrap_or_cleanable d = (case d of Some r \<Rightarrow> r | None \<Rightarrow> Cleanable)"

definition pull_request_safety_decision ::
  "decision_context \<Rightarrow> identity_record \<Rightarrow> repository_identity \<Rightarrow> cleanup_pull_request \<Rightarrow> bool
     \<Rightarrow> cleanup_decision" where
  "pull_request_safety_decision c identity repository pr recovered_provenance =
     (if \<not> (cp_merged pr \<or> recovered_provenance \<and> closed_unmerged pr) then
        Refused (''pull request #'' @ nat_str (cp_number pr) @ '' is ''
                 @ (if cp_state pr = [] then ''closed'' else cp_state pr) @ '' and not merged'')
      else if cp_base_ref pr \<noteq> rid_base_branch repository then
        Refused ''pull request targets a different base branch''
      else if cp_head_ref pr \<noteq> ir_birth_branch identity then
        Refused ''pull request head does not match the managed branch''
      else if nonempty (cp_head_sha pr) = None then
        Refused ''pull request head SHA is unavailable''
      else case dc_target_error c of
        Some e \<Rightarrow> Refused (''configured target branch is unavailable: '' @ e)
      | None \<Rightarrow>
          if closed_unmerged pr then unwrap_or_cleanable (reject_head_mismatch c)
          else case dc_merge_commit_reachable c of
            Some (Inr True) \<Rightarrow> unwrap_or_cleanable (reject_head_mismatch c)
          | Some (Inr False) \<Rightarrow>
              Refused ''pull request merge commit is not reachable from the fetched target branch''
          | Some (Inl e) \<Rightarrow> Refused (''pull request merge reachability is unverifiable: '' @ e)
          | None \<Rightarrow> Refused ''pull request merge commit reachability is unavailable'')"

definition pull_request_decision :: "decision_context \<Rightarrow> bool \<Rightarrow> cleanup_decision" where
  "pull_request_decision c recovered_provenance =
     (case dc_identity c of
        None \<Rightarrow> Refused ''managed identity is missing or malformed''
      | Some identity \<Rightarrow>
          if ir_topology identity \<noteq> WorktreePerAgent then Cleanable
          else case dc_repository c of
            None \<Rightarrow> Refused (case dc_repository_error c of
                       Some e \<Rightarrow> e | None \<Rightarrow> ''repository identity is unavailable'')
          | Some repository \<Rightarrow>
              (case dc_remote_error c of
                 Some e \<Rightarrow> Refused (''configured remote is unavailable: '' @ e)
               | None \<Rightarrow>
                   (case dc_pr_error c of
                      Some e \<Rightarrow> Refused (''pull-request ownership is not verified: '' @ e)
                    | None \<Rightarrow>
                        (case dc_pull_request c of
                           None \<Rightarrow>
                             if dc_allow_no_pr c then Cleanable
                             else Refused ''pull-request ownership is not verified''
                         | Some pr \<Rightarrow>
                             pull_request_safety_decision c identity repository pr recovered_provenance))))"

definition candidate_decision_for_recovery :: "decision_context \<Rightarrow> bool \<Rightarrow> cleanup_decision" where
  "candidate_decision_for_recovery c recovered_provenance =
     (case reject_identity c of
        Some d \<Rightarrow> d
      | None \<Rightarrow>
          (case reject_liveness c of
             Some d \<Rightarrow> d
           | None \<Rightarrow>
               (case reject_candidate_state c of
                  Some d \<Rightarrow> d
                | None \<Rightarrow>
                    if dc_resolver_only c then Cleanable
                    else pull_request_decision c recovered_provenance)))"

text \<open>The counts of the code are those of all candidates before the first one is changed.\<close>

definition branch_count :: "cleanup_candidate list \<Rightarrow> string \<Rightarrow> nat" where
  "branch_count candidates branch = length (filter (\<lambda>c. cc_local_branch c = Some branch) candidates)"

definition refuse_duplicate_branches :: "cleanup_candidate list \<Rightarrow> cleanup_candidate list" where
  "refuse_duplicate_branches candidates =
     map (\<lambda>c. if opt_is (\<lambda>b. branch_count candidates b > 1) (cc_local_branch c)
              then c \<lparr> cc_decision := Refused ''managed branch has ambiguous local ownership'' \<rparr>
              else c) candidates"

section \<open>Observations\<close>

record discovered_resource =
  dr_id :: string
  dr_agent_dir :: path
  dr_worktree_path :: "path option"
  dr_identity :: "identity_record option"
  dr_identity_error :: "string option"
  dr_resolver_only :: bool
  dr_recovery_receipt :: bool
  dr_recovered_provenance :: "recovered_provenance option"

record worktree_observation =
  wo_worktree_path :: "path option"
  wo_branch_name :: "string option"
  wo_dirty :: "bool option"
  wo_dirty_evidence :: "dirty_evidence option"
  wo_identity_drift :: bool

record local_observation =
  lo_identity_error :: "string option"
  lo_local_branch :: "string option"
  lo_local_head_sha :: "string option"

record remote_observation =
  ro_branch :: "string option"
  ro_head_sha :: "string option"
  ro_error :: "string option"

record observed_resource =
  or_id :: string
  or_agent_dir :: path
  or_identity :: "identity_record option"
  or_identity_error :: "string option"
  or_resolver_only :: bool
  or_recovery_receipt :: bool
  or_recovered_provenance :: "recovered_provenance option"
  or_worktree :: worktree_observation
  or_issue :: "string option"

record pull_request_observation =
  po_request :: "cleanup_pull_request option"
  po_error :: "string option"
  po_head_matches :: "bool option"
  po_remote_head_matches :: "bool option"
  po_merge_commit_reachable :: "(string + bool) option"

text \<open>The result of \<^verbatim>\<open>derive_worktree_path\<close> is the path and whether it found a drift.\<close>

definition derive_worktree_path ::
  "path \<Rightarrow> path option \<Rightarrow> path option \<Rightarrow> identity_record option \<Rightarrow> path option \<times> bool" where
  "derive_worktree_path project_dir discovered resolved identity =
     (if \<not> opt_is (\<lambda>i. ir_topology i = WorktreePerAgent) identity \<and> discovered = None then (None, False)
      else let worktree = or_opt discovered resolved in
        (worktree, opt_is (\<lambda>p. \<not> path_within (worktrees_dir project_dir) p) worktree))"

definition observe_existing_worktree ::
  "world \<Rightarrow> path \<Rightarrow> path option \<Rightarrow> string option \<Rightarrow> bool \<Rightarrow> bool option \<times> dirty_evidence option \<times> bool" where
  "observe_existing_worktree w project_dir worktree_path expected_branch recovered =
     (case worktree_path of
        None \<Rightarrow> (Some False, None, False)
      | Some worktree \<Rightarrow>
          if \<not> w_exists w worktree then (Some False, None, False)
          else if recovered then
            (Some False, None,
             case (ok_opt (w_canonicalize w worktree), ok_flatten (workspace_git_root w worktree)) of
               (Some path, Some root) \<Rightarrow> path = root | _ \<Rightarrow> False)
          else case w_canonicalize w worktree of
            Inl _ \<Rightarrow> (None, None, True)
          | Inr canonical \<Rightarrow>
              (let drift = \<not> path_within project_dir canonical
                     \<or> \<not> path_within (worktrees_dir project_dir) canonical
                     \<or> (case workspace_git_root w worktree of Inr (Some root) \<Rightarrow> root \<noteq> canonical | _ \<Rightarrow> True)
                     \<or> (case workspace_branch w worktree of
                          Inr (Some branch) \<Rightarrow> opt_is (\<lambda>expected. branch \<noteq> expected) expected_branch
                        | _ \<Rightarrow> True)
               in case workspace_status w worktree of
                    Inr evidence \<Rightarrow>
                      (Some (de_porcelain evidence \<noteq> []),
                       if de_porcelain evidence \<noteq> [] then Some evidence else None, drift)
                  | Inl _ \<Rightarrow> (None, None, drift)))"

definition observe_worktree ::
  "world \<Rightarrow> path \<Rightarrow> string \<Rightarrow> path option \<Rightarrow> identity_record option \<Rightarrow> string option
     \<Rightarrow> recovered_provenance option \<Rightarrow> worktree_observation" where
  "observe_worktree w project_dir rid discovered identity identity_error recovered =
     (let resolved = or_opt (map_option (\<lambda>i. resolve_path project_dir (ir_working_dir i)) identity) discovered;
          drift = identity_error \<noteq> None \<or> identity = None
            \<or> opt_is (\<lambda>i. rid \<noteq> ir_agent_name i) identity
            \<or> opt_is (\<lambda>p. \<not> path_within project_dir p) resolved;
          (worktree_path, path_drift) = derive_worktree_path project_dir discovered resolved identity;
          observed_branch =
            (if recovered = None
             then (case worktree_path of Some wt \<Rightarrow> ok_flatten (workspace_branch w wt) | None \<Rightarrow> None)
             else None);
          branch_name =
            (case worktree_path of None \<Rightarrow> None
             | Some _ \<Rightarrow> or_opt (map_option ir_birth_branch identity) observed_branch);
          (dirty, dirty_evidence, worktree_drift) =
            observe_existing_worktree w project_dir worktree_path (map_option ir_birth_branch identity)
              (recovered \<noteq> None)
      in \<lparr> wo_worktree_path = worktree_path, wo_branch_name = branch_name, wo_dirty = dirty,
           wo_dirty_evidence = dirty_evidence,
           wo_identity_drift = drift \<or> path_drift \<or> worktree_drift \<rparr>)"

definition inspect_local_branch ::
  "world \<Rightarrow> path \<Rightarrow> bool \<Rightarrow> string option \<Rightarrow> string option \<Rightarrow> local_observation" where
  "inspect_local_branch w project_dir resolver_only branch identity_error =
     (let without_branch = (\<lambda>e. \<lparr> lo_identity_error = e, lo_local_branch = None, lo_local_head_sha = None \<rparr>) in
      if resolver_only then without_branch identity_error
      else case branch of
        None \<Rightarrow> without_branch identity_error
      | Some b \<Rightarrow>
          (case local_branch_state w project_dir b of
             Inr (Some sha) \<Rightarrow>
               \<lparr> lo_identity_error = identity_error, lo_local_branch = Some b, lo_local_head_sha = Some sha \<rparr>
           | Inr None \<Rightarrow> without_branch identity_error
           | Inl e \<Rightarrow> without_branch (Some (''read local branch: '' @ e))))"

definition inspect_remote_branch ::
  "world \<Rightarrow> path \<Rightarrow> bool \<Rightarrow> repository_identity option \<Rightarrow> string option \<Rightarrow> remote_observation" where
  "inspect_remote_branch w project_dir resolver_only repository branch =
     (if resolver_only then \<lparr> ro_branch = None, ro_head_sha = None, ro_error = None \<rparr>
      else case (repository, branch) of
        (Some rid, Some b) \<Rightarrow>
          (case remote_branch_state w project_dir (rid_remote_name rid) b of
             Inr head \<Rightarrow> \<lparr> ro_branch = map_option (\<lambda>_. b) head, ro_head_sha = head, ro_error = None \<rparr>
           | Inl e \<Rightarrow> \<lparr> ro_branch = None, ro_head_sha = None, ro_error = Some e \<rparr>)
      | _ \<Rightarrow> \<lparr> ro_branch = None, ro_head_sha = None, ro_error = None \<rparr>)"

definition head_matches :: "string option \<Rightarrow> cleanup_pull_request option \<Rightarrow> bool option" where
  "head_matches sha pr =
     (case (sha, pr) of (Some s, Some p) \<Rightarrow> Some (cp_head_sha p = Some s) | _ \<Rightarrow> None)"

definition pull_request_head_matches ::
  "string option \<Rightarrow> string option \<Rightarrow> cleanup_pull_request option \<Rightarrow> bool option \<times> bool option" where
  "pull_request_head_matches local_head_sha remote_head_sha pr =
     (head_matches local_head_sha pr, head_matches remote_head_sha pr)"

definition inspect_merge_reachability ::
  "world \<Rightarrow> path \<Rightarrow> cleanup_pull_request option \<Rightarrow> target_branch option \<Rightarrow> string option
     \<Rightarrow> (string + bool) option" where
  "inspect_merge_reachability w project_dir pr fetched_target target_error =
     (case (pr, Option.bind pr cp_merge_commit_sha, fetched_target) of
        (Some _, Some merge_commit, Some target) \<Rightarrow>
          Some (case merge_commit_reachable w project_dir merge_commit target of
                  Inr b \<Rightarrow> Inr b
                | Inl e \<Rightarrow> Inl (case target_error of None \<Rightarrow> e | Some te \<Rightarrow> te))
      | _ \<Rightarrow> None)"

definition candidate_liveness ::
  "world \<Rightarrow> bool \<Rightarrow> bool \<Rightarrow> path \<Rightarrow> path option \<Rightarrow> identity_record option \<Rightarrow> bool \<Rightarrow> cleanup_liveness" where
  "candidate_liveness w resolver_only recovery_receipt agent_dir worktree_path identity recovered =
     (if recovered then
        (case identity of None \<Rightarrow> LivenessUnknown | Some i \<Rightarrow> recovered_liveness w i)
      else if resolver_only \<and> recovery_receipt \<and> \<not> w_exists w agent_dir
           \<and> \<not> opt_is (w_exists w) worktree_path then Dead
      else liveness w agent_dir)"

definition read_active_issue :: "world \<Rightarrow> path \<Rightarrow> string option" where
  "read_active_issue w agent_dir =
     (case w_read_to_string w (agent_dir @ [''active_issue'']) of
        Inl _ \<Rightarrow> None
      | Inr value \<Rightarrow>
          (let v = str_trim value in if v \<noteq> [] \<and> list_all is_ascii_digit v then Some v else None))"

section \<open>The candidate\<close>

record inspection_context =
  ic_repository :: "repository_identity option"
  ic_repository_error :: "string option"
  ic_current_branch :: "string option"
  ic_fetched_target :: "target_branch option"
  ic_target_error :: "string option"
  ic_delete_remote_branch :: bool
  ic_allow_no_pr :: bool
  ic_discard_dirty :: bool
  ic_preserve_unique_commits :: bool

definition default_branches :: "string list" where
  "default_branches = [''main'', ''master'', ''trunk'', ''develop'']"

definition protected_branch :: "string option \<Rightarrow> string option \<Rightarrow> repository_identity option \<Rightarrow> bool" where
  "protected_branch branch current repository =
     opt_is (\<lambda>b. b = (case current of Some c \<Rightarrow> c | None \<Rightarrow> [])
                \<or> opt_is (\<lambda>rid. b = rid_base_branch rid) repository
                \<or> b \<in> set default_branches) branch"

definition decision_context_for ::
  "observed_resource \<Rightarrow> local_observation \<Rightarrow> remote_observation \<Rightarrow> pull_request_observation
     \<Rightarrow> cleanup_liveness \<Rightarrow> bool \<Rightarrow> inspection_context \<Rightarrow> decision_context" where
  "decision_context_for observed local remote pr live prot ctx =
     \<lparr> dc_identity = or_identity observed, dc_identity_error = lo_identity_error local,
       dc_liveness = live, dc_dirty = wo_dirty (or_worktree observed), dc_protected = prot,
       dc_identity_drift = wo_identity_drift (or_worktree observed),
       dc_repository = ic_repository ctx, dc_repository_error = ic_repository_error ctx,
       dc_remote_error = ro_error remote, dc_pull_request = po_request pr, dc_pr_error = po_error pr,
       dc_head_matches_pull_request = po_head_matches pr,
       dc_remote_head_matches_pull_request = po_remote_head_matches pr,
       dc_merge_commit_reachable = po_merge_commit_reachable pr, dc_target_error = ic_target_error ctx,
       dc_resolver_only = or_resolver_only observed, dc_recovery_receipt = or_recovery_receipt observed,
       dc_allow_no_pr = ic_allow_no_pr ctx, dc_discard_dirty = ic_discard_dirty ctx \<rparr>"

definition decision_for ::
  "observed_resource \<Rightarrow> local_observation \<Rightarrow> remote_observation \<Rightarrow> pull_request_observation
     \<Rightarrow> cleanup_liveness \<Rightarrow> bool \<Rightarrow> inspection_context \<Rightarrow> cleanup_decision" where
  "decision_for observed local remote pr live prot ctx =
     (let decision = candidate_decision_for_recovery
            (decision_context_for observed local remote pr live prot ctx)
            (or_recovered_provenance observed \<noteq> None);
          evidence_available = lo_local_branch local \<noteq> None
            \<or> opt_is (\<lambda>p. cp_head_ref p \<noteq> []) (po_request pr)
      in if ic_delete_remote_branch ctx \<and> is_cleanable decision \<and> \<not> evidence_available
         then Refused ''remote deletion requested but verified branch evidence is unavailable''
         else decision)"

definition planned_local_action :: "local_observation \<Rightarrow> inspection_context \<Rightarrow> branch_action" where
  "planned_local_action local ctx =
     (if ic_preserve_unique_commits ctx then
        \<lparr> ba_status = ActionSkipped,
          ba_reason = Some ''unique commits preserved by explicit operator request'' \<rparr>
      else if lo_local_branch local \<noteq> None then \<lparr> ba_status = WouldDelete, ba_reason = None \<rparr>
      else \<lparr> ba_status = AlreadyAbsent, ba_reason = Some ''managed local branch is already absent'' \<rparr>)"

definition planned_remote_action :: "remote_observation \<Rightarrow> inspection_context \<Rightarrow> branch_action" where
  "planned_remote_action remote ctx =
     (if \<not> ic_delete_remote_branch ctx then
        \<lparr> ba_status = NotRequested, ba_reason = Some ''remote branch deletion was not requested'' \<rparr>
      else case ro_error remote of
        Some e \<Rightarrow> \<lparr> ba_status = ActionRefused, ba_reason = Some e \<rparr>
      | None \<Rightarrow>
          if ro_head_sha remote \<noteq> None then \<lparr> ba_status = WouldDelete, ba_reason = None \<rparr>
          else \<lparr> ba_status = AlreadyAbsent, ba_reason = Some ''managed remote branch is already absent'' \<rparr>)"

definition planned_branch_evidence ::
  "local_observation \<Rightarrow> remote_observation \<Rightarrow> pull_request_observation \<Rightarrow> inspection_context
     \<Rightarrow> cleanup_decision \<Rightarrow> branch_evidence option" where
  "planned_branch_evidence local remote pr ctx decision =
     (case or_opt (lo_local_branch local) (map_option cp_head_ref (po_request pr)) of
        None \<Rightarrow> None
      | Some branch \<Rightarrow>
          (let refusal = (\<lambda>a. case decision_reason decision of
                 Some r \<Rightarrow> \<lparr> ba_status = ActionRefused, ba_reason = Some r \<rparr> | None \<Rightarrow> a)
           in Some \<lparr>
             be_branch = Some branch, be_local_head_sha = lo_local_head_sha local,
             be_remote_name = map_option tb_remote_name (ic_fetched_target ctx),
             be_remote_branch = ro_branch remote, be_remote_head_sha = ro_head_sha remote,
             be_target_branch = map_option tb_branch (ic_fetched_target ctx),
             be_target_head_sha = map_option tb_head_sha (ic_fetched_target ctx),
             be_merge_commit_reachable = Option.bind (po_merge_commit_reachable pr) ok_opt,
             be_local = refusal (planned_local_action local ctx),
             be_remote = (if ic_delete_remote_branch ctx then refusal (planned_remote_action remote ctx)
                          else planned_remote_action remote ctx) \<rparr>))"

definition from_observations ::
  "observed_resource \<Rightarrow> local_observation \<Rightarrow> remote_observation \<Rightarrow> pull_request_observation
     \<Rightarrow> cleanup_liveness \<Rightarrow> inspection_context \<Rightarrow> cleanup_candidate" where
  "from_observations observed local remote pr live ctx =
     (let prot = protected_branch (wo_branch_name (or_worktree observed)) (ic_current_branch ctx) (ic_repository ctx);
          decision = decision_for observed local remote pr live prot ctx
      in \<lparr> cc_id = or_id observed, cc_managed = True, cc_resolver_only = or_resolver_only observed,
           cc_recovery_receipt = or_recovery_receipt observed,
           cc_recovered_provenance = or_recovered_provenance observed,
           cc_agent_name = (case or_identity observed of Some i \<Rightarrow> ir_agent_name i | None \<Rightarrow> or_id observed),
           cc_issue = or_issue observed, cc_agent_dir = or_agent_dir observed,
           cc_worktree_path = wo_worktree_path (or_worktree observed),
           cc_local_branch = lo_local_branch local, cc_local_head_sha = lo_local_head_sha local,
           cc_remote_branch = ro_branch remote, cc_remote_head_sha = ro_head_sha remote,
           cc_pull_request = po_request pr, cc_liveness = live, cc_dirty = wo_dirty (or_worktree observed),
           cc_dirty_evidence = wo_dirty_evidence (or_worktree observed), cc_protected = prot,
           cc_identity_drift = wo_identity_drift (or_worktree observed),
           cc_identity_error = lo_identity_error local,
           cc_head_matches_pull_request = po_head_matches pr,
           cc_remote_head_matches_pull_request = po_remote_head_matches pr,
           cc_identity = or_identity observed,
           cc_branch = planned_branch_evidence local remote pr ctx decision,
           cc_delete_remote_branch = ic_delete_remote_branch ctx, cc_allow_no_pr = ic_allow_no_pr ctx,
           cc_discard_dirty = ic_discard_dirty ctx,
           cc_preserve_unique_commits = ic_preserve_unique_commits ctx, cc_decision = decision \<rparr>)"

definition observe_resource :: "world \<Rightarrow> path \<Rightarrow> discovered_resource \<Rightarrow> observed_resource" where
  "observe_resource w project_dir r =
     \<lparr> or_id = dr_id r, or_agent_dir = dr_agent_dir r, or_identity = dr_identity r,
       or_identity_error = dr_identity_error r, or_resolver_only = dr_resolver_only r,
       or_recovery_receipt = dr_recovery_receipt r, or_recovered_provenance = dr_recovered_provenance r,
       or_worktree = observe_worktree w project_dir (dr_id r) (dr_worktree_path r) (dr_identity r)
         (dr_identity_error r) (dr_recovered_provenance r),
       or_issue = read_active_issue w (dr_agent_dir r) \<rparr>"

definition inspect_pull_request ::
  "world \<Rightarrow> path \<Rightarrow> observed_resource \<Rightarrow> inspection_context \<Rightarrow> local_observation \<Rightarrow> remote_observation
     \<Rightarrow> pull_request_observation" where
  "inspect_pull_request w project_dir observed ctx local remote =
     (let (request, err) = pull_request_state w (wo_branch_name (or_worktree observed))
            (wo_worktree_path (or_worktree observed) \<noteq> None \<and> \<not> or_resolver_only observed)
            (ic_repository ctx) (ic_repository_error ctx);
          (lm, rm) = pull_request_head_matches (lo_local_head_sha local) (ro_head_sha remote) request
      in \<lparr> po_request = request, po_error = err, po_head_matches = lm, po_remote_head_matches = rm,
           po_merge_commit_reachable =
             inspect_merge_reachability w project_dir request (ic_fetched_target ctx) (ic_target_error ctx) \<rparr>)"

definition inspect_candidate ::
  "world \<Rightarrow> path \<Rightarrow> discovered_resource \<Rightarrow> inspection_context \<Rightarrow> cleanup_candidate" where
  "inspect_candidate w project_dir resource ctx =
     (let observed = observe_resource w project_dir resource;
          local = inspect_local_branch w project_dir (or_resolver_only observed)
            (wo_branch_name (or_worktree observed)) (or_identity_error observed);
          remote = inspect_remote_branch w project_dir (or_resolver_only observed) (ic_repository ctx)
            (wo_branch_name (or_worktree observed));
          pr = inspect_pull_request w project_dir observed ctx local remote;
          live = candidate_liveness w (or_resolver_only observed) (or_recovery_receipt observed)
            (or_agent_dir observed) (wo_worktree_path (or_worktree observed)) (or_identity observed)
            (or_recovered_provenance observed \<noteq> None)
      in from_observations observed local remote pr live ctx)"

end
