(* ===== verification/Cleanup_Receipts.thy ===== *)
theory Cleanup_Receipts
  imports Cleanup_Decision "HOL-Library.List_Lexorder" "HOL-Library.Char_ord" "HOL-Library.Product_Lexorder"
begin

text \<open>
  Receipts and plans (\<^verbatim>\<open>services/cleanup/receipt_support.rs\<close>,
  \<^verbatim>\<open>receipts.rs\<close>, and \<^verbatim>\<open>plan\<close> of \<^verbatim>\<open>service.rs\<close>): the durable record
  of a cleanup, what it proves later, how an interrupted one is resumed, and the plan itself.
  The receipts on disk are the list \<open>receipts\<close> that \<^verbatim>\<open>read_receipts\<close> returns; the
  resources that \<^verbatim>\<open>discover_resources\<close> finds are an argument of the plan.
\<close>

section \<open>Receipt entries\<close>

definition make_receipt_entry ::
  "cleanup_candidate \<Rightarrow> receipt_status \<Rightarrow> string list \<Rightarrow> string option \<Rightarrow> receipt_entry" where
  "make_receipt_entry c status actions reason =
     \<lparr> re_candidate_id = cc_id c, re_agent_name = cc_agent_name c,
       re_agent_slug = (case cc_identity c of Some i \<Rightarrow> ir_slug i | None \<Rightarrow> []),
       re_identity_snapshot = cc_identity c, re_recovered_provenance = cc_recovered_provenance c,
       re_pull_request = cc_pull_request c, re_branch = cc_branch c, re_status = status,
       re_actions = actions, re_reason = reason, re_dirty_evidence = cc_dirty_evidence c,
       re_codex_trust = None \<rparr>"

definition codex_trust_candidate_dirs :: "cleanup_candidate \<Rightarrow> path list" where
  "codex_trust_candidate_dirs c =
     cc_agent_dir c # (case cc_worktree_path c of
        Some worktree \<Rightarrow> if worktree \<noteq> cc_agent_dir c then [worktree] else []
      | None \<Rightarrow> [])"

definition codex_configured_dirs :: "world \<Rightarrow> cleanup_candidate \<Rightarrow> path list" where
  "codex_configured_dirs w c = filter (w_has_generated_codex_config w) (codex_trust_candidate_dirs c)"

definition append_branch_preview :: "branch_evidence option \<Rightarrow> string list" where
  "append_branch_preview branch =
     (case branch of
        None \<Rightarrow> []
      | Some b \<Rightarrow>
          (if ba_status (be_local b) = WouldDelete then [''would_delete_local_branch''] else [])
          @ (if ba_status (be_remote b) = WouldDelete then [''would_delete_remote_branch''] else []))"

definition append_codex_trust_preview :: "world \<Rightarrow> cleanup_candidate \<Rightarrow> string list" where
  "append_codex_trust_preview w c =
     (if \<not> cc_resolver_only c \<and> list_ex (w_has_generated_codex_config w) (codex_trust_candidate_dirs c)
      then [''release_codex_trust''] else [])"

definition dry_run_entry :: "world \<Rightarrow> cleanup_candidate \<Rightarrow> receipt_entry" where
  "dry_run_entry w c =
     make_receipt_entry c
       (if is_cleanable (cc_decision c) then WouldClean else ReceiptRefused)
       (if is_cleanable (cc_decision c) then
          append_branch_preview (cc_branch c)
          @ (if cc_preserve_unique_commits c then [''preserve_unique_commits''] else [])
          @ (if cc_allow_no_pr c \<and> cc_pull_request c = None then [''allow_no_pr_override''] else [])
          @ (if cc_discard_dirty c \<and> cc_dirty c = Some True then [''record_dirty_evidence''] else [])
          @ (if cc_delete_remote_branch c then [''delete_remote_branch_override''] else [])
          @ (if cc_worktree_path c \<noteq> None \<and> \<not> cc_resolver_only c then [''remove_worktree''] else [])
          @ (if \<not> cc_resolver_only c then [''remove_agent_directory''] else [])
          @ append_codex_trust_preview w c
          @ [''deregister_identity'']
        else [])
       (decision_reason (cc_decision c))"

definition dry_run_receipt :: "world \<Rightarrow> string \<Rightarrow> nat \<Rightarrow> cleanup_plan \<Rightarrow> cleanup_receipt" where
  "dry_run_receipt w operation_id t plan =
     \<lparr> rc_schema_version = cleanup_receipt_schema_version, rc_operation_id = operation_id,
       rc_plan_id = pl_plan_id plan, rc_started_at = pl_generated_at plan, rc_finished_at = t,
       rc_dry_run = True, rc_operator_reason = pl_operator_reason plan,
       rc_preserve_unique_commits = pl_preserve_unique_commits plan,
       rc_entries = map (dry_run_entry w) (pl_candidates plan) \<rparr>"

definition initial_entry :: "cleanup_candidate \<Rightarrow> receipt_entry" where
  "initial_entry c =
     make_receipt_entry c (if is_cleanable (cc_decision c) then InProgress else ReceiptRefused) []
       (decision_reason (cc_decision c))"

definition in_progress_receipt :: "string \<Rightarrow> cleanup_plan \<Rightarrow> nat \<Rightarrow> cleanup_receipt" where
  "in_progress_receipt operation_id plan started_at =
     \<lparr> rc_schema_version = cleanup_receipt_schema_version, rc_operation_id = operation_id,
       rc_plan_id = pl_plan_id plan, rc_started_at = started_at, rc_finished_at = 0,
       rc_dry_run = False, rc_operator_reason = pl_operator_reason plan,
       rc_preserve_unique_commits = pl_preserve_unique_commits plan,
       rc_entries = map initial_entry (pl_candidates plan) \<rparr>"

section \<open>What a receipt proves\<close>

definition receipt_snapshot_is_coherent :: "receipt_entry \<Rightarrow> bool" where
  "receipt_snapshot_is_coherent e =
     (case re_identity_snapshot e of
        None \<Rightarrow> True
      | Some s \<Rightarrow> re_agent_name e = ir_agent_name s \<and> re_agent_slug e = ir_slug s)"

definition receipt_entry_matches_candidate :: "receipt_entry \<Rightarrow> cleanup_candidate \<Rightarrow> bool" where
  "receipt_entry_matches_candidate e c \<longleftrightarrow>
     (opt_is (\<lambda>s. cc_identity c = Some s) (re_identity_snapshot e)
      \<or> re_identity_snapshot e = None
        \<and> (re_candidate_id e = cc_id c
           \<or> re_agent_name e \<noteq> [] \<and> re_agent_name e = cc_agent_name c
           \<or> re_agent_slug e \<noteq> [] \<and> opt_is (\<lambda>i. re_agent_slug e = ir_slug i) (cc_identity c)))
     \<and> (re_agent_name e = [] \<or> re_agent_name e = cc_agent_name c)
     \<and> (re_agent_slug e = [] \<or> opt_is (\<lambda>i. re_agent_slug e = ir_slug i) (cc_identity c))
     \<and> receipt_snapshot_is_coherent e"

definition receipt_entry_matches :: "receipt_entry \<Rightarrow> cleanup_plan \<Rightarrow> string option \<Rightarrow> bool" where
  "receipt_entry_matches e plan target \<longleftrightarrow>
     (case target of
        None \<Rightarrow> True
      | Some t \<Rightarrow> re_agent_name e = t \<or> re_agent_slug e = t
                  \<or> list_ex (receipt_entry_matches_candidate e) (pl_candidates plan))
     \<and> receipt_snapshot_is_coherent e"

definition receipt_entry_proves_remote_deletion ::
  "receipt_entry \<Rightarrow> cleanup_candidate \<Rightarrow> string \<Rightarrow> string \<Rightarrow> bool" where
  "receipt_entry_proves_remote_deletion e c remote_name remote_branch =
     opt_is (\<lambda>b. ba_status (be_remote b) = Deleted
        \<and> ''delete_remote_branch'' \<in> set (re_actions e)
        \<and> receipt_entry_matches_candidate e c
        \<and> be_remote_name b = Some remote_name
        \<and> or_opt (be_remote_branch b) (be_branch b) = Some remote_branch
        \<and> nonempty (be_remote_head_sha b) \<noteq> None
        \<and> (case Option.bind (cc_pull_request c) cp_head_sha of
             None \<Rightarrow> True | Some head \<Rightarrow> be_remote_head_sha b = Some head)) (re_branch e)"

definition has_prior_remote_deletion_proof :: "cleanup_receipt list \<Rightarrow> cleanup_candidate \<Rightarrow> bool" where
  "has_prior_remote_deletion_proof receipts c =
     opt_is (\<lambda>b.
       (case (nonempty (be_remote_name b), nonempty (or_opt (be_branch b) (cc_local_branch c))) of
          (Some remote_name, Some remote_branch) \<Rightarrow>
            list_ex (\<lambda>r. list_ex (\<lambda>e. receipt_entry_proves_remote_deletion e c remote_name remote_branch)
                              (rc_entries r))
              (filter (\<lambda>r. \<not> rc_dry_run r) receipts)
        | _ \<Rightarrow> False)) (cc_branch c)"

definition unfinished :: "receipt_entry \<Rightarrow> bool" where
  "unfinished e \<longleftrightarrow> re_status e = InProgress \<or> re_status e = Failed"

definition target_was_cleaned :: "cleanup_receipt list \<Rightarrow> string \<Rightarrow> bool" where
  "target_was_cleaned receipts target =
     list_ex (\<lambda>r. list_ex (\<lambda>e. re_status e = Cleaned \<and> (re_agent_name e = target \<or> re_agent_slug e = target))
       (rc_entries r)) receipts"

definition in_progress_identity_snapshots :: "cleanup_receipt list \<Rightarrow> identity_record list" where
  "in_progress_identity_snapshots receipts =
     List.map_filter re_identity_snapshot
       (filter receipt_snapshot_is_coherent (filter unfinished
          (concat (map rc_entries (filter (\<lambda>r. \<not> rc_dry_run r) receipts)))))"

definition recoverable_receipt_entries :: "cleanup_receipt list \<Rightarrow> receipt_entry list" where
  "recoverable_receipt_entries receipts =
     filter (\<lambda>e. re_recovered_provenance e \<noteq> None)
       (filter receipt_snapshot_is_coherent (filter unfinished
          (concat (map rc_entries (filter (\<lambda>r. \<not> rc_dry_run r) receipts)))))"

section \<open>Resuming an interrupted cleanup\<close>

definition load_in_progress_receipt ::
  "cleanup_receipt list \<Rightarrow> cleanup_plan \<Rightarrow> string option \<Rightarrow> cleanup_receipt option" where
  "load_in_progress_receipt receipts plan target =
     (let open_receipts = sort_key (\<lambda>r. (rc_started_at r, rc_operation_id r))
            (filter (\<lambda>r. \<not> rc_dry_run r
               \<and> list_ex (\<lambda>e. unfinished e \<and> receipt_entry_matches e plan target) (rc_entries r)) receipts)
      in if open_receipts = [] then None else Some (last open_receipts))"

definition resumable :: "receipt_entry \<Rightarrow> bool" where
  "resumable e \<longleftrightarrow> unfinished e \<or> re_status e = Cleaned"

definition previous_index :: "receipt_entry list \<Rightarrow> cleanup_candidate \<Rightarrow> nat option" where
  "previous_index previous c =
     find (\<lambda>i. receipt_entry_matches_candidate (previous ! i) c \<and> resumable (previous ! i)) [0..<length previous]"

definition push_absent :: "string \<Rightarrow> string list \<Rightarrow> string list" where
  "push_absent a actions = (if a \<in> set actions then actions else actions @ [a])"

definition resumed_entry :: "receipt_entry list \<Rightarrow> cleanup_candidate \<Rightarrow> receipt_entry" where
  "resumed_entry previous c =
     (case previous_index previous c of
        None \<Rightarrow> initial_entry c
      | Some i \<Rightarrow>
          (let e = previous ! i in
           if unfinished e then e \<lparr> re_actions := push_absent ''resumed_cleanup'' (re_actions e) \<rparr> else e))"

definition resume_receipt :: "cleanup_plan \<Rightarrow> cleanup_receipt \<Rightarrow> cleanup_receipt" where
  "resume_receipt plan previous =
     (let entries = rc_entries previous;
          matched = List.map_filter (previous_index entries) (pl_candidates plan)
      in \<lparr> rc_schema_version = cleanup_receipt_schema_version,
           rc_operation_id = rc_operation_id previous, rc_plan_id = rc_plan_id previous,
           rc_started_at = rc_started_at previous, rc_finished_at = 0, rc_dry_run = False,
           rc_operator_reason = or_opt (pl_operator_reason plan) (rc_operator_reason previous),
           rc_preserve_unique_commits = pl_preserve_unique_commits plan,
           rc_entries = map (resumed_entry entries) (pl_candidates plan)
             @ map ((!) entries)
                 (filter (\<lambda>i. i \<notin> set matched \<and> resumable (entries ! i)) [0..<length entries]) \<rparr>)"

definition has_deregister_intent :: "receipt_entry \<Rightarrow> bool" where
  "has_deregister_intent e \<longleftrightarrow>
     ''deregister_identity_pending'' \<in> set (re_actions e) \<or> ''deregister_identity'' \<in> set (re_actions e)"

definition receipt_entry_agent_name :: "receipt_entry \<Rightarrow> string option" where
  "receipt_entry_agent_name e =
     nonempty (Some (case re_identity_snapshot e of
        Some i \<Rightarrow> ir_agent_name i
      | None \<Rightarrow> if re_agent_name e = [] then re_candidate_id e else re_agent_name e))"

definition reconcile_entry :: "world \<Rightarrow> receipt_entry \<Rightarrow> receipt_entry" where
  "reconcile_entry w e =
     (if \<not> unfinished e \<or> \<not> has_deregister_intent e
         \<or> ''codex_trust_release_failed'' \<in> set (re_actions e) then e
      else case receipt_entry_agent_name e of
        None \<Rightarrow> e
      | Some name \<Rightarrow>
          if w_resolver_get w name \<noteq> None then e
          else e \<lparr> re_actions := push_absent ''deregister_identity''
                     (filter (\<lambda>a. a \<noteq> ''deregister_identity_pending'') (re_actions e)),
                   re_status := Cleaned, re_reason := None \<rparr>)"

definition reconcile_deregistered_entries :: "world \<Rightarrow> cleanup_receipt \<Rightarrow> cleanup_receipt" where
  "reconcile_deregistered_entries w r = r \<lparr> rc_entries := map (reconcile_entry w) (rc_entries r) \<rparr>"

definition resume_or_create_receipt ::
  "world \<Rightarrow> cleanup_receipt list \<Rightarrow> string \<Rightarrow> cleanup_plan \<Rightarrow> string option \<Rightarrow> nat \<Rightarrow> cleanup_receipt" where
  "resume_or_create_receipt w receipts operation_id plan target started_at =
     (case load_in_progress_receipt receipts plan target of
        None \<Rightarrow> in_progress_receipt operation_id plan started_at
      | Some previous \<Rightarrow> reconcile_deregistered_entries w (resume_receipt plan previous))"

section \<open>The plan\<close>

definition refuse_unproven_absent_remote ::
  "cleanup_receipt list \<Rightarrow> bool \<Rightarrow> cleanup_candidate \<Rightarrow> cleanup_candidate" where
  "refuse_unproven_absent_remote receipts requested c =
     (let remote_is_absent = opt_is (\<lambda>b. ba_status (be_remote b) = AlreadyAbsent) (cc_branch c);
          reason = ''remote deletion requested but remote branch is absent and no durable receipt proves a prior deletion at the verified SHA''
      in if \<not> requested \<or> \<not> is_cleanable (cc_decision c) \<or> \<not> remote_is_absent
            \<or> has_prior_remote_deletion_proof receipts c
         then c
         else c \<lparr> cc_decision := Refused reason,
                  cc_branch := map_option (\<lambda>b. b \<lparr> be_remote :=
                     \<lparr> ba_status = ActionRefused, ba_reason = Some reason \<rparr> \<rparr>) (cc_branch c) \<rparr>)"

definition requires_remote :: "discovered_resource list \<Rightarrow> bool" where
  "requires_remote resources =
     list_ex (\<lambda>r. \<not> dr_resolver_only r
        \<and> (dr_worktree_path r \<noteq> None \<or> opt_is (\<lambda>i. ir_topology i = WorktreePerAgent) (dr_identity r))) resources"

definition context_for ::
  "cleanup_request \<Rightarrow> repository_identity option \<times> string option \<Rightarrow> target_branch option \<times> string option
     \<Rightarrow> string option \<Rightarrow> inspection_context" where
  "context_for rq repository target current =
     \<lparr> ic_repository = fst repository, ic_repository_error = snd repository, ic_current_branch = current,
       ic_fetched_target = fst target, ic_target_error = snd target,
       ic_delete_remote_branch = cq_delete_remote_branch rq, ic_allow_no_pr = cq_allow_no_pr rq,
       ic_discard_dirty = cq_discard_dirty rq,
       ic_preserve_unique_commits = cq_preserve_unique_commits rq \<rparr>"

definition split_result :: "string + 'a \<Rightarrow> 'a option \<times> string option" where
  "split_result r = (case r of Inr v \<Rightarrow> (Some v, None) | Inl e \<Rightarrow> (None, Some e))"

text \<open>Each resource is inspected in the world of its moment; the world before all of them
  answers for the repository, its target branch and the current branch.\<close>

definition plan_candidates ::
  "(nat \<Rightarrow> world) \<Rightarrow> path \<Rightarrow> cleanup_receipt list \<Rightarrow> cleanup_request \<Rightarrow> discovered_resource list
     \<Rightarrow> inspection_context \<Rightarrow> cleanup_candidate list" where
  "plan_candidates ws project_dir receipts rq resources ctx =
     refuse_duplicate_branches
       (map (refuse_unproven_absent_remote receipts (cq_delete_remote_branch rq))
         (map (\<lambda>(i, r). inspect_candidate (ws (Suc i)) project_dir r ctx) (zip [0..<length resources] resources)))"

definition plan_cleanup ::
  "(nat \<Rightarrow> world) \<Rightarrow> path \<Rightarrow> cleanup_receipt list \<Rightarrow> string \<Rightarrow> nat \<Rightarrow> cleanup_request
     \<Rightarrow> discovered_resource list \<Rightarrow> string + cleanup_plan" where
  "plan_cleanup ws project_dir receipts plan_id t rq resources =
     bindR (validate_request rq) (\<lambda>_.
       let w = ws 0;
           repository = (if requires_remote resources then split_result (w_repository_identity w) else (None, None));
           target = (case fst repository of
               Some rid \<Rightarrow> split_result (fetch_target_branch w project_dir (rid_remote_name rid) (rid_base_branch rid))
             | None \<Rightarrow> (None, None));
           ctx = context_for rq repository target (current_branch w project_dir)
       in Inr \<lparr> pl_schema_version = cleanup_plan_schema_version, pl_plan_id = plan_id, pl_generated_at = t,
                pl_project_dir = project_dir, pl_repository = fst repository,
                pl_repository_error = snd repository, pl_operator_reason = cq_reason rq,
                pl_preserve_unique_commits = cq_preserve_unique_commits rq,
                pl_candidates = plan_candidates ws project_dir receipts rq resources ctx,
                pl_fetched_target = fst target \<rparr>)"

end
