(* ===== verification/Cleanup_Safety.thy ===== *)
theory Cleanup_Safety
  imports Cleanup_Receipts
begin

text \<open>
  When a candidate is cleanable. The decision procedure with its early returns is compared with a
  declarative condition, \<open>may_clean\<close>, and the condition is carried through the construction of
  the candidates of a plan.
\<close>

section \<open>The condition\<close>

text \<open>The pull request of a worktree agent has landed: it is merged and its merge commit is in the
  fetched target branch, or its provenance was recovered and it was closed without a merge; and
  neither branch head has moved away from it.\<close>

definition pr_landed ::
  "decision_context \<Rightarrow> bool \<Rightarrow> identity_record \<Rightarrow> repository_identity \<Rightarrow> cleanup_pull_request \<Rightarrow> bool" where
  "pr_landed c recovered identity rid pr \<longleftrightarrow>
     (cp_merged pr \<and> dc_merge_commit_reachable c = Some (Inr True) \<or> recovered \<and> closed_unmerged pr)
     \<and> cp_base_ref pr = rid_base_branch rid \<and> cp_head_ref pr = ir_birth_branch identity
     \<and> nonempty (cp_head_sha pr) \<noteq> None \<and> dc_target_error c = None
     \<and> dc_head_matches_pull_request c \<noteq> Some False \<and> dc_remote_head_matches_pull_request c \<noteq> Some False"

definition pr_settled :: "decision_context \<Rightarrow> bool \<Rightarrow> identity_record \<Rightarrow> bool" where
  "pr_settled c recovered identity \<longleftrightarrow>
     dc_remote_error c = None \<and> dc_pr_error c = None
     \<and> opt_is (\<lambda>rid. case dc_pull_request c of
          None \<Rightarrow> dc_allow_no_pr c
        | Some pr \<Rightarrow> pr_landed c recovered identity rid pr) (dc_repository c)"

definition owner_settled :: "decision_context \<Rightarrow> bool \<Rightarrow> bool" where
  "owner_settled c recovered \<longleftrightarrow>
     opt_is (\<lambda>identity. ir_topology identity = WorktreePerAgent \<longrightarrow> pr_settled c recovered identity)
       (dc_identity c)"

definition identity_sound :: "decision_context \<Rightarrow> bool" where
  "identity_sound c \<longleftrightarrow> dc_identity_error c = None
     \<and> (\<forall>identity. dc_identity c = Some identity \<longrightarrow>
          \<not> ir_ledger_owned identity \<and> ir_topology identity \<noteq> TopologyUnspecified \<and> \<not> dc_identity_drift c)"

definition may_clean :: "decision_context \<Rightarrow> bool \<Rightarrow> bool" where
  "may_clean c recovered \<longleftrightarrow>
     identity_sound c \<and> dc_liveness c = Dead
     \<and> (dc_dirty c = Some False \<or> dc_dirty c = Some True \<and> dc_discard_dirty c)
     \<and> \<not> dc_protected c
     \<and> (if dc_resolver_only c then dc_recovery_receipt c else owner_settled c recovered)"

lemma reject_identity_iff: "reject_identity c = None \<longleftrightarrow> identity_sound c"
  by (auto simp: reject_identity_def identity_sound_def split: option.split)

lemma reject_identity_refuses: "reject_identity c \<noteq> Some Cleanable"
  by (auto simp: reject_identity_def split: option.split)

lemma reject_liveness_iff: "reject_liveness c = None \<longleftrightarrow> dc_liveness c = Dead"
  by (cases "dc_liveness c") (simp_all add: reject_liveness_def)

lemma reject_liveness_refuses: "reject_liveness c \<noteq> Some Cleanable"
  by (cases "dc_liveness c") (simp_all add: reject_liveness_def)

lemma reject_state_iff:
  "reject_candidate_state c = None \<longleftrightarrow>
     (dc_dirty c = Some False \<or> dc_dirty c = Some True \<and> dc_discard_dirty c) \<and> \<not> dc_protected c
     \<and> (dc_resolver_only c \<longrightarrow> dc_recovery_receipt c)"
  by (cases "dc_dirty c") (auto simp: reject_candidate_state_def)

lemma reject_state_refuses: "reject_candidate_state c \<noteq> Some Cleanable"
  by (auto simp: reject_candidate_state_def)

lemma head_mismatch_iff:
  "unwrap_or_cleanable (reject_head_mismatch c) = Cleanable \<longleftrightarrow>
     dc_head_matches_pull_request c \<noteq> Some False \<and> dc_remote_head_matches_pull_request c \<noteq> Some False"
  by (auto simp: reject_head_mismatch_def unwrap_or_cleanable_def)

lemma pull_request_safety_iff:
  "pull_request_safety_decision c identity rid pr r = Cleanable \<longleftrightarrow> pr_landed c r identity rid pr"
proof (cases "closed_unmerged pr")
  case True
  then have "\<not> cp_merged pr" by (simp add: closed_unmerged_def)
  with True show ?thesis
    by (auto simp: pull_request_safety_decision_def pr_landed_def head_mismatch_iff split: option.split)
next
  case False
  then show ?thesis
    by (auto simp: pull_request_safety_decision_def pr_landed_def head_mismatch_iff
        split: option.split sum.split bool.split)
qed

lemma pull_request_decision_iff: "pull_request_decision c r = Cleanable \<longleftrightarrow> owner_settled c r"
  by (auto simp: pull_request_decision_def owner_settled_def pr_settled_def pull_request_safety_iff
      split: option.split)

lemma decision_iff: "candidate_decision_for_recovery c r = Cleanable \<longleftrightarrow> may_clean c r"
proof -
  have "candidate_decision_for_recovery c r = Cleanable \<longleftrightarrow>
      reject_identity c = None \<and> reject_liveness c = None \<and> reject_candidate_state c = None
      \<and> (dc_resolver_only c \<or> pull_request_decision c r = Cleanable)"
    using reject_identity_refuses [of c] reject_liveness_refuses [of c] reject_state_refuses [of c]
    by (auto simp: candidate_decision_for_recovery_def split: option.split)
  then show ?thesis
    by (auto simp: reject_identity_iff reject_liveness_iff reject_state_iff pull_request_decision_iff may_clean_def)
qed

section \<open>Candidates of a plan\<close>

text \<open>What a cleanable candidate shows by itself, in its own fields and those of its plan.\<close>

definition landed_evidence :: "repository_identity option \<Rightarrow> cleanup_candidate \<Rightarrow> identity_record \<Rightarrow> bool" where
  "landed_evidence repository c identity \<longleftrightarrow>
     (case cc_pull_request c of
        None \<Rightarrow> cc_allow_no_pr c
      | Some pr \<Rightarrow>
          cp_head_ref pr = ir_birth_branch identity
          \<and> opt_is (\<lambda>rid. cp_base_ref pr = rid_base_branch rid) repository
          \<and> (cc_local_head_sha c = None \<or> cc_local_head_sha c = cp_head_sha pr)
          \<and> (cc_remote_head_sha c = None \<or> cc_remote_head_sha c = cp_head_sha pr)
          \<and> (cp_merged pr \<and> opt_is (\<lambda>b. be_merge_commit_reachable b = Some True) (cc_branch c)
             \<or> cc_recovered_provenance c \<noteq> None \<and> closed_unmerged pr))"

definition owner_evidence :: "repository_identity option \<Rightarrow> cleanup_candidate \<Rightarrow> bool" where
  "owner_evidence repository c \<longleftrightarrow>
     (if cc_resolver_only c then cc_recovery_receipt c
      else opt_is (\<lambda>identity. \<not> ir_ledger_owned identity \<and> ir_topology identity \<noteq> TopologyUnspecified
             \<and> \<not> cc_identity_drift c
             \<and> (ir_topology identity = WorktreePerAgent \<longrightarrow> landed_evidence repository c identity))
           (cc_identity c))"

definition branch_unprotected :: "inspection_context \<Rightarrow> string \<Rightarrow> bool" where
  "branch_unprotected ctx b \<longleftrightarrow>
     b \<notin> set default_branches \<and> ic_current_branch ctx \<noteq> Some b
     \<and> \<not> opt_is (\<lambda>rid. b = rid_base_branch rid) (ic_repository ctx)"

lemma head_matches_agree:
  "head_matches sha (Some pr) \<noteq> Some False \<Longrightarrow> sha = None \<or> sha = cp_head_sha pr"
  by (auto simp: head_matches_def split: option.splits)

lemma inspect_local_branch_name:
  "lo_local_branch (inspect_local_branch w pd ro branch err) = Some b \<Longrightarrow> branch = Some b"
  by (auto simp: inspect_local_branch_def Let_def split: if_splits option.splits sum.splits)

lemma from_observations_cleanable:
  fixes observed local remote pr live ctx
  defines "c \<equiv> from_observations observed local remote pr live ctx"
    and "prot \<equiv> protected_branch (wo_branch_name (or_worktree observed)) (ic_current_branch ctx) (ic_repository ctx)"
  assumes "is_cleanable (cc_decision c)"
  shows "may_clean (decision_context_for observed local remote pr live prot ctx) (or_recovered_provenance observed \<noteq> None)"
    and "cc_branch c = planned_branch_evidence local remote pr ctx Cleanable"
    and "ic_delete_remote_branch ctx \<Longrightarrow> cc_branch c \<noteq> None"
proof -
  have d: "decision_for observed local remote pr live prot ctx = Cleanable"
    using assms(3) by (simp add: c_def prot_def from_observations_def Let_def is_cleanable_def)
  then have "candidate_decision_for_recovery (decision_context_for observed local remote pr live prot ctx)
      (or_recovered_provenance observed \<noteq> None) = Cleanable"
    by (auto simp: decision_for_def Let_def split: if_splits)
  then show "may_clean (decision_context_for observed local remote pr live prot ctx) (or_recovered_provenance observed \<noteq> None)"
    by (simp add: decision_iff)
  show b: "cc_branch c = planned_branch_evidence local remote pr ctx Cleanable"
    using d by (simp add: c_def from_observations_def Let_def prot_def)
  assume "ic_delete_remote_branch ctx"
  with d show "cc_branch c \<noteq> None"
    unfolding b
    by (auto simp: decision_for_def Let_def is_cleanable_def planned_branch_evidence_def or_opt_def opt_is_def
        split: if_splits option.splits)
qed

lemma planned_merge_evidence:
  assumes "po_request pr = Some p" and "po_merge_commit_reachable pr = Some (Inr True)"
  shows "opt_is (\<lambda>b. be_merge_commit_reachable b = Some True) (planned_branch_evidence local remote pr ctx d)"
  using assms by (auto simp: planned_branch_evidence_def Let_def or_opt_def split: option.splits)

lemma inspect_pull_request_heads:
  fixes w pd observed ctx local remote
  defines "pr \<equiv> inspect_pull_request w pd observed ctx local remote"
  shows "po_head_matches pr = head_matches (lo_local_head_sha local) (po_request pr)"
    and "po_remote_head_matches pr = head_matches (ro_head_sha remote) (po_request pr)"
  by (simp_all add: pr_def inspect_pull_request_def pull_request_head_matches_def Let_def split: prod.split)

lemma may_cleanD:
  assumes "may_clean d r"
  shows "dc_resolver_only d \<Longrightarrow> dc_recovery_receipt d"
    and "\<not> dc_resolver_only d \<Longrightarrow> owner_settled d r"
    and "dc_identity d = Some i \<Longrightarrow>
      \<not> ir_ledger_owned i \<and> ir_topology i \<noteq> TopologyUnspecified \<and> \<not> dc_identity_drift d"
    and "dc_liveness d = Dead" and "dc_identity_error d = None"
    and "dc_dirty d = Some False \<or> dc_dirty d = Some True \<and> dc_discard_dirty d"
    and "\<not> dc_protected d"
  using assms by (simp_all add: may_clean_def identity_sound_def)

lemma dc_fields:
  fixes observed local remote pr live prot ctx
  defines "d \<equiv> decision_context_for observed local remote pr live prot ctx"
  shows "dc_identity d = or_identity observed" "dc_identity_error d = lo_identity_error local"
    "dc_liveness d = live" "dc_dirty d = wo_dirty (or_worktree observed)" "dc_protected d = prot"
    "dc_identity_drift d = wo_identity_drift (or_worktree observed)" "dc_repository d = ic_repository ctx"
    "dc_pull_request d = po_request pr" "dc_head_matches_pull_request d = po_head_matches pr"
    "dc_remote_head_matches_pull_request d = po_remote_head_matches pr"
    "dc_merge_commit_reachable d = po_merge_commit_reachable pr"
    "dc_resolver_only d = or_resolver_only observed" "dc_recovery_receipt d = or_recovery_receipt observed"
    "dc_allow_no_pr d = ic_allow_no_pr ctx" "dc_discard_dirty d = ic_discard_dirty ctx"
  by (simp_all add: d_def decision_context_for_def)

definition sound_candidate :: "inspection_context \<Rightarrow> cleanup_candidate \<Rightarrow> bool" where
  "sound_candidate ctx c \<longleftrightarrow>
     cc_liveness c = Dead \<and> cc_identity_error c = None
     \<and> (cc_dirty c = Some False \<or> cc_dirty c = Some True \<and> ic_discard_dirty ctx)
     \<and> (\<forall>b. cc_local_branch c = Some b \<longrightarrow> branch_unprotected ctx b)
     \<and> owner_evidence (ic_repository ctx) c
     \<and> cc_allow_no_pr c = ic_allow_no_pr ctx
     \<and> (ic_delete_remote_branch ctx \<longrightarrow> cc_branch c \<noteq> None)"

lemma may_clean_owner_evidence:
  assumes m: "may_clean (decision_context_for observed local remote pr live prot ctx)
      (or_recovered_provenance observed \<noteq> None)"
    and heads: "po_head_matches pr = head_matches (lo_local_head_sha local) (po_request pr)"
      "po_remote_head_matches pr = head_matches (ro_head_sha remote) (po_request pr)"
    and d: "is_cleanable (cc_decision (from_observations observed local remote pr live ctx))"
  shows "owner_evidence (ic_repository ctx) (from_observations observed local remote pr live ctx)"
proof -
  let ?c = "from_observations observed local remote pr live ctx"
  have fields: "cc_pull_request ?c = po_request pr" "cc_allow_no_pr ?c = ic_allow_no_pr ctx"
    "cc_local_head_sha ?c = lo_local_head_sha local" "cc_remote_head_sha ?c = ro_head_sha remote"
    "cc_recovered_provenance ?c = or_recovered_provenance observed" "cc_resolver_only ?c = or_resolver_only observed"
    "cc_recovery_receipt ?c = or_recovery_receipt observed" "cc_identity ?c = or_identity observed"
    "cc_identity_drift ?c = wo_identity_drift (or_worktree observed)"
    by (simp_all add: from_observations_def Let_def)
  note branch = from_observations_cleanable(2) [OF d]
  have landed: "landed_evidence (ic_repository ctx) ?c identity"
    if settled: "pr_settled (decision_context_for observed local remote pr live prot ctx)
        (or_recovered_provenance observed \<noteq> None) identity" for identity
  proof (cases "po_request pr")
    case None
    with settled show ?thesis
      by (auto simp: landed_evidence_def fields pr_settled_def dc_fields opt_is_def split: option.splits)
  next
    case (Some p)
    with settled obtain rid where rid: "ic_repository ctx = Some rid"
      and l: "pr_landed (decision_context_for observed local remote pr live prot ctx)
        (or_recovered_provenance observed \<noteq> None) identity rid p"
      by (auto simp: pr_settled_def dc_fields opt_is_def split: option.splits)
    have "head_matches (lo_local_head_sha local) (Some p) \<noteq> Some False"
      "head_matches (ro_head_sha remote) (Some p) \<noteq> Some False"
      using l heads Some by (simp_all add: pr_landed_def dc_fields)
    note this [THEN head_matches_agree]
    with l Some rid show ?thesis
      using planned_merge_evidence [OF Some]
      by (auto simp: landed_evidence_def fields branch pr_landed_def dc_fields)
  qed
  show ?thesis
  proof (cases "or_resolver_only observed")
    case True
    with may_cleanD(1) [OF m] show ?thesis unfolding owner_evidence_def fields dc_fields by simp
  next
    case False
    with may_cleanD(2) [OF m] obtain identity where i: "or_identity observed = Some identity"
      and l: "ir_topology identity = WorktreePerAgent \<Longrightarrow> landed_evidence (ic_repository ctx) ?c identity"
      using landed by (auto simp: owner_settled_def dc_fields opt_is_def split: option.splits)
    have "\<not> ir_ledger_owned identity" "ir_topology identity \<noteq> TopologyUnspecified"
      "\<not> wo_identity_drift (or_worktree observed)"
      using may_cleanD(3) [OF m, unfolded dc_fields, OF i] by simp_all
    with False i l show ?thesis unfolding owner_evidence_def fields by simp
  qed
qed

lemma inspect_candidate_sound:
  assumes "is_cleanable (cc_decision (inspect_candidate w pd r ctx))"
  shows "sound_candidate ctx (inspect_candidate w pd r ctx)"
proof -
  define observed where "observed = observe_resource w pd r"
  define local where "local = inspect_local_branch w pd (or_resolver_only observed)
            (wo_branch_name (or_worktree observed)) (or_identity_error observed)"
  define remote where "remote = inspect_remote_branch w pd (or_resolver_only observed) (ic_repository ctx)
            (wo_branch_name (or_worktree observed))"
  define pr where "pr = inspect_pull_request w pd observed ctx local remote"
  define live where "live = candidate_liveness w (or_resolver_only observed) (or_recovery_receipt observed)
            (or_agent_dir observed) (wo_worktree_path (or_worktree observed)) (or_identity observed)
            (or_recovered_provenance observed \<noteq> None)"
  define prot where "prot = protected_branch (wo_branch_name (or_worktree observed)) (ic_current_branch ctx) (ic_repository ctx)"
  let ?c = "from_observations observed local remote pr live ctx"
  have c: "inspect_candidate w pd r ctx = ?c"
    by (simp add: inspect_candidate_def Let_def observed_def local_def remote_def pr_def live_def)
  from assms have d: "is_cleanable (cc_decision ?c)" by (simp add: c)
  note m = from_observations_cleanable(1) [OF d, folded prot_def]
  have heads: "po_head_matches pr = head_matches (lo_local_head_sha local) (po_request pr)"
      "po_remote_head_matches pr = head_matches (ro_head_sha remote) (po_request pr)"
    unfolding pr_def by (rule inspect_pull_request_heads)+
  have fields: "cc_liveness ?c = live" "cc_identity_error ?c = lo_identity_error local"
    "cc_dirty ?c = wo_dirty (or_worktree observed)" "cc_local_branch ?c = lo_local_branch local"
    "cc_allow_no_pr ?c = ic_allow_no_pr ctx"
    by (simp_all add: from_observations_def Let_def)
  have "branch_unprotected ctx b" if "lo_local_branch local = Some b" for b
  proof -
    from that have "wo_branch_name (or_worktree observed) = Some b"
      unfolding local_def by (rule inspect_local_branch_name)
    moreover have "\<not> prot" using may_cleanD(7) [OF m] by (simp add: dc_fields)
    ultimately show ?thesis
      by (auto simp: prot_def protected_branch_def branch_unprotected_def)
  qed
  moreover have "live = Dead" "lo_identity_error local = None"
    "wo_dirty (or_worktree observed) = Some False
      \<or> wo_dirty (or_worktree observed) = Some True \<and> ic_discard_dirty ctx"
    using may_cleanD(4-6) [OF m] by (simp_all add: dc_fields)
  ultimately show ?thesis
    using may_clean_owner_evidence [OF m heads d] from_observations_cleanable(3) [OF d]
    unfolding c sound_candidate_def fields by blast
qed

section \<open>Plans\<close>

lemma branch_count_refuse_duplicates [simp]:
  "branch_count (refuse_duplicate_branches cs) b = branch_count cs b"
proof -
  have "cc_local_branch (if P c then c \<lparr> cc_decision := d \<rparr> else c) = cc_local_branch c" for P d and c :: cleanup_candidate
    by simp
  then show ?thesis
    by (simp add: branch_count_def refuse_duplicate_branches_def filter_map comp_def)
qed

lemma branch_count_pos: "c \<in> set cs \<Longrightarrow> cc_local_branch c = Some b \<Longrightarrow> 0 < branch_count cs b"
  by (auto simp: branch_count_def filter_empty_conv)

lemma refuse_unproven_cleanable:
  assumes "is_cleanable (cc_decision (refuse_unproven_absent_remote receipts req c))"
  shows "refuse_unproven_absent_remote receipts req c = c"
    and "req \<Longrightarrow> cc_branch c = Some b \<Longrightarrow> ba_status (be_remote b) = AlreadyAbsent
           \<Longrightarrow> has_prior_remote_deletion_proof receipts c"
proof -
  let ?keep = "\<not> req \<or> \<not> is_cleanable (cc_decision c)
      \<or> \<not> opt_is (\<lambda>b. ba_status (be_remote b) = AlreadyAbsent) (cc_branch c) \<or> has_prior_remote_deletion_proof receipts c"
  have k: ?keep
  proof (rule ccontr)
    assume n: "\<not> ?keep"
    then have "\<not> is_cleanable (cc_decision (refuse_unproven_absent_remote receipts req c))"
      unfolding refuse_unproven_absent_remote_def Let_def by (simp add: is_cleanable_def)
    with assms show False by contradiction
  qed
  then show eq: "refuse_unproven_absent_remote receipts req c = c"
    unfolding refuse_unproven_absent_remote_def Let_def by (rule if_P)
  assume "req" "cc_branch c = Some b" "ba_status (be_remote b) = AlreadyAbsent"
  with k assms eq show "has_prior_remote_deletion_proof receipts c" by simp
qed

lemma plan_candidates_cleanable:
  assumes c: "c \<in> set (plan_candidates ws pd receipts rq resources ctx)" and d: "is_cleanable (cc_decision c)"
    and req: "cq_delete_remote_branch rq = ic_delete_remote_branch ctx"
  shows "sound_candidate ctx c
    \<and> (\<forall>b. cc_local_branch c = Some b \<longrightarrow> branch_count (plan_candidates ws pd receipts rq resources ctx) b = 1)
    \<and> (ic_delete_remote_branch ctx \<longrightarrow> (\<forall>b. cc_branch c = Some b \<and> ba_status (be_remote b) = AlreadyAbsent
         \<longrightarrow> has_prior_remote_deletion_proof receipts c))"
proof -
  let ?cs = "map (refuse_unproven_absent_remote receipts (cq_delete_remote_branch rq))
         (map (\<lambda>(i, r). inspect_candidate (ws (Suc i)) pd r ctx) (zip [0..<length resources] resources))"
  from c d have c': "c \<in> set ?cs" and dup: "\<not> opt_is (\<lambda>b. branch_count ?cs b > 1) (cc_local_branch c)"
    unfolding plan_candidates_def refuse_duplicate_branches_def
    by (auto simp del: map_map simp: is_cleanable_def split: if_splits)
  from c' obtain i r where c1: "c = refuse_unproven_absent_remote receipts (cq_delete_remote_branch rq)
      (inspect_candidate (ws (Suc i)) pd r ctx)" by auto
  note ru = refuse_unproven_cleanable [OF d [unfolded c1]]
  from c1 ru(1) have c2: "c = inspect_candidate (ws (Suc i)) pd r ctx" by simp
  have "branch_count (plan_candidates ws pd receipts rq resources ctx) b = 1" if "cc_local_branch c = Some b" for b
    using dup that branch_count_pos [OF c' that]
    by (simp del: map_map add: plan_candidates_def)
  moreover have "sound_candidate ctx c" using inspect_candidate_sound d c2 by blast
  ultimately show ?thesis using ru(2) c2 req by auto
qed

end
