(* ===== verification/Cleanup_Validation.thy ===== *)
theory Cleanup_Validation
  imports Cleanup_Receipts
begin

text \<open>
  What cleanup checks again right before it destroys something
  (\<^verbatim>\<open>services/cleanup/candidate.rs\<close>, \<^verbatim>\<open>branch_validation.rs\<close>,
  \<^verbatim>\<open>branch_preparation.rs\<close>, \<^verbatim>\<open>recovery.rs\<close> and the checks of
  \<^verbatim>\<open>branch_actions.rs\<close>). Each check reads the world of its moment.
\<close>

section \<open>Identity, liveness and worktree\<close>

definition refused_entry :: "cleanup_candidate \<Rightarrow> string \<Rightarrow> receipt_entry" where
  "refused_entry c reason = make_receipt_entry c ReceiptRefused [] (Some reason)"

definition skipped_entry :: "cleanup_candidate \<Rightarrow> string \<Rightarrow> receipt_entry" where
  "skipped_entry c reason = make_receipt_entry c ReceiptSkipped [''already_absent''] (Some reason)"

definition load_current_identity :: "world \<Rightarrow> cleanup_candidate \<Rightarrow> receipt_entry + identity_record" where
  "load_current_identity w c =
     (case w_symlink_metadata w (cc_agent_dir c) of
        Inl _ \<Rightarrow> Inl (skipped_entry c ''agent directory is already absent'')
      | Inr kind \<Rightarrow>
          if kind \<noteq> IsDir then Inl (refused_entry c ''agent directory is not a real managed directory'')
          else (case w_read_to_string w (cc_agent_dir c @ [''identity.json'']) of
             Inl (IoNotFound _) \<Rightarrow> Inl (skipped_entry c ''agent identity is already absent'')
           | Inl (IoOther e) \<Rightarrow> Inl (make_receipt_entry c Failed [] (Some (''read identity: '' @ e)))
           | Inr contents \<Rightarrow>
               (case w_parse_identity w contents of
                  Some identity \<Rightarrow> Inr identity
                | None \<Rightarrow> Inl (refused_entry c ''identity changed or is malformed''))))"

text \<open>The checks that return a refused entry are given by its reason.\<close>

definition validate_identity_and_liveness ::
  "world \<Rightarrow> cleanup_candidate \<Rightarrow> identity_record \<Rightarrow> identity_record \<Rightarrow> string option" where
  "validate_identity_and_liveness w c expected current =
     (if current \<noteq> expected then Some ''identity changed since planning''
      else if w_resolver_get w (ir_agent_name expected) \<noteq> Some expected then
        Some ''resolver identity changed since planning''
      else if liveness w (cc_agent_dir c) \<noteq> Dead then Some ''agent is no longer provably dead''
      else None)"

definition validate_worktree_contents ::
  "world \<Rightarrow> cleanup_candidate \<Rightarrow> identity_record \<Rightarrow> path \<Rightarrow> string option" where
  "validate_worktree_contents w c expected worktree =
     (case workspace_status w worktree of
        Inl _ \<Rightarrow> Some ''worktree status is unavailable''
      | Inr status \<Rightarrow>
          if de_porcelain status \<noteq> [] \<and> \<not> cc_discard_dirty c then
            Some ''worktree is dirty; discard_dirty authorization is required''
          else if de_porcelain status \<noteq> [] \<and> cc_dirty_evidence c \<noteq> Some status then
            Some ''dirty worktree changed since planning''
          else (case workspace_branch w worktree of
             Inr (Some branch) \<Rightarrow>
               if branch = ir_birth_branch expected then None
               else Some ''worktree branch changed since planning''
           | Inr None \<Rightarrow> Some ''worktree is detached since planning''
           | Inl e \<Rightarrow> Some (''read worktree branch: '' @ e)))"

definition validate_worktree_location ::
  "world \<Rightarrow> path \<Rightarrow> identity_record \<Rightarrow> path \<Rightarrow> string option" where
  "validate_worktree_location w project_dir expected worktree =
     (case w_canonicalize w worktree of
        Inl _ \<Rightarrow> Some ''worktree path changed since planning''
      | Inr canonical \<Rightarrow>
          if \<not> path_within (worktrees_dir project_dir) canonical then
            Some ''worktree path is outside the managed root''
          else (case w_canonicalize w (resolve_path project_dir (ir_working_dir expected)) of
             Inl _ \<Rightarrow> Some ''expected worktree path is unavailable''
           | Inr expected_canonical \<Rightarrow>
               if canonical \<noteq> expected_canonical then Some ''worktree path changed since planning'' else None))"

definition validate_local_branch ::
  "world \<Rightarrow> path \<Rightarrow> cleanup_candidate \<Rightarrow> identity_record \<Rightarrow> string option" where
  "validate_local_branch w project_dir c expected =
     (case local_branch_state w project_dir (ir_birth_branch expected) of
        Inr (Some head) \<Rightarrow>
          if cc_local_head_sha c = Some head then None else Some ''local branch head changed since planning''
      | Inr None \<Rightarrow> Some ''local branch disappeared since planning''
      | Inl e \<Rightarrow> Some (''read local branch: '' @ e))"

definition validate_worktree ::
  "world \<Rightarrow> path \<Rightarrow> cleanup_candidate \<Rightarrow> identity_record \<Rightarrow> string option" where
  "validate_worktree w project_dir c expected =
     (case cc_worktree_path c of
        None \<Rightarrow> None
      | Some worktree \<Rightarrow>
          if \<not> w_exists w worktree then None
          else or_opt (validate_worktree_contents w c expected worktree)
                 (or_opt (validate_worktree_location w project_dir expected worktree)
                    (validate_local_branch w project_dir c expected)))"

section \<open>Recovered residuals\<close>

definition residual_contents_are_safe :: "world \<Rightarrow> path \<Rightarrow> string + bool" where
  "residual_contents_are_safe w p =
     (case w_symlink_metadata w (p @ [''.exo'']) of
        Inl e \<Rightarrow> Inl (io_message e)
      | Inr kind \<Rightarrow>
          if kind \<noteq> IsDir then Inr False
          else bindR (w_read_dir w p) (\<lambda>names. Inr (list_all (\<lambda>n. n = ''.exo'') names)))"

definition revalidate_recovered_liveness :: "world \<Rightarrow> identity_record \<Rightarrow> string + unit" where
  "revalidate_recovered_liveness w identity =
     (case recovered_liveness w identity of
        Dead \<Rightarrow> Inr ()
      | Live \<Rightarrow> Inl ''recovered agent has a live tmux window''
      | LivenessUnknown \<Rightarrow> Inl ''recovered agent liveness is unknown'')"

definition revalidate_residual_directory ::
  "world \<Rightarrow> path \<Rightarrow> identity_record \<Rightarrow> path \<Rightarrow> string + unit" where
  "revalidate_residual_directory w project_dir identity p =
     bindR (with_context (w_canonicalize w p) ''canonicalize recovered residual'') (\<lambda>canonical.
     bindR (with_context (w_canonicalize w (worktrees_dir project_dir)) ''canonicalize managed worktree root'') (\<lambda>root.
     bindR (ensure (canonical \<noteq> [] \<and> butlast canonical = root)
              ''recovered residual path changed since planning'') (\<lambda>_.
     bindR (ensure (resolve_path project_dir (ir_working_dir identity) = canonical)
              ''recovered identity path changed since planning'') (\<lambda>_.
     bindR (ensure (\<not> is_ok (w_symlink_metadata w (p @ [''.git''])))
              ''recovered residual became a git worktree'') (\<lambda>_.
     bindR (residual_contents_are_safe w p) (\<lambda>safe.
     bindR (ensure safe ''recovered residual contains non-ExoMonad files'') (\<lambda>_.
     ensure (ok_flatten (workspace_git_root w p) = Some project_dir)
       ''recovered residual repository context changed'')))))))"

definition revalidate_recovered_residual :: "world \<Rightarrow> path \<Rightarrow> cleanup_candidate \<Rightarrow> string + unit" where
  "revalidate_recovered_residual w project_dir c =
     (case cc_identity c of
        None \<Rightarrow> Inl ''recovered identity is unavailable''
      | Some identity \<Rightarrow>
          bindR (ensure (cc_id c = ir_agent_name identity \<and> cc_agent_name c = ir_agent_name identity)
                   ''recovered identity no longer matches its candidate'') (\<lambda>_.
          bindR (revalidate_recovered_liveness w identity) (\<lambda>_.
          bindR (ensure (w_resolver_get w (ir_agent_name identity) = None)
                   ''resolver identity appeared for recovered cleanup target'') (\<lambda>_.
          bindR (ensure (\<not> is_ok (w_symlink_metadata w (cc_agent_dir c)))
                   ''agent identity directory appeared for recovered cleanup target'') (\<lambda>_.
          case cc_worktree_path c of
            None \<Rightarrow> Inl ''recovered residual path is unavailable''
          | Some p \<Rightarrow>
              bindR (ensure (path_within (worktrees_dir project_dir) p)
                       ''recovered residual path escaped the managed root'') (\<lambda>_.
              case w_symlink_metadata w p of
                Inl (IoNotFound _) \<Rightarrow> Inr ()
              | Inl (IoOther _) \<Rightarrow> Inl ''inspect recovered residual path''
              | Inr kind \<Rightarrow>
                  bindR (ensure (kind = IsDir) ''recovered residual path is not a real directory'') (\<lambda>_.
                  revalidate_residual_directory w project_dir identity p)))))))"

definition revalidate_liveness_and_worktree :: "world \<Rightarrow> path \<Rightarrow> cleanup_candidate \<Rightarrow> string + unit" where
  "revalidate_liveness_and_worktree w project_dir c =
     (if cc_recovered_provenance c \<noteq> None then revalidate_recovered_residual w project_dir c
      else case cc_identity c of
        None \<Rightarrow> Inl ''managed identity is unavailable''
      | Some expected \<Rightarrow>
          (case load_current_identity w c of
             Inl e \<Rightarrow> Inl (case re_reason e of
                 Some r \<Rightarrow> r | None \<Rightarrow> ''managed identity could not be revalidated'')
           | Inr current \<Rightarrow>
               (case or_opt (validate_identity_and_liveness w c expected current)
                       (validate_worktree w project_dir c expected) of
                  Some reason \<Rightarrow> Inl reason
                | None \<Rightarrow> Inr ())))"

section \<open>Branches\<close>

record revalidated_branch =
  rb_repository :: repository_identity
  rb_branch :: string
  rb_local_head :: "string option"

definition is_protected_branch :: "string \<Rightarrow> string \<Rightarrow> bool" where
  "is_protected_branch branch base_branch \<longleftrightarrow> branch = base_branch \<or> branch \<in> set default_branches"

definition validate_repository :: "world \<Rightarrow> branch_evidence \<Rightarrow> string + repository_identity" where
  "validate_repository w b =
     bindR (with_context (w_repository_identity w) ''re-read configured repository identity'') (\<lambda>rid.
     bindR (ensure (be_remote_name b = Some (rid_remote_name rid))
              ''configured remote changed since planning'') (\<lambda>_.
     bindR (ensure (be_target_branch b = Some (rid_base_branch rid))
              ''configured target branch changed since planning'') (\<lambda>_.
     bindR (ensure (be_remote_branch b = None \<or> be_branch b = be_remote_branch b)
              ''managed remote branch differs from the planned branch'') (\<lambda>_. Inr rid))))"

definition validate_pull_request ::
  "world \<Rightarrow> cleanup_candidate \<Rightarrow> string \<Rightarrow> repository_identity \<Rightarrow> string + cleanup_pull_request option" where
  "validate_pull_request w c branch rid =
     (case pull_request_state w (Some branch) True (Some rid) None of
        (Some pr, None) \<Rightarrow>
          (case cc_pull_request c of
             None \<Rightarrow> Inl ''pull request appeared after the verified no-PR observation''
           | Some expected \<Rightarrow>
               if pr \<noteq> expected then Inl ''authoritative pull-request evidence changed since planning''
               else Inr (Some pr))
      | (None, None) \<Rightarrow>
          if cc_allow_no_pr c \<and> cc_pull_request c = None then Inr None
          else Inl ''authoritative pull-request evidence disappeared''
      | (None, Some e) \<Rightarrow> Inl (''authoritative pull request lookup failed: '' @ e)
      | (Some _, Some _) \<Rightarrow> Inl ''authoritative pull-request evidence disappeared'')"

definition validate_merge_reachability ::
  "world \<Rightarrow> path \<Rightarrow> cleanup_pull_request \<Rightarrow> target_branch \<Rightarrow> string + unit" where
  "validate_merge_reachability w project_dir pr target =
     (case nonempty (cp_merge_commit_sha pr) of
        None \<Rightarrow> Inl ''authoritative pull request has no merge commit''
      | Some merge_commit \<Rightarrow>
          bindR (merge_commit_reachable w project_dir merge_commit target) (\<lambda>reachable.
            ensure reachable ''pull request merge commit is not reachable from fetched target branch''))"

definition validate_current_branch ::
  "world \<Rightarrow> path \<Rightarrow> string \<Rightarrow> repository_identity \<Rightarrow> string + string option" where
  "validate_current_branch w project_dir branch rid =
     bindR (checked_out_branch w project_dir) (\<lambda>current.
       if current = None \<or> current = Some branch \<or> is_protected_branch branch (rid_base_branch rid)
       then Inl ''managed branch is current or protected''
       else local_branch_state w project_dir branch)"

definition revalidate_owner :: "world \<Rightarrow> path \<Rightarrow> cleanup_candidate \<Rightarrow> identity_record \<Rightarrow> string + unit" where
  "revalidate_owner w project_dir c identity =
     (if cc_recovered_provenance c \<noteq> None then revalidate_recovered_residual w project_dir c
      else ensure (w_resolver_get w (ir_agent_name identity) = Some identity)
             ''managed resolver identity changed since planning'')"

definition revalidate_merge :: "world \<Rightarrow> path \<Rightarrow> cleanup_pull_request option \<Rightarrow> target_branch \<Rightarrow> string + unit" where
  "revalidate_merge w project_dir pr target =
     (case pr of
        Some p \<Rightarrow>
          if cp_merged p \<or> \<not> eq_ignore_ascii_case (cp_state p) ''closed''
          then validate_merge_reachability w project_dir p target else Inr ()
      | None \<Rightarrow> Inr ())"

definition revalidate_branch :: "world \<Rightarrow> path \<Rightarrow> cleanup_candidate \<Rightarrow> string + revalidated_branch" where
  "revalidate_branch w project_dir c =
     (case cc_branch c of
        None \<Rightarrow> Inl ''branch evidence is unavailable''
      | Some evidence \<Rightarrow>
          (case or_opt (be_branch evidence) (cc_local_branch c) of
             None \<Rightarrow> Inl ''managed branch name is unavailable''
           | Some branch \<Rightarrow>
               (case cc_identity c of
                  None \<Rightarrow> Inl ''managed identity is unavailable''
                | Some identity \<Rightarrow>
                    bindR (revalidate_owner w project_dir c identity) (\<lambda>_.
                    bindR (validate_repository w evidence) (\<lambda>rid.
                    bindR (fetch_target_branch w project_dir (rid_remote_name rid) (rid_base_branch rid)) (\<lambda>target.
                    bindR (validate_pull_request w c branch rid) (\<lambda>pr.
                    bindR (revalidate_merge w project_dir pr target) (\<lambda>_.
                    bindR (validate_current_branch w project_dir branch rid) (\<lambda>local_head.
                    Inr \<lparr> rb_repository = rid, rb_branch = branch, rb_local_head = local_head \<rparr>)))))))))"

text \<open>Whether a branch is there, with the revalidated evidence (\<^verbatim>\<open>Present\<close>), or not.\<close>

datatype branch_deletion = BranchAbsent | BranchPresent revalidated_branch

definition path_exists :: "world \<Rightarrow> path \<Rightarrow> bool" where
  "path_exists w p = is_ok (w_symlink_metadata w p)"

definition worktree_exists :: "world \<Rightarrow> cleanup_candidate \<Rightarrow> bool" where
  "worktree_exists w c = opt_is (path_exists w) (cc_worktree_path c)"

definition verify_planned_heads ::
  "cleanup_candidate \<Rightarrow> revalidated_branch \<Rightarrow> string \<Rightarrow> string + unit" where
  "verify_planned_heads c rb expected_remote =
     bindR (ensure (cc_local_head_sha c = rb_local_head rb)
              ''managed local branch head differs from the planned head'') (\<lambda>_.
     ensure (\<not> opt_is (\<lambda>planned. planned \<noteq> expected_remote) (cc_remote_head_sha c))
       ''managed remote branch head differs from the planned head'')"

definition prepare_remote_branch_deletion ::
  "world \<Rightarrow> path \<Rightarrow> cleanup_candidate \<Rightarrow> string \<Rightarrow> string + branch_deletion" where
  "prepare_remote_branch_deletion w project_dir c expected =
     bindR (revalidate_branch w project_dir c) (\<lambda>rb.
     bindR (verify_planned_heads c rb expected) (\<lambda>_.
     bindR (remote_branch_state w project_dir (rid_remote_name (rb_repository rb)) (rb_branch rb)) (\<lambda>head.
       case head of
         None \<Rightarrow> Inr BranchAbsent
       | Some observed \<Rightarrow>
           if observed = expected then Inr (BranchPresent rb)
           else Inl (''remote branch head conflict: expected '' @ expected @ '', observed '' @ observed))))"

definition prepare_local_branch_deletion ::
  "world \<Rightarrow> path \<Rightarrow> cleanup_candidate \<Rightarrow> string \<Rightarrow> string + branch_deletion" where
  "prepare_local_branch_deletion w project_dir c expected =
     bindR (revalidate_branch w project_dir c) (\<lambda>rb.
     bindR (ensure (\<not> worktree_exists w c)
              ''managed worktree reappeared before local branch deletion'') (\<lambda>_.
       case rb_local_head rb of
         None \<Rightarrow> Inr BranchAbsent
       | Some observed \<Rightarrow>
           if observed = expected then Inr (BranchPresent rb)
           else Inl (''local branch head conflict: expected '' @ expected @ '', observed '' @ observed)))"

text \<open>The commit at which the remote branch may be deleted.\<close>

definition remote_expected_sha :: "cleanup_candidate \<Rightarrow> string + string" where
  "remote_expected_sha c =
     (case or_opt (nonempty (Option.bind (cc_pull_request c) cp_head_sha))
             (if cc_allow_no_pr c \<and> cc_pull_request c = None then nonempty (cc_remote_head_sha c) else None) of
        Some sha \<Rightarrow> Inr sha
      | None \<Rightarrow> Inl ''remote deletion requires an authoritative pull-request head SHA or verified no-PR remote head'')"

definition prior_deletion_evidence ::
  "cleanup_candidate \<Rightarrow> receipt_entry \<Rightarrow> string + string \<times> string" where
  "prior_deletion_evidence c e =
     (case re_branch e of
        None \<Rightarrow> Inl ''cleanup receipt is missing remote deletion evidence''
      | Some b \<Rightarrow>
          bindR (ensure (''delete_remote_branch'' \<in> set (re_actions e))
                   ''cleanup receipt is missing remote deletion intent'') (\<lambda>_.
          case nonempty (be_remote_name b) of
            None \<Rightarrow> Inl ''cleanup receipt is missing the verified remote name''
          | Some remote_name \<Rightarrow>
              (case nonempty (or_opt (be_remote_branch b) (be_branch b)) of
                 None \<Rightarrow> Inl ''cleanup receipt is missing the verified remote ref''
               | Some remote_branch \<Rightarrow>
                   (case nonempty (be_remote_head_sha b) of
                      None \<Rightarrow> Inl ''cleanup receipt is missing the verified remote head SHA''
                    | Some expected_sha \<Rightarrow>
                        (case cc_identity c of
                           None \<Rightarrow> Inl ''managed identity is unavailable while verifying prior deletion''
                         | Some identity \<Rightarrow>
                             bindR (ensure (re_identity_snapshot e = Some identity
                                       \<and> re_agent_name e = cc_agent_name c \<and> re_agent_slug e = ir_slug identity)
                                      ''cleanup receipt identity differs from the current candidate'') (\<lambda>_.
                             case cc_branch c of
                               None \<Rightarrow> Inl ''current candidate is missing branch evidence''
                             | Some cb \<Rightarrow>
                                 bindR (ensure (be_remote_name cb = Some remote_name)
                                          ''cleanup receipt remote differs from the current candidate'') (\<lambda>_.
                                 bindR (ensure (or_opt (be_branch cb) (cc_local_branch c) = Some remote_branch)
                                          ''cleanup receipt ref differs from the current candidate'') (\<lambda>_.
                                 bindR (ensure (\<not> opt_is (\<lambda>br. br \<noteq> remote_branch) (be_remote_branch cb))
                                          ''cleanup receipt remote ref differs from current branch evidence'') (\<lambda>_.
                                 bindR (ensure (\<not> opt_is (\<lambda>head. head \<noteq> expected_sha)
                                                    (Option.bind (cc_pull_request c) cp_head_sha))
                                          ''cleanup receipt expected SHA differs from current pull-request evidence'') (\<lambda>_.
                                 Inr (remote_name, remote_branch)))))))))))"

definition verify_prior_remote_deletion ::
  "world \<Rightarrow> path \<Rightarrow> cleanup_candidate \<Rightarrow> receipt_entry \<Rightarrow> string + unit" where
  "verify_prior_remote_deletion w project_dir c e =
     bindR (prior_deletion_evidence c e) (\<lambda>(remote_name, remote_branch).
     bindR (revalidate_branch w project_dir c) (\<lambda>current.
     bindR (ensure (rid_remote_name (rb_repository current) = remote_name \<and> rb_branch current = remote_branch)
              ''configured remote or ref changed since prior deletion'') (\<lambda>_.
     bindR (remote_branch_state w project_dir remote_name remote_branch) (\<lambda>head.
       case head of
         None \<Rightarrow> Inr ()
       | Some observed \<Rightarrow>
           Inl (''remote branch was recreated or moved after prior deletion (observed '' @ observed @ '')'')))))"

end
