(* ===== verification/Cleanup_Execution.thy ===== *)
theory Cleanup_Execution
  imports Cleanup_Validation
begin

text \<open>
  Carrying a plan out (\<^verbatim>\<open>services/cleanup/execution.rs\<close>, \<^verbatim>\<open>candidate.rs\<close>,
  \<^verbatim>\<open>actions.rs\<close>, \<^verbatim>\<open>branch_actions.rs\<close>, \<^verbatim>\<open>branch_receipts.rs\<close>). The state
  of a run is the receipt in memory, the trace of what was done to the outside world, and a clock
  that counts the moments at which the code has looked at the world or acted on it: \<open>ws n\<close> is the
  world of moment \<open>n\<close>, and nothing relates the worlds of two moments. A receipt has reached the
  disk exactly when the trace has a successful \<open>Persist\<close> of it.
\<close>

datatype action =
    DeleteRemoteBranch string string string
  | RemoveWorktree path
  | RemoveResidual path
  | DeleteLocalBranch string string
  | RemoveAgentDir path
  | ReleaseTrust "captured_codex_trust list"
  | RemoveRegistrations identity_record
  | Deregister string

text \<open>An action names the position of its candidate in the plan and says whether it succeeded.\<close>

datatype effect = Persist cleanup_receipt bool | Act nat action bool

record run =
  cx_receipt :: cleanup_receipt
  cx_trace :: "effect list"
  cx_clock :: nat

definition log_effect :: "effect \<Rightarrow> run \<Rightarrow> run" where
  "log_effect e s = s \<lparr> cx_trace := cx_trace s @ [e], cx_clock := Suc (cx_clock s) \<rparr>"

definition look :: "run \<Rightarrow> run" where
  "look s = s \<lparr> cx_clock := Suc (cx_clock s) \<rparr>"

definition entry_at :: "run \<Rightarrow> nat \<Rightarrow> receipt_entry" where
  "entry_at s i = rc_entries (cx_receipt s) ! i"

definition put_entry :: "nat \<Rightarrow> receipt_entry \<Rightarrow> run \<Rightarrow> run" where
  "put_entry i e s = s \<lparr> cx_receipt := cx_receipt s \<lparr> rc_entries := (rc_entries (cx_receipt s))[i := e] \<rparr> \<rparr>"

definition refused_with_progress :: "cleanup_candidate \<Rightarrow> receipt_entry \<Rightarrow> string \<Rightarrow> receipt_entry" where
  "refused_with_progress c previous reason =
     (make_receipt_entry c ReceiptRefused (re_actions previous) (Some reason))
       \<lparr> re_identity_snapshot := or_opt (re_identity_snapshot previous) (cc_identity c),
         re_recovered_provenance := or_opt (re_recovered_provenance previous) (cc_recovered_provenance c),
         re_pull_request := or_opt (re_pull_request previous) (cc_pull_request c),
         re_branch := or_opt (re_branch previous) (cc_branch c),
         re_dirty_evidence := or_opt (re_dirty_evidence previous) (cc_dirty_evidence c),
         re_codex_trust := re_codex_trust previous \<rparr>"

definition failed_entry :: "cleanup_candidate \<Rightarrow> receipt_entry \<Rightarrow> string \<Rightarrow> receipt_entry" where
  "failed_entry c previous reason =
     (make_receipt_entry c Failed (re_actions previous) (Some reason))
       \<lparr> re_branch := re_branch previous, re_codex_trust := re_codex_trust previous \<rparr>"

section \<open>Progress\<close>

definition progress_persistence_failure :: string where
  "progress_persistence_failure = ''persist cleanup progress''"

definition persist_receipt :: "(nat \<Rightarrow> world) \<Rightarrow> run \<Rightarrow> (string + unit) \<times> run" where
  "persist_receipt ws s =
     (let r = w_persist_receipt (ws (cx_clock s)) (cx_receipt s)
      in (r, log_effect (Persist (cx_receipt s) (is_ok r)) s))"

definition progress_entry :: "cleanup_candidate \<Rightarrow> receipt_entry \<Rightarrow> string list \<Rightarrow> receipt_entry" where
  "progress_entry c previous actions =
     (make_receipt_entry c InProgress actions None)
       \<lparr> re_branch := or_opt (re_branch previous) (cc_branch c), re_codex_trust := re_codex_trust previous \<rparr>"

definition record_progress ::
  "(nat \<Rightarrow> world) \<Rightarrow> nat \<Rightarrow> cleanup_candidate \<Rightarrow> string list \<Rightarrow> run \<Rightarrow> (string + unit) \<times> run" where
  "record_progress ws i c actions s =
     persist_receipt ws (put_entry i (progress_entry c (entry_at s i) actions) s)"

text \<open>A step returns \<open>Some\<close> entry to end the candidate with it, or \<open>None\<close> to go on.\<close>

definition persist_action_or_failure ::
  "(nat \<Rightarrow> world) \<Rightarrow> nat \<Rightarrow> cleanup_candidate \<Rightarrow> string list \<Rightarrow> run \<Rightarrow> receipt_entry option \<times> run" where
  "persist_action_or_failure ws i c actions s =
     (case record_progress ws i c actions s of
        (Inr _, s') \<Rightarrow> (None, s')
      | (Inl e, s') \<Rightarrow>
          (Some (failed_entry c (entry_at s' i) (progress_persistence_failure @ '': '' @ e)), s'))"

section \<open>Branch receipts\<close>

definition branch_action_of :: "bool \<Rightarrow> branch_evidence \<Rightarrow> branch_action" where
  "branch_action_of local b = (if local then be_local b else be_remote b)"

definition set_branch_action :: "bool \<Rightarrow> branch_action \<Rightarrow> branch_evidence \<Rightarrow> branch_evidence" where
  "set_branch_action local a b = (if local then b \<lparr> be_local := a \<rparr> else b \<lparr> be_remote := a \<rparr>)"

definition pending_action_name :: "bool \<Rightarrow> string" where
  "pending_action_name local =
     (if local then ''delete_local_branch_pending'' else ''delete_remote_branch_pending'')"

fun completed_action_name :: "bool \<Rightarrow> branch_action_status \<Rightarrow> string option" where
  "completed_action_name True Deleted = Some ''delete_local_branch''"
| "completed_action_name False Deleted = Some ''delete_remote_branch''"
| "completed_action_name True AlreadyAbsent = Some ''local_branch_already_absent''"
| "completed_action_name False AlreadyAbsent = Some ''remote_branch_already_absent''"
| "completed_action_name _ _ = None"

definition failed_branch :: "cleanup_candidate \<Rightarrow> receipt_entry \<Rightarrow> string \<Rightarrow> receipt_entry" where
  "failed_branch c previous reason =
     (make_receipt_entry c Failed (re_actions previous) (Some reason)) \<lparr> re_branch := re_branch previous \<rparr>"

definition refuse_branch ::
  "nat \<Rightarrow> cleanup_candidate \<Rightarrow> bool \<Rightarrow> string \<Rightarrow> run \<Rightarrow> receipt_entry \<times> run" where
  "refuse_branch i c local reason s =
     (let previous = entry_at s i;
          branch = map_option (set_branch_action local \<lparr> ba_status = ActionRefused, ba_reason = Some reason \<rparr>)
            (re_branch previous)
      in ((make_receipt_entry c ReceiptRefused (re_actions previous) (Some reason)) \<lparr> re_branch := branch \<rparr>,
          put_entry i (previous \<lparr> re_branch := branch \<rparr>) s))"

definition persist_branch_progress ::
  "(nat \<Rightarrow> world) \<Rightarrow> nat \<Rightarrow> cleanup_candidate \<Rightarrow> run \<Rightarrow> receipt_entry option \<times> run" where
  "persist_branch_progress ws i c s =
     (case record_progress ws i c (re_actions (entry_at s i)) s of
        (Inr _, s') \<Rightarrow> (None, s')
      | (Inl e, s') \<Rightarrow>
          (Some (failed_branch c (entry_at s' i) (progress_persistence_failure @ '': '' @ e)), s'))"

definition set_branch_pending ::
  "(nat \<Rightarrow> world) \<Rightarrow> nat \<Rightarrow> cleanup_candidate \<Rightarrow> bool \<Rightarrow> run \<Rightarrow> receipt_entry option \<times> run" where
  "set_branch_pending ws i c local s =
     (let e = entry_at s i in
      case re_branch e of
        None \<Rightarrow> (Some (failed_branch c e ''branch evidence is unavailable''), s)
      | Some b \<Rightarrow>
          persist_branch_progress ws i c
            (put_entry i (e \<lparr> re_branch := Some (set_branch_action local \<lparr> ba_status = DeletePending, ba_reason = None \<rparr> b),
                              re_actions := re_actions e @ [pending_action_name local] \<rparr>) s))"

definition finish_branch_action ::
  "(nat \<Rightarrow> world) \<Rightarrow> nat \<Rightarrow> cleanup_candidate \<Rightarrow> bool \<Rightarrow> branch_action_status \<Rightarrow> string option \<Rightarrow> run
     \<Rightarrow> receipt_entry option \<times> run" where
  "finish_branch_action ws i c local status reason s =
     (let e = entry_at s i in
      case re_branch e of
        None \<Rightarrow> (Some (failed_branch c e ''branch evidence is unavailable''), s)
      | Some b \<Rightarrow>
          (let e1 = e \<lparr> re_branch := Some (set_branch_action local \<lparr> ba_status = status, ba_reason = reason \<rparr> b) \<rparr> in
           case completed_action_name local status of
             None \<Rightarrow> (Some (failed_branch c e1 ''invalid branch action state''), put_entry i e1 s)
           | Some name \<Rightarrow>
               persist_branch_progress ws i c
                 (put_entry i (e1 \<lparr> re_actions :=
                    filter (\<lambda>a. \<not> ends_with ''_branch_pending'' a) (re_actions e1) @ [name] \<rparr>) s)))"

definition finish_absent_branch ::
  "(nat \<Rightarrow> world) \<Rightarrow> nat \<Rightarrow> cleanup_candidate \<Rightarrow> bool \<Rightarrow> run \<Rightarrow> receipt_entry option \<times> run" where
  "finish_absent_branch ws i c local s =
     finish_branch_action ws i c local AlreadyAbsent
       (Some (''managed '' @ (if local then ''local'' else ''remote'') @ '' branch is already absent'')) s"

definition stop_with :: "receipt_entry \<times> run \<Rightarrow> receipt_entry option \<times> run" where
  "stop_with r = (Some (fst r), snd r)"

definition finish_delete_result ::
  "(nat \<Rightarrow> world) \<Rightarrow> nat \<Rightarrow> cleanup_candidate \<Rightarrow> bool \<Rightarrow> string + unit \<Rightarrow> run \<Rightarrow> receipt_entry option \<times> run" where
  "finish_delete_result ws i c local r s =
     (case r of
        Inr _ \<Rightarrow> finish_branch_action ws i c local Deleted None s
      | Inl e \<Rightarrow> stop_with (refuse_branch i c local e s))"

section \<open>Branch actions\<close>

definition delete_remote_branch_with_lease ::
  "world \<Rightarrow> path \<Rightarrow> string \<Rightarrow> string \<Rightarrow> string \<Rightarrow> string + unit" where
  "delete_remote_branch_with_lease w project_dir remote branch expected_sha =
     bindR (validate_branch_arg branch ''managed remote branch'') (\<lambda>_.
     bindR (with_context (validate_commit_arg expected_sha) ''validate expected remote branch head'') (\<lambda>_.
     bindR (with_context (w_git w project_dir
              [''push'', remote, ''--force-with-lease=refs/heads/'' @ branch @ '':'' @ expected_sha,
               '':refs/heads/'' @ branch])
              (''delete remote branch '' @ remote @ ''/'' @ branch)) (\<lambda>out.
       if git_success out then Inr ()
       else Inl (''delete remote branch '' @ remote @ ''/'' @ branch @ '' with expected head ''
                 @ expected_sha @ '': '' @ str_trim (go_stderr out)))))"

definition delete_local_branch :: "world \<Rightarrow> path \<Rightarrow> string \<Rightarrow> string \<Rightarrow> string + unit" where
  "delete_local_branch w project_dir branch expected_sha =
     bindR (validate_branch_arg branch ''managed local branch'') (\<lambda>_.
     bindR (with_context (validate_commit_arg expected_sha) ''validate expected local branch head'') (\<lambda>_.
     bindR (branch_checked_out_in_any_worktree w project_dir branch) (\<lambda>checked_out.
     bindR (ensure (\<not> checked_out) (''cannot delete checked-out branch '' @ branch)) (\<lambda>_.
     bindR (with_context (w_git w project_dir [''update-ref'', ''-d'', ''refs/heads/'' @ branch, expected_sha])
              ''delete managed local branch'') (\<lambda>out.
       if git_success out then Inr ()
       else Inl (''delete managed local branch '' @ branch @ '': '' @ str_trim (go_stderr out)))))))"

definition remote_status :: "receipt_entry \<Rightarrow> branch_action_status option" where
  "remote_status e = map_option (\<lambda>b. ba_status (be_remote b)) (re_branch e)"

definition local_status :: "receipt_entry \<Rightarrow> branch_action_status option" where
  "local_status e = map_option (\<lambda>b. ba_status (be_local b)) (re_branch e)"

definition complete_remote_action ::
  "(nat \<Rightarrow> world) \<Rightarrow> path \<Rightarrow> nat \<Rightarrow> cleanup_candidate \<Rightarrow> string \<Rightarrow> string + branch_deletion \<Rightarrow> run
     \<Rightarrow> receipt_entry option \<times> run" where
  "complete_remote_action ws project_dir i c expected prepared s =
     (case prepared of
        Inl e \<Rightarrow> stop_with (refuse_branch i c False e s)
      | Inr BranchAbsent \<Rightarrow>
          stop_with (refuse_branch i c False
            ''remote branch disappeared before its exact lease could be exercised'' s)
      | Inr (BranchPresent rb) \<Rightarrow>
          (case revalidate_liveness_and_worktree (ws (cx_clock s)) project_dir c of
             Inl e \<Rightarrow> stop_with (refuse_branch i c False (''state changed before remote deletion: '' @ e) (look s))
           | Inr _ \<Rightarrow>
               (let s1 = look s; remote = rid_remote_name (rb_repository rb);
                    r = delete_remote_branch_with_lease (ws (cx_clock s1)) project_dir remote (rb_branch rb) expected
                in finish_delete_result ws i c False r
                     (log_effect (Act i (DeleteRemoteBranch remote (rb_branch rb) expected) (is_ok r)) s1))))"

definition execute_remote_branch_action ::
  "(nat \<Rightarrow> world) \<Rightarrow> path \<Rightarrow> nat \<Rightarrow> cleanup_candidate \<Rightarrow> run \<Rightarrow> receipt_entry option \<times> run" where
  "execute_remote_branch_action ws project_dir i c s =
     (if \<not> cc_delete_remote_branch c then (None, s)
      else if remote_status (entry_at s i) = Some Deleted then
        (case verify_prior_remote_deletion (ws (cx_clock s)) project_dir c (entry_at s i) of
           Inr _ \<Rightarrow> (None, look s)
         | Inl e \<Rightarrow> stop_with (refuse_branch i c False e (look s)))
      else if remote_status (entry_at s i) \<notin> {Some WouldDelete, Some DeletePending, Some AlreadyAbsent} then
        stop_with (refuse_branch i c False
          ''remote deletion requested but verified remote branch evidence is unavailable'' s)
      else case remote_expected_sha c of
        Inl e \<Rightarrow> stop_with (refuse_branch i c False e s)
      | Inr expected \<Rightarrow>
          if remote_status (entry_at s i) = Some AlreadyAbsent then
            stop_with (refuse_branch i c False
              ''remote deletion requested but remote branch is absent and no durable receipt proves a prior deletion at the verified SHA'' s)
          else (case set_branch_pending ws i c False s of
             (Some e, s1) \<Rightarrow> (Some e, s1)
           | (None, s1) \<Rightarrow>
               complete_remote_action ws project_dir i c expected
                 (prepare_remote_branch_deletion (ws (cx_clock s1)) project_dir c expected) (look s1)))"

definition complete_local_action ::
  "(nat \<Rightarrow> world) \<Rightarrow> path \<Rightarrow> nat \<Rightarrow> cleanup_candidate \<Rightarrow> string \<Rightarrow> string + branch_deletion \<Rightarrow> run
     \<Rightarrow> receipt_entry option \<times> run" where
  "complete_local_action ws project_dir i c expected prepared s =
     (case prepared of
        Inl e \<Rightarrow> stop_with (refuse_branch i c True e s)
      | Inr BranchAbsent \<Rightarrow> finish_absent_branch ws i c True s
      | Inr (BranchPresent rb) \<Rightarrow>
          (let r = delete_local_branch (ws (cx_clock s)) project_dir (rb_branch rb) expected
           in finish_delete_result ws i c True r
                (log_effect (Act i (DeleteLocalBranch (rb_branch rb) expected) (is_ok r)) s)))"

definition execute_local_branch_action ::
  "(nat \<Rightarrow> world) \<Rightarrow> path \<Rightarrow> nat \<Rightarrow> cleanup_candidate \<Rightarrow> run \<Rightarrow> receipt_entry option \<times> run" where
  "execute_local_branch_action ws project_dir i c s =
     (if local_status (entry_at s i) \<notin> {Some WouldDelete, Some DeletePending} then (None, s)
      else if worktree_exists (ws (cx_clock s)) c then
        stop_with (refuse_branch i c True
          ''managed worktree must be removed before deleting its local branch'' (look s))
      else case cc_local_head_sha c of
        None \<Rightarrow> finish_absent_branch ws i c True (look s)
      | Some expected \<Rightarrow>
          (case set_branch_pending ws i c True (look s) of
             (Some e, s1) \<Rightarrow> (Some e, s1)
           | (None, s1) \<Rightarrow>
               complete_local_action ws project_dir i c expected
                 (prepare_local_branch_deletion (ws (cx_clock s1)) project_dir c expected) (look s1)))"

end
