(* ===== verification/Cleanup_Actions.thy ===== *)
theory Cleanup_Actions
  imports Cleanup_Execution
begin

text \<open>
  The destructive actions in their order (\<^verbatim>\<open>services/cleanup/actions.rs\<close>), the candidate
  (\<^verbatim>\<open>candidate.rs\<close>), the plan (\<^verbatim>\<open>execution.rs\<close>) and an apply without its lock
  (\<^verbatim>\<open>service.rs\<close>). The list of actions that the code passes by mutable reference is
  returned beside the entry.
\<close>

section \<open>Steps\<close>

definition claim_codex_trust ::
  "(nat \<Rightarrow> world) \<Rightarrow> nat \<Rightarrow> cleanup_candidate \<Rightarrow> string list \<Rightarrow> run \<Rightarrow> string list \<times> run" where
  "claim_codex_trust ws i c actions s =
     (let w = ws (cx_clock s); dirs = codex_configured_dirs w c in
      case (if dirs = [] then Inr [] else w_capture_codex_trust w dirs) of
        Inr [] \<Rightarrow> (actions @ [''codex_trust_already_absent''], look s)
      | Inr claims \<Rightarrow>
          (actions @ [''capture_codex_trust''],
           put_entry i ((entry_at s i) \<lparr> re_codex_trust := Some claims \<rparr>) (look s))
      | Inl _ \<Rightarrow> (actions @ [''codex_trust_capture_failed''], look s))"

definition authorization_actions :: "cleanup_candidate \<Rightarrow> string list \<Rightarrow> string list" where
  "authorization_actions c actions =
     actions
     @ (if cc_allow_no_pr c \<and> cc_pull_request c = None then [''allow_no_pr_override''] else [])
     @ (if cc_discard_dirty c \<and> cc_dirty c = Some True then [''record_dirty_evidence''] else [])
     @ (if cc_preserve_unique_commits c then [''preserve_unique_commits''] else [])
     @ (if cc_delete_remote_branch c then [''delete_remote_branch_override''] else [])"

type_synonym step_result = "receipt_entry option \<times> string list \<times> run"

definition persist_step ::
  "(nat \<Rightarrow> world) \<Rightarrow> nat \<Rightarrow> cleanup_candidate \<Rightarrow> string list \<Rightarrow> run \<Rightarrow> step_result" where
  "persist_step ws i c actions s =
     (let (r, s') = persist_action_or_failure ws i c actions s in (r, actions, s'))"

definition fail_step :: "nat \<Rightarrow> cleanup_candidate \<Rightarrow> string list \<Rightarrow> string \<Rightarrow> run \<Rightarrow> step_result" where
  "fail_step i c actions reason s = (Some (failed_entry c (entry_at s i) reason), actions, s)"

definition remove_worktree ::
  "(nat \<Rightarrow> world) \<Rightarrow> path \<Rightarrow> nat \<Rightarrow> cleanup_candidate \<Rightarrow> string list \<Rightarrow> run \<Rightarrow> step_result" where
  "remove_worktree ws project_dir i c actions s =
     (case cc_worktree_path c of
        None \<Rightarrow> (None, actions, s)
      | Some worktree \<Rightarrow>
          let w = ws (cx_clock s); s1 = look s in
          if \<not> path_exists w worktree then
            persist_step ws i c (actions @ [''worktree_already_absent'']) s1
          else if cc_recovered_provenance c \<noteq> None then
            (case revalidate_recovered_residual (ws (cx_clock s1)) project_dir c of
               Inl e \<Rightarrow> fail_step i c actions (''revalidate recovered residual: '' @ e) (look s1)
             | Inr _ \<Rightarrow>
                 (let s2 = look s1; r = w_remove_dir_all (ws (cx_clock s2)) worktree;
                      s3 = log_effect (Act i (RemoveResidual worktree) (is_ok r)) s2
                  in case r of
                       Inl e \<Rightarrow> fail_step i c actions (''remove recovered residual: '' @ io_message e) s3
                     | Inr _ \<Rightarrow> persist_step ws i c (actions @ [''remove_recovered_residual'']) s3))
          else
            (let r = w_remove_workspace (ws (cx_clock s1)) worktree;
                 s2 = log_effect (Act i (RemoveWorktree worktree) (case r of Inr (Inr _) \<Rightarrow> True | _ \<Rightarrow> False)) s1
             in case r of
                  Inl e \<Rightarrow> fail_step i c actions (''remove worktree task: '' @ e) s2
                | Inr (Inl e) \<Rightarrow> fail_step i c actions (''remove worktree: '' @ e) s2
                | Inr (Inr _) \<Rightarrow>
                    persist_step ws i c
                      (actions @ [''remove_worktree'']
                       @ (if cc_discard_dirty c \<and> cc_dirty c = Some True then [''discard_dirty_changes''] else [])
                       @ (if cc_delete_remote_branch c then [''delete_remote_branch_override''] else [])) s2))"

definition remove_agent_directory ::
  "(nat \<Rightarrow> world) \<Rightarrow> nat \<Rightarrow> cleanup_candidate \<Rightarrow> string list \<Rightarrow> run \<Rightarrow> step_result" where
  "remove_agent_directory ws i c actions s =
     (let r = w_remove_dir_all (ws (cx_clock s)) (cc_agent_dir c);
          s1 = log_effect (Act i (RemoveAgentDir (cc_agent_dir c)) (is_ok r)) s
      in case r of
           Inr _ \<Rightarrow> persist_step ws i c (actions @ [''remove_agent_directory'']) s1
         | Inl (IoNotFound _) \<Rightarrow> persist_step ws i c (actions @ [''agent_directory_already_absent'']) s1
         | Inl (IoOther e) \<Rightarrow> fail_step i c actions (''remove agent directory: '' @ e) s1)"

definition release_codex_trust ::
  "(nat \<Rightarrow> world) \<Rightarrow> nat \<Rightarrow> cleanup_candidate \<Rightarrow> string list \<Rightarrow> run \<Rightarrow> step_result" where
  "release_codex_trust ws i c actions s =
     (case re_codex_trust (entry_at s i) of
        Some (claim # claims) \<Rightarrow>
          (let failures = w_release_codex_trust (ws (cx_clock s)) (claim # claims);
               s1 = log_effect (Act i (ReleaseTrust (claim # claims)) (failures = [])) s
           in if failures = [] then (None, actions @ [''release_codex_trust''], s1)
              else
                let actions1 = actions @ [''codex_trust_release_failed''];
                    s2 = put_entry i ((entry_at s1 i) \<lparr> re_actions := actions1 \<rparr>) s1
                in fail_step i c actions1 (''release ExoMonad Codex trust: '' @ join_with ''; '' failures) s2)
      | _ \<Rightarrow> (None, actions @ [''codex_trust_already_absent''], s))"

definition cleanup_ephemeral_registrations ::
  "(nat \<Rightarrow> world) \<Rightarrow> nat \<Rightarrow> cleanup_candidate \<Rightarrow> string list \<Rightarrow> run \<Rightarrow> step_result" where
  "cleanup_ephemeral_registrations ws i c actions s =
     (case cc_identity c of
        None \<Rightarrow> (None, actions, s)
      | Some identity \<Rightarrow>
          (let r = w_remove_synthetic_members (ws (cx_clock s)) identity;
               s1 = log_effect (Act i (RemoveRegistrations identity) (is_ok r)) s
           in case r of
                Inl reason \<Rightarrow> fail_step i c actions reason s1
              | Inr _ \<Rightarrow> persist_step ws i c (actions @ [''remove_ephemeral_registrations'']) s1))"

text \<open>Deregistration with its durable intent; the recovery of an agent whose resources are gone
  does the same except for the record afterwards.\<close>

definition deregister_pending :: string where "deregister_pending = ''deregister_identity_pending''"

definition deregister_now ::
  "(nat \<Rightarrow> world) \<Rightarrow> nat \<Rightarrow> cleanup_candidate \<Rightarrow> string \<Rightarrow> string list \<Rightarrow> run \<Rightarrow> step_result" where
  "deregister_now ws i c name actions s =
     (let r = w_deregister (ws (cx_clock s)) name;
          s1 = log_effect (Act i (Deregister name) (is_ok r)) s
      in case r of
           Inl e \<Rightarrow> fail_step i c actions (''deregister identity: '' @ e) s1
         | Inr _ \<Rightarrow>
             (None, filter (\<lambda>a. a \<noteq> deregister_pending) actions @ [''deregister_identity''], s1))"

definition deregister_identity ::
  "(nat \<Rightarrow> world) \<Rightarrow> nat \<Rightarrow> cleanup_candidate \<Rightarrow> string list \<Rightarrow> run \<Rightarrow> step_result" where
  "deregister_identity ws i c actions s =
     (if cc_agent_name c = [] then fail_step i c actions ''agent name became invalid'' s
      else
        case persist_step ws i c (push_absent deregister_pending actions) s of
          (Some e, actions1, s1) \<Rightarrow> (Some e, actions1, s1)
        | (None, actions1, s1) \<Rightarrow>
            (case deregister_now ws i c (cc_agent_name c) actions1 s1 of
               (Some e, actions2, s2) \<Rightarrow> (Some e, actions2, s2)
             | (None, actions2, s2) \<Rightarrow> persist_step ws i c actions2 s2))"

section \<open>Candidates\<close>

text \<open>\<open>then_step\<close> is the early return of an entry.\<close>

definition then_step :: "step_result \<Rightarrow> (string list \<Rightarrow> run \<Rightarrow> receipt_entry \<times> run) \<Rightarrow> receipt_entry \<times> run" where
  "then_step r k = (case r of (Some e, _, s) \<Rightarrow> (e, s) | (None, actions, s) \<Rightarrow> k actions s)"

text \<open>A step on the branches leaves the actions in the receipt.\<close>

definition branch_step :: "nat \<Rightarrow> receipt_entry option \<times> run \<Rightarrow> step_result" where
  "branch_step i r = (fst r, re_actions (entry_at (snd r) i), snd r)"

definition cleaned_entry :: "cleanup_candidate \<Rightarrow> receipt_entry \<Rightarrow> string list \<Rightarrow> receipt_entry" where
  "cleaned_entry c previous actions =
     (make_receipt_entry c Cleaned actions None)
       \<lparr> re_branch := re_branch previous, re_codex_trust := re_codex_trust previous \<rparr>"

definition execute_destructive_actions ::
  "(nat \<Rightarrow> world) \<Rightarrow> path \<Rightarrow> nat \<Rightarrow> cleanup_candidate \<Rightarrow> run \<Rightarrow> receipt_entry \<times> run" where
  "execute_destructive_actions ws project_dir i c s =
     (let (actions0, s0) = claim_codex_trust ws i c (authorization_actions c (re_actions (entry_at s i))) s in
      then_step (persist_step ws i c (remdups_adj (sort actions0)) s0) (\<lambda>_ s1.
      then_step (branch_step i (execute_remote_branch_action ws project_dir i c s1)) (\<lambda>actions s2.
      then_step (remove_worktree ws project_dir i c actions s2) (\<lambda>_ s3.
      then_step (branch_step i (execute_local_branch_action ws project_dir i c s3)) (\<lambda>actions s4.
      then_step (remove_agent_directory ws i c actions s4) (\<lambda>actions s5.
      then_step (release_codex_trust ws i c actions s5) (\<lambda>actions s6.
      then_step (cleanup_ephemeral_registrations ws i c actions s6) (\<lambda>actions s7.
      then_step (deregister_identity ws i c actions s7) (\<lambda>actions s8.
      (cleaned_entry c (entry_at s8 i) actions, s8))))))))))"

definition receipt_entry_identity_is_coherent :: "receipt_entry \<Rightarrow> identity_record \<Rightarrow> bool" where
  "receipt_entry_identity_is_coherent e identity \<longleftrightarrow>
     re_agent_name e = ir_agent_name identity \<and> re_agent_slug e = ir_slug identity"

definition resolver_only_actions :: "string list \<Rightarrow> string list" where
  "resolver_only_actions actions =
     push_absent deregister_pending
       (if actions = [] then [''managed_resources_already_absent''] else actions)"

definition execute_resolver_only ::
  "(nat \<Rightarrow> world) \<Rightarrow> nat \<Rightarrow> cleanup_candidate \<Rightarrow> identity_record \<Rightarrow> run \<Rightarrow> receipt_entry \<times> run" where
  "execute_resolver_only ws i c expected s =
     (let w = ws (cx_clock s); refuse = (\<lambda>reason. (refused_with_progress c (entry_at s i) reason, look s)) in
      if \<not> cc_recovery_receipt c then
        refuse ''resolver-only cleanup lacks a matching in-progress receipt''
      else if path_exists w (cc_agent_dir c) \<or> worktree_exists w c then
        refuse ''managed resource reappeared since planning''
      else if w_resolver_get w (ir_agent_name expected) \<noteq> Some expected then
        refuse ''resolver identity changed since planning''
      else if re_identity_snapshot (entry_at s i) \<noteq> Some expected
           \<or> \<not> receipt_entry_identity_is_coherent (entry_at s i) expected then
        refuse ''cleanup receipt identity differs from the resolver''
      else
        then_step (persist_step ws i c (resolver_only_actions (re_actions (entry_at s i))) (look s)) (\<lambda>actions s1.
        then_step (release_codex_trust ws i c actions s1) (\<lambda>actions s2.
        then_step (cleanup_ephemeral_registrations ws i c actions s2) (\<lambda>actions s3.
        then_step (deregister_now ws i c (ir_agent_name expected) actions s3) (\<lambda>actions s4.
        ((make_receipt_entry c Cleaned actions None)
           \<lparr> re_codex_trust := re_codex_trust (entry_at s4 i) \<rparr>, s4))))))"

definition refusal_reason :: "receipt_entry \<Rightarrow> string" where
  "refusal_reason e = (case re_reason e of Some r \<Rightarrow> r | None \<Rightarrow> ''cleanup was refused'')"

definition execute_candidate ::
  "(nat \<Rightarrow> world) \<Rightarrow> path \<Rightarrow> nat \<Rightarrow> cleanup_candidate \<Rightarrow> run \<Rightarrow> receipt_entry \<times> run" where
  "execute_candidate ws project_dir i c s =
     (let w = ws (cx_clock s); refuse = (\<lambda>reason. (refused_with_progress c (entry_at s i) reason, look s)) in
      case cc_identity c of
        None \<Rightarrow> refuse ''managed identity is missing or malformed''
      | Some expected \<Rightarrow>
          if cc_resolver_only c then execute_resolver_only ws i c expected s
          else if cc_recovered_provenance c \<noteq> None then
            (case revalidate_recovered_residual w project_dir c of
               Inl e \<Rightarrow> refuse e
             | Inr _ \<Rightarrow> execute_destructive_actions ws project_dir i c (look s))
          else
            (case load_current_identity w c of
               Inl e \<Rightarrow> if re_status e = ReceiptRefused then refuse (refusal_reason e) else (e, look s)
             | Inr current \<Rightarrow>
                 (case or_opt (validate_identity_and_liveness w c expected current)
                         (validate_worktree w project_dir c expected) of
                    Some reason \<Rightarrow> refuse reason
                  | None \<Rightarrow> execute_destructive_actions ws project_dir i c (look s))))"

section \<open>The plan\<close>

definition in_progress_actions :: "receipt_entry \<Rightarrow> string list" where
  "in_progress_actions e = (if unfinished e then re_actions e else [])"

definition is_progress_persistence_failure :: "receipt_entry \<Rightarrow> bool" where
  "is_progress_persistence_failure e \<longleftrightarrow>
     re_status e = Failed \<and> opt_is (starts_with progress_persistence_failure) (re_reason e)"

definition normalize_remote :: "cleanup_candidate \<Rightarrow> branch_evidence \<Rightarrow> branch_evidence" where
  "normalize_remote c b =
     (if cc_delete_remote_branch c then
        (if ba_status (be_remote b) \<in> {NotRequested, ActionSkipped} then
           (case cc_branch c of Some planned \<Rightarrow> b \<lparr> be_remote := be_remote planned \<rparr> | None \<Rightarrow> b)
         else b)
      else if ba_status (be_remote b) \<in> {WouldDelete, DeletePending} then
        b \<lparr> be_remote := \<lparr> ba_status = ActionSkipped, ba_reason = Some ''remote deletion requires explicit opt-in'' \<rparr> \<rparr>
      else b)"

definition normalize_local :: "cleanup_candidate \<Rightarrow> branch_evidence \<Rightarrow> branch_evidence" where
  "normalize_local c b =
     (if cc_preserve_unique_commits c then
        (if ba_status (be_local b) \<in> {WouldDelete, DeletePending} then
           b \<lparr> be_local := (case cc_branch c of
                None \<Rightarrow> \<lparr> ba_status = ActionSkipped,
                          ba_reason = Some ''unique commits preserved by explicit operator request'' \<rparr>
              | Some planned \<Rightarrow> be_local planned) \<rparr>
         else b)
      else if ba_status (be_local b) = ActionSkipped then
        (case cc_branch c of Some planned \<Rightarrow> b \<lparr> be_local := be_local planned \<rparr> | None \<Rightarrow> b)
      else b)"

definition start_entry :: "cleanup_candidate \<Rightarrow> receipt_entry \<Rightarrow> receipt_entry" where
  "start_entry c previous =
     (make_receipt_entry c InProgress (in_progress_actions previous) None)
       \<lparr> re_identity_snapshot := or_opt (re_identity_snapshot previous) (cc_identity c),
         re_branch := map_option (\<lambda>b. normalize_remote c (normalize_local c b))
           (or_opt (re_branch previous) (cc_branch c)),
         re_codex_trust := re_codex_trust previous \<rparr>"

definition execute_one ::
  "(nat \<Rightarrow> world) \<Rightarrow> path \<Rightarrow> nat \<Rightarrow> cleanup_candidate \<Rightarrow> run \<Rightarrow> (string + unit) \<times> run" where
  "execute_one ws project_dir i c s =
     (if \<not> is_cleanable (cc_decision c) then
        (Inr (), put_entry i (refused_with_progress c (entry_at s i)
           (case decision_reason (cc_decision c) of Some r \<Rightarrow> r | None \<Rightarrow> ''cleanup was refused'')) s)
      else if re_status (entry_at s i) = Cleaned then (Inr (), s)
      else
        case persist_receipt ws (put_entry i (start_entry c (entry_at s i)) s) of
          (Inl e, s1) \<Rightarrow> (Inl e, s1)
        | (Inr _, s1) \<Rightarrow>
            (let (e, s2) = execute_candidate ws project_dir i c s1; s3 = put_entry i e s2 in
             if is_progress_persistence_failure e
             then (Inl (case re_reason e of Some r \<Rightarrow> r | None \<Rightarrow> progress_persistence_failure), s3)
             else persist_receipt ws s3))"

fun execute_from ::
  "(nat \<Rightarrow> world) \<Rightarrow> path \<Rightarrow> nat \<Rightarrow> cleanup_candidate list \<Rightarrow> run \<Rightarrow> (string + unit) \<times> run" where
  "execute_from ws project_dir i [] s = (Inr (), s)"
| "execute_from ws project_dir i (c # cs) s =
     (case execute_one ws project_dir i c s of
        (Inl e, s1) \<Rightarrow> (Inl e, s1)
      | (Inr _, s1) \<Rightarrow> execute_from ws project_dir (Suc i) cs s1)"

definition execute_plan :: "(nat \<Rightarrow> world) \<Rightarrow> cleanup_plan \<Rightarrow> run \<Rightarrow> (string + unit) \<times> run" where
  "execute_plan ws plan s = execute_from ws (pl_project_dir plan) 0 (pl_candidates plan) s"

text \<open>What \<^verbatim>\<open>apply\<close> does with a plan while it holds the cleanup lock; \<open>t\<close> is the time at
  its end.\<close>

definition apply_plan ::
  "(nat \<Rightarrow> world) \<Rightarrow> cleanup_receipt list \<Rightarrow> string \<Rightarrow> cleanup_plan \<Rightarrow> string option \<Rightarrow> nat \<Rightarrow> nat
     \<Rightarrow> (string + cleanup_receipt) \<times> run" where
  "apply_plan ws receipts operation_id plan target started_at t =
     (let r0 = resume_or_create_receipt (ws 0) receipts operation_id plan target started_at;
          s0 = \<lparr> cx_receipt = r0, cx_trace = [], cx_clock = 1 \<rparr>
      in case persist_receipt ws s0 of
           (Inl e, s1) \<Rightarrow> (Inl e, s1)
         | (Inr _, s1) \<Rightarrow>
             (case execute_plan ws plan s1 of
                (Inl e, s2) \<Rightarrow> (Inl e, s2)
              | (Inr _, s2) \<Rightarrow>
                  (let s3 = s2 \<lparr> cx_receipt := cx_receipt s2 \<lparr> rc_finished_at := t \<rparr> \<rparr>;
                       (p, s4) = persist_receipt ws s3
                   in (bindR p (\<lambda>_. Inr (cx_receipt s3)), s4))))"

end
