(* ===== verification/Cleanup_Journal.thy ===== *)
theory Cleanup_Journal
  imports Cleanup_Actions
begin

text \<open>
  The discipline of a cleanup run: what is on disk when something is destroyed, and in which
  order. A trace is \<^emph>\<open>write-ahead\<close> when every action finds the entry of its candidate in
  progress in the receipt last persisted, with the pending mark of the action where it has one;
  \<open>stage\<close> numbers the actions of a candidate in their order.
\<close>

section \<open>Traces\<close>

fun durable_step :: "cleanup_receipt option \<Rightarrow> effect \<Rightarrow> cleanup_receipt option" where
  "durable_step d (Persist r True) = Some r"
| "durable_step d _ = d"

definition durable :: "effect list \<Rightarrow> cleanup_receipt option" where
  "durable tr = foldl durable_step None tr"

fun marked_pending :: "receipt_entry \<Rightarrow> action \<Rightarrow> bool" where
  "marked_pending e (DeleteRemoteBranch _ _ _) \<longleftrightarrow>
     remote_status e = Some DeletePending \<and> pending_action_name False \<in> set (re_actions e)"
| "marked_pending e (DeleteLocalBranch _ _) \<longleftrightarrow>
     local_status e = Some DeletePending \<and> pending_action_name True \<in> set (re_actions e)"
| "marked_pending e (ReleaseTrust claims) \<longleftrightarrow> re_codex_trust e = Some claims"
| "marked_pending e (Deregister _) \<longleftrightarrow> deregister_pending \<in> set (re_actions e)"
| "marked_pending e _ \<longleftrightarrow> True"

definition journaled :: "cleanup_receipt option \<Rightarrow> nat \<Rightarrow> action \<Rightarrow> bool" where
  "journaled d i a =
     opt_is (\<lambda>r. i < length (rc_entries r) \<and> re_status (rc_entries r ! i) = InProgress
        \<and> marked_pending (rc_entries r ! i) a) d"

fun effect_journaled :: "cleanup_receipt option \<Rightarrow> effect \<Rightarrow> bool" where
  "effect_journaled d (Persist _ _) = True"
| "effect_journaled d (Act i a _) = journaled d i a"

fun write_ahead_from :: "cleanup_receipt option \<Rightarrow> effect list \<Rightarrow> bool" where
  "write_ahead_from d [] = True"
| "write_ahead_from d (e # es) \<longleftrightarrow> effect_journaled d e \<and> write_ahead_from (durable_step d e) es"

definition write_ahead :: "effect list \<Rightarrow> bool" where
  "write_ahead tr = write_ahead_from None tr"

fun persist_failed :: "effect \<Rightarrow> bool" where
  "persist_failed (Persist _ ok) = (\<not> ok)"
| "persist_failed (Act _ _ _) = False"

definition no_failed :: "effect list \<Rightarrow> bool" where
  "no_failed tr = (\<not> list_ex persist_failed tr)"

fun stage :: "action \<Rightarrow> nat" where
  "stage (DeleteRemoteBranch _ _ _) = 0"
| "stage (RemoveWorktree _) = 1"
| "stage (RemoveResidual _) = 1"
| "stage (DeleteLocalBranch _ _) = 2"
| "stage (RemoveAgentDir _) = 3"
| "stage (ReleaseTrust _) = 4"
| "stage (RemoveRegistrations _) = 5"
| "stage (Deregister _) = 6"

fun stage_of :: "nat \<Rightarrow> effect \<Rightarrow> nat option" where
  "stage_of i (Act j a _) = (if i = j then Some (stage a) else None)"
| "stage_of i (Persist _ _) = None"

definition stages :: "nat \<Rightarrow> effect list \<Rightarrow> nat list" where
  "stages i tr = List.map_filter (stage_of i) tr"

lemma durable_snoc [simp]: "durable (tr @ [e]) = durable_step (durable tr) e"
  by (simp add: durable_def)

lemma write_ahead_from_snoc:
  "write_ahead_from d (tr @ [e]) \<longleftrightarrow> write_ahead_from d tr \<and> effect_journaled (foldl durable_step d tr) e"
  by (induction tr arbitrary: d) auto

lemma write_ahead_snoc [simp]:
  "write_ahead (tr @ [e]) \<longleftrightarrow> write_ahead tr \<and> effect_journaled (durable tr) e"
  by (simp add: write_ahead_def durable_def write_ahead_from_snoc)

lemma no_failed_snoc [simp]: "no_failed (tr @ [e]) \<longleftrightarrow> no_failed tr \<and> \<not> persist_failed e"
  by (auto simp: no_failed_def)

lemma stages_snoc [simp]:
  "stages i (tr @ [Persist r b]) = stages i tr"
  "stages i (tr @ [Act j a b]) = (if i = j then stages i tr @ [stage a] else stages i tr)"
  by (simp_all add: stages_def map_filter_simps map_filter_def)

lemma trace_Nil [simp]: "write_ahead []" "no_failed []" "stages i [] = []"
  by (simp_all add: write_ahead_def no_failed_def stages_def map_filter_simps)

section \<open>Frames\<close>

lemma run_simps [simp]:
  "cx_receipt (look s) = cx_receipt s" "cx_trace (look s) = cx_trace s"
  "entry_at (look s) i = entry_at s i"
  "cx_receipt (log_effect e s) = cx_receipt s" "cx_trace (log_effect e s) = cx_trace s @ [e]"
  "entry_at (log_effect e s) i = entry_at s i"
  "cx_trace (put_entry i en s) = cx_trace s"
  "length (rc_entries (cx_receipt (put_entry i en s))) = length (rc_entries (cx_receipt s))"
  by (simp_all add: look_def log_effect_def put_entry_def entry_at_def)

lemma entry_at_put [simp]:
  "i < length (rc_entries (cx_receipt s)) \<Longrightarrow> entry_at (put_entry i e s) i = e"
  by (simp add: entry_at_def put_entry_def)

lemma make_receipt_entry_simps [simp]:
  "re_status (make_receipt_entry c st as rs) = st" "re_actions (make_receipt_entry c st as rs) = as"
  "re_reason (make_receipt_entry c st as rs) = rs" "re_branch (make_receipt_entry c st as rs) = cc_branch c"
  "re_codex_trust (make_receipt_entry c st as rs) = None"
  by (simp_all add: make_receipt_entry_def)

lemma progress_entry_simps [simp]:
  "re_status (progress_entry c p as) = InProgress" "re_actions (progress_entry c p as) = as"
  "re_branch (progress_entry c p as) = or_opt (re_branch p) (cc_branch c)"
  "re_codex_trust (progress_entry c p as) = re_codex_trust p"
  by (simp_all add: progress_entry_def)

section \<open>The journal of a candidate\<close>

text \<open>\<open>base U n i k s\<close>: so far the run is write-ahead, no receipt failed to reach the disk, every
  candidate's actions are in order, those of candidate \<open>i\<close> are of stages below \<open>k\<close>, and no later
  candidate has any, nor one of \<open>U\<close>; the receipt has \<open>n\<close> entries. In \<open>journal U n i k s\<close> the receipt in memory is
  also the one on disk and has the entry in progress.\<close>

definition in_order :: "(nat \<Rightarrow> bool) \<Rightarrow> nat \<Rightarrow> nat \<Rightarrow> effect list \<Rightarrow> bool" where
  "in_order U i k tr \<longleftrightarrow>
     \<not> U i \<and> (\<forall>j. U j \<longrightarrow> stages j tr = [])
     \<and> (\<forall>j. sorted_wrt (<) (stages j tr)) \<and> (\<forall>x \<in> set (stages i tr). x < k) \<and> (\<forall>j > i. stages j tr = [])"

definition base :: "(nat \<Rightarrow> bool) \<Rightarrow> nat \<Rightarrow> nat \<Rightarrow> nat \<Rightarrow> run \<Rightarrow> bool" where
  "base U n i k s \<longleftrightarrow>
     write_ahead (cx_trace s) \<and> no_failed (cx_trace s) \<and> in_order U i k (cx_trace s)
     \<and> length (rc_entries (cx_receipt s)) = n \<and> i < n"

definition journal :: "(nat \<Rightarrow> bool) \<Rightarrow> nat \<Rightarrow> nat \<Rightarrow> nat \<Rightarrow> run \<Rightarrow> bool" where
  "journal U n i k s \<longleftrightarrow>
     base U n i k s \<and> durable (cx_trace s) = Some (cx_receipt s) \<and> re_status (entry_at s i) = InProgress"

text \<open>What a candidate that ends with an entry leaves behind: the last receipt may not have
  reached the disk, and then the entry says so.\<close>

definition ended :: "(nat \<Rightarrow> bool) \<Rightarrow> nat \<Rightarrow> nat \<Rightarrow> receipt_entry \<Rightarrow> run \<Rightarrow> bool" where
  "ended U n i e s \<longleftrightarrow>
     write_ahead (cx_trace s) \<and> in_order U i 7 (cx_trace s)
     \<and> length (rc_entries (cx_receipt s)) = n \<and> i < n \<and> no_failed (butlast (cx_trace s))
     \<and> (no_failed (cx_trace s) \<or> is_progress_persistence_failure e)"

definition journal_outcome :: "(nat \<Rightarrow> bool) \<Rightarrow> nat \<Rightarrow> nat \<Rightarrow> nat \<Rightarrow> receipt_entry option \<Rightarrow> run \<Rightarrow> bool" where
  "journal_outcome U n i k r s = (case r of None \<Rightarrow> journal U n i k s | Some e \<Rightarrow> ended U n i e s)"

lemma in_order_mono: "in_order U i k tr \<Longrightarrow> k \<le> k' \<Longrightarrow> in_order U i k' tr"
  by (force simp: in_order_def)

lemma in_order_Persist [simp]: "in_order U i k (tr @ [Persist r b]) = in_order U i k tr"
  by (simp add: in_order_def)

lemma in_order_Act: "in_order U i k tr \<Longrightarrow> stage a = k \<Longrightarrow> in_order U i (Suc k) (tr @ [Act i a b])"
  unfolding in_order_def by (auto simp: sorted_wrt_append less_Suc_eq)

lemma no_failed_butlast: "no_failed tr \<Longrightarrow> no_failed (butlast tr)"
  by (auto simp: no_failed_def list_ex_iff dest: in_set_butlastD)

lemma base_mono: "base U n i k s \<Longrightarrow> k \<le> k' \<Longrightarrow> base U n i k' s"
  by (auto simp: base_def intro: in_order_mono)

lemma base_frame [simp]:
  "base U n i k (look s) = base U n i k s" "base U n i k (put_entry j e s) = base U n i k s"
  by (simp_all add: base_def)

lemma base_index: "base U n i k s \<Longrightarrow> i < length (rc_entries (cx_receipt s))"
  by (simp add: base_def)

lemma journalD:
  assumes "journal U n i k s"
  shows "base U n i k s" "i < length (rc_entries (cx_receipt s))" "re_status (entry_at s i) = InProgress"
    "durable (cx_trace s) = Some (cx_receipt s)"
  using assms by (simp_all add: journal_def base_def)

lemma journal_mono: "journal U n i k s \<Longrightarrow> k \<le> k' \<Longrightarrow> journal U n i k' s"
  by (auto simp: journal_def intro: base_mono)

lemma journal_look [simp]: "journal U n i k (look s) = journal U n i k s"
  by (simp add: journal_def)

lemma base_ended: "base U n i k s \<Longrightarrow> k \<le> 7 \<Longrightarrow> ended U n i e s"
  by (auto simp: base_def ended_def no_failed_butlast intro: in_order_mono)

lemma journal_outcome_mono: "journal_outcome U n i k r s \<Longrightarrow> k \<le> k' \<Longrightarrow> journal_outcome U n i k' r s"
  by (auto simp: journal_outcome_def intro: journal_mono split: option.splits)

text \<open>An action of the next stage that the receipt on disk announces.\<close>

lemma journal_act:
  assumes "journal U n i k s" and "stage a = k" and "marked_pending (entry_at s i) a"
  shows "journal U n i (Suc k) (log_effect (Act i a b) s)"
  using assms by (auto simp: journal_def base_def journaled_def entry_at_def in_order_Act)

text \<open>Recording progress either makes the receipt durable or ends the candidate.\<close>

lemma persist_receipt_journal:
  assumes "base U n i k s" and "re_status (entry_at s i) = InProgress" and "k \<le> 7"
    and "persist_receipt ws s = (r, s')"
  shows "(\<exists>u. r = Inr u \<and> journal U n i k s' \<and> entry_at s' i = entry_at s i)
       \<or> (\<exists>e. r = Inl e \<and> write_ahead (cx_trace s') \<and> in_order U i 7 (cx_trace s')
            \<and> length (rc_entries (cx_receipt s')) = n \<and> i < n \<and> no_failed (butlast (cx_trace s'))
            \<and> entry_at s' i = entry_at s i)"
  using assms
  by (cases r) (auto simp: persist_receipt_def Let_def journal_def base_def intro: in_order_mono)

lemma record_progress_journal:
  assumes "base U n i k s" and "k \<le> 7" and "record_progress ws i c as s = (r, s')"
  shows "(\<exists>u. r = Inr u \<and> journal U n i k s' \<and> entry_at s' i = progress_entry c (entry_at s i) as)
       \<or> (\<exists>e. r = Inl e \<and> write_ahead (cx_trace s') \<and> in_order U i 7 (cx_trace s')
            \<and> length (rc_entries (cx_receipt s')) = n \<and> i < n \<and> no_failed (butlast (cx_trace s'))
            \<and> entry_at s' i = progress_entry c (entry_at s i) as)"
  using persist_receipt_journal [of U n i k "put_entry i (progress_entry c (entry_at s i) as) s" ws r s']
    assms base_index [OF assms(1)]
  by (simp add: record_progress_def)

lemma progress_failure [simp]:
  "is_progress_persistence_failure (failed_entry c p (progress_persistence_failure @ x))"
  "is_progress_persistence_failure (failed_branch c p (progress_persistence_failure @ x))"
  by (simp_all add: is_progress_persistence_failure_def failed_entry_def failed_branch_def)

lemma persist_action_journal:
  assumes "base U n i k s" and "k \<le> 7" and "persist_action_or_failure ws i c as s = (r, s')"
  shows "journal_outcome U n i k r s' \<and> (r = None \<longrightarrow> entry_at s' i = progress_entry c (entry_at s i) as)"
proof -
  obtain p t where p: "record_progress ws i c as s = (p, t)" by force
  from record_progress_journal [OF assms(1,2) p] assms(3) show ?thesis
    by (auto simp: persist_action_or_failure_def p journal_outcome_def ended_def)
qed

lemma persist_branch_journal:
  assumes "base U n i k s" and "k \<le> 7" and "persist_branch_progress ws i c s = (r, s')"
  shows "journal_outcome U n i k r s' \<and>
    (r = None \<longrightarrow> entry_at s' i = progress_entry c (entry_at s i) (re_actions (entry_at s i)))"
proof -
  obtain p t where p: "record_progress ws i c (re_actions (entry_at s i)) s = (p, t)" by force
  from record_progress_journal [OF assms(1,2) p] assms(3) show ?thesis
    by (auto simp: persist_branch_progress_def p journal_outcome_def ended_def)
qed

end
