(* ===== verification/Cleanup_Steps.thy ===== *)
theory Cleanup_Steps
  imports Cleanup_Journal
begin

text \<open>
  Every step of a cleanup keeps the journal: given a candidate whose entry is in progress on disk
  with all actions so far below the step's stage, the step either goes on with the journal one
  stage further, or ends the candidate with an entry.
\<close>

section \<open>Branches\<close>

lemma branch_status_set [simp]:
  "remote_status (e \<lparr> re_actions := as \<rparr>) = remote_status e"
  "local_status (e \<lparr> re_actions := as \<rparr>) = local_status e"
  by (simp_all add: remote_status_def local_status_def)

lemma set_branch_pending_journal:
  assumes "journal U n i k s" and "k \<le> 7" and "set_branch_pending ws i c local s = (r, s')"
  shows "journal_outcome U n i k r s' \<and> (r = None \<longrightarrow>
    pending_action_name local \<in> set (re_actions (entry_at s' i))
    \<and> (if local then local_status (entry_at s' i) else remote_status (entry_at s' i)) = Some DeletePending)"
proof (cases "re_branch (entry_at s i)")
  case None
  with assms show ?thesis
    by (auto simp: set_branch_pending_def journal_outcome_def intro: base_ended [OF journalD(1)])
next
  case (Some b)
  let ?e = "(entry_at s i) \<lparr> re_branch := Some (set_branch_action local \<lparr> ba_status = DeletePending, ba_reason = None \<rparr> b),
                              re_actions := re_actions (entry_at s i) @ [pending_action_name local] \<rparr>"
  have ix: "i < length (rc_entries (cx_receipt s))" and b: "base U n i k (put_entry i ?e s)"
    using journalD [OF assms(1)] by simp_all
  from assms(3) Some have p: "persist_branch_progress ws i c (put_entry i ?e s) = (r, s')"
    by (simp add: set_branch_pending_def Let_def)
  from persist_branch_journal [OF b assms(2) p] ix show ?thesis
    by (auto simp: local_status_def remote_status_def set_branch_action_def)
qed

lemma finish_branch_action_journal:
  assumes "base U n i k s" and "k \<le> 7" and "finish_branch_action ws i c local st rs s = (r, s')"
  shows "journal_outcome U n i k r s'"
  using assms persist_branch_journal [of U n i k "put_entry i x s" ws c r s' for x]
  by (auto simp: finish_branch_action_def Let_def journal_outcome_def intro: base_ended
      split: option.splits)

lemma refuse_branch_ended:
  assumes "base U n i k s" and "k \<le> 7"
  shows "journal_outcome U n i k' (fst (stop_with (refuse_branch i c local rs s))) (snd (stop_with (refuse_branch i c local rs s)))"
  using assms by (auto simp: stop_with_def refuse_branch_def Let_def journal_outcome_def intro: base_ended [of _ _ _ k])

lemma refuse_branch_outcome:
  assumes "base U n i k s" and "k \<le> 7" and "stop_with (refuse_branch i c local rs s) = (r, s')"
  shows "journal_outcome U n i k' r s'"
  using refuse_branch_ended [OF assms(1,2), of k' c local rs] assms(3) by simp

lemma finish_delete_result_journal:
  assumes "journal U n i k s" and "k \<le> 7" and "finish_delete_result ws i c local d s = (r, s')"
  shows "journal_outcome U n i k r s'"
  using assms journalD(1) [OF assms(1)]
  by (cases d) (auto simp: finish_delete_result_def intro: finish_branch_action_journal refuse_branch_outcome)

lemma complete_remote_action_journal:
  assumes j: "journal U n i 0 s"
    and pend: "pending_action_name False \<in> set (re_actions (entry_at s i))"
      "remote_status (entry_at s i) = Some DeletePending"
    and run: "complete_remote_action ws project_dir i c expected prepared s = (r, s')"
  shows "journal_outcome U n i 1 r s'"
proof -
  note b = journalD(1) [OF j]
  have b': "base U n i 0 (look s)" using b by simp
  show ?thesis
  proof (cases "\<exists>rb u. prepared = Inr (BranchPresent rb)
      \<and> revalidate_liveness_and_worktree (ws (cx_clock s)) project_dir c = Inr u")
    case True
    then obtain rb u where present: "prepared = Inr (BranchPresent rb)"
      "revalidate_liveness_and_worktree (ws (cx_clock s)) project_dir c = Inr u" by blast
    then obtain a ok d where a: "a = DeleteRemoteBranch (rid_remote_name (rb_repository rb)) (rb_branch rb) expected"
      and fin: "finish_delete_result ws i c False d (log_effect (Act i a ok) (look s)) = (r, s')"
      using run by (simp add: complete_remote_action_def Let_def)
    have "journal U n i (Suc 0) (log_effect (Act i a ok) (look s))"
      by (rule journal_act) (use j pend a in auto)
    with fin show ?thesis by (auto intro: finish_delete_result_journal)
  next
    case False
    with run show ?thesis
      by (auto simp: complete_remote_action_def Let_def split: sum.splits branch_deletion.splits
          intro: refuse_branch_outcome [OF b] refuse_branch_outcome [OF b'])
  qed
qed

lemma execute_remote_branch_action_journal:
  assumes j: "journal U n i 0 s" and run: "execute_remote_branch_action ws project_dir i c s = (r, s')"
  shows "journal_outcome U n i 1 r s'"
proof -
  note b = journalD(1) [OF j]
  have b': "base U n i 0 (look s)" using b by simp
  have skip: "journal_outcome U n i 1 None (look s)" "journal_outcome U n i 1 None s"
    using j by (auto simp: journal_outcome_def intro: journal_mono)
  obtain p t where p: "set_branch_pending ws i c False s = (p, t)" by force
  note pend = set_branch_pending_journal [OF j _ p, simplified]
  have "p = None \<Longrightarrow> complete_remote_action ws project_dir i c expected d (look t) = (r, s') \<Longrightarrow> journal_outcome U n i 1 r s'"
    for expected d
    by (rule complete_remote_action_journal [of U n i "look t"]) (use pend in \<open>auto simp: journal_outcome_def\<close>)
  moreover have "p = Some e \<Longrightarrow> journal_outcome U n i 1 (Some e) t" for e
    using pend by (simp add: journal_outcome_def)
  ultimately show ?thesis
    using run skip
    by (auto simp: execute_remote_branch_action_def p split: if_splits sum.splits option.splits
        intro: refuse_branch_outcome [OF b] refuse_branch_outcome [OF b'])
qed

lemma complete_local_action_journal:
  assumes j: "journal U n i 2 s"
    and pend: "pending_action_name True \<in> set (re_actions (entry_at s i))"
      "local_status (entry_at s i) = Some DeletePending"
    and run: "complete_local_action ws project_dir i c expected prepared s = (r, s')"
  shows "journal_outcome U n i 3 r s'"
proof (cases "\<exists>rb. prepared = Inr (BranchPresent rb)")
  case True
  then obtain rb where "prepared = Inr (BranchPresent rb)" by blast
  then obtain a ok d where a: "a = DeleteLocalBranch (rb_branch rb) expected"
    and fin: "finish_delete_result ws i c True d (log_effect (Act i a ok) s) = (r, s')"
    using run by (simp add: complete_local_action_def Let_def)
  have "journal U n i (Suc 2) (log_effect (Act i a ok) s)"
    by (rule journal_act) (use j pend a in auto)
  with fin show ?thesis by (auto intro: finish_delete_result_journal)
next
  case False
  with run show ?thesis
    by (auto simp: complete_local_action_def finish_absent_branch_def split: sum.splits branch_deletion.splits
        intro: refuse_branch_outcome [OF journalD(1) [OF j]]
          journal_outcome_mono [OF finish_branch_action_journal [OF journalD(1) [OF j]]])
qed

lemma execute_local_branch_action_journal:
  assumes j: "journal U n i 2 s" and run: "execute_local_branch_action ws project_dir i c s = (r, s')"
  shows "journal_outcome U n i 3 r s'"
proof -
  have b': "base U n i 2 (look s)" using journalD(1) [OF j] by simp
  have skip: "journal_outcome U n i 3 None s"
    using j by (auto simp: journal_outcome_def intro: journal_mono)
  obtain p t where p: "set_branch_pending ws i c True (look s) = (p, t)" by force
  note pend = set_branch_pending_journal [of U n i 2 "look s", OF _ _ p, simplified, OF j]
  have "p = None \<Longrightarrow> complete_local_action ws project_dir i c expected d (look t) = (r, s') \<Longrightarrow> journal_outcome U n i 3 r s'"
    for expected d
    by (rule complete_local_action_journal [of U n i "look t"]) (use pend in \<open>auto simp: journal_outcome_def\<close>)
  moreover have "p = Some e \<Longrightarrow> journal_outcome U n i 3 (Some e) t" for e
    using pend by (simp add: journal_outcome_def)
  moreover have "finish_absent_branch ws i c True (look s) = (r, s') \<Longrightarrow> journal_outcome U n i 3 r s'"
    using journal_outcome_mono [OF finish_branch_action_journal [OF b'], of ws c True AlreadyAbsent _ r s' 3]
    by (simp add: finish_absent_branch_def)
  ultimately show ?thesis
    using run skip
    by (auto simp: execute_local_branch_action_def p split: if_splits option.splits
        intro: refuse_branch_outcome [OF b'])
qed

section \<open>The other steps\<close>

definition step_outcome :: "(nat \<Rightarrow> bool) \<Rightarrow> nat \<Rightarrow> nat \<Rightarrow> nat \<Rightarrow> step_result \<Rightarrow> bool" where
  "step_outcome U n i k r = journal_outcome U n i k (fst r) (snd (snd r))"

lemma step_outcome_mono: "step_outcome U n i k r \<Longrightarrow> k \<le> k' \<Longrightarrow> step_outcome U n i k' r"
  by (auto simp: step_outcome_def intro: journal_outcome_mono)

lemma persist_step_journal:
  assumes "base U n i k s" and "k \<le> 7"
  shows "step_outcome U n i k (persist_step ws i c as s)"
    and "persist_step ws i c as s = (None, as', s') \<Longrightarrow>
           as' = as \<and> journal U n i k s' \<and> entry_at s' i = progress_entry c (entry_at s i) as"
  using persist_action_journal [OF assms, of ws c as]
  by (auto simp: persist_step_def step_outcome_def journal_outcome_def split: prod.splits)

lemma fail_step_ended: "base U n i k s \<Longrightarrow> k \<le> 7 \<Longrightarrow> step_outcome U n i k' (fail_step i c as rs s)"
  by (auto simp: fail_step_def step_outcome_def journal_outcome_def intro: base_ended)

lemma step_done: "journal U n i k s \<Longrightarrow> k \<le> k' \<Longrightarrow> step_outcome U n i k' (None, as, s)"
  by (auto simp: step_outcome_def journal_outcome_def intro: journal_mono)

lemma remove_worktree_journal:
  assumes j: "journal U n i 1 s"
  shows "step_outcome U n i 2 (remove_worktree ws project_dir i c as s)"
proof (cases "cc_worktree_path c")
  case None
  with j show ?thesis by (auto simp: remove_worktree_def intro: step_done)
next
  case (Some wt)
  note b = journalD(1) [OF j]
  have act: "base U n i 2 (log_effect (Act i a ok) (look s))" "base U n i 2 (log_effect (Act i a ok) (look (look s)))"
    if "a = RemoveWorktree wt \<or> a = RemoveResidual wt" for a ok
    using journalD(1) [OF journal_act [of U n i 1 "look s" a ok]] journalD(1) [OF journal_act [of U n i 1 "look (look s)" a ok]]
      j that by (auto simp: numeral_2_eq_2)
  show ?thesis
    using act b Some
    by (auto simp: remove_worktree_def Let_def split: sum.splits
        intro: persist_step_journal(1) step_outcome_mono [OF persist_step_journal(1) [of U n i 1]]
          fail_step_ended [of U n i 1] fail_step_ended [of U n i 2])
qed

lemma remove_agent_directory_journal:
  assumes j: "journal U n i 3 s"
  shows "step_outcome U n i 4 (remove_agent_directory ws i c as s)"
proof -
  have "base U n i 4 (log_effect (Act i (RemoveAgentDir (cc_agent_dir c)) ok) s)" for ok
    using journalD(1) [OF journal_act [of U n i 3 s "RemoveAgentDir (cc_agent_dir c)" ok]] j by simp
  then show ?thesis
    by (auto simp: remove_agent_directory_def Let_def split: sum.splits io_failure.splits
        intro: persist_step_journal(1) fail_step_ended [of U n i 4])
qed

lemma release_codex_trust_journal:
  assumes j: "journal U n i 4 s"
  shows "step_outcome U n i 5 (release_codex_trust ws i c as s)"
    and "release_codex_trust ws i c as s = (None, as', s') \<Longrightarrow> entry_at s' i = entry_at s i \<and> set as \<subseteq> set as'"
proof -
  have act: "journal U n i 5 (log_effect (Act i (ReleaseTrust cs) ok) s)" if "re_codex_trust (entry_at s i) = Some cs" for cs ok
    using journal_act [of U n i 4 s "ReleaseTrust cs" ok] j that by simp
  moreover have "journal U n i 5 s" using j by (rule journal_mono) simp
  moreover have "step_outcome U n i 5 (fail_step i c xs rs (put_entry i en (log_effect (Act i (ReleaseTrust cs) ok) s)))"
    if "re_codex_trust (entry_at s i) = Some cs" for xs rs en cs ok
    using journalD(1) [OF act [OF that, of ok]] by (intro fail_step_ended [of U n i 5]) simp_all
  ultimately show "step_outcome U n i 5 (release_codex_trust ws i c as s)"
    by (auto simp: release_codex_trust_def Let_def split: option.splits list.splits intro: step_done)
  show "release_codex_trust ws i c as s = (None, as', s') \<Longrightarrow> entry_at s' i = entry_at s i \<and> set as \<subseteq> set as'"
    by (auto simp: release_codex_trust_def Let_def fail_step_def split: option.splits list.splits if_splits)
qed

lemma cleanup_ephemeral_registrations_journal:
  assumes j: "journal U n i 5 s"
  shows "step_outcome U n i 6 (cleanup_ephemeral_registrations ws i c as s)"
    and "cleanup_ephemeral_registrations ws i c as s = (None, as', s') \<Longrightarrow>
           set as \<subseteq> set as' \<and> (entry_at s' i = entry_at s i \<or> re_actions (entry_at s' i) = as')"
proof -
  have act: "base U n i 6 (log_effect (Act i (RemoveRegistrations idr) ok) s)" for idr ok
    using journalD(1) [OF journal_act [of U n i 5 s "RemoveRegistrations idr" ok]] j by simp
  from j have "journal U n i 6 s" by (rule journal_mono) simp
  with act show "step_outcome U n i 6 (cleanup_ephemeral_registrations ws i c as s)"
    by (auto simp: cleanup_ephemeral_registrations_def Let_def split: option.splits sum.splits
        intro: step_done persist_step_journal(1) fail_step_ended [of U n i 6])
  show "cleanup_ephemeral_registrations ws i c as s = (None, as', s') \<Longrightarrow>
          set as \<subseteq> set as' \<and> (entry_at s' i = entry_at s i \<or> re_actions (entry_at s' i) = as')"
    using persist_step_journal(2) [OF act]
    by (fastforce simp: cleanup_ephemeral_registrations_def Let_def fail_step_def split: option.splits sum.splits)
qed

lemma deregister_now_journal:
  assumes "journal U n i 6 s" and "deregister_pending \<in> set (re_actions (entry_at s i))"
  shows "step_outcome U n i 7 (deregister_now ws i c name as s)"
proof -
  have "journal U n i 7 (log_effect (Act i (Deregister name) ok) s)" for ok
    using journal_act [of U n i 6 s "Deregister name" ok] assms by simp
  then show ?thesis
    by (auto simp: deregister_now_def Let_def split: sum.splits
        intro: step_done fail_step_ended [of U n i 7] dest: journalD(1))
qed

lemma deregister_identity_journal:
  assumes j: "journal U n i 6 s"
  shows "step_outcome U n i 7 (deregister_identity ws i c as s)"
proof (cases "cc_agent_name c = []")
  case True
  with journalD(1) [OF j] show ?thesis by (auto simp: deregister_identity_def intro: fail_step_ended)
next
  case False
  obtain r1 as1 s1 where p: "persist_step ws i c (push_absent deregister_pending as) s = (r1, as1, s1)"
    by (metis prod_cases3)
  obtain r2 as2 s2 where d: "deregister_now ws i c (cc_agent_name c) as1 s1 = (r2, as2, s2)"
    by (metis prod_cases3)
  show ?thesis
  proof (cases r1)
    case None
    with persist_step_journal(2) [OF journalD(1) [OF j]] p
    have "journal U n i 6 s1" "deregister_pending \<in> set (re_actions (entry_at s1 i))"
      by (auto simp: push_absent_def)
    from deregister_now_journal [OF this, of ws c "cc_agent_name c" as1]
    have "step_outcome U n i 7 (r2, as2, s2)" by (simp add: d)
    moreover from this have "r2 = None \<Longrightarrow> base U n i 7 s2"
      by (auto simp: step_outcome_def journal_outcome_def dest: journalD(1))
    ultimately show ?thesis
      using False p d None
      by (auto simp: deregister_identity_def intro: persist_step_journal(1) split: option.splits)
  next
    case (Some e)
    with persist_step_journal(1) [OF journalD(1) [OF j], of ws c "push_absent deregister_pending as"] p False
    show ?thesis by (auto simp: deregister_identity_def intro: step_outcome_mono)
  qed
qed

end
