(* ===== verification/Cleanup_Discipline.thy ===== *)
theory Cleanup_Discipline
  imports Cleanup_Steps
begin

text \<open>
  The journal through a candidate, a plan and an apply, and the theorem on the trace of a whole
  apply.
\<close>

section \<open>A candidate\<close>

definition ended_by :: "(nat \<Rightarrow> bool) \<Rightarrow> nat \<Rightarrow> nat \<Rightarrow> receipt_entry \<times> run \<Rightarrow> bool" where
  "ended_by U n i p = ended U n i (fst p) (snd p)"

lemma then_step_ended:
  assumes "step_outcome U n i k r"
    and "\<And>as s. r = (None, as, s) \<Longrightarrow> journal U n i k s \<Longrightarrow> ended_by U n i (f as s)"
  shows "ended_by U n i (then_step r f)"
  using assms by (cases r; cases "fst r") (auto simp: then_step_def step_outcome_def journal_outcome_def ended_by_def)

lemma journal_ended_by: "journal U n i k s \<Longrightarrow> k \<le> 7 \<Longrightarrow> ended_by U n i (e, s)"
  by (simp add: ended_by_def base_ended [OF journalD(1)])

lemma branch_step_journal:
  assumes "\<And>r s'. x = (r, s') \<Longrightarrow> journal_outcome U n i k r s'"
  shows "step_outcome U n i k (branch_step i x)"
  using assms by (cases x) (auto simp: branch_step_def step_outcome_def)

lemma claim_codex_trust_base:
  "base U n i k s \<Longrightarrow> claim_codex_trust ws i c as s = (as', s') \<Longrightarrow> base U n i k s'"
  by (auto simp: claim_codex_trust_def Let_def split: sum.splits list.splits)

lemma execute_destructive_actions_ended:
  assumes "base U n i 0 s"
  shows "ended_by U n i (execute_destructive_actions ws project_dir i c s)"
proof -
  obtain a0 s0 where cl: "claim_codex_trust ws i c (authorization_actions c (re_actions (entry_at s i))) s = (a0, s0)"
    by force
  note b = claim_codex_trust_base [OF assms cl]
  show ?thesis
    unfolding execute_destructive_actions_def cl Let_def prod.case
    apply (rule then_step_ended [OF persist_step_journal(1) [OF b]], simp)
    apply (rule then_step_ended [OF branch_step_journal], erule (1) execute_remote_branch_action_journal)
    apply (rule then_step_ended [OF remove_worktree_journal], assumption)
    apply (rule then_step_ended [OF branch_step_journal], erule (1) execute_local_branch_action_journal)
    apply (rule then_step_ended [OF remove_agent_directory_journal], assumption)
    apply (rule then_step_ended [OF release_codex_trust_journal(1)], assumption)
    apply (rule then_step_ended [OF cleanup_ephemeral_registrations_journal(1)], assumption)
    apply (rule then_step_ended [OF deregister_identity_journal], assumption)
    apply (erule journal_ended_by, simp)
    done
qed

lemma deregister_steps_ended:
  assumes j: "journal U n i 5 s" and "deregister_pending \<in> set as" "deregister_pending \<in> set (re_actions (entry_at s i))"
  shows "ended_by U n i (then_step (cleanup_ephemeral_registrations ws i c as s) (\<lambda>actions s3.
           then_step (deregister_now ws i c name actions s3) (\<lambda>actions s4. (g actions s4, s4))))"
proof (rule then_step_ended [OF cleanup_ephemeral_registrations_journal(1) [OF j]])
  fix as' s'
  assume "cleanup_ephemeral_registrations ws i c as s = (None, as', s')" and j': "journal U n i 6 s'"
  with cleanup_ephemeral_registrations_journal(2) [OF j] assms(2,3)
  have "deregister_pending \<in> set (re_actions (entry_at s' i))" by force
  from deregister_now_journal [OF j' this]
  show "ended_by U n i (then_step (deregister_now ws i c name as' s') (\<lambda>actions s4. (g actions s4, s4)))"
    by (rule then_step_ended) (erule journal_ended_by, simp)
qed

lemma resolver_only_steps_ended:
  assumes b: "base U n i 0 s" and pend: "deregister_pending \<in> set as"
  shows "ended_by U n i (then_step (persist_step ws i c as s) (\<lambda>actions s1.
           then_step (release_codex_trust ws i c actions s1) (\<lambda>actions s2.
           then_step (cleanup_ephemeral_registrations ws i c actions s2) (\<lambda>actions s3.
           then_step (deregister_now ws i c name actions s3) (\<lambda>actions s4. (g actions s4, s4))))))"
proof (rule then_step_ended [OF persist_step_journal(1) [OF base_mono [OF b, of 4]]], simp, simp)
  fix as1 s1
  assume p: "persist_step ws i c as s = (None, as1, s1)" and j1: "journal U n i 4 s1"
  from persist_step_journal(2) [OF b _ p] have e1: "as1 = as" "re_actions (entry_at s1 i) = as" by simp_all
  show "ended_by U n i (then_step (release_codex_trust ws i c as1 s1) (\<lambda>actions s2.
          then_step (cleanup_ephemeral_registrations ws i c actions s2) (\<lambda>actions s3.
          then_step (deregister_now ws i c name actions s3) (\<lambda>actions s4. (g actions s4, s4)))))"
    by (rule then_step_ended [OF release_codex_trust_journal(1) [OF j1]], rule deregister_steps_ended)
      (use e1 pend in \<open>auto dest: release_codex_trust_journal(2) [OF j1]\<close>)
qed

lemma execute_resolver_only_ended:
  assumes b: "base U n i 0 s"
  shows "ended_by U n i (execute_resolver_only ws i c expected s)"
proof -
  have "deregister_pending \<in> set (resolver_only_actions as)" for as
    by (simp add: resolver_only_actions_def push_absent_def)
  moreover have "base U n i 0 (look s)" "\<And>e. ended_by U n i (e, look s)"
    using b by (simp_all add: ended_by_def base_ended [of U n i 0])
  ultimately show ?thesis
    by (simp add: execute_resolver_only_def Let_def resolver_only_steps_ended)
qed

lemma execute_candidate_ended:
  assumes b: "base U n i 0 s"
  shows "ended_by U n i (execute_candidate ws project_dir i c s)"
proof -
  have "base U n i 0 (look s)" "\<And>e. ended_by U n i (e, look s)"
    using b by (simp_all add: ended_by_def base_ended [of U n i 0])
  with b show ?thesis
    by (simp add: execute_candidate_def Let_def execute_resolver_only_ended execute_destructive_actions_ended
        split: option.split sum.split)
qed

section \<open>A plan\<close>

definition plan_state :: "(nat \<Rightarrow> bool) \<Rightarrow> nat \<Rightarrow> nat \<Rightarrow> run \<Rightarrow> bool" where
  "plan_state U n i s \<longleftrightarrow>
     write_ahead (cx_trace s) \<and> no_failed (cx_trace s) \<and> (\<forall>j. sorted_wrt (<) (stages j (cx_trace s)))
     \<and> (\<forall>j. U j \<longrightarrow> stages j (cx_trace s) = []) \<and> (\<forall>j \<ge> i. stages j (cx_trace s) = [])
     \<and> length (rc_entries (cx_receipt s)) = n"

definition halted :: "(nat \<Rightarrow> bool) \<Rightarrow> run \<Rightarrow> bool" where
  "halted U s \<longleftrightarrow>
     write_ahead (cx_trace s) \<and> no_failed (butlast (cx_trace s))
     \<and> (\<forall>j. sorted_wrt (<) (stages j (cx_trace s))) \<and> (\<forall>j. U j \<longrightarrow> stages j (cx_trace s) = [])"

lemma plan_state_base: "plan_state U n i s \<Longrightarrow> i < n \<Longrightarrow> \<not> U i \<Longrightarrow> base U n i 0 s"
  by (auto simp: plan_state_def base_def in_order_def)

lemma plan_state_halted: "plan_state U n i s \<Longrightarrow> halted U s"
  by (simp add: plan_state_def halted_def no_failed_butlast)

lemma plan_state_Suc: "plan_state U n i s \<Longrightarrow> plan_state U n (Suc i) s"
  by (simp add: plan_state_def)

lemma plan_state_put [simp]: "plan_state U n i (put_entry j e s) = plan_state U n i s"
  by (simp add: plan_state_def)

lemma journal_plan_state: "base U n i k s \<Longrightarrow> plan_state U n (Suc i) s"
  by (auto simp: plan_state_def base_def in_order_def)

lemma ended_halted: "ended U n i e s \<Longrightarrow> halted U s"
  by (auto simp: ended_def halted_def in_order_def)

lemma halted_put [simp]: "halted U (put_entry j e s) = halted U s"
  by (simp add: halted_def)

lemma ended_plan_state: "ended U n i e s \<Longrightarrow> \<not> is_progress_persistence_failure e \<Longrightarrow> plan_state U n (Suc i) s"
  by (auto simp: ended_def plan_state_def in_order_def)

lemma persist_plan_state:
  assumes "plan_state U n i s" and "persist_receipt ws s = (r, s')"
  shows "if is_ok r then plan_state U n i s' else halted U s'"
  using assms by (cases r) (auto simp: persist_receipt_def Let_def plan_state_def halted_def)

lemma execute_one_plan_state:
  assumes st: "plan_state U n i s" and n: "i < n" and U: "U i \<Longrightarrow> \<not> is_cleanable (cc_decision c)"
    and run: "execute_one ws project_dir i c s = (r, s')"
  shows "if is_ok r then plan_state U n (Suc i) s' else halted U s'"
proof (cases "is_cleanable (cc_decision c) \<and> re_status (entry_at s i) \<noteq> Cleaned")
  case False
  with run st show ?thesis by (auto simp: execute_one_def plan_state_Suc split: if_splits)
next
  case True
  with U have nU: "\<not> U i" by blast
  let ?s = "put_entry i (start_entry c (entry_at s i)) s"
  obtain p s1 where p: "persist_receipt ws ?s = (p, s1)" by force
  have ix: "i < length (rc_entries (cx_receipt s))" using st n by (simp add: plan_state_def)
  show ?thesis
  proof (cases p)
    case (Inl e)
    with persist_plan_state [OF _ p, of U n i] st run True p show ?thesis by (auto simp: execute_one_def)
  next
    case (Inr u)
    have "base U n i 0 ?s" using plan_state_base [OF st n nU] by simp
    from persist_receipt_journal [OF this _ _ p] ix Inr have "journal U n i 0 s1"
      by (auto simp: start_entry_def)
    then have e: "ended_by U n i (execute_candidate ws project_dir i c s1)"
      by (rule execute_candidate_ended [OF journalD(1)])
    obtain en s2 where x: "execute_candidate ws project_dir i c s1 = (en, s2)" by force
    with e have "halted U s2" and "\<not> is_progress_persistence_failure en \<Longrightarrow> plan_state U n (Suc i) s2"
      by (auto simp: ended_by_def intro: ended_halted ended_plan_state)
    with run True p Inr x show ?thesis
      using persist_plan_state [of U n "Suc i" "put_entry i en s2" ws r s']
      by (auto simp: execute_one_def Let_def split: if_splits)
  qed
qed

lemma execute_from_plan_state:
  assumes "plan_state U n i s" and "i + length cs \<le> n"
    and "\<And>k. k < length cs \<Longrightarrow> U (i + k) \<Longrightarrow> \<not> is_cleanable (cc_decision (cs ! k))"
    and "execute_from ws project_dir i cs s = (r, s')"
  shows "if is_ok r then plan_state U n (i + length cs) s' else halted U s'"
  using assms
proof (induction cs arbitrary: i s)
  case (Cons c cs)
  obtain p s1 where p: "execute_one ws project_dir i c s = (p, s1)" by force
  have one: "if is_ok p then plan_state U n (Suc i) s1 else halted U s1"
    using execute_one_plan_state [OF Cons.prems(1) _ _ p] Cons.prems(2) Cons.prems(3) [of 0] by simp
  show ?case
  proof (cases p)
    case (Inr u)
    with one Cons.prems(4) p have "plan_state U n (Suc i) s1" "execute_from ws project_dir (Suc i) cs s1 = (r, s')"
      by auto
    from Cons.IH [OF this(1) _ _ this(2)] Cons.prems(2) Cons.prems(3) [of "Suc k" for k]
    show ?thesis by (auto split: if_splits)
  qed (use one Cons.prems(4) p in auto)
qed auto

section \<open>An apply\<close>

lemma resume_length: "length (pl_candidates plan) \<le> length (rc_entries (resume_or_create_receipt w receipts op plan target t))"
  by (auto simp: resume_or_create_receipt_def in_progress_receipt_def reconcile_deregistered_entries_def
      resume_receipt_def Let_def split: option.split)

lemma apply_plan_disciplined:
  fixes plan :: cleanup_plan
  assumes run: "apply_plan ws receipts op plan target t0 t = (r, s)"
  defines "U \<equiv> \<lambda>i. i < length (pl_candidates plan) \<and> \<not> is_cleanable (cc_decision (pl_candidates plan ! i))"
  shows "halted U s \<and> (is_ok r \<longrightarrow> no_failed (cx_trace s))"
proof -
  let ?s0 = "\<lparr> cx_receipt = resume_or_create_receipt (ws 0) receipts op plan target t0, cx_trace = [], cx_clock = 1 \<rparr>"
  define n where "n = length (rc_entries (cx_receipt ?s0))"
  obtain p s1 where p: "persist_receipt ws ?s0 = (p, s1)" by force
  have "plan_state U n 0 ?s0" by (simp add: plan_state_def n_def)
  from persist_plan_state [OF this p] have one: "if is_ok p then plan_state U n 0 s1 else halted U s1" .
  have len: "length (pl_candidates plan) \<le> n" using resume_length by (simp add: n_def)
  show ?thesis
  proof (cases p)
    case (Inl e)
    with run p one show ?thesis by (auto simp: apply_plan_def)
  next
    case (Inr u)
    obtain q s2 where q: "execute_plan ws plan s1 = (q, s2)" by force
    from one Inr have "plan_state U n 0 s1" by simp
    from execute_from_plan_state [OF this _ _ q [unfolded execute_plan_def]] len
    have two: "if is_ok q then plan_state U n (length (pl_candidates plan)) s2 else halted U s2"
      by (auto simp: U_def split: if_splits)
    let ?s3 = "s2 \<lparr> cx_receipt := cx_receipt s2 \<lparr> rc_finished_at := t \<rparr> \<rparr>"
    obtain v s4 where v: "persist_receipt ws ?s3 = (v, s4)" by force
    show ?thesis
    proof (cases q)
      case (Inl e)
      with run p q two \<open>p = Inr u\<close> show ?thesis by (auto simp: apply_plan_def)
    next
      case q': (Inr u')
      with two have "plan_state U n (length (pl_candidates plan)) ?s3" by (simp add: plan_state_def)
      from persist_plan_state [OF this v] have three: "if is_ok v then plan_state U n (length (pl_candidates plan)) s4 else halted U s4" .
      from run p q v q' \<open>p = Inr u\<close> have "s = s4" "is_ok r \<Longrightarrow> is_ok v"
        by (cases v; auto simp: apply_plan_def Let_def)+
      with three show ?thesis
        by (auto simp: plan_state_halted plan_state_def split: if_splits)
    qed
  qed
qed

end
