(* ===== verification/Cleanup_Demo.thy ===== *)
theory Cleanup_Demo
  imports Cleanup_Receipts
begin

text \<open>
  A concrete cleanup: one dead worktree agent whose pull request was merged, in a world that
  answers the same at every moment and in which every action succeeds.
\<close>

definition demo_sha :: string where "demo_sha = replicate 40 (CHR ''a'')"

definition demo_project :: path where "demo_project = [''/'', ''p'']"

definition demo_worktree :: path where "demo_worktree = demo_project @ [''.exo'', ''worktrees'', ''leaf'']"

definition demo_agent_dir :: path where "demo_agent_dir = demo_project @ [''.exo'', ''agents'', ''leaf'']"

definition demo_identity :: identity_record where
  "demo_identity = \<lparr> ir_agent_name = ''leaf'', ir_slug = ''leaf'', ir_agent_type = Codex,
     ir_birth_branch = ''main.leaf'', ir_parent_branch = ''main'',
     ir_working_dir = [''.exo'', ''worktrees'', ''leaf''], ir_display_name = ''leaf'',
     ir_topology = WorktreePerAgent, ir_model = None, ir_effort = None, ir_ledger_owned = False,
     ir_slice_id = None \<rparr>"

definition demo_repository :: repository_identity where
  "demo_repository = \<lparr> rid_owner = ''o'', rid_repo = ''r'', rid_base_branch = ''main'',
     rid_forge_host = ''h'', rid_remote_url = ''u'', rid_remote_name = ''origin'' \<rparr>"

definition demo_pull_request :: forgejo_pull_request where
  "demo_pull_request = \<lparr> fp_number = 7, fp_head_ref = ''main.leaf'', fp_base_ref = ''main'',
     fp_state = ''closed'', fp_merged = True, fp_head_sha = Some demo_sha,
     fp_merge_commit_sha = Some demo_sha, fp_body = '''' \<rparr>"

definition demo_claim :: captured_codex_trust where
  "demo_claim = \<lparr> ct_agent_dir = demo_worktree, ct_config_path = demo_worktree @ [''.codex'', ''config.toml''],
     ct_user_config_path = None, ct_owned_keys = [(''k'', ''h'')] \<rparr>"

definition demo_git :: "path \<Rightarrow> string list \<Rightarrow> string + git_output" where
  "demo_git dir args =
     (let answer = (\<lambda>out. Inr \<lparr> go_code = Some 0, go_stdout = out, go_stderr = '''' \<rparr>) in
      if hd args = ''branch'' then answer (if dir = demo_project then ''main'' else ''main.leaf'')
      else if hd args = ''status'' then answer ''''
      else if hd args = ''ls-remote'' then answer (demo_sha @ '' refs/heads/main.leaf'')
      else if args = [''rev-parse'', ''--show-toplevel''] then answer ''/p/.exo/worktrees/leaf''
      else answer demo_sha)"

definition demo_world :: world where
  "demo_world = \<lparr>
     w_git = demo_git,
     w_symlink_metadata = (\<lambda>_. Inr IsDir),
     w_exists = (\<lambda>p. p \<noteq> demo_agent_dir @ [''routing.json'']),
     w_is_dir = (\<lambda>_. True), w_canonicalize = Inr,
     w_read_to_string = (\<lambda>p. if p = demo_agent_dir @ [''identity.json''] then Inr ''{}'' else Inl (IoNotFound '''')),
     w_read_dir = (\<lambda>_. Inr []), w_parse_identity = (\<lambda>_. Some demo_identity),
     w_resolver_get = (\<lambda>n. if n = ''leaf'' then Some demo_identity else None),
     w_repository_identity = Inr demo_repository,
     w_pull_requests = Some (\<lambda>_ _ _. Inr [demo_pull_request]),
     w_read_invocation = (\<lambda>_. Inr None), w_read_routing = (\<lambda>_. Inr False),
     w_routing_target_alive = (\<lambda>_. Inr False), w_routing_process_alive = (\<lambda>_. Inr False),
     w_tmux_session = None, w_list_windows = Inr [],
     w_has_generated_codex_config = (\<lambda>p. p = demo_worktree),
     w_capture_codex_trust = (\<lambda>_. Inr [demo_claim]), w_release_codex_trust = (\<lambda>_. []),
     w_remove_dir_all = (\<lambda>_. Inr ()), w_remove_workspace = (\<lambda>_. Inr (Inr ())),
     w_remove_synthetic_members = (\<lambda>_. Inr ()), w_deregister = (\<lambda>_. Inr ()),
     w_persist_receipt = (\<lambda>_. Inr ()) \<rparr>"

definition demo_cleanup_request :: cleanup_request where
  "demo_cleanup_request = (cleanup_request_named ''leaf'') \<lparr> cq_apply := True \<rparr>"

definition demo_resource :: discovered_resource where
  "demo_resource = \<lparr> dr_id = ''leaf'', dr_agent_dir = demo_agent_dir, dr_worktree_path = Some demo_worktree,
     dr_identity = Some demo_identity, dr_identity_error = None, dr_resolver_only = False,
     dr_recovery_receipt = False, dr_recovered_provenance = None \<rparr>"

definition demo_target :: target_branch where
  "demo_target = \<lparr> tb_remote_name = ''origin'', tb_branch = ''main'', tb_head_sha = demo_sha \<rparr>"

definition demo_context :: inspection_context where
  "demo_context = context_for demo_cleanup_request (Some demo_repository, None) (Some demo_target, None) (Some ''main'')"

definition demo_candidate :: cleanup_candidate where
  "demo_candidate = inspect_candidate demo_world demo_project demo_resource demo_context"

definition demo_plan :: cleanup_plan where
  "demo_plan = projr (plan_cleanup (\<lambda>_. demo_world) demo_project [] ''plan'' 100 demo_cleanup_request [demo_resource])"

lemma demo_plan_made:
  "plan_cleanup (\<lambda>_. demo_world) demo_project [] ''plan'' 100 demo_cleanup_request [demo_resource] = Inr demo_plan"
proof -
  have "is_ok (validate_request demo_cleanup_request)" by code_simp
  then show ?thesis by (cases "validate_request demo_cleanup_request") (auto simp: demo_plan_def plan_cleanup_def Let_def)
qed

lemma demo_candidate_cleanable: "cc_decision demo_candidate = Cleanable" "cc_local_branch demo_candidate = Some ''main.leaf''"
  by code_simp+

lemma demo_plan_candidates: "pl_candidates demo_plan = [demo_candidate]"
proof -
  have v: "validate_request demo_cleanup_request = Inr ()"
    by code_simp
  have t: "fetch_target_branch demo_world demo_project ''origin'' ''main'' = Inr demo_target"
    and b: "current_branch demo_world demo_project = Some ''main''"
    by code_simp+
  have "requires_remote [demo_resource]" "w_repository_identity demo_world = Inr demo_repository"
    "rid_remote_name demo_repository = ''origin''" "rid_base_branch demo_repository = ''main''"
    "\<not> cq_delete_remote_branch demo_cleanup_request"
    by (simp_all add: requires_remote_def demo_resource_def demo_identity_def demo_world_def demo_repository_def
        demo_cleanup_request_def cleanup_request_named_def)
  then show ?thesis
    unfolding demo_plan_def plan_cleanup_def
    by (simp add: v t b Let_def split_result_def plan_candidates_def refuse_duplicate_branches_def branch_count_def
        refuse_unproven_absent_remote_def demo_candidate_cleanable
        flip: demo_context_def demo_candidate_def)
qed

end
