(* ===== verification/Cleanup_Properties.thy ===== *)
theory Cleanup_Properties
  imports Cleanup_Safety Cleanup_Discipline Cleanup_Demo
begin

text \<open>
  The properties of verified cleanup: what a plan lets through, how an apply proceeds, and what
  becomes of the captured trust claims.
\<close>

section \<open>The plan\<close>

lemma validate_request_overrides:
  assumes "validate_request rq = Inr u"
  shows "cq_allow_no_pr rq \<or> cq_discard_dirty rq \<or> cq_delete_remote_branch rq \<Longrightarrow> cq_target rq \<noteq> None"
    and "cq_discard_dirty rq \<Longrightarrow> cq_apply rq"
  using assms by (auto simp: validate_request_def split: if_splits)

lemma plan_cleanup_context:
  assumes "plan_cleanup ws pd receipts pid t rq resources = Inr plan"
  obtains ctx where "validate_request rq = Inr ()"
    "pl_candidates plan = plan_candidates ws pd receipts rq resources ctx"
    "ic_repository ctx = pl_repository plan" "ic_current_branch ctx = current_branch (ws 0) pd"
    "ic_delete_remote_branch ctx = cq_delete_remote_branch rq" "ic_allow_no_pr ctx = cq_allow_no_pr rq"
    "ic_discard_dirty ctx = cq_discard_dirty rq"
  using assms by (auto simp: plan_cleanup_def Let_def context_for_def)

text \<open>C38. A plan offers for cleaning only what may be cleaned: a candidate is cleanable only if its
  agent is provably dead, its identity is sound, its worktree is clean or its disposal was
  authorised by a named and applied request, its local branch is neither a default branch nor the
  current nor the base branch nor shared with another candidate, and its ownership is settled
  (\<open>owner_evidence\<close>: for a worktree agent the pull request from its branch to the base has
  landed at the heads observed, or the operator named the target and allowed that there is none).
  A remote branch that is to be deleted and is absent already has a receipt of its deletion.\<close>

theorem cleanup_plan_safe:
  assumes "plan_cleanup ws pd receipts pid t rq resources = Inr plan"
    and "c \<in> set (pl_candidates plan)" and "is_cleanable (cc_decision c)"
  shows "cc_liveness c = Dead \<and> cc_identity_error c = None \<and> owner_evidence (pl_repository plan) c
    \<and> (cc_dirty c = Some False \<or> cc_dirty c = Some True \<and> cq_discard_dirty rq \<and> cq_apply rq)
    \<and> (\<forall>b. cc_local_branch c = Some b \<longrightarrow>
         b \<notin> set default_branches \<and> current_branch (ws 0) pd \<noteq> Some b
         \<and> \<not> opt_is (\<lambda>rid. b = rid_base_branch rid) (pl_repository plan)
         \<and> branch_count (pl_candidates plan) b = 1)
    \<and> (cc_allow_no_pr c \<or> cq_discard_dirty rq \<or> cq_delete_remote_branch rq \<longrightarrow> cq_target rq \<noteq> None)
    \<and> (cq_delete_remote_branch rq \<longrightarrow>
         opt_is (\<lambda>b. ba_status (be_remote b) = AlreadyAbsent \<longrightarrow> has_prior_remote_deletion_proof receipts c)
           (cc_branch c))"
proof -
  from assms(1) obtain ctx where v: "validate_request rq = Inr ()"
    and ctx: "pl_candidates plan = plan_candidates ws pd receipts rq resources ctx"
      "ic_repository ctx = pl_repository plan" "ic_current_branch ctx = current_branch (ws 0) pd"
      "ic_delete_remote_branch ctx = cq_delete_remote_branch rq" "ic_allow_no_pr ctx = cq_allow_no_pr rq"
      "ic_discard_dirty ctx = cq_discard_dirty rq"
    by (rule plan_cleanup_context)
  from plan_candidates_cleanable [OF assms(2) [unfolded ctx(1)] assms(3) ctx(4) [symmetric]]
  have p: "sound_candidate ctx c" and u: "\<And>b. cc_local_branch c = Some b \<Longrightarrow> branch_count (pl_candidates plan) b = 1"
    and r: "\<And>b. cq_delete_remote_branch rq \<Longrightarrow> cc_branch c = Some b \<Longrightarrow> ba_status (be_remote b) = AlreadyAbsent
         \<Longrightarrow> has_prior_remote_deletion_proof receipts c"
    by (simp_all add: ctx)
  note o = validate_request_overrides [OF v]
  have "branch_unprotected ctx b" if "cc_local_branch c = Some b" for b
    using p that by (simp add: sound_candidate_def)
  moreover have "cq_delete_remote_branch rq \<Longrightarrow> cc_branch c \<noteq> None"
    using p by (simp add: sound_candidate_def ctx)
  ultimately show ?thesis
    using p o u r by (auto simp: sound_candidate_def branch_unprotected_def ctx opt_is_def split: option.split)
qed

theorem cleanup_plan_safe_witness:
  "pl_candidates demo_plan = [demo_candidate] \<and> cc_liveness demo_candidate = Dead
   \<and> owner_evidence (pl_repository demo_plan) demo_candidate
   \<and> branch_count (pl_candidates demo_plan) ''main.leaf'' = 1"
proof -
  have "demo_candidate \<in> set (pl_candidates demo_plan)" "is_cleanable (cc_decision demo_candidate)"
    by (simp_all add: demo_plan_candidates demo_candidate_cleanable is_cleanable_def)
  from cleanup_plan_safe [OF demo_plan_made this] show ?thesis
    by (simp add: demo_plan_candidates demo_candidate_cleanable)
qed

section \<open>The apply\<close>

text \<open>C39. However the world changes while a plan is applied, and wherever the apply stops: every
  destructive action finds the entry of its candidate in progress in the receipt last written to
  disk, with the mark of the pending branch deletion or deregistration or with the very claims
  that are released; nothing at all is done after a receipt failed to reach the disk; the actions
  of each candidate happen at most once each and in the order remote branch, worktree, local
  branch, agent directory, trust, registrations, identity; and nothing is done to a candidate
  that the plan refuses.\<close>

theorem cleanup_write_ahead:
  "let tr = cx_trace (snd (apply_plan ws receipts operation_id plan target started_at t)) in
     write_ahead tr \<and> no_failed (butlast tr) \<and> (\<forall>i. sorted_wrt (<) (stages i tr))
     \<and> \<not> (\<exists>i. i < length (pl_candidates plan)
           \<and> \<not> is_cleanable (cc_decision (pl_candidates plan ! i)) \<and> stages i tr \<noteq> [])"
proof -
  obtain r s where run: "apply_plan ws receipts operation_id plan target started_at t = (r, s)" by force
  from apply_plan_disciplined [OF run] show ?thesis
    by (auto simp: Let_def run halted_def)
qed

section \<open>Trust claims\<close>

text \<open>An entry that keeps the claim of the receipt, and one of the entries of a step on a branch, without
  claim.\<close>

definition claim_kept :: "nat \<Rightarrow> receipt_entry \<times> run \<Rightarrow> bool" where
  "claim_kept i p \<longleftrightarrow> re_status (fst p) \<noteq> ReceiptRefused
     \<and> re_codex_trust (fst p) = re_codex_trust (entry_at (snd p) i)"

definition claim_forgotten :: "receipt_entry \<Rightarrow> bool" where
  "claim_forgotten e \<longleftrightarrow> re_codex_trust e = None
     \<and> (re_status e = ReceiptRefused \<or> is_progress_persistence_failure e
        \<or> re_reason e = Some ''branch evidence is unavailable'')"

text \<open>The entry with which a step on a branch ends the disposal, if one of the two steps does: the steps are
  run from the very states that the disposal reaches.\<close>

definition ended_by_branch ::
  "(nat \<Rightarrow> world) \<Rightarrow> path \<Rightarrow> nat \<Rightarrow> cleanup_candidate \<Rightarrow> run \<Rightarrow> (receipt_entry \<times> run) option" where
  "ended_by_branch ws pd i c s =
     (let (actions0, s0) = claim_codex_trust ws i c (authorization_actions c (re_actions (entry_at s i))) s in
      case persist_step ws i c (remdups_adj (sort actions0)) s0 of
        (Some _, _, _) \<Rightarrow> None
      | (None, _, s1) \<Rightarrow>
          (case execute_remote_branch_action ws pd i c s1 of
             (Some e, s2) \<Rightarrow> Some (e, s2)
           | (None, s2) \<Rightarrow>
               (case remove_worktree ws pd i c (re_actions (entry_at s2 i)) s2 of
                  (Some _, _, _) \<Rightarrow> None
                | (None, _, s3) \<Rightarrow>
                    (case execute_local_branch_action ws pd i c s3 of
                       (Some e, s4) \<Rightarrow> Some (e, s4)
                     | (None, _) \<Rightarrow> None))))"

definition claim_step :: "nat \<Rightarrow> step_result \<Rightarrow> bool" where
  "claim_step i r = (case r of (Some e, _, s) \<Rightarrow> claim_kept i (e, s) | _ \<Rightarrow> True)"

lemma then_step_claim:
  assumes "claim_step i r" and "\<And>as s. claim_kept i (f as s)"
  shows "claim_kept i (then_step r f)"
  using assms by (auto simp: claim_step_def then_step_def split: prod.splits option.splits)

lemma claim_failed [simp]: "claim_kept i (failed_entry c (entry_at s i) rs, s)" "claim_kept i (cleaned_entry c (entry_at s i) as, s)"
  by (simp_all add: claim_kept_def failed_entry_def cleaned_entry_def)

lemma claim_persist_step [simp]: "claim_step i (persist_step ws i c as s)"
  by (auto simp: claim_step_def persist_step_def persist_action_or_failure_def split: prod.splits sum.splits)

lemma claim_fail_step [simp]: "claim_step i (fail_step i c as rs s)"
  by (simp add: claim_step_def fail_step_def)

lemma claim_step_None [simp]: "claim_step i (None, x)"
  by (simp add: claim_step_def)

definition forgets :: "receipt_entry option \<times> run \<Rightarrow> bool" where
  "forgets p = (case fst p of Some e \<Rightarrow> claim_forgotten e | None \<Rightarrow> True)"

lemma forgets_refuse [simp]: "forgets (stop_with (refuse_branch i c local rs s))"
  by (simp add: forgets_def stop_with_def refuse_branch_def claim_forgotten_def Let_def)

lemma forgets_None [simp]: "forgets (None, s)"
  by (simp add: forgets_def)

lemma forgets_unavailable [simp]: "forgets (Some (failed_branch c e ''branch evidence is unavailable''), s)"
  by (simp add: forgets_def claim_forgotten_def failed_branch_def)

lemma forgets_progress [simp]: "forgets (persist_branch_progress ws i c s)"
proof -
  have "claim_forgotten (failed_branch c e (progress_persistence_failure @ x))" for e x
    using progress_failure(2) [of c e x] by (simp add: claim_forgotten_def) (simp add: failed_branch_def)
  then show ?thesis by (auto simp: forgets_def persist_branch_progress_def split: prod.splits sum.splits)
qed

lemma forgets_finish [simp]:
  "completed_action_name local st \<noteq> None \<Longrightarrow> forgets (finish_branch_action ws i c local st rs s)"
  by (auto simp: finish_branch_action_def Let_def split: option.split)

lemma forgets_finish_delete [simp]: "forgets (finish_delete_result ws i c local r s)"
  by (cases local; cases r) (simp_all add: finish_delete_result_def)

lemma forgets_pending: "set_branch_pending ws i c local s = (Some e, s') \<Longrightarrow> forgets (Some e, s')"
  using forgets_progress forgets_unavailable
  by (auto simp: set_branch_pending_def Let_def split: option.splits) (metis forgets_progress)

lemma forgets_complete [simp]:
  "forgets (complete_remote_action ws pd i c x p s)" "forgets (complete_local_action ws pd i c x p s)"
  by (simp_all add: complete_remote_action_def complete_local_action_def finish_absent_branch_def Let_def
      split: sum.split branch_deletion.split)

lemma forgets_branch_actions [simp]:
  "forgets (execute_remote_branch_action ws pd i c s)" "forgets (execute_local_branch_action ws pd i c s)"
  by (auto simp: execute_remote_branch_action_def execute_local_branch_action_def finish_absent_branch_def
      split: sum.split option.split prod.split dest: forgets_pending)

lemma claim_steps [simp]:
  "claim_step i (remove_worktree ws pd i c as s)" "claim_step i (remove_agent_directory ws i c as s)"
  "claim_step i (release_codex_trust ws i c as s)" "claim_step i (cleanup_ephemeral_registrations ws i c as s)"
  "claim_step i (deregister_now ws i c n as s)"
  by (auto simp: remove_worktree_def remove_agent_directory_def release_codex_trust_def
      cleanup_ephemeral_registrations_def deregister_now_def Let_def
      split: option.split sum.split io_failure.split list.split)

lemma claim_deregister_identity [simp]: "claim_step i (deregister_identity ws i c as s)"
proof -
  have "claim_step i (Some e, a, t)" if "persist_step ws i c b s = (Some e, a, t)" for e a t b
    using claim_persist_step [of i ws c b s] that by simp
  moreover have "claim_step i (Some e, a, t)" if "deregister_now ws i c n b u = (Some e, a, t)" for e a t b u n
    using claim_steps(5) [of i ws c n b u] that by simp
  ultimately show ?thesis
    by (auto simp: deregister_identity_def split: prod.split option.split)
qed

text \<open>No step drops the claim from the receipt itself.\<close>

definition trust :: "nat \<Rightarrow> run \<Rightarrow> captured_codex_trust list option" where
  "trust i s = re_codex_trust (entry_at s i)"

lemma trust_frame [simp]: "trust i (look s) = trust i s" "trust i (log_effect e s) = trust i s"
  by (simp_all add: trust_def)

lemma trust_put: "re_codex_trust e = re_codex_trust (entry_at s i) \<Longrightarrow> trust i (put_entry i e s) = trust i s"
  by (cases "i < length (rc_entries (cx_receipt s))") (simp_all add: trust_def entry_at_def put_entry_def list_update_beyond)

lemma trust_persist [simp]:
  "trust i (snd (record_progress ws i c as s)) = trust i s"
  "trust i (snd (persist_action_or_failure ws i c as s)) = trust i s"
  "trust i (snd (persist_branch_progress ws i c s)) = trust i s"
  "trust i (snd (snd (persist_step ws i c as s))) = trust i s"
  "trust i (snd (snd (fail_step i c as rs s))) = trust i s"
proof -
  have "re_codex_trust (progress_entry c (entry_at s i) as) = re_codex_trust (entry_at s i)" for as
    by (simp add: progress_entry_def)
  then show r: "trust i (snd (record_progress ws i c as s)) = trust i s" for as
    by (simp add: record_progress_def persist_receipt_def Let_def trust_put)
  show p: "trust i (snd (persist_action_or_failure ws i c as s)) = trust i s"
    using r [of as] by (auto simp: persist_action_or_failure_def split: prod.split sum.split)
  show "trust i (snd (persist_branch_progress ws i c s)) = trust i s"
    using r [of "re_actions (entry_at s i)"] by (auto simp: persist_branch_progress_def split: prod.split sum.split)
  show "trust i (snd (snd (persist_step ws i c as s))) = trust i s"
    using p by (simp add: persist_step_def split_def Let_def)
  show "trust i (snd (snd (fail_step i c as rs s))) = trust i s" by (simp add: fail_step_def)
qed

lemma trust_branch [simp]:
  "trust i (snd (refuse_branch i c local rs s)) = trust i s"
  "trust i (snd (stop_with p)) = trust i (snd p)"
  "trust i (snd (set_branch_pending ws i c local s)) = trust i s"
  "trust i (snd (finish_branch_action ws i c local st ro s)) = trust i s"
  "trust i (snd (finish_absent_branch ws i c local s)) = trust i s"
  "trust i (snd (finish_delete_result ws i c local r s)) = trust i s"
proof -
  show f: "trust i (snd (finish_branch_action ws i c local st ro s)) = trust i s" for st ro
    by (auto simp: finish_branch_action_def Let_def trust_put split: option.split)
  show "trust i (snd (finish_absent_branch ws i c local s)) = trust i s" by (simp add: finish_absent_branch_def f)
  show r: "trust i (snd (refuse_branch i c local rs s)) = trust i s" for rs
    by (simp add: refuse_branch_def Let_def trust_put)
  then show "trust i (snd (finish_delete_result ws i c local r s)) = trust i s"
    by (auto simp: finish_delete_result_def f stop_with_def split: sum.split)
qed (auto simp: stop_with_def set_branch_pending_def Let_def trust_put split: option.split)

lemma trust_complete [simp]:
  "trust i (snd (complete_remote_action ws pd i c x p s)) = trust i s"
  "trust i (snd (complete_local_action ws pd i c x p s)) = trust i s"
  by (simp_all add: complete_remote_action_def complete_local_action_def Let_def
      split: sum.split branch_deletion.split)

lemma trust_pending: "set_branch_pending ws i c local s = (r, s') \<Longrightarrow> trust i s' = trust i s"
  by (metis snd_conv trust_branch(3))

lemma trust_branch_actions [simp]:
  "trust i (snd (execute_remote_branch_action ws pd i c s)) = trust i s"
  "trust i (snd (execute_local_branch_action ws pd i c s)) = trust i s"
  by (auto simp: execute_remote_branch_action_def execute_local_branch_action_def
      split: sum.split option.split prod.split dest: trust_pending)

lemma trust_steps [simp]:
  "trust i (snd (snd (remove_worktree ws pd i c as s))) = trust i s"
  "trust i (snd (snd (remove_agent_directory ws i c as s))) = trust i s"
  "trust i (snd (snd (release_codex_trust ws i c as s))) = trust i s"
  "trust i (snd (snd (cleanup_ephemeral_registrations ws i c as s))) = trust i s"
  "trust i (snd (snd (deregister_now ws i c n as s))) = trust i s"
  "trust i (snd (snd (branch_step i p))) = trust i (snd p)"
  by (auto simp: remove_worktree_def remove_agent_directory_def release_codex_trust_def
      cleanup_ephemeral_registrations_def deregister_now_def branch_step_def Let_def trust_put
      split: option.split sum.split io_failure.split list.split)

lemma trust_deregister [simp]: "trust i (snd (snd (deregister_identity ws i c as s))) = trust i s"
proof -
  have "trust i t = trust i s" if "persist_step ws i c b s = (r, a, t)" for r a t b s
    using trust_persist(4) [of i ws c b s] that by simp
  moreover have "trust i t = trust i u" if "deregister_now ws i c n b u = (r, a, t)" for r a t b u n
    using trust_steps(5) [of i ws c n b u] that by simp
  ultimately show ?thesis by (auto simp: deregister_identity_def split: prod.split option.split)
qed

lemma trust_then:
  assumes "trust i (snd (snd r)) = x" and "\<And>as s. trust i s = x \<Longrightarrow> trust i (snd (f as s)) = x"
  shows "trust i (snd (then_step r f)) = x"
  using assms by (auto simp: then_step_def split: prod.split option.split)

definition captured :: "(nat \<Rightarrow> world) \<Rightarrow> nat \<Rightarrow> cleanup_candidate \<Rightarrow> run \<Rightarrow> captured_codex_trust list option" where
  "captured ws i c s =
     trust i (snd (claim_codex_trust ws i c (authorization_actions c (re_actions (entry_at s i))) s))"

lemma execute_destructive_actions_trust:
  "trust i (snd (execute_destructive_actions ws pd i c s)) = captured ws i c s"
  unfolding execute_destructive_actions_def captured_def split_def Let_def
  by (intro trust_then) simp_all

lemma execute_destructive_actions_claim:
  "case ended_by_branch ws pd i c s of
     None \<Rightarrow> claim_kept i (execute_destructive_actions ws pd i c s)
   | Some p \<Rightarrow> execute_destructive_actions ws pd i c s = p \<and> claim_forgotten (fst p)"
proof -
  obtain a0 s0 where c: "claim_codex_trust ws i c (authorization_actions c (re_actions (entry_at s i))) s = (a0, s0)"
    by force
  obtain r1 a1 s1 where p: "persist_step ws i c (remdups_adj (sort a0)) s0 = (r1, a1, s1)" by (metis prod.exhaust)
  obtain r2 s2 where r: "execute_remote_branch_action ws pd i c s1 = (r2, s2)" by force
  obtain r3 a3 s3 where w: "remove_worktree ws pd i c (re_actions (entry_at s2 i)) s2 = (r3, a3, s3)" by (metis prod.exhaust)
  obtain r4 s4 where l: "execute_local_branch_action ws pd i c s3 = (r4, s4)" by force
  note unf = execute_destructive_actions_def ended_by_branch_def c
  have kept: "claim_kept i (e, t)" if "claim_step i (Some e, a, t)" for e a t
    using that by (simp add: claim_step_def)
  have forgot: "claim_forgotten e" if "forgets (Some e, t)" for e t
    using that by (simp add: forgets_def)
  show ?thesis
  proof (cases r1)
    case (Some e)
    with p kept claim_persist_step [of i ws c "remdups_adj (sort a0)" s0] show ?thesis by (auto simp: unf then_step_def)
  next
    case r1: None
    show ?thesis
    proof (cases r2)
      case (Some e)
      with r forgot forgets_branch_actions(1) [of ws pd i c s1] p r1 show ?thesis
        by (auto simp: unf then_step_def branch_step_def)
    next
      case r2: None
      show ?thesis
      proof (cases r3)
        case (Some e)
        with w kept claim_steps(1) [of i ws pd c "re_actions (entry_at s2 i)" s2] p r1 r r2 show ?thesis
          by (auto simp: unf then_step_def branch_step_def)
      next
        case r3: None
        note steps = p r1 r r2 w r3 l
        show ?thesis
        proof (cases r4)
          case (Some e)
          with l forgot forgets_branch_actions(2) [of ws pd i c s3] steps show ?thesis
            by (auto simp: unf then_step_def branch_step_def)
        next
          case None
          have "claim_kept i (then_step (remove_agent_directory ws i c as s4) (\<lambda>actions s5.
              then_step (release_codex_trust ws i c actions s5) (\<lambda>actions s6.
              then_step (cleanup_ephemeral_registrations ws i c actions s6) (\<lambda>actions s7.
              then_step (deregister_identity ws i c actions s7) (\<lambda>actions s8.
                (cleaned_entry c (entry_at s8 i) actions, s8))))))" for as
            by (intro then_step_claim claim_steps claim_deregister_identity claim_failed)
          with steps None show ?thesis by (simp add: unf then_step_def [of "(None, _, _)"] branch_step_def)
        qed
      qed
    qed
  qed
qed

text \<open>A run that loses a claim: the worktree is removed, and then the repository identity cannot be
  read when the deletion of the local branch is prepared.\<close>

definition lost_worlds :: "nat \<Rightarrow> world" where
  "lost_worlds n = demo_world \<lparr>
     w_symlink_metadata := (\<lambda>p. if 4 \<le> n \<and> p = demo_worktree then Inl (IoNotFound '''') else Inr IsDir),
     w_repository_identity := (if 4 \<le> n then Inl ''unreadable'' else Inr demo_repository) \<rparr>"

definition lost_run :: run where
  "lost_run = \<lparr> cx_receipt = in_progress_receipt ''op'' demo_plan 100, cx_trace = [], cx_clock = 0 \<rparr>"

lemma demo_candidate_fields:
  "cc_agent_dir demo_candidate = demo_agent_dir" "cc_worktree_path demo_candidate = Some demo_worktree"
  "cc_recovered_provenance demo_candidate = None" "cc_identity demo_candidate = Some demo_identity"
  "cc_local_head_sha demo_candidate = Some demo_sha" "\<not> cc_delete_remote_branch demo_candidate"
  "\<not> cc_allow_no_pr demo_candidate" "\<not> cc_discard_dirty demo_candidate"
  "\<not> cc_preserve_unique_commits demo_candidate"
  "map_option (\<lambda>b. (be_branch b, be_local b)) (cc_branch demo_candidate) =
     Some (Some ''main.leaf'', \<lparr> ba_status = WouldDelete, ba_reason = None \<rparr>)"
  by code_simp+

lemma clock_simps:
  "cx_clock (look s) = Suc (cx_clock s)" "cx_clock (log_effect e s) = Suc (cx_clock s)"
  "cx_clock (put_entry i en s) = cx_clock s"
  by (simp_all add: look_def log_effect_def put_entry_def)

lemma lost_world_answers:
  "w_persist_receipt (lost_worlds n) r = Inr ()" "w_remove_workspace (lost_worlds n) p = Inr (Inr ())"
  "codex_configured_dirs (lost_worlds n) demo_candidate = [demo_worktree]"
  "w_capture_codex_trust (lost_worlds n) ds = Inr [demo_claim]"
  "path_exists (lost_worlds n) demo_worktree \<longleftrightarrow> n < 4"
  "4 \<le> n \<Longrightarrow> w_repository_identity (lost_worlds n) = Inl ''unreadable''"
  "w_resolver_get (lost_worlds n) ''leaf'' = Some demo_identity"
proof -
  have "demo_agent_dir \<noteq> demo_worktree" by (simp add: demo_agent_dir_def demo_worktree_def)
  then show "codex_configured_dirs (lost_worlds n) demo_candidate = [demo_worktree]"
    by (simp add: codex_configured_dirs_def codex_trust_candidate_dirs_def demo_candidate_fields
        lost_worlds_def demo_world_def)
qed (simp_all add: lost_worlds_def demo_world_def path_exists_def not_le)

lemma lost_claim:
  "let (e, s') = execute_destructive_actions lost_worlds demo_project 0 demo_candidate lost_run in
     re_codex_trust (entry_at s' 0) = Some [demo_claim] \<and> Act 0 (RemoveWorktree demo_worktree) True \<in> set (cx_trace s')
     \<and> re_status e = ReceiptRefused \<and> re_codex_trust e = None"
proof -
  obtain b where b: "cc_branch demo_candidate = Some b" "be_branch b = Some ''main.leaf''"
    "be_local b = \<lparr> ba_status = WouldDelete, ba_reason = None \<rparr>"
    using demo_candidate_fields(10) by auto
  have l: "length (rc_entries (cx_receipt lost_run)) = 1"
    and e: "entry_at lost_run 0 = make_receipt_entry demo_candidate InProgress [] None"
    and t: "cx_trace lost_run = []" "cx_clock lost_run = 0"
    by (simp_all add: lost_run_def in_progress_receipt_def demo_plan_candidates entry_at_def initial_entry_def
        demo_candidate_cleanable is_cleanable_def)
  have i: "ir_agent_name demo_identity = ''leaf''" by (simp add: demo_identity_def)
  show ?thesis
    by (simp add: execute_destructive_actions_def authorization_actions_def claim_codex_trust_def
        demo_candidate_fields(1-9) lost_world_answers e l t i then_step_def persist_step_def
        persist_action_or_failure_def record_progress_def persist_receipt_def clock_simps Let_def
        execute_remote_branch_action_def branch_step_def remove_worktree_def
        execute_local_branch_action_def worktree_exists_def local_status_def b set_branch_pending_def
        persist_branch_progress_def complete_local_action_def prepare_local_branch_deletion_def
        revalidate_branch_def revalidate_owner_def validate_repository_def ensure_def
        set_branch_action_def stop_with_def refuse_branch_def)
qed

text \<open>C40. How a candidate's claim on hook trust survives its disposal. The receipt under way holds the claim
  captured at the beginning whatever the destructive actions meet. Unless one of the two steps on branches ends
  them, the entry in which they end, whether a failed step, a receipt that could not be written or the cleaned
  candidate, carries that claim too; when a step on a branch ends them, the entry is that of the step and has
  no claim. There is a run in which the worktree with the generated configuration, the only proof of the claim,
  has been removed already when such an entry replaces the one that held the claim.\<close>

theorem codex_claim_disposal:
  "(\<forall>ws pd i c s. let (e, s') = execute_destructive_actions ws pd i c s in
      re_codex_trust (entry_at s' i) = captured ws i c s
      \<and> (case ended_by_branch ws pd i c s of
           None \<Rightarrow> re_status e \<noteq> ReceiptRefused \<and> re_codex_trust e = captured ws i c s
         | Some p \<Rightarrow> p = (e, s') \<and> claim_forgotten e))
   \<and> (\<exists>ws pd i c s wt. let (e, s') = execute_destructive_actions ws pd i c s in
        re_codex_trust (entry_at s' i) \<noteq> None \<and> Act i (RemoveWorktree wt) True \<in> set (cx_trace s')
        \<and> re_status e = ReceiptRefused \<and> re_codex_trust e = None)"
proof (intro conjI allI)
  show "let (e, s') = execute_destructive_actions ws pd i c s in
      re_codex_trust (entry_at s' i) = captured ws i c s
      \<and> (case ended_by_branch ws pd i c s of
           None \<Rightarrow> re_status e \<noteq> ReceiptRefused \<and> re_codex_trust e = captured ws i c s
         | Some p \<Rightarrow> p = (e, s') \<and> claim_forgotten e)" for ws pd i c s
    using execute_destructive_actions_claim [where ws = ws and pd = pd and i = i and c = c and s = s]
      execute_destructive_actions_trust [where ws = ws and pd = pd and i = i and c = c and s = s]
    by (auto simp: claim_kept_def trust_def split: option.splits prod.splits)
  have "let (e, s') = execute_destructive_actions lost_worlds demo_project 0 demo_candidate lost_run in
        re_codex_trust (entry_at s' 0) \<noteq> None \<and> Act 0 (RemoveWorktree demo_worktree) True \<in> set (cx_trace s')
        \<and> re_status e = ReceiptRefused \<and> re_codex_trust e = None"
    using lost_claim by (auto simp: Let_def)
  then show "\<exists>ws pd i c s wt. let (e, s') = execute_destructive_actions ws pd i c s in
        re_codex_trust (entry_at s' i) \<noteq> None \<and> Act i (RemoveWorktree wt) True \<in> set (cx_trace s')
        \<and> re_status e = ReceiptRefused \<and> re_codex_trust e = None"
    by blast
qed

end
