(* ===== verification/Ledger_Segments.thy ===== *)
theory Ledger_Segments
  imports Str_Ops "HOL-Library.List_Lexorder" "HOL-Library.Char_ord" "HOL-Library.Sublist"
begin

text \<open>
  The append-only ledger of \<^verbatim>\<open>services/immutable_ledger.rs\<close> as bytes: a directory of numbered
  segment files, the choice of the segment to append to, and the append itself, which may fail to
  take its lock or to open the file, stop in the middle of the line, or fail to sync. Events are
  added in \<open>Ledger_Events\<close>. An append holds the file lock of the directory, so that it is
  one step; file names compare by their bytes.
\<close>

section \<open>Directories\<close>

record disk_file =
  f_name :: string
  f_bytes :: string
  f_modified :: nat

type_synonym directory = "disk_file list"

definition lookup_file :: "directory \<Rightarrow> string \<Rightarrow> disk_file option" where
  "lookup_file d n = find (\<lambda>f. f_name f = n) d"

definition contents :: "directory \<Rightarrow> string \<Rightarrow> string option" where
  "contents d n = map_option f_bytes (lookup_file d n)"

text \<open>\<^verbatim>\<open>OpenOptions::new().create(true).append(true)\<close> followed by a write of \<open>bs\<close>.\<close>

definition append_file :: "string \<Rightarrow> string \<Rightarrow> nat \<Rightarrow> directory \<Rightarrow> directory" where
  "append_file n bs now d =
     (if lookup_file d n = None then d @ [\<lparr> f_name = n, f_bytes = bs, f_modified = now \<rparr>]
      else map (\<lambda>f. if f_name f = n then f \<lparr> f_bytes := f_bytes f @ bs, f_modified := now \<rparr> else f) d)"

text \<open>\<^verbatim>\<open>Path::file_stem\<close> and \<^verbatim>\<open>Path::extension\<close> of a file name.\<close>

definition rsplit_file_at_dot :: "string \<Rightarrow> string \<times> string option" where
  "rsplit_file_at_dot n =
     (let after = rev (takeWhile (\<lambda>c. c \<noteq> CHR ''.'') (rev n));
          stem = take (length n - Suc (length after)) n in
      if n = ''..'' \<or> CHR ''.'' \<notin> set n \<or> stem = [] then (n, None) else (stem, Some after))"

definition file_stem :: "string \<Rightarrow> string" where
  "file_stem n = fst (rsplit_file_at_dot n)"

definition extension :: "string \<Rightarrow> string option" where
  "extension n = snd (rsplit_file_at_dot n)"

section \<open>Segments\<close>

record ledger_writer =
  lw_segment_max_bytes :: nat
  lw_segment_max_age :: "nat option"

definition default_segment_max_bytes :: nat where
  "default_segment_max_bytes = 4 * 1024 * 1024"

definition with_segment_max_bytes :: "nat \<Rightarrow> ledger_writer" where
  "with_segment_max_bytes n = \<lparr> lw_segment_max_bytes = max n 1, lw_segment_max_age = None \<rparr>"

definition open_ledger :: ledger_writer where
  "open_ledger = with_segment_max_bytes default_segment_max_bytes"

definition with_segment_max_age :: "nat \<Rightarrow> ledger_writer \<Rightarrow> ledger_writer" where
  "with_segment_max_age a w = w \<lparr> lw_segment_max_age := Some a \<rparr>"

definition is_segment :: "string \<Rightarrow> bool" where
  "is_segment n \<longleftrightarrow> extension n = Some ''jsonl''"

definition segments :: "directory \<Rightarrow> string list" where
  "segments d = sort (filter is_segment (map f_name d))"

text \<open>\<^verbatim>\<open>format!("segment-{index:012}.jsonl")\<close>.\<close>

definition pad_to :: "nat \<Rightarrow> string \<Rightarrow> string" where
  "pad_to w s = replicate (w - length s) (CHR ''0'') @ s"

definition segment_name :: "nat \<Rightarrow> string" where
  "segment_name i = ''segment-'' @ pad_to 12 (nat_str i) @ ''.jsonl''"

definition segment_index :: "string \<Rightarrow> nat option" where
  "segment_index n = Option.bind (strip_prefix ''segment-'' (file_stem n)) parse_u64"

definition current_segment_path :: "directory \<Rightarrow> string" where
  "current_segment_path d = (case segments d of [] \<Rightarrow> segment_name 0 | n # ns \<Rightarrow> last (n # ns))"

definition u64_saturating_add :: "nat \<Rightarrow> nat \<Rightarrow> nat" where
  "u64_saturating_add a b = min (a + b) (2 ^ 64 - 1)"

definition next_segment_path :: "directory \<Rightarrow> string" where
  "next_segment_path d = segment_name (case List.map_filter segment_index (segments d) of
       [] \<Rightarrow> 1
     | i # is \<Rightarrow> u64_saturating_add (fold max is i) 1)"

section \<open>Appending\<close>

text \<open>How far an append gets. \<open>TornAt k\<close> is a write that fails, or a process that dies, after
  \<open>k\<close> bytes.\<close>

datatype write_outcome = LockFailed | OpenFailed | TornAt nat | SyncFailed | Written

definition append_lock :: string where
  "append_lock = ''.append.lock''"

definition age_expired :: "ledger_writer \<Rightarrow> nat \<Rightarrow> directory \<Rightarrow> string \<Rightarrow> bool" where
  "age_expired w now d n =
     (case lw_segment_max_age w of
        None \<Rightarrow> False
      | Some max_age \<Rightarrow>
          (case lookup_file d n of
             None \<Rightarrow> False
           | Some f \<Rightarrow> f_modified f \<le> now \<and> max_age \<le> now - f_modified f))"

definition append_target :: "ledger_writer \<Rightarrow> nat \<Rightarrow> string \<Rightarrow> directory \<Rightarrow> string" where
  "append_target w now line d =
     (let path = current_segment_path d;
          current_size = (case contents d path of None \<Rightarrow> 0 | Some bs \<Rightarrow> length bs) in
      if current_size > 0 \<and> (current_size + length line > lw_segment_max_bytes w \<or> age_expired w now d path)
      then next_segment_path d else path)"

definition append_line ::
  "ledger_writer \<Rightarrow> nat \<Rightarrow> write_outcome \<Rightarrow> string \<Rightarrow> directory \<Rightarrow> (string + unit) \<times> directory" where
  "append_line w now r line d =
     (let locked = append_file append_lock [] now d;
          target = append_target w now line locked in
      case r of
        LockFailed \<Rightarrow> (Inl ''open ledger lock'', d)
      | OpenFailed \<Rightarrow> (Inl (''open ledger segment '' @ target), locked)
      | TornAt k \<Rightarrow> (Inl (''append ledger segment '' @ target), append_file target (take k line) now locked)
      | SyncFailed \<Rightarrow> (Inl (''sync ledger segment '' @ target), append_file target line now locked)
      | Written \<Rightarrow> (Inr (), append_file target line now locked))"

section \<open>Lemmas on files and names\<close>

lemma lookup_append_file:
  "lookup_file (append_file n bs now d) m =
     (if m = n then (case lookup_file d n of
         None \<Rightarrow> Some \<lparr> f_name = n, f_bytes = bs, f_modified = now \<rparr>
       | Some f \<Rightarrow> Some (f \<lparr> f_bytes := f_bytes f @ bs, f_modified := now \<rparr>))
      else lookup_file d m)"
proof (cases "lookup_file d n")
  case None
  then show ?thesis by (simp add: append_file_def lookup_file_def find_append split: option.split)
next
  case (Some f)
  have "find (\<lambda>f. f_name f = m) (map (\<lambda>f. if f_name f = n then f \<lparr> f_bytes := f_bytes f @ bs, f_modified := now \<rparr> else f) d)
      = (if m = n then map_option (\<lambda>f. f \<lparr> f_bytes := f_bytes f @ bs, f_modified := now \<rparr>) (find (\<lambda>f. f_name f = n) d)
         else find (\<lambda>f. f_name f = m) d)"
    by (induction d) auto
  with Some show ?thesis by (simp add: append_file_def lookup_file_def)
qed

lemma contents_append_file:
  "contents (append_file n bs now d) m =
     (if m = n then Some ((case contents d n of None \<Rightarrow> [] | Some old \<Rightarrow> old) @ bs) else contents d m)"
  by (simp add: contents_def lookup_append_file split: option.split)

lemma contents_None_iff: "contents d n = None \<longleftrightarrow> n \<notin> f_name ` set d"
  by (auto simp: contents_def lookup_file_def find_None_iff)

lemma names_append_file:
  "map f_name (append_file n bs now d) = map f_name d @ (if contents d n = None then [n] else [])"
  by (simp add: append_file_def contents_def if_distrib cong: map_cong)

lemma distinct_append_file:
  "distinct (map f_name d) \<Longrightarrow> distinct (map f_name (append_file n bs now d))"
  by (auto simp: names_append_file contents_None_iff)

lemma append_lock_no_segment [simp]: "\<not> is_segment append_lock"
  by code_simp

lemma segments_lock [simp]: "segments (append_file append_lock bs now d) = segments d"
  by (simp add: segments_def names_append_file)

lemma in_segments: "n \<in> set (segments d) \<longleftrightarrow> is_segment n \<and> contents d n \<noteq> None"
  by (auto simp: segments_def contents_None_iff)

section \<open>The order of segment names\<close>

lemma digits_value_Cons: "digits_value (c # s) = digit_value c * 10 ^ length s + digits_value s"
proof -
  let ?f = "foldl (\<lambda>v c. 10 * v + digit_value c)"
  have "?f a s = a * 10 ^ length s + ?f 0 s" for a
  proof (induction s rule: rev_induct)
    case (snoc c s)
    have "?f a (s @ [c]) = 10 * (a * 10 ^ length s + ?f 0 s) + digit_value c" by (simp add: snoc [symmetric])
    then show ?case by simp
  qed simp
  from this [of "digit_value c"] show ?thesis by (simp add: digits_value_def)
qed

lemma digits_value_bound: "list_all is_ascii_digit s \<Longrightarrow> digits_value s < 10 ^ length s"
proof (induction s)
  case Nil
  show ?case by (simp add: digits_value_def)
next
  case (Cons c s)
  then have "digit_value c \<le> 9" by (auto simp: is_ascii_digit_def digit_value_def)
  then have "digit_value c * 10 ^ length s \<le> 9 * 10 ^ length s" by (rule mult_right_mono) simp
  moreover have "digits_value s < 10 ^ length s" using Cons by simp
  ultimately show ?case unfolding digits_value_Cons length_Cons power_Suc by linarith
qed

lemma digit_value_less:
  "is_ascii_digit c \<Longrightarrow> is_ascii_digit d \<Longrightarrow> digit_value c < digit_value d \<longleftrightarrow> c < d"
  "is_ascii_digit c \<Longrightarrow> is_ascii_digit d \<Longrightarrow> digit_value c = digit_value d \<longleftrightarrow> c = d"
proof -
  assume d: "is_ascii_digit c" "is_ascii_digit d"
  then show "digit_value c < digit_value d \<longleftrightarrow> c < d"
    unfolding is_ascii_digit_def digit_value_def less_char_def by arith
  from d have "digit_value c = digit_value d \<longleftrightarrow> (of_char c :: nat) = of_char d"
    unfolding is_ascii_digit_def digit_value_def by arith
  then show "digit_value c = digit_value d \<longleftrightarrow> c = d" by simp
qed

lemma digits_less:
  assumes "length s = length t" "list_all is_ascii_digit s" "list_all is_ascii_digit t"
  shows "s < t \<longleftrightarrow> digits_value s < digits_value t"
  using assms
proof (induction s t rule: list_induct2)
  case (Cons c s d t)
  define P :: nat where "P = 10 ^ length s"
  have b: "digits_value s < P" "digits_value t < P"
    using Cons digits_value_bound [of s] digits_value_bound [of t] by (simp_all add: P_def)
  have less: "a * P + x < b * P + y" if "a < b" "x < P" for a b x y :: nat
  proof -
    from that have "Suc a * P \<le> b * P" by (intro mult_right_mono) simp_all
    with that show ?thesis by simp
  qed
  from Cons have d: "is_ascii_digit c" "is_ascii_digit d" by simp_all
  show ?case
  proof (cases "digit_value c" "digit_value d" rule: linorder_cases)
    case less
    with b have "digits_value (c # s) < digits_value (d # t)"
      using Cons.hyps \<open>\<And>a b x y. a < b \<Longrightarrow> x < P \<Longrightarrow> a * P + x < b * P + y\<close> [of "digit_value c" "digit_value d"]
      by (simp add: digits_value_Cons P_def)
    with less d show ?thesis by (simp add: digit_value_less)
  next
    case equal
    with d have "c = d" by (simp add: digit_value_less)
    with Cons show ?thesis by (simp add: digits_value_Cons)
  next
    case greater
    with b have "digits_value (d # t) < digits_value (c # s)"
      using Cons.hyps \<open>\<And>a b x y. a < b \<Longrightarrow> x < P \<Longrightarrow> a * P + x < b * P + y\<close> [of "digit_value d" "digit_value c"]
      by (simp add: digits_value_Cons P_def)
    moreover have "d < c" using greater d by (simp add: digit_value_less)
    ultimately show ?thesis by auto
  qed
qed simp

lemma less_append_same [simp]: "(p :: string) @ s < p @ t \<longleftrightarrow> s < t"
  by (induction p) auto

lemma less_append_tail: "length s = length t \<Longrightarrow> s @ u < t @ u \<longleftrightarrow> (s :: string) < t"
  by (induction s t rule: list_induct2) auto

lemma nat_str_length: "0 < k \<Longrightarrow> i < 10 ^ k \<Longrightarrow> length (nat_str i) \<le> k"
proof (induction k arbitrary: i)
  case (Suc k)
  show ?case
  proof (cases "i < 10")
    case True
    then show ?thesis by (simp add: nat_str.simps)
  next
    case False
    with Suc.prems have "i div 10 < 10 ^ k" by (simp add: less_mult_imp_div_less)
    moreover from False Suc.prems have "0 < k" by (cases k) auto
    ultimately have "length (nat_str (i div 10)) \<le> k" by (rule Suc.IH [rotated])
    with False show ?thesis by (simp add: nat_str.simps [of i])
  qed
qed simp

definition max_index :: nat where
  "max_index = 10 ^ 12"

lemma pad_to_props:
  "list_all is_ascii_digit (pad_to w (nat_str i))" "digits_value (pad_to w (nat_str i)) = i"
proof -
  have z: "is_ascii_digit (CHR ''0'')" "digit_value (CHR ''0'') = 0" by code_simp+
  then show "list_all is_ascii_digit (pad_to w (nat_str i))"
    using nat_str_digits [of i] by (auto simp: pad_to_def list_all_iff)
  have "digits_value (replicate k (CHR ''0'') @ s) = digits_value s" for k s
    by (induction k) (simp_all add: digits_value_Cons z)
  then show "digits_value (pad_to w (nat_str i)) = i" by (simp add: pad_to_def)
qed

lemma segment_name_less:
  assumes "i < max_index" "j < max_index"
  shows "segment_name i < segment_name j \<longleftrightarrow> i < j"
proof -
  have "length (pad_to 12 (nat_str n)) = 12" if "n < max_index" for n
    using nat_str_length [of 12 n] that by (simp add: pad_to_def max_index_def)
  with assms show ?thesis
    by (simp add: segment_name_def less_append_tail digits_less pad_to_props)
qed

lemma rsplit_file_at_dot_append:
  assumes "CHR ''.'' \<notin> set e" "b \<noteq> []" "e \<noteq> []"
  shows "rsplit_file_at_dot (b @ CHR ''.'' # e) = (b, Some e)"
proof -
  have "takeWhile (\<lambda>c. c \<noteq> CHR ''.'') (rev e @ CHR ''.'' # rev b) = rev e"
    using assms(1) by (subst takeWhile_append2) auto
  moreover have "b @ CHR ''.'' # e \<noteq> ''..''" using assms by (cases b; cases "tl b") auto
  ultimately show ?thesis using assms by (simp add: rsplit_file_at_dot_def Let_def)
qed

lemma segment_name_split: "rsplit_file_at_dot (segment_name i) = (''segment-'' @ pad_to 12 (nat_str i), Some ''jsonl'')"
  using rsplit_file_at_dot_append [of "''jsonl''" "''segment-'' @ pad_to 12 (nat_str i)"]
  by (simp add: segment_name_def)

lemma segment_name_segment [simp]: "is_segment (segment_name i)"
  by (simp add: is_segment_def extension_def segment_name_split)

lemma segment_index_name [simp]:
  assumes "i < 2 ^ 64"
  shows "segment_index (segment_name i) = Some i"
proof -
  have "pad_to 12 (nat_str i) \<noteq> []" by (simp add: pad_to_def)
  moreover from this have "is_ascii_digit (hd (pad_to 12 (nat_str i)))"
    using pad_to_props(1) [of 12 i] by (auto simp: list_all_iff)
  then have "hd (pad_to 12 (nat_str i)) \<noteq> CHR ''+''" by (auto simp: is_ascii_digit_def)
  ultimately have "strip_prefix ''+'' (pad_to 12 (nat_str i)) = None"
    by (auto simp: strip_prefix_def starts_with_iff)
  moreover have "strip_prefix ''segment-'' (''segment-'' @ x) = Some x" for x
    by (rule strip_prefix_append)
  ultimately show ?thesis using assms pad_to_props [of 12 i] \<open>pad_to 12 (nat_str i) \<noteq> []\<close>
    by (simp add: segment_index_def file_stem_def segment_name_split parse_u64_def parse_u64_digits_def
        del: append_Cons append.append_Cons)
qed

section \<open>Segments in a directory\<close>

text \<open>A directory in which only the ledger writes: the segments are numbered up to \<open>N\<close>.\<close>

definition ledger_inv :: "nat \<Rightarrow> directory \<Rightarrow> bool" where
  "ledger_inv N d \<longleftrightarrow> distinct (map f_name d) \<and> (\<forall>n \<in> set (segments d). \<exists>i \<le> N. n = segment_name i)"

lemma ledger_inv_empty [simp]: "ledger_inv N []"
  by (simp add: ledger_inv_def segments_def)

lemma sorted_distinct_segments: "distinct (map f_name d) \<Longrightarrow> sorted (segments d) \<and> distinct (segments d)"
  by (simp add: segments_def)

lemma segments_indexed:
  assumes "ledger_inv N d" "N < max_index"
  obtains js where "segments d = map segment_name js" "sorted_wrt (<) js" "\<forall>i \<in> set js. i \<le> N"
proof
  define js where "js = map (the \<circ> segment_index) (segments d)"
  have lt: "i < 2 ^ 64" if "i \<le> N" for i using that assms(2) by (simp add: max_index_def)
  have name: "segment_name (the (segment_index n)) = n \<and> the (segment_index n) \<le> N" if "n \<in> set (segments d)" for n
    using assms(1) that lt by (auto simp: ledger_inv_def)
  then show eq: "segments d = map segment_name js" by (simp add: js_def map_idI)
  show le: "\<forall>i \<in> set js. i \<le> N" using name by (auto simp: js_def)
  have "sorted_wrt (<) (segments d)"
    using assms(1) sorted_distinct_segments by (auto simp: ledger_inv_def strict_sorted_iff)
  then show "sorted_wrt (<) js"
    unfolding eq sorted_wrt_map
  proof (rule sorted_wrt_mono_rel [rotated])
    fix i j
    assume "i \<in> set js" "j \<in> set js" "segment_name i < segment_name j"
    moreover from this le have "i \<le> N" "j \<le> N" by auto
    ultimately show "i < j" using assms(2) by (simp add: segment_name_less)
  qed
qed

lemma fold_max_last: "sorted_wrt (<) (i # js) \<Longrightarrow> fold max js i = last (i # js)" for i :: nat
  by (induction js arbitrary: i) (auto simp: max_def)

lemma map_filter_names: "\<forall>i \<in> set js. i < 2 ^ 64 \<Longrightarrow> List.map_filter segment_index (map segment_name js) = js"
  by (induction js) (auto simp: List.map_filter_simps)

lemma next_segment_path_last:
  assumes "segments d = map segment_name js" "sorted_wrt (<) js" "\<forall>i \<in> set js. i \<le> N" "N < max_index" "js \<noteq> []"
  shows "next_segment_path d = segment_name (Suc (last js))"
proof -
  from assms(5) obtain i ks where js: "js = i # ks" by (cases js) auto
  have "last js \<le> N" using assms by simp
  with assms(4) have "u64_saturating_add (last js) 1 = Suc (last js)"
    by (simp add: u64_saturating_add_def max_index_def)
  moreover have "List.map_filter segment_index (segments d) = js"
    unfolding assms(1) using assms(3,4) by (intro map_filter_names) (auto simp: max_index_def)
  ultimately show ?thesis
    using fold_max_last [of i ks] assms(2) by (simp add: next_segment_path_def js)
qed

text \<open>What a write of the ledger does to the sequence of segments: it extends the last one, or it
  starts a new one behind it.\<close>

definition extends_last :: "string \<Rightarrow> directory \<Rightarrow> bool" where
  "extends_last t d \<longleftrightarrow> segments d \<noteq> [] \<and> t = last (segments d)"

definition opens_new :: "string \<Rightarrow> directory \<Rightarrow> bool" where
  "opens_new t d \<longleftrightarrow> is_segment t \<and> contents d t = None \<and> (\<forall>n \<in> set (segments d). n < t)"

lemma current_segment_last: "segments d \<noteq> [] \<Longrightarrow> current_segment_path d = last (segments d)"
  by (cases "segments d") (simp_all add: current_segment_path_def)

lemma append_target_cases:
  assumes "ledger_inv N d" "Suc N < max_index"
  shows "(extends_last (append_target w now line d) d \<or> opens_new (append_target w now line d) d)
    \<and> (\<exists>i \<le> Suc N. append_target w now line d = segment_name i)"
proof -
  from assms obtain js where js: "segments d = map segment_name js" "sorted_wrt (<) js" "\<forall>i \<in> set js. i \<le> N"
    by (elim segments_indexed) auto
  show ?thesis
  proof (cases "js = []")
    case True
    then have "current_segment_path d = segment_name 0" and "contents d (segment_name 0) = None"
      using js(1) in_segments [of "segment_name 0" d] by (auto simp: current_segment_path_def)
    then have "append_target w now line d = segment_name 0" by (simp add: append_target_def Let_def)
    with js True \<open>contents d (segment_name 0) = None\<close> show ?thesis
      by (auto simp: opens_new_def)
  next
    case False
    have cur: "current_segment_path d = segment_name (last js)" "last (segments d) = segment_name (last js)"
      using False js(1) by (metis current_segment_last last_map map_is_Nil_conv)+
    have nxt: "next_segment_path d = segment_name (Suc (last js))"
      using next_segment_path_last [OF js] assms(2) False by simp
    have le: "last js \<le> N" using js(3) False by simp
    have "i \<le> last js" if "i \<in> set js" for i
    proof -
      have "js = butlast js @ [last js]" using False by simp
      then have "sorted_wrt (<) (butlast js @ [last js])" "i \<in> set (butlast js @ [last js])" using js(2) that by simp_all
      then show ?thesis by (auto simp: sorted_wrt_append simp del: append_butlast_last_id)
    qed
    then have above: "n < segment_name (Suc (last js))" if "n \<in> set (segments d)" for n
      using that js le assms(2) by (auto simp: segment_name_less less_Suc_eq_le)
    then have "contents d (segment_name (Suc (last js))) = None"
      using in_segments [of "segment_name (Suc (last js))" d] by fastforce
    with above have "opens_new (next_segment_path d) d" by (simp add: opens_new_def nxt)
    moreover have "extends_last (current_segment_path d) d" using False js(1) cur by (metis extends_last_def map_is_Nil_conv)
    ultimately show ?thesis using le
      by (auto simp: append_target_def Let_def cur nxt intro: le_SucI)
  qed
qed

lemma segments_append_file:
  assumes "distinct (map f_name d)" "extends_last t d \<or> opens_new t d"
  shows "segments (append_file t bs now d) = segments d @ (if extends_last t d then [] else [t])"
proof (cases "extends_last t d")
  case True
  then have "contents d t \<noteq> None" using in_segments [of t d] last_in_set by (auto simp: extends_last_def)
  then have "map f_name (append_file t bs now d) = map f_name d" by (simp add: names_append_file del: not_None_eq)
  with True show ?thesis by (simp add: segments_def)
next
  case False
  with assms have t: "is_segment t" "contents d t = None" "\<forall>n \<in> set (segments d). n < t"
    by (auto simp: opens_new_def)
  have "distinct (map f_name (append_file t bs now d))" by (rule distinct_append_file [OF assms(1)])
  then have "sorted (segments (append_file t bs now d))" "distinct (segments (append_file t bs now d))"
    by (simp_all add: sorted_distinct_segments)
  moreover have "sorted (segments d @ [t])" "distinct (segments d @ [t])"
    using sorted_distinct_segments [OF assms(1)] t by (auto simp: sorted_append less_imp_le)
  moreover have "set (segments (append_file t bs now d)) = set (segments d @ [t])"
    using t by (auto simp: segments_def names_append_file)
  ultimately have "segments (append_file t bs now d) = segments d @ [t]"
    by (rule sorted_distinct_set_unique)
  with False show ?thesis by simp
qed

end
