(* ===== verification/Ledger_Append.thy ===== *)
theory Ledger_Append
  imports Ledger_Segments
begin

text \<open>
  What appends do to the ledger: the directory refines a list of segments of which only the last
  one grows, whatever fails on the way; files are only ever extended.
\<close>

section \<open>Files that are only extended\<close>

text \<open>The contract of an append-only store: a step never takes away or rewrites what a file
  holds.\<close>

locale append_only =
  fixes holds :: "'d \<Rightarrow> 'n \<Rightarrow> string option"
    and step :: "'d \<Rightarrow> 'd \<Rightarrow> bool"
  assumes step_extends: "step d d' \<Longrightarrow> holds d n = Some b \<Longrightarrow> \<exists>e. holds d' n = Some (b @ e)"
begin

lemma run_extends:
  assumes "step\<^sup>*\<^sup>* d d'" "holds d n = Some b"
  shows "\<exists>e. holds d' n = Some (b @ e)"
  using assms
proof (induction rule: rtranclp_induct)
  case (step y z)
  then obtain e where "holds y n = Some (b @ e)" by auto
  from step_extends [OF step(2) this] show ?case by auto
qed auto

end

section \<open>One append\<close>

definition bytes_written :: "write_outcome \<Rightarrow> string \<Rightarrow> string option" where
  "bytes_written r line =
     (case r of LockFailed \<Rightarrow> None | OpenFailed \<Rightarrow> None | TornAt k \<Rightarrow> Some (take k line)
      | SyncFailed \<Rightarrow> Some line | Written \<Rightarrow> Some line)"

lemma append_line_dir:
  "snd (append_line w now r line d) =
     (if r = LockFailed then d
      else (let locked = append_file append_lock [] now d in
        case bytes_written r line of
          None \<Rightarrow> locked
        | Some bs \<Rightarrow> append_file (append_target w now line locked) bs now locked))"
  by (cases r) (simp_all add: append_line_def bytes_written_def Let_def)

lemma append_line_ok: "fst (append_line w now r line d) = Inr u \<longleftrightarrow> r = Written"
  by (cases r) (simp_all add: append_line_def Let_def)

lemma append_file_extends: "contents d n = Some b \<Longrightarrow> \<exists>e. contents (append_file m bs now d) n = Some (b @ e)"
  by (auto simp: contents_append_file)

definition ledger_step :: "ledger_writer \<Rightarrow> directory \<Rightarrow> directory \<Rightarrow> bool" where
  "ledger_step w d d' \<longleftrightarrow> (\<exists>now r line. d' = snd (append_line w now r line d))"

lemma append_line_extends:
  assumes "contents d n = Some b"
  shows "\<exists>e. contents (snd (append_line w now r line d)) n = Some (b @ e)"
proof -
  let ?l = "append_file append_lock [] now d"
  from append_file_extends [OF assms] obtain e where e: "contents ?l n = Some (b @ e)" by blast
  have "\<exists>e'. contents (append_file m bs now ?l) n = Some (b @ e')" for m bs
    using append_file_extends [OF e, of m bs now] by auto
  with e assms show ?thesis by (auto simp: append_line_dir Let_def split: option.split)
qed

interpretation ledger: append_only contents "ledger_step w"
  by unfold_locales (auto simp: ledger_step_def append_line_extends)

section \<open>The sequence of segments\<close>

text \<open>The specification of the ledger: a list of segments, of which an append extends the last one
  if the line fits or opens a new one.\<close>

definition segment_bytes :: "directory \<Rightarrow> string list" where
  "segment_bytes d = map (\<lambda>n. the (contents d n)) (segments d)"

definition segs_append :: "nat \<Rightarrow> nat \<Rightarrow> string \<Rightarrow> string list \<Rightarrow> string list \<Rightarrow> bool" where
  "segs_append max_bytes len bs sb sb' \<longleftrightarrow>
     sb' = sb @ [bs]
     \<or> (sb \<noteq> [] \<and> sb' = butlast sb @ [last sb @ bs] \<and> (last sb = [] \<or> length (last sb) + len \<le> max_bytes))"

lemma contents_lock: "n \<noteq> append_lock \<Longrightarrow> contents (append_file append_lock bs now d) n = contents d n"
  by (simp add: contents_append_file)

lemma segment_not_lock: "n \<in> set (segments d) \<Longrightarrow> n \<noteq> append_lock"
  by (auto simp: in_segments)

lemma segment_bytes_lock [simp]: "segment_bytes (append_file append_lock bs now d) = segment_bytes d"
  by (auto simp: segment_bytes_def contents_lock segment_not_lock)

lemma ledger_inv_lock [simp]: "ledger_inv N d \<Longrightarrow> ledger_inv N (append_file append_lock bs now d)"
  by (simp add: ledger_inv_def distinct_append_file)

lemma ledger_inv_mono: "ledger_inv N d \<Longrightarrow> N \<le> M \<Longrightarrow> ledger_inv M d"
  by (auto simp: ledger_inv_def intro: le_trans)

lemma segment_bytes_append_file:
  assumes "distinct (map f_name d)" "extends_last t d \<or> opens_new t d"
  shows "segment_bytes (append_file t bs now d) =
    (if extends_last t d then butlast (segment_bytes d) @ [last (segment_bytes d) @ bs] else segment_bytes d @ [bs])"
proof (cases "extends_last t d")
  case True
  then have ss: "segments d = butlast (segments d) @ [t]" by (simp add: extends_last_def)
  have "distinct (butlast (segments d) @ [t])"
    using sorted_distinct_segments [OF assms(1)] by (metis ss)
  then have "map (\<lambda>n. the (contents (append_file t bs now d) n)) (butlast (segments d))
      = map (\<lambda>n. the (contents d n)) (butlast (segments d))"
    by (auto simp: contents_append_file)
  moreover have "contents d t \<noteq> None"
    using True in_segments [of t d] last_in_set [of "segments d"] by (auto simp: extends_last_def)
  moreover have "last (segment_bytes d) = the (contents d t)" "butlast (segment_bytes d) = map (\<lambda>n. the (contents d n)) (butlast (segments d))"
    using True by (auto simp: segment_bytes_def extends_last_def last_map map_butlast)
  moreover have "segments (append_file t bs now d) = butlast (segments d) @ [t]"
    using True segments_append_file [OF assms, of bs now] ss by simp
  ultimately show ?thesis
    using True by (subst segment_bytes_def) (auto simp: contents_append_file)
next
  case False
  with assms have t: "opens_new t d" by simp
  then have "t \<notin> set (segments d)" by (auto simp: opens_new_def)
  then have "map (\<lambda>n. the (contents (append_file t bs now d) n)) (segments d) = segment_bytes d"
    by (auto simp: contents_append_file segment_bytes_def)
  with False t segments_append_file [OF assms] show ?thesis
    by (subst segment_bytes_def) (simp add: contents_append_file opens_new_def)
qed

lemma append_target_room:
  assumes "append_target w now line d = last (segments d)" "segments d \<noteq> []"
    and "next_segment_path d \<noteq> last (segments d)"
  shows "last (segment_bytes d) = [] \<or> length (last (segment_bytes d)) + length line \<le> lw_segment_max_bytes w"
proof -
  have "contents d (last (segments d)) \<noteq> None" using assms(2) last_in_set [of "segments d"] by (simp add: in_segments)
  then obtain bs where "contents d (last (segments d)) = Some bs" by auto
  with assms show ?thesis
    by (auto simp: append_target_def Let_def current_segment_last segment_bytes_def last_map not_less split: if_splits)
qed

text \<open>A closed segment is one that another segment follows.\<close>

definition closed_segments :: "directory \<Rightarrow> string set" where
  "closed_segments d = set (butlast (segments d))"

lemma extends_last_not_next:
  assumes "ledger_inv N d" "Suc N < max_index" "segments d \<noteq> []"
  shows "next_segment_path d \<noteq> last (segments d)"
proof -
  from assms obtain js where js: "segments d = map segment_name js" "sorted_wrt (<) js" "\<forall>i \<in> set js. i \<le> N"
    by (elim segments_indexed) auto
  with assms have ne: "js \<noteq> []" by auto
  then have "next_segment_path d = segment_name (Suc (last js))" "last (segments d) = segment_name (last js)"
    using next_segment_path_last [OF js] assms(2) by (simp_all add: js(1) last_map)
  moreover have "last js \<le> N" using js(3) ne by simp
  ultimately show ?thesis
    using assms(2) segment_name_less [of "last js" "Suc (last js)"] by auto
qed

lemma segs_append_file:
  fixes w now line bs
  assumes "ledger_inv N d" "Suc N < max_index"
  defines "t \<equiv> append_target w now line d"
  defines "d' \<equiv> append_file t bs now d"
  shows "ledger_inv (Suc N) d'" "segs_append (lw_segment_max_bytes w) (length line) bs (segment_bytes d) (segment_bytes d')"
    "prefix (segments d) (segments d')" "\<forall>n \<in> closed_segments d. contents d' n = contents d n"
proof -
  note t = append_target_cases [OF assms(1,2), of w now line, folded t_def]
  have dist: "distinct (map f_name d)" using assms(1) by (simp add: ledger_inv_def)
  from t have k: "extends_last t d \<or> opens_new t d" by blast
  note segs = segments_append_file [OF dist k, of bs now, folded d'_def]
    and sb = segment_bytes_append_file [OF dist k, of bs now, folded d'_def]
  show "prefix (segments d) (segments d')" by (simp add: segs)
  have "\<forall>n \<in> set (segments d'). \<exists>i \<le> Suc N. n = segment_name i"
    using t assms(1) by (auto simp: segs ledger_inv_def intro: le_SucI split: if_splits)
  then show "ledger_inv (Suc N) d'"
    using distinct_append_file [OF dist] by (simp add: ledger_inv_def d'_def)
  show "segs_append (lw_segment_max_bytes w) (length line) bs (segment_bytes d) (segment_bytes d')"
  proof (cases "extends_last t d")
    case True
    then have "segments d \<noteq> []" "append_target w now line d = last (segments d)"
      by (simp_all add: extends_last_def t_def)
    with append_target_room [of w now line d] extends_last_not_next [OF assms(1,2)] True sb show ?thesis
      by (auto simp: segs_append_def segment_bytes_def)
  qed (simp add: segs_append_def sb)
  have "n \<noteq> t" if "n \<in> closed_segments d" for n
  proof (cases "extends_last t d")
    case True
    then have "segments d = butlast (segments d) @ [t]" by (simp add: extends_last_def)
    then have "distinct (butlast (segments d) @ [t])"
      using sorted_distinct_segments [OF dist] by metis
    with that show ?thesis by (auto simp: closed_segments_def)
  next
    case False
    with k have "\<forall>n \<in> set (segments d). n < t" by (simp add: opens_new_def)
    with that show ?thesis by (auto simp: closed_segments_def dest: in_set_butlastD)
  qed
  then show "\<forall>n \<in> closed_segments d. contents d' n = contents d n"
    by (simp add: d'_def contents_append_file)
qed

lemma append_line_refines:
  fixes w now r line
  assumes "ledger_inv N d" "Suc N < max_index"
  defines "d' \<equiv> snd (append_line w now r line d)"
  shows "ledger_inv (Suc N) d'"
    and "case bytes_written r line of None \<Rightarrow> segment_bytes d' = segment_bytes d
      | Some bs \<Rightarrow> segs_append (lw_segment_max_bytes w) (length line) bs (segment_bytes d) (segment_bytes d')"
    and "prefix (segments d) (segments d')" and "\<forall>n \<in> closed_segments d. contents d' n = contents d n"
proof -
  let ?l = "append_file append_lock [] now d"
  have l: "ledger_inv N ?l" using assms(1) by simp
  note s = segs_append_file [OF l assms(2), where w = w and now = now and line = line]
  have c: "closed_segments ?l = closed_segments d" "\<forall>n \<in> closed_segments d. contents ?l n = contents d n"
    by (auto simp: closed_segments_def contents_lock segment_not_lock dest: in_set_butlastD)
  show "ledger_inv (Suc N) d'"
    using assms(1) l s(1) ledger_inv_mono [of N _ "Suc N"]
    by (auto simp: d'_def append_line_dir Let_def split: option.split)
  show "case bytes_written r line of None \<Rightarrow> segment_bytes d' = segment_bytes d
      | Some bs \<Rightarrow> segs_append (lw_segment_max_bytes w) (length line) bs (segment_bytes d) (segment_bytes d')"
    using s(2) by (auto simp: d'_def append_line_dir Let_def bytes_written_def split: option.split)
  show "prefix (segments d) (segments d')" "\<forall>n \<in> closed_segments d. contents d' n = contents d n"
    using s(3,4) c by (auto simp: d'_def append_line_dir Let_def split: option.split)
qed

section \<open>Runs\<close>

type_synonym append_op = "nat \<times> write_outcome \<times> string"

fun ledger_run :: "ledger_writer \<Rightarrow> append_op list \<Rightarrow> directory \<Rightarrow> directory" where
  "ledger_run w [] d = d"
| "ledger_run w ((now, r, line) # ops) d = ledger_run w ops (snd (append_line w now r line d))"

lemma ledger_run_steps: "(ledger_step w)\<^sup>*\<^sup>* d (ledger_run w ops d)"
  by (induction w ops d rule: ledger_run.induct)
    (auto simp: ledger_step_def intro: converse_rtranclp_into_rtranclp)

lemma ledger_run_append: "ledger_run w (xs @ ys) d = ledger_run w ys (ledger_run w xs d)"
  by (induction w xs d rule: ledger_run.induct) auto

lemma prefix_closed: "prefix (segments d) (segments d') \<Longrightarrow> closed_segments d \<subseteq> closed_segments d'"
  by (auto simp: closed_segments_def prefix_def butlast_append dest: in_set_butlastD)

lemma ledger_run_inv:
  assumes "ledger_inv N d" "N + length ops < max_index"
  shows "ledger_inv (N + length ops) (ledger_run w ops d)
    \<and> prefix (segments d) (segments (ledger_run w ops d))
    \<and> (\<forall>n \<in> closed_segments d. contents (ledger_run w ops d) n = contents d n)"
  using assms
proof (induction w ops d arbitrary: N rule: ledger_run.induct)
  case (2 w now r line ops d)
  let ?d = "snd (append_line w now r line d)"
  have b: "Suc N < max_index" using 2 by simp
  note a = append_line_refines [OF \<open>ledger_inv N d\<close> b, where w = w and now = now and r = r and line = line]
  from 2(1) [of "Suc N"] a(1) 2(3)
  have i: "ledger_inv (N + length ((now, r, line) # ops)) (ledger_run w ops ?d)"
    "prefix (segments ?d) (segments (ledger_run w ops ?d))"
    "\<forall>n \<in> closed_segments ?d. contents (ledger_run w ops ?d) n = contents ?d n" by simp_all
  from a(3) i(2) have "prefix (segments d) (segments (ledger_run w ops ?d))" by (rule prefix_order.trans)
  moreover have "\<forall>n \<in> closed_segments d. contents (ledger_run w ops ?d) n = contents d n"
    using i(3) a(4) prefix_closed [OF a(3)] by auto
  ultimately show ?case using i(1) by simp
qed simp

end
