(* ===== verification/Ledger_Events.thy ===== *)
theory Ledger_Events
  imports Ledger_Append Json
begin

text \<open>
  The events of the ledger (\<^verbatim>\<open>services/immutable_ledger.rs\<close>): the envelope with the form that
  \<^verbatim>\<open>serde\<close> derives for it, appending and replaying events, the resolution of superseded events
  and the status of the run sequence. Writing a JSON value as text (\<open>ser\<close>,
  \<^verbatim>\<open>serde_json::to_vec\<close>) and reading it (\<open>parse\<close>, \<^verbatim>\<open>from_str\<close> on a line
  of valid UTF-8) are arguments; a JSON array in place of an object is not read as an event.
\<close>

section \<open>Envelope\<close>

record ledger_event =
  le_schema_version :: nat
  le_event_id :: string
  le_id :: string
  le_event_time :: string
  le_observed_at :: string
  le_run_seq :: "nat option"
  le_event_type :: string
  le_agent_id :: "string option"
  le_run_id :: "string option"
  le_session_id :: "string option"
  le_invocation_id :: "string option"
  le_generation :: "nat option"
  le_provider :: "string option"
  le_runtime :: "string option"
  le_harness :: "string option"
  le_role :: "string option"
  le_source :: string
  le_lifecycle_state :: string
  le_data :: json

definition ledger_event_new :: "string \<Rightarrow> string \<Rightarrow> string \<Rightarrow> string option \<Rightarrow> json \<Rightarrow> ledger_event" where
  "ledger_event_new uuid now event_type agent_id data =
     \<lparr> le_schema_version = 1, le_event_id = uuid, le_id = uuid, le_event_time = now, le_observed_at = now,
       le_run_seq = None, le_event_type = event_type, le_agent_id = agent_id, le_run_id = None,
       le_session_id = None, le_invocation_id = None, le_generation = None, le_provider = None,
       le_runtime = None, le_harness = None, le_role = None, le_source = ''exomonad'',
       le_lifecycle_state = ''emitted'', le_data = data \<rparr>"

definition json_u64 :: "nat \<Rightarrow> json" where
  "json_u64 n = JInt (int n)"

definition event_object :: "ledger_event \<Rightarrow> json_object" where
  "event_object e =
     [(''schema_version'', json_u64 (le_schema_version e)), (''event_id'', JStr (le_event_id e)),
      (''id'', JStr (le_id e)), (''event_time'', JStr (le_event_time e)),
      (''observed_at'', JStr (le_observed_at e)), (''run_seq'', json_opt json_u64 (le_run_seq e)),
      (''type'', JStr (le_event_type e)), (''agent_id'', json_opt JStr (le_agent_id e)),
      (''run_id'', json_opt JStr (le_run_id e)), (''session_id'', json_opt JStr (le_session_id e)),
      (''invocation_id'', json_opt JStr (le_invocation_id e)),
      (''generation'', json_opt json_u64 (le_generation e))]
     @ opt_member ''provider'' (le_provider e) @ opt_member ''runtime'' (le_runtime e)
     @ opt_member ''harness'' (le_harness e) @ opt_member ''role'' (le_role e)
     @ [(''source'', JStr (le_source e)), (''lifecycle_state'', JStr (le_lifecycle_state e)), (''data'', le_data e)]"

definition event_to_json :: "ledger_event \<Rightarrow> json" where
  "event_to_json e = JObj (event_object e)"

text \<open>What the derived \<^verbatim>\<open>Deserialize\<close> accepts for a field: \<open>None\<close> is the error. An optional
  field may be missing or \<^verbatim>\<open>null\<close>.\<close>

definition field :: "(json \<Rightarrow> 'a option) \<Rightarrow> json_object \<Rightarrow> string \<Rightarrow> 'a option" where
  "field f ob k = Option.bind (obj_get ob k) f"

definition opt_field :: "(json \<Rightarrow> 'a option) \<Rightarrow> json_object \<Rightarrow> string \<Rightarrow> 'a option option" where
  "opt_field f ob k =
     (case obj_get ob k of None \<Rightarrow> Some None | Some JNull \<Rightarrow> Some None | Some v \<Rightarrow> map_option Some (f v))"

fun as_u32 :: "json \<Rightarrow> nat option" where
  "as_u32 (JInt i) = (if 0 \<le> i \<and> i < 2 ^ 32 then Some (nat i) else None)"
| "as_u32 _ = None"

definition event_from_object :: "json_object \<Rightarrow> ledger_event option" where
  "event_from_object ob = do {
     sv \<leftarrow> field as_u32 ob ''schema_version'';
     ei \<leftarrow> field as_str ob ''event_id'';
     i \<leftarrow> field as_str ob ''id'';
     et \<leftarrow> field as_str ob ''event_time'';
     oa \<leftarrow> field as_str ob ''observed_at'';
     rs \<leftarrow> opt_field as_u64 ob ''run_seq'';
     ty \<leftarrow> field as_str ob ''type'';
     ag \<leftarrow> opt_field as_str ob ''agent_id'';
     ri \<leftarrow> opt_field as_str ob ''run_id'';
     si \<leftarrow> opt_field as_str ob ''session_id'';
     ii \<leftarrow> opt_field as_str ob ''invocation_id'';
     ge \<leftarrow> opt_field as_u64 ob ''generation'';
     pr \<leftarrow> opt_field as_str ob ''provider'';
     ru \<leftarrow> opt_field as_str ob ''runtime'';
     ha \<leftarrow> opt_field as_str ob ''harness'';
     ro \<leftarrow> opt_field as_str ob ''role'';
     so \<leftarrow> field as_str ob ''source'';
     ls \<leftarrow> field as_str ob ''lifecycle_state'';
     da \<leftarrow> obj_get ob ''data'';
     Some \<lparr> le_schema_version = sv, le_event_id = ei, le_id = i, le_event_time = et, le_observed_at = oa,
       le_run_seq = rs, le_event_type = ty, le_agent_id = ag, le_run_id = ri, le_session_id = si,
       le_invocation_id = ii, le_generation = ge, le_provider = pr, le_runtime = ru, le_harness = ha,
       le_role = ro, le_source = so, le_lifecycle_state = ls, le_data = da \<rparr> }"

definition event_from_json :: "json \<Rightarrow> ledger_event option" where
  "event_from_json j = Option.bind (as_object j) event_from_object"

section \<open>Appending and replaying\<close>

record ledger_record =
  lr_segment :: string
  lr_line_number :: nat
  lr_event :: ledger_event

definition ledger_append ::
  "(json \<Rightarrow> string) \<Rightarrow> ledger_writer \<Rightarrow> nat \<Rightarrow> write_outcome \<Rightarrow> ledger_event \<Rightarrow> directory
     \<Rightarrow> (string + unit) \<times> directory" where
  "ledger_append ser w now r e d = append_line w now r (ser (event_to_json e) @ [CHR 0x0A]) d"

definition read_line :: "(string \<Rightarrow> json option) \<Rightarrow> string \<Rightarrow> nat \<times> string \<Rightarrow> string + ledger_record list" where
  "read_line parse segment p =
     (case p of (index, line) \<Rightarrow>
        if blank line then Inr []
        else case Option.bind (parse line) event_from_json of
               None \<Rightarrow> Inl (''parse '' @ segment @ '' line '' @ nat_str (index + 1))
             | Some e \<Rightarrow> Inr [\<lparr> lr_segment = segment, lr_line_number = index + 1, lr_event = e \<rparr>])"

definition read_segment_events :: "(string \<Rightarrow> json option) \<Rightarrow> directory \<Rightarrow> string \<Rightarrow> string + ledger_record list" where
  "read_segment_events parse d segment =
     (case contents d segment of
        None \<Rightarrow> Inl (''open ledger segment '' @ segment)
      | Some bytes \<Rightarrow>
          bindR (traverse (read_line parse segment) (enumerate 0 (str_lines bytes))) (\<lambda>rs. Inr (concat rs)))"

definition read_events :: "(string \<Rightarrow> json option) \<Rightarrow> directory \<Rightarrow> string + ledger_record list" where
  "read_events parse d = bindR (traverse (read_segment_events parse d) (segments d)) (\<lambda>rs. Inr (concat rs))"

definition superseded_by :: "ledger_record \<Rightarrow> string option" where
  "superseded_by r =
     (if le_event_type (lr_event r) = ''event.superseded'' then
        Option.bind (as_object (le_data (lr_event r))) (\<lambda>data.
          Option.bind (or_opt (obj_get data ''superseded_event_id'') (obj_get data ''old_event_id'')) as_str)
      else None)"

definition resolve_superseded_events :: "ledger_record list \<Rightarrow> ledger_record list" where
  "resolve_superseded_events rs =
     (let superseded = List.map_filter superseded_by rs in
      filter (\<lambda>r. le_event_id (lr_event r) \<notin> set superseded) rs)"

definition read_resolved_events :: "(string \<Rightarrow> json option) \<Rightarrow> directory \<Rightarrow> string + ledger_record list" where
  "read_resolved_events parse d = bindR (read_events parse d) (\<lambda>rs. Inr (resolve_superseded_events rs))"

text \<open>\<^verbatim>\<open>windows(2).all(..)\<close> on the sorted numbers.\<close>

fun contiguous :: "nat list \<Rightarrow> bool" where
  "contiguous (a # b # xs) = (b = u64_saturating_add a 1 \<and> contiguous (b # xs))"
| "contiguous _ = True"

definition status_of_sequences :: "nat list \<Rightarrow> string" where
  "status_of_sequences ns =
     (if ns = [] then ''unknown'' else if contiguous (sort ns) then ''complete'' else ''partial'')"

definition sequence_status :: "ledger_record list \<Rightarrow> string" where
  "sequence_status rs = status_of_sequences (List.map_filter (\<lambda>r. le_run_seq (lr_event r)) rs)"

end
