(* ===== verification/Ledger_Replay.thy ===== *)
theory Ledger_Replay
  imports Ledger_Events
begin

text \<open>
  Replaying the ledger: what was appended is read back in order and with its provenance, what
  cannot be read stays unreadable, and what the resolution and the sequence status say.
\<close>

section \<open>The stored form of an event\<close>

definition event_encodable :: "ledger_event \<Rightarrow> bool" where
  "event_encodable e \<longleftrightarrow> le_schema_version e < 2 ^ 32 \<and> (\<forall>n. le_run_seq e = Some n \<longrightarrow> n < 2 ^ 64)
     \<and> (\<forall>n. le_generation e = Some n \<longrightarrow> n < 2 ^ 64)"

lemma event_object_members:
  "obj_get (event_object e) ''schema_version'' = Some (json_u64 (le_schema_version e))"
  "obj_get (event_object e) ''event_id'' = Some (JStr (le_event_id e))"
  "obj_get (event_object e) ''id'' = Some (JStr (le_id e))"
  "obj_get (event_object e) ''event_time'' = Some (JStr (le_event_time e))"
  "obj_get (event_object e) ''observed_at'' = Some (JStr (le_observed_at e))"
  "obj_get (event_object e) ''run_seq'' = Some (json_opt json_u64 (le_run_seq e))"
  "obj_get (event_object e) ''type'' = Some (JStr (le_event_type e))"
  "obj_get (event_object e) ''event_type'' = None"
  "obj_get (event_object e) ''agent_id'' = Some (json_opt JStr (le_agent_id e))"
  "obj_get (event_object e) ''run_id'' = Some (json_opt JStr (le_run_id e))"
  "obj_get (event_object e) ''session_id'' = Some (json_opt JStr (le_session_id e))"
  "obj_get (event_object e) ''invocation_id'' = Some (json_opt JStr (le_invocation_id e))"
  "obj_get (event_object e) ''generation'' = Some (json_opt json_u64 (le_generation e))"
  "obj_get (event_object e) ''provider'' = map_option JStr (le_provider e)"
  "obj_get (event_object e) ''runtime'' = map_option JStr (le_runtime e)"
  "obj_get (event_object e) ''harness'' = map_option JStr (le_harness e)"
  "obj_get (event_object e) ''role'' = map_option JStr (le_role e)"
  "obj_get (event_object e) ''source'' = Some (JStr (le_source e))"
  "obj_get (event_object e) ''lifecycle_state'' = Some (JStr (le_lifecycle_state e))"
  "obj_get (event_object e) ''data'' = Some (le_data e)"
  by (simp_all add: event_object_def obj_get_append obj_get_opt_member split: option.split)

lemma field_simps:
  "obj_get ob k = Some (JStr s) \<Longrightarrow> field as_str ob k = Some s"
  "obj_get ob k = Some (json_opt JStr v) \<Longrightarrow> opt_field as_str ob k = Some v"
  "obj_get ob k = map_option JStr v \<Longrightarrow> opt_field as_str ob k = Some v"
  "obj_get ob k = Some (json_opt json_u64 n) \<Longrightarrow> (\<forall>m. n = Some m \<longrightarrow> m < 2 ^ 64) \<Longrightarrow> opt_field as_u64 ob k = Some n"
  "obj_get ob k = Some (json_u64 m) \<Longrightarrow> m < 2 ^ 32 \<Longrightarrow> field as_u32 ob k = Some m"
  by (auto simp: field_def opt_field_def json_opt_def json_u64_def split: option.splits)

lemma event_roundtrip: "event_encodable e \<Longrightarrow> event_from_json (event_to_json e) = Some e"
  by (simp add: event_from_json_def event_to_json_def event_from_object_def event_object_members field_simps event_encodable_def)

section \<open>Lines\<close>

text \<open>What the ledger relies on of \<^verbatim>\<open>serde_json\<close> for one event: its compact text is one line that
  reads back.\<close>

definition line_codec :: "(json \<Rightarrow> string) \<Rightarrow> (string \<Rightarrow> json option) \<Rightarrow> ledger_event \<Rightarrow> bool" where
  "line_codec ser parse e \<longleftrightarrow>
     parse (ser (event_to_json e)) = Some (event_to_json e) \<and> event_encodable e
     \<and> CHR 0x0A \<notin> set (ser (event_to_json e)) \<and> starts_with ''{'' (ser (event_to_json e))
     \<and> ends_with ''}'' (ser (event_to_json e))"

definition terminated :: "string \<Rightarrow> bool" where
  "terminated bs \<longleftrightarrow> bs = [] \<or> last bs = CHR 0x0A"

lemma split_on_eq_empty [simp]: "split_on c bs = [[]] \<longleftrightarrow> bs = []"
  using join_split_on [of c bs] by auto

lemma terminated_split: "terminated bs \<longleftrightarrow> last (split_on (CHR 0x0A) bs) = []"
  by (induction bs) (auto simp: terminated_def split: list.split if_splits)

lemma split_on_append_terminated:
  "terminated bs \<Longrightarrow> split_on (CHR 0x0A) (bs @ cs) = butlast (split_on (CHR 0x0A) bs) @ split_on (CHR 0x0A) cs"
proof (induction bs)
  case Nil
  then show ?case by simp
next
  case (Cons c bs)
  show ?case
  proof (cases bs)
    case Nil
    with Cons.prems have "c = CHR 0x0A" by (simp add: terminated_def)
    with Nil show ?thesis by simp
  next
    case (Cons x xs)
    with Cons.prems have t: "terminated bs" by (simp add: terminated_def)
    with Cons.IH have ih: "split_on (CHR 0x0A) (bs @ cs) = butlast (split_on (CHR 0x0A) bs) @ split_on (CHR 0x0A) cs" .
    have "butlast (split_on (CHR 0x0A) bs) \<noteq> []"
    proof
      assume "butlast (split_on (CHR 0x0A) bs) = []"
      then obtain p where p: "split_on (CHR 0x0A) bs = [p]" using split_on_nonempty [of "CHR 0x0A" bs]
        by (cases "split_on (CHR 0x0A) bs") (auto split: if_splits)
      with t have "p = []" by (simp add: terminated_split)
      with p join_split_on [of "CHR 0x0A" bs] Cons show False by simp
    qed
    then show ?thesis using ih by (cases "split_on (CHR 0x0A) bs") (auto simp: split: list.split)
  qed
qed

lemma str_lines_append: "terminated bs \<Longrightarrow> str_lines (bs @ cs) = str_lines bs @ str_lines cs"
  by (simp add: str_lines_def Let_def split_on_append_terminated butlast_append terminated_split)

lemma str_lines_line:
  assumes "CHR 0x0A \<notin> set l" "ends_with ''}'' l"
  shows "str_lines (l @ [CHR 0x0A]) = [l]"
proof -
  have "strip_cr l = l" using assms(2) by (auto simp: strip_cr_def ends_with_iff)
  then show ?thesis using split_on_append [OF assms(1), of "[]"] by (simp add: str_lines_def)
qed

lemma not_blank_brace: "starts_with ''{'' l \<Longrightarrow> \<not> blank l"
proof -
  assume "starts_with ''{'' l"
  then obtain t where l: "l = CHR ''{'' # t" by (auto simp: starts_with_iff)
  then have "leading_space l = None" by (simp add: leading_space_def white_space_def)
  with l show ?thesis by (subst blank.simps) simp
qed

lemma read_line_event:
  assumes "line_codec ser parse e"
  shows "read_line parse n (i, ser (event_to_json e)) = Inr [\<lparr> lr_segment = n, lr_line_number = i + 1, lr_event = e \<rparr>]"
  using assms by (simp add: read_line_def line_codec_def not_blank_brace event_roundtrip)

section \<open>Replay of one directory\<close>

lemma traverse_append:
  "traverse f (xs @ ys) = bindR (traverse f xs) (\<lambda>a. bindR (traverse f ys) (\<lambda>b. Inr (a @ b)))"
proof (induction xs)
  case Nil
  show ?case by (cases "traverse f ys") simp_all
next
  case (Cons x xs)
  then show ?case by (cases "f x"; cases "traverse f xs"; cases "traverse f ys") simp_all
qed

definition read_bytes :: "(string \<Rightarrow> json option) \<Rightarrow> string \<times> string \<Rightarrow> string + ledger_record list" where
  "read_bytes parse p = (case p of (n, bytes) \<Rightarrow>
     bindR (traverse (read_line parse n) (enumerate 0 (str_lines bytes))) (\<lambda>rs. Inr (concat rs)))"

definition read_all :: "(string \<Rightarrow> json option) \<Rightarrow> (string \<times> string) list \<Rightarrow> string + ledger_record list" where
  "read_all parse ps = bindR (traverse (read_bytes parse) ps) (\<lambda>rs. Inr (concat rs))"

definition named_bytes :: "directory \<Rightarrow> (string \<times> string) list" where
  "named_bytes d = map (\<lambda>n. (n, the (contents d n))) (segments d)"

lemma traverse_map: "traverse f (map g xs) = traverse (\<lambda>x. f (g x)) xs"
  by (induction xs) auto

lemma traverse_cong: "(\<And>x. x \<in> set xs \<Longrightarrow> f x = g x) \<Longrightarrow> traverse f xs = traverse g xs"
  by (induction xs) auto

lemma read_events_eq: "read_events parse d = read_all parse (named_bytes d)"
proof -
  have "read_segment_events parse d n = read_bytes parse (n, the (contents d n))" if "n \<in> set (segments d)" for n
    using that by (auto simp: in_segments read_segment_events_def read_bytes_def)
  then have "traverse (read_segment_events parse d) (segments d) = traverse (read_bytes parse) (named_bytes d)"
    unfolding named_bytes_def traverse_map by (rule traverse_cong)
  then show ?thesis by (simp add: read_events_def read_all_def)
qed

lemma read_all_append:
  "read_all parse (xs @ ys) = bindR (read_all parse xs) (\<lambda>a. bindR (read_all parse ys) (\<lambda>b. Inr (a @ b)))"
  by (cases "traverse (read_bytes parse) xs"; cases "traverse (read_bytes parse) ys")
    (simp_all add: read_all_def traverse_append)

lemma read_bytes_event:
  assumes "terminated bytes" "read_bytes parse (n, bytes) = Inr rs" "line_codec ser parse e"
  shows "read_bytes parse (n, bytes @ ser (event_to_json e) @ [CHR 0x0A])
    = Inr (rs @ [\<lparr> lr_segment = n, lr_line_number = length (str_lines bytes) + 1, lr_event = e \<rparr>])"
proof -
  from assms(2) obtain ls where ls: "traverse (read_line parse n) (enumerate 0 (str_lines bytes)) = Inr ls" "rs = concat ls"
    by (auto simp: read_bytes_def)
  have "str_lines (bytes @ ser (event_to_json e) @ [CHR 0x0A]) = str_lines bytes @ [ser (event_to_json e)]"
    using assms by (simp add: str_lines_append str_lines_line line_codec_def)
  then have "traverse (read_line parse n) (enumerate 0 (str_lines (bytes @ ser (event_to_json e) @ [CHR 0x0A])))
      = Inr (ls @ [[\<lparr> lr_segment = n, lr_line_number = length (str_lines bytes) + 1, lr_event = e \<rparr>]])"
    using ls(1) read_line_event [OF assms(3)] by (simp add: enumerate_append_eq traverse_append)
  with ls(2) show ?thesis by (simp add: read_bytes_def)
qed

text \<open>The provenance of a record: its segment and line hold the event.\<close>

definition located :: "(string \<Rightarrow> json option) \<Rightarrow> directory \<Rightarrow> ledger_record \<Rightarrow> bool" where
  "located parse d r \<longleftrightarrow> (\<exists>bytes. contents d (lr_segment r) = Some bytes \<and> 0 < lr_line_number r
     \<and> lr_line_number r \<le> length (str_lines bytes)
     \<and> Option.bind (parse (str_lines bytes ! (lr_line_number r - 1))) event_from_json = Some (lr_event r))"

lemma traverse_concat_mem:
  "traverse f xs = Inr ys \<Longrightarrow> y \<in> set (concat ys) \<Longrightarrow> \<exists>x \<in> set xs. \<exists>z. f x = Inr z \<and> y \<in> set z"
  by (induction xs arbitrary: ys) fastforce+

lemma read_events_located:
  assumes "read_events parse d = Inr rs" "r \<in> set rs"
  shows "located parse d r"
proof -
  from assms obtain n where n: "n \<in> set (segments d)" "\<exists>z. read_segment_events parse d n = Inr z \<and> r \<in> set z"
    by (auto simp: read_events_def dest!: traverse_concat_mem)
  then obtain bytes where b: "contents d n = Some bytes" by (auto simp: in_segments)
  with n obtain i l where "(i, l) \<in> set (enumerate 0 (str_lines bytes))" and l: "\<exists>z. read_line parse n (i, l) = Inr z \<and> r \<in> set z"
    by (fastforce simp: read_segment_events_def dest!: traverse_concat_mem)
  then have "i < length (str_lines bytes)" "str_lines bytes ! i = l"
    by (auto simp: in_set_enumerate_eq)
  with l b show ?thesis
    by (auto simp: read_line_def located_def split: if_splits option.splits)
qed

section \<open>Replay of a run\<close>

lemma named_bytes_zip: "named_bytes d = zip (segments d) (segment_bytes d)"
  by (simp add: named_bytes_def segment_bytes_def zip_map2 zip_same_conv_map)

lemma length_segment_bytes [simp]: "length (segment_bytes d) = length (segments d)"
  by (simp add: segment_bytes_def)

text \<open>A ledger whose segments end in complete lines reads as \<open>es\<close>.\<close>

definition reads_as :: "(string \<Rightarrow> json option) \<Rightarrow> directory \<Rightarrow> ledger_event list \<Rightarrow> bool" where
  "reads_as parse d es \<longleftrightarrow> (\<forall>bs \<in> set (segment_bytes d). terminated bs)
     \<and> (\<exists>rs. read_events parse d = Inr rs \<and> map lr_event rs = es)"

lemma reads_as_empty [simp]: "reads_as parse [] []"
  by (simp add: reads_as_def segment_bytes_def segments_def read_events_def)

lemma reads_as_cong:
  "segments d' = segments d \<Longrightarrow> segment_bytes d' = segment_bytes d \<Longrightarrow> reads_as parse d' es = reads_as parse d es"
  by (simp add: reads_as_def read_events_eq named_bytes_zip)

lemma read_append_file:
  assumes "\<forall>bs \<in> set (segment_bytes d). terminated bs" "read_events parse d = Inr rs" "line_codec ser parse e"
    and "distinct (map f_name d)" "extends_last t d \<or> opens_new t d"
  defines "line \<equiv> ser (event_to_json e) @ [CHR 0x0A]"
  shows "\<exists>k. read_events parse (append_file t line now d) = Inr (rs @ [\<lparr> lr_segment = t, lr_line_number = k, lr_event = e \<rparr>])"
    and "\<forall>bs \<in> set (segment_bytes (append_file t line now d)). terminated bs"
proof -
  let ?d = "append_file t line now d"
  note t = assms(1) and rs = assms(2) [unfolded read_events_eq]
  note segs = segments_append_file [OF assms(4,5), of line now] and sb = segment_bytes_append_file [OF assms(4,5), of line now]
  have one: "read_all parse [(n, bs @ line)] = Inr (q @ [\<lparr> lr_segment = n, lr_line_number = length (str_lines bs) + 1, lr_event = e \<rparr>])"
    if "terminated bs" "read_bytes parse (n, bs) = Inr q" for n bs q
    using read_bytes_event [OF that assms(3)] by (simp add: read_all_def line_def)
  show "\<exists>k. read_events parse ?d = Inr (rs @ [\<lparr> lr_segment = t, lr_line_number = k, lr_event = e \<rparr>])"
    unfolding read_events_eq
  proof (cases "extends_last t d")
    case True
    then obtain ss where ss: "segments d = ss @ [t]" by (metis append_butlast_last_id extends_last_def)
    then have "segment_bytes d \<noteq> []" by (metis length_segment_bytes length_0_conv snoc_eq_iff_butlast)
    then obtain xs b where xs: "segment_bytes d = xs @ [b]" by (metis append_butlast_last_id)
    have l: "length ss = length xs" using length_segment_bytes [of d] by (simp add: ss xs)
    have nd: "named_bytes d = zip ss xs @ [(t, b)]" "named_bytes ?d = zip ss xs @ [(t, b @ line)]"
      using True segs sb l by (simp_all add: named_bytes_zip ss xs)
    from rs obtain p q where p: "read_all parse (zip ss xs) = Inr p" "read_bytes parse (t, b) = Inr q" "rs = p @ q"
      by (auto simp: nd read_all_append read_all_def [of _ "[(t, b)]"])
    with one [of b t q] t show "\<exists>k. read_all parse (named_bytes ?d) = Inr (rs @ [\<lparr> lr_segment = t, lr_line_number = k, lr_event = e \<rparr>])"
      by (simp add: nd read_all_append xs)
  next
    case False
    then have nd: "named_bytes ?d = named_bytes d @ [(t, line)]" using segs sb by (simp add: named_bytes_zip)
    have "read_bytes parse (t, []) = Inr []" by (simp add: read_bytes_def str_lines_def)
    with one [of "[]" t "[]"] rs show "\<exists>k. read_all parse (named_bytes ?d) = Inr (rs @ [\<lparr> lr_segment = t, lr_line_number = k, lr_event = e \<rparr>])"
      by (simp add: nd read_all_append terminated_def)
  qed
  show "\<forall>bs \<in> set (segment_bytes ?d). terminated bs"
    unfolding sb using t by (auto simp: line_def terminated_def dest: in_set_butlastD)
qed

lemma reads_as_append_file:
  assumes "reads_as parse d es" "line_codec ser parse e"
    and "distinct (map f_name d)" "extends_last t d \<or> opens_new t d"
  shows "reads_as parse (append_file t (ser (event_to_json e) @ [CHR 0x0A]) now d) (es @ [e])"
proof -
  from assms(1) obtain rs where t: "\<forall>bs \<in> set (segment_bytes d). terminated bs"
    and rs: "read_events parse d = Inr rs" "map lr_event rs = es"
    by (auto simp: reads_as_def)
  from read_append_file [OF t rs(1) assms(2-4), of now] rs(2) show ?thesis by (auto simp: reads_as_def)
qed

type_synonym event_op = "nat \<times> write_outcome \<times> ledger_event"

definition event_run :: "(json \<Rightarrow> string) \<Rightarrow> ledger_writer \<Rightarrow> event_op list \<Rightarrow> directory \<Rightarrow> directory" where
  "event_run ser w ops d = ledger_run w (map (\<lambda>(now, r, e). (now, r, ser (event_to_json e) @ [CHR 0x0A])) ops) d"

lemma event_run_simps [simp]:
  "event_run ser w [] d = d"
  "event_run ser w ((now, r, e) # ops) d = event_run ser w ops (snd (ledger_append ser w now r e d))"
  by (simp_all add: event_run_def ledger_append_def)

fun torn :: "write_outcome \<Rightarrow> bool" where
  "torn (TornAt _) = True"
| "torn _ = False"

fun recorded :: "write_outcome \<Rightarrow> bool" where
  "recorded SyncFailed = True"
| "recorded Written = True"
| "recorded _ = False"

lemma reads_as_append:
  assumes "reads_as parse d es" "line_codec ser parse e" "ledger_inv N d" "Suc N < max_index" "\<not> torn r"
  shows "reads_as parse (snd (ledger_append ser w now r e d)) (es @ (if recorded r then [e] else []))"
proof -
  let ?l = "append_file append_lock [] now d" and ?line = "ser (event_to_json e) @ [CHR 0x0A]"
  have l: "reads_as parse ?l es" using assms(1) by (simp add: reads_as_cong [of ?l d])
  have inv: "ledger_inv N ?l" using assms(3) by simp
  then have dist: "distinct (map f_name ?l)" by (simp add: ledger_inv_def)
  from append_target_cases [OF inv assms(4)]
  have "extends_last (append_target w now ?line ?l) ?l \<or> opens_new (append_target w now ?line ?l) ?l" by blast
  from reads_as_append_file [OF l assms(2) dist this] l assms(1,5) show ?thesis
    by (cases r) (simp_all add: ledger_append_def append_line_def Let_def)
qed

lemma reads_as_run:
  assumes "reads_as parse d es" "ledger_inv N d" "N + length ops < max_index"
    and "\<forall>(now, r, e) \<in> set ops. line_codec ser parse e \<and> \<not> torn r"
  shows "reads_as parse (event_run ser w ops d) (es @ map (\<lambda>(now, r, e). e) (filter (\<lambda>(now, r, e). recorded r) ops))"
  using assms
proof (induction ops arbitrary: d es N)
  case (Cons op ops)
  obtain now r e where op: "op = (now, r, e)" by (cases op) auto
  let ?d = "snd (ledger_append ser w now r e d)"
  have b: "Suc N < max_index" using Cons.prems by simp
  have "reads_as parse ?d (es @ (if recorded r then [e] else []))"
    using Cons.prems(4) by (intro reads_as_append [OF Cons.prems(1) _ Cons.prems(2) b]) (auto simp: op)
  moreover have "ledger_inv (Suc N) ?d"
    unfolding ledger_append_def by (rule append_line_refines(1) [OF Cons.prems(2) b])
  ultimately have "reads_as parse (event_run ser w ops ?d)
      ((es @ (if recorded r then [e] else [])) @ map (\<lambda>(now, r, e). e) (filter (\<lambda>(now, r, e). recorded r) ops))"
    by (rule Cons.IH) (use Cons.prems in auto)
  then show ?case by (simp add: op split: if_splits)
qed simp

end
