(* ===== verification/Event_Log.thy ===== *)
theory Event_Log
  imports Ledger_Replay
begin

text \<open>
  The event log (\<^verbatim>\<open>services/event_log.rs\<close>) and the health of its sink
  (\<^verbatim>\<open>services/sink_health.rs\<close>): the allocation of run sequence numbers, the canonical ledger event
  and the compatibility view per agent, and what is recorded about failures. Every write may fail; how
  far it gets is an argument. The allocation and the append each hold a file lock, so that
  processes interleave between them and not inside.
\<close>

section \<open>Canonical payloads\<close>

text \<open>\<^verbatim>\<open>entry(k).or_insert_with(..)\<close>.\<close>

definition or_insert :: "string \<Rightarrow> json \<Rightarrow> json_object \<Rightarrow> json_object" where
  "or_insert k v ob = (if obj_get ob k = None then obj_insert k v ob else ob)"

definition canonical_review_wakeup_data :: "string \<Rightarrow> nat \<Rightarrow> string \<Rightarrow> json \<Rightarrow> json" where
  "canonical_review_wakeup_data branch pr_number head_sha payload =
     (let data = (case as_object payload of Some ob \<Rightarrow> ob | None \<Rightarrow> [(''payload'', payload)]);
          data = or_insert ''branch'' (JStr branch) data;
          data = or_insert ''pr_number'' (json_u64 pr_number) data;
          data = or_insert ''head_sha'' (JStr head_sha) data in
      JObj (if Option.bind (obj_get data ''kind'') as_str \<in> {Some ''approved'', Some ''reviewer_approved''}
            then or_insert ''findings'' (JArr []) data else data))"

definition canonical_sibling_merged_data ::
  "nat \<Rightarrow> string \<Rightarrow> string \<Rightarrow> string option \<Rightarrow> string \<Rightarrow> nat \<Rightarrow> json \<Rightarrow> json" where
  "canonical_sibling_merged_data merged_pr_number merged_branch parent_branch head_sha recipient recipient_pr_number payload =
     JObj [(''pr_number'', json_u64 merged_pr_number), (''branch'', JStr merged_branch),
           (''parent'', JStr parent_branch), (''head_sha'', json_opt JStr head_sha),
           (''head_sha_finding'', (case head_sha of Some _ \<Rightarrow> JNull
              | None \<Rightarrow> JStr ''not_available_without_verified_pr_context'')),
           (''recipient'', JStr recipient), (''recipient_pr_number'', json_u64 recipient_pr_number),
           (''payload'', payload)]"

section \<open>Sink health\<close>

record sink_health =
  sh_session_id :: "string option"
  sh_accepted_event_count :: nat
  sh_rejected_event_count :: nat
  sh_write_failure_count :: nat
  sh_last_successful_seq :: "nat option"
  sh_measurement_status :: string
  sh_last_error :: "string option"
  sh_updated_at :: string

definition sink_health_default :: "string \<Rightarrow> sink_health" where
  "sink_health_default now =
     \<lparr> sh_session_id = None, sh_accepted_event_count = 0, sh_rejected_event_count = 0,
       sh_write_failure_count = 0, sh_last_successful_seq = None, sh_measurement_status = ''unknown'',
       sh_last_error = None, sh_updated_at = now \<rparr>"

text \<open>The health file: absent, not readable as health, or stored.\<close>

datatype health_file = HealthAbsent | HealthUnreadable | HealthStored sink_health

text \<open>\<open>ok\<close> says whether the temporary file could be written and renamed.\<close>

definition update_health ::
  "bool \<Rightarrow> string \<Rightarrow> string option \<Rightarrow> (sink_health \<Rightarrow> sink_health) \<Rightarrow> health_file \<Rightarrow> (string + unit) \<times> health_file" where
  "update_health ok now session_id mutate f =
     (let go = (\<lambda>h.
        let h1 = (if sh_session_id h \<noteq> session_id then sink_health_default now \<lparr> sh_session_id := session_id \<rparr> else h);
            h2 = mutate h1 \<lparr> sh_updated_at := now \<rparr> in
        if ok then (Inr (), HealthStored h2) else (Inl ''replace sink health'', f)) in
      case f of
        HealthUnreadable \<Rightarrow> (Inl ''parse sink health'', f)
      | HealthAbsent \<Rightarrow> go (sink_health_default now)
      | HealthStored h \<Rightarrow> go h)"

definition record_success :: "bool \<Rightarrow> string \<Rightarrow> string option \<Rightarrow> nat \<Rightarrow> health_file \<Rightarrow> (string + unit) \<times> health_file" where
  "record_success ok now session_id run_seq =
     update_health ok now session_id (\<lambda>h. h \<lparr>
       sh_accepted_event_count := u64_saturating_add (sh_accepted_event_count h) 1,
       sh_last_successful_seq := Some run_seq, sh_measurement_status := ''complete'', sh_last_error := None \<rparr>)"

text \<open>\<open>digest\<close> is the SHA-256 of the error in hexadecimal.\<close>

definition record_failure ::
  "(string \<Rightarrow> string) \<Rightarrow> bool \<Rightarrow> string \<Rightarrow> string option \<Rightarrow> string \<Rightarrow> health_file \<Rightarrow> (string + unit) \<times> health_file" where
  "record_failure digest ok now session_id error =
     update_health ok now session_id (\<lambda>h. h \<lparr>
       sh_rejected_event_count := u64_saturating_add (sh_rejected_event_count h) 1,
       sh_write_failure_count := u64_saturating_add (sh_write_failure_count h) 1,
       sh_measurement_status := ''partial'', sh_last_error := Some (digest error) \<rparr>)"

definition startup_status :: "health_file \<Rightarrow> string option \<Rightarrow> string" where
  "startup_status f session_id =
     (case f of
        HealthStored h \<Rightarrow>
          if sh_session_id h \<noteq> session_id then ''unknown''
          else if sh_write_failure_count h > 0 then ''partial'' else ''complete''
      | _ \<Rightarrow> ''unknown'')"

section \<open>The log\<close>

record event_log =
  el_sequence :: "string option"
  el_ledger :: directory
  el_views :: directory
  el_health :: health_file

definition event_log_open :: event_log where
  "event_log_open = \<lparr> el_sequence = None, el_ledger = [], el_views = [], el_health = HealthAbsent \<rparr>"

text \<open>What one append finds around it: the fresh UUID, the clock as it is read in turn, the project files
  \<^verbatim>\<open>run_id\<close> and \<^verbatim>\<open>session.json\<close> (\<open>None\<close> when missing or not JSON), and how far its
  writes get.\<close>

record log_env =
  en_uuid :: string
  en_now :: string
  en_observed_at :: string
  en_health_now :: string
  en_clock :: nat
  en_run_id_file :: "string option"
  en_session_file :: "json option"
  en_sequence_ok :: bool
  en_ledger_write :: write_outcome
  en_view_write :: write_outcome
  en_health_ok :: bool

definition string_field :: "json \<Rightarrow> string \<Rightarrow> string option" where
  "string_field v k = Option.bind (value_get v k) as_str"

definition run_id :: "log_env \<Rightarrow> string option" where
  "run_id en = nonempty (map_option str_trim (en_run_id_file en))"

definition session_id :: "log_env \<Rightarrow> string option" where
  "session_id en = Option.bind (en_session_file en) (\<lambda>v. string_field v ''session_id'')"

definition allocate_sequence :: "bool \<Rightarrow> string option \<Rightarrow> (string + nat) \<times> string option" where
  "allocate_sequence ok f =
     (let current = (case f of None \<Rightarrow> Inr 0
        | Some s \<Rightarrow> (case parse_u64 (str_trim s) of None \<Rightarrow> Inl ''invalid run_seq'' | Some n \<Rightarrow> Inr n)) in
      case current of
        Inl e \<Rightarrow> (Inl e, f)
      | Inr n \<Rightarrow>
          if n + 1 \<ge> 2 ^ 64 then (Inl ''run_seq exhausted'', f)
          else if ok then (Inr (n + 1), Some (nat_str (n + 1))) else (Inl ''store run_seq'', f))"

definition canonical_event :: "log_env \<Rightarrow> nat \<Rightarrow> string \<Rightarrow> string \<Rightarrow> json \<Rightarrow> ledger_event" where
  "canonical_event en run_seq event_type agent_id data =
     \<lparr> le_schema_version = 1, le_event_id = en_uuid en, le_id = en_uuid en,
       le_event_time = (case string_field data ''event_time'' of Some t \<Rightarrow> t | None \<Rightarrow> en_now en),
       le_observed_at = en_observed_at en, le_run_seq = Some run_seq, le_event_type = event_type,
       le_agent_id = Some agent_id, le_run_id = run_id en, le_session_id = session_id en,
       le_invocation_id = string_field data ''invocation_id'',
       le_generation = Option.bind (value_get data ''generation'') as_u64,
       le_provider = string_field data ''provider'', le_runtime = string_field data ''runtime'',
       le_harness = string_field data ''harness'', le_role = string_field data ''role'',
       le_source = (case string_field data ''source'' of Some s \<Rightarrow> s | None \<Rightarrow> ''rust''),
       le_lifecycle_state = (case string_field data ''lifecycle_state'' of Some s \<Rightarrow> s | None \<Rightarrow> ''emitted''),
       le_data = data \<rparr>"

definition legacy_event :: "log_env \<Rightarrow> string \<Rightarrow> string \<Rightarrow> json \<Rightarrow> json" where
  "legacy_event en event_type agent_id data =
     JObj [(''ts'', JStr (en_observed_at en)), (''id'', JStr (en_uuid en)), (''type'', JStr event_type),
           (''agent_id'', JStr agent_id), (''data'', data)]"

definition view_name :: "string \<Rightarrow> string" where
  "view_name agent_id =
     map (\<lambda>c. if c = CHR ''/'' \<or> c = CHR 0x5C \<or> c = CHR 0x00 then CHR ''_'' else c) agent_id @ ''.jsonl''"

definition append_view :: "write_outcome \<Rightarrow> nat \<Rightarrow> string \<Rightarrow> string \<Rightarrow> directory \<Rightarrow> (string + unit) \<times> directory" where
  "append_view r now name line d =
     (case r of
        TornAt k \<Rightarrow> (Inl ''write event view'', append_file name (take k line) now d)
      | SyncFailed \<Rightarrow> (Inl ''sync event view'', append_file name line now d)
      | Written \<Rightarrow> (Inr (), append_file name line now d)
      | _ \<Rightarrow> (Inl ''open event view'', d))"

definition fail_append ::
  "(string \<Rightarrow> string) \<Rightarrow> log_env \<Rightarrow> string \<Rightarrow> event_log \<Rightarrow> (string + 'a) \<times> event_log" where
  "fail_append digest en error st =
     (Inl error, st \<lparr> el_health := snd (record_failure digest (en_health_ok en) (en_health_now en) (session_id en) error (el_health st)) \<rparr>)"

definition begin_append :: "(string \<Rightarrow> string) \<Rightarrow> log_env \<Rightarrow> event_log \<Rightarrow> (string + nat) \<times> event_log" where
  "begin_append digest en st =
     (case allocate_sequence (en_sequence_ok en) (el_sequence st) of
        (Inl e, _) \<Rightarrow> fail_append digest en e st
      | (Inr n, f) \<Rightarrow> (Inr n, st \<lparr> el_sequence := f \<rparr>))"

definition commit_append ::
  "(json \<Rightarrow> string) \<Rightarrow> (string \<Rightarrow> string) \<Rightarrow> ledger_writer \<Rightarrow> log_env \<Rightarrow> nat \<Rightarrow> string \<Rightarrow> string \<Rightarrow> json \<Rightarrow> event_log
     \<Rightarrow> (string + string \<times> nat) \<times> event_log" where
  "commit_append ser digest w en run_seq event_type agent_id data st =
     (case ledger_append ser w (en_clock en) (en_ledger_write en)
             (canonical_event en run_seq event_type agent_id data) (el_ledger st) of
        (Inl e, d) \<Rightarrow> fail_append digest en e (st \<lparr> el_ledger := d \<rparr>)
      | (Inr _, d) \<Rightarrow>
          (let st1 = st \<lparr> el_ledger := d \<rparr> in
           case append_view (en_view_write en) (en_clock en) (view_name agent_id)
                  (ser (legacy_event en event_type agent_id data) @ [CHR 0x0A]) (el_views st1) of
             (Inl e, v) \<Rightarrow> fail_append digest en e (st1 \<lparr> el_views := v \<rparr>)
           | (Inr _, v) \<Rightarrow>
               (let st2 = st1 \<lparr> el_views := v \<rparr> in
                (Inr (en_uuid en, run_seq),
                 st2 \<lparr> el_health := snd (record_success (en_health_ok en) (en_health_now en) (session_id en) run_seq (el_health st2)) \<rparr>))))"

definition append_with_seq ::
  "(json \<Rightarrow> string) \<Rightarrow> (string \<Rightarrow> string) \<Rightarrow> ledger_writer \<Rightarrow> log_env \<Rightarrow> string \<Rightarrow> string \<Rightarrow> json \<Rightarrow> event_log
     \<Rightarrow> (string + string \<times> nat) \<times> event_log" where
  "append_with_seq ser digest w en event_type agent_id data st =
     (case begin_append digest en st of
        (Inl e, st1) \<Rightarrow> (Inl e, st1)
      | (Inr n, st1) \<Rightarrow> commit_append ser digest w en n event_type agent_id data st1)"

end
