(* ===== verification/Event_Sequence.thy ===== *)
theory Event_Sequence
  imports Event_Log
begin

text \<open>
  The run sequence over all processes that write to one log: numbers are drawn and events committed in
  separate critical sections, processes die in between or in the middle of a write, and writes fail.
  Every number is committed at most once; as long as no write was torn, the ledger reads as the
  recorded commits and the status of the sequence tells a gap; after a torn write what was recorded
  before it is still on disk.
\<close>

section \<open>The sequence file\<close>

lemma white_space_no_digit: "w \<in> set white_space \<Longrightarrow> \<not> is_ascii_digit (hd w) \<and> \<not> is_ascii_digit (last w)"
proof -
  have "list_all (\<lambda>w. \<not> is_ascii_digit (hd w) \<and> \<not> is_ascii_digit (last w)) white_space" by code_simp
  then show "w \<in> set white_space \<Longrightarrow> \<not> is_ascii_digit (hd w) \<and> \<not> is_ascii_digit (last w)" by (simp add: list_all_iff)
qed

lemma leading_space_digit: "is_ascii_digit c \<Longrightarrow> leading_space (c # s) = None"
  using white_space_no_digit white_space_nonempty
  by (fastforce simp: leading_space_def find_None_iff neq_Nil_conv)

lemma trailing_space_digit: "is_ascii_digit c \<Longrightarrow> trailing_space (s @ [c]) = None"
  using white_space_no_digit white_space_nonempty
  by (fastforce simp: trailing_space_def find_None_iff ends_with_iff append_eq_append_conv2 neq_Nil_conv
      dest: last_appendR split: if_splits)

lemma str_trim_nat_str [simp]: "str_trim (nat_str n) = nat_str n"
proof -
  have d: "\<And>c. c \<in> set (nat_str n) \<Longrightarrow> is_ascii_digit c" using nat_str_digits [of n] by (simp add: list_all_iff)
  obtain c s where c: "nat_str n = c # s" using nat_str_nonempty [of n] by (cases "nat_str n") auto
  obtain t e where e: "nat_str n = t @ [e]" using nat_str_nonempty [of n] by (cases "nat_str n" rule: rev_cases) auto
  have "trim_start (nat_str n) = nat_str n"
    using d c by (subst trim_start.simps) (simp add: leading_space_digit)
  moreover have "trim_end (nat_str n) = nat_str n"
    using d e by (subst trim_end.simps) (simp add: trailing_space_digit)
  ultimately show ?thesis by (simp add: str_trim_def)
qed

lemma parse_u64_nat_str [simp]: "n < 2 ^ 64 \<Longrightarrow> parse_u64 (nat_str n) = Some n"
proof -
  assume n: "n < 2 ^ 64"
  obtain c s where c: "nat_str n = c # s" using nat_str_nonempty [of n] by (cases "nat_str n") auto
  with nat_str_digits [of n] have "c \<noteq> CHR ''+''" by (auto simp: is_ascii_digit_def)
  with c have "strip_prefix ''+'' (nat_str n) = None" by (simp add: strip_prefix_def starts_with_def)
  with n show ?thesis by (simp add: parse_u64_def)
qed

text \<open>The last number drawn.\<close>

definition last_drawn :: "event_log \<Rightarrow> nat" where
  "last_drawn st = (case el_sequence st of None \<Rightarrow> 0 | Some s \<Rightarrow> digits_value s)"

definition counter_at :: "nat \<Rightarrow> event_log \<Rightarrow> bool" where
  "counter_at n st \<longleftrightarrow> n < 2 ^ 64 \<and> (el_sequence st = Some (nat_str n) \<or> el_sequence st = None \<and> n = 0)"

lemma counter_at_last_drawn: "counter_at n st \<Longrightarrow> last_drawn st = n"
  by (auto simp: counter_at_def last_drawn_def)

lemma allocate_sequence_at:
  assumes "counter_at n st"
  shows "allocate_sequence ok (el_sequence st) =
    (if n + 1 \<ge> 2 ^ 64 then (Inl ''run_seq exhausted'', el_sequence st)
     else if ok then (Inr (n + 1), Some (nat_str (n + 1))) else (Inl ''store run_seq'', el_sequence st))"
  using assms by (auto simp: allocate_sequence_def counter_at_def)

section \<open>Status\<close>

lemma contiguous_upt:
  assumes "sorted_wrt (<) xs" "xs \<noteq> []" "\<forall>x \<in> set xs. x < 2 ^ 64 - 1"
  shows "contiguous xs \<longleftrightarrow> xs = [hd xs..<Suc (last xs)]"
  using assms
proof (induction xs rule: contiguous.induct)
  case (1 a b xs)
  have le: "b \<le> last (b # xs)"
    using 1(2) by (cases xs rule: rev_cases) (auto simp: sorted_wrt_append)
  have s: "u64_saturating_add a 1 = Suc a" using 1(4) by (simp add: u64_saturating_add_def)
  show ?case
  proof (cases "b = Suc a")
    case True
    then have "[a..<Suc (last (b # xs))] = a # [b..<Suc (last (b # xs))]"
      using le by (simp add: upt_conv_Cons)
    moreover have "contiguous (b # xs) \<longleftrightarrow> b # xs = [b..<Suc (last (b # xs))]"
      using 1 True s by simp
    ultimately show ?thesis using True s by simp
  next
    case False
    have "a # b # xs \<noteq> [a..<Suc (last (b # xs))]"
    proof
      define l where "l = last (b # xs)"
      assume "a # b # xs = [a..<Suc (last (b # xs))]"
      then have eq: "[a..<Suc l] = a # b # xs" by (simp only: l_def)
      then have "length [a..<Suc l] = length xs + 2" by (simp only: list.size)
      then have "a + 1 < Suc l" by (simp only: length_upt)
      then have "[a..<Suc l] ! 1 = a + 1" by (simp only: nth_upt)
      with eq False show False by simp
    qed
    with False s show ?thesis by simp
  qed
qed auto

lemma sorted_wrt_bounds:
  "sorted_wrt (<) xs \<Longrightarrow> x \<in> set xs \<Longrightarrow> hd xs \<le> x \<and> x \<le> last xs" for xs :: "nat list"
proof (induction xs)
  case (Cons a xs)
  then show ?case using last_in_set [of xs] by (cases "xs = []") (auto intro: less_imp_le)
qed simp

lemma status_complete_iff:
  assumes "distinct ns" "\<forall>n \<in> set ns. n < 2 ^ 64 - 1"
  shows "status_of_sequences ns = ''complete'' \<longleftrightarrow> (ns \<noteq> [] \<and> set ns = {Min (set ns)..Max (set ns)})"
proof (cases "ns = []")
  case False
  let ?s = "sort ns"
  have s: "sorted_wrt (<) ?s" using assms(1) by (simp add: strict_sorted_iff)
  have ne: "?s \<noteq> []" using False by (metis set_empty set_sort)
  have mm: "hd ?s = Min (set ns)" "last ?s = Max (set ns)"
    using ne sorted_wrt_bounds [OF s] hd_in_set [OF ne] last_in_set [OF ne]
    by (auto intro!: Min_eqI [symmetric] Max_eqI [symmetric])
  have "contiguous ?s \<longleftrightarrow> ?s = [hd ?s..<Suc (last ?s)]"
    using assms(2) by (intro contiguous_upt [OF s ne]) simp
  also have "\<dots> \<longleftrightarrow> set ns = {Min (set ns)..Max (set ns)}"
  proof
    assume "?s = [hd ?s..<Suc (last ?s)]"
    then have "set ?s = {hd ?s..<Suc (last ?s)}" by (metis set_upt)
    then show "set ns = {Min (set ns)..Max (set ns)}" by (simp add: mm atLeastLessThanSuc_atLeastAtMost)
  next
    assume "set ns = {Min (set ns)..Max (set ns)}"
    then have "set ?s = set [hd ?s..<Suc (last ?s)]"
      unfolding mm set_sort set_upt atLeastLessThanSuc_atLeastAtMost .
    then show "?s = [hd ?s..<Suc (last ?s)]"
      by (rule sorted_distinct_set_unique [OF sorted_sort _ sorted_upt distinct_upt, rotated]) (simp add: assms(1))
  qed
  finally show ?thesis using False by (simp add: status_of_sequences_def)
qed (simp add: status_of_sequences_def)

section \<open>The log as a machine\<close>

text \<open>The state of the log, the numbers that processes have drawn and not yet used, and the commits made
  so far with the outcome of their write, which the code does not store. A process that dies between its
  two critical sections loses its number; one that dies while it writes is a commit with a torn
  write.\<close>

record log_world =
  lg_log :: event_log
  lg_held :: "nat list"
  lg_commits :: "(nat \<times> write_outcome) list"

inductive log_step ::
  "(json \<Rightarrow> string) \<Rightarrow> (string \<Rightarrow> json option) \<Rightarrow> (string \<Rightarrow> string) \<Rightarrow> ledger_writer
     \<Rightarrow> log_world \<Rightarrow> log_world \<Rightarrow> bool"
  for ser parse digest w where
  draw: "begin_append digest en (lg_log s) = (Inr n, st) \<Longrightarrow>
    log_step ser parse digest w s (s\<lparr>lg_log := st, lg_held := n # lg_held s\<rparr>)"
| draw_fails: "begin_append digest en (lg_log s) = (Inl e, st) \<Longrightarrow>
    log_step ser parse digest w s (s\<lparr>lg_log := st\<rparr>)"
| commit: "n \<in> set (lg_held s) \<Longrightarrow> line_codec ser parse (canonical_event en n event_type agent_id data)
    \<Longrightarrow> commit_append ser digest w en n event_type agent_id data (lg_log s) = (res, st)
    \<Longrightarrow> log_step ser parse digest w s (s\<lparr>lg_log := st, lg_held := remove1 n (lg_held s),
          lg_commits := lg_commits s @ [(n, en_ledger_write en)]\<rparr>)"
| die: "n \<in> set (lg_held s) \<Longrightarrow>
    log_step ser parse digest w s (s\<lparr>lg_held := remove1 n (lg_held s)\<rparr>)"

inductive_cases log_stepE: "log_step ser parse digest w s s'"

definition log_start :: "log_world \<Rightarrow> bool" where
  "log_start s \<longleftrightarrow> s = \<lparr>lg_log = event_log_open, lg_held = [], lg_commits = []\<rparr>"

text \<open>The numbers whose line reached a segment, the commits before the first torn write, and what it means
  that no file of \<open>d\<close> lost or changed a byte in \<open>d'\<close>.\<close>

definition recorded_numbers :: "(nat \<times> write_outcome) list \<Rightarrow> nat list" where
  "recorded_numbers cs = map fst (filter (\<lambda>c. recorded (snd c)) cs)"

definition untorn :: "(nat \<times> write_outcome) list \<Rightarrow> (nat \<times> write_outcome) list" where
  "untorn cs = takeWhile (\<lambda>c. \<not> torn (snd c)) cs"

definition keeps_bytes :: "directory \<Rightarrow> directory \<Rightarrow> bool" where
  "keeps_bytes d d' \<longleftrightarrow> (\<forall>n b. contents d n = Some b \<longrightarrow> (\<exists>e. contents d' n = Some (b @ e)))"

definition none_torn :: "(nat \<times> write_outcome) list \<Rightarrow> bool" where
  "none_torn cs \<longleftrightarrow> list_all (\<lambda>c. \<not> torn (snd c)) cs"

lemma untorn_snoc: "untorn (cs @ [c]) = (if none_torn cs \<and> \<not> torn (snd c) then cs @ [c] else untorn cs)"
  by (induction cs) (auto simp: untorn_def none_torn_def)

lemma none_torn_snoc [simp]: "none_torn (cs @ [c]) \<longleftrightarrow> none_torn cs \<and> \<not> torn (snd c)"
  by (simp add: none_torn_def)

lemma untorn_id [simp]: "none_torn cs \<Longrightarrow> untorn cs = cs"
  by (simp add: untorn_def none_torn_def list_all_iff takeWhile_eq_all_conv)

lemma recorded_numbers_snoc [simp]:
  "recorded_numbers (cs @ [(n, r)]) = recorded_numbers cs @ (if recorded r then [n] else [])"
  by (simp add: recorded_numbers_def)

lemma keeps_bytes_refl [simp]: "keeps_bytes d d"
  by (auto simp: keeps_bytes_def)

lemma keeps_bytes_append:
  "keeps_bytes d d' \<Longrightarrow> keeps_bytes d (snd (ledger_append ser w now r e d'))"
  unfolding keeps_bytes_def ledger_append_def using append_line_extends by (metis append_assoc)

text \<open>The invariant: the numbers of commits and those held are different and drawn; and some
  directory, the present one as long as no write was torn, reads as the recorded commits before the first
  torn write and has lost no byte since.\<close>

definition commits_kept :: "(string \<Rightarrow> json option) \<Rightarrow> (nat \<times> write_outcome) list \<Rightarrow> directory \<Rightarrow> bool" where
  "commits_kept parse cs d \<longleftrightarrow> (\<exists>d0 es. reads_as parse d0 es \<and> map le_run_seq es = map Some (recorded_numbers (untorn cs))
     \<and> keeps_bytes d0 d \<and> (none_torn cs \<longrightarrow> d0 = d))"

definition log_inv :: "(string \<Rightarrow> json option) \<Rightarrow> log_world \<Rightarrow> bool" where
  "log_inv parse s \<longleftrightarrow>
     (\<exists>c. counter_at c (lg_log s)
       \<and> distinct (map fst (lg_commits s) @ lg_held s) \<and> set (map fst (lg_commits s) @ lg_held s) \<subseteq> {1..c}
       \<and> (c < max_index \<longrightarrow> ledger_inv (length (lg_commits s)) (el_ledger (lg_log s))
            \<and> commits_kept parse (lg_commits s) (el_ledger (lg_log s))))"

lemma log_inv_start: "log_start s \<Longrightarrow> log_inv parse s"
proof -
  have "counter_at 0 event_log_open" by (simp add: counter_at_def event_log_open_def)
  then show "log_start s \<Longrightarrow> log_inv parse s"
    by (auto simp: log_start_def log_inv_def commits_kept_def untorn_def recorded_numbers_def event_log_open_def
        intro!: exI [of _ "0 :: nat"] exI [of _ "[]"])
qed

lemma begin_append_frame:
  assumes "begin_append digest en st = (r, st')"
  shows "el_ledger st' = el_ledger st" "el_views st' = el_views st"
    "r = Inl e \<Longrightarrow> el_sequence st' = el_sequence st"
  using assms by (auto simp: begin_append_def fail_append_def split: prod.splits sum.splits)

lemma begin_append_draws:
  assumes "begin_append digest en st = (Inr n, st')" "counter_at c st"
  shows "n = c + 1" "counter_at (c + 1) st'"
  using assms by (auto simp: begin_append_def fail_append_def allocate_sequence_at counter_at_def
      split: prod.splits sum.splits if_splits)

lemma commit_append_frame:
  assumes "commit_append ser digest w en n event_type agent_id data st = (r, st')"
  shows "el_sequence st' = el_sequence st"
    "el_ledger st' = snd (ledger_append ser w (en_clock en) (en_ledger_write en) (canonical_event en n event_type agent_id data) (el_ledger st))"
  using assms by (auto simp: commit_append_def fail_append_def Let_def split: prod.splits sum.splits)

lemma counter_at_cong: "el_sequence st' = el_sequence st \<Longrightarrow> counter_at c st' = counter_at c st"
  by (simp add: counter_at_def)

lemma commits_below:
  assumes "distinct (map fst cs @ n # ps)" "set (map fst cs @ n # ps) \<subseteq> {1..c}"
  shows "Suc (length cs) \<le> c"
proof -
  have "card (set (map fst cs @ n # ps)) \<le> card {1..c}" by (rule card_mono [OF _ assms(2)]) simp
  with distinct_card [OF assms(1)] show ?thesis by simp
qed

lemma commits_kept_commit:
  assumes "commits_kept parse cs d" "ledger_inv (length cs) d" "Suc (length cs) < max_index"
    and "line_codec ser parse e" "le_run_seq e = Some n"
  shows "commits_kept parse (cs @ [(n, r)]) (snd (ledger_append ser w now r e d))"
proof -
  from assms(1) obtain d0 es where d0: "reads_as parse d0 es"
    "map le_run_seq es = map Some (recorded_numbers (untorn cs))" "keeps_bytes d0 d" "none_torn cs \<Longrightarrow> d0 = d"
    by (auto simp: commits_kept_def)
  show ?thesis
  proof (cases "none_torn cs \<and> \<not> torn r")
    case True
    with d0(1,4) have "reads_as parse (snd (ledger_append ser w now r e d)) (es @ (if recorded r then [e] else []))"
      by (intro reads_as_append [OF _ assms(4,2,3)]) auto
    moreover have "map le_run_seq (es @ (if recorded r then [e] else [])) = map Some (recorded_numbers (untorn (cs @ [(n, r)])))"
      using d0(2) True assms(5) by (simp add: untorn_snoc)
    ultimately show ?thesis unfolding commits_kept_def using keeps_bytes_refl by blast
  next
    case False
    then have "untorn (cs @ [(n, r)]) = untorn cs" "\<not> none_torn (cs @ [(n, r)])" by (auto simp: untorn_snoc)
    with d0 keeps_bytes_append show ?thesis unfolding commits_kept_def by metis
  qed
qed

lemma log_inv_step:
  assumes "log_inv parse s" "log_step ser parse digest w s s'"
  shows "log_inv parse s'"
proof -
  let ?cs = "lg_commits s" and ?d = "el_ledger (lg_log s)"
  from assms(1) obtain c where c: "counter_at c (lg_log s)"
    and n: "distinct (map fst ?cs @ lg_held s)" "set (map fst ?cs @ lg_held s) \<subseteq> {1..c}"
    and i: "c < max_index \<Longrightarrow> ledger_inv (length ?cs) ?d \<and> commits_kept parse ?cs ?d"
    by (auto simp: log_inv_def)
  from assms(2) show ?thesis
  proof (cases rule: log_step.cases)
    case (draw en n st)
    from begin_append_draws [OF draw(2) c] begin_append_frame [OF draw(2)]
    have "n = Suc c" "counter_at (Suc c) st" "el_ledger st = ?d" by simp_all
    with n i draw(1) show ?thesis by (auto simp: log_inv_def intro!: exI [of _ "Suc c"])
  next
    case (draw_fails en e st)
    with assms(1) begin_append_frame [OF draw_fails(2)] show ?thesis
      by (simp add: log_inv_def counter_at_cong [of st "lg_log s"])
  next
    case (commit m en event_type agent_id data res st)
    let ?cs' = "?cs @ [(m, en_ledger_write en)]" and ?ps' = "remove1 m (lg_held s)"
    note f = commit_append_frame [OF commit(4)]
    have n': "distinct (map fst ?cs' @ ?ps')" "set (map fst ?cs' @ ?ps') \<subseteq> {1..c}"
      using n commit(2) by (auto simp: set_remove1_eq)
    have "ledger_inv (length ?cs') (el_ledger st) \<and> commits_kept parse ?cs' (el_ledger st)" if b: "c < max_index"
    proof
      from commits_below [of ?cs m ?ps' c] n' b have l: "Suc (length ?cs) < max_index" by simp
      show "ledger_inv (length ?cs') (el_ledger st)"
        unfolding f ledger_append_def using append_line_refines(1) [OF conjunct1 [OF i [OF b]] l] by simp
      show "commits_kept parse ?cs' (el_ledger st)"
        unfolding f using i [OF b] l by (intro commits_kept_commit commit(3)) (simp_all add: canonical_event_def)
    qed
    with c n' f(1) commit(1) show ?thesis by (auto simp: log_inv_def counter_at_cong [of st "lg_log s"] simp del: map_append)
  next
    case (die m)
    have "set (remove1 m (lg_held s)) \<subseteq> set (lg_held s)" by (rule set_remove1_subset)
    with n have "distinct (map fst ?cs @ remove1 m (lg_held s))" "set (map fst ?cs @ remove1 m (lg_held s)) \<subseteq> {1..c}"
      by auto
    with c i die(1) show ?thesis by (auto simp: log_inv_def)
  qed
qed

interpretation log: inductive_invariant log_start "log_step ser parse digest w" "log_inv parse"
  by unfold_locales (auto intro: log_inv_start log_inv_step)

end
