(* ===== verification/Ledger_Properties.thy ===== *)
theory Ledger_Properties
  imports Event_Sequence
begin

text \<open>
  The properties of the event ledger: append-only storage under failures, replay of exactly what was
  appended, permanence of damage, and the run sequence over processes.
\<close>

section \<open>Append-only\<close>

lemma segs_append_bounded:
  assumes "segs_append m len bs sb sb'" "length bs \<le> len" "len \<le> L" "\<forall>b \<in> set sb. length b \<le> max m L"
  shows "\<forall>b \<in> set sb'. length b \<le> max m L"
  using assms by (auto simp: segs_append_def le_max_iff_disj dest!: in_set_butlastD)

lemma bytes_written_length: "bytes_written r line = Some bs \<Longrightarrow> length bs \<le> length line"
  by (auto simp: bytes_written_def split: write_outcome.splits)

lemma ledger_run_bounded:
  assumes "ledger_inv N d" "N + length ops < max_index" "\<forall>(now, r, line) \<in> set ops. length line \<le> L"
    and "\<forall>b \<in> set (segment_bytes d). length b \<le> max (lw_segment_max_bytes w) L"
  shows "\<forall>b \<in> set (segment_bytes (ledger_run w ops d)). length b \<le> max (lw_segment_max_bytes w) L"
  using assms
proof (induction w ops d arbitrary: N rule: ledger_run.induct)
  case (2 w now r line ops d)
  let ?d = "snd (append_line w now r line d)"
  have b: "Suc N < max_index" using 2 by simp
  note a = append_line_refines [OF \<open>ledger_inv N d\<close> b, where w = w and now = now and r = r and line = line]
  have "\<forall>b \<in> set (segment_bytes ?d). length b \<le> max (lw_segment_max_bytes w) L"
  proof (cases "bytes_written r line")
    case None
    with a(2) 2(5) show ?thesis by simp
  next
    case (Some bs)
    with a(2) have "segs_append (lw_segment_max_bytes w) (length line) bs (segment_bytes d) (segment_bytes ?d)" by simp
    then show ?thesis
      by (rule segs_append_bounded) (use 2(4,5) bytes_written_length [OF Some] in auto)
  qed
  with 2(1) [of "Suc N"] a(1) 2(3,4) show ?case by simp
qed simp

text \<open>C25. The ledger is append-only, whatever appends fail and however far their writes get: no
  byte of a file in the ledger directory is ever lost or rewritten, segments are only added behind the
  others, and a segment that another one follows is never touched again. A segment exceeds the
  configured size only if a single line does.\<close>

theorem ledger_append_only:
  assumes "ledger_inv N d" "N + length ops < max_index"
  shows "(\<forall>n b. contents d n = Some b \<longrightarrow> (\<exists>e. contents (ledger_run w ops d) n = Some (b @ e)))
    \<and> prefix (segments d) (segments (ledger_run w ops d))
    \<and> (\<forall>n \<in> closed_segments d. contents (ledger_run w ops d) n = contents d n)
    \<and> (\<forall>L. (\<forall>(now, r, line) \<in> set ops. length line \<le> L)
         \<longrightarrow> (\<forall>b \<in> set (segment_bytes d). length b \<le> max (lw_segment_max_bytes w) L)
         \<longrightarrow> (\<forall>b \<in> set (segment_bytes (ledger_run w ops d)). length b \<le> max (lw_segment_max_bytes w) L))"
  using ledger_run_inv [OF assms] ledger_run_bounded [OF assms] ledger.run_extends [OF ledger_run_steps]
  by blast

text \<open>A ledger of one-line segments, with a torn write in the second one.\<close>

definition demo_writer :: ledger_writer where
  "demo_writer = with_segment_max_bytes 4"

definition demo_closed :: directory where
  "demo_closed = ledger_run demo_writer [(1, Written, ''abc\<newline>''), (2, Written, ''de\<newline>'')] []"

lemma demo_closed_inv: "ledger_inv 2 demo_closed"
  using ledger_run_inv [of 0 "[]" "[(1, Written, ''abc\<newline>''), (2, Written, ''de\<newline>'')]" demo_writer]
  by (simp add: demo_closed_def max_index_def numeral_2_eq_2)

lemma demo_closed_segments:
  "segments demo_closed = [segment_name 0, segment_name 1]" "contents demo_closed (segment_name 0) = Some ''abc\<newline>''"
  "segments (ledger_run demo_writer [(3, TornAt 2, ''fgh\<newline>'')] demo_closed) = [segment_name 0, segment_name 1, segment_name 2]"
  by code_simp+

theorem ledger_append_only_witness:
  "segments (ledger_run demo_writer [(3, TornAt 2, ''fgh\<newline>'')] demo_closed) = [segment_name 0, segment_name 1, segment_name 2]
   \<and> contents (ledger_run demo_writer [(3, TornAt 2, ''fgh\<newline>'')] demo_closed) (segment_name 0) = Some ''abc\<newline>''"
proof -
  have "2 + length [(3 :: nat, TornAt 2, ''fgh\<newline>'')] < max_index" by (simp add: max_index_def)
  from ledger_append_only [OF demo_closed_inv this, of demo_writer]
  have "\<forall>n \<in> closed_segments demo_closed.
      contents (ledger_run demo_writer [(3, TornAt 2, ''fgh\<newline>'')] demo_closed) n = contents demo_closed n" by blast
  then show ?thesis
    by (simp add: closed_segments_def demo_closed_segments del: ledger_run.simps)
qed

section \<open>Replay\<close>

text \<open>C20. What is appended is read back: after any number of appends of events, none of which was torn, the
  ledger reads without error as exactly the events whose line reached a segment, in the order of
  their appends, each with the segment and line that holds it. An append that failed only to sync
  is among them although it reported an error.\<close>

theorem ledger_roundtrip:
  assumes "length ops < max_index"
    and "\<forall>(now, r, e) \<in> set ops. line_codec ser parse e \<and> \<not> torn r"
  shows "\<exists>rs. read_events parse (event_run ser w ops []) = Inr rs
    \<and> map lr_event rs = map (\<lambda>(now, r, e). e) (filter (\<lambda>(now, r, e). recorded r) ops)
    \<and> (\<forall>rec \<in> set rs. located parse (event_run ser w ops []) rec)"
proof -
  have "reads_as parse (event_run ser w ops []) ([] @ map (\<lambda>(now, r, e). e) (filter (\<lambda>(now, r, e). recorded r) ops))"
    by (rule reads_as_run [of _ _ _ 0]) (use assms in simp_all)
  then show ?thesis by (auto simp: reads_as_def intro: read_events_located)
qed

definition demo_ledger_event :: "string \<Rightarrow> ledger_event" where
  "demo_ledger_event i = ledger_event_new i ''2026-01-01T00:00:00.000Z'' ''agent.spawned'' None JNull"

definition demo_ser :: "json \<Rightarrow> string" where
  "demo_ser j = ''{'' @ (case value_get j ''event_id'' of Some (JStr s) \<Rightarrow> s | _ \<Rightarrow> []) @ ''}''"

text \<open>A reader that knows the events of the examples.\<close>

definition demo_parse :: "string \<Rightarrow> json option" where
  "demo_parse s = map_of (map (\<lambda>i. (demo_ser (event_to_json (demo_ledger_event i)), event_to_json (demo_ledger_event i))) [''a'', ''b'']) s"

lemma demo_codec: "i \<in> {''a'', ''b''} \<Longrightarrow> line_codec demo_ser demo_parse (demo_ledger_event i)"
proof -
  have "line_codec demo_ser demo_parse (demo_ledger_event ''a'')" "line_codec demo_ser demo_parse (demo_ledger_event ''b'')"
    unfolding line_codec_def event_encodable_def by (simp_all add: demo_ledger_event_def ledger_event_new_def demo_parse_def demo_ser_def
        event_to_json_def event_object_def opt_member_def starts_with_def ends_with_def)
  then show "i \<in> {''a'', ''b''} \<Longrightarrow> line_codec demo_ser demo_parse (demo_ledger_event i)" by auto
qed

theorem ledger_roundtrip_witness:
  "\<exists>rs. read_events demo_parse (event_run demo_ser demo_writer
        [(1, Written, demo_ledger_event ''a''), (2, OpenFailed, demo_ledger_event ''a''), (3, SyncFailed, demo_ledger_event ''b'')] []) = Inr rs
     \<and> map lr_event rs = [demo_ledger_event ''a'', demo_ledger_event ''b'']"
proof -
  let ?ops = "[(1, Written, demo_ledger_event ''a''), (2, OpenFailed, demo_ledger_event ''a''), (3, SyncFailed, demo_ledger_event ''b'')]"
  have "length ?ops < max_index" by (simp add: max_index_def)
  moreover have "\<forall>(now, r, e) \<in> set ?ops. line_codec demo_ser demo_parse e \<and> \<not> torn r"
    by (simp add: demo_codec)
  ultimately show ?thesis using ledger_roundtrip [of ?ops demo_ser demo_parse demo_writer] by auto
qed

section \<open>Damage\<close>

text \<open>A complete line that does not read as an event.\<close>

definition broken_line :: "(string \<Rightarrow> json option) \<Rightarrow> directory \<Rightarrow> bool" where
  "broken_line parse d \<longleftrightarrow> (\<exists>n a l b. is_segment n \<and> contents d n = Some (a @ (l @ [CHR 0x0A]) @ b)
     \<and> terminated a \<and> CHR 0x0A \<notin> set l \<and> \<not> blank (strip_cr l) \<and> Option.bind (parse (strip_cr l)) event_from_json = None)"

lemma traverse_fails: "x \<in> set xs \<Longrightarrow> \<not> is_ok (f x) \<Longrightarrow> \<not> is_ok (traverse f xs)"
proof (induction xs)
  case (Cons y xs)
  then show ?case by (cases "f y"; cases "traverse f xs") auto
qed simp

lemma broken_line_fails: "broken_line parse d \<Longrightarrow> \<not> is_ok (read_events parse d)"
proof -
  assume "broken_line parse d"
  then obtain n a l b where n: "is_segment n" "contents d n = Some (a @ (l @ [CHR 0x0A]) @ b)" "terminated a"
      "CHR 0x0A \<notin> set l" "\<not> blank (strip_cr l)" "Option.bind (parse (strip_cr l)) event_from_json = None"
    by (auto simp: broken_line_def)
  have "str_lines (l @ [CHR 0x0A]) = [strip_cr l]"
    using split_on_append [OF n(4), of "[]"] by (simp add: str_lines_def)
  moreover have "terminated (l @ [CHR 0x0A])" by (simp add: terminated_def)
  ultimately have "str_lines (a @ (l @ [CHR 0x0A]) @ b) = str_lines a @ strip_cr l # str_lines b"
    using n(3) str_lines_append [of "l @ [CHR 0x0A]" b] by (simp add: str_lines_append)
  then have "(length (str_lines a), strip_cr l) \<in> set (enumerate 0 (str_lines (a @ (l @ [CHR 0x0A]) @ b)))"
    by (simp add: in_set_enumerate_eq)
  moreover have "\<not> is_ok (read_line parse n (length (str_lines a), strip_cr l))"
    using n(5,6) by (simp add: read_line_def)
  ultimately have "\<not> is_ok (traverse (read_line parse n) (enumerate 0 (str_lines (a @ (l @ [CHR 0x0A]) @ b))))"
    by (rule traverse_fails)
  then have "\<not> is_ok (read_segment_events parse d n)"
    by (simp add: read_segment_events_def n(2) is_ok_iff)
  moreover have "n \<in> set (segments d)" using n by (simp add: in_segments)
  ultimately have "\<not> is_ok (traverse (read_segment_events parse d) (segments d))" by (rule traverse_fails [rotated])
  then show ?thesis by (simp add: read_events_def is_ok_iff)
qed

text \<open>Damage is permanent: once a complete line of a segment does not read as an event, say because
  a torn write was followed by another append, replaying the ledger fails for good, whatever is
  appended afterwards and however it fails. One such line hides every event of every segment.\<close>

lemma ledger_damage_permanent:
  assumes "broken_line parse d"
  shows "\<not> is_ok (read_events parse (ledger_run w ops d))"
proof (rule broken_line_fails)
  from assms obtain n a l b where n: "is_segment n" "contents d n = Some (a @ (l @ [CHR 0x0A]) @ b)" "terminated a"
      "CHR 0x0A \<notin> set l" "\<not> blank (strip_cr l)" "Option.bind (parse (strip_cr l)) event_from_json = None"
    by (auto simp: broken_line_def)
  from ledger.run_extends [OF ledger_run_steps n(2)]
  obtain e where "contents (ledger_run w ops d) n = Some (a @ (l @ [CHR 0x0A]) @ (b @ e))" by auto
  with n show "broken_line parse (ledger_run w ops d)" unfolding broken_line_def by blast
qed

text \<open>A torn append of one event, followed by a successful append of another.\<close>

definition demo_torn :: directory where
  "demo_torn = event_run demo_ser open_ledger [(1, TornAt 2, demo_ledger_event ''a''), (2, Written, demo_ledger_event ''b'')] []"

lemma demo_torn_contents: "contents demo_torn (segment_name 0) = Some ([] @ (''{a{b}'' @ [CHR 0x0A]) @ [])"
  by code_simp

lemma torn_append_damages: "\<not> is_ok (read_events demo_parse (ledger_run open_ledger ops demo_torn))"
proof (rule ledger_damage_permanent)
  have "strip_cr ''{a{b}'' = ''{a{b}''" by code_simp
  moreover have "\<not> blank ''{a{b}''" by (rule not_blank_brace) (simp add: starts_with_def)
  moreover have "demo_parse ''{a{b}'' = None" by code_simp
  ultimately show "broken_line demo_parse demo_torn"
    unfolding broken_line_def using demo_torn_contents
    by (intro exI [of _ "segment_name 0"] exI [of _ "[]"] exI [of _ "''{a{b}''"] conjI) (simp_all add: terminated_def)
qed

section \<open>The run sequence\<close>

definition event_numbers :: "ledger_record list \<Rightarrow> nat option list" where
  "event_numbers rs = map (\<lambda>r. le_run_seq (lr_event r)) rs"

lemma run_numbers:
  "event_numbers rs = map Some ns \<Longrightarrow> List.map_filter (\<lambda>r. le_run_seq (lr_event r)) rs = ns"
proof (induction rs arbitrary: ns)
  case (Cons r rs)
  then show ?case by (cases ns) (auto simp: event_numbers_def List.map_filter_simps)
qed (simp add: event_numbers_def List.map_filter_simps)

lemma recorded_numbers_distinct:
  "distinct (map fst cs) \<Longrightarrow> distinct (recorded_numbers cs)" "set (recorded_numbers cs) \<subseteq> fst ` set cs"
  by (auto simp: recorded_numbers_def distinct_map_filter)

lemma reads_numbers:
  assumes "reads_as parse d es" "map le_run_seq es = map Some ns"
  obtains rs where "read_events parse d = Inr rs" "event_numbers rs = map Some ns"
proof -
  from assms(1) obtain rs where "read_events parse d = Inr rs" "map lr_event rs = es"
    by (auto simp: reads_as_def)
  with assms(2) that [of rs] show thesis by (auto simp: event_numbers_def comp_def)
qed

text \<open>C10. The run sequence over all processes that draw numbers, commit, fail and die, also in the
  middle of a write, while fewer numbers than the ledger has segment indices are drawn: no number is
  committed twice or committed and still held by a process, and none exceeds the last one drawn. As
  long as no write was torn, the ledger reads without error and its events carry exactly the numbers
  of the commits whose line was written, in the order of the commits; the status is then complete exactly
  when no number between the smallest and the largest one recorded is missing, so that a number lost by a
  failed append or a dead process shows as soon as a later one is recorded. After a torn write the ledger
  need not read any more, but the files still hold, byte for byte at their beginning, a ledger that
  reads as the commits before that write.\<close>

theorem event_sequence:
  assumes "reach log_start (log_step ser parse digest w) s" "last_drawn (lg_log s) < max_index"
  shows "distinct (map fst (lg_commits s) @ lg_held s)
    \<and> set (map fst (lg_commits s) @ lg_held s) \<subseteq> {1..last_drawn (lg_log s)}
    \<and> (none_torn (lg_commits s) \<longrightarrow>
         (\<exists>rs ns. read_events parse (el_ledger (lg_log s)) = Inr rs \<and> event_numbers rs = map Some ns
            \<and> ns = recorded_numbers (lg_commits s)
            \<and> (sequence_status rs = ''complete'' \<longleftrightarrow> ns \<noteq> [] \<and> set ns = {Min (set ns)..Max (set ns)})))
    \<and> (\<exists>d rs. read_events parse d = Inr rs \<and> event_numbers rs = map Some (recorded_numbers (untorn (lg_commits s)))
         \<and> keeps_bytes d (el_ledger (lg_log s)))"
proof -
  let ?d = "el_ledger (lg_log s)" and ?ns = "recorded_numbers (lg_commits s)"
  from log.reach_invar [OF assms(1)] assms(2) have n: "distinct (map fst (lg_commits s) @ lg_held s)"
      "set (map fst (lg_commits s) @ lg_held s) \<subseteq> {1..last_drawn (lg_log s)}"
    and k: "commits_kept parse (lg_commits s) ?d"
    by (auto simp: log_inv_def counter_at_last_drawn)
  have status: "sequence_status rs = ''complete'' \<longleftrightarrow> ?ns \<noteq> [] \<and> set ?ns = {Min (set ?ns)..Max (set ?ns)}"
    if "event_numbers rs = map Some ?ns" for rs
  proof -
    have "\<forall>n \<in> set ?ns. n < 2 ^ 64 - 1"
      using recorded_numbers_distinct(2) [of "lg_commits s"] n(2) assms(2) by (fastforce simp: max_index_def)
    moreover have "distinct ?ns" using n(1) by (intro recorded_numbers_distinct(1)) simp
    ultimately show ?thesis
      using status_complete_iff [of ?ns] run_numbers [OF that] by (simp add: sequence_status_def)
  qed
  from k obtain d0 es where d0: "reads_as parse d0 es" "map le_run_seq es = map Some (recorded_numbers (untorn (lg_commits s)))"
    and e: "keeps_bytes d0 ?d" "none_torn (lg_commits s) \<Longrightarrow> d0 = ?d" by (auto simp: commits_kept_def)
  from reads_numbers [OF d0] obtain rs where rs: "read_events parse d0 = Inr rs"
    "event_numbers rs = map Some (recorded_numbers (untorn (lg_commits s)))" by blast
  have "\<exists>rs. read_events parse ?d = Inr rs \<and> event_numbers rs = map Some ?ns
      \<and> (sequence_status rs = ''complete'' \<longleftrightarrow> ?ns \<noteq> [] \<and> set ?ns = {Min (set ?ns)..Max (set ?ns)})"
    if "none_torn (lg_commits s)"
    using rs status e(2) [OF that] that by auto
  with n rs e(1) show ?thesis by blast
qed

text \<open>A run of two processes: the first commits number 1, the second dies with number 2, the first commits
  number 3.\<close>

definition demo_log_env :: "string \<Rightarrow> log_env" where
  "demo_log_env i = \<lparr> en_uuid = i, en_now = ''t'', en_observed_at = ''t'', en_health_now = ''t'', en_clock = 5,
     en_run_id_file = None, en_session_file = None, en_sequence_ok = True, en_ledger_write = Written,
     en_view_write = Written, en_health_ok = True \<rparr>"

definition demo_logged :: "string \<Rightarrow> nat \<Rightarrow> ledger_event" where
  "demo_logged i n = canonical_event (demo_log_env i) n ''agent.spawned'' ''root'' JNull"

definition demo_log_parse :: "string \<Rightarrow> json option" where
  "demo_log_parse s = map_of (map (\<lambda>e. (demo_ser (event_to_json e), event_to_json e)) [demo_logged ''a'' 1, demo_logged ''b'' 3]) s"

definition demo_digest :: "string \<Rightarrow> string" where
  "demo_digest s = take 8 s"

definition demo_draw :: "event_log \<Rightarrow> event_log" where
  "demo_draw st = snd (begin_append demo_digest (demo_log_env ''a'') st)"

definition demo_commit :: "string \<Rightarrow> nat \<Rightarrow> event_log \<Rightarrow> event_log" where
  "demo_commit i n st = snd (commit_append demo_ser demo_digest open_ledger (demo_log_env i) n ''agent.spawned'' ''root'' JNull st)"

definition demo_first :: event_log where
  "demo_first = demo_commit ''a'' 1 (demo_draw event_log_open)"

definition demo_second :: event_log where
  "demo_second = demo_draw (demo_draw demo_first)"

lemma demo_draws:
  "fst (begin_append demo_digest (demo_log_env ''a'') event_log_open) = Inr 1"
  "fst (begin_append demo_digest (demo_log_env ''a'') demo_first) = Inr 2"
  "fst (begin_append demo_digest (demo_log_env ''a'') (demo_draw demo_first)) = Inr 3"
  "last_drawn (demo_commit ''b'' 3 demo_second) = 3"
  by code_simp+

lemma demo_log_codec:
  "line_codec demo_ser demo_log_parse (demo_logged ''a'' 1)" "line_codec demo_ser demo_log_parse (demo_logged ''b'' 3)"
  unfolding line_codec_def event_encodable_def
  by (simp_all add: demo_logged_def canonical_event_def demo_log_env_def demo_log_parse_def demo_ser_def string_field_def
      run_id_def session_id_def nonempty_def event_to_json_def event_object_def opt_member_def json_opt_def
      starts_with_def ends_with_def)

definition demo_log_world :: log_world where
  "demo_log_world = \<lparr>lg_log = demo_commit ''b'' 3 demo_second, lg_held = [], lg_commits = [(1, Written), (3, Written)]\<rparr>"

lemma demo_log_reach: "reach log_start (log_step demo_ser demo_log_parse demo_digest open_ledger) demo_log_world"
proof -
  let ?R = "\<lambda>st ps cs. reach log_start (log_step demo_ser demo_log_parse demo_digest open_ledger)
    \<lparr>lg_log = st, lg_held = ps, lg_commits = cs\<rparr>"
  have draw: "?R (demo_draw st) (n # ps) cs"
    if "?R st ps cs" "fst (begin_append demo_digest (demo_log_env ''a'') st) = Inr n" for st n ps cs
    using reach_step [OF that(1) log_step.draw [where en = "demo_log_env ''a''" and n = n and st = "demo_draw st"]] that(2)
    by (simp add: demo_draw_def prod_eq_iff)
  have commit: "?R (demo_commit i n st) (remove1 n ps) (cs @ [(n, Written)])"
    if "?R st ps cs" "n \<in> set ps" "line_codec demo_ser demo_log_parse (demo_logged i n)" for st i n ps cs
    using reach_step [OF that(1) log_step.commit [where en = "demo_log_env i" and n = n and st = "demo_commit i n st"
            and event_type = "''agent.spawned''" and agent_id = "''root''" and data = JNull]] that(2,3)
    by (simp add: demo_commit_def demo_logged_def prod_eq_iff demo_log_env_def)
  have "?R event_log_open [] []" by (rule reach_start) (simp add: log_start_def)
  from commit [OF draw [OF this demo_draws(1)] _ demo_log_codec(1)] have "?R demo_first [] [(1, Written)]"
    by (simp add: demo_first_def)
  from draw [OF this demo_draws(2)] have "?R (demo_draw demo_first) [2] [(1, Written)]" .
  from reach_step [OF this log_step.die [of 2]] have "?R (demo_draw demo_first) [] [(1, Written)]" by simp
  from commit [OF draw [OF this demo_draws(3)] _ demo_log_codec(2)] show ?thesis
    by (simp add: demo_second_def demo_log_world_def)
qed

theorem event_sequence_witness:
  "last_drawn (lg_log demo_log_world) = 3
   \<and> (\<exists>rs. read_events demo_log_parse (el_ledger (lg_log demo_log_world)) = Inr rs
        \<and> event_numbers rs = [Some 1, Some 3] \<and> sequence_status rs \<noteq> ''complete'')"
proof -
  have l: "last_drawn (lg_log demo_log_world) = 3" by (simp add: demo_log_world_def demo_draws)
  have "none_torn (lg_commits demo_log_world)" by (simp add: demo_log_world_def none_torn_def)
  moreover have ns: "recorded_numbers (lg_commits demo_log_world) = [1, 3]"
    by (simp add: demo_log_world_def recorded_numbers_def)
  moreover have "set [1, 3 :: nat] \<noteq> {Min (set [1, 3])..Max (set [1, 3])}"
  proof
    assume "set [1, 3 :: nat] = {Min (set [1, 3])..Max (set [1, 3])}"
    then have "(2 :: nat) \<in> {1, 3}" by simp
    then show False by simp
  qed
  ultimately show ?thesis
    using event_sequence [OF demo_log_reach] l unfolding ns by (auto simp: max_index_def)
qed

end
