(* ===== verification/Expected_Events.thy ===== *)
theory Expected_Events
  imports Ledger_Events "HOL-Library.Multiset"
begin

text \<open>
  Expected events (\<^verbatim>\<open>services/expected_events.rs\<close>): the versioned contract of which event
  requires which other one, and its reconciliation with the events that were observed. The contract
  is the document \<^verbatim>\<open>docs/observability/expected-events.v1.json\<close> that the program includes, with the
  members of its objects in the order of their keys.
\<close>

section \<open>Contract\<close>

record expected_event_rule =
  er_rule_id :: string
  er_prerequisite_event :: string
  er_required_event :: string
  er_allowed_delay_ms :: "nat option"
  er_allowed_window :: "string option"
  er_applicable_sources :: "string list"
  er_legacy_confidence_rule :: string
  er_denominator_effect :: string
  er_prerequisite_data :: "(string \<times> string) list"
  er_required_data :: "(string \<times> string) list"
  er_correlation_fields :: "string list"

record expected_event_contract =
  ec_contract_id :: string
  ec_version :: nat
  ec_schema_version :: nat
  ec_unit :: string
  ec_rules :: "expected_event_rule list"

record denominator_row =
  dn_rule_id :: string
  dn_expected :: nat
  dn_observed :: nat
  dn_missing :: nat

record denominator_report =
  dp_contract_id :: string
  dp_contract_version :: nat
  dp_completeness_status :: string
  dp_rows :: "denominator_row list"

record event_observation =
  eo_session_id :: "string option"
  eo_event_type :: string
  eo_run_seq :: "nat option"
  eo_data :: json

definition load_contract :: expected_event_contract where
  "load_contract = \<lparr> ec_contract_id = ''exomonad.expected-events'', ec_version = 1, ec_schema_version = 1,
     ec_unit = ''session'', ec_rules = [
      \<lparr> er_rule_id = ''spawn_requires_invocation_start'',
        er_prerequisite_event = ''agent.spawned'', er_required_event = ''agent.invocation.started'',
        er_allowed_delay_ms = Some 300000,
        er_allowed_window = None,
        er_applicable_sources = [''rust'', ''haskell'', ''lifecycle''],
        er_legacy_confidence_rule =
          ''Legacy rows count as exact only when source and agent identity are explicit; otherwise mark unknown.'',
        er_denominator_effect =
          ''Add one expected invocation-start event for each observed spawn transition.'',
        er_prerequisite_data = [], er_required_data = [],
        er_correlation_fields = [] \<rparr>,
      \<lparr> er_rule_id = ''invocation_requires_finish'',
        er_prerequisite_event = ''agent.invocation.started'', er_required_event = ''agent.invocation.finished'',
        er_allowed_delay_ms = None,
        er_allowed_window = Some ''until session termination or explicit abandonment'',
        er_applicable_sources = [''lifecycle''],
        er_legacy_confidence_rule =
          ''Legacy invocation rows without a terminal marker are unknown, not successful.'',
        er_denominator_effect =
          ''Add one expected invocation-finished event for each observed invocation start.'',
        er_prerequisite_data = [], er_required_data = [],
        er_correlation_fields = [] \<rparr>,
      \<lparr> er_rule_id = ''task_budget_requires_typed_failure'',
        er_prerequisite_event = ''tl.slice_parked'', er_required_event = ''agent.task_budget_exceeded'',
        er_allowed_delay_ms = None,
        er_allowed_window = Some ''until session termination or explicit reconciliation'',
        er_applicable_sources = [''tl_loop'', ''lifecycle''],
        er_legacy_confidence_rule =
          ''A budget-caused park without the typed task-level event is unknown, not safely bounded.'',
        er_denominator_effect =
          ''Add one expected task-budget failure event for each budget-caused slice park.'',
        er_prerequisite_data = [(''park_cause'', ''task_budget_exceeded'')], er_required_data = [],
        er_correlation_fields = [] \<rparr>,
      \<lparr> er_rule_id = ''task_blocked_requires_recovery_start'',
        er_prerequisite_event = ''agent.task_blocked'', er_required_event = ''agent.recovery.started'',
        er_allowed_delay_ms = None,
        er_allowed_window = Some ''until session termination or explicit abandonment'',
        er_applicable_sources = [''haskell'', ''tl_loop'', ''lifecycle''],
        er_legacy_confidence_rule =
          ''A blocked task without a recovery start is unknown, not an implementation failure.'',
        er_denominator_effect =
          ''Add one expected recovery-start event for each typed blocked task.'',
        er_prerequisite_data = [], er_required_data = [],
        er_correlation_fields = [''slice_id'', ''invocation_id'', ''generation''] \<rparr>,
      \<lparr> er_rule_id = ''recovery_start_requires_one_outcome'',
        er_prerequisite_event = ''agent.recovery.started'', er_required_event = ''agent.recovery.outcome'',
        er_allowed_delay_ms = None,
        er_allowed_window = Some ''until session termination or explicit abandonment'',
        er_applicable_sources = [''tl_loop'', ''lifecycle''],
        er_legacy_confidence_rule =
          ''Multiple outcomes for one invocation generation are contradictory and excluded from aggregate rates.'',
        er_denominator_effect =
          ''Add one expected recovery outcome per invocation generation.'',
        er_prerequisite_data = [], er_required_data = [],
        er_correlation_fields = [''slice_id'', ''invocation_id'', ''generation''] \<rparr>,
      \<lparr> er_rule_id = ''parent_notification_requires_delivery'',
        er_prerequisite_event = ''agent.notify_parent'', er_required_event = ''message.delivery'',
        er_allowed_delay_ms = Some 300000,
        er_allowed_window = None,
        er_applicable_sources = [''rust'', ''haskell''],
        er_legacy_confidence_rule =
          ''Legacy parent notifications without a transport outcome are unknown.'',
        er_denominator_effect =
          ''Add one expected delivery attempt for each observed parent notification.'',
        er_prerequisite_data = [], er_required_data = [],
        er_correlation_fields = [] \<rparr>,
      \<lparr> er_rule_id = ''delivery_requires_consumption_observation'',
        er_prerequisite_event = ''message.delivery'', er_required_event = ''message.consumed'',
        er_allowed_delay_ms = None,
        er_allowed_window = Some ''until inbox expiration, abandonment, or session termination'',
        er_applicable_sources = [''rust'', ''sqlite''],
        er_legacy_confidence_rule =
          ''Legacy delivery rows without an inbox consumer are unknown.'',
        er_denominator_effect =
          ''Add one expected consumption observation for each durable delivery attempt.'',
        er_prerequisite_data = [], er_required_data = [],
        er_correlation_fields = [] \<rparr>,
      \<lparr> er_rule_id = ''guidance_enqueue_requires_acceptance_or_abandonment'',
        er_prerequisite_event = ''inbox.state_changed'', er_required_event = ''message.consumed/agent_inbox.messages_abandoned'',
        er_allowed_delay_ms = None,
        er_allowed_window = Some ''until acceptance, explicit abandonment, cancellation, or session termination'',
        er_applicable_sources = [''rust'', ''sqlite''],
        er_legacy_confidence_rule =
          ''A durable guidance enqueue without same-batch acceptance or explicit abandonment remains pending or unknown; a transport write alone is not success.'',
        er_denominator_effect =
          ''Add one expected terminal guidance outcome for each observed durable enqueue.'',
        er_prerequisite_data = [(''operation'', ''enqueue'')], er_required_data = [],
        er_correlation_fields = [''batch_id''] \<rparr>,
      \<lparr> er_rule_id = ''park_requires_gate_or_terminal'',
        er_prerequisite_event = ''tl.slice_parked'', er_required_event = ''tl.gate_opened/tl.phase_changed'',
        er_allowed_delay_ms = None,
        er_allowed_window = Some ''until gate opening, terminal phase, or session termination'',
        er_applicable_sources = [''tl_loop''],
        er_legacy_confidence_rule =
          ''A parked slice without a gate opening or terminal run outcome is unknown, not safely parked.'',
        er_denominator_effect =
          ''Add one expected gate-opening or terminal-outcome observation for each observed slice park.'',
        er_prerequisite_data = [], er_required_data = [],
        er_correlation_fields = [] \<rparr>,
      \<lparr> er_rule_id = ''gate_opened_requires_answer'',
        er_prerequisite_event = ''tl.gate_opened'', er_required_event = ''tl.gate_answered'',
        er_allowed_delay_ms = None,
        er_allowed_window = Some ''until answer, cancellation, or session termination'',
        er_applicable_sources = [''tl_loop''],
        er_legacy_confidence_rule =
          ''An opened human gate without an answer remains pending or unknown; elapsed time is part of the denominator.'',
        er_denominator_effect =
          ''Add one expected gate answer for each observed gate opening and measure answer latency until resolution.'',
        er_prerequisite_data = [], er_required_data = [],
        er_correlation_fields = [''gate_name''] \<rparr>,
      \<lparr> er_rule_id = ''merge_decision_requires_pr_outcome'',
        er_prerequisite_event = ''tl.merge_decided'', er_required_event = ''pr.merged/pr.merge_failed'',
        er_allowed_delay_ms = None,
        er_allowed_window = Some ''until merge outcome, cancellation, or session termination'',
        er_applicable_sources = [''tl_loop'', ''rust'', ''haskell'', ''watcher''],
        er_legacy_confidence_rule =
          ''A merge decision without a correlated PR outcome is unknown, not delivered.'',
        er_denominator_effect =
          ''Add one expected PR merge outcome for each tl.merge_decided event whose decision is merge.'',
        er_prerequisite_data = [(''decision'', ''merge'')], er_required_data = [],
        er_correlation_fields = [''pr_number''] \<rparr>,
      \<lparr> er_rule_id = ''judgment_failure_requires_retry_or_park'',
        er_prerequisite_event = ''tl.judgment'', er_required_event = ''tl.judgment/tl.slice_parked'',
        er_allowed_delay_ms = None,
        er_allowed_window = Some ''until a further judgment attempt, park, cancellation, or session termination'',
        er_applicable_sources = [''tl_loop''],
        er_legacy_confidence_rule =
          ''A failed judgment without a subsequent attempt or explicit park is unknown, not recovered.'',
        er_denominator_effect =
          ''Add one expected retry-or-park outcome for each failed tl.judgment.'',
        er_prerequisite_data = [(''outcome'', ''failure'')], er_required_data = [],
        er_correlation_fields = [] \<rparr>,
      \<lparr> er_rule_id = ''published_pr_requires_observation'',
        er_prerequisite_event = ''pr.published'', er_required_event = ''watcher.pr_observation'',
        er_allowed_delay_ms = Some 600000,
        er_allowed_window = None,
        er_applicable_sources = [''rust'', ''watcher''],
        er_legacy_confidence_rule =
          ''Legacy PR rows without watcher identity remain unknown.'',
        er_denominator_effect =
          ''Add one expected PR observation for each eligible published PR.'',
        er_prerequisite_data = [], er_required_data = [],
        er_correlation_fields = [] \<rparr>,
      \<lparr> er_rule_id = ''published_pr_requires_review_current_head'',
        er_prerequisite_event = ''pr.published'', er_required_event = ''pr.review'',
        er_allowed_delay_ms = Some 600000,
        er_allowed_window = None,
        er_applicable_sources = [''rust'', ''watcher''],
        er_legacy_confidence_rule =
          ''A published PR without a review carrying the same PR and verified head is unknown, not reviewed.'',
        er_denominator_effect =
          ''Add one expected current-head review observation for each published PR.'',
        er_prerequisite_data = [], er_required_data = [],
        er_correlation_fields = [''pr_number'', ''head_sha''] \<rparr>,
      \<lparr> er_rule_id = ''head_change_requires_ci_status_current_head'',
        er_prerequisite_event = ''pr.updated'', er_required_event = ''ci.status_changed'',
        er_allowed_delay_ms = Some 600000,
        er_allowed_window = None,
        er_applicable_sources = [''rust'', ''watcher''],
        er_legacy_confidence_rule =
          ''A head update without a CI status carrying the same PR and verified head is unknown, not green.'',
        er_denominator_effect =
          ''Add one expected current-head CI observation for each PR head update.'',
        er_prerequisite_data = [], er_required_data = [],
        er_correlation_fields = [''pr_number'', ''head_sha''] \<rparr>,
      \<lparr> er_rule_id = ''merge_request_requires_approved_current_head'',
        er_prerequisite_event = ''pr.merge_requested'', er_required_event = ''pr.review'',
        er_allowed_delay_ms = None,
        er_allowed_window = Some ''until merge outcome, cancellation, or session termination'',
        er_applicable_sources = [''rust'', ''haskell'', ''watcher''],
        er_legacy_confidence_rule =
          ''A merge request without an approved review for the exact requested head is unknown and unsafe.'',
        er_denominator_effect =
          ''Add one expected exact-head approval for each merge request.'',
        er_prerequisite_data = [], er_required_data = [(''kind'', ''approved'')],
        er_correlation_fields = [''pr_number'', ''head_sha''] \<rparr>,
      \<lparr> er_rule_id = ''merge_request_requires_passing_ci_current_head'',
        er_prerequisite_event = ''pr.merge_requested'', er_required_event = ''ci.status_changed'',
        er_allowed_delay_ms = None,
        er_allowed_window = Some ''until merge outcome, cancellation, or session termination'',
        er_applicable_sources = [''rust'', ''watcher''],
        er_legacy_confidence_rule =
          ''A merge request without passing CI for the exact requested head is unknown and unsafe.'',
        er_denominator_effect =
          ''Add one expected passing exact-head CI observation for each merge request.'',
        er_prerequisite_data = [], er_required_data = [(''status'', ''success'')],
        er_correlation_fields = [''pr_number'', ''head_sha''] \<rparr>,
      \<lparr> er_rule_id = ''merge_request_requires_merge_outcome'',
        er_prerequisite_event = ''pr.merge_requested'', er_required_event = ''pr.merged'',
        er_allowed_delay_ms = None,
        er_allowed_window = Some ''until merge failure, cancellation, or session termination'',
        er_applicable_sources = [''rust'', ''haskell'', ''watcher''],
        er_legacy_confidence_rule =
          ''A legacy merge request without an explicit outcome is unknown.'',
        er_denominator_effect =
          ''Add one expected merge outcome for each observed merge request.'',
        er_prerequisite_data = [], er_required_data = [],
        er_correlation_fields = [] \<rparr>] \<rparr>"

section \<open>Reconciliation\<close>

definition sequence_status_for_events :: "event_observation list \<Rightarrow> string" where
  "sequence_status_for_events events = status_of_sequences (List.map_filter eo_run_seq events)"

text \<open>\<^verbatim>\<open>split(['/', '|'])\<close>.\<close>

definition required_matches :: "string \<Rightarrow> string \<Rightarrow> bool" where
  "required_matches required event_type \<longleftrightarrow>
     event_type \<in> set (split_on (CHR ''/'') (map (\<lambda>c. if c = CHR ''|'' then CHR ''/'' else c) required))"

definition same_session :: "event_observation \<Rightarrow> event_observation \<Rightarrow> bool" where
  "same_session l r \<longleftrightarrow> eo_session_id l = eo_session_id r"

definition event_data_matches :: "event_observation \<Rightarrow> (string \<times> string) list \<Rightarrow> bool" where
  "event_data_matches event expected =
     list_all (\<lambda>(k, v). Option.bind (value_get (eo_data event) k) as_str = Some v) expected"

definition required_data_matches :: "expected_event_rule \<Rightarrow> event_observation \<Rightarrow> event_observation \<Rightarrow> bool" where
  "required_data_matches rule p r \<longleftrightarrow>
     event_data_matches r (er_required_data rule)
     \<and> list_all (\<lambda>f. value_get (eo_data p) f \<noteq> None \<and> value_get (eo_data p) f = value_get (eo_data r) f)
          (er_correlation_fields rule)"

definition is_prerequisite :: "expected_event_rule \<Rightarrow> event_observation \<Rightarrow> bool" where
  "is_prerequisite rule e \<longleftrightarrow>
     eo_event_type e = er_prerequisite_event rule \<and> event_data_matches e (er_prerequisite_data rule)"

definition find_required ::
  "expected_event_rule \<Rightarrow> event_observation list \<Rightarrow> nat list \<Rightarrow> event_observation \<Rightarrow> (nat \<times> event_observation) option" where
  "find_required rule events matched p =
     find (\<lambda>(i, r). i \<notin> set matched \<and> same_session p r \<and> required_matches (er_required_event rule) (eo_event_type r)
                    \<and> required_data_matches rule p r) (enumerate 0 events)"

text \<open>The loop over the prerequisites, with its counters and the set of matched indices.\<close>

fun match_prerequisites ::
  "expected_event_rule \<Rightarrow> event_observation list \<Rightarrow> event_observation list \<Rightarrow> nat \<times> nat \<times> nat list \<Rightarrow> nat \<times> nat \<times> nat list" where
  "match_prerequisites rule events [] s = s"
| "match_prerequisites rule events (p # ps) (expected, observed, matched) =
     (case find_required rule events matched p of
        None \<Rightarrow> match_prerequisites rule events ps (expected + 1, observed, matched)
      | Some (i, _) \<Rightarrow> match_prerequisites rule events ps (expected + 1, observed + 1, i # matched))"

definition reconcile_rule :: "event_observation list \<Rightarrow> expected_event_rule \<Rightarrow> denominator_row" where
  "reconcile_rule events rule =
     (case match_prerequisites rule events (filter (is_prerequisite rule) events) (0, 0, []) of
        (expected, observed, _) \<Rightarrow>
          \<lparr> dn_rule_id = er_rule_id rule, dn_expected = expected, dn_observed = observed, dn_missing = expected - observed \<rparr>)"

definition reconcile_events :: "event_observation list \<Rightarrow> denominator_report" where
  "reconcile_events events =
     (let rows = map (reconcile_rule events) (ec_rules load_contract); status = sequence_status_for_events events in
      \<lparr> dp_contract_id = ec_contract_id load_contract, dp_contract_version = ec_version load_contract,
        dp_completeness_status =
          (if status = ''unknown'' then ''unknown''
           else if status = ''partial'' then ''partial''
           else if status = ''complete'' \<and> list_ex (\<lambda>row. dn_missing row > 0) rows then ''partial''
           else ''complete''),
        dp_rows = rows \<rparr>)"

definition observation_of :: "ledger_record \<Rightarrow> event_observation" where
  "observation_of r = \<lparr> eo_session_id = le_session_id (lr_event r), eo_event_type = le_event_type (lr_event r),
     eo_run_seq = le_run_seq (lr_event r), eo_data = le_data (lr_event r) \<rparr>"

definition reconcile :: "ledger_record list \<Rightarrow> denominator_report" where
  "reconcile records = reconcile_events (map observation_of records)"

section \<open>The reference: counting by keys\<close>

text \<open>What identifies the outcome a prerequisite waits for: its session and the values of the
  correlation fields, all of which it must have.\<close>

type_synonym outcome_key = "string option \<times> json option list"

definition key_of :: "expected_event_rule \<Rightarrow> event_observation \<Rightarrow> outcome_key" where
  "key_of rule e = (eo_session_id e, map (value_get (eo_data e)) (er_correlation_fields rule))"

definition correlated :: "expected_event_rule \<Rightarrow> event_observation \<Rightarrow> bool" where
  "correlated rule e \<longleftrightarrow> list_all (\<lambda>f. value_get (eo_data e) f \<noteq> None) (er_correlation_fields rule)"

definition is_outcome :: "expected_event_rule \<Rightarrow> event_observation \<Rightarrow> bool" where
  "is_outcome rule r \<longleftrightarrow>
     required_matches (er_required_event rule) (eo_event_type r) \<and> event_data_matches r (er_required_data rule)"

definition awaited :: "expected_event_rule \<Rightarrow> event_observation list \<Rightarrow> outcome_key multiset" where
  "awaited rule ps = mset (map (key_of rule) (filter (correlated rule) ps))"

definition outcomes :: "expected_event_rule \<Rightarrow> event_observation list \<Rightarrow> outcome_key multiset" where
  "outcomes rule events = mset (map (key_of rule) (filter (is_outcome rule) events))"

end
