(* ===== verification/Expected_Properties.thy ===== *)
theory Expected_Properties
  imports Expected_Events
begin

text \<open>
  The reconciliation of expected events agrees with counting by keys, and one rule of the contract
  never reports a missing outcome.
\<close>

section \<open>The greedy matching\<close>

text \<open>The outcomes that are not matched yet.\<close>

definition unmatched :: "expected_event_rule \<Rightarrow> event_observation list \<Rightarrow> nat list \<Rightarrow> (nat \<times> event_observation) list" where
  "unmatched rule events M = filter (\<lambda>(i, r). i \<notin> set M \<and> is_outcome rule r) (enumerate 0 events)"

definition unmatched_keys :: "expected_event_rule \<Rightarrow> event_observation list \<Rightarrow> nat list \<Rightarrow> outcome_key multiset" where
  "unmatched_keys rule events M = mset (map (\<lambda>(i, r). key_of rule r) (unmatched rule events M))"

lemma required_data_iff:
  "same_session p r \<and> required_matches (er_required_event rule) (eo_event_type r) \<and> required_data_matches rule p r
     \<longleftrightarrow> is_outcome rule r \<and> correlated rule p \<and> key_of rule p = key_of rule r"
  by (auto simp: same_session_def required_data_matches_def is_outcome_def correlated_def key_of_def list_all_iff)

lemma find_filter_conj: "find (\<lambda>x. Q x \<and> P x) xs = find P (filter Q xs)"
  by (induction xs) auto

lemma find_required_iff:
  "find_required rule events M p =
     (if correlated rule p then find (\<lambda>(i, r). key_of rule r = key_of rule p) (unmatched rule events M) else None)"
proof -
  have "(\<lambda>(i, r). i \<notin> set M \<and> same_session p r \<and> required_matches (er_required_event rule) (eo_event_type r)
        \<and> required_data_matches rule p r)
      = (\<lambda>x. (case x of (i, r) \<Rightarrow> i \<notin> set M \<and> is_outcome rule r) \<and> correlated rule p
            \<and> (case x of (i, r) \<Rightarrow> key_of rule r = key_of rule p))"
    unfolding fun_eq_iff split_def required_data_iff by metis
  then show ?thesis by (simp add: find_required_def unmatched_def find_filter_conj find_None_iff)
qed

lemma filter_other_key:
  assumes "distinct (map fst xs)" "(i, r) \<in> set xs"
  shows "mset xs = add_mset (i, r) (mset (filter (\<lambda>(j, _). j \<noteq> i) xs))"
  using assms
proof (induction xs)
  case (Cons x xs)
  obtain j s where x: "x = (j, s)" by force
  show ?case
  proof (cases "j = i")
    case True
    with Cons.prems x have "i \<notin> fst ` set xs" by auto
    then have "filter (\<lambda>(j, _). j \<noteq> i) xs = xs" "(i, r) \<notin> set xs" by (force simp: filter_id_conv)+
    with Cons.prems True x show ?thesis by simp
  next
    case False
    with Cons x show ?thesis by auto
  qed
qed simp

lemma unmatched_Cons: "unmatched rule events (i # M) = filter (\<lambda>(j, _). j \<noteq> i) (unmatched rule events M)"
  by (auto simp: unmatched_def intro: filter_cong)

lemma distinct_unmatched: "distinct (map fst (unmatched rule events M))"
  unfolding unmatched_def by (rule distinct_map_filter) simp

lemma unmatched_keys_take:
  assumes "(i, r) \<in> set (unmatched rule events M)"
  shows "unmatched_keys rule events M = add_mset (key_of rule r) (unmatched_keys rule events (i # M))"
  unfolding unmatched_keys_def unmatched_Cons mset_map
  by (subst filter_other_key [OF distinct_unmatched assms]) simp

lemma match_prerequisites_counts:
  "\<exists>M'. match_prerequisites rule events ps (e, b, M) =
     (e + length ps, b + size (awaited rule ps \<inter># unmatched_keys rule events M), M')"
proof (induction ps arbitrary: e b M)
  case Nil
  show ?case by (simp add: awaited_def)
next
  case (Cons p ps)
  show ?case
  proof (cases "find_required rule events M p")
    case None
    then have "\<not> correlated rule p \<or> key_of rule p \<notin># unmatched_keys rule events M"
      by (fastforce simp: find_required_iff find_None_iff unmatched_keys_def split: if_splits)
    then have "awaited rule (p # ps) \<inter># unmatched_keys rule events M = awaited rule ps \<inter># unmatched_keys rule events M"
      by (auto simp: awaited_def inter_add_left1)
    with None Cons.IH [of "e + 1" b M] show ?thesis by simp
  next
    case (Some ir)
    obtain i r where ir: "ir = (i, r)" by force
    from Some ir have c: "correlated rule p" and f: "find (\<lambda>(i, r). key_of rule r = key_of rule p) (unmatched rule events M) = Some (i, r)"
      by (auto simp: find_required_iff split: if_splits)
    then have m: "(i, r) \<in> set (unmatched rule events M)" "key_of rule r = key_of rule p"
      by (auto simp: find_Some_iff) (metis nth_mem)
    have "awaited rule (p # ps) \<inter># unmatched_keys rule events M
        = add_mset (key_of rule p) (awaited rule ps \<inter># unmatched_keys rule events (i # M))"
      using c by (simp add: awaited_def unmatched_keys_take [OF m(1)] m(2))
    with Some ir Cons.IH [of "e + 1" "b + 1" "i # M"] show ?thesis by simp
  qed
qed

lemma unmatched_keys_Nil: "unmatched_keys rule events [] = outcomes rule events"
proof -
  have "map (\<lambda>(i, r). key_of rule r) (filter (\<lambda>(i, r). is_outcome rule r) (enumerate n events))
      = map (key_of rule) (filter (is_outcome rule) events)" for n
    by (induction events arbitrary: n) auto
  then show ?thesis by (simp add: unmatched_keys_def unmatched_def outcomes_def)
qed

lemma reconcile_rule_counts:
  "reconcile_rule events rule =
     (let ps = filter (is_prerequisite rule) events; n = size (awaited rule ps \<inter># outcomes rule events) in
      \<lparr> dn_rule_id = er_rule_id rule, dn_expected = length ps, dn_observed = n, dn_missing = length ps - n \<rparr>)"
  using match_prerequisites_counts [of rule events "filter (is_prerequisite rule) events" 0 0 "[]"]
  by (auto simp: reconcile_rule_def unmatched_keys_Nil Let_def)

lemma awaited_size: "size (awaited rule ps) \<le> length ps"
  by (simp add: awaited_def flip: mset_filter)

lemma observed_le: "size (awaited rule ps \<inter># B) \<le> length ps"
  using size_mset_mono [of "awaited rule ps \<inter># B" "awaited rule ps"] awaited_size [of rule ps] by simp

section \<open>Properties\<close>

text \<open>C30. The reconciliation of a rule, which matches every prerequisite with the first outcome not
  matched before, is an optimal matching: an outcome counts for the prerequisites of its session with the
  same values of the correlation fields, and per session and values as many are observed as there are
  both prerequisites and outcomes. Nothing else influences the row, neither the order of events nor
  the allowed delay, window or sources of the rule.\<close>

theorem reconcile_counts:
  "reconcile_rule events rule =
     (let ps = filter (is_prerequisite rule) events; n = size (awaited rule ps \<inter># outcomes rule events) in
      \<lparr> dn_rule_id = er_rule_id rule, dn_expected = length ps, dn_observed = n, dn_missing = length ps - n \<rparr>)
   \<and> dn_expected (reconcile_rule events rule) = dn_observed (reconcile_rule events rule) + dn_missing (reconcile_rule events rule)"
  using observed_le [of rule] by (simp add: reconcile_rule_counts Let_def)

text \<open>The rule of the contract for failed judgments.\<close>

definition judgment_rule :: expected_event_rule where
  "judgment_rule = the (find (\<lambda>r. er_rule_id r = ''judgment_failure_requires_retry_or_park'') (ec_rules load_contract))"

lemma judgment_rule_fields:
  "er_prerequisite_event judgment_rule = ''tl.judgment''" "er_required_event judgment_rule = ''tl.judgment/tl.slice_parked''"
  "er_required_data judgment_rule = []" "er_correlation_fields judgment_rule = []" "judgment_rule \<in> set (ec_rules load_contract)"
  by (simp_all add: judgment_rule_def load_contract_def)

lemma self_satisfied:
  assumes "\<And>e. is_prerequisite rule e \<Longrightarrow> is_outcome rule e \<and> correlated rule e"
  shows "dn_missing (reconcile_rule events rule) = 0"
proof -
  let ?ps = "filter (is_prerequisite rule) events"
  have "filter (correlated rule) ?ps = ?ps" using assms by (simp add: filter_id_conv del: filter_filter)
  then have k: "awaited rule ?ps = image_mset (key_of rule) (mset ?ps)" by (simp add: awaited_def)
  have "?ps = filter (is_prerequisite rule) (filter (is_outcome rule) events)"
    using assms by (auto intro: filter_cong)
  then have "mset ?ps \<subseteq># mset (filter (is_outcome rule) events)"
    by (metis mset_filter multiset_filter_subset)
  then have "awaited rule ?ps \<subseteq># outcomes rule events"
    unfolding k outcomes_def mset_map by (rule image_mset_subseteq_mono)
  then have "awaited rule ?ps \<inter># outcomes rule events = awaited rule ?ps" by (simp add: subset_mset.inf.absorb1)
  moreover have "size (awaited rule ?ps) = length ?ps" by (simp add: k flip: mset_filter)
  ultimately show ?thesis by (simp add: reconcile_rule_counts Let_def)
qed

text \<open>C13. The rule that a failed judgment requires another attempt or a park never reports one as missing: whatever
  was observed, its missing count is zero, because the failed judgment itself matches the event that
  is required after it. A failed judgment with nothing after it is reported as complete.\<close>

theorem judgment_rule_blind:
  "judgment_rule \<in> set (ec_rules load_contract) \<and> (\<forall>events. dn_missing (reconcile_rule events judgment_rule) = 0)
   \<and> (\<exists>e. is_prerequisite judgment_rule e \<and> reconcile_rule [e] judgment_rule =
        \<lparr> dn_rule_id = ''judgment_failure_requires_retry_or_park'', dn_expected = 1, dn_observed = 1, dn_missing = 0 \<rparr>
      \<and> dp_completeness_status (reconcile_events [e]) = ''complete'')"
proof (intro conjI allI)
  have "is_outcome judgment_rule e \<and> correlated judgment_rule e" if "is_prerequisite judgment_rule e" for e
    using that by (simp add: is_prerequisite_def is_outcome_def correlated_def judgment_rule_fields required_matches_def
        event_data_matches_def)
  then show "dn_missing (reconcile_rule events judgment_rule) = 0" for events by (rule self_satisfied)
  let ?e = "\<lparr> eo_session_id = None, eo_event_type = ''tl.judgment'', eo_run_seq = Some 1,
      eo_data = JObj [(''outcome'', JStr ''failure'')] \<rparr>"
  have "is_prerequisite judgment_rule ?e" by code_simp
  moreover have "reconcile_rule [?e] judgment_rule =
      \<lparr> dn_rule_id = ''judgment_failure_requires_retry_or_park'', dn_expected = 1, dn_observed = 1, dn_missing = 0 \<rparr>" by code_simp
  moreover have "dp_completeness_status (reconcile_events [?e]) = ''complete''" by code_simp
  ultimately show "\<exists>e. is_prerequisite judgment_rule e \<and> reconcile_rule [e] judgment_rule =
        \<lparr> dn_rule_id = ''judgment_failure_requires_retry_or_park'', dn_expected = 1, dn_observed = 1, dn_missing = 0 \<rparr>
      \<and> dp_completeness_status (reconcile_events [e]) = ''complete''" by blast
qed (rule judgment_rule_fields)

end
