(* ===== verification/Ledger_Retention.thy ===== *)
theory Ledger_Retention
  imports Event_Sequence
begin

text \<open>
  Retention (\<^verbatim>\<open>services/ledger_retention.rs\<close>): closed segments that are old enough are removed as
  units, each one after an audit event with its digest was appended to the ledger. Times are in one
  unit since the epoch, and negative before it; the SHA-256 of the contents is the argument \<open>sha\<close>,
  and what each append and removal meets is a function of their number. Other processes are idle
  meanwhile.
\<close>

section \<open>Operations\<close>

record segment_drop =
  sd_path :: string
  sd_bytes :: nat
  sd_sha256 :: string
  sd_reason :: string
  sd_dropped :: bool

record retention_env =
  rt_env :: log_env
  rt_remove_ok :: bool

definition fingerprint :: "(string \<Rightarrow> string) \<Rightarrow> string \<Rightarrow> string \<Rightarrow> segment_drop" where
  "fingerprint sha n bytes =
     \<lparr> sd_path = n, sd_bytes = length bytes, sd_sha256 = sha bytes, sd_reason = ''retention policy'', sd_dropped = False \<rparr>"

definition segment_expired :: "nat \<Rightarrow> nat \<Rightarrow> directory \<Rightarrow> string \<Rightarrow> bool" where
  "segment_expired now older_than d n =
     (case lookup_file d n of None \<Rightarrow> False | Some f \<Rightarrow> int (f_modified f) \<le> int now - int older_than)"

definition retention_candidates :: "(string \<Rightarrow> string) \<Rightarrow> nat \<Rightarrow> nat \<Rightarrow> directory \<Rightarrow> string + segment_drop list" where
  "retention_candidates sha now older_than d =
     (let current = (if segments d = [] then None else Some (last (segments d))) in
      traverse (\<lambda>n. case contents d n of None \<Rightarrow> Inl (''read segment '' @ n) | Some bytes \<Rightarrow> Inr (fingerprint sha n bytes))
        (filter (segment_expired now older_than d) (filter (\<lambda>n. Some n \<noteq> current) (segments d))))"

definition remove_file :: "string \<Rightarrow> directory \<Rightarrow> directory" where
  "remove_file n d = filter (\<lambda>f. f_name f \<noteq> n) d"

definition audit_data :: "string \<Rightarrow> segment_drop \<Rightarrow> json" where
  "audit_data dir c =
     JObj [(''segment_path'', JStr (dir @ ''/'' @ sd_path c)), (''segment_sha256'', JStr (sd_sha256 c)),
           (''bytes'', json_u64 (sd_bytes c)), (''reason'', JStr (sd_reason c)), (''crypto_shredded'', JBool False)]"

fun drop_segments ::
  "(json \<Rightarrow> string) \<Rightarrow> (string \<Rightarrow> string) \<Rightarrow> string \<Rightarrow> (nat \<Rightarrow> retention_env) \<Rightarrow> nat \<Rightarrow> segment_drop list \<Rightarrow> segment_drop list
     \<Rightarrow> event_log \<Rightarrow> (string + segment_drop list) \<times> event_log" where
  "drop_segments ser digest dir env k [] acc st = (Inr acc, st)"
| "drop_segments ser digest dir env k (c # cs) acc st =
     (if contents (el_ledger st) (sd_path c) = None then drop_segments ser digest dir env (Suc k) cs acc st
      else case append_with_seq ser digest open_ledger (rt_env (env k)) ''ledger.segment.dropped'' ''retention'' (audit_data dir c) st of
             (Inl e, st1) \<Rightarrow> (Inl e, st1)
           | (Inr _, st1) \<Rightarrow>
               if rt_remove_ok (env k)
               then drop_segments ser digest dir env (Suc k) cs (acc @ [c \<lparr> sd_dropped := True \<rparr>])
                      (st1 \<lparr> el_ledger := remove_file (sd_path c) (el_ledger st1) \<rparr>)
               else (Inl (''drop ledger segment '' @ sd_path c), st1))"

definition drop_expired_segments ::
  "(json \<Rightarrow> string) \<Rightarrow> (string \<Rightarrow> string) \<Rightarrow> (string \<Rightarrow> string) \<Rightarrow> string \<Rightarrow> (nat \<Rightarrow> retention_env) \<Rightarrow> nat \<Rightarrow> nat \<Rightarrow> bool
     \<Rightarrow> event_log \<Rightarrow> (string + segment_drop list) \<times> event_log" where
  "drop_expired_segments ser digest sha dir env now older_than dry_run st =
     (case retention_candidates sha now older_than (el_ledger st) of
        Inl e \<Rightarrow> (Inl e, st)
      | Inr candidates \<Rightarrow>
          if dry_run \<or> candidates = [] then (Inr candidates, st)
          else drop_segments ser digest dir env 0 candidates [] st)"

section \<open>Removing a segment\<close>

lemma contents_remove_file: "contents (remove_file n d) m = (if m = n then None else contents d m)"
  by (induction d) (auto simp: remove_file_def contents_def lookup_file_def)

lemma segments_remove_file: "segments (remove_file n d) = filter (\<lambda>m. m \<noteq> n) (segments d)"
  by (simp add: segments_def remove_file_def filter_sort filter_map comp_def conj_commute)

lemma ledger_inv_remove_file: "ledger_inv N d \<Longrightarrow> ledger_inv N (remove_file n d)"
proof -
  have "distinct (map f_name d) \<Longrightarrow> distinct (map f_name (remove_file n d))"
    by (simp add: remove_file_def distinct_map_filter)
  then show "ledger_inv N d \<Longrightarrow> ledger_inv N (remove_file n d)"
    by (auto simp: ledger_inv_def segments_remove_file)
qed

lemma read_segment_same: "read_segment_events parse d m = Inr z \<Longrightarrow> r \<in> set z \<Longrightarrow> lr_segment r = m"
  by (fastforce simp: read_segment_events_def read_line_def split: option.splits if_splits prod.splits dest!: traverse_concat_mem)

lemma traverse_filter_concat:
  assumes "traverse f xs = Inr ys" "\<And>x z r. f x = Inr z \<Longrightarrow> r \<in> set z \<Longrightarrow> s r = x"
  shows "\<exists>zs. traverse f (filter (\<lambda>x. x \<noteq> n) xs) = Inr zs \<and> concat zs = filter (\<lambda>r. s r \<noteq> n) (concat ys)"
  using assms(1)
proof (induction xs arbitrary: ys)
  case (Cons x xs)
  then obtain z zs where z: "f x = Inr z" "traverse f xs = Inr zs" "ys = z # zs" by auto
  then have "filter (\<lambda>r. s r \<noteq> n) z = (if x = n then [] else z)"
    using assms(2) [OF z(1)] by (auto simp: filter_empty_conv filter_id_conv)
  with Cons.IH [OF z(2)] z show ?case by auto
qed simp

lemma read_events_remove_file:
  assumes "read_events parse d = Inr rs"
  shows "read_events parse (remove_file n d) = Inr (filter (\<lambda>r. lr_segment r \<noteq> n) rs)"
proof -
  from assms obtain ys where ys: "traverse (read_segment_events parse d) (segments d) = Inr ys" "rs = concat ys"
    by (auto simp: read_events_def)
  have "\<exists>zs. traverse (read_segment_events parse d) (filter (\<lambda>m. m \<noteq> n) (segments d)) = Inr zs
      \<and> concat zs = filter (\<lambda>r. lr_segment r \<noteq> n) (concat ys)"
    by (rule traverse_filter_concat [OF ys(1)]) (rule read_segment_same)
  then obtain zs where zs: "traverse (read_segment_events parse d) (filter (\<lambda>m. m \<noteq> n) (segments d)) = Inr zs"
    "concat zs = filter (\<lambda>r. lr_segment r \<noteq> n) rs" by (auto simp: ys(2))
  have "traverse (read_segment_events parse (remove_file n d)) (filter (\<lambda>m. m \<noteq> n) (segments d)) = Inr zs"
    by (subst zs(1) [symmetric], rule traverse_cong) (simp add: read_segment_events_def contents_remove_file)
  then show ?thesis by (simp add: read_events_def segments_remove_file zs(2))
qed

lemma terminated_remove_file:
  "\<forall>bs \<in> set (segment_bytes d). terminated bs \<Longrightarrow> \<forall>bs \<in> set (segment_bytes (remove_file n d)). terminated bs"
  by (auto simp: segment_bytes_def segments_remove_file contents_remove_file)

section \<open>The audit event\<close>

lemma ledger_append_ok: "ledger_append ser w now r e d = (Inr u, d') \<Longrightarrow> r = Written"
  unfolding ledger_append_def by (metis append_line_ok fst_conv)

lemma append_with_seq_ledger:
  assumes "append_with_seq ser digest w en ty ag data st = (r, st')"
  shows "(\<exists>e. r = Inl e) \<and> el_ledger st' = el_ledger st
    \<or> (\<exists>n. fst (begin_append digest en st) = Inr n
         \<and> el_ledger st' = snd (ledger_append ser w (en_clock en) (en_ledger_write en) (canonical_event en n ty ag data) (el_ledger st))
         \<and> ((\<exists>x. r = Inr x) \<longrightarrow> en_ledger_write en = Written))"
proof (cases "begin_append digest en st")
  case (Pair b st1)
  note f = begin_append_frame [OF Pair]
  show ?thesis
  proof (cases b)
    case (Inl e)
    with assms Pair f show ?thesis by (auto simp: append_with_seq_def)
  next
    case (Inr n)
    with assms Pair have c: "commit_append ser digest w en n ty ag data st1 = (r, st')" by (simp add: append_with_seq_def)
    have "(\<exists>x. r = Inr x) \<longrightarrow> en_ledger_write en = Written"
      using c by (auto simp: commit_append_def fail_append_def Let_def split: prod.splits sum.splits dest: ledger_append_ok)
    with commit_append_frame [OF c] f(1) Pair Inr show ?thesis by auto
  qed
qed

section \<open>The loop\<close>

text \<open>The state of the loop that started in the directory \<open>d0\<close> with the candidates named in
  \<open>C\<close>: the ledger reads, a newer segment than all candidates exists, files are as they were or extended, a
  removed one was a candidate and its audit event is in a segment that is none.\<close>

definition audited :: "(string \<Rightarrow> string) \<Rightarrow> string \<Rightarrow> string set \<Rightarrow> ledger_record list \<Rightarrow> string \<Rightarrow> string \<Rightarrow> bool" where
  "audited sha dir C rs n b \<longleftrightarrow> n \<in> C \<and> (\<exists>r \<in> set rs. lr_segment r \<notin> C
     \<and> le_event_type (lr_event r) = ''ledger.segment.dropped'' \<and> le_data (lr_event r) = audit_data dir (fingerprint sha n b))"

definition retention_inv ::
  "(string \<Rightarrow> json option) \<Rightarrow> (string \<Rightarrow> string) \<Rightarrow> string \<Rightarrow> directory \<Rightarrow> string set \<Rightarrow> nat \<Rightarrow> directory \<Rightarrow> bool" where
  "retention_inv parse sha dir d0 C N d \<longleftrightarrow> ledger_inv N d \<and> (\<forall>bs \<in> set (segment_bytes d). terminated bs)
     \<and> (\<exists>m \<in> set (segments d). \<forall>c \<in> C. c < m) \<and> (\<forall>c \<in> C. is_segment c)
     \<and> (\<forall>c \<in> C. contents d c \<noteq> None \<longrightarrow> contents d c = contents d0 c)
     \<and> (\<exists>rs. read_events parse d = Inr rs \<and> (\<forall>n b. contents d0 n = Some b \<longrightarrow>
          (\<exists>e. contents d n = Some (b @ e)) \<or> contents d n = None \<and> audited sha dir C rs n b))"

lemma audited_mono: "audited sha dir C rs n b \<Longrightarrow> set rs \<subseteq> set rs' \<Longrightarrow> audited sha dir C rs' n b"
  by (auto simp: audited_def)

lemma target_no_candidate:
  assumes "ledger_inv N d" "extends_last t d \<or> opens_new t d" "m \<in> set (segments d)" "\<forall>c \<in> C. c < m"
  shows "t \<notin> C"
proof -
  have "m \<le> t"
    using assms(2)
  proof
    assume "extends_last t d"
    then have "segments d = butlast (segments d) @ [t]" by (simp add: extends_last_def)
    moreover have "sorted (segments d)" using assms(1) sorted_distinct_segments by (auto simp: ledger_inv_def)
    ultimately have "sorted (butlast (segments d) @ [t])" "m \<in> set (butlast (segments d) @ [t])" using assms(3) by metis+
    then show ?thesis by (auto simp: sorted_append)
  qed (use assms(3) in \<open>auto simp: opens_new_def less_imp_le\<close>)
  with assms(4) show ?thesis by auto
qed

text \<open>An append leaves the candidates alone, also when its write is torn.\<close>

lemma append_keeps_candidates:
  assumes "retention_inv parse sha dir d0 C N d" "Suc N < max_index" "c \<in> C"
  shows "contents (snd (ledger_append ser w now r e d)) c = contents d c"
proof -
  let ?l = "append_file append_lock [] now d" and ?line = "ser (event_to_json e) @ [CHR 0x0A]"
  let ?t = "append_target w now ?line ?l"
  from assms(1) obtain m where i: "ledger_inv N d" "m \<in> set (segments d)" "\<forall>c \<in> C. c < m" "\<forall>c \<in> C. is_segment c"
    unfolding retention_inv_def by blast
  have l: "ledger_inv N ?l" using i(1) by simp
  from append_target_cases [OF l assms(2)] have k: "extends_last ?t ?l \<or> opens_new ?t ?l" by blast
  have "?t \<notin> C" by (rule target_no_candidate [OF l k, of m]) (use i in simp_all)
  moreover have "c \<noteq> append_lock" using assms(3) i(4) by auto
  ultimately show ?thesis using assms(3)
    by (auto simp: ledger_append_def append_line_dir Let_def contents_append_file split: option.split)
qed

lemma retention_inv_append:
  fixes w now
  assumes "retention_inv parse sha dir d0 C N d" "Suc N < max_index" "\<not> torn r" "line_codec ser parse e"
  defines "d' \<equiv> snd (ledger_append ser w now r e d)"
  shows "retention_inv parse sha dir d0 C (Suc N) d'"
    and "recorded r \<Longrightarrow> \<exists>rs k t. t \<notin> C \<and> read_events parse d' = Inr (rs @ [\<lparr> lr_segment = t, lr_line_number = k, lr_event = e \<rparr>])"
proof -
  let ?l = "append_file append_lock [] now d" and ?line = "ser (event_to_json e) @ [CHR 0x0A]"
  let ?t = "append_target w now ?line ?l"
  from assms(1) obtain rs m where i: "ledger_inv N d" "\<forall>bs \<in> set (segment_bytes d). terminated bs"
      "m \<in> set (segments d)" "\<forall>c \<in> C. c < m" "\<forall>c \<in> C. contents d c \<noteq> None \<longrightarrow> contents d c = contents d0 c"
      "read_events parse d = Inr rs" "\<forall>c \<in> C. is_segment c"
    and a: "\<And>n b. contents d0 n = Some b \<Longrightarrow> (\<exists>e. contents d n = Some (b @ e)) \<or> contents d n = None \<and> audited sha dir C rs n b"
    unfolding retention_inv_def by blast
  have l: "ledger_inv N ?l" using i(1) by simp
  have rl: "read_events parse ?l = Inr rs" using i(6) by (simp add: read_events_eq named_bytes_zip)
  from append_target_cases [OF l assms(2)] have k: "extends_last ?t ?l \<or> opens_new ?t ?l" by blast
  have tC: "?t \<notin> C" by (rule target_no_candidate [OF l k, of m]) (use i in simp_all)
  have dist: "distinct (map f_name ?l)" using l by (simp add: ledger_inv_def)
  have tl: "\<forall>bs \<in> set (segment_bytes ?l). terminated bs" using i(2) by simp
  obtain q where q: "read_events parse (append_file ?t ?line now ?l) = Inr (rs @ [\<lparr> lr_segment = ?t, lr_line_number = q, lr_event = e \<rparr>])"
    using read_append_file(1) [OF tl rl assms(4) dist k, of now] by blast
  note d' = d'_def ledger_append_def append_line_dir
  show "recorded r \<Longrightarrow> \<exists>rs k t. t \<notin> C \<and> read_events parse d' = Inr (rs @ [\<lparr> lr_segment = t, lr_line_number = k, lr_event = e \<rparr>])"
    using tC q by (cases r) (auto simp: d' Let_def bytes_written_def)
  have inv: "ledger_inv (Suc N) d'" unfolding d'_def ledger_append_def by (rule append_line_refines(1) [OF i(1) assms(2)])
  have trm: "\<forall>bs \<in> set (segment_bytes d'). terminated bs"
    using read_append_file(2) [OF tl rl assms(4) dist k, of now] i(2) tl assms(3)
    by (cases r) (auto simp: d' Let_def bytes_written_def)
  have reads: "\<exists>rs'. read_events parse d' = Inr rs' \<and> set rs \<subseteq> set rs'"
    using q rl i(6) assms(3) by (cases r) (auto simp: d' Let_def bytes_written_def)
  have newer: "m \<in> set (segments d')"
    using append_line_refines(3) [OF i(1) assms(2), where w = w and now = now and r = r and line = ?line] i(3)
    by (auto simp: d'_def ledger_append_def prefix_def)
  have ext: "contents d n = Some b \<Longrightarrow> \<exists>e. contents d' n = Some (b @ e)" for n b
    unfolding d'_def ledger_append_def by (rule append_line_extends)
  have same: "contents d' c = contents d c" if "c \<in> C" for c
    unfolding d'_def by (rule append_keeps_candidates [OF assms(1,2) that])
  from reads obtain rs' where rs': "read_events parse d' = Inr rs'" "set rs \<subseteq> set rs'" by blast
  have "(\<exists>e. contents d' n = Some (b @ e)) \<or> contents d' n = None \<and> audited sha dir C rs' n b" if n: "contents d0 n = Some b" for n b
    using a [OF n]
  proof
    assume "\<exists>e. contents d n = Some (b @ e)"
    then show ?thesis using ext by fastforce
  next
    assume "contents d n = None \<and> audited sha dir C rs n b"
    then show ?thesis using same audited_mono rs'(2) by (auto simp: audited_def)
  qed
  with inv trm newer i(4,5,7) same rs'(1) show "retention_inv parse sha dir d0 C (Suc N) d'"
    unfolding retention_inv_def by auto
qed

lemma retention_inv_remove:
  assumes "retention_inv parse sha dir d0 C N d" "n \<in> C" "contents d n = Some b"
    and "read_events parse d = Inr (rs @ [r])" "lr_segment r \<notin> C"
      "le_event_type (lr_event r) = ''ledger.segment.dropped''" "le_data (lr_event r) = audit_data dir (fingerprint sha n b)"
  shows "retention_inv parse sha dir d0 C N (remove_file n d)"
proof -
  let ?rs = "filter (\<lambda>r. lr_segment r \<noteq> n) (rs @ [r])"
  from assms(1) obtain m rs' where i: "ledger_inv N d" "\<forall>bs \<in> set (segment_bytes d). terminated bs"
      "m \<in> set (segments d)" "\<forall>c \<in> C. c < m" "\<forall>c \<in> C. contents d c \<noteq> None \<longrightarrow> contents d c = contents d0 c" "\<forall>c \<in> C. is_segment c"
      "read_events parse d = Inr rs'"
    and a': "\<And>n b. contents d0 n = Some b \<Longrightarrow> (\<exists>e. contents d n = Some (b @ e)) \<or> contents d n = None \<and> audited sha dir C rs' n b"
    unfolding retention_inv_def by blast
  have "rs' = rs @ [r]" using i(7) assms(4) by simp
  note a = a' [unfolded this]
  have keep: "audited sha dir C ?rs k b" if "audited sha dir C (rs @ [r]) k b" for k b
    using that assms(2) by (auto simp: audited_def)
  have b0: "contents d0 n = Some b" using i(5) assms(2,3) by (metis option.distinct(1))
  have new: "audited sha dir C ?rs n b" using assms(2,5-7) by (auto simp: audited_def)
  have "(\<exists>e. contents (remove_file n d) k = Some (c @ e)) \<or> contents (remove_file n d) k = None \<and> audited sha dir C ?rs k c"
    if "contents d0 k = Some c" for k c
    using a [OF that] keep [of k c] new b0 that by (auto simp: contents_remove_file)
  moreover have "m \<noteq> n" using i(4) assms(2) by auto
  ultimately show ?thesis
    unfolding retention_inv_def
    using i ledger_inv_remove_file [OF i(1)] terminated_remove_file [OF i(2)] read_events_remove_file [OF assms(4)]
    by (auto simp: segments_remove_file contents_remove_file)
qed

lemma retention_inv_mono: "retention_inv parse sha dir d0 C N d \<Longrightarrow> N \<le> M \<Longrightarrow> retention_inv parse sha dir d0 C M d"
  unfolding retention_inv_def using ledger_inv_mono by blast

end
