(* ===== verification/Retention_Properties.thy ===== *)
theory Retention_Properties
  imports Ledger_Retention
begin

text \<open>What retention may remove, and the audit it leaves.\<close>

section \<open>The loop keeps its invariant\<close>

lemma begin_append_bound: "fst (begin_append digest en st) = Inr n \<Longrightarrow> n < 2 ^ 64"
  by (auto simp: begin_append_def fail_append_def allocate_sequence_def Let_def split: prod.splits sum.splits if_splits option.splits)

definition retention_codec ::
  "(json \<Rightarrow> string) \<Rightarrow> (string \<Rightarrow> json option) \<Rightarrow> string \<Rightarrow> (nat \<Rightarrow> retention_env) \<Rightarrow> segment_drop list \<Rightarrow> bool" where
  "retention_codec ser parse dir env cs \<longleftrightarrow> (\<forall>k n. \<forall>c \<in> set cs. n < 2 ^ 64 \<longrightarrow>
     line_codec ser parse (canonical_event (rt_env (env k)) n ''ledger.segment.dropped'' ''retention'' (audit_data dir c)))"

lemma retention_inv_appended:
  assumes "append_with_seq ser digest w (rt_env (env k)) ''ledger.segment.dropped'' ''retention'' (audit_data dir c) st = (r, st')"
    and "retention_inv parse sha dir d0 C N (el_ledger st)" "Suc N < max_index"
    and "\<not> torn (en_ledger_write (rt_env (env k)))" "retention_codec ser parse dir env [c]"
  shows "retention_inv parse sha dir d0 C (Suc N) (el_ledger st')"
    and "r = Inr x \<Longrightarrow> \<exists>rs rec. read_events parse (el_ledger st') = Inr (rs @ [rec]) \<and> lr_segment rec \<notin> C
      \<and> le_event_type (lr_event rec) = ''ledger.segment.dropped'' \<and> le_data (lr_event rec) = audit_data dir c"
proof -
  consider (unchanged) e where "r = Inl e" "el_ledger st' = el_ledger st"
    | (appended) n where "n < 2 ^ 64"
      "el_ledger st' = snd (ledger_append ser w (en_clock (rt_env (env k))) (en_ledger_write (rt_env (env k)))
         (canonical_event (rt_env (env k)) n ''ledger.segment.dropped'' ''retention'' (audit_data dir c)) (el_ledger st))"
      "(\<exists>x. r = Inr x) \<longrightarrow> en_ledger_write (rt_env (env k)) = Written"
    using append_with_seq_ledger [OF assms(1)] begin_append_bound by blast
  then have "retention_inv parse sha dir d0 C (Suc N) (el_ledger st') \<and> (r = Inr x \<longrightarrow>
      (\<exists>rs rec. read_events parse (el_ledger st') = Inr (rs @ [rec]) \<and> lr_segment rec \<notin> C
        \<and> le_event_type (lr_event rec) = ''ledger.segment.dropped'' \<and> le_data (lr_event rec) = audit_data dir c))"
  proof cases
    case unchanged
    with assms(2) show ?thesis by (simp add: retention_inv_mono [of _ _ _ _ _ N])
  next
    case appended
    let ?e = "canonical_event (rt_env (env k)) n ''ledger.segment.dropped'' ''retention'' (audit_data dir c)"
    have cod: "line_codec ser parse ?e" using assms(5) appended(1) by (simp add: retention_codec_def)
    note a = retention_inv_append [OF assms(2-4) cod, where w = w and now = "en_clock (rt_env (env k))", folded appended(2)]
    have "\<exists>rs rec. read_events parse (el_ledger st') = Inr (rs @ [rec]) \<and> lr_segment rec \<notin> C
        \<and> le_event_type (lr_event rec) = ''ledger.segment.dropped'' \<and> le_data (lr_event rec) = audit_data dir c" if "r = Inr x"
    proof -
      from appended(3) that have "recorded (en_ledger_write (rt_env (env k)))" by simp
      from a(2) [OF this] show ?thesis by (fastforce simp: canonical_event_def)
    qed
    with a(1) show ?thesis by blast
  qed
  then show "retention_inv parse sha dir d0 C (Suc N) (el_ledger st')"
    and "r = Inr x \<Longrightarrow> \<exists>rs rec. read_events parse (el_ledger st') = Inr (rs @ [rec]) \<and> lr_segment rec \<notin> C
      \<and> le_event_type (lr_event rec) = ''ledger.segment.dropped'' \<and> le_data (lr_event rec) = audit_data dir c" by blast+
qed

text \<open>What a torn audit write leaves of the directory \<open>d\<close>: bytes behind its files, and its candidates
  as they were.\<close>

definition torn_behind :: "string set \<Rightarrow> directory \<Rightarrow> directory \<Rightarrow> bool" where
  "torn_behind C d d' \<longleftrightarrow> keeps_bytes d d' \<and> (\<forall>c \<in> C. contents d' c = contents d c)"

lemma torn_behind_refl [simp]: "torn_behind C d d"
  by (simp add: torn_behind_def)

lemma torn_appended:
  assumes "append_with_seq ser digest w en ty ag data st = (r, st')" "torn (en_ledger_write en)"
    and "retention_inv parse sha dir d0 C N (el_ledger st)" "Suc N < max_index"
  shows "\<not> is_ok r" "torn_behind C (el_ledger st) (el_ledger st')"
proof -
  from append_with_seq_ledger [OF assms(1)] assms(2) show "\<not> is_ok r" by (auto simp: is_ok_iff)
  from append_with_seq_ledger [OF assms(1)] show "torn_behind C (el_ledger st) (el_ledger st')"
    using append_keeps_candidates [OF assms(3,4)] keeps_bytes_append by (auto simp: torn_behind_def)
qed

lemma retention_inv_removed:
  assumes inv: "retention_inv parse sha dir d0 C N d" and c: "sd_path c \<in> C" "c = fingerprint sha (sd_path c) b"
    and d0: "contents d0 (sd_path c) = Some b"
    and rec: "read_events parse d = Inr (rs @ [rec])" "lr_segment rec \<notin> C"
      "le_event_type (lr_event rec) = ''ledger.segment.dropped''" "le_data (lr_event rec) = audit_data dir c"
  shows "retention_inv parse sha dir d0 C N (remove_file (sd_path c) d)"
proof (cases "contents d (sd_path c)")
  case None
  then have "remove_file (sd_path c) d = d"
    by (force simp: remove_file_def contents_None_iff filter_id_conv)
  with inv show ?thesis by simp
next
  case (Some b1)
  with inv c(1) d0 have "b1 = b" unfolding retention_inv_def by (metis option.inject option.distinct(1))
  with rec(4) c(2) retention_inv_remove [OF inv c(1) Some rec(1,2,3)] show ?thesis by simp
qed

text \<open>The loop stops at a torn write; its invariant holds of the directory just before that write, and of
  the last one when there was none, in particular when it succeeds.\<close>

lemma drop_segments_inv:
  assumes "retention_inv parse sha dir d0 C N (el_ledger st)" "N + length cs < max_index"
    and "\<forall>c \<in> set cs. sd_path c \<in> C \<and> (\<forall>b. contents d0 (sd_path c) = Some b \<longrightarrow> c = fingerprint sha (sd_path c) b)"
    and "retention_codec ser parse dir env cs" "drop_segments ser digest dir env k cs acc st = (res, st')"
  shows "\<exists>M d. retention_inv parse sha dir d0 C M d \<and> torn_behind C d (el_ledger st')
    \<and> (is_ok res \<or> (\<forall>j < length cs. \<not> torn (en_ledger_write (rt_env (env (k + j))))) \<longrightarrow> d = el_ledger st')"
  using assms
proof (induction cs arbitrary: k acc st N)
  case Nil
  then show ?case using torn_behind_refl by auto
next
  case (Cons c cs)
  have cod: "retention_codec ser parse dir env [c]" "retention_codec ser parse dir env cs"
    using Cons.prems(4) by (auto simp: retention_codec_def)
  let ?untorn = "\<forall>j < length (c # cs). \<not> torn (en_ledger_write (rt_env (env (k + j))))"
  have rest: "\<forall>j < length cs. \<not> torn (en_ledger_write (rt_env (env (Suc k + j))))" if "?untorn"
    using that by fastforce
  have b: "Suc N < max_index" using Cons.prems(2) by simp
  show ?case
  proof (cases "contents (el_ledger st) (sd_path c)")
    case None
    from Cons.IH [OF Cons.prems(1) _ _ cod(2), of "Suc k" acc] Cons.prems(2,3,5) None rest show ?thesis by fastforce
  next
    case (Some bs)
    obtain r st1 where ap: "append_with_seq ser digest open_ledger (rt_env (env k)) ''ledger.segment.dropped'' ''retention'' (audit_data dir c) st = (r, st1)"
      by force
    show ?thesis
    proof (cases "torn (en_ledger_write (rt_env (env k)))")
      case True
      note t = torn_appended [OF ap True Cons.prems(1) b]
      have "\<not> is_ok res" "st' = st1" using Cons.prems(5) Some ap t(1) by (cases r; auto)+
      moreover have "\<not> ?untorn" using True by (metis add.right_neutral length_Cons zero_less_Suc)
      ultimately show ?thesis using Cons.prems(1) t(2) by blast
    next
      case False
      note i = retention_inv_appended [OF ap Cons.prems(1) b False cod(1)]
      show ?thesis
      proof (cases "is_ok r \<and> rt_remove_ok (env k)")
        case True
        then obtain x where x: "r = Inr x" by (auto simp: is_ok_iff)
        from i(2) [OF this] obtain rs rec where rec: "read_events parse (el_ledger st1) = Inr (rs @ [rec])" "lr_segment rec \<notin> C"
          "le_event_type (lr_event rec) = ''ledger.segment.dropped''" "le_data (lr_event rec) = audit_data dir c" by blast
        have C: "sd_path c \<in> C" using Cons.prems(3) by simp
        have d0: "contents d0 (sd_path c) = Some bs"
          using Cons.prems(1) C Some unfolding retention_inv_def by (metis option.distinct(1))
        then have c: "c = fingerprint sha (sd_path c) bs" using Cons.prems(3) by simp
        let ?st = "st1 \<lparr> el_ledger := remove_file (sd_path c) (el_ledger st1) \<rparr>"
        have "retention_inv parse sha dir d0 C (Suc N) (el_ledger ?st)"
          using retention_inv_removed [OF i(1) C c d0 rec] by simp
        from Cons.IH [OF this _ _ cod(2), of "Suc k" "acc @ [c \<lparr> sd_dropped := True \<rparr>]"] Cons.prems(2,3,5) Some ap x True rest
        show ?thesis by fastforce
      next
        case False
        with Cons.prems(5) Some ap have "st' = st1" by (cases r) auto
        with i(1) show ?thesis using torn_behind_refl by blast
      qed
    qed
  qed
qed

section \<open>Candidates\<close>

lemma retention_candidates_spec:
  assumes "retention_candidates sha now older_than d = Inr cs" "distinct (map f_name d)"
  shows "\<forall>c \<in> set cs. sd_path c \<in> closed_segments d \<and> segment_expired now older_than d (sd_path c)
    \<and> (\<forall>b. contents d (sd_path c) = Some b \<longrightarrow> c = fingerprint sha (sd_path c) b)"
proof
  fix c assume c: "c \<in> set cs"
  let ?f = "\<lambda>n. case contents d n of None \<Rightarrow> Inl (''read segment '' @ n) | Some bytes \<Rightarrow> Inr (fingerprint sha n bytes)"
  have mem: "traverse f xs = Inr ys \<Longrightarrow> y \<in> set ys \<Longrightarrow> \<exists>x \<in> set xs. f x = Inr y" for f :: "string \<Rightarrow> string + segment_drop" and xs ys y
    by (induction xs arbitrary: ys) auto
  from assms(1) c obtain n where n: "n \<in> set (segments d)" "Some n \<noteq> (if segments d = [] then None else Some (last (segments d)))"
    "segment_expired now older_than d n" "?f n = Inr c"
    by (auto simp: retention_candidates_def Let_def dest!: mem)
  then obtain b where b: "contents d n = Some b" "c = fingerprint sha n b" by (auto split: option.splits)
  from n(1) have "segments d \<noteq> []" by auto
  moreover from n(2) this have "n \<noteq> last (segments d)" by auto
  ultimately have "n \<noteq> last (segments d)" "segments d \<noteq> []" by simp_all
  with n(1) have "n \<in> closed_segments d"
    unfolding closed_segments_def by (metis append_butlast_last_id in_set_conv_decomp_last rotate1.simps(2) set_ConsD set_rotate1)
  with b n(3) show "sd_path c \<in> closed_segments d \<and> segment_expired now older_than d (sd_path c)
    \<and> (\<forall>b. contents d (sd_path c) = Some b \<longrightarrow> c = fingerprint sha (sd_path c) b)"
    by (simp add: fingerprint_def)
qed

lemma retention_inv_start:
  assumes "ledger_inv N d" "reads_as parse d es" "C \<subseteq> closed_segments d" "segments d \<noteq> []"
  shows "retention_inv parse sha dir d C N d"
proof -
  have s: "segments d = butlast (segments d) @ [last (segments d)]" using assms(4) by simp
  have "sorted_wrt (<) (segments d)"
    using assms(1) sorted_distinct_segments by (auto simp: ledger_inv_def strict_sorted_iff)
  then have "sorted_wrt (<) (butlast (segments d) @ [last (segments d)])" using s by metis
  then have "\<forall>c \<in> C. c < last (segments d)" using assms(3) by (auto simp: sorted_wrt_append closed_segments_def)
  moreover have "last (segments d) \<in> set (segments d)" using assms(4) by simp
  moreover have "\<forall>c \<in> C. is_segment c"
    using assms(3) by (auto simp: closed_segments_def in_segments dest!: subsetD in_set_butlastD)
  ultimately show ?thesis
    using assms(1,2) unfolding retention_inv_def reads_as_def by auto
qed

section \<open>Properties\<close>

text \<open>C37. Retention removes only what it may and leaves an audit. On a ledger that reads, with no other
  process writing to it meanwhile, and whatever append or removal fails on the way, a segment that is gone
  afterwards was closed and old enough when retention began and the run was no dry run; all other files are
  as they were or extended. The audit of each removed segment, with the digest and the size of
  exactly the bytes that were removed, is in a ledger that reads without error: the one that is left when
  retention succeeds or none of its audit writes was torn; a torn audit write ends the run with an
  error, and then the ledger from just before that write is left byte for byte at the beginning of the
  files, which need not read any more.\<close>

theorem retention_audited:
  assumes "drop_expired_segments ser digest sha dir env now older_than dry_run st = (res, st')"
    and "ledger_inv N (el_ledger st)" "reads_as parse (el_ledger st) es"
    and "retention_candidates sha now older_than (el_ledger st) = Inr cs" "N + length cs < max_index"
    and "retention_codec ser parse dir env cs"
  shows "\<exists>d rs. read_events parse d = Inr rs \<and> keeps_bytes d (el_ledger st')
    \<and> (is_ok res \<or> (\<forall>k < length cs. \<not> torn (en_ledger_write (rt_env (env k)))) \<longrightarrow> d = el_ledger st')
    \<and> (\<forall>n b. contents (el_ledger st) n = Some b \<longrightarrow>
     (\<exists>e. contents (el_ledger st') n = Some (b @ e))
     \<or> contents (el_ledger st') n = None \<and> \<not> dry_run \<and> n \<in> closed_segments (el_ledger st)
       \<and> segment_expired now older_than (el_ledger st) n
       \<and> (\<exists>r \<in> set rs. le_event_type (lr_event r) = ''ledger.segment.dropped''
            \<and> le_data (lr_event r) = audit_data dir (fingerprint sha n b)))"
proof (cases "dry_run \<or> cs = []")
  case True
  with assms(1,4) have "st' = st" by (auto simp: drop_expired_segments_def)
  with assms(3) show ?thesis by (auto simp: reads_as_def intro!: exI [of _ "el_ledger st"])
next
  case False
  let ?C = "set (map sd_path cs)"
  have dist: "distinct (map f_name (el_ledger st))" using assms(2) by (simp add: ledger_inv_def)
  note c = retention_candidates_spec [OF assms(4) dist]
  have C: "?C \<subseteq> closed_segments (el_ledger st)" using c by auto
  moreover obtain x where "x \<in> set cs" using False by (cases cs) auto
  ultimately have "segments (el_ledger st) \<noteq> []" by (auto simp: closed_segments_def)
  note start = retention_inv_start [OF assms(2,3) C this, of sha dir]
  from assms(1,4) False have run: "drop_segments ser digest dir env 0 cs [] st = (res, st')"
    by (simp add: drop_expired_segments_def)
  have paths: "\<forall>c \<in> set cs. sd_path c \<in> ?C \<and> (\<forall>b. contents (el_ledger st) (sd_path c) = Some b \<longrightarrow> c = fingerprint sha (sd_path c) b)"
    using c by auto
  from drop_segments_inv [OF start assms(5) paths assms(6) run]
  obtain M d where d: "retention_inv parse sha dir (el_ledger st) ?C M d" "torn_behind ?C d (el_ledger st')"
    "is_ok res \<or> (\<forall>k < length cs. \<not> torn (en_ledger_write (rt_env (env k)))) \<longrightarrow> d = el_ledger st'" by auto
  then obtain rs where rs: "read_events parse d = Inr rs" "\<And>n b. contents (el_ledger st) n = Some b \<Longrightarrow>
      (\<exists>e. contents d n = Some (b @ e)) \<or> contents d n = None \<and> audited sha dir ?C rs n b"
    unfolding retention_inv_def by blast
  have "(\<exists>e. contents (el_ledger st') n = Some (b @ e))
     \<or> contents (el_ledger st') n = None \<and> \<not> dry_run \<and> n \<in> closed_segments (el_ledger st)
       \<and> segment_expired now older_than (el_ledger st) n
       \<and> (\<exists>r \<in> set rs. le_event_type (lr_event r) = ''ledger.segment.dropped''
            \<and> le_data (lr_event r) = audit_data dir (fingerprint sha n b))"
    if n: "contents (el_ledger st) n = Some b" for n b
    using rs(2) [OF n]
  proof
    assume "\<exists>e. contents d n = Some (b @ e)"
    then show ?thesis using d(2) by (fastforce simp: torn_behind_def keeps_bytes_def)
  next
    assume "contents d n = None \<and> audited sha dir ?C rs n b"
    then show ?thesis using d(2) c False by (auto simp: torn_behind_def audited_def)
  qed
  with rs(1) d(2,3) show ?thesis unfolding torn_behind_def by blast
qed

text \<open>Two segments of blank lines, of which the first one is old.\<close>

definition demo_old_log :: event_log where
  "demo_old_log = event_log_open \<lparr> el_ledger :=
     [\<lparr> f_name = segment_name 0, f_bytes = ''\<newline>'', f_modified = 1 \<rparr>, \<lparr> f_name = segment_name 1, f_bytes = ''\<newline>'', f_modified = 2 \<rparr>] \<rparr>"

definition demo_retention_env :: "nat \<Rightarrow> retention_env" where
  "demo_retention_env k = \<lparr> rt_env = \<lparr> en_uuid = ''u'', en_now = ''t'', en_observed_at = ''t'', en_health_now = ''t'',
       en_clock = 10, en_run_id_file = None, en_session_file = None, en_sequence_ok = True, en_ledger_write = Written,
       en_view_write = Written, en_health_ok = True \<rparr>, rt_remove_ok = True \<rparr>"

definition demo_size :: "string \<Rightarrow> string" where
  "demo_size s = nat_str (length s)"

definition demo_drop :: segment_drop where
  "demo_drop = fingerprint demo_size (segment_name 0) ''\<newline>''"

definition demo_audit :: "nat \<Rightarrow> ledger_event" where
  "demo_audit n = canonical_event (rt_env (demo_retention_env 0)) n ''ledger.segment.dropped'' ''retention'' (audit_data ''s'' demo_drop)"

text \<open>A text that is the number of the event, and its reader.\<close>

definition number_ser :: "json \<Rightarrow> string" where
  "number_ser j = ''{'' @ (case value_get j ''run_seq'' of Some (JInt i) \<Rightarrow> nat_str (nat i) | _ \<Rightarrow> []) @ ''}''"

definition number_parse :: "string \<Rightarrow> json option" where
  "number_parse s = map_option (\<lambda>n. event_to_json (demo_audit n)) (parse_u64_digits (butlast (tl s)))"

lemma demo_audit_ser: "number_ser (event_to_json (demo_audit n)) = ''{'' @ nat_str n @ ''}''"
  by (simp add: number_ser_def demo_audit_def canonical_event_def event_to_json_def event_object_def json_opt_def json_u64_def)

lemma demo_audit_codec: "n < 2 ^ 64 \<Longrightarrow> line_codec number_ser number_parse (demo_audit n)"
proof -
  assume n: "n < 2 ^ 64"
  have "CHR 0x0A \<notin> set (nat_str n)" using nat_str_digits [of n] by (auto simp: list_all_iff is_ascii_digit_def)
  moreover have "event_encodable (demo_audit n)"
    using n by (simp add: event_encodable_def demo_audit_def canonical_event_def audit_data_def)
  moreover have "ends_with ''}'' (''{'' @ nat_str n @ ''}'')" by (auto simp: ends_with_iff)
  ultimately show ?thesis using n
    by (simp add: line_codec_def demo_audit_ser number_parse_def butlast_append starts_with_def)
qed

lemma demo_old_facts:
  "ledger_inv 1 (el_ledger demo_old_log)" "reads_as number_parse (el_ledger demo_old_log) []"
  "retention_candidates demo_size 10 5 (el_ledger demo_old_log) = Inr [demo_drop]"
  "contents (el_ledger demo_old_log) (segment_name 0) = Some ''\<newline>''"
  "contents (el_ledger (snd (drop_expired_segments number_ser demo_size demo_size ''s'' demo_retention_env 10 5 False demo_old_log)))
     (segment_name 0) = None"
proof -
  have s: "segments (el_ledger demo_old_log) = [segment_name 0, segment_name 1]" by code_simp
  have "segment_name 0 \<noteq> segment_name 1" by code_simp
  then show "ledger_inv 1 (el_ledger demo_old_log)"
    unfolding ledger_inv_def s by (auto simp: demo_old_log_def event_log_open_def)
  have "read_events number_parse (el_ledger demo_old_log) = Inr []" by code_simp
  moreover have "segment_bytes (el_ledger demo_old_log) = [''\<newline>'', ''\<newline>'']" by code_simp
  ultimately show "reads_as number_parse (el_ledger demo_old_log) []" by (simp add: reads_as_def terminated_def)
qed code_simp+

theorem retention_audited_witness:
  "contents (el_ledger (snd (drop_expired_segments number_ser demo_size demo_size ''s'' demo_retention_env 10 5 False demo_old_log)))
     (segment_name 0) = None
   \<and> (\<exists>rs. read_events number_parse (el_ledger (snd (drop_expired_segments number_ser demo_size demo_size ''s''
            demo_retention_env 10 5 False demo_old_log))) = Inr rs
        \<and> (\<exists>r \<in> set rs. le_data (lr_event r) = audit_data ''s'' demo_drop))"
proof -
  let ?run = "drop_expired_segments number_ser demo_size demo_size ''s'' demo_retention_env 10 5 False demo_old_log"
  have p: "?run = (fst ?run, snd ?run)" by simp
  have b: "1 + length [demo_drop] < max_index" by (simp add: max_index_def)
  have t: "\<forall>k < length [demo_drop]. \<not> torn (en_ledger_write (rt_env (demo_retention_env k)))"
    by (simp add: demo_retention_env_def)
  have "retention_codec number_ser number_parse ''s'' demo_retention_env [demo_drop]"
    using demo_audit_codec by (simp add: retention_codec_def demo_audit_def demo_retention_env_def)
  from retention_audited [OF p demo_old_facts(1-3) b this] t
  obtain rs where rs: "read_events number_parse (el_ledger (snd ?run)) = Inr rs"
    and q: "\<And>n b. contents (el_ledger demo_old_log) n = Some b \<Longrightarrow> contents (el_ledger (snd ?run)) n = None
      \<Longrightarrow> \<exists>r \<in> set rs. le_data (lr_event r) = audit_data ''s'' (fingerprint demo_size n b)"
    by fastforce
  from q [OF demo_old_facts(4,5)] rs demo_old_facts(5) show ?thesis by (auto simp: demo_drop_def)
qed

end
