(* ===== verification/Git_World.thy ===== *)
theory Git_World
  imports Paths Event_Log "HOL-Library.State_Monad"
begin

text \<open>
  The surroundings of the coordinated git mutations (\<^verbatim>\<open>services/git_mutation.rs\<close>,
  \<^verbatim>\<open>git_lock_owner.rs\<close>, \<^verbatim>\<open>git_lock_recovery.rs\<close>) and the monad their code runs in. A
  \<open>git_world\<close> is what the file system, git, the process table and the event log answer at one
  moment; the state of a run is a clock that counts the moments at which it has looked or acted, and
  the trace of what it did, each action with its moment. Nothing relates the worlds of two moments, so that files,
  processes and the log may change between any two system calls. The state monad of the library
  carries the state; \<open>try_do\<close> is Rust's question mark operator.
\<close>

section \<open>Answers\<close>

datatype io_kind =
    NotFound | AlreadyExists | PermissionDenied | InvalidInput | Unsupported | OtherKind string

fun io_kind_str :: "io_kind \<Rightarrow> string" where
  "io_kind_str NotFound = ''entity not found''"
| "io_kind_str AlreadyExists = ''entity already exists''"
| "io_kind_str PermissionDenied = ''permission denied''"
| "io_kind_str InvalidInput = ''invalid input parameter''"
| "io_kind_str Unsupported = ''unsupported''"
| "io_kind_str (OtherKind m) = m"

datatype inode_kind = RegularFile | Directory | Symlink | SpecialFile

record metadata =
  md_kind :: inode_kind
  md_dev :: nat
  md_ino :: nat
  md_len :: nat
  md_mtime :: int
  md_mtime_nsec :: int
  md_ctime :: int
  md_ctime_nsec :: int

text \<open>The output of \<^verbatim>\<open>git rev-parse\<close>: the exit code and the standard output, \<open>None\<close> when it is
  not UTF-8.\<close>

record rev_parse_output =
  rp_code :: "int option"
  rp_stdout :: "string option"

datatype killpg_answer = Delivered | NoPermission | NoSuchGroup | KillError string

type_synonym handle = nat

record git_world =
  gw_now :: nat
  gw_pid :: nat
  gw_symlink_metadata :: "path \<Rightarrow> io_kind + metadata"
  gw_canonicalize :: "path \<Rightarrow> io_kind + path"
  gw_is_dir :: "path \<Rightarrow> bool"
  gw_exists :: "path \<Rightarrow> bool"
  gw_dir_count :: "path \<Rightarrow> io_kind + nat"
  gw_create_dir :: "path \<Rightarrow> io_kind + unit"
  gw_open :: "path \<Rightarrow> io_kind + handle"
  gw_open_lease :: "path \<Rightarrow> io_kind + handle"
  gw_open_directory :: "path \<Rightarrow> io_kind + handle"
  gw_fstat :: "handle \<Rightarrow> io_kind + metadata"
  gw_read :: "handle \<Rightarrow> nat \<Rightarrow> io_kind + string"
  gw_flock :: "handle \<Rightarrow> string + bool"
  gw_write :: "handle \<Rightarrow> string \<Rightarrow> io_kind + unit"
  gw_rename_noreplace :: "handle \<Rightarrow> string \<Rightarrow> handle \<Rightarrow> string \<Rightarrow> io_kind + unit"
  gw_sync :: "handle \<Rightarrow> io_kind + unit"
  gw_rev_parse :: "path \<Rightarrow> string list \<Rightarrow> string option \<Rightarrow> io_kind + rev_parse_output"
  gw_proc_stat :: "nat \<Rightarrow> io_kind + string"
  gw_proc_fds :: "nat \<Rightarrow> io_kind + (io_kind + string) list"
  gw_fd_metadata :: "nat \<Rightarrow> string \<Rightarrow> io_kind + metadata"
  gw_killpg :: "int \<Rightarrow> killpg_answer"
  gw_log :: event_log
  gw_log_env :: log_env
  gw_ledger_failure :: "string option"

text \<open>What a run is given: the worlds, reading and writing of JSON, SHA-256 in hexadecimal and the
  writer of the ledger.\<close>

record git_env =
  ge_worlds :: "nat \<Rightarrow> git_world"
  ge_parse :: "string \<Rightarrow> json option"
  ge_ser :: "json \<Rightarrow> string"
  ge_sha256 :: "string \<Rightarrow> string"
  ge_writer :: ledger_writer

section \<open>Runs\<close>

datatype git_effect =
    MadeDirectory path
  | Locked path
  | Released path
  | WroteLease path json
  | Appended string json "string + string"
  | Renamed path path

record git_run =
  gr_clock :: nat
  gr_trace :: "(nat \<times> git_effect) list"

type_synonym 'a act = "(git_run, 'a) state"

definition start_run :: git_run where
  "start_run = \<lparr> gr_clock = 0, gr_trace = [] \<rparr>"

abbreviation give :: "'a \<Rightarrow> 'a act" where
  "give \<equiv> State_Monad.return"

text \<open>One look at the world, which takes a moment.\<close>

definition look_at :: "git_env \<Rightarrow> (git_world \<Rightarrow> 'a) \<Rightarrow> 'a act" where
  "look_at E q = State (\<lambda>s. (q (ge_worlds E (gr_clock s)), s \<lparr> gr_clock := Suc (gr_clock s) \<rparr>))"

text \<open>An action: its answer, and the effect to put on the trace.\<close>

definition perform :: "git_env \<Rightarrow> (git_world \<Rightarrow> 'a) \<Rightarrow> ('a \<Rightarrow> git_effect list) \<Rightarrow> 'a act" where
  "perform E q eff = State (\<lambda>s.
     let a = q (ge_worlds E (gr_clock s)) in
     (a, s \<lparr> gr_clock := Suc (gr_clock s), gr_trace := gr_trace s @ map (Pair (gr_clock s)) (eff a) \<rparr>))"

definition try_do :: "('e + 'a) act \<Rightarrow> ('a \<Rightarrow> ('e + 'b) act) \<Rightarrow> ('e + 'b) act" where
  "try_do m f = do { r \<leftarrow> m; case r of Inl e \<Rightarrow> give (Inl e) | Inr x \<Rightarrow> f x }"

definition map_err :: "('e \<Rightarrow> 'f) \<Rightarrow> 'e + 'a \<Rightarrow> 'f + 'a" where
  "map_err f r = (case r of Inl e \<Rightarrow> Inl (f e) | Inr x \<Rightarrow> Inr x)"

definition ok_or :: "'e \<Rightarrow> 'a option \<Rightarrow> 'e + 'a" where
  "ok_or e v = (case v of None \<Rightarrow> Inl e | Some x \<Rightarrow> Inr x)"

lemma map_err_eq_Inr [simp]: "map_err f r = Inr x \<longleftrightarrow> r = Inr x"
  by (cases r) (simp_all add: map_err_def)

lemma ok_or_eq_Inr [simp]: "ok_or e v = Inr x \<longleftrightarrow> v = Some x"
  by (cases v) (simp_all add: ok_or_def)

end
