(* ===== verification/Git_Mutation.thy ===== *)
theory Git_Mutation
  imports Git_World
begin

text \<open>
  Coordinated git mutations (\<^verbatim>\<open>services/git_mutation.rs\<close>): the resolution of the paths of a
  worktree and the cooperative leases on its index and on the shared references. Waiting for a lease
  polls until a deadline; it is a partial function, \<open>None\<close> if it never ends, with the run passed
  explicitly. That a lease is given up when its owner is dropped shows as \<open>Released\<close> in
  the trace.
\<close>

section \<open>Data\<close>

record git_mutation_paths =
  mp_worktree_root :: path
  mp_git_dir :: path
  mp_common_git_dir :: path
  mp_index_file :: path
  mp_index_lock_file :: path
  mp_index_lease_file :: path
  mp_refs_lease_file :: path

datatype git_mutation_resource = SharedRefs | IndexResource

text \<open>The derived order of the enumeration.\<close>

fun resource_rank :: "git_mutation_resource \<Rightarrow> nat" where
  "resource_rank SharedRefs = 0"
| "resource_rank IndexResource = 1"

lemma resource_rank_inject [simp]: "resource_rank a = resource_rank b \<longleftrightarrow> a = b"
  by (cases a; cases b) auto

instantiation git_mutation_resource :: linorder
begin

definition less_eq_git_mutation_resource :: "git_mutation_resource \<Rightarrow> git_mutation_resource \<Rightarrow> bool" where
  "less_eq_git_mutation_resource a b \<longleftrightarrow> resource_rank a \<le> resource_rank b"

definition less_git_mutation_resource :: "git_mutation_resource \<Rightarrow> git_mutation_resource \<Rightarrow> bool" where
  "less_git_mutation_resource a b \<longleftrightarrow> resource_rank a < resource_rank b"

instance
  by standard (auto simp: less_eq_git_mutation_resource_def less_git_mutation_resource_def)

end

definition lease_path :: "git_mutation_resource \<Rightarrow> git_mutation_paths \<Rightarrow> path" where
  "lease_path resource paths =
     (case resource of SharedRefs \<Rightarrow> mp_refs_lease_file paths | IndexResource \<Rightarrow> mp_index_lease_file paths)"

definition resource_label :: "git_mutation_resource \<Rightarrow> string" where
  "resource_label resource = (case resource of SharedRefs \<Rightarrow> ''shared Git refs'' | IndexResource \<Rightarrow> ''worktree index'')"

datatype git_mutation_error =
    MutationUncertain path string
  | MutationBusy string path nat
  | InvalidOperationId
  | UnsupportedPlatform

fun mutation_error_str :: "git_mutation_error \<Rightarrow> string" where
  "mutation_error_str (MutationUncertain p reason) =
     ''Git mutation readiness is uncertain for '' @ path_str p @ '': '' @ reason"
| "mutation_error_str (MutationBusy resource p waited_ms) =
     ''Git mutation lease for '' @ resource @ '' remained busy at '' @ path_str p @ '' for '' @ nat_str waited_ms @ ''ms''"
| "mutation_error_str InvalidOperationId =
     ''Git operation identity must be 1'' @ [CHR 0xE2, CHR 0x80, CHR 0x93] @ ''128 printable non-space ASCII characters''"
| "mutation_error_str UnsupportedPlatform = ''coordinated Git mutation leases are unsupported on this platform''"

record git_mutation_lease =
  gl_paths :: git_mutation_paths
  gl_resource :: git_mutation_resource
  gl_operation_id :: string
  gl_index_override :: "string option"

definition lease_directory :: string where
  "lease_directory = ''exomonad-mutation''"

definition lease_poll_interval :: nat where
  "lease_poll_interval = 20 * 1000000"

definition validate_operation_id :: "string \<Rightarrow> git_mutation_error + unit" where
  "validate_operation_id operation_id =
     (if operation_id = [] \<or> length operation_id > 128
         \<or> \<not> list_all (\<lambda>c. 33 \<le> (of_char c :: nat) \<and> (of_char c :: nat) \<le> 126) operation_id
      then Inl InvalidOperationId else Inr ())"

section \<open>Questions about paths\<close>

definition debug_opt_int :: "int option \<Rightarrow> string" where
  "debug_opt_int v = (case v of None \<Rightarrow> ''None'' | Some i \<Rightarrow>
     ''Some('' @ (if i < 0 then ''-'' @ nat_str (nat (- i)) else nat_str (nat i)) @ '')'')"

definition git_path :: "git_env \<Rightarrow> path \<Rightarrow> string \<Rightarrow> string option \<Rightarrow> (git_mutation_error + string) act" where
  "git_path E worktree argument index_override = do {
     let arguments = [''rev-parse'', ''--path-format=absolute'']
       @ (if argument = ''--git-path index'' then [''--git-path'', ''index''] else [argument]);
     r \<leftarrow> look_at E (\<lambda>w. gw_rev_parse w worktree arguments index_override);
     give (case r of
         Inl k \<Rightarrow> Inl (MutationUncertain worktree (''cannot inspect Git paths ('' @ io_kind_str k @ '')''))
       | Inr out \<Rightarrow>
           if rp_code out \<noteq> Some 0
           then Inl (MutationUncertain worktree
             (''git rev-parse '' @ argument @ '' failed (exit '' @ debug_opt_int (rp_code out) @ '')''))
           else case rp_stdout out of
                  None \<Rightarrow> Inl (MutationUncertain worktree ''git rev-parse returned a non-UTF-8 path'')
                | Some value \<Rightarrow> Inr (str_trim value)) }"

definition canonical_directory :: "git_env \<Rightarrow> path \<Rightarrow> string \<Rightarrow> (git_mutation_error + path) act" where
  "canonical_directory E p label = do {
     r \<leftarrow> look_at E (\<lambda>w. gw_canonicalize w p);
     case r of
       Inl k \<Rightarrow> give (Inl (MutationUncertain p (''cannot resolve '' @ label @ '' ('' @ io_kind_str k @ '')'')))
     | Inr canonical \<Rightarrow> do {
         d \<leftarrow> look_at E (\<lambda>w. gw_is_dir w canonical);
         give (if d then Inr canonical else Inl (MutationUncertain p (label @ '' is not a directory''))) } }"

definition canonicalize_leaf_parent :: "git_env \<Rightarrow> path \<Rightarrow> string \<Rightarrow> (git_mutation_error + path) act" where
  "canonicalize_leaf_parent E p label =
     (if \<not> is_absolute p then give (Inl (MutationUncertain p ''Git returned a non-absolute index path''))
      else case path_parent p of
        None \<Rightarrow> give (Inl (MutationUncertain p (label @ '' has no parent directory'')))
      | Some parent \<Rightarrow> do {
          r \<leftarrow> look_at E (\<lambda>w. gw_canonicalize w parent);
          give (case r of
              Inl k \<Rightarrow> Inl (MutationUncertain parent (''cannot resolve '' @ label @ '' parent ('' @ io_kind_str k @ '')''))
            | Inr canonical \<Rightarrow>
                (case path_file_name p of
                   None \<Rightarrow> Inl (MutationUncertain p (label @ '' has no file name''))
                 | Some name \<Rightarrow> Inr (canonical @ [name]))) })"

definition validate_index_ownership :: "path \<Rightarrow> path \<Rightarrow> path \<Rightarrow> path \<Rightarrow> git_mutation_error + unit" where
  "validate_index_ownership worktree git_dir common_git_dir index_file =
     (if path_within worktree index_file \<or> path_within git_dir index_file \<or> path_within common_git_dir index_file
      then Inr ()
      else Inl (MutationUncertain index_file ''active index is outside the managed worktree and its Git directories''))"

definition reject_symlink :: "git_env \<Rightarrow> path \<Rightarrow> string \<Rightarrow> (git_mutation_error + unit) act" where
  "reject_symlink E p label = do {
     r \<leftarrow> look_at E (\<lambda>w. gw_symlink_metadata w p);
     give (case r of
         Inl k \<Rightarrow> Inl (MutationUncertain p (''cannot inspect '' @ label @ '' ('' @ io_kind_str k @ '')''))
       | Inr md \<Rightarrow> if md_kind md = Symlink then Inl (MutationUncertain p (label @ '' is a symlink'')) else Inr ()) }"

definition reject_optional_symlink :: "git_env \<Rightarrow> path \<Rightarrow> string \<Rightarrow> (git_mutation_error + unit) act" where
  "reject_optional_symlink E p label = do {
     r \<leftarrow> look_at E (\<lambda>w. gw_symlink_metadata w p);
     give (case r of
         Inr md \<Rightarrow> if md_kind md = Symlink then Inl (MutationUncertain p (label @ '' is a symlink'')) else Inr ()
       | Inl NotFound \<Rightarrow> Inr ()
       | Inl k \<Rightarrow> Inl (MutationUncertain p (''cannot inspect '' @ label @ '' ('' @ io_kind_str k @ '')''))) }"

definition path_digest :: "git_env \<Rightarrow> path \<Rightarrow> string" where
  "path_digest E p = ge_sha256 E (path_str p)"

section \<open>Resolution\<close>

text \<open>The worktree root and the managed root, both checked to be roots of worktrees of the same
  repository.\<close>

definition resolve_roots ::
  "git_env \<Rightarrow> path \<Rightarrow> path \<Rightarrow> string option \<Rightarrow> (git_mutation_error + path \<times> path) act" where
  "resolve_roots E managed worktree index_override =
     try_do (canonical_directory E managed ''managed worktree'') (\<lambda>managed_root.
     let requested = resolve_path managed_root worktree in
     try_do (reject_symlink E requested ''worktree path'') (\<lambda>_.
     try_do (canonical_directory E requested ''worktree'') (\<lambda>root.
     try_do (git_path E managed_root ''--show-toplevel'' None) (\<lambda>managed_top.
     try_do (canonical_directory E (path_of managed_top) ''managed repository root'') (\<lambda>top.
       if top \<noteq> managed_root
       then give (Inl (MutationUncertain managed_root ''configured path is not a worktree root''))
       else
     try_do (git_path E root ''--show-toplevel'' index_override) (\<lambda>root_top.
     try_do (canonical_directory E (path_of root_top) ''Git worktree root'') (\<lambda>top.
       if top \<noteq> root then give (Inl (MutationUncertain root ''requested path is not the worktree root''))
       else
     try_do (git_path E root ''--git-common-dir'' index_override) (\<lambda>common.
     try_do (canonical_directory E (path_of common) ''common Git directory'') (\<lambda>common_git_dir.
     try_do (git_path E managed_root ''--git-common-dir'' None) (\<lambda>managed_common.
     try_do (canonical_directory E (path_of managed_common) ''managed common Git directory'') (\<lambda>managed_common.
       if common_git_dir \<noteq> managed_common
       then give (Inl (MutationUncertain root ''worktree belongs to a different common Git directory''))
       else give (Inr (root, common_git_dir)))))))))))))"

definition resolve_paths_with_index_override ::
  "git_env \<Rightarrow> path \<Rightarrow> path \<Rightarrow> string option \<Rightarrow> (git_mutation_error + git_mutation_paths) act" where
  "resolve_paths_with_index_override E managed worktree index_override =
     try_do (resolve_roots E managed worktree index_override) (\<lambda>(root, common_git_dir).
     try_do (git_path E root ''--absolute-git-dir'' index_override) (\<lambda>dir.
     try_do (canonical_directory E (path_of dir) ''worktree Git directory'') (\<lambda>git_dir.
     try_do (git_path E root ''--git-path index'' index_override) (\<lambda>raw_index.
     try_do (canonicalize_leaf_parent E (path_of raw_index) ''active Git index'') (\<lambda>index_file.
     try_do (give (validate_index_ownership root git_dir common_git_dir index_file)) (\<lambda>_.
     try_do (reject_optional_symlink E index_file ''active Git index'') (\<lambda>_.
     let index_lock_file = path_push_suffix index_file ''.lock'' in
     try_do (reject_optional_symlink E index_lock_file ''native Git index lock'') (\<lambda>_.
     let lease_dir = common_git_dir @ [lease_directory] in
     try_do (reject_optional_symlink E lease_dir ''Git mutation lease directory'') (\<lambda>_.
     let index_lease_file = lease_dir @ [''index-'' @ path_digest E index_file @ ''.lease''];
         refs_lease_file = common_git_dir @ [lease_directory, ''refs.lease''] in
     try_do (reject_optional_symlink E refs_lease_file ''shared refs lease'') (\<lambda>_.
       give (Inr \<lparr> mp_worktree_root = root, mp_git_dir = git_dir, mp_common_git_dir = common_git_dir,
         mp_index_file = index_file, mp_index_lock_file = index_lock_file,
         mp_index_lease_file = index_lease_file, mp_refs_lease_file = refs_lease_file \<rparr>)))))))))))"

section \<open>Lease files\<close>

definition canonical_lease_directory :: "git_env \<Rightarrow> path \<Rightarrow> (git_mutation_error + unit) act" where
  "canonical_lease_directory E p = do {
     r \<leftarrow> look_at E (\<lambda>w. gw_canonicalize w p);
     give (case r of
         Inl k \<Rightarrow> Inl (MutationUncertain p (''cannot verify lease directory ('' @ io_kind_str k @ '')''))
       | Inr canonical \<Rightarrow>
           if canonical \<noteq> p then Inl (MutationUncertain p ''mutation lease directory path changed during inspection'')
           else Inr ()) }"

definition create_lease_directory :: "git_env \<Rightarrow> path \<Rightarrow> (git_mutation_error + unit) act" where
  "create_lease_directory E p = do {
     c \<leftarrow> perform E (\<lambda>w. gw_create_dir w p) (\<lambda>r. if is_ok r then [MadeDirectory p] else []);
     case c of
       Inr _ \<Rightarrow> give (Inr ())
     | Inl AlreadyExists \<Rightarrow> do {
         r \<leftarrow> look_at E (\<lambda>w. gw_symlink_metadata w p);
         give (case r of
             Inl k \<Rightarrow> Inl (MutationUncertain p (''cannot verify concurrent lease directory ('' @ io_kind_str k @ '')''))
           | Inr md \<Rightarrow>
               if md_kind md \<noteq> Directory
               then Inl (MutationUncertain p ''concurrent lease-directory creation produced an unsafe path'')
               else Inr ()) }
     | Inl k \<Rightarrow> give (Inl (MutationUncertain p (''cannot create mutation lease directory ('' @ io_kind_str k @ '')''))) }"

definition ensure_safe_lease_directory :: "git_env \<Rightarrow> path \<Rightarrow> (git_mutation_error + unit) act" where
  "ensure_safe_lease_directory E p = do {
     r \<leftarrow> look_at E (\<lambda>w. gw_symlink_metadata w p);
     case r of
       Inr md \<Rightarrow>
         if md_kind md = Symlink then give (Inl (MutationUncertain p ''mutation lease directory is a symlink''))
         else if md_kind md \<noteq> Directory then give (Inl (MutationUncertain p ''mutation lease path is not a directory''))
         else canonical_lease_directory E p
     | Inl NotFound \<Rightarrow> try_do (create_lease_directory E p) (\<lambda>_. canonical_lease_directory E p)
     | Inl k \<Rightarrow> give (Inl (MutationUncertain p (''cannot inspect mutation lease directory ('' @ io_kind_str k @ '')''))) }"

definition verify_open_path :: "git_env \<Rightarrow> handle \<Rightarrow> path \<Rightarrow> (git_mutation_error + unit) act" where
  "verify_open_path E h p = do {
     f \<leftarrow> look_at E (\<lambda>w. gw_fstat w h);
     case f of
       Inl k \<Rightarrow> give (Inl (MutationUncertain p (''cannot inspect opened lease ('' @ io_kind_str k @ '')'')))
     | Inr file_metadata \<Rightarrow> do {
         q \<leftarrow> look_at E (\<lambda>w. gw_symlink_metadata w p);
         give (case q of
             Inl k \<Rightarrow> Inl (MutationUncertain p (''lease path changed ('' @ io_kind_str k @ '')''))
           | Inr path_metadata \<Rightarrow>
               if md_kind file_metadata \<noteq> RegularFile \<or> md_kind path_metadata = Symlink
               then Inl (MutationUncertain p ''mutation lease is not a regular file'')
               else if md_dev file_metadata \<noteq> md_dev path_metadata \<or> md_ino file_metadata \<noteq> md_ino path_metadata
               then Inl (MutationUncertain p ''mutation lease inode changed during inspection'')
               else Inr ()) } }"

definition open_lease_file :: "git_env \<Rightarrow> path \<Rightarrow> (git_mutation_error + handle) act" where
  "open_lease_file E p =
     try_do (reject_optional_symlink E p ''mutation lease file'') (\<lambda>_. do {
       r \<leftarrow> look_at E (\<lambda>w. gw_open_lease w p);
       case r of
         Inl k \<Rightarrow> give (Inl (MutationUncertain p (''cannot open mutation lease ('' @ io_kind_str k @ '')'')))
       | Inr h \<Rightarrow> try_do (verify_open_path E h p) (\<lambda>_. give (Inr h)) })"

definition parse_start_time_ticks :: "string \<Rightarrow> nat option" where
  "parse_start_time_ticks stat =
     Option.bind (after_last (CHR '')'') stat) (\<lambda>fields.
       let ws = split_whitespace fields in if 19 < length ws then parse_u64 (ws ! 19) else None)"

definition process_start_identity :: "git_env \<Rightarrow> nat \<Rightarrow> nat option act" where
  "process_start_identity E pid = do {
     r \<leftarrow> look_at E (\<lambda>w. gw_proc_stat w pid);
     give (case r of Inl _ \<Rightarrow> None | Inr stat \<Rightarrow> parse_start_time_ticks stat) }"

definition lease_record ::
  "git_env \<Rightarrow> git_mutation_paths \<Rightarrow> git_mutation_resource \<Rightarrow> string \<Rightarrow> nat \<Rightarrow> nat option \<Rightarrow> json" where
  "lease_record E paths resource operation_id pid start =
     JObj [(''schema_version'', json_u64 1), (''operation_id_sha256'', JStr (ge_sha256 E operation_id)),
           (''resource'', JStr (resource_label resource)),
           (''resource_sha256'', JStr (path_digest E (lease_path resource paths))),
           (''owner_pid'', json_u64 pid), (''owner_start_identity'', json_opt json_u64 start)]"

definition write_lease_record ::
  "git_env \<Rightarrow> handle \<Rightarrow> git_mutation_paths \<Rightarrow> git_mutation_resource \<Rightarrow> string \<Rightarrow> (git_mutation_error + unit) act" where
  "write_lease_record E h paths resource operation_id = do {
     pid \<leftarrow> look_at E gw_pid;
     start \<leftarrow> process_start_identity E pid;
     let p = lease_path resource paths;
     let record = lease_record E paths resource operation_id pid start;
     r \<leftarrow> perform E (\<lambda>w. gw_write w h (ge_ser E record)) (\<lambda>r. if is_ok r then [WroteLease p record] else []);
     give (map_err (\<lambda>k. MutationUncertain p (''cannot persist lease identity ('' @ io_kind_str k @ '')'')) r) }"

section \<open>Acquisition\<close>

text \<open>What follows once the lock is held; on an error the lock is dropped.\<close>

definition finish_acquire ::
  "git_env \<Rightarrow> path \<Rightarrow> git_mutation_paths \<Rightarrow> git_mutation_resource \<Rightarrow> string \<Rightarrow> string option \<Rightarrow> handle
     \<Rightarrow> (git_mutation_error + git_mutation_lease) act" where
  "finish_acquire E managed paths resource operation_id index_override h = do {
     let p = lease_path resource paths;
     r \<leftarrow> try_do (verify_open_path E h p) (\<lambda>_.
       try_do (resolve_paths_with_index_override E managed (mp_worktree_root paths) index_override) (\<lambda>refreshed.
         if refreshed \<noteq> paths
         then give (Inl (MutationUncertain (mp_worktree_root paths)
           ''Git metadata paths changed while acquiring the mutation lease''))
         else try_do (write_lease_record E h paths resource operation_id) (\<lambda>_.
           give (Inr \<lparr> gl_paths = paths, gl_resource = resource, gl_operation_id = operation_id,
             gl_index_override = index_override \<rparr>))));
     if is_ok r then give r else do { _ \<leftarrow> perform E (\<lambda>w. ()) (\<lambda>_. [Released p]); give r } }"

text \<open>One round of the polling loop: \<open>None\<close> to try again.\<close>

definition acquire_round ::
  "git_env \<Rightarrow> path \<Rightarrow> git_mutation_paths \<Rightarrow> git_mutation_resource \<Rightarrow> string \<Rightarrow> nat \<Rightarrow> string option \<Rightarrow> nat
     \<Rightarrow> (git_mutation_error + git_mutation_lease) option act" where
  "acquire_round E managed paths resource operation_id wait index_override started = do {
     let p = lease_path resource paths;
     f \<leftarrow> open_lease_file E p;
     case f of
       Inl e \<Rightarrow> give (Some (Inl e))
     | Inr h \<Rightarrow> do {
         l \<leftarrow> perform E (\<lambda>w. gw_flock w h) (\<lambda>r. if r = Inr True then [Locked p] else []);
         case l of
           Inl message \<Rightarrow> give (Some (Inl (MutationUncertain p message)))
         | Inr True \<Rightarrow> do { r \<leftarrow> finish_acquire E managed paths resource operation_id index_override h; give (Some r) }
         | Inr False \<Rightarrow> do {
             now \<leftarrow> look_at E gw_now;
             if now - started < wait
             then do { _ \<leftarrow> look_at E gw_now; give None }
             else do {
               now \<leftarrow> look_at E gw_now;
               give (Some (Inl (MutationBusy (resource_label resource) p ((now - started) div 1000000)))) } } } }"

partial_function (option) acquire_loop ::
  "git_env \<Rightarrow> path \<Rightarrow> git_mutation_paths \<Rightarrow> git_mutation_resource \<Rightarrow> string \<Rightarrow> nat \<Rightarrow> string option \<Rightarrow> nat \<Rightarrow> git_run
     \<Rightarrow> ((git_mutation_error + git_mutation_lease) \<times> git_run) option" where
  "acquire_loop E managed paths resource operation_id wait index_override started s =
     (case run_state (acquire_round E managed paths resource operation_id wait index_override started) s of
        (Some r, s') \<Rightarrow> Some (r, s')
      | (None, s') \<Rightarrow> acquire_loop E managed paths resource operation_id wait index_override started s')"

declare acquire_loop.simps [code]

definition acquire_resolved ::
  "git_env \<Rightarrow> path \<Rightarrow> git_mutation_paths \<Rightarrow> git_mutation_resource \<Rightarrow> string \<Rightarrow> nat \<Rightarrow> string option \<Rightarrow> git_run
     \<Rightarrow> ((git_mutation_error + git_mutation_lease) \<times> git_run) option" where
  "acquire_resolved E managed paths resource operation_id wait index_override s =
     (let dir = (case path_parent (lease_path resource paths) of Some d \<Rightarrow> d | None \<Rightarrow> mp_git_dir paths) in
      case run_state (ensure_safe_lease_directory E dir) s of
        (Inl e, s') \<Rightarrow> Some (Inl e, s')
      | (Inr _, s') \<Rightarrow>
          (case run_state (look_at E gw_now) s' of
             (started, s'') \<Rightarrow> acquire_loop E managed paths resource operation_id wait index_override started s''))"

definition acquire_with_index_override ::
  "git_env \<Rightarrow> path \<Rightarrow> path \<Rightarrow> git_mutation_resource \<Rightarrow> string \<Rightarrow> nat \<Rightarrow> string option \<Rightarrow> git_run
     \<Rightarrow> ((git_mutation_error + git_mutation_lease) \<times> git_run) option" where
  "acquire_with_index_override E managed worktree resource operation_id wait index_override s =
     (case run_state (try_do (give (validate_operation_id operation_id)) (\<lambda>_.
             resolve_paths_with_index_override E managed worktree index_override)) s of
        (Inl e, s') \<Rightarrow> Some (Inl e, s')
      | (Inr paths, s') \<Rightarrow> acquire_resolved E managed paths resource operation_id wait index_override s')"

text \<open>The leases acquired so far are dropped, oldest first, when a later one fails.\<close>

definition release_leases :: "git_env \<Rightarrow> git_mutation_lease list \<Rightarrow> git_run \<Rightarrow> git_run" where
  "release_leases E ls s =
     fold (\<lambda>l s. snd (run_state (perform E (\<lambda>w. ()) (\<lambda>_. [Released (lease_path (gl_resource l) (gl_paths l))])) s)) ls s"

fun acquire_each ::
  "git_env \<Rightarrow> path \<Rightarrow> git_mutation_paths \<Rightarrow> git_mutation_resource list \<Rightarrow> string \<Rightarrow> nat \<Rightarrow> string option
     \<Rightarrow> git_mutation_lease list \<Rightarrow> git_run \<Rightarrow> ((git_mutation_error + git_mutation_lease list) \<times> git_run) option" where
  "acquire_each E managed paths [] operation_id deadline index_override leases s = Some (Inr leases, s)"
| "acquire_each E managed paths (resource # ordered) operation_id deadline index_override leases s =
     (case run_state (look_at E gw_now) s of
        (now, s1) \<Rightarrow>
          (case acquire_resolved E managed paths resource operation_id (deadline - now) index_override s1 of
             None \<Rightarrow> None
           | Some (Inl e, s2) \<Rightarrow> Some (Inl e, release_leases E leases s2)
           | Some (Inr l, s2) \<Rightarrow>
               acquire_each E managed paths ordered operation_id deadline index_override (leases @ [l]) s2))"

definition acquire_set_with_index_override ::
  "git_env \<Rightarrow> path \<Rightarrow> path \<Rightarrow> git_mutation_resource list \<Rightarrow> string \<Rightarrow> nat \<Rightarrow> string option \<Rightarrow> git_run
     \<Rightarrow> ((git_mutation_error + git_mutation_lease list) \<times> git_run) option" where
  "acquire_set_with_index_override E managed worktree resources operation_id wait index_override s =
     (case run_state (try_do (give (validate_operation_id operation_id)) (\<lambda>_.
             resolve_paths_with_index_override E managed worktree index_override)) s of
        (Inl e, s') \<Rightarrow> Some (Inl e, s')
      | (Inr paths, s') \<Rightarrow>
          (case run_state (look_at E gw_now) s' of
             (now, s'') \<Rightarrow>
               acquire_each E managed paths (remdups_adj (sort resources)) operation_id (now + wait) index_override [] s''))"

end
