(* ===== verification/Git_Recovery_Ledger.thy ===== *)
theory Git_Recovery_Ledger
  imports Ledger_Replay
begin

text \<open>
  The reader of git recovery events (\<^verbatim>\<open>services/git_recovery_ledger.rs\<close>) on the same segment
  files as \<open>Ledger_Events\<close>: it parses every line, but puts only the lines of the selected types
  through its own, looser envelope. A read holds the shared lock of the ledger and is one step;
  \<open>failure\<close> is the reason when the directory, its lock or a segment cannot be used. The reader
  and \<open>read_events\<close> are compared at the end.
\<close>

section \<open>Reading\<close>

record git_recovery_event =
  gre_event_id :: string
  gre_event_type :: string
  gre_data :: json

definition max_event_bytes :: nat where
  "max_event_bytes = 16 * 1024 * 1024"

text \<open>\<open>None\<close> at the end of the file; otherwise the line with its line feed, if it has one, and the rest.\<close>

definition read_bounded_line :: "string \<Rightarrow> string + (string \<times> string) option" where
  "read_bounded_line bs =
     (if bs = [] then Inr None
      else let body = takeWhile (\<lambda>c. c \<noteq> CHR 0x0A) bs;
               line = (if length body < length bs then body @ [CHR 0x0A] else body) in
           if length line > max_event_bytes then Inl ''TL ledger event exceeds the recovery read limit''
           else Inr (Some (line, drop (length line) bs)))"

lemma read_bounded_line_shrinks:
  "read_bounded_line bs = Inr (Some (line, rest)) \<Longrightarrow> length rest < length bs"
  by (cases bs) (auto simp: read_bounded_line_def Let_def split: if_splits)

definition event_identity :: "json_object \<Rightarrow> string + string" where
  "event_identity ob =
     (let primary = Option.bind (obj_get ob ''event_id'') as_str;
          alias = Option.bind (obj_get ob ''id'') as_str in
      case nonempty (or_opt primary alias) of
        None \<Rightarrow> Inl ''Git recovery event has no durable event identity''
      | Some event_id \<Rightarrow>
          if primary \<noteq> None \<and> alias \<noteq> None \<and> primary \<noteq> alias
          then Inl ''Git recovery event has conflicting event identity aliases''
          else Inr event_id)"

text \<open>The type of a line, \<open>None\<close> when it names none.\<close>

definition line_event_type :: "json_object \<Rightarrow> string + string option" where
  "line_event_type ob =
     (case (obj_get ob ''type'', obj_get ob ''event_type'') of
        (Some (JStr l), Some (JStr r)) \<Rightarrow>
          if l \<noteq> r then Inl ''TL ledger event has conflicting type aliases'' else Inr (Some l)
      | (Some (JStr v), _) \<Rightarrow> Inr (Some v)
      | (_, Some (JStr v)) \<Rightarrow> Inr (Some v)
      | (None, None) \<Rightarrow> Inr None
      | _ \<Rightarrow> Inl ''TL ledger event type is malformed'')"

definition read_recovery_line ::
  "(string \<Rightarrow> json option) \<Rightarrow> string list \<Rightarrow> string \<Rightarrow> string + git_recovery_event list" where
  "read_recovery_line parse selected line =
     (case parse line of
        None \<Rightarrow> Inl ''TL ledger contains malformed JSON evidence''
      | Some document \<Rightarrow>
          (case as_object document of
             None \<Rightarrow> Inl ''TL ledger event is not a JSON object''
           | Some ob \<Rightarrow>
               bindR (line_event_type ob) (\<lambda>ty.
                 case ty of
                   None \<Rightarrow> Inr []
                 | Some t \<Rightarrow>
                     if t \<notin> set selected then Inr []
                     else bindR (event_identity ob) (\<lambda>event_id.
                       case Option.bind (obj_get ob ''data'') as_object of
                         None \<Rightarrow> Inl ''Git recovery ledger event has malformed data''
                       | Some data \<Rightarrow>
                           Inr [\<lparr> gre_event_id = event_id, gre_event_type = t, gre_data = JObj data \<rparr>]))))"

function read_recovery_bytes ::
  "(string \<Rightarrow> json option) \<Rightarrow> string list \<Rightarrow> string \<Rightarrow> string + git_recovery_event list" where
  "read_recovery_bytes parse selected bs =
     (case read_bounded_line bs of
        Inl e \<Rightarrow> Inl e
      | Inr None \<Rightarrow> Inr []
      | Inr (Some (line, rest)) \<Rightarrow>
          bindR (read_recovery_line parse selected line) (\<lambda>es.
            bindR (read_recovery_bytes parse selected rest) (\<lambda>rs. Inr (es @ rs))))"
  by pat_completeness auto
termination
  by (relation "measure (\<lambda>(_, _, bs). length bs)") (auto dest: read_bounded_line_shrinks)

declare read_recovery_bytes.simps [simp del]

definition read_recovery_segment ::
  "(string \<Rightarrow> json option) \<Rightarrow> string list \<Rightarrow> directory \<Rightarrow> string \<Rightarrow> string + git_recovery_event list" where
  "read_recovery_segment parse selected d segment =
     (case contents d segment of
        None \<Rightarrow> Inl ''cannot open ledger segment''
      | Some bytes \<Rightarrow> read_recovery_bytes parse selected bytes)"

text \<open>\<open>Some\<close> says that the append lock exists and is taken; without one there must be no segment.\<close>

definition acquire_existing_shared_ledger_lock :: "directory \<Rightarrow> string + unit option" where
  "acquire_existing_shared_ledger_lock d =
     (if contents d append_lock = None then
        if segments d = [] then Inr None
        else Inl ''TL ledger append lock is missing; process history is uncertain''
      else Inr (Some ()))"

definition read_git_recovery_events_at ::
  "(string \<Rightarrow> json option) \<Rightarrow> string option \<Rightarrow> directory \<Rightarrow> string list \<Rightarrow> string + git_recovery_event list" where
  "read_git_recovery_events_at parse failure d selected =
     (case failure of
        Some reason \<Rightarrow> Inl reason
      | None \<Rightarrow>
          bindR (acquire_existing_shared_ledger_lock d) (\<lambda>_.
            bindR (traverse (read_recovery_segment parse selected d) (segments d)) (\<lambda>rs. Inr (concat rs))))"

section \<open>What a reading yields\<close>

lemma line_event_type_selected:
  "line_event_type ob = Inr (Some t) \<Longrightarrow> obj_get ob ''type'' = Some (JStr t) \<or> obj_get ob ''event_type'' = Some (JStr t)"
  by (auto simp: line_event_type_def split: option.splits json.splits if_splits)

lemma read_recovery_line_Inr:
  assumes "read_recovery_line parse selected line = Inr es"
  shows "(\<forall>e \<in> set es. gre_event_type e \<in> set selected) \<and> length es \<le> 1"
proof -
  from assms obtain document ob ty where
    "parse line = Some document" "as_object document = Some ob" "line_event_type ob = Inr ty"
    by (auto simp: read_recovery_line_def split: option.splits)
  with assms show ?thesis
    by (cases ty) (auto simp: read_recovery_line_def split: option.splits if_splits)
qed

lemma read_recovery_bytes_member:
  "read_recovery_bytes parse selected bs = Inr es \<Longrightarrow> e \<in> set es \<Longrightarrow> gre_event_type e \<in> set selected"
proof (induction parse selected bs arbitrary: es rule: read_recovery_bytes.induct)
  case (1 parse selected bs)
  show ?case
  proof (cases "read_bounded_line bs")
    case (Inr r)
    show ?thesis
    proof (cases r)
      case None
      with Inr 1(2,3) show ?thesis by (simp add: read_recovery_bytes.simps [of _ _ bs])
    next
      case (Some p)
      obtain line rest where p: "p = (line, rest)" by (cases p)
      with Inr Some 1(2) obtain xs ys where xs: "read_recovery_line parse selected line = Inr xs"
        and ys: "read_recovery_bytes parse selected rest = Inr ys" "es = xs @ ys"
        by (auto simp: read_recovery_bytes.simps [of _ _ bs])
      with 1(1) [OF Inr Some p [symmetric]] 1(3) read_recovery_line_Inr [OF xs] show ?thesis by auto
    qed
  qed (use 1(2) in \<open>simp add: read_recovery_bytes.simps [of _ _ bs]\<close>)
qed

lemma traverse_set: "traverse f xs = Inr ys \<Longrightarrow> set ys = {y. \<exists>x \<in> set xs. f x = Inr y}"
  by (induction xs arbitrary: ys) auto

text \<open>The recovery reader returns events of the selected types only.\<close>

lemma recovery_event_selected:
  "read_git_recovery_events_at parse failure d selected = Inr es \<Longrightarrow> e \<in> set es
     \<Longrightarrow> gre_event_type e \<in> set selected"
  by (fastforce simp: read_git_recovery_events_at_def read_recovery_segment_def traverse_set
      split: option.splits dest: read_recovery_bytes_member)

section \<open>Agreement with the replay of events\<close>

lemma takeWhile_line: "CHR 0x0A \<notin> set l \<Longrightarrow> takeWhile (\<lambda>c. c \<noteq> CHR 0x0A) (l @ CHR 0x0A # cs) = l"
  by (induction l) auto

lemma read_bounded_line_line:
  assumes "CHR 0x0A \<notin> set l" "length l < max_event_bytes"
  shows "read_bounded_line (l @ CHR 0x0A # cs) = Inr (Some (l @ [CHR 0x0A], cs))"
  using assms by (simp add: read_bounded_line_def takeWhile_line)

text \<open>The first line of a terminated text.\<close>

lemma terminated_first_line:
  assumes "terminated bs" "bs \<noteq> []"
  obtains l cs where "bs = l @ CHR 0x0A # cs" "CHR 0x0A \<notin> set l" "terminated cs"
proof -
  from assms have "CHR 0x0A \<in> set bs" using last_in_set [of bs] by (simp add: terminated_def)
  then obtain l cs where "bs = l @ CHR 0x0A # cs" "CHR 0x0A \<notin> set l" by (meson split_list_first)
  moreover with assms have "terminated cs" by (auto simp: terminated_def split: if_splits)
  ultimately show ?thesis by (rule that)
qed

lemma read_bounded_line_append:
  assumes "terminated bs" "bs \<noteq> []" "read_bounded_line bs = r"
  shows "read_bounded_line (bs @ cs) = (case r of Inl e \<Rightarrow> Inl e | Inr None \<Rightarrow> Inr None
    | Inr (Some (line, rest)) \<Rightarrow> Inr (Some (line, rest @ cs)))"
    and "\<And>line rest. r = Inr (Some (line, rest)) \<Longrightarrow> terminated rest"
proof -
  from assms(1,2) obtain l ds where l: "bs = l @ CHR 0x0A # ds" "CHR 0x0A \<notin> set l" "terminated ds"
    by (rule terminated_first_line)
  show "read_bounded_line (bs @ cs) = (case r of Inl e \<Rightarrow> Inl e | Inr None \<Rightarrow> Inr None
    | Inr (Some (line, rest)) \<Rightarrow> Inr (Some (line, rest @ cs)))"
    using assms(3) takeWhile_line [OF l(2), of "ds @ cs"] takeWhile_line [OF l(2), of ds]
    by (auto simp: read_bounded_line_def l(1) Let_def)
  show "terminated rest" if "r = Inr (Some (line, rest))" for line rest
    using that assms(3) l takeWhile_line [OF l(2), of ds] by (auto simp: read_bounded_line_def Let_def split: if_splits)
qed

lemma read_recovery_bytes_Nil [simp]: "read_recovery_bytes parse selected [] = Inr []"
  by (simp add: read_recovery_bytes.simps read_bounded_line_def)

lemma read_recovery_bytes_append:
  "terminated bs \<Longrightarrow> read_recovery_bytes parse selected (bs @ cs)
     = bindR (read_recovery_bytes parse selected bs) (\<lambda>a. bindR (read_recovery_bytes parse selected cs) (\<lambda>b. Inr (a @ b)))"
proof (induction parse selected bs rule: read_recovery_bytes.induct)
  case (1 parse selected bs)
  show ?case
  proof (cases "bs = []")
    case True
    then show ?thesis by (cases "read_recovery_bytes parse selected cs") simp_all
  next
    case False
    note a = read_bounded_line_append [OF 1(2) False refl]
    show ?thesis
    proof (cases "read_bounded_line bs")
      case (Inl e)
      with a(1) [of cs] show ?thesis by (simp add: read_recovery_bytes.simps)
    next
      case (Inr r)
      from False Inr obtain line rest where p: "r = Some (line, rest)"
        by (auto simp: read_bounded_line_def Let_def split: if_splits)
      with a(2) Inr have t: "terminated rest" by simp
      from 1(1) [OF Inr p refl t] a(1) [of cs] show ?thesis
        unfolding read_recovery_bytes.simps [of _ _ "bs @ cs"] read_recovery_bytes.simps [of _ _ bs]
        by (cases "read_recovery_line parse selected line"; cases "read_recovery_bytes parse selected rest";
            cases "read_recovery_bytes parse selected cs") (simp_all add: Inr p)
    qed
  qed
qed

text \<open>Over segments of complete lines a reading is a reading of their bytes in a row.\<close>

lemma read_recovery_concat:
  "\<forall>bs \<in> set bss. terminated bs \<Longrightarrow>
     bindR (traverse (read_recovery_bytes parse selected) bss) (\<lambda>rs. Inr (concat rs))
       = read_recovery_bytes parse selected (concat bss)"
proof (induction bss)
  case (Cons bs bss)
  from Cons have ih: "read_recovery_bytes parse selected (concat bss)
      = bindR (traverse (read_recovery_bytes parse selected) bss) (\<lambda>rs. Inr (concat rs))" by simp
  from Cons.prems show ?case
    by (cases "read_recovery_bytes parse selected bs"; cases "traverse (read_recovery_bytes parse selected) bss")
      (simp_all add: read_recovery_bytes_append ih)
qed simp

lemma read_recovery_segments:
  "traverse (read_recovery_segment parse selected d) (segments d) = traverse (read_recovery_bytes parse selected) (segment_bytes d)"
  unfolding segment_bytes_def traverse_map
  by (rule traverse_cong) (auto simp: read_recovery_segment_def in_segments)

text \<open>What the recovery reader relies on for an event, beside what the replay does: white space after the
  text is ignored, the line is short enough, and the identifier is there.\<close>

definition recovery_codec :: "(json \<Rightarrow> string) \<Rightarrow> (string \<Rightarrow> json option) \<Rightarrow> ledger_event \<Rightarrow> bool" where
  "recovery_codec ser parse e \<longleftrightarrow> line_codec ser parse e
     \<and> parse (ser (event_to_json e) @ [CHR 0x0A]) = Some (event_to_json e)
     \<and> length (ser (event_to_json e)) < max_event_bytes
     \<and> le_event_id e \<noteq> [] \<and> le_id e = le_event_id e"

definition recovery_event_of :: "ledger_event \<Rightarrow> git_recovery_event" where
  "recovery_event_of e = \<lparr> gre_event_id = le_event_id e, gre_event_type = le_event_type e, gre_data = le_data e \<rparr>"

definition selected_event :: "string list \<Rightarrow> ledger_event \<Rightarrow> bool" where
  "selected_event selected e \<longleftrightarrow> le_event_type e \<in> set selected"

lemma event_object_event_type [simp]: "line_event_type (event_object e) = Inr (Some (le_event_type e))"
  by (simp add: line_event_type_def event_object_members)

lemma read_recovery_line_event:
  assumes "recovery_codec ser parse e" "selected_event selected e \<Longrightarrow> as_object (le_data e) \<noteq> None"
  shows "read_recovery_line parse selected (ser (event_to_json e) @ [CHR 0x0A])
    = Inr (if selected_event selected e then [recovery_event_of e] else [])"
proof -
  have "event_identity (event_object e) = Inr (le_event_id e)"
    using assms(1) by (simp add: event_identity_def event_object_members recovery_codec_def nonempty_def)
  moreover have "\<exists>ob. le_data e = JObj ob" if "selected_event selected e"
    using assms(2) [OF that] by (cases "le_data e") auto
  ultimately show ?thesis using assms
    by (auto simp: read_recovery_line_def recovery_codec_def event_to_json_def event_object_members
        selected_event_def recovery_event_of_def)
qed

definition event_lines :: "(json \<Rightarrow> string) \<Rightarrow> ledger_event list \<Rightarrow> string" where
  "event_lines ser es = concat (map (\<lambda>e. ser (event_to_json e) @ [CHR 0x0A]) es)"

lemma read_recovery_event_lines:
  assumes "\<forall>e \<in> set es. recovery_codec ser parse e \<and> (selected_event selected e \<longrightarrow> as_object (le_data e) \<noteq> None)"
  shows "read_recovery_bytes parse selected (event_lines ser es)
    = Inr (map recovery_event_of (filter (selected_event selected) es))"
  using assms
proof (induction es)
  case (Cons e es)
  let ?l = "ser (event_to_json e)"
  have "read_bounded_line (event_lines ser (e # es)) = Inr (Some (?l @ [CHR 0x0A], event_lines ser es))"
    using read_bounded_line_line [of ?l "event_lines ser es"] Cons.prems
    by (simp add: event_lines_def recovery_codec_def line_codec_def)
  with Cons read_recovery_line_event [of ser parse e selected] show ?case
    by (simp add: read_recovery_bytes.simps [of _ _ "event_lines ser (e # es)"])
qed (simp add: event_lines_def)

lemma segs_append_concat: "segs_append m len bs sb sb' \<Longrightarrow> concat sb' = concat sb @ bs"
  by (cases sb rule: rev_cases) (auto simp: segs_append_def)

lemma segs_append_terminated:
  "segs_append m len bs sb sb' \<Longrightarrow> terminated bs \<Longrightarrow> bs \<noteq> [] \<Longrightarrow> \<forall>b \<in> set sb. terminated b \<Longrightarrow> \<forall>b \<in> set sb'. terminated b"
  by (cases sb rule: rev_cases) (auto simp: segs_append_def terminated_def)

definition lock_present :: "directory \<Rightarrow> bool" where
  "lock_present d \<longleftrightarrow> segments d = [] \<or> contents d append_lock \<noteq> None"

lemma lock_present_append: "lock_present d \<Longrightarrow> lock_present (snd (append_line w now r line d))"
  by (cases r) (auto simp: lock_present_def append_line_def Let_def contents_append_file)

text \<open>The bytes of a run: those of the events that reached a segment.\<close>

lemma event_run_bytes:
  assumes "ledger_inv N d" "N + length ops < max_index" "lock_present d" "\<forall>b \<in> set (segment_bytes d). terminated b"
    and "\<forall>(now, r, e) \<in> set ops. \<not> torn r"
  shows "concat (segment_bytes (event_run ser w ops d))
      = concat (segment_bytes d) @ event_lines ser (map (\<lambda>(now, r, e). e) (filter (\<lambda>(now, r, e). recorded r) ops))
    \<and> (\<forall>b \<in> set (segment_bytes (event_run ser w ops d)). terminated b) \<and> lock_present (event_run ser w ops d)"
  using assms
proof (induction ops arbitrary: d N)
  case Nil
  then show ?case by (simp add: event_lines_def)
next
  case (Cons op ops)
  obtain now r e where op: "op = (now, r, e)" by (cases op) auto
  let ?line = "ser (event_to_json e) @ [CHR 0x0A]"
  let ?d = "snd (append_line w now r ?line d)"
  have b: "Suc N < max_index" and nt: "\<not> torn r" using Cons.prems by (auto simp: op)
  note a = append_line_refines [OF Cons.prems(1) b, where w = w and now = now and r = r and line = ?line]
  have c: "concat (segment_bytes ?d) = concat (segment_bytes d) @ (if recorded r then ?line else [])
      \<and> (\<forall>b \<in> set (segment_bytes ?d). terminated b)"
    using a(2) nt Cons.prems(4) segs_append_concat segs_append_terminated [of _ _ ?line]
    by (cases r) (auto simp: bytes_written_def terminated_def)
  have "ledger_inv (Suc N) ?d" by (rule a(1))
  moreover have "lock_present ?d" using Cons.prems(3) by (rule lock_present_append)
  ultimately show ?case
    using Cons.IH [of "Suc N" ?d] c Cons.prems(2,5)
    by (simp add: op ledger_append_def event_lines_def)
qed

end
