(* ===== verification/Git_Lock_Owner.thy ===== *)
theory Git_Lock_Owner
  imports Git_Mutation Git_Recovery_Ledger
begin

text \<open>
  Proof of ownership of a native git lock (\<^verbatim>\<open>services/git_lock_owner.rs\<close>): the snapshot of a lock
  file, the inspection of processes through \<^verbatim>\<open>/proc\<close>, and the durable event that records that a
  managed process held one exact inode. Objects list their members in the order of their keys, as
  \<^verbatim>\<open>serde_json\<close>'s maps do.
\<close>

section \<open>Data\<close>

record managed_process_identity =
  pi_pid :: nat
  pi_start_time_ticks :: nat

record native_git_lock_snapshot =
  ls_device :: nat
  ls_inode :: nat
  ls_size :: nat
  ls_modified_seconds :: int
  ls_modified_nanoseconds :: int
  ls_changed_seconds :: int
  ls_changed_nanoseconds :: int
  ls_contents_sha256 :: string

record managed_native_lock_proof =
  np_schema_version :: nat
  np_operation_id_sha256 :: string
  np_worktree_root :: string
  np_worktree_root_sha256 :: string
  np_git_dir :: string
  np_git_dir_sha256 :: string
  np_common_git_dir :: string
  np_common_git_dir_sha256 :: string
  np_index_file :: string
  np_index_file_sha256 :: string
  np_index_lock_file :: string
  np_index_lock_file_sha256 :: string
  np_index_lease_file_sha256 :: string
  np_owner :: managed_process_identity
  np_lock :: native_git_lock_snapshot

definition proof_schema_version :: nat where
  "proof_schema_version = 2"

definition lock_evidence_max_bytes :: nat where
  "lock_evidence_max_bytes = 16 * 1024 * 1024"

definition lock_held_event :: string where
  "lock_held_event = ''git.native_lock.held''"

subsection \<open>Stored form\<close>

definition identity_to_json :: "managed_process_identity \<Rightarrow> json" where
  "identity_to_json i = JObj [(''pid'', json_u64 (pi_pid i)), (''start_time_ticks'', json_u64 (pi_start_time_ticks i))]"

definition snapshot_to_json :: "native_git_lock_snapshot \<Rightarrow> json" where
  "snapshot_to_json l = JObj
     [(''changed_nanoseconds'', JInt (ls_changed_nanoseconds l)), (''changed_seconds'', JInt (ls_changed_seconds l)),
      (''contents_sha256'', JStr (ls_contents_sha256 l)), (''device'', json_u64 (ls_device l)),
      (''inode'', json_u64 (ls_inode l)), (''modified_nanoseconds'', JInt (ls_modified_nanoseconds l)),
      (''modified_seconds'', JInt (ls_modified_seconds l)), (''size'', json_u64 (ls_size l))]"

definition proof_to_json :: "managed_native_lock_proof \<Rightarrow> json" where
  "proof_to_json p = JObj
     [(''common_git_dir'', JStr (np_common_git_dir p)), (''common_git_dir_sha256'', JStr (np_common_git_dir_sha256 p)),
      (''git_dir'', JStr (np_git_dir p)), (''git_dir_sha256'', JStr (np_git_dir_sha256 p)),
      (''index_file'', JStr (np_index_file p)), (''index_file_sha256'', JStr (np_index_file_sha256 p)),
      (''index_lease_file_sha256'', JStr (np_index_lease_file_sha256 p)),
      (''index_lock_file'', JStr (np_index_lock_file p)), (''index_lock_file_sha256'', JStr (np_index_lock_file_sha256 p)),
      (''lock'', snapshot_to_json (np_lock p)), (''operation_id_sha256'', JStr (np_operation_id_sha256 p)),
      (''owner'', identity_to_json (np_owner p)), (''schema_version'', json_u64 (np_schema_version p)),
      (''worktree_root'', JStr (np_worktree_root p)), (''worktree_root_sha256'', JStr (np_worktree_root_sha256 p))]"

definition identity_from_json :: "json \<Rightarrow> managed_process_identity option" where
  "identity_from_json j = do {
     ob \<leftarrow> as_object j;
     pid \<leftarrow> field as_u32 ob ''pid'';
     start \<leftarrow> field as_u64 ob ''start_time_ticks'';
     Some \<lparr> pi_pid = pid, pi_start_time_ticks = start \<rparr> }"

definition snapshot_from_json :: "json \<Rightarrow> native_git_lock_snapshot option" where
  "snapshot_from_json j = do {
     ob \<leftarrow> as_object j;
     device \<leftarrow> field as_u64 ob ''device'';
     inode \<leftarrow> field as_u64 ob ''inode'';
     size \<leftarrow> field as_u64 ob ''size'';
     ms \<leftarrow> field as_i64 ob ''modified_seconds'';
     mn \<leftarrow> field as_i64 ob ''modified_nanoseconds'';
     cs \<leftarrow> field as_i64 ob ''changed_seconds'';
     cn \<leftarrow> field as_i64 ob ''changed_nanoseconds'';
     sha \<leftarrow> field as_str ob ''contents_sha256'';
     Some \<lparr> ls_device = device, ls_inode = inode, ls_size = size, ls_modified_seconds = ms,
       ls_modified_nanoseconds = mn, ls_changed_seconds = cs, ls_changed_nanoseconds = cn, ls_contents_sha256 = sha \<rparr> }"

definition proof_from_json :: "json \<Rightarrow> managed_native_lock_proof option" where
  "proof_from_json j = do {
     ob \<leftarrow> as_object j;
     sv \<leftarrow> field as_u32 ob ''schema_version'';
     op \<leftarrow> field as_str ob ''operation_id_sha256'';
     wr \<leftarrow> field as_str ob ''worktree_root'';
     wrs \<leftarrow> field as_str ob ''worktree_root_sha256'';
     gd \<leftarrow> field as_str ob ''git_dir'';
     gds \<leftarrow> field as_str ob ''git_dir_sha256'';
     cd \<leftarrow> field as_str ob ''common_git_dir'';
     cds \<leftarrow> field as_str ob ''common_git_dir_sha256'';
     idx \<leftarrow> field as_str ob ''index_file'';
     idxs \<leftarrow> field as_str ob ''index_file_sha256'';
     il \<leftarrow> field as_str ob ''index_lock_file'';
     ils \<leftarrow> field as_str ob ''index_lock_file_sha256'';
     iles \<leftarrow> field as_str ob ''index_lease_file_sha256'';
     ow \<leftarrow> field identity_from_json ob ''owner'';
     lk \<leftarrow> field snapshot_from_json ob ''lock'';
     Some \<lparr> np_schema_version = sv, np_operation_id_sha256 = op, np_worktree_root = wr, np_worktree_root_sha256 = wrs,
       np_git_dir = gd, np_git_dir_sha256 = gds, np_common_git_dir = cd, np_common_git_dir_sha256 = cds,
       np_index_file = idx, np_index_file_sha256 = idxs, np_index_lock_file = il, np_index_lock_file_sha256 = ils,
       np_index_lease_file_sha256 = iles, np_owner = ow, np_lock = lk \<rparr> }"

section \<open>Processes\<close>

definition start_time_ticks :: "git_env \<Rightarrow> nat \<Rightarrow> (string + nat option) act" where
  "start_time_ticks E pid = do {
     r \<leftarrow> look_at E (\<lambda>w. gw_proc_stat w pid);
     give (case r of
         Inl NotFound \<Rightarrow> Inr None
       | Inl k \<Rightarrow> Inl (''cannot inspect process identity ('' @ io_kind_str k @ '')'')
       | Inr stat \<Rightarrow>
           (case parse_start_time_ticks stat of
              None \<Rightarrow> Inl ''process identity record is malformed; lock ownership is uncertain''
            | Some ticks \<Rightarrow> Inr (Some ticks))) }"

definition process_is_zombie :: "git_env \<Rightarrow> nat \<Rightarrow> (string + bool) act" where
  "process_is_zombie E pid = do {
     r \<leftarrow> look_at E (\<lambda>w. gw_proc_stat w pid);
     give (case r of
         Inl k \<Rightarrow> Inl (''cannot inspect process identity ('' @ io_kind_str k @ '')'')
       | Inr stat \<Rightarrow>
           (case after_last (CHR '')'') stat of
              None \<Rightarrow> Inl ''process identity record is malformed''
            | Some rest \<Rightarrow>
                (case split_whitespace rest of [] \<Rightarrow> Inr False | x # _ \<Rightarrow> Inr (x = ''Z'' \<or> x = ''X'')))) }"

primrec find_inode :: "git_env \<Rightarrow> nat \<Rightarrow> nat \<Rightarrow> nat \<Rightarrow> (io_kind + string) list \<Rightarrow> (string + bool) act" where
  "find_inode E pid device inode [] = give (Inr False)"
| "find_inode E pid device inode (entry # entries) =
     (case entry of
        Inl k \<Rightarrow> give (Inl (''cannot enumerate managed process descriptors ('' @ io_kind_str k @ '')''))
      | Inr name \<Rightarrow> do {
          r \<leftarrow> look_at E (\<lambda>w. gw_fd_metadata w pid name);
          case r of
            Inl NotFound \<Rightarrow> find_inode E pid device inode entries
          | Inl k \<Rightarrow> give (Inl (''cannot inspect managed process descriptor ('' @ io_kind_str k @ '')''))
          | Inr md \<Rightarrow>
              if md_dev md = device \<and> md_ino md = inode then give (Inr True)
              else find_inode E pid device inode entries })"

definition holds_inode :: "git_env \<Rightarrow> nat \<Rightarrow> nat \<Rightarrow> nat \<Rightarrow> (string + bool) act" where
  "holds_inode E pid device inode = do {
     r \<leftarrow> look_at E (\<lambda>w. gw_proc_fds w pid);
     case r of
       Inr entries \<Rightarrow> find_inode E pid device inode entries
     | Inl NotFound \<Rightarrow> give (Inr False)
     | Inl PermissionDenied \<Rightarrow>
         try_do (process_is_zombie E pid) (\<lambda>zombie.
           if zombie then give (Inr False)
           else give (Inl (''cannot inspect managed process descriptors ('' @ io_kind_str PermissionDenied @ '')'')))
     | Inl k \<Rightarrow> give (Inl (''cannot inspect managed process descriptors ('' @ io_kind_str k @ '')'')) }"

text \<open>A signal of number zero; the identifier must fit an \<^verbatim>\<open>i32\<close>.\<close>

definition process_group_exists :: "git_env \<Rightarrow> nat \<Rightarrow> (string + bool) act" where
  "process_group_exists E process_group_id =
     (if process_group_id \<ge> 2 ^ 31 then give (Inl ''managed process group ID is out of range'')
      else do {
        r \<leftarrow> look_at E (\<lambda>w. gw_killpg w (int process_group_id));
        give (case r of
            Delivered \<Rightarrow> Inr True
          | NoPermission \<Rightarrow> Inr True
          | NoSuchGroup \<Rightarrow> Inr False
          | KillError e \<Rightarrow> Inl (''cannot inspect managed process group ('' @ e @ '')'')) })"

definition capture_managed_process_identity ::
  "git_env \<Rightarrow> nat \<Rightarrow> (git_mutation_error + managed_process_identity) act" where
  "capture_managed_process_identity E pid = do {
     r \<leftarrow> start_time_ticks E pid;
     give (case r of
         Inl reason \<Rightarrow> Inl (MutationUncertain (path_of ''/proc'') reason)
       | Inr None \<Rightarrow> Inl (MutationUncertain (path_of ''/proc'') ''managed process exited before identity capture'')
       | Inr (Some ticks) \<Rightarrow> Inr \<lparr> pi_pid = pid, pi_start_time_ticks = ticks \<rparr>) }"

definition verify_process_identity ::
  "git_env \<Rightarrow> managed_process_identity \<Rightarrow> path \<Rightarrow> (git_mutation_error + unit) act" where
  "verify_process_identity E owner lock_path = do {
     r \<leftarrow> start_time_ticks E (pi_pid owner);
     give (case r of
         Inl reason \<Rightarrow> Inl (MutationUncertain lock_path reason)
       | Inr current \<Rightarrow>
           if current \<noteq> Some (pi_start_time_ticks owner)
           then Inl (MutationUncertain lock_path ''managed process is absent or its PID was reused'')
           else Inr ()) }"

section \<open>Snapshots\<close>

definition verify_same_inode :: "path \<Rightarrow> metadata \<Rightarrow> metadata \<Rightarrow> git_mutation_error + unit" where
  "verify_same_inode p expected observed =
     (if md_dev expected \<noteq> md_dev observed \<or> md_ino expected \<noteq> md_ino observed
      then Inl (MutationUncertain p ''native lock inode changed during inspection'')
      else if md_len expected \<noteq> md_len observed
           \<or> md_mtime expected \<noteq> md_mtime observed \<or> md_mtime_nsec expected \<noteq> md_mtime_nsec observed
           \<or> md_ctime expected \<noteq> md_ctime observed \<or> md_ctime_nsec expected \<noteq> md_ctime_nsec observed
      then Inl (MutationUncertain p ''native lock metadata changed during inspection'')
      else Inr ())"

text \<open>The loop over a buffer of 8192 bytes; \<open>sofar\<close> is what has been read and hashed. A file that
  keeps growing ends the loop at the evidence limit.\<close>

function read_lock_bytes :: "git_env \<Rightarrow> path \<Rightarrow> handle \<Rightarrow> string \<Rightarrow> git_run \<Rightarrow> (git_mutation_error + string) \<times> git_run" where
  "read_lock_bytes E p h sofar s =
     (case run_state (look_at E (\<lambda>w. gw_read w h (length sofar))) s of
        (Inl k, s') \<Rightarrow> (Inl (MutationUncertain p (''cannot read native lock ('' @ io_kind_str k @ '')'')), s')
      | (Inr bytes, s') \<Rightarrow>
          (let chunk = take 8192 bytes in
           if chunk = [] then (Inr sofar, s')
           else if length sofar + length chunk > lock_evidence_max_bytes
           then (Inl (MutationUncertain p ''native lock exceeds the evidence size limit''), s')
           else read_lock_bytes E p h (sofar @ chunk) s'))"
  by pat_completeness auto
termination
  by (relation "measure (\<lambda>(_, _, _, sofar, _). lock_evidence_max_bytes - length sofar)")
    (auto simp: not_less less_Suc_eq_le diff_less_mono2 simp flip: length_greater_0_conv)

declare read_lock_bytes.simps [simp del]

definition hash_file :: "git_env \<Rightarrow> path \<Rightarrow> handle \<Rightarrow> (git_mutation_error + string) act" where
  "hash_file E p h =
     try_do (State (read_lock_bytes E p h [])) (\<lambda>bytes. give (Inr (ge_sha256 E bytes)))"

definition lock_snapshot_of :: "metadata \<Rightarrow> string \<Rightarrow> native_git_lock_snapshot" where
  "lock_snapshot_of md sha =
     \<lparr> ls_device = md_dev md, ls_inode = md_ino md, ls_size = md_len md,
       ls_modified_seconds = md_mtime md, ls_modified_nanoseconds = md_mtime_nsec md,
       ls_changed_seconds = md_ctime md, ls_changed_nanoseconds = md_ctime_nsec md, ls_contents_sha256 = sha \<rparr>"

text \<open>\<^verbatim>\<open>map_err\<close> of a file system error into the reason \<open>what (kind)\<close>.\<close>

definition look_or :: "git_env \<Rightarrow> path \<Rightarrow> string \<Rightarrow> (git_world \<Rightarrow> io_kind + 'a) \<Rightarrow> (git_mutation_error + 'a) act" where
  "look_or E p what q = do {
     r \<leftarrow> look_at E q;
     give (map_err (\<lambda>k. MutationUncertain p (what @ '' ('' @ io_kind_str k @ '')'')) r) }"

definition snapshot_lock :: "git_env \<Rightarrow> path \<Rightarrow> (git_mutation_error + native_git_lock_snapshot) act" where
  "snapshot_lock E p =
     try_do (look_or E p ''cannot inspect native lock'' (\<lambda>w. gw_symlink_metadata w p)) (\<lambda>first.
     if md_kind first \<noteq> RegularFile then give (Inl (MutationUncertain p ''native lock is not a regular file''))
     else if md_len first > lock_evidence_max_bytes
     then give (Inl (MutationUncertain p ''native lock exceeds the evidence size limit''))
     else
     try_do (look_or E p ''cannot open native lock'' (\<lambda>w. gw_open w p)) (\<lambda>h.
     try_do (look_or E p ''cannot inspect native lock inode'' (\<lambda>w. gw_fstat w h)) (\<lambda>opened.
     try_do (give (verify_same_inode p first opened)) (\<lambda>_.
     try_do (hash_file E p h) (\<lambda>contents_sha256.
     try_do (look_or E p ''cannot recheck native lock'' (\<lambda>w. gw_fstat w h)) (\<lambda>after.
     try_do (look_or E p ''native lock path changed'' (\<lambda>w. gw_symlink_metadata w p)) (\<lambda>current.
     try_do (give (verify_same_inode p first after)) (\<lambda>_.
     try_do (give (verify_same_inode p first current)) (\<lambda>_.
       if md_len first \<noteq> md_len after \<or> md_len first \<noteq> md_len current
       then give (Inl (MutationUncertain p ''native lock changed while being fingerprinted''))
       else give (Inr (lock_snapshot_of first contents_sha256)))))))))))"

section \<open>The event log\<close>

text \<open>\<^verbatim>\<open>EventLog::append\<close>: the number is drawn at one moment and the event written at a later one.\<close>

definition log_append :: "git_env \<Rightarrow> string \<Rightarrow> string \<Rightarrow> json \<Rightarrow> (string + string) act" where
  "log_append E event_type agent_id data = do {
     b \<leftarrow> perform E (\<lambda>w. fst (begin_append (ge_sha256 E) (gw_log_env w) (gw_log w)))
            (\<lambda>r. case r of Inl e \<Rightarrow> [Appended event_type data (Inl e)] | Inr _ \<Rightarrow> []);
     case b of
       Inl e \<Rightarrow> give (Inl e)
     | Inr n \<Rightarrow> perform E (\<lambda>w. bindR (fst (commit_append (ge_ser E) (ge_sha256 E) (ge_writer E) (gw_log_env w) n
            event_type agent_id data (gw_log w))) (\<lambda>(event_id, _). Inr event_id))
            (\<lambda>r. [Appended event_type data r]) }"

definition read_git_recovery_events :: "git_env \<Rightarrow> string list \<Rightarrow> (string + git_recovery_event list) act" where
  "read_git_recovery_events E selected =
     look_at E (\<lambda>w. read_git_recovery_events_at (ge_parse E) (gw_ledger_failure w) (el_ledger (gw_log w)) selected)"

definition matching_event_id :: "string \<Rightarrow> json \<Rightarrow> git_recovery_event list \<Rightarrow> string option" where
  "matching_event_id event_type data records =
     map_option gre_event_id (find (\<lambda>r. gre_event_type r = event_type \<and> gre_data r = data) records)"

definition find_proof_event :: "git_env \<Rightarrow> path \<Rightarrow> json \<Rightarrow> (git_mutation_error + string option) act" where
  "find_proof_event E log_dir proof = do {
     r \<leftarrow> read_git_recovery_events E [lock_held_event];
     give (case r of
         Inl _ \<Rightarrow> Inl (MutationUncertain log_dir ''cannot inspect prior native lock proof events'')
       | Inr records \<Rightarrow> Inr (matching_event_id lock_held_event proof records)) }"

definition append_proof_once :: "git_env \<Rightarrow> path \<Rightarrow> json \<Rightarrow> (git_mutation_error + string) act" where
  "append_proof_once E log_dir proof =
     try_do (find_proof_event E log_dir proof) (\<lambda>found.
       case found of
         Some event_id \<Rightarrow> give (Inr event_id)
       | None \<Rightarrow> do {
           r \<leftarrow> log_append E lock_held_event ''git-mutation'' proof;
           case r of
             Inr event_id \<Rightarrow> give (Inr event_id)
           | Inl _ \<Rightarrow> try_do (find_proof_event E log_dir proof) (\<lambda>v.
               give (ok_or (MutationUncertain log_dir
                 ''native lock proof could not be durably recorded in the event ledger'') v)) })"

section \<open>Recording a proof\<close>

definition proof_of :: "git_env \<Rightarrow> git_mutation_lease \<Rightarrow> managed_process_identity \<Rightarrow> native_git_lock_snapshot
     \<Rightarrow> managed_native_lock_proof" where
  "proof_of E lease owner lock =
     (let paths = gl_paths lease in
      \<lparr> np_schema_version = proof_schema_version, np_operation_id_sha256 = ge_sha256 E (gl_operation_id lease),
        np_worktree_root = path_str (mp_worktree_root paths), np_worktree_root_sha256 = path_digest E (mp_worktree_root paths),
        np_git_dir = path_str (mp_git_dir paths), np_git_dir_sha256 = path_digest E (mp_git_dir paths),
        np_common_git_dir = path_str (mp_common_git_dir paths), np_common_git_dir_sha256 = path_digest E (mp_common_git_dir paths),
        np_index_file = path_str (mp_index_file paths), np_index_file_sha256 = path_digest E (mp_index_file paths),
        np_index_lock_file = path_str (mp_index_lock_file paths),
        np_index_lock_file_sha256 = path_digest E (mp_index_lock_file paths),
        np_index_lease_file_sha256 = path_digest E (mp_index_lease_file paths), np_owner = owner, np_lock = lock \<rparr>)"

definition native_lock_is_absent :: "git_env \<Rightarrow> path \<Rightarrow> bool act" where
  "native_lock_is_absent E p = do {
     r \<leftarrow> look_at E (\<lambda>w. gw_symlink_metadata w p);
     give (r = Inl NotFound) }"

text \<open>\<open>Inr None\<close> while the process has not opened the lock.\<close>

definition try_record_proof ::
  "git_env \<Rightarrow> path \<Rightarrow> git_mutation_lease \<Rightarrow> managed_process_identity
     \<Rightarrow> (git_mutation_error + (string \<times> managed_native_lock_proof) option) act" where
  "try_record_proof E log_dir lease owner =
     (let p = mp_index_lock_file (gl_paths lease) in
      if gl_resource lease \<noteq> IndexResource
      then give (Inl (MutationUncertain p ''native index lock proof requires the matching index mutation lease''))
      else try_do (verify_process_identity E owner p) (\<lambda>_. do {
        r \<leftarrow> snapshot_lock E p;
        case r of
          Inl e \<Rightarrow> do { absent \<leftarrow> native_lock_is_absent E p; give (if absent then Inr None else Inl e) }
        | Inr lock \<Rightarrow> do {
            q \<leftarrow> holds_inode E (pi_pid owner) (ls_device lock) (ls_inode lock);
            case q of
              Inl reason \<Rightarrow> give (Inl (MutationUncertain p reason))
            | Inr False \<Rightarrow> give (Inr None)
            | Inr True \<Rightarrow>
                try_do (verify_process_identity E owner p) (\<lambda>_.
                try_do (snapshot_lock E p) (\<lambda>again.
                  if again \<noteq> lock
                  then give (Inl (MutationUncertain p ''native lock changed while process ownership was being recorded''))
                  else try_do (append_proof_once E log_dir (proof_to_json (proof_of E lease owner lock))) (\<lambda>event_id.
                    give (Inr (Some (event_id, proof_of E lease owner lock)))))) } }))"

definition record_proof ::
  "git_env \<Rightarrow> path \<Rightarrow> git_mutation_lease \<Rightarrow> managed_process_identity
     \<Rightarrow> (git_mutation_error + string \<times> managed_native_lock_proof) act" where
  "record_proof E log_dir lease owner =
     try_do (try_record_proof E log_dir lease owner) (\<lambda>v.
       give (ok_or (MutationUncertain (mp_index_lock_file (gl_paths lease))
         ''managed process does not hold the current native lock inode open'') v))"

definition record_managed_native_lock_proof ::
  "git_env \<Rightarrow> path \<Rightarrow> git_mutation_lease \<Rightarrow> nat \<Rightarrow> managed_process_identity
     \<Rightarrow> (git_mutation_error + string \<times> managed_native_lock_proof) act" where
  "record_managed_native_lock_proof E log_dir lease child_id owner =
     (if child_id \<noteq> pi_pid owner
      then give (Inl (MutationUncertain (mp_index_lock_file (gl_paths lease))
        ''process identity does not belong to the managed child handle''))
      else record_proof E log_dir lease owner)"

end
