(* ===== verification/Git_Lock_Recovery.thy ===== *)
theory Git_Lock_Recovery
  imports Git_Lock_Owner
begin

text \<open>
  Recovery of native git index locks (\<^verbatim>\<open>services/git_lock_recovery.rs\<close>). Under the index lease a
  lock that a managed process left behind is moved to a quarantine directory, but only on durable
  evidence: an event that proves which process held this inode, the record of that process and its
  group, and an intent that is in the ledger before the move and a receipt after it. An
  interrupted quarantine is completed from its intent.
\<close>

section \<open>Data\<close>

definition quarantine_capacity :: nat where
  "quarantine_capacity = 64"

definition quarantine_intent_event :: string where
  "quarantine_intent_event = ''git.native_lock.quarantine_intent''"

definition quarantined_event :: string where
  "quarantined_event = ''git.native_lock.quarantined''"

definition process_started_event :: string where
  "process_started_event = ''git.process.started''"

record git_lock_recovery_receipt =
  rr_proof_event_id :: string
  rr_intent_event_id :: string
  rr_receipt_event_id :: string
  rr_quarantine_file :: string
  rr_lock :: native_git_lock_snapshot

datatype native_lock_recovery_verdict =
    Clear
  | Busy path "managed_process_identity list" string
  | Recovered git_lock_recovery_receipt
  | Uncertain path string

record quarantine_audit_data =
  qa_schema_version :: nat
  qa_proof_event_id :: string
  qa_proof :: managed_native_lock_proof
  qa_quarantine_file :: string

record quarantine_receipt_data =
  qr_schema_version :: nat
  qr_proof_event_id :: string
  qr_intent_event_id :: string
  qr_proof :: managed_native_lock_proof
  qr_quarantine_file :: string
  qr_quarantined_lock :: native_git_lock_snapshot

record managed_process_scope =
  ps_owner :: managed_process_identity
  ps_process_group_id :: nat

record located_proof =
  lp_event_id :: string
  lp_proof :: managed_native_lock_proof
  lp_scope :: managed_process_scope

definition audit_to_json :: "quarantine_audit_data \<Rightarrow> json" where
  "audit_to_json a = JObj
     [(''proof'', proof_to_json (qa_proof a)), (''proof_event_id'', JStr (qa_proof_event_id a)),
      (''quarantine_file'', JStr (qa_quarantine_file a)), (''schema_version'', json_u64 (qa_schema_version a))]"

definition receipt_to_json :: "quarantine_receipt_data \<Rightarrow> json" where
  "receipt_to_json a = JObj
     [(''intent_event_id'', JStr (qr_intent_event_id a)), (''proof'', proof_to_json (qr_proof a)),
      (''proof_event_id'', JStr (qr_proof_event_id a)), (''quarantine_file'', JStr (qr_quarantine_file a)),
      (''quarantined_lock'', snapshot_to_json (qr_quarantined_lock a)),
      (''schema_version'', json_u64 (qr_schema_version a))]"

definition audit_from_json :: "json \<Rightarrow> quarantine_audit_data option" where
  "audit_from_json j = do {
     ob \<leftarrow> as_object j;
     sv \<leftarrow> field as_u32 ob ''schema_version'';
     pe \<leftarrow> field as_str ob ''proof_event_id'';
     pr \<leftarrow> field proof_from_json ob ''proof'';
     qf \<leftarrow> field as_str ob ''quarantine_file'';
     Some \<lparr> qa_schema_version = sv, qa_proof_event_id = pe, qa_proof = pr, qa_quarantine_file = qf \<rparr> }"

definition receipt_from_json :: "json \<Rightarrow> quarantine_receipt_data option" where
  "receipt_from_json j = do {
     ob \<leftarrow> as_object j;
     sv \<leftarrow> field as_u32 ob ''schema_version'';
     pe \<leftarrow> field as_str ob ''proof_event_id'';
     ie \<leftarrow> field as_str ob ''intent_event_id'';
     pr \<leftarrow> field proof_from_json ob ''proof'';
     qf \<leftarrow> field as_str ob ''quarantine_file'';
     ql \<leftarrow> field snapshot_from_json ob ''quarantined_lock'';
     Some \<lparr> qr_schema_version = sv, qr_proof_event_id = pe, qr_intent_event_id = ie, qr_proof = pr,
       qr_quarantine_file = qf, qr_quarantined_lock = ql \<rparr> }"

section \<open>Evidence\<close>

definition member_str :: "json \<Rightarrow> string \<Rightarrow> string option" where
  "member_str data k = Option.bind (value_get data k) as_str"

definition member_u32 :: "json \<Rightarrow> string \<Rightarrow> nat option" where
  "member_u32 data k =
     Option.bind (Option.bind (value_get data k) as_u64) (\<lambda>v. if v < 2 ^ 32 then Some v else None)"

definition proof_matches_paths :: "git_env \<Rightarrow> managed_native_lock_proof \<Rightarrow> git_mutation_paths \<Rightarrow> bool" where
  "proof_matches_paths E p paths \<longleftrightarrow>
     np_worktree_root p = path_str (mp_worktree_root paths)
     \<and> np_worktree_root_sha256 p = path_digest E (mp_worktree_root paths)
     \<and> np_git_dir p = path_str (mp_git_dir paths) \<and> np_git_dir_sha256 p = path_digest E (mp_git_dir paths)
     \<and> np_common_git_dir p = path_str (mp_common_git_dir paths)
     \<and> np_common_git_dir_sha256 p = path_digest E (mp_common_git_dir paths)
     \<and> np_index_file p = path_str (mp_index_file paths) \<and> np_index_file_sha256 p = path_digest E (mp_index_file paths)
     \<and> np_index_lock_file p = path_str (mp_index_lock_file paths)
     \<and> np_index_lock_file_sha256 p = path_digest E (mp_index_lock_file paths)
     \<and> np_index_lease_file_sha256 p = path_digest E (mp_index_lease_file paths)"

text \<open>A record of the managed process: not about this lock and operation, or its scope, or an error.\<close>

definition scope_of_record ::
  "git_mutation_paths \<Rightarrow> managed_native_lock_proof \<Rightarrow> git_recovery_event \<Rightarrow> string + managed_process_scope list" where
  "scope_of_record paths p r =
     (let data = gre_data r in
      if member_str data ''index_lock_file'' \<noteq> Some (path_str (mp_index_lock_file paths))
         \<or> member_str data ''operation_id_sha256'' \<noteq> Some (np_operation_id_sha256 p) then Inr []
      else bindR (ok_or ''matching managed process record has no valid PID'' (member_u32 data ''process_id'')) (\<lambda>process_id.
        bindR (ok_or ''matching managed process record has no start identity''
            (Option.bind (value_get data ''process_start_identity'') as_u64)) (\<lambda>start.
        bindR (ok_or ''matching managed process record has no process-group identity''
            (member_u32 data ''process_group_id'')) (\<lambda>process_group_id.
          if process_id \<noteq> pi_pid (np_owner p) \<or> start \<noteq> pi_start_time_ticks (np_owner p)
             \<or> process_group_id \<noteq> process_id
             \<or> member_str data ''worktree_root'' \<noteq> Some (path_str (mp_worktree_root paths))
             \<or> member_str data ''git_dir'' \<noteq> Some (path_str (mp_git_dir paths))
             \<or> member_str data ''common_git_dir'' \<noteq> Some (path_str (mp_common_git_dir paths))
             \<or> member_str data ''index_file'' \<noteq> Some (path_str (mp_index_file paths))
          then Inl ''matching managed process scope conflicts with native lock proof''
          else Inr [\<lparr> ps_owner = np_owner p, ps_process_group_id = process_group_id \<rparr>]))))"

definition unique_scope :: "managed_process_scope list \<Rightarrow> string + managed_process_scope" where
  "unique_scope scopes =
     (case scopes of [x] \<Rightarrow> Inr x | _ \<Rightarrow> Inl ''native lock proof has no unique durable supervised process scope'')"

definition matching_process_scope ::
  "git_env \<Rightarrow> git_mutation_paths \<Rightarrow> managed_native_lock_proof \<Rightarrow> (string + managed_process_scope) act" where
  "matching_process_scope E paths p = do {
     r \<leftarrow> read_git_recovery_events E [process_started_event];
     give (bindR r (\<lambda>records.
       bindR (traverse (scope_of_record paths p) records) (\<lambda>scopes. unique_scope (concat scopes)))) }"

definition managed_scope_active :: "git_env \<Rightarrow> managed_process_scope \<Rightarrow> (string + bool) act" where
  "managed_scope_active E scope =
     try_do (start_time_ticks E (pi_pid (ps_owner scope))) (\<lambda>current.
       if current = Some (pi_start_time_ticks (ps_owner scope)) then give (Inr True)
       else process_group_exists E (ps_process_group_id scope))"

text \<open>A record of ownership: of another lock, or the proof in it, or an error.\<close>

definition proof_of_record :: "git_mutation_paths \<Rightarrow> git_recovery_event \<Rightarrow> string + managed_native_lock_proof option" where
  "proof_of_record paths r =
     (let data = gre_data r in
      if member_str data ''index_lock_file'' \<noteq> Some (path_str (mp_index_lock_file paths)) then Inr None
      else bindR (ok_or ''native lock ownership event has no supported schema''
          (Option.bind (value_get data ''schema_version'') as_u64)) (\<lambda>version.
        if version \<noteq> proof_schema_version
        then Inl ''native lock ownership event uses an unsupported proof version''
        else bindR (ok_or ''native lock ownership event is malformed'' (proof_from_json data)) (\<lambda>p. Inr (Some p))))"

primrec matching_proofs ::
  "git_env \<Rightarrow> git_mutation_paths \<Rightarrow> native_git_lock_snapshot \<Rightarrow> git_recovery_event list
     \<Rightarrow> (string + located_proof list) act" where
  "matching_proofs E paths snapshot [] = give (Inr [])"
| "matching_proofs E paths snapshot (r # records) =
     try_do (give (proof_of_record paths r)) (\<lambda>found.
       case found of
         None \<Rightarrow> matching_proofs E paths snapshot records
       | Some p \<Rightarrow>
           if proof_matches_paths E p paths \<and> np_lock p = snapshot
           then try_do (matching_process_scope E paths p) (\<lambda>scope.
             try_do (matching_proofs E paths snapshot records) (\<lambda>ps.
               give (Inr (\<lparr> lp_event_id = gre_event_id r, lp_proof = p, lp_scope = scope \<rparr> # ps))))
           else matching_proofs E paths snapshot records)"

definition matching_proof ::
  "git_env \<Rightarrow> git_mutation_paths \<Rightarrow> native_git_lock_snapshot \<Rightarrow> (string + located_proof option) act" where
  "matching_proof E paths snapshot =
     try_do (read_git_recovery_events E [lock_held_event]) (\<lambda>records.
     try_do (matching_proofs E paths snapshot records) (\<lambda>ps.
       give (case ps of
           [] \<Rightarrow> Inr None
         | [p] \<Rightarrow> Inr (Some p)
         | _ \<Rightarrow> Inl ''multiple durable owners claim the same native lock inode'')))"

section \<open>Audit events\<close>

text \<open>The debug form of a text without characters to escape.\<close>

definition debug_str :: "string \<Rightarrow> string" where
  "debug_str t = [CHR 0x22] @ t @ [CHR 0x22]"

definition find_audit_event :: "git_env \<Rightarrow> string \<Rightarrow> json \<Rightarrow> path \<Rightarrow> (string + string option) act" where
  "find_audit_event E event_type data p = do {
     r \<leftarrow> read_git_recovery_events E [event_type];
     give (case r of
         Inl _ \<Rightarrow> Inl (''cannot inspect lock recovery audit at '' @ debug_str (path_str p))
       | Inr records \<Rightarrow> Inr (matching_event_id event_type data records)) }"

definition append_audit_once :: "git_env \<Rightarrow> string \<Rightarrow> json \<Rightarrow> path \<Rightarrow> (string + string) act" where
  "append_audit_once E event_type data p =
     try_do (find_audit_event E event_type data p) (\<lambda>found.
       case found of
         Some event_id \<Rightarrow> give (Inr event_id)
       | None \<Rightarrow> do {
           r \<leftarrow> log_append E event_type ''git-mutation'' data;
           case r of
             Inr event_id \<Rightarrow> give (Inr event_id)
           | Inl _ \<Rightarrow> try_do (find_audit_event E event_type data p) (\<lambda>v.
               give (ok_or ''lock recovery audit append failed and no durable event can be recovered'' v)) })"

definition verify_proof_event ::
  "git_env \<Rightarrow> string \<Rightarrow> managed_native_lock_proof \<Rightarrow> path \<Rightarrow> (native_lock_recovery_verdict + unit) act" where
  "verify_proof_event E proof_event_id expected p = do {
     r \<leftarrow> read_git_recovery_events E [lock_held_event];
     give (case r of
         Inl _ \<Rightarrow> Inl (Uncertain p ''cannot verify the ownership proof linked by lock recovery'')
       | Inr records \<Rightarrow>
           (case filter (\<lambda>r. gre_event_id r = proof_event_id) records of
              [m] \<Rightarrow>
                (case proof_from_json (gre_data m) of
                   None \<Rightarrow> Inl (Uncertain p ''referenced native lock ownership proof is malformed'')
                 | Some found \<Rightarrow>
                     if found \<noteq> expected
                     then Inl (Uncertain p ''referenced native lock ownership proof differs from recovery evidence'')
                     else Inr ())
            | _ \<Rightarrow> Inl (Uncertain p ''lock recovery references a missing or ambiguous ownership proof event''))) }"

definition recovery_result :: "string \<Rightarrow> quarantine_receipt_data \<Rightarrow> git_lock_recovery_receipt" where
  "recovery_result receipt_event_id a =
     \<lparr> rr_proof_event_id = qr_proof_event_id a, rr_intent_event_id = qr_intent_event_id a,
       rr_receipt_event_id = receipt_event_id, rr_quarantine_file = qr_quarantine_file a, rr_lock = np_lock (qr_proof a) \<rparr>"

definition same_quarantined_inode :: "native_git_lock_snapshot \<Rightarrow> native_git_lock_snapshot \<Rightarrow> bool" where
  "same_quarantined_inode a b \<longleftrightarrow> ls_device a = ls_device b \<and> ls_inode a = ls_inode b \<and> ls_size a = ls_size b
     \<and> ls_modified_seconds a = ls_modified_seconds b \<and> ls_modified_nanoseconds a = ls_modified_nanoseconds b
     \<and> ls_contents_sha256 a = ls_contents_sha256 b"

definition still_active :: string where
  "still_active = ''the recorded managed Git process or a supervised helper is still active''"

definition verify_quarantined_owner ::
  "git_env \<Rightarrow> managed_process_scope \<Rightarrow> path \<Rightarrow> (native_lock_recovery_verdict + unit) act" where
  "verify_quarantined_owner E scope p = do {
     r \<leftarrow> managed_scope_active E scope;
     give (case r of
         Inr False \<Rightarrow> Inr ()
       | Inr True \<Rightarrow> Inl (Busy p [ps_owner scope] still_active)
       | Inl reason \<Rightarrow> Inl (Uncertain p reason)) }"

section \<open>The quarantine\<close>

definition quarantine_dir :: "git_mutation_paths \<Rightarrow> path" where
  "quarantine_dir paths = mp_common_git_dir paths @ [''exomonad-mutation'', ''quarantine'']"

definition quarantine_path :: "git_env \<Rightarrow> git_mutation_paths \<Rightarrow> string \<Rightarrow> path" where
  "quarantine_path E paths proof_event_id = quarantine_dir paths @ [ge_sha256 E proof_event_id @ ''.lock'']"

definition check_quarantine_capacity :: "git_env \<Rightarrow> path \<Rightarrow> path \<Rightarrow> (string + unit) act" where
  "check_quarantine_capacity E directory target = do {
     e \<leftarrow> look_at E (\<lambda>w. gw_exists w target);
     if e then give (Inl ''quarantine target already exists'')
     else do {
       r \<leftarrow> look_at E (\<lambda>w. gw_dir_count w directory);
       give (case r of
           Inl k \<Rightarrow> Inl (''cannot inspect quarantine capacity ('' @ io_kind_str k @ '')'')
         | Inr count \<Rightarrow>
             if count \<ge> quarantine_capacity
             then Inl ''native lock quarantine reached its bounded 64-entry capacity'' else Inr ()) } }"

definition open_directory_nofollow :: "git_env \<Rightarrow> path \<Rightarrow> (io_kind + handle) act" where
  "open_directory_nofollow E p =
     try_do (look_at E (\<lambda>w. gw_canonicalize w p)) (\<lambda>canonical.
       if canonical \<noteq> p then give (Inl InvalidInput) else
     try_do (look_at E (\<lambda>w. gw_symlink_metadata w p)) (\<lambda>first.
       if md_kind first \<noteq> Directory then give (Inl InvalidInput) else
     try_do (look_at E (\<lambda>w. gw_open_directory w p)) (\<lambda>h.
     try_do (look_at E (\<lambda>w. gw_fstat w h)) (\<lambda>opened.
     try_do (look_at E (\<lambda>w. gw_symlink_metadata w p)) (\<lambda>current.
     try_do (look_at E (\<lambda>w. gw_canonicalize w p)) (\<lambda>canonical.
       if canonical \<noteq> p
          \<or> md_dev first \<noteq> md_dev opened \<or> md_ino first \<noteq> md_ino opened
          \<or> md_dev first \<noteq> md_dev current \<or> md_ino first \<noteq> md_ino current
       then give (Inl (OtherKind ''other error'')) else give (Inr h)))))))"

definition atomic_move_lock ::
  "git_env \<Rightarrow> path \<Rightarrow> path \<Rightarrow> native_git_lock_snapshot \<Rightarrow> (io_kind + unit) act" where
  "atomic_move_lock E source target expected =
     (case (path_parent source, path_parent target, path_file_name source, path_file_name target) of
        (Some source_parent, Some target_parent, Some source_name, Some target_name) \<Rightarrow>
          try_do (open_directory_nofollow E source_parent) (\<lambda>source_dir.
          try_do (open_directory_nofollow E target_parent) (\<lambda>target_dir. do {
            r \<leftarrow> snapshot_lock E source;
            case r of
              Inl _ \<Rightarrow> give (Inl (OtherKind ''other error''))
            | Inr current \<Rightarrow>
                if current \<noteq> expected then give (Inl (OtherKind ''other error''))
                else
                try_do (perform E (\<lambda>w. gw_rename_noreplace w source_dir source_name target_dir target_name)
                  (\<lambda>r. if is_ok r then [Renamed source target] else [])) (\<lambda>_.
                try_do (look_at E (\<lambda>w. gw_sync w source_dir)) (\<lambda>_. look_at E (\<lambda>w. gw_sync w target_dir))) }))
      | _ \<Rightarrow> give (Inl InvalidInput))"

definition validate_current_paths :: "git_env \<Rightarrow> path \<Rightarrow> git_mutation_lease \<Rightarrow> (git_mutation_error + unit) act" where
  "validate_current_paths E managed lease =
     try_do (resolve_paths_with_index_override E managed (mp_worktree_root (gl_paths lease)) (gl_index_override lease)) (\<lambda>current.
       if current \<noteq> gl_paths lease
       then give (Inl (MutationUncertain (mp_worktree_root (gl_paths lease))
         ''Git metadata paths changed after mutation lease acquisition''))
       else give (Inr ()))"

text \<open>Replace an error whatever it is.\<close>

definition or_fail :: "('e + 'a) act \<Rightarrow> ('e \<Rightarrow> 'f) \<Rightarrow> ('f + 'a) act" where
  "or_fail m f = do { r \<leftarrow> m; give (map_err f r) }"

definition revalidate_before_quarantine ::
  "git_env \<Rightarrow> path \<Rightarrow> git_mutation_lease \<Rightarrow> managed_native_lock_proof \<Rightarrow> (string + unit) act" where
  "revalidate_before_quarantine E managed lease p =
     (let paths = gl_paths lease in
      try_do (or_fail (validate_current_paths E managed lease)
        (\<lambda>_. ''Git worktree or active index changed before lock quarantine'')) (\<lambda>_.
      try_do (or_fail (snapshot_lock E (mp_index_lock_file paths))
        (\<lambda>_. ''native lock disappeared or changed before quarantine'')) (\<lambda>current.
      if current \<noteq> np_lock p \<or> ls_size current \<noteq> 0
      then give (Inl ''native lock no longer matches the empty proven inode'')
      else
      try_do (or_fail (matching_proof E paths current)
        (\<lambda>reason. ''cannot revalidate ownership evidence ('' @ reason @ '')'')) (\<lambda>found.
        case found of
          None \<Rightarrow> give (Inl ''durable lock ownership evidence changed before quarantine'')
        | Some m \<Rightarrow>
            if lp_proof m \<noteq> p then give (Inl ''durable lock ownership evidence changed before quarantine'')
            else try_do (or_fail (managed_scope_active E (lp_scope m))
              (\<lambda>_. ''managed process scope cannot be revalidated before quarantine'')) (\<lambda>active.
                give (if active then Inl ''the managed process or a supervised helper is still active'' else Inr ()))))))"

text \<open>\<open>verdict_of\<close>: an early return with a verdict.\<close>

definition verdict_of :: "(native_lock_recovery_verdict + native_lock_recovery_verdict) act \<Rightarrow> native_lock_recovery_verdict act" where
  "verdict_of m = do { r \<leftarrow> m; give (case r of Inl v \<Rightarrow> v | Inr v \<Rightarrow> v) }"

definition quarantine_move ::
  "git_env \<Rightarrow> path \<Rightarrow> path \<Rightarrow> native_git_lock_snapshot \<Rightarrow> (native_lock_recovery_verdict + unit) act" where
  "quarantine_move E source target expected =
     or_fail (atomic_move_lock E source target expected) (\<lambda>k.
       if k = AlreadyExists then Uncertain target ''quarantine target already exists while source lock remains''
       else Uncertain source (''cannot atomically quarantine proven native lock ('' @ io_kind_str k @ '')''))"

definition recheck_lock_gone :: "git_env \<Rightarrow> path \<Rightarrow> (native_lock_recovery_verdict + unit) act" where
  "recheck_lock_gone E p = do {
     r \<leftarrow> look_at E (\<lambda>w. gw_symlink_metadata w p);
     give (case r of
         Inr _ \<Rightarrow> Inl (Uncertain p ''a new native index lock appeared immediately after quarantine; retry init after its owner exits'')
       | Inl NotFound \<Rightarrow> Inr ()
       | Inl k \<Rightarrow> Inl (Uncertain p (''cannot recheck native lock after quarantine ('' @ io_kind_str k @ '')''))) }"

definition snapshot_quarantined ::
  "git_env \<Rightarrow> path \<Rightarrow> native_git_lock_snapshot \<Rightarrow> string \<Rightarrow> (native_lock_recovery_verdict + native_git_lock_snapshot) act" where
  "snapshot_quarantined E target lock reason = do {
     r \<leftarrow> snapshot_lock E target;
     give (case r of
         Inl e \<Rightarrow> Inl (Uncertain target (mutation_error_str e))
       | Inr snapshot \<Rightarrow>
           if same_quarantined_inode lock snapshot then Inr snapshot else Inl (Uncertain target reason)) }"

text \<open>The receipt, common to a quarantine and to the completion of an interrupted one.\<close>

definition record_receipt ::
  "git_env \<Rightarrow> git_mutation_paths \<Rightarrow> quarantine_audit_data \<Rightarrow> string \<Rightarrow> native_git_lock_snapshot
     \<Rightarrow> (native_lock_recovery_verdict + native_lock_recovery_verdict) act" where
  "record_receipt E paths audit intent_event_id quarantined_lock =
     (let receipt = \<lparr> qr_schema_version = 1, qr_proof_event_id = qa_proof_event_id audit,
            qr_intent_event_id = intent_event_id, qr_proof = qa_proof audit,
            qr_quarantine_file = qa_quarantine_file audit, qr_quarantined_lock = quarantined_lock \<rparr>;
          p = mp_index_lock_file paths in
      try_do (or_fail (append_audit_once E quarantined_event (receipt_to_json receipt) p) (Uncertain p)) (\<lambda>event_id.
        give (Inr (Recovered (recovery_result event_id receipt)))))"

definition quarantine_proven_lock ::
  "git_env \<Rightarrow> path \<Rightarrow> git_mutation_lease \<Rightarrow> located_proof \<Rightarrow> native_lock_recovery_verdict act" where
  "quarantine_proven_lock E managed lease lp =
     (let paths = gl_paths lease; p = mp_index_lock_file paths; dir = quarantine_dir paths;
          target = quarantine_path E paths (lp_event_id lp);
          audit = \<lparr> qa_schema_version = 1, qa_proof_event_id = lp_event_id lp, qa_proof = lp_proof lp,
            qa_quarantine_file = path_str target \<rparr> in
      verdict_of (
        try_do (or_fail (ensure_safe_lease_directory E dir) (\<lambda>e. Uncertain dir (mutation_error_str e))) (\<lambda>_.
        try_do (or_fail (check_quarantine_capacity E dir target) (Uncertain dir)) (\<lambda>_.
        try_do (or_fail (append_audit_once E quarantine_intent_event (audit_to_json audit) p) (Uncertain p)) (\<lambda>intent_event_id.
        try_do (or_fail (revalidate_before_quarantine E managed lease (qa_proof audit)) (Uncertain p)) (\<lambda>_.
        try_do (quarantine_move E p target (np_lock (qa_proof audit))) (\<lambda>_.
        try_do (recheck_lock_gone E p) (\<lambda>_.
        try_do (snapshot_quarantined E target (np_lock (qa_proof audit)) ''quarantined lock changed during atomic move'') (\<lambda>quarantined_lock.
        try_do (verify_quarantined_owner E (lp_scope lp) target) (\<lambda>_.
          record_receipt E paths audit intent_event_id quarantined_lock))))))))))"

section \<open>Absent locks\<close>

definition verify_quarantine_receipt ::
  "git_env \<Rightarrow> git_mutation_paths \<Rightarrow> string \<Rightarrow> quarantine_receipt_data \<Rightarrow> native_lock_recovery_verdict act" where
  "verify_quarantine_receipt E paths event_id audit =
     (let p = mp_index_lock_file paths; expected = quarantine_path E paths (qr_proof_event_id audit);
          intent = \<lparr> qa_schema_version = 1, qa_proof_event_id = qr_proof_event_id audit, qa_proof = qr_proof audit,
            qa_quarantine_file = qr_quarantine_file audit \<rparr> in
      if qr_quarantine_file audit \<noteq> path_str expected
      then give (Uncertain p ''quarantine receipt names an unexpected target path'')
      else verdict_of (
        try_do (verify_proof_event E (qr_proof_event_id audit) (qr_proof audit) p) (\<lambda>_.
        try_do (or_fail (find_audit_event E quarantine_intent_event (audit_to_json intent) p) (Uncertain p)) (\<lambda>found.
          if found \<noteq> Some (qr_intent_event_id audit)
          then give (Inl (Uncertain p ''quarantine receipt has no matching durable intent''))
          else do {
            r \<leftarrow> snapshot_lock E expected;
            case r of
              Inl e \<Rightarrow> give (Inl (Uncertain expected (mutation_error_str e)))
            | Inr snapshot \<Rightarrow>
                if snapshot = qr_quarantined_lock audit \<and> same_quarantined_inode (np_lock (qr_proof audit)) snapshot
                then try_do (or_fail (matching_process_scope E paths (qr_proof audit)) (Uncertain expected)) (\<lambda>scope.
                     try_do (verify_quarantined_owner E scope expected) (\<lambda>_.
                       give (Inr (Recovered (recovery_result event_id audit)))))
                else give (Inl (Uncertain expected ''quarantined lock differs from its retained receipt'')) }))))"

definition complete_interrupted_quarantine ::
  "git_env \<Rightarrow> git_mutation_paths \<Rightarrow> string \<Rightarrow> quarantine_audit_data \<Rightarrow> native_lock_recovery_verdict act" where
  "complete_interrupted_quarantine E paths intent_event_id audit =
     (let p = mp_index_lock_file paths; expected = quarantine_path E paths (qa_proof_event_id audit) in
      if qa_quarantine_file audit \<noteq> path_str expected
      then give (Uncertain p ''quarantine intent names an unexpected target path'')
      else verdict_of (
        try_do (verify_proof_event E (qa_proof_event_id audit) (qa_proof audit) p) (\<lambda>_.
        try_do (snapshot_quarantined E expected (np_lock (qa_proof audit))
          ''interrupted quarantine target differs from its proof'') (\<lambda>quarantined_lock.
        try_do (or_fail (matching_process_scope E paths (qa_proof audit)) (Uncertain expected)) (\<lambda>scope.
        try_do (verify_quarantined_owner E scope expected) (\<lambda>_.
          record_receipt E paths audit intent_event_id quarantined_lock))))))"

text \<open>The first record of a type, from the newest, whose proof is about these paths: \<open>Inr None\<close> when there is none.\<close>

fun newest_matching ::
  "(json \<Rightarrow> 'a option) \<Rightarrow> ('a \<Rightarrow> bool) \<Rightarrow> string \<Rightarrow> git_recovery_event list \<Rightarrow> unit + (string \<times> 'a) option" where
  "newest_matching decode ok event_type [] = Inr None"
| "newest_matching decode ok event_type (r # rs) =
     (if gre_event_type r \<noteq> event_type then newest_matching decode ok event_type rs
      else case decode (gre_data r) of
        None \<Rightarrow> Inl ()
      | Some audit \<Rightarrow> if ok audit then Inr (Some (gre_event_id r, audit)) else newest_matching decode ok event_type rs)"

definition reconcile_absent_lock :: "git_env \<Rightarrow> git_mutation_paths \<Rightarrow> native_lock_recovery_verdict act" where
  "reconcile_absent_lock E paths = do {
     let p = mp_index_lock_file paths;
     r \<leftarrow> read_git_recovery_events E [quarantined_event, quarantine_intent_event];
     case r of
       Inl e \<Rightarrow> give (Uncertain p (''cannot inspect prior lock recovery events: '' @ debug_str e))
     | Inr records \<Rightarrow>
         (case newest_matching receipt_from_json (\<lambda>a. proof_matches_paths E (qr_proof a) paths) quarantined_event (rev records) of
            Inl _ \<Rightarrow> give (Uncertain p ''quarantine receipt is malformed'')
          | Inr (Some (event_id, audit)) \<Rightarrow> verify_quarantine_receipt E paths event_id audit
          | Inr None \<Rightarrow>
              (case newest_matching audit_from_json (\<lambda>a. proof_matches_paths E (qa_proof a) paths) quarantine_intent_event (rev records) of
                 Inl _ \<Rightarrow> give (Uncertain p ''quarantine intent is malformed'')
               | Inr (Some (event_id, audit)) \<Rightarrow> complete_interrupted_quarantine E paths event_id audit
               | Inr None \<Rightarrow> give Clear)) }"

section \<open>Reconciliation\<close>

definition reconcile_present_lock :: "git_env \<Rightarrow> path \<Rightarrow> git_mutation_lease \<Rightarrow> native_lock_recovery_verdict act" where
  "reconcile_present_lock E managed lease =
     (let paths = gl_paths lease; p = mp_index_lock_file paths in
      verdict_of (
        try_do (or_fail (snapshot_lock E p) (\<lambda>e. Uncertain p (mutation_error_str e))) (\<lambda>snapshot.
        try_do (or_fail (matching_proof E paths snapshot) (Uncertain p)) (\<lambda>found.
          case found of
            None \<Rightarrow> give (Inl (Uncertain p
              ''no durable managed-process proof matches this lock inode and Git path binding''))
          | Some lp \<Rightarrow>
              try_do (or_fail (managed_scope_active E (lp_scope lp)) (Uncertain p)) (\<lambda>active.
                if active then give (Inl (Busy p [np_owner (lp_proof lp)] still_active))
                else if ls_size snapshot \<noteq> 0
                then give (Inl (Uncertain p
                  ''managed lock evidence is nonempty; automatic quarantine preserves its contents''))
                else do { v \<leftarrow> quarantine_proven_lock E managed lease lp; give (Inr v) })))))"

definition reconcile_once :: "git_env \<Rightarrow> path \<Rightarrow> git_mutation_lease \<Rightarrow> native_lock_recovery_verdict act" where
  "reconcile_once E managed lease = do {
     let p = mp_index_lock_file (gl_paths lease);
     r \<leftarrow> look_at E (\<lambda>w. gw_symlink_metadata w p);
     case r of
       Inr md \<Rightarrow>
         if md_kind md = Symlink then give (Uncertain p ''native index lock is a symlink'')
         else reconcile_present_lock E managed lease
     | Inl NotFound \<Rightarrow> reconcile_absent_lock E (gl_paths lease)
     | Inl k \<Rightarrow> give (Uncertain p (''cannot inspect native index lock ('' @ io_kind_str k @ '')'')) }"

text \<open>One round of the loop, with the flag that says whether it goes on: only a busy verdict before the deadline does.\<close>

definition reconcile_round ::
  "git_env \<Rightarrow> path \<Rightarrow> git_mutation_lease \<Rightarrow> nat \<Rightarrow> (bool \<times> native_lock_recovery_verdict) act" where
  "reconcile_round E managed lease deadline = do {
     valid \<leftarrow> validate_current_paths E managed lease;
     case valid of
       Inl e \<Rightarrow> give (False, Uncertain (mp_index_lock_file (gl_paths lease)) (mutation_error_str e))
     | Inr _ \<Rightarrow> do {
         v \<leftarrow> reconcile_once E managed lease;
         case v of
           Busy p owners reason \<Rightarrow> do {
             now \<leftarrow> look_at E gw_now;
             if now < deadline then do { _ \<leftarrow> look_at E gw_now; give (True, v) } else give (False, v) }
         | _ \<Rightarrow> give (False, v) } }"

partial_function (option) reconcile_loop ::
  "git_env \<Rightarrow> path \<Rightarrow> git_mutation_lease \<Rightarrow> nat \<Rightarrow> git_run \<Rightarrow> (native_lock_recovery_verdict \<times> git_run) option" where
  "reconcile_loop E managed lease deadline s =
     (case run_state (reconcile_round E managed lease deadline) s of
        ((again, v), s') \<Rightarrow> if again then reconcile_loop E managed lease deadline s' else Some (v, s'))"

declare reconcile_loop.simps [code]

definition reconcile_native_index_lock ::
  "git_env \<Rightarrow> path \<Rightarrow> git_mutation_lease \<Rightarrow> nat \<Rightarrow> git_run \<Rightarrow> (native_lock_recovery_verdict \<times> git_run) option" where
  "reconcile_native_index_lock E managed lease wait s =
     (if gl_resource lease \<noteq> IndexResource
      then Some (Uncertain (mp_index_lock_file (gl_paths lease)) ''native lock recovery requires the index lease'', s)
      else case run_state (look_at E gw_now) s of
             (now, s') \<Rightarrow> reconcile_loop E managed lease (now + wait) s')"

end
