(* ===== verification/Git_Lock_Steps.thy ===== *)
theory Git_Lock_Steps
  imports Git_Lock_Recovery
begin

text \<open>
  Reasoning about runs of the git lock services. \<open>traced s m P\<close> says that \<open>m\<close>, started in
  \<open>s\<close>, only adds to the trace, and only effects that satisfy \<open>P\<close> at their moment; its rules follow the
  structure of the monad. Success is taken apart by elimination rules. The operations that only look
  are shown to leave the trace alone, and what their answers say of the world is collected.
\<close>

section \<open>Rules of the monad\<close>

definition traced :: "git_run \<Rightarrow> 'a act \<Rightarrow> (nat \<Rightarrow> git_effect \<Rightarrow> bool) \<Rightarrow> bool" where
  "traced s m P \<longleftrightarrow>
     (\<exists>new. gr_trace (snd (run_state m s)) = gr_trace s @ new
        \<and> gr_clock s \<le> gr_clock (snd (run_state m s))
        \<and> (\<forall>(t, e) \<in> set new. gr_clock s \<le> t \<and> t < gr_clock (snd (run_state m s)) \<and> P t e))"

named_theorems traced_rules \<open>rules for the effects of an operation\<close>

lemma run_look_at [simp]:
  "run_state (look_at E q) s = (q (ge_worlds E (gr_clock s)), s \<lparr> gr_clock := Suc (gr_clock s) \<rparr>)"
  by (simp add: look_at_def)

lemma run_try_do:
  "run_state (try_do m f) s = (case run_state m s of (r, s1) \<Rightarrow> (case r of Inl e \<Rightarrow> (Inl e, s1) | Inr x \<Rightarrow> run_state (f x) s1))"
  by (auto simp: try_do_def split: prod.split sum.split)

lemma traced_give [traced_rules]: "traced s (give x) P"
  by (simp add: traced_def)

lemma traced_look_at [traced_rules]: "traced s (look_at E q) P"
  by (simp add: traced_def)

lemma traced_perform [traced_rules]:
  "(\<And>e. e \<in> set (eff (q (ge_worlds E (gr_clock s)))) \<Longrightarrow> P (gr_clock s) e) \<Longrightarrow> traced s (perform E q eff) P"
  by (auto simp: traced_def perform_def Let_def)

lemma traced_bind [traced_rules]:
  assumes "traced s m P" "\<And>x s1. run_state m s = (x, s1) \<Longrightarrow> gr_clock s \<le> gr_clock s1 \<Longrightarrow> traced s1 (f x) P"
  shows "traced s (m \<bind> f) P"
proof -
  obtain x s1 where r: "run_state m s = (x, s1)" by fastforce
  with assms(1) obtain new where new: "gr_trace s1 = gr_trace s @ new" "gr_clock s \<le> gr_clock s1"
    "\<forall>(t, e) \<in> set new. gr_clock s \<le> t \<and> t < gr_clock s1 \<and> P t e"
    by (auto simp: traced_def)
  from assms(2) [OF r new(2)] obtain new' where new': "gr_trace (snd (run_state (f x) s1)) = gr_trace s1 @ new'"
    "gr_clock s1 \<le> gr_clock (snd (run_state (f x) s1))"
    "\<forall>(t, e) \<in> set new'. gr_clock s1 \<le> t \<and> t < gr_clock (snd (run_state (f x) s1)) \<and> P t e"
    by (auto simp: traced_def)
  show ?thesis unfolding traced_def
    by (rule exI [of _ "new @ new'"]) (use r new new' in \<open>fastforce\<close>)
qed

lemma traced_try_do [traced_rules]:
  assumes "traced s m P" "\<And>x s1. run_state m s = (Inr x, s1) \<Longrightarrow> gr_clock s \<le> gr_clock s1 \<Longrightarrow> traced s1 (f x) P"
  shows "traced s (try_do m f) P"
  unfolding try_do_def
  by (rule traced_bind [OF assms(1)]) (auto intro: assms(2) traced_give split: sum.split)

lemma traced_mono: "traced s m P \<Longrightarrow> (\<And>t e. P t e \<Longrightarrow> Q t e) \<Longrightarrow> traced s m Q"
  unfolding traced_def by fastforce

lemma traced_or_fail [traced_rules]: "traced s m P \<Longrightarrow> traced s (or_fail m f) P"
  unfolding or_fail_def by (intro traced_rules)

lemma traced_verdict_of [traced_rules]: "traced s m P \<Longrightarrow> traced s (verdict_of m) P"
  unfolding verdict_of_def by (intro traced_rules)

lemma tracedE:
  assumes "traced s m P" "run_state m s = (x, s')"
  obtains new where "gr_trace s' = gr_trace s @ new" "gr_clock s \<le> gr_clock s'"
    "\<And>t e. (t, e) \<in> set new \<Longrightarrow> gr_clock s \<le> t \<and> t < gr_clock s' \<and> P t e"
  using assms by (auto simp: traced_def)

text \<open>Operations that only look.\<close>

definition quiet :: "'a act \<Rightarrow> bool" where
  "quiet m \<longleftrightarrow> (\<forall>s. traced s m (\<lambda>t e. False))"

lemma quiet_traced: "quiet m \<Longrightarrow> traced s m P"
  by (auto simp: quiet_def intro: traced_mono [of s m "\<lambda>t e. False"])

lemma quiet_run:
  assumes "quiet m" "run_state m s = (x, s')"
  shows "gr_trace s' = gr_trace s \<and> gr_clock s \<le> gr_clock s'"
proof -
  from assms(1) have "traced s m (\<lambda>t e. False)" by (simp add: quiet_def)
  then obtain new where "gr_trace s' = gr_trace s @ new" "gr_clock s \<le> gr_clock s'" "\<And>t e. (t, e) \<notin> set new"
    by (rule tracedE [OF _ assms(2)]) auto
  then show ?thesis by (cases new) auto
qed

named_theorems quiet_ops \<open>operations that only look\<close>

lemma quiet_give [quiet_ops]: "quiet (give x)"
  by (simp add: quiet_def traced_give)

lemma quiet_look_at [quiet_ops]: "quiet (look_at E q)"
  by (simp add: quiet_def traced_look_at)

lemma quiet_bind [quiet_ops]: "quiet m \<Longrightarrow> (\<And>x. quiet (f x)) \<Longrightarrow> quiet (m \<bind> f)"
  unfolding quiet_def by (auto intro: traced_bind)

lemma quiet_try_do [quiet_ops]: "quiet m \<Longrightarrow> (\<And>x. quiet (f x)) \<Longrightarrow> quiet (try_do m f)"
  unfolding quiet_def by (auto intro: traced_try_do)

lemma quiet_or_fail [quiet_ops]: "quiet m \<Longrightarrow> quiet (or_fail m f)"
  unfolding or_fail_def by (intro quiet_ops)

lemma quiet_verdict_of [quiet_ops]: "quiet m \<Longrightarrow> quiet (verdict_of m)"
  unfolding verdict_of_def by (intro quiet_ops)

lemma quiet_sum [quiet_ops]: "(\<And>a. quiet (f a)) \<Longrightarrow> (\<And>b. quiet (g b)) \<Longrightarrow> quiet (case r of Inl a \<Rightarrow> f a | Inr b \<Rightarrow> g b)"
  by (cases r) auto

lemma quiet_option [quiet_ops]: "quiet f \<Longrightarrow> (\<And>b. quiet (g b)) \<Longrightarrow> quiet (case r of None \<Rightarrow> f | Some b \<Rightarrow> g b)"
  by (cases r) auto

lemma quiet_if [quiet_ops]: "quiet f \<Longrightarrow> quiet g \<Longrightarrow> quiet (if b then f else g)"
  by simp

lemma quiet_prod [quiet_ops]: "(\<And>a b. quiet (f a b)) \<Longrightarrow> quiet (case r of (a, b) \<Rightarrow> f a b)"
  by (cases r) auto

lemma quiet_bool [quiet_ops]: "quiet f \<Longrightarrow> quiet g \<Longrightarrow> quiet (case b of True \<Rightarrow> f | False \<Rightarrow> g)"
  by (cases b) auto

lemma quiet_io_kind [quiet_ops]:
  "quiet a \<Longrightarrow> quiet b \<Longrightarrow> quiet c \<Longrightarrow> quiet d \<Longrightarrow> quiet e \<Longrightarrow> (\<And>m. quiet (f m))
     \<Longrightarrow> quiet (case k of NotFound \<Rightarrow> a | AlreadyExists \<Rightarrow> b | PermissionDenied \<Rightarrow> c | InvalidInput \<Rightarrow> d | Unsupported \<Rightarrow> e | OtherKind m \<Rightarrow> f m)"
  by (cases k) auto

section \<open>Looking\<close>

lemma quiet_resolution [quiet_ops]:
  "quiet (git_path E worktree argument index_override)"
  "quiet (canonical_directory E p label)"
  "quiet (canonicalize_leaf_parent E p label)"
  "quiet (reject_symlink E p label)"
  "quiet (reject_optional_symlink E p label)"
  unfolding git_path_def canonical_directory_def canonicalize_leaf_parent_def reject_symlink_def
    reject_optional_symlink_def Let_def
  by (intro quiet_ops)+

lemma quiet_resolve_roots [quiet_ops]: "quiet (resolve_roots E managed worktree index_override)"
  unfolding resolve_roots_def Let_def by (intro quiet_ops)

lemma quiet_resolve_paths [quiet_ops]: "quiet (resolve_paths_with_index_override E managed worktree index_override)"
  unfolding resolve_paths_with_index_override_def Let_def by (intro quiet_ops)

lemma quiet_validate_current_paths [quiet_ops]: "quiet (validate_current_paths E managed lease)"
  unfolding validate_current_paths_def by (intro quiet_ops)

lemma quiet_lease_files [quiet_ops]:
  "quiet (canonical_lease_directory E p)" "quiet (verify_open_path E h p)" "quiet (process_start_identity E pid)"
  unfolding canonical_lease_directory_def verify_open_path_def process_start_identity_def
  by (intro quiet_ops)+

lemma quiet_open_lease_file [quiet_ops]: "quiet (open_lease_file E p)"
  unfolding open_lease_file_def by (intro quiet_ops)

lemma quiet_processes [quiet_ops]:
  "quiet (start_time_ticks E pid)" "quiet (process_is_zombie E pid)" "quiet (process_group_exists E g)"
  unfolding start_time_ticks_def process_is_zombie_def process_group_exists_def
  by (intro quiet_ops)+

lemma quiet_find_inode [quiet_ops]: "quiet (find_inode E pid device inode entries)"
  by (induction entries) (auto intro!: quiet_ops)

lemma quiet_holds_inode [quiet_ops]: "quiet (holds_inode E pid device inode)" "quiet (verify_process_identity E owner p)"
  unfolding holds_inode_def verify_process_identity_def by (intro quiet_ops)+

lemma read_lock_bytes_quiet:
  "gr_trace (snd (read_lock_bytes E p h sofar s)) = gr_trace s \<and> gr_clock s \<le> gr_clock (snd (read_lock_bytes E p h sofar s))"
proof (induction E p h sofar s rule: read_lock_bytes.induct)
  case (1 E p h sofar s)
  let ?r = "gw_read (ge_worlds E (gr_clock s)) h (length sofar)" and ?s = "s \<lparr> gr_clock := Suc (gr_clock s) \<rparr>"
  show ?case
  proof (cases ?r)
    case (Inr bytes)
    have "gr_trace (snd (read_lock_bytes E p h (sofar @ take 8192 bytes) ?s)) = gr_trace ?s
        \<and> gr_clock ?s \<le> gr_clock (snd (read_lock_bytes E p h (sofar @ take 8192 bytes) ?s))"
      if "take 8192 bytes \<noteq> []" "\<not> lock_evidence_max_bytes < length sofar + length (take 8192 bytes)"
      using 1 [OF _ _ refl that, of ?r ?s] Inr by simp
    with Inr show ?thesis by (auto simp: read_lock_bytes.simps [of E p h sofar s] Let_def)
  qed (simp add: read_lock_bytes.simps [of E p h sofar s])
qed

lemma quiet_hash_file [quiet_ops]: "quiet (hash_file E p h)"
proof -
  have "quiet (State (read_lock_bytes E p h []))"
    using read_lock_bytes_quiet [of E p h "[]"] by (simp add: quiet_def traced_def)
  then show ?thesis unfolding hash_file_def by (intro quiet_ops)
qed

lemma quiet_look_or [quiet_ops]: "quiet (look_or E p what q)"
  unfolding look_or_def by (intro quiet_ops)

lemma quiet_snapshot_lock [quiet_ops]: "quiet (snapshot_lock E p)" "quiet (native_lock_is_absent E p)"
  unfolding snapshot_lock_def native_lock_is_absent_def by (intro quiet_ops)+

lemma quiet_read_git_recovery_events [quiet_ops]: "quiet (read_git_recovery_events E selected)"
  unfolding read_git_recovery_events_def by (intro quiet_ops)

lemma quiet_matching [quiet_ops]:
  "quiet (matching_process_scope E paths p)" "quiet (managed_scope_active E scope)" "quiet (find_audit_event E ty data q)"
  "quiet (find_proof_event E log_dir pr)"
  unfolding matching_process_scope_def managed_scope_active_def find_audit_event_def find_proof_event_def
  by (intro quiet_ops)+

lemma quiet_matching_proofs [quiet_ops]: "quiet (matching_proofs E paths snapshot records)"
  by (induction records) (auto intro!: quiet_ops)

lemma quiet_verification [quiet_ops]:
  "quiet (matching_proof E paths snapshot)" "quiet (verify_proof_event E i expected p)"
  "quiet (verify_quarantined_owner E scope p)" "quiet (recheck_lock_gone E p)"
  "quiet (snapshot_quarantined E p lock reason)" "quiet (check_quarantine_capacity E dir p)"
  "quiet (open_directory_nofollow E p)"
  unfolding matching_proof_def verify_proof_event_def verify_quarantined_owner_def recheck_lock_gone_def
    snapshot_quarantined_def check_quarantine_capacity_def open_directory_nofollow_def
  by (intro quiet_ops)+

lemma quiet_revalidate [quiet_ops]: "quiet (revalidate_before_quarantine E managed lease p)"
  unfolding revalidate_before_quarantine_def Let_def by (intro quiet_ops)

lemmas traced_quiet [traced_rules] =
  quiet_resolution [THEN quiet_traced] quiet_resolve_paths [THEN quiet_traced] quiet_validate_current_paths [THEN quiet_traced]
  quiet_lease_files [THEN quiet_traced] quiet_open_lease_file [THEN quiet_traced] quiet_processes [THEN quiet_traced]
  quiet_holds_inode [THEN quiet_traced] quiet_snapshot_lock [THEN quiet_traced]
  quiet_read_git_recovery_events [THEN quiet_traced] quiet_matching [THEN quiet_traced]
  quiet_verification [THEN quiet_traced] quiet_revalidate [THEN quiet_traced]

end
