(* ===== verification/Git_Lock_Evidence.thy ===== *)
theory Git_Lock_Evidence
  imports Git_Lock_Steps
begin

text \<open>
  What the answers of the git lock services say of the world: the file a snapshot describes, the process
  and group that a scope no longer finds, the ownership that the ledger proves, and the events that are
  recorded. Each is stated of one moment.
\<close>

section \<open>Success\<close>

declare run_state_bind [simp del]

named_theorems run_Inr \<open>a successful run taken apart\<close>

lemma run_bind_iff [run_Inr]:
  "run_state (m \<bind> f) s = (y, s') \<longleftrightarrow> (\<exists>x s1. run_state m s = (x, s1) \<and> run_state (f x) s1 = (y, s'))"
  by (auto simp: run_state_bind split: prod.split)

lemma run_try_do_Inr [run_Inr]:
  "run_state (try_do m f) s = (Inr y, s') \<longleftrightarrow> (\<exists>x s1. run_state m s = (Inr x, s1) \<and> run_state (f x) s1 = (Inr y, s'))"
  by (auto simp: run_try_do split: prod.split sum.splits)

lemma run_or_fail_Inr [run_Inr]: "run_state (or_fail m f) s = (Inr x, s') \<longleftrightarrow> run_state m s = (Inr x, s')"
  by (auto simp: or_fail_def run_bind_iff)

lemma run_look_or_Inr [run_Inr]:
  "run_state (look_or E p what q) s = (Inr x, s')
     \<longleftrightarrow> q (ge_worlds E (gr_clock s)) = Inr x \<and> s' = s \<lparr> gr_clock := Suc (gr_clock s) \<rparr>"
  by (auto simp: look_or_def run_bind_iff)

lemma run_case_sum:
  "run_state (case r of Inl a \<Rightarrow> f a | Inr b \<Rightarrow> g b) s = y
     \<longleftrightarrow> (\<exists>a. r = Inl a \<and> run_state (f a) s = y) \<or> (\<exists>b. r = Inr b \<and> run_state (g b) s = y)"
  by (cases r) auto

lemma run_case_bool:
  "run_state (case b of True \<Rightarrow> m | False \<Rightarrow> m') s = y \<longleftrightarrow> (b \<and> run_state m s = y) \<or> (\<not> b \<and> run_state m' s = y)"
  by (cases b) auto

lemma case_sum_eq:
  "(case r of Inl a \<Rightarrow> f a | Inr b \<Rightarrow> g b) = y \<longleftrightarrow> (\<exists>a. r = Inl a \<and> f a = y) \<or> (\<exists>b. r = Inr b \<and> g b = y)"
  by (cases r) auto

section \<open>Moments\<close>

definition ledger_read :: "git_env \<Rightarrow> nat \<Rightarrow> string list \<Rightarrow> string + git_recovery_event list" where
  "ledger_read E t selected =
     read_git_recovery_events_at (ge_parse E) (gw_ledger_failure (ge_worlds E t)) (el_ledger (gw_log (ge_worlds E t))) selected"

text \<open>An event of the ledger, found in it or just written to it.\<close>

definition event_found :: "git_env \<Rightarrow> nat \<Rightarrow> string \<Rightarrow> string \<Rightarrow> json \<Rightarrow> bool" where
  "event_found E t event_type event_id data \<longleftrightarrow>
     (\<exists>selected rs. ledger_read E t selected = Inr rs
        \<and> \<lparr> gre_event_id = event_id, gre_event_type = event_type, gre_data = data \<rparr> \<in> set rs)"

definition event_written :: "git_env \<Rightarrow> nat \<Rightarrow> string \<Rightarrow> string \<Rightarrow> json \<Rightarrow> bool" where
  "event_written E t event_type event_id data \<longleftrightarrow>
     (\<exists>n n'. fst (commit_append (ge_ser E) (ge_sha256 E) (ge_writer E) (gw_log_env (ge_worlds E t)) n
        event_type ''git-mutation'' data (gw_log (ge_worlds E t))) = Inr (event_id, n'))"

definition event_recorded :: "git_env \<Rightarrow> nat \<Rightarrow> string \<Rightarrow> string \<Rightarrow> json \<Rightarrow> bool" where
  "event_recorded E t event_type event_id data \<longleftrightarrow>
     event_found E t event_type event_id data \<or> event_written E t event_type event_id data"

text \<open>The metadata of the file at \<open>p\<close> are those of the snapshot.\<close>

definition file_is :: "git_env \<Rightarrow> nat \<Rightarrow> path \<Rightarrow> native_git_lock_snapshot \<Rightarrow> bool" where
  "file_is E t p l \<longleftrightarrow>
     (\<exists>md. gw_symlink_metadata (ge_worlds E t) p = Inr md \<and> lock_snapshot_of md (ls_contents_sha256 l) = l)"

text \<open>At \<open>t\<close> no process has the identity of the owner, and just after that the group is empty.\<close>

definition scope_gone :: "git_env \<Rightarrow> nat \<Rightarrow> managed_process_scope \<Rightarrow> bool" where
  "scope_gone E t sc \<longleftrightarrow>
     (case gw_proc_stat (ge_worlds E t) (pi_pid (ps_owner sc)) of
        Inl k \<Rightarrow> k = NotFound
      | Inr stat \<Rightarrow> \<exists>ticks. parse_start_time_ticks stat = Some ticks \<and> ticks \<noteq> pi_start_time_ticks (ps_owner sc))
     \<and> gw_killpg (ge_worlds E (Suc t)) (int (ps_process_group_id sc)) = NoSuchGroup"

text \<open>The ledger has exactly one record of a managed process for the lock and operation of the proof.\<close>

definition scope_proved :: "git_env \<Rightarrow> nat \<Rightarrow> git_mutation_paths \<Rightarrow> managed_native_lock_proof \<Rightarrow> managed_process_scope \<Rightarrow> bool" where
  "scope_proved E t paths p sc \<longleftrightarrow>
     (\<exists>rs xs. ledger_read E t [process_started_event] = Inr rs \<and> traverse (scope_of_record paths p) rs = Inr xs
        \<and> concat xs = [sc]) \<and> ps_owner sc = np_owner p \<and> ps_process_group_id sc = pi_pid (np_owner p)"

definition claims_lock :: "git_env \<Rightarrow> git_mutation_paths \<Rightarrow> native_git_lock_snapshot \<Rightarrow> git_recovery_event \<Rightarrow> bool" where
  "claims_lock E paths l r \<longleftrightarrow>
     (case proof_of_record paths r of Inr (Some p) \<Rightarrow> proof_matches_paths E p paths \<and> np_lock p = l | _ \<Rightarrow> False)"

text \<open>The ledger has exactly one event by which a process held this inode, and it is the one of \<open>lp\<close>.\<close>

definition ownership_proved ::
  "git_env \<Rightarrow> nat \<Rightarrow> git_mutation_paths \<Rightarrow> native_git_lock_snapshot \<Rightarrow> located_proof \<Rightarrow> bool" where
  "ownership_proved E t paths l lp \<longleftrightarrow>
     (\<exists>rs r. ledger_read E t [lock_held_event] = Inr rs \<and> filter (claims_lock E paths l) rs = [r]
        \<and> gre_event_id r = lp_event_id lp \<and> proof_from_json (gre_data r) = Some (lp_proof lp))
     \<and> proof_matches_paths E (lp_proof lp) paths \<and> np_lock (lp_proof lp) = l"

section \<open>What success says\<close>

lemma run_read_events:
  "run_state (read_git_recovery_events E selected) s = (ledger_read E (gr_clock s) selected, s \<lparr> gr_clock := Suc (gr_clock s) \<rparr>)"
  by (simp add: read_git_recovery_events_def ledger_read_def)

lemma verify_same_inode_Inr:
  "verify_same_inode p a b = Inr u \<Longrightarrow> lock_snapshot_of b sha = lock_snapshot_of a sha"
  by (auto simp: verify_same_inode_def lock_snapshot_of_def split: if_splits)

text \<open>A snapshot describes the file at its first and at its last moment.\<close>

lemma snapshot_lock_Inr:
  assumes "run_state (snapshot_lock E p) s = (Inr l, s')"
  shows "file_is E (gr_clock s) p l" "gr_clock s < gr_clock s'" "file_is E (gr_clock s' - 1) p l"
proof -
  from assms obtain before h opened sha after current s2 where
    b: "gw_symlink_metadata (ge_worlds E (gr_clock s)) p = Inr before"
    and h: "run_state (hash_file E p h) (s \<lparr> gr_clock := Suc (Suc (Suc (gr_clock s))) \<rparr>) = (Inr sha, s2)"
    and c: "gw_symlink_metadata (ge_worlds E (Suc (gr_clock s2))) p = Inr current"
    and v: "verify_same_inode p before current = Inr ()"
    and l: "l = lock_snapshot_of before sha" "s' = s2 \<lparr> gr_clock := Suc (Suc (gr_clock s2)) \<rparr>"
    by (auto simp: snapshot_lock_def run_Inr split: if_splits)
  have clock: "gr_clock s < gr_clock s2" using quiet_run [OF quiet_hash_file h] by simp
  have sha: "ls_contents_sha256 l = sha" by (simp add: l lock_snapshot_of_def)
  show "file_is E (gr_clock s) p l" using b sha by (simp add: file_is_def l)
  show "gr_clock s < gr_clock s'" using clock by (simp add: l)
  have "lock_snapshot_of current sha = l" using verify_same_inode_Inr [OF v] by (simp add: l)
  then show "file_is E (gr_clock s' - 1) p l" using c sha by (simp add: file_is_def l(2))
qed

lemma scope_of_record_owner:
  "scope_of_record paths p r = Inr xs \<Longrightarrow> sc \<in> set xs \<Longrightarrow> ps_owner sc = np_owner p \<and> ps_process_group_id sc = pi_pid (np_owner p)"
  by (auto simp: scope_of_record_def Let_def split: if_splits)

lemma matching_process_scope_Inr:
  assumes "run_state (matching_process_scope E paths p) s = (Inr sc, s')"
  shows "scope_proved E (gr_clock s) paths p sc" "gr_clock s' = Suc (gr_clock s)"
proof -
  from assms obtain rs xs where r: "ledger_read E (gr_clock s) [process_started_event] = Inr rs"
    "traverse (scope_of_record paths p) rs = Inr xs" "unique_scope (concat xs) = Inr sc"
    and c: "s' = s \<lparr> gr_clock := Suc (gr_clock s) \<rparr>"
    by (auto simp: matching_process_scope_def run_Inr run_read_events)
  from r(3) have sc: "concat xs = [sc]" by (auto simp: unique_scope_def split: list.splits)
  have "sc \<in> set (concat xs)" by (simp add: sc)
  with traverse_concat_mem [OF r(2)] have "ps_owner sc = np_owner p \<and> ps_process_group_id sc = pi_pid (np_owner p)"
    by (blast dest: scope_of_record_owner)
  with r sc show "scope_proved E (gr_clock s) paths p sc" by (auto simp: scope_proved_def)
  from c show "gr_clock s' = Suc (gr_clock s)" by simp
qed

lemma managed_scope_active_False:
  assumes "run_state (managed_scope_active E sc) s = (Inr False, s')"
  shows "scope_gone E (gr_clock s) sc" "gr_clock s' = Suc (Suc (gr_clock s))"
  using assms
  by (auto simp: managed_scope_active_def start_time_ticks_def process_group_exists_def scope_gone_def run_Inr
      split: if_splits sum.splits io_kind.splits option.splits killpg_answer.splits)

lemma proof_of_record_proof: "proof_of_record paths r = Inr (Some p) \<Longrightarrow> proof_from_json (gre_data r) = Some p"
  by (auto simp: proof_of_record_def Let_def split: if_splits)

text \<open>The proofs found are those of the records that claim the lock, each with its scope.\<close>

lemma matching_proofs_Inr:
  assumes "run_state (matching_proofs E paths l records) s = (Inr ps, s')"
  shows "list_all2 (\<lambda>r lp. gre_event_id r = lp_event_id lp \<and> proof_from_json (gre_data r) = Some (lp_proof lp)
      \<and> proof_matches_paths E (lp_proof lp) paths \<and> np_lock (lp_proof lp) = l
      \<and> (\<exists>t. gr_clock s \<le> t \<and> t < gr_clock s' \<and> scope_proved E t paths (lp_proof lp) (lp_scope lp)))
    (filter (claims_lock E paths l) records) ps"
  using assms
proof (induction records arbitrary: s ps)
  case (Cons r records)
  from Cons.prems obtain found where f: "proof_of_record paths r = Inr found"
    by (auto simp: run_Inr)
  show ?case
  proof (cases "claims_lock E paths l r")
    case False
    with f Cons.prems have "run_state (matching_proofs E paths l records) s = (Inr ps, s')"
      by (auto simp: run_Inr claims_lock_def split: option.splits if_splits)
    from Cons.IH [OF this] False show ?thesis by simp
  next
    case True
    with f obtain p where p: "found = Some p" "proof_matches_paths E p paths" "np_lock p = l"
      by (auto simp: claims_lock_def split: option.splits)
    with f Cons.prems obtain sc s1 qs where sc: "run_state (matching_process_scope E paths p) s = (Inr sc, s1)"
      and qs: "run_state (matching_proofs E paths l records) s1 = (Inr qs, s')"
      and ps: "ps = \<lparr> lp_event_id = gre_event_id r, lp_proof = p, lp_scope = sc \<rparr> # qs"
      by (auto simp: run_Inr)
    note m = matching_process_scope_Inr [OF sc] and q = quiet_run [OF quiet_matching_proofs qs]
    have "list_all2 (\<lambda>r lp. gre_event_id r = lp_event_id lp \<and> proof_from_json (gre_data r) = Some (lp_proof lp)
      \<and> proof_matches_paths E (lp_proof lp) paths \<and> np_lock (lp_proof lp) = l
      \<and> (\<exists>t. gr_clock s \<le> t \<and> t < gr_clock s' \<and> scope_proved E t paths (lp_proof lp) (lp_scope lp)))
    (filter (claims_lock E paths l) records) qs"
      by (rule list_all2_mono [OF Cons.IH [OF qs]]) (use m(2) in \<open>auto intro: Suc_leD\<close>)
    moreover have "\<exists>t. gr_clock s \<le> t \<and> t < gr_clock s' \<and> scope_proved E t paths p sc"
      using m q by (intro exI [of _ "gr_clock s"]) auto
    ultimately show ?thesis using True p f ps proof_of_record_proof [of paths r p] by simp
  qed
qed (simp add: run_Inr)

lemma matching_proof_Inr:
  assumes "run_state (matching_proof E paths l) s = (Inr (Some lp), s')"
  shows "ownership_proved E (gr_clock s) paths l lp"
    "\<exists>t. gr_clock s < t \<and> t < gr_clock s' \<and> scope_proved E t paths (lp_proof lp) (lp_scope lp)"
proof -
  from assms obtain rs ps where rs: "ledger_read E (gr_clock s) [lock_held_event] = Inr rs"
    and ps: "run_state (matching_proofs E paths l rs) (s \<lparr> gr_clock := Suc (gr_clock s) \<rparr>) = (Inr ps, s')"
    and k: "(case ps of [] \<Rightarrow> Inr None | [p] \<Rightarrow> Inr (Some p)
         | _ \<Rightarrow> Inl ''multiple durable owners claim the same native lock inode'') = Inr (Some lp)"
    by (fastforce simp: matching_proof_def run_Inr run_read_events)
  from k have lp: "ps = [lp]" by (auto split: list.splits)
  from matching_proofs_Inr [OF ps] lp obtain r where r: "filter (claims_lock E paths l) rs = [r]"
    "gre_event_id r = lp_event_id lp" "proof_from_json (gre_data r) = Some (lp_proof lp)"
    "proof_matches_paths E (lp_proof lp) paths" "np_lock (lp_proof lp) = l"
    and t: "\<exists>t. Suc (gr_clock s) \<le> t \<and> t < gr_clock s' \<and> scope_proved E t paths (lp_proof lp) (lp_scope lp)"
    by (auto simp: list_all2_Cons2)
  from r rs show "ownership_proved E (gr_clock s) paths l lp" by (auto simp: ownership_proved_def)
  from t show "\<exists>t. gr_clock s < t \<and> t < gr_clock s' \<and> scope_proved E t paths (lp_proof lp) (lp_scope lp)" by (auto simp: Suc_le_eq)
qed

lemma matching_event_id_Some:
  "matching_event_id ty data rs = Some i \<Longrightarrow> \<lparr> gre_event_id = i, gre_event_type = ty, gre_data = data \<rparr> \<in> set rs"
proof -
  assume "matching_event_id ty data rs = Some i"
  then obtain r where "find (\<lambda>r. gre_event_type r = ty \<and> gre_data r = data) rs = Some r" "gre_event_id r = i"
    by (auto simp: matching_event_id_def)
  then have "r \<in> set rs" "gre_event_id r = i" "gre_event_type r = ty" "gre_data r = data"
    by (auto simp: find_Some_iff)
  moreover have "r = \<lparr> gre_event_id = gre_event_id r, gre_event_type = gre_event_type r, gre_data = gre_data r \<rparr>" by simp
  ultimately show ?thesis by metis
qed

lemma find_audit_event_Inr:
  assumes "run_state (find_audit_event E ty data p) s = (Inr (Some i), s')"
  shows "event_found E (gr_clock s) ty i data" "gr_clock s' = Suc (gr_clock s)"
  using assms
  by (auto simp: find_audit_event_def run_Inr run_read_events event_found_def split: sum.splits dest: matching_event_id_Some)

lemma run_perform_iff [run_Inr]:
  "run_state (perform E q eff) s = (x, s') \<longleftrightarrow> x = q (ge_worlds E (gr_clock s))
     \<and> s' = s \<lparr> gr_clock := Suc (gr_clock s), gr_trace := gr_trace s @ map (Pair (gr_clock s)) (eff x) \<rparr>"
  by (auto simp: perform_def Let_def)

lemma log_append_Inr:
  assumes "run_state (log_append E ty ''git-mutation'' data) s = (Inr i, s')"
  shows "\<exists>t. gr_clock s \<le> t \<and> t < gr_clock s' \<and> event_written E t ty i data"
proof -
  from assms obtain b s1 where b: "run_state (perform E (\<lambda>w. fst (begin_append (ge_sha256 E) (gw_log_env w) (gw_log w)))
      (\<lambda>r. case r of Inl e \<Rightarrow> [Appended ty data (Inl e)] | Inr _ \<Rightarrow> [])) s = (b, s1)"
    and k: "run_state (case b of Inl e \<Rightarrow> give (Inl e)
      | Inr n \<Rightarrow> perform E (\<lambda>w. bindR (fst (commit_append (ge_ser E) (ge_sha256 E) (ge_writer E) (gw_log_env w) n
            ty ''git-mutation'' data (gw_log w))) (\<lambda>(event_id, _). Inr event_id))
            (\<lambda>r. [Appended ty data r])) s1 = (Inr i, s')"
    by (auto simp: log_append_def run_bind_iff)
  from k obtain n where n: "b = Inr n" by (cases b) auto
  from b have "gr_clock s1 = Suc (gr_clock s)" by (simp add: run_perform_iff)
  with k n show ?thesis
    by (intro exI [of _ "gr_clock s1"]) (auto simp: run_perform_iff event_written_def dest!: bindR_eq_Inr [THEN iffD1, OF sym])
qed

lemma traced_log_append [traced_rules]:
  "(\<And>t r. P t (Appended ty data r)) \<Longrightarrow> traced s (log_append E ty agent_id data) P"
  unfolding log_append_def
  by (intro traced_bind traced_perform) (auto intro!: traced_rules split: sum.splits)

lemma traced_append_audit_once [traced_rules]:
  assumes "\<And>t r. P t (Appended ty data r)"
  shows "traced s (append_audit_once E ty data p) P"
  unfolding append_audit_once_def
  by (auto intro!: traced_rules assms split: option.split sum.split)

text \<open>An event is looked up, appended when it is missing, and looked up again when the append fails.\<close>

lemma append_once_Inr:
  assumes quiet: "quiet lookup"
    and lookup: "\<And>s i s'. run_state lookup s = (Inr (Some i), s') \<Longrightarrow> event_found E (gr_clock s) ty i data \<and> gr_clock s' = Suc (gr_clock s)"
    and run: "run_state (try_do lookup (\<lambda>found. case found of Some i \<Rightarrow> give (Inr i) | None \<Rightarrow> do {
           r \<leftarrow> log_append E ty ''git-mutation'' data;
           case r of Inr i \<Rightarrow> give (Inr i) | Inl _ \<Rightarrow> try_do lookup (\<lambda>v. give (ok_or err v)) })) s = (Inr i, s')"
  shows "\<exists>t. gr_clock s \<le> t \<and> t < gr_clock s' \<and> event_recorded E t ty i data"
proof -
  from run obtain found s1 where f: "run_state lookup s = (Inr found, s1)"
    and k: "run_state (case found of Some i \<Rightarrow> give (Inr i) | None \<Rightarrow> do {
           r \<leftarrow> log_append E ty ''git-mutation'' data;
           case r of Inr i \<Rightarrow> give (Inr i) | Inl _ \<Rightarrow> try_do lookup (\<lambda>v. give (ok_or err v)) }) s1 = (Inr i, s')"
    by (auto simp: run_Inr)
  show ?thesis
  proof (cases found)
    case (Some j)
    with k f lookup [of s i s1] show ?thesis
      by (auto simp: event_recorded_def intro!: exI [of _ "gr_clock s"])
  next
    case None
    note c = quiet_run [OF quiet f]
    from k None obtain r s2 where r: "run_state (log_append E ty ''git-mutation'' data) s1 = (r, s2)"
      and k2: "run_state (case r of Inr i \<Rightarrow> give (Inr i) | Inl _ \<Rightarrow> try_do lookup (\<lambda>v. give (ok_or err v))) s2 = (Inr i, s')"
      by (auto simp: run_bind_iff)
    show ?thesis
    proof (cases r)
      case (Inr j)
      with k2 r have "run_state (log_append E ty ''git-mutation'' data) s1 = (Inr i, s')" by simp
      from log_append_Inr [OF this] c show ?thesis
        by (auto simp: event_recorded_def intro: order_trans)
    next
      case (Inl e)
      have "gr_clock s1 \<le> gr_clock s2"
        by (rule tracedE [OF traced_log_append [of "\<lambda>t e. True"] r]) auto
      moreover from Inl k2 have "run_state lookup s2 = (Inr (Some i), s')"
        by (auto simp: run_Inr)
      ultimately show ?thesis using lookup [of s2 i s'] c
        by (intro exI [of _ "gr_clock s2"]) (simp add: event_recorded_def)
    qed
  qed
qed

lemma append_audit_once_Inr:
  assumes "run_state (append_audit_once E ty data p) s = (Inr i, s')"
  shows "\<exists>t. gr_clock s \<le> t \<and> t < gr_clock s' \<and> event_recorded E t ty i data"
  by (rule append_once_Inr [OF quiet_matching(3) _ assms [unfolded append_audit_once_def]])
    (use find_audit_event_Inr in blast)

lemma append_proof_once_Inr:
  assumes "run_state (append_proof_once E log_dir data) s = (Inr i, s')"
  shows "\<exists>t. gr_clock s \<le> t \<and> t < gr_clock s' \<and> event_recorded E t lock_held_event i data"
proof (rule append_once_Inr [OF quiet_matching(4) _ assms [unfolded append_proof_once_def]])
  fix s i s'
  assume "run_state (find_proof_event E log_dir data) s = (Inr (Some i), s')"
  then show "event_found E (gr_clock s) lock_held_event i data \<and> gr_clock s' = Suc (gr_clock s)"
    by (auto simp: find_proof_event_def run_Inr run_read_events event_found_def split: sum.splits dest: matching_event_id_Some)
qed

section \<open>Recorded proofs\<close>

text \<open>A process with the recorded identity is alive at \<open>t\<close>, and it has the inode open.\<close>

definition process_alive :: "git_env \<Rightarrow> nat \<Rightarrow> managed_process_identity \<Rightarrow> bool" where
  "process_alive E t owner \<longleftrightarrow>
     (\<exists>stat. gw_proc_stat (ge_worlds E t) (pi_pid owner) = Inr stat
        \<and> parse_start_time_ticks stat = Some (pi_start_time_ticks owner))"

definition inode_open :: "git_env \<Rightarrow> nat \<Rightarrow> nat \<Rightarrow> native_git_lock_snapshot \<Rightarrow> bool" where
  "inode_open E t pid l \<longleftrightarrow>
     (\<exists>name md. gw_fd_metadata (ge_worlds E t) pid name = Inr md \<and> md_dev md = ls_device l \<and> md_ino md = ls_inode l)"

lemma verify_process_identity_Inr:
  assumes "run_state (verify_process_identity E owner p) s = (Inr u, s')"
  shows "process_alive E (gr_clock s) owner" "gr_clock s' = Suc (gr_clock s)"
  using assms
  by (auto simp: verify_process_identity_def start_time_ticks_def run_Inr process_alive_def
      split: sum.splits io_kind.splits option.splits if_splits)

lemma find_inode_True:
  assumes "run_state (find_inode E pid (ls_device l) (ls_inode l) entries) s = (Inr True, s')"
  shows "\<exists>t. gr_clock s \<le> t \<and> t < gr_clock s' \<and> inode_open E t pid l"
  using assms
proof (induction entries arbitrary: s)
  case (Cons entry entries)
  from Cons.prems obtain name where name: "entry = Inr name" by (cases entry) auto
  let ?s = "s \<lparr> gr_clock := Suc (gr_clock s) \<rparr>"
  from Cons.prems name consider
      (skip) "run_state (find_inode E pid (ls_device l) (ls_inode l) entries) ?s = (Inr True, s')"
    | (found) md where "gw_fd_metadata (ge_worlds E (gr_clock s)) pid name = Inr md" "md_dev md = ls_device l"
        "md_ino md = ls_inode l" "s' = ?s"
    by (auto simp: run_bind_iff split: sum.splits io_kind.splits if_splits)
  then show ?case
  proof cases
    case skip
    from Cons.IH [OF this] show ?thesis by (auto dest: Suc_leD)
  next
    case found
    then show ?thesis by (intro exI [of _ "gr_clock s"]) (auto simp: inode_open_def)
  qed
qed simp

lemma holds_inode_True:
  assumes "run_state (holds_inode E pid (ls_device l) (ls_inode l)) s = (Inr True, s')"
  shows "\<exists>t. gr_clock s < t \<and> t < gr_clock s' \<and> inode_open E t pid l"
proof -
  from assms obtain entries where "run_state (find_inode E pid (ls_device l) (ls_inode l) entries) (s \<lparr> gr_clock := Suc (gr_clock s) \<rparr>) = (Inr True, s')"
    by (auto simp: holds_inode_def run_Inr split: sum.splits io_kind.splits if_splits)
  from find_inode_True [OF this] show ?thesis by (auto simp: Suc_le_eq)
qed

lemma try_record_proof_Some:
  assumes "run_state (try_record_proof E log_dir lease owner) s = (Inr (Some (i, p)), s')"
  defines "lock \<equiv> mp_index_lock_file (gl_paths lease)"
  shows "gl_resource lease = IndexResource \<and> p = proof_of E lease owner (np_lock p)
    \<and> (\<exists>t1 t2 t3 t4 t5 t6. gr_clock s \<le> t1 \<and> t1 < t2 \<and> t2 < t3 \<and> t3 < t4 \<and> t4 < t5 \<and> t5 < t6 \<and> t6 < gr_clock s'
        \<and> process_alive E t1 owner \<and> file_is E t2 lock (np_lock p) \<and> inode_open E t3 (pi_pid owner) (np_lock p)
        \<and> process_alive E t4 owner \<and> file_is E t5 lock (np_lock p)
        \<and> event_recorded E t6 lock_held_event i (proof_to_json p))"
proof -
  from assms(1) have res: "gl_resource lease = IndexResource" by (auto simp: try_record_proof_def Let_def split: if_splits)
  with assms(1) obtain s1 s2 s3 l u where
    a: "run_state (verify_process_identity E owner lock) s = (Inr u, s1)"
    and b: "run_state (snapshot_lock E lock) s1 = (Inr l, s2)"
    and c: "run_state (holds_inode E (pi_pid owner) (ls_device l) (ls_inode l)) s2 = (Inr True, s3)"
    and k: "run_state (try_do (verify_process_identity E owner lock) (\<lambda>_.
                try_do (snapshot_lock E lock) (\<lambda>again.
                  if again \<noteq> l
                  then give (Inl (MutationUncertain lock ''native lock changed while process ownership was being recorded''))
                  else try_do (append_proof_once E log_dir (proof_to_json (proof_of E lease owner l))) (\<lambda>event_id.
                    give (Inr (Some (event_id, proof_of E lease owner l))))))) s3 = (Inr (Some (i, p)), s')"
    by (auto simp: try_record_proof_def lock_def [symmetric] Let_def run_try_do_Inr run_bind_iff run_case_sum run_case_bool
        split: if_splits)
  from k obtain s4 s5 where d: "run_state (verify_process_identity E owner lock) s3 = (Inr (), s4)"
    and e: "run_state (snapshot_lock E lock) s4 = (Inr l, s5)"
    and f: "run_state (append_proof_once E log_dir (proof_to_json (proof_of E lease owner l))) s5 = (Inr i, s')"
    and p: "p = proof_of E lease owner l"
    by (auto simp: run_Inr split: if_splits)
  have l: "np_lock p = l" by (simp add: p proof_of_def Let_def)
  note a = verify_process_identity_Inr [OF a] and b = snapshot_lock_Inr [OF b] and d = verify_process_identity_Inr [OF d]
    and e = snapshot_lock_Inr [OF e]
  from holds_inode_True [OF c] obtain t3 where t3: "gr_clock s2 < t3" "t3 < gr_clock s3" "inode_open E t3 (pi_pid owner) l" by blast
  from append_proof_once_Inr [OF f] obtain t6 where t6: "gr_clock s5 \<le> t6" "t6 < gr_clock s'"
    "event_recorded E t6 lock_held_event i (proof_to_json p)" unfolding p by blast
  have times: "gr_clock s < gr_clock s1" "gr_clock s1 < t3" "gr_clock s3 < gr_clock s4" "gr_clock s4 < t6"
    using a(2) b(2) d(2) e(2) t3(1) t6(1) by linarith+
  show ?thesis unfolding l
    by (intro conjI exI [of _ "gr_clock s"] exI [of _ "gr_clock s1"] exI [of _ t3] exI [of _ "gr_clock s3"] exI [of _ "gr_clock s4"] exI [of _ t6]
        res p order_refl times t3 t6 a(1) b(1) d(1) e(1))
qed

end
