(* ===== verification/Git_Lock_Safety.thy ===== *)
theory Git_Lock_Safety
  imports Git_Lock_Evidence
begin

text \<open>
  When a lock is moved: the evidence behind a rename, step by step from the move itself to the loop of
  the reconciliation.
\<close>

section \<open>The evidence\<close>

definition intent_of :: "git_env \<Rightarrow> git_mutation_paths \<Rightarrow> located_proof \<Rightarrow> quarantine_audit_data" where
  "intent_of E paths lp =
     \<lparr> qa_schema_version = 1, qa_proof_event_id = lp_event_id lp, qa_proof = lp_proof lp,
       qa_quarantine_file = path_str (quarantine_path E paths (lp_event_id lp)) \<rparr>"

text \<open>Resolution of the paths, begun at moment \<open>t\<close>, gives those of the lease.\<close>

definition paths_valid :: "git_env \<Rightarrow> path \<Rightarrow> git_mutation_lease \<Rightarrow> nat \<Rightarrow> bool" where
  "paths_valid E managed lease t \<longleftrightarrow>
     (\<exists>s. gr_clock s = t \<and> fst (run_state (resolve_paths_with_index_override E managed
        (mp_worktree_root (gl_paths lease)) (gl_index_override lease)) s) = Inr (gl_paths lease))"

definition revalidated ::
  "git_env \<Rightarrow> path \<Rightarrow> git_mutation_lease \<Rightarrow> managed_native_lock_proof \<Rightarrow> nat \<Rightarrow> nat \<Rightarrow> bool" where
  "revalidated E managed lease p a b \<longleftrightarrow>
     ls_size (np_lock p) = 0 \<and> paths_valid E managed lease a
     \<and> (\<exists>m to ts tg. a \<le> to \<and> to < ts \<and> ts < tg \<and> Suc tg < b \<and> lp_proof m = p
        \<and> ownership_proved E to (gl_paths lease) (np_lock p) m
        \<and> scope_proved E ts (gl_paths lease) p (lp_scope m) \<and> scope_gone E tg (lp_scope m))"

definition quarantine_justified :: "git_env \<Rightarrow> path \<Rightarrow> git_mutation_lease \<Rightarrow> nat \<Rightarrow> path \<Rightarrow> path \<Rightarrow> bool" where
  "quarantine_justified E managed lease t source target \<longleftrightarrow>
     source = mp_index_lock_file (gl_paths lease)
     \<and> (\<exists>lp i ti a b. target = quarantine_path E (gl_paths lease) (lp_event_id lp)
        \<and> event_recorded E ti quarantine_intent_event i (audit_to_json (intent_of E (gl_paths lease) lp))
        \<and> ti < a \<and> revalidated E managed lease (lp_proof lp) a b \<and> b < t
        \<and> file_is E (t - 1) source (np_lock (lp_proof lp)))"

section \<open>The parts of a quarantine\<close>

lemma matching_proof_clock:
  "run_state (matching_proof E paths l) s = (r, s') \<Longrightarrow> gr_clock s \<le> gr_clock s'"
  using quiet_run [OF quiet_verification(1)] by blast

lemma revalidate_Inr:
  assumes "run_state (revalidate_before_quarantine E managed lease p) s = (Inr u, s')"
  shows "revalidated E managed lease p (gr_clock s) (gr_clock s')"
proof -
  let ?paths = "gl_paths lease"
  from assms obtain s1 s2 s3 m current where
    v: "run_state (validate_current_paths E managed lease) s = (Inr (), s1)"
    and c: "run_state (snapshot_lock E (mp_index_lock_file ?paths)) s1 = (Inr current, s2)"
    and l: "current = np_lock p" "ls_size current = 0"
    and m: "run_state (matching_proof E ?paths current) s2 = (Inr (Some m), s3)" "lp_proof m = p"
    and g: "run_state (managed_scope_active E (lp_scope m)) s3 = (Inr False, s')"
    by (auto simp: revalidate_before_quarantine_def Let_def run_Inr split: if_splits option.splits)
  from v have "paths_valid E managed lease (gr_clock s)"
    by (auto simp: validate_current_paths_def run_Inr paths_valid_def intro!: exI [of _ s] split: if_splits)
  moreover note matching_proof_Inr [OF m(1)] managed_scope_active_False [OF g] snapshot_lock_Inr(2) [OF c]
    quiet_run [OF quiet_validate_current_paths v]
  ultimately obtain ts where ts: "gr_clock s2 < ts" "ts < gr_clock s3" "scope_proved E ts ?paths p (lp_scope m)"
    and v: "paths_valid E managed lease (gr_clock s)" and o: "ownership_proved E (gr_clock s2) ?paths (np_lock p) m"
    and g: "scope_gone E (gr_clock s3) (lp_scope m)"
    and c: "gr_clock s \<le> gr_clock s2" "Suc (gr_clock s3) < gr_clock s'"
    using l m(2) by auto
  show ?thesis unfolding revalidated_def
    using l m(2) v by (intro conjI exI [of _ m] exI [of _ "gr_clock s2"] exI [of _ ts] exI [of _ "gr_clock s3"] c ts o g) auto
qed

lemma traced_atomic_move_lock:
  assumes "\<And>t. gr_clock s < t \<Longrightarrow> file_is E (t - 1) source l \<Longrightarrow> P t (Renamed source target)"
  shows "traced s (atomic_move_lock E source target l) P"
proof -
  have move: "P (gr_clock s2) (Renamed source target)"
    if "run_state (snapshot_lock E source) s1 = (Inr l, s2)" "gr_clock s \<le> gr_clock s1" for s1 s2
    using snapshot_lock_Inr(2,3) [OF that(1)] that(2) by (intro assms) simp_all
  show ?thesis unfolding atomic_move_lock_def
    by (auto intro!: traced_rules split: option.split sum.split if_splits) (rule move, assumption, linarith)
qed

lemma traced_record_receipt [traced_rules]:
  "(\<And>t r data. P t (Appended quarantined_event data r)) \<Longrightarrow> traced s (record_receipt E paths audit i l) P"
  unfolding record_receipt_def Let_def by (intro traced_rules)

definition no_rename :: "nat \<Rightarrow> git_effect \<Rightarrow> bool" where
  "no_rename t e \<longleftrightarrow> (case e of Renamed _ _ \<Rightarrow> False | _ \<Rightarrow> True)"

lemma no_rename_simps [simp]:
  "no_rename t (Appended ty data r)" "no_rename t (MadeDirectory p)" "\<not> no_rename t (Renamed a b)"
  "no_rename t (Locked p)" "no_rename t (Released p)" "no_rename t (WroteLease p j)"
  by (simp_all add: no_rename_def)

lemma traced_ensure_safe_lease_directory [traced_rules]:
  "(\<And>t. P t (MadeDirectory p)) \<Longrightarrow> traced s (ensure_safe_lease_directory E p) P"
  unfolding ensure_safe_lease_directory_def create_lease_directory_def
  by (auto intro!: traced_rules split: sum.split io_kind.split if_splits)

text \<open>The effects of a quarantine, when \<open>Q\<close> holds of every effect but a move.\<close>

lemma traced_quarantine_proven_lock:
  assumes "\<And>t e. no_rename t e \<Longrightarrow> Q t e"
    and "\<And>t. quarantine_justified E managed lease t (mp_index_lock_file (gl_paths lease))
        (quarantine_path E (gl_paths lease) (lp_event_id lp))
      \<Longrightarrow> Q t (Renamed (mp_index_lock_file (gl_paths lease)) (quarantine_path E (gl_paths lease) (lp_event_id lp)))"
  shows "traced s (quarantine_proven_lock E managed lease lp) Q"
proof -
  let ?paths = "gl_paths lease"
  let ?p = "mp_index_lock_file ?paths" and ?target = "quarantine_path E ?paths (lp_event_id lp)"
  have move: "traced s3 (quarantine_move E ?p ?target (np_lock (lp_proof lp))) Q"
    if i: "run_state (append_audit_once E quarantine_intent_event (audit_to_json (intent_of E ?paths lp)) ?p) s1 = (Inr i, s2)"
    and r: "run_state (revalidate_before_quarantine E managed lease (lp_proof lp)) s2 = (Inr u, s3)" for s1 s2 s3 i u
  proof -
    from append_audit_once_Inr [OF i] obtain ti where ti: "ti < gr_clock s2"
      "event_recorded E ti quarantine_intent_event i (audit_to_json (intent_of E ?paths lp))" by blast
    have "quarantine_justified E managed lease t ?p ?target"
      if t: "gr_clock s3 < t" "file_is E (t - 1) ?p (np_lock (lp_proof lp))" for t
      unfolding quarantine_justified_def using ti revalidate_Inr [OF r] t by blast
    then show ?thesis unfolding quarantine_move_def
      by (intro traced_or_fail traced_atomic_move_lock assms(2))
  qed
  show ?thesis unfolding quarantine_proven_lock_def Let_def
    by (auto simp: intent_of_def run_Inr intro!: traced_rules assms(1) move [unfolded intent_of_def])
qed

section \<open>The reconciliation\<close>

lemma traced_complete_interrupted [traced_rules]: "traced s (complete_interrupted_quarantine E paths i audit) no_rename"
  unfolding complete_interrupted_quarantine_def Let_def by (auto intro!: traced_rules)

lemma traced_verify_quarantine_receipt [traced_rules]: "traced s (verify_quarantine_receipt E paths i audit) P"
  unfolding verify_quarantine_receipt_def Let_def by (auto intro!: traced_rules split: sum.split)

lemma traced_reconcile_absent_lock: "traced s (reconcile_absent_lock E paths) no_rename"
  unfolding reconcile_absent_lock_def Let_def
  by (auto intro!: traced_rules split: sum.split option.split)

definition rename_justified :: "git_env \<Rightarrow> path \<Rightarrow> git_mutation_lease \<Rightarrow> nat \<Rightarrow> git_effect \<Rightarrow> bool" where
  "rename_justified E managed lease t e \<longleftrightarrow>
     (case e of Renamed source target \<Rightarrow> quarantine_justified E managed lease t source target | _ \<Rightarrow> True)"

lemma no_rename_justified: "no_rename t e \<Longrightarrow> rename_justified E managed lease t e"
  by (cases e) (simp_all add: rename_justified_def)

lemma traced_reconcile_present_lock: "traced s (reconcile_present_lock E managed lease) (rename_justified E managed lease)"
proof -
  have "traced s1 (quarantine_proven_lock E managed lease lp) (rename_justified E managed lease)" for s1 lp
    by (rule traced_quarantine_proven_lock) (auto intro: no_rename_justified, simp add: rename_justified_def)
  then show ?thesis unfolding reconcile_present_lock_def Let_def
    by (auto intro!: traced_rules split: option.split)
qed

lemma traced_reconcile_once: "traced s (reconcile_once E managed lease) (rename_justified E managed lease)"
proof -
  have "traced s1 (reconcile_absent_lock E (gl_paths lease)) (rename_justified E managed lease)" for s1
    by (rule traced_mono [OF traced_reconcile_absent_lock]) (rule no_rename_justified)
  then show ?thesis unfolding reconcile_once_def Let_def
    by (auto intro!: traced_rules traced_reconcile_present_lock split: sum.split io_kind.split)
qed

lemma traced_reconcile_round: "traced s (reconcile_round E managed lease deadline) (rename_justified E managed lease)"
  unfolding reconcile_round_def
  by (auto intro!: traced_rules traced_reconcile_once split: sum.split native_lock_recovery_verdict.split)

text \<open>Induction over the rounds of a loop that ends.\<close>

lemma reconcile_loop_rounds:
  assumes "reconcile_loop E managed lease deadline s = Some y"
    and stop: "\<And>s v s'. run_state (reconcile_round E managed lease deadline) s = ((False, v), s') \<Longrightarrow> P s (v, s')"
    and again: "\<And>s v s1 y. run_state (reconcile_round E managed lease deadline) s = ((True, v), s1) \<Longrightarrow> P s1 y \<Longrightarrow> P s y"
  shows "P s y"
proof -
  have "(E', m', l', d') = (E, managed, lease, deadline) \<longrightarrow> P s y"
    if "reconcile_loop E' m' l' d' s = Some y" for E' m' l' d'
    using that
  proof (rule reconcile_loop.raw_induct [rotated], intro impI)
    fix loop E' m' l' d' s y
    assume ih: "\<And>E' m' l' d' s y. loop E' m' l' d' s = Some y \<Longrightarrow> (E', m', l', d') = (E, managed, lease, deadline) \<longrightarrow> P s y"
      and body: "(case run_state (reconcile_round E' m' l' d') s of
        ((again, v), s') \<Rightarrow> if again then loop E' m' l' d' s' else Some (v, s')) = Some y"
      and eq: "(E', m', l', d') = (E, managed, lease, deadline)"
    obtain b v s' where r: "run_state (reconcile_round E managed lease deadline) s = ((b, v), s')"
      by (metis prod.exhaust)
    show "P s y"
      using r body eq ih [of E managed lease deadline s' y] stop [of s v s'] again [of s v s' y]
      by (cases b) auto
  qed
  with assms(1) show ?thesis by blast
qed

definition renames_justified :: "git_env \<Rightarrow> path \<Rightarrow> git_mutation_lease \<Rightarrow> git_run \<Rightarrow> git_run \<Rightarrow> bool" where
  "renames_justified E managed lease s s' \<longleftrightarrow>
     (\<exists>new. gr_trace s' = gr_trace s @ new \<and> gr_clock s \<le> gr_clock s'
        \<and> (\<forall>(t, e) \<in> set new. gr_clock s \<le> t \<and> t < gr_clock s' \<and> rename_justified E managed lease t e))"

lemma renames_justified_trans:
  assumes "renames_justified E managed lease a b" "renames_justified E managed lease b c"
  shows "renames_justified E managed lease a c"
proof -
  from assms obtain x y where x: "gr_trace b = gr_trace a @ x" "gr_clock a \<le> gr_clock b"
      "\<forall>(t, e) \<in> set x. gr_clock a \<le> t \<and> t < gr_clock b \<and> rename_justified E managed lease t e"
    and y: "gr_trace c = gr_trace b @ y" "gr_clock b \<le> gr_clock c"
      "\<forall>(t, e) \<in> set y. gr_clock b \<le> t \<and> t < gr_clock c \<and> rename_justified E managed lease t e"
    by (auto simp: renames_justified_def)
  show ?thesis unfolding renames_justified_def
    by (rule exI [of _ "x @ y"]) (use x y in \<open>fastforce\<close>)
qed

lemma reconcile_loop_justified:
  assumes "reconcile_loop E managed lease deadline s = Some y"
  shows "renames_justified E managed lease s (snd y)"
  using assms
proof (rule reconcile_loop_rounds)
  show one: "renames_justified E managed lease s (snd (v, s'))"
    if "run_state (reconcile_round E managed lease deadline) s = ((False, v), s')" for s v s'
    using traced_reconcile_round [of s E managed lease deadline] that
    by (simp add: traced_def renames_justified_def)
  show "renames_justified E managed lease s (snd y)"
    if "run_state (reconcile_round E managed lease deadline) s = ((True, v), s1)"
      "renames_justified E managed lease s1 (snd y)" for s v s1 y
    using traced_reconcile_round [of s E managed lease deadline] that
    by (intro renames_justified_trans [OF _ that(2)]) (simp add: traced_def renames_justified_def)
qed

end
