(* ===== verification/Git_Lock_Receipts.thy ===== *)
theory Git_Lock_Receipts
  imports Git_Lock_Safety
begin

text \<open>
  What stands behind a verdict of recovery, however it is reached: a fresh quarantine, the receipt of
  an earlier one, or the completion of one that was interrupted.
\<close>

lemma run_case_verdict:
  "run_state (case v of Busy p owners reason \<Rightarrow> f p owners reason | _ \<Rightarrow> m) s = y
     \<longleftrightarrow> (\<exists>p owners reason. v = Busy p owners reason \<and> run_state (f p owners reason) s = y)
       \<or> ((\<forall>p owners reason. v \<noteq> Busy p owners reason) \<and> run_state m s = y)"
  by (cases v) auto

section \<open>Verdicts of errors\<close>

fun unrecovered :: "native_lock_recovery_verdict \<Rightarrow> bool" where
  "unrecovered (Recovered _) = False"
| "unrecovered _ = True"

definition fails_unrecovered :: "(native_lock_recovery_verdict + 'a) act \<Rightarrow> bool" where
  "fails_unrecovered m \<longleftrightarrow> (\<forall>s v. fst (run_state m s) = Inl v \<longrightarrow> unrecovered v)"

named_theorems unrecovered_rules \<open>errors that are no recovery\<close>

lemma unrecovered_give [unrecovered_rules]:
  "fails_unrecovered (give (Inr x))" "unrecovered v \<Longrightarrow> fails_unrecovered (give (Inl v))"
  by (simp_all add: fails_unrecovered_def)

lemma unrecovered_try_do [unrecovered_rules]:
  assumes "fails_unrecovered m" "\<And>x. fails_unrecovered (f x)"
  shows "fails_unrecovered (try_do m f)"
  unfolding fails_unrecovered_def
proof (intro allI impI)
  fix s v
  assume v: "fst (run_state (try_do m f) s) = Inl v"
  obtain r s1 where r: "run_state m s = (r, s1)" by fastforce
  show "unrecovered v"
    using assms(1) [unfolded fails_unrecovered_def, rule_format, of s] assms(2) [unfolded fails_unrecovered_def, rule_format]
      v r by (cases r) (fastforce simp: run_try_do)+
qed

lemma unrecovered_bind [unrecovered_rules]: "(\<And>x. fails_unrecovered (f x)) \<Longrightarrow> fails_unrecovered (m \<bind> f)"
  by (auto simp: fails_unrecovered_def run_state_bind split: prod.split)

lemma unrecovered_or_fail [unrecovered_rules]: "(\<And>e. unrecovered (f e)) \<Longrightarrow> fails_unrecovered (or_fail m f)"
  by (auto simp: fails_unrecovered_def or_fail_def map_err_def run_state_bind split: prod.split sum.splits)

lemma unrecovered_cases [unrecovered_rules]:
  "(\<And>a. fails_unrecovered (f a)) \<Longrightarrow> (\<And>b. fails_unrecovered (g b)) \<Longrightarrow> fails_unrecovered (case q of Inl a \<Rightarrow> f a | Inr b \<Rightarrow> g b)"
  "fails_unrecovered h \<Longrightarrow> (\<And>b. fails_unrecovered (k b)) \<Longrightarrow> fails_unrecovered (case z of None \<Rightarrow> h | Some b \<Rightarrow> k b)"
  "fails_unrecovered m \<Longrightarrow> fails_unrecovered m' \<Longrightarrow> fails_unrecovered (if c then m else m')"
  by (cases q; simp) (cases z; simp)+

lemma unrecovered_steps [unrecovered_rules]:
  "fails_unrecovered (quarantine_move E a b l)" "fails_unrecovered (recheck_lock_gone E p)"
  "fails_unrecovered (snapshot_quarantined E p l reason)" "fails_unrecovered (verify_quarantined_owner E sc p)"
  "fails_unrecovered (verify_proof_event E i expected p)" "fails_unrecovered (record_receipt E paths audit i l)"
  unfolding quarantine_move_def recheck_lock_gone_def snapshot_quarantined_def verify_quarantined_owner_def
    verify_proof_event_def record_receipt_def Let_def
  by (auto intro!: unrecovered_rules split: sum.split io_kind.split list.split option.split bool.split)

lemma verdict_of_Recovered:
  assumes "run_state (verdict_of m) s = (Recovered r, s')" "fails_unrecovered m"
  shows "run_state m s = (Inr (Recovered r), s')"
proof -
  from assms(1) obtain q where q: "run_state m s = (q, s')" "(case q of Inl v \<Rightarrow> v | Inr v \<Rightarrow> v) = Recovered r"
    by (auto simp: verdict_of_def run_bind_iff)
  then show ?thesis using assms(2) [unfolded fails_unrecovered_def, rule_format, of s "Recovered r"]
    by (cases q) auto
qed

section \<open>The evidence of a recovery\<close>

definition is_intent :: "json \<Rightarrow> quarantine_audit_data \<Rightarrow> bool" where
  "is_intent data a \<longleftrightarrow> data = audit_to_json a \<or> audit_from_json data = Some a"

definition is_receipt :: "json \<Rightarrow> quarantine_receipt_data \<Rightarrow> bool" where
  "is_receipt data a \<longleftrightarrow> data = receipt_to_json a \<or> receipt_from_json data = Some a"

text \<open>The ownership event of a proof is in the ledger.\<close>

definition proof_found :: "git_env \<Rightarrow> nat \<Rightarrow> string \<Rightarrow> managed_native_lock_proof \<Rightarrow> bool" where
  "proof_found E t i p \<longleftrightarrow> (\<exists>rs e. ledger_read E t [lock_held_event] = Inr rs \<and> e \<in> set rs
     \<and> gre_event_id e = i \<and> proof_from_json (gre_data e) = Some p)"

definition intent_found :: "git_env \<Rightarrow> nat \<Rightarrow> git_lock_recovery_receipt \<Rightarrow> managed_native_lock_proof \<Rightarrow> bool" where
  "intent_found E t r p \<longleftrightarrow> (\<exists>data a. event_recorded E t quarantine_intent_event (rr_intent_event_id r) data \<and> is_intent data a
     \<and> qa_proof a = p \<and> qa_proof_event_id a = rr_proof_event_id r \<and> qa_quarantine_file a = rr_quarantine_file r)"

definition receipt_found ::
  "git_env \<Rightarrow> nat \<Rightarrow> git_lock_recovery_receipt \<Rightarrow> managed_native_lock_proof \<Rightarrow> native_git_lock_snapshot \<Rightarrow> bool" where
  "receipt_found E t r p l \<longleftrightarrow> (\<exists>data a. event_recorded E t quarantined_event (rr_receipt_event_id r) data \<and> is_receipt data a
     \<and> qr_proof a = p \<and> qr_proof_event_id a = rr_proof_event_id r \<and> qr_intent_event_id a = rr_intent_event_id r
     \<and> qr_quarantine_file a = rr_quarantine_file r \<and> qr_quarantined_lock a = l)"

text \<open>The owner of the proof is gone, at some moment between \<open>a\<close> and \<open>b\<close>.\<close>

definition owner_gone :: "git_env \<Rightarrow> git_mutation_paths \<Rightarrow> managed_native_lock_proof \<Rightarrow> nat \<Rightarrow> nat \<Rightarrow> bool" where
  "owner_gone E paths p a b \<longleftrightarrow>
     (\<exists>sc ts tg. scope_proved E ts paths p sc \<and> scope_gone E tg sc \<and> a \<le> ts \<and> ts < tg \<and> tg < b)"

definition recovery_evidence ::
  "git_env \<Rightarrow> git_mutation_paths \<Rightarrow> git_lock_recovery_receipt \<Rightarrow> nat \<Rightarrow> nat \<Rightarrow> bool" where
  "recovery_evidence E paths r a b \<longleftrightarrow>
     (\<exists>p l tp ti tr tf tz. {tp, ti, tr, tf, tz} \<subseteq> {a..<b}
        \<and> rr_lock r = np_lock p \<and> proof_matches_paths E p paths
        \<and> rr_quarantine_file r = path_str (quarantine_path E paths (rr_proof_event_id r))
        \<and> proof_found E tp (rr_proof_event_id r) p \<and> intent_found E ti r p \<and> receipt_found E tr r p l
        \<and> file_is E tf (quarantine_path E paths (rr_proof_event_id r)) l \<and> same_quarantined_inode (np_lock p) l
        \<and> gw_symlink_metadata (ge_worlds E tz) (mp_index_lock_file paths) = Inl NotFound
        \<and> owner_gone E paths p a b)"

lemma recovery_evidence_mono:
  "recovery_evidence E paths r a b \<Longrightarrow> a' \<le> a \<Longrightarrow> b \<le> b' \<Longrightarrow> recovery_evidence E paths r a' b'"
  unfolding recovery_evidence_def owner_gone_def
  by (elim exE conjE, intro exI conjI, assumption?) (auto 0 3 intro: order_trans less_le_trans)

section \<open>The steps of a recovery\<close>

lemma append_audit_once_clock: "run_state (append_audit_once E ty data p) s = (r, s') \<Longrightarrow> gr_clock s \<le> gr_clock s'"
  by (rule tracedE [OF traced_append_audit_once [of "\<lambda>t e. True"]]) auto

lemma record_receipt_Recovered:
  assumes "run_state (record_receipt E paths audit i l) s = (Inr (Recovered r), s')"
  shows "rr_proof_event_id r = qa_proof_event_id audit" "rr_intent_event_id r = i"
    "rr_quarantine_file r = qa_quarantine_file audit" "rr_lock r = np_lock (qa_proof audit)"
    "\<exists>t. gr_clock s \<le> t \<and> t < gr_clock s' \<and> receipt_found E t r (qa_proof audit) l"
proof -
  let ?rec = "\<lparr> qr_schema_version = 1, qr_proof_event_id = qa_proof_event_id audit,
      qr_intent_event_id = i, qr_proof = qa_proof audit,
      qr_quarantine_file = qa_quarantine_file audit, qr_quarantined_lock = l \<rparr>"
  from assms obtain e where e: "run_state (append_audit_once E quarantined_event (receipt_to_json ?rec) (mp_index_lock_file paths)) s = (Inr e, s')"
    and r: "r = recovery_result e ?rec"
    by (auto simp: record_receipt_def Let_def run_Inr)
  from r show "rr_proof_event_id r = qa_proof_event_id audit" "rr_intent_event_id r = i"
    "rr_quarantine_file r = qa_quarantine_file audit" "rr_lock r = np_lock (qa_proof audit)"
    by (simp_all add: recovery_result_def)
  from append_audit_once_Inr [OF e] obtain t where t: "gr_clock s \<le> t" "t < gr_clock s'"
    "event_recorded E t quarantined_event e (receipt_to_json ?rec)" by blast
  then have "receipt_found E t r (qa_proof audit) l" unfolding receipt_found_def
    by (intro exI [of _ "receipt_to_json ?rec"] exI [of _ ?rec]) (simp add: r recovery_result_def is_receipt_def)
  with t show "\<exists>t. gr_clock s \<le> t \<and> t < gr_clock s' \<and> receipt_found E t r (qa_proof audit) l" by blast
qed

lemma recheck_lock_gone_Inr:
  "run_state (recheck_lock_gone E p) s = (Inr u, s')
     \<Longrightarrow> gw_symlink_metadata (ge_worlds E (gr_clock s)) p = Inl NotFound \<and> gr_clock s' = Suc (gr_clock s)"
  by (auto simp: recheck_lock_gone_def run_Inr split: sum.splits io_kind.splits)

lemma snapshot_quarantined_Inr:
  assumes "run_state (snapshot_quarantined E p l reason) s = (Inr l', s')"
  shows "file_is E (gr_clock s) p l'" "same_quarantined_inode l l'" "gr_clock s < gr_clock s'"
proof -
  from assms obtain q where q: "run_state (snapshot_lock E p) s = (q, s')"
    "(case q of Inl e \<Rightarrow> Inl (Uncertain p (mutation_error_str e))
       | Inr snapshot \<Rightarrow> if same_quarantined_inode l snapshot then Inr snapshot else Inl (Uncertain p reason)) = Inr l'"
    by (auto simp: snapshot_quarantined_def run_Inr)
  from q(2) have "q = Inr l' \<and> same_quarantined_inode l l'" by (auto simp: case_sum_eq split: if_splits)
  with q(1) have "run_state (snapshot_lock E p) s = (Inr l', s')" "same_quarantined_inode l l'" by simp_all
  with snapshot_lock_Inr(1,2) [of E p s l' s'] show "file_is E (gr_clock s) p l'" "same_quarantined_inode l l'" "gr_clock s < gr_clock s'"
    by auto
qed

lemma verify_quarantined_owner_Inr:
  assumes "run_state (verify_quarantined_owner E sc p) s = (Inr u, s')"
  shows "scope_gone E (gr_clock s) sc" "gr_clock s < gr_clock s'"
proof -
  from assms obtain q where q: "run_state (managed_scope_active E sc) s = (q, s')"
    "(case q of Inr False \<Rightarrow> Inr () | Inr True \<Rightarrow> Inl (Busy p [ps_owner sc] still_active)
       | Inl reason \<Rightarrow> Inl (Uncertain p reason)) = Inr u"
    unfolding verify_quarantined_owner_def run_bind_iff by auto
  from q(2) have "q = Inr False" by (cases q) (auto split: bool.splits)
  with q(1) have "run_state (managed_scope_active E sc) s = (Inr False, s')" by simp
  from managed_scope_active_False [OF this] show "scope_gone E (gr_clock s) sc" "gr_clock s < gr_clock s'" by auto
qed

lemma verify_proof_event_Inr:
  assumes "run_state (verify_proof_event E i p q) s = (Inr u, s')"
  shows "proof_found E (gr_clock s) i p" "gr_clock s' = Suc (gr_clock s)"
proof -
  from assms obtain rs m where rs: "ledger_read E (gr_clock s) [lock_held_event] = Inr rs"
    "filter (\<lambda>r. gre_event_id r = i) rs = [m]" "proof_from_json (gre_data m) = Some p"
    and c: "s' = s \<lparr> gr_clock := Suc (gr_clock s) \<rparr>"
    by (auto simp: verify_proof_event_def run_Inr run_read_events split: sum.splits list.splits option.splits if_splits)
  have "m \<in> set (filter (\<lambda>r. gre_event_id r = i) rs)" by (simp add: rs(2))
  then have "m \<in> set rs" "gre_event_id m = i" by simp_all
  with rs show "proof_found E (gr_clock s) i p" by (auto simp: proof_found_def)
  from c show "gr_clock s' = Suc (gr_clock s)" by simp
qed

lemma ownership_proof_found: "ownership_proved E t paths l lp \<Longrightarrow> proof_found E t (lp_event_id lp) (lp_proof lp)"
proof -
  assume "ownership_proved E t paths l lp"
  then obtain rs r where "ledger_read E t [lock_held_event] = Inr rs" "filter (claims_lock E paths l) rs = [r]"
    "gre_event_id r = lp_event_id lp" "proof_from_json (gre_data r) = Some (lp_proof lp)"
    by (auto simp: ownership_proved_def)
  moreover from this(2) have "r \<in> set rs" by (metis filter_eq_ConsD in_set_conv_decomp)
  ultimately show ?thesis by (auto simp: proof_found_def)
qed

section \<open>The three ways to a recovery\<close>

lemma complete_interrupted_Recovered:
  assumes "run_state (complete_interrupted_quarantine E paths i audit) s = (Recovered r, s')"
    and "proof_matches_paths E (qa_proof audit) paths"
    and "event_recorded E ti quarantine_intent_event i data" "is_intent data audit" "a \<le> ti" "ti < gr_clock s"
    and "gw_symlink_metadata (ge_worlds E tz) (mp_index_lock_file paths) = Inl NotFound" "a \<le> tz" "tz < gr_clock s"
  shows "recovery_evidence E paths r a (gr_clock s')"
proof -
  let ?q = "quarantine_path E paths (qa_proof_event_id audit)" and ?p = "qa_proof audit"
  have f: "qa_quarantine_file audit = path_str ?q"
    using assms(1) by (auto simp: complete_interrupted_quarantine_def Let_def split: if_splits)
  from assms(1) f obtain s1 s2 s3 s4 l sc u where
    v: "run_state (verify_proof_event E (qa_proof_event_id audit) ?p (mp_index_lock_file paths)) s = (Inr u, s1)"
    and q: "run_state (snapshot_quarantined E ?q (np_lock ?p) ''interrupted quarantine target differs from its proof'') s1 = (Inr l, s2)"
    and m: "run_state (matching_process_scope E paths ?p) s2 = (Inr sc, s3)"
    and o: "run_state (verify_quarantined_owner E sc ?q) s3 = (Inr u, s4)"
    and k: "run_state (record_receipt E paths audit i l) s4 = (Inr (Recovered r), s')"
    by (auto simp: complete_interrupted_quarantine_def Let_def run_Inr unrecovered_rules dest!: verdict_of_Recovered)
  note v = verify_proof_event_Inr [OF v] and q = snapshot_quarantined_Inr [OF q] and m = matching_process_scope_Inr [OF m]
    and o = verify_quarantined_owner_Inr [OF o] and k = record_receipt_Recovered [OF k]
  from k(5) obtain tr where tr: "gr_clock s4 \<le> tr" "tr < gr_clock s'" "receipt_found E tr r ?p l" by blast
  have "intent_found E ti r ?p" using assms(3,4) k by (auto simp: intent_found_def)
  moreover have "owner_gone E paths ?p a (gr_clock s')" unfolding owner_gone_def
    using m o v q tr assms(5,6) by (intro exI [of _ sc] exI [of _ "gr_clock s2"] exI [of _ "gr_clock s3"]) auto
  ultimately show ?thesis unfolding recovery_evidence_def
    using v q m o tr f k assms(2,5-9)
    by (intro exI [of _ ?p] exI [of _ l] exI [of _ "gr_clock s"] exI [of _ ti] exI [of _ tr] exI [of _ "gr_clock s1"] exI [of _ tz])
      auto
qed

lemma verify_quarantine_receipt_Recovered:
  assumes "run_state (verify_quarantine_receipt E paths e audit) s = (Recovered r, s')"
    and "proof_matches_paths E (qr_proof audit) paths"
    and "event_recorded E tr quarantined_event e data" "is_receipt data audit" "a \<le> tr" "tr < gr_clock s"
    and "gw_symlink_metadata (ge_worlds E tz) (mp_index_lock_file paths) = Inl NotFound" "a \<le> tz" "tz < gr_clock s"
  shows "recovery_evidence E paths r a (gr_clock s')"
proof -
  let ?q = "quarantine_path E paths (qr_proof_event_id audit)" and ?p = "qr_proof audit"
  let ?intent = "\<lparr> qa_schema_version = 1, qa_proof_event_id = qr_proof_event_id audit, qa_proof = ?p,
            qa_quarantine_file = qr_quarantine_file audit \<rparr>"
  have f: "qr_quarantine_file audit = path_str ?q"
    using assms(1) by (auto simp: verify_quarantine_receipt_def Let_def split: if_splits)
  from assms(1) f obtain s1 s2 s3 s4 l sc u where
    v: "run_state (verify_proof_event E (qr_proof_event_id audit) ?p (mp_index_lock_file paths)) s = (Inr u, s1)"
    and i: "run_state (find_audit_event E quarantine_intent_event (audit_to_json ?intent) (mp_index_lock_file paths)) s1
        = (Inr (Some (qr_intent_event_id audit)), s2)"
    and q: "run_state (snapshot_lock E ?q) s2 = (Inr l, s3)" "l = qr_quarantined_lock audit" "same_quarantined_inode (np_lock ?p) l"
    and m: "run_state (matching_process_scope E paths ?p) s3 = (Inr sc, s4)"
    and o: "run_state (verify_quarantined_owner E sc ?q) s4 = (Inr u, s')"
    and r: "r = recovery_result e audit"
    by (auto simp: verify_quarantine_receipt_def Let_def run_Inr run_case_sum
        intro!: unrecovered_rules dest!: verdict_of_Recovered split: if_splits)
  note v = verify_proof_event_Inr [OF v] and i = find_audit_event_Inr [OF i] and m = matching_process_scope_Inr [OF m]
    and o = verify_quarantined_owner_Inr [OF o] and s = snapshot_lock_Inr(1,2) [OF q(1)]
  have "intent_found E (gr_clock s1) r ?p" unfolding intent_found_def
    by (intro exI [of _ "audit_to_json ?intent"] exI [of _ ?intent])
      (use i in \<open>simp add: event_recorded_def is_intent_def r recovery_result_def\<close>)
  moreover have "receipt_found E tr r ?p l" using assms(3,4) q by (auto simp: receipt_found_def r recovery_result_def)
  moreover have "owner_gone E paths ?p a (gr_clock s')" unfolding owner_gone_def
    using m o v i s assms(5,6) by (intro exI [of _ sc] exI [of _ "gr_clock s3"] exI [of _ "gr_clock s4"]) auto
  ultimately show ?thesis unfolding recovery_evidence_def
    using v i s m o f q assms(2,5-9)
    by (intro exI [of _ ?p] exI [of _ l] exI [of _ "gr_clock s"] exI [of _ "gr_clock s1"] exI [of _ tr] exI [of _ "gr_clock s2"] exI [of _ tz])
      (auto simp: r recovery_result_def)
qed

lemma quarantine_proven_lock_Recovered:
  assumes "run_state (quarantine_proven_lock E managed lease lp) s = (Recovered r, s')"
    and "ownership_proved E tp (gl_paths lease) l lp" "a \<le> tp" "tp < gr_clock s"
    and "scope_proved E ts (gl_paths lease) (lp_proof lp) (lp_scope lp)" "a \<le> ts" "ts < gr_clock s"
  shows "recovery_evidence E (gl_paths lease) r a (gr_clock s')"
proof -
  let ?paths = "gl_paths lease" and ?p = "lp_proof lp"
  let ?q = "quarantine_path E ?paths (lp_event_id lp)" and ?lock = "mp_index_lock_file ?paths"
  have "run_state (try_do (or_fail (ensure_safe_lease_directory E (quarantine_dir ?paths)) (\<lambda>e. Uncertain (quarantine_dir ?paths) (mutation_error_str e))) (\<lambda>_.
      try_do (or_fail (check_quarantine_capacity E (quarantine_dir ?paths) ?q) (Uncertain (quarantine_dir ?paths))) (\<lambda>_.
      try_do (or_fail (append_audit_once E quarantine_intent_event (audit_to_json (intent_of E ?paths lp)) ?lock) (Uncertain ?lock)) (\<lambda>i.
      try_do (or_fail (revalidate_before_quarantine E managed lease ?p) (Uncertain ?lock)) (\<lambda>_.
      try_do (quarantine_move E ?lock ?q (np_lock ?p)) (\<lambda>_.
      try_do (recheck_lock_gone E ?lock) (\<lambda>_.
      try_do (snapshot_quarantined E ?q (np_lock ?p) ''quarantined lock changed during atomic move'') (\<lambda>ql.
      try_do (verify_quarantined_owner E (lp_scope lp) ?q) (\<lambda>_.
        record_receipt E ?paths (intent_of E ?paths lp) i ql)))))))))
      s = (Inr (Recovered r), s')"
    using assms(1) by (auto simp: quarantine_proven_lock_def Let_def intent_of_def intro!: unrecovered_rules dest!: verdict_of_Recovered)
  then obtain s1 s2 s3 s4 s5 s6 s7 s8 i ql u1 u2 u3 u4 u5 u6 where
    d: "run_state (ensure_safe_lease_directory E (quarantine_dir ?paths)) s = (Inr u1, s1)"
    and c: "run_state (check_quarantine_capacity E (quarantine_dir ?paths) ?q) s1 = (Inr u2, s2)"
    and i: "run_state (append_audit_once E quarantine_intent_event (audit_to_json (intent_of E ?paths lp)) ?lock) s2 = (Inr i, s3)"
    and v: "run_state (revalidate_before_quarantine E managed lease ?p) s3 = (Inr u3, s4)"
    and m: "run_state (quarantine_move E ?lock ?q (np_lock ?p)) s4 = (Inr u4, s5)"
    and g: "run_state (recheck_lock_gone E ?lock) s5 = (Inr u5, s6)"
    and q: "run_state (snapshot_quarantined E ?q (np_lock ?p) ''quarantined lock changed during atomic move'') s6 = (Inr ql, s7)"
    and o: "run_state (verify_quarantined_owner E (lp_scope lp) ?q) s7 = (Inr u6, s8)"
    and k: "run_state (record_receipt E ?paths (intent_of E ?paths lp) i ql) s8 = (Inr (Recovered r), s')"
    unfolding run_try_do_Inr run_or_fail_Inr by blast
  have "gr_clock s \<le> gr_clock s1" "gr_clock s1 \<le> gr_clock s2" "gr_clock s3 \<le> gr_clock s4" "gr_clock s4 \<le> gr_clock s5"
  proof -
    show "gr_clock s \<le> gr_clock s1"
      by (rule tracedE [OF traced_ensure_safe_lease_directory [of "\<lambda>t e. True"] d]) auto
    show "gr_clock s1 \<le> gr_clock s2" using quiet_run [OF quiet_verification(6) c] by simp
    show "gr_clock s3 \<le> gr_clock s4" using quiet_run [OF quiet_revalidate v] by simp
    from m have "run_state (atomic_move_lock E ?lock ?q (np_lock ?p)) s4 = (Inr u4, s5)"
      by (simp add: quarantine_move_def run_Inr)
    then show "gr_clock s4 \<le> gr_clock s5"
      by (rule tracedE [OF traced_atomic_move_lock [where P = "\<lambda>t e. True"], rotated]) auto
  qed
  note c = this and g = recheck_lock_gone_Inr [OF g] and q = snapshot_quarantined_Inr [OF q]
    and o = verify_quarantined_owner_Inr [OF o] and k = record_receipt_Recovered [OF k, unfolded intent_of_def, simplified]
  from append_audit_once_Inr [OF i] obtain ti where t: "gr_clock s2 \<le> ti" "ti < gr_clock s3"
    and e: "event_recorded E ti quarantine_intent_event i (audit_to_json (intent_of E ?paths lp))" by blast
  from t c have "gr_clock s \<le> ti" "ti < gr_clock s5" "gr_clock s \<le> gr_clock s5" by linarith+
  note ti = this e
  from k(5) obtain tr where tr: "gr_clock s8 \<le> tr" "tr < gr_clock s'" "receipt_found E tr r ?p ql" by blast
  note s5 = ti(3)
  have "intent_found E ti r ?p" unfolding intent_found_def
    by (intro exI [of _ "audit_to_json (intent_of E ?paths lp)"] exI [of _ "intent_of E ?paths lp"])
      (use ti k in \<open>simp add: is_intent_def intent_of_def\<close>)
  moreover have "owner_gone E ?paths ?p a (gr_clock s')" unfolding owner_gone_def
    using assms(5-7) o q g tr s5 by (intro exI [of _ "lp_scope lp"] exI [of _ ts] exI [of _ "gr_clock s7"]) auto
  moreover have "proof_found E tp (lp_event_id lp) ?p" "proof_matches_paths E ?p ?paths"
    using ownership_proof_found [OF assms(2)] assms(2) by (simp_all add: ownership_proved_def)
  ultimately show ?thesis unfolding recovery_evidence_def
    using assms(3,4) k g q o tr ti s5
    by (intro exI [of _ ?p] exI [of _ ql] exI [of _ tp] exI [of _ ti] exI [of _ tr] exI [of _ "gr_clock s6"] exI [of _ "gr_clock s5"])
      auto
qed

section \<open>The reconciliation\<close>

lemma newest_matching_Some:
  assumes "newest_matching decode ok ty rs = Inr (Some (i, x))"
  shows "\<exists>r \<in> set rs. gre_event_type r = ty \<and> gre_event_id r = i \<and> decode (gre_data r) = Some x \<and> ok x"
  using assms by (induction decode ok ty rs rule: newest_matching.induct) (auto split: if_splits option.splits)

lemma newest_found:
  assumes "newest_matching decode ok ty (rev rs) = Inr (Some (i, x))" "ledger_read E t selected = Inr rs"
  obtains data where "event_recorded E t ty i data" "decode data = Some x" "ok x"
proof -
  from newest_matching_Some [OF assms(1)] obtain r where r: "r \<in> set rs" "gre_event_type r = ty" "gre_event_id r = i"
    "decode (gre_data r) = Some x" "ok x" by auto
  have "\<lparr> gre_event_id = i, gre_event_type = ty, gre_data = gre_data r \<rparr> = r" using r by auto
  then have "\<lparr> gre_event_id = i, gre_event_type = ty, gre_data = gre_data r \<rparr> \<in> set rs" using r(1) by simp
  with assms(2) have "event_recorded E t ty i (gre_data r)" by (auto simp: event_recorded_def event_found_def)
  then show thesis using r that by blast
qed

lemma reconcile_absent_lock_Recovered:
  assumes "run_state (reconcile_absent_lock E paths) s = (Recovered r, s')"
    and "gw_symlink_metadata (ge_worlds E tz) (mp_index_lock_file paths) = Inl NotFound" "a \<le> tz" "tz < gr_clock s"
  shows "recovery_evidence E paths r a (gr_clock s')"
proof -
  let ?s = "s \<lparr> gr_clock := Suc (gr_clock s) \<rparr>"
  let ?receipts = "newest_matching receipt_from_json (\<lambda>a. proof_matches_paths E (qr_proof a) paths) quarantined_event"
  let ?intents = "newest_matching audit_from_json (\<lambda>a. proof_matches_paths E (qa_proof a) paths) quarantine_intent_event"
  from assms(1) obtain rs where rs: "ledger_read E (gr_clock s) [quarantined_event, quarantine_intent_event] = Inr rs"
    by (auto simp: reconcile_absent_lock_def Let_def run_bind_iff run_read_events run_case_sum)
  with assms(1) consider
      (receipt) e audit where "?receipts (rev rs) = Inr (Some (e, audit))"
        "run_state (verify_quarantine_receipt E paths e audit) ?s = (Recovered r, s')"
    | (intent) e audit where "?intents (rev rs) = Inr (Some (e, audit))"
        "run_state (complete_interrupted_quarantine E paths e audit) ?s = (Recovered r, s')"
    by (auto simp: reconcile_absent_lock_def Let_def run_bind_iff run_read_events split: sum.splits option.splits)
  then show ?thesis
  proof cases
    case receipt
    from newest_found [OF receipt(1) rs] obtain data where d: "event_recorded E (gr_clock s) quarantined_event e data"
      "receipt_from_json data = Some audit" "proof_matches_paths E (qr_proof audit) paths" .
    show ?thesis
      by (rule verify_quarantine_receipt_Recovered [OF receipt(2) d(3,1)]) (use d(2) assms in \<open>auto simp: is_receipt_def\<close>)
  next
    case intent
    from newest_found [OF intent(1) rs] obtain data where d: "event_recorded E (gr_clock s) quarantine_intent_event e data"
      "audit_from_json data = Some audit" "proof_matches_paths E (qa_proof audit) paths" .
    show ?thesis
      by (rule complete_interrupted_Recovered [OF intent(2) d(3,1)]) (use d(2) assms in \<open>auto simp: is_intent_def\<close>)
  qed
qed

lemma reconcile_present_lock_Recovered:
  assumes "run_state (reconcile_present_lock E managed lease) s = (Recovered r, s')"
  shows "recovery_evidence E (gl_paths lease) r (gr_clock s) (gr_clock s')"
proof -
  let ?paths = "gl_paths lease" and ?lock = "mp_index_lock_file (gl_paths lease)"
  obtain q where q: "run_state (try_do (or_fail (snapshot_lock E ?lock) (\<lambda>e. Uncertain ?lock (mutation_error_str e))) (\<lambda>snapshot.
        try_do (or_fail (matching_proof E ?paths snapshot) (Uncertain ?lock)) (\<lambda>found.
          case found of
            None \<Rightarrow> give (Inl (Uncertain ?lock
              ''no durable managed-process proof matches this lock inode and Git path binding''))
          | Some lp \<Rightarrow>
              try_do (or_fail (managed_scope_active E (lp_scope lp)) (Uncertain ?lock)) (\<lambda>active.
                if active then give (Inl (Busy ?lock [np_owner (lp_proof lp)] still_active))
                else if ls_size snapshot \<noteq> 0
                then give (Inl (Uncertain ?lock
                  ''managed lock evidence is nonempty; automatic quarantine preserves its contents''))
                else do { v \<leftarrow> quarantine_proven_lock E managed lease lp; give (Inr v) })))) s = (Inr (Recovered r), s')"
    using assms by (auto simp: reconcile_present_lock_def Let_def intro!: unrecovered_rules dest!: verdict_of_Recovered)
  then obtain l lp s1 s2 s3 where l: "run_state (snapshot_lock E ?lock) s = (Inr l, s1)"
    and m: "run_state (matching_proof E ?paths l) s1 = (Inr (Some lp), s2)"
    and g: "run_state (managed_scope_active E (lp_scope lp)) s2 = (Inr False, s3)"
    and k: "run_state (quarantine_proven_lock E managed lease lp) s3 = (Recovered r, s')"
    by (auto simp: run_Inr split: option.splits if_splits)
  note l = snapshot_lock_Inr(2) [OF l] and g = managed_scope_active_False(2) [OF g]
  from matching_proof_Inr(2) [OF m] obtain ts where ts: "gr_clock s1 < ts" "ts < gr_clock s2"
    "scope_proved E ts ?paths (lp_proof lp) (lp_scope lp)" by blast
  show ?thesis
    by (rule quarantine_proven_lock_Recovered [OF k matching_proof_Inr(1) [OF m] _ _ ts(3)]) (use l g ts in auto)
qed

lemma reconcile_once_Recovered:
  assumes "run_state (reconcile_once E managed lease) s = (Recovered r, s')"
  shows "recovery_evidence E (gl_paths lease) r (gr_clock s) (gr_clock s')"
proof -
  let ?lock = "mp_index_lock_file (gl_paths lease)" and ?s = "s \<lparr> gr_clock := Suc (gr_clock s) \<rparr>"
  consider (present) "run_state (reconcile_present_lock E managed lease) ?s = (Recovered r, s')"
    | (absent) "run_state (reconcile_absent_lock E (gl_paths lease)) ?s = (Recovered r, s')"
        "gw_symlink_metadata (ge_worlds E (gr_clock s)) ?lock = Inl NotFound"
    using assms by (auto simp: reconcile_once_def Let_def run_bind_iff split: sum.splits io_kind.splits if_splits)
  then show ?thesis
  proof cases
    case present
    from reconcile_present_lock_Recovered [OF this] show ?thesis by (rule recovery_evidence_mono) auto
  next
    case absent
    from absent(1,2) show ?thesis by (rule reconcile_absent_lock_Recovered) auto
  qed
qed

lemma reconcile_round_Recovered:
  assumes "run_state (reconcile_round E managed lease deadline) s = ((b, Recovered r), s')"
  shows "recovery_evidence E (gl_paths lease) r (gr_clock s) (gr_clock s')"
proof -
  from assms obtain u s1 where v: "run_state (validate_current_paths E managed lease) s = (Inr u, s1)"
    and o: "run_state (reconcile_once E managed lease) s1 = (Recovered r, s')"
    by (auto simp: reconcile_round_def run_bind_iff run_case_sum run_case_verdict split: if_splits)
  from reconcile_once_Recovered [OF o] show ?thesis
    by (rule recovery_evidence_mono) (use quiet_run [OF quiet_validate_current_paths v] in auto)
qed

lemma reconcile_loop_Recovered:
  assumes "reconcile_loop E managed lease deadline s = Some y"
  shows "\<forall>r. fst y = Recovered r \<longrightarrow> recovery_evidence E (gl_paths lease) r (gr_clock s) (gr_clock (snd y))"
  using assms
proof (rule reconcile_loop_rounds)
  show "\<forall>r. fst (v, s') = Recovered r \<longrightarrow> recovery_evidence E (gl_paths lease) r (gr_clock s) (gr_clock (snd (v, s')))"
    if "run_state (reconcile_round E managed lease deadline) s = ((False, v), s')" for s v s'
    using reconcile_round_Recovered that by auto
  show "\<forall>r. fst y = Recovered r \<longrightarrow> recovery_evidence E (gl_paths lease) r (gr_clock s) (gr_clock (snd y))"
    if r: "run_state (reconcile_round E managed lease deadline) s = ((True, v), s1)"
    and ih: "\<forall>r. fst y = Recovered r \<longrightarrow> recovery_evidence E (gl_paths lease) r (gr_clock s1) (gr_clock (snd y))" for s v s1 y
  proof (intro allI impI)
    fix r assume "fst y = Recovered r"
    with ih have "recovery_evidence E (gl_paths lease) r (gr_clock s1) (gr_clock (snd y))" by blast
    moreover have "gr_clock s \<le> gr_clock s1" by (rule tracedE [OF traced_reconcile_round r])
    ultimately show "recovery_evidence E (gl_paths lease) r (gr_clock s) (gr_clock (snd y))"
      by (rule recovery_evidence_mono) simp
  qed
qed

end
