(* ===== verification/Git_Leases.thy ===== *)
theory Git_Leases
  imports Git_Lock_Evidence "HOL-Library.Multiset"
begin

text \<open>
  The discipline of the leases: in which order a set of leases is locked, what is held when the
  acquisition returns, and that waiting ends.
\<close>

section \<open>Locks in the trace\<close>

definition lock_event :: "git_effect \<Rightarrow> (bool \<times> path) option" where
  "lock_event e = (case e of Locked p \<Rightarrow> Some (True, p) | Released p \<Rightarrow> Some (False, p) | _ \<Rightarrow> None)"

definition lock_events :: "(nat \<times> git_effect) list \<Rightarrow> (bool \<times> path) list" where
  "lock_events tr = List.map_filter (\<lambda>(t, e). lock_event e) tr"

lemma lock_events_simps [simp]:
  "lock_events [] = []" "lock_events (xs @ ys) = lock_events xs @ lock_events ys"
  "lock_events ((t, e) # xs) = (case lock_event e of None \<Rightarrow> [] | Some x \<Rightarrow> [x]) @ lock_events xs"
  by (auto simp: lock_events_def map_filter_simps map_filter_def split: option.split)

lemma lock_event_simps [simp]:
  "lock_event (Locked p) = Some (True, p)" "lock_event (Released p) = Some (False, p)"
  "lock_event (MadeDirectory p) = None" "lock_event (WroteLease p j) = None"
  "lock_event (Appended ty data r) = None" "lock_event (Renamed a b) = None"
  by (simp_all add: lock_event_def)

text \<open>The locks that are held after a sequence of such events, the newest first.\<close>

fun held_after :: "path list \<Rightarrow> (bool \<times> path) list \<Rightarrow> path list" where
  "held_after held [] = held"
| "held_after held ((True, p) # es) = held_after (p # held) es"
| "held_after held ((False, p) # es) = held_after (remove1 p held) es"

definition locked_paths :: "(bool \<times> path) list \<Rightarrow> path list" where
  "locked_paths es = map snd (filter fst es)"

lemma locked_paths_simps [simp]:
  "locked_paths [] = []" "locked_paths (xs @ ys) = locked_paths xs @ locked_paths ys"
  "locked_paths ((b, p) # xs) = (if b then [p] else []) @ locked_paths xs"
  by (simp_all add: locked_paths_def)

lemma held_after_append: "held_after held (xs @ ys) = held_after (held_after held xs) ys"
  by (induction held xs rule: held_after.induct) simp_all

lemma held_after_release_all: "mset held = mset ps \<Longrightarrow> held_after held (map (Pair False) ps) = []"
  by (induction ps arbitrary: held) simp_all

section \<open>Acquisition of one lease\<close>

definition no_lock :: "nat \<Rightarrow> git_effect \<Rightarrow> bool" where
  "no_lock t e \<longleftrightarrow> lock_event e = None"

lemma traced_no_lock:
  assumes "traced s m no_lock" "run_state m s = (x, s')"
  obtains new where "gr_trace s' = gr_trace s @ new" "lock_events new = []" "gr_clock s \<le> gr_clock s'"
proof -
  obtain new where new: "gr_trace s' = gr_trace s @ new" "gr_clock s \<le> gr_clock s'" "\<And>t e. (t, e) \<in> set new \<Longrightarrow> no_lock t e"
    by (rule tracedE [OF assms]) blast
  from new(3) have "\<forall>x \<in> set new. lock_event (snd x) = None" by (auto simp: no_lock_def)
  then have "lock_events new = []" by (induction new) auto
  with new that show thesis by blast
qed

lemma traced_write_lease_record: "traced s (write_lease_record E h paths resource operation_id) no_lock"
  unfolding write_lease_record_def Let_def
  by (auto intro!: traced_rules simp: no_lock_def)

lemma finish_acquire_locks:
  assumes "run_state (finish_acquire E managed paths resource operation_id index_override h) s = (r, s')"
  shows "\<exists>new. gr_trace s' = gr_trace s @ new \<and> gr_clock s \<le> gr_clock s'
      \<and> lock_events new = (if is_ok r then [] else [(False, lease_path resource paths)])
      \<and> (\<forall>l. r = Inr l \<longrightarrow> gl_paths l = paths \<and> gl_resource l = resource)"
proof -
  let ?p = "lease_path resource paths"
  let ?m = "try_do (verify_open_path E h ?p) (\<lambda>_.
       try_do (resolve_paths_with_index_override E managed (mp_worktree_root paths) index_override) (\<lambda>refreshed.
         if refreshed \<noteq> paths
         then give (Inl (MutationUncertain (mp_worktree_root paths)
           ''Git metadata paths changed while acquiring the mutation lease''))
         else try_do (write_lease_record E h paths resource operation_id) (\<lambda>_.
           give (Inr \<lparr> gl_paths = paths, gl_resource = resource, gl_operation_id = operation_id,
             gl_index_override = index_override \<rparr>))))"
  from assms obtain s1 where m: "run_state ?m s = (r, s1)"
    and k: "run_state (if is_ok r then give r else do { _ \<leftarrow> perform E (\<lambda>w. ()) (\<lambda>_. [Released ?p]); give r }) s1 = (r, s')"
    by (auto simp: finish_acquire_def Let_def run_bind_iff split: if_splits)
  have "traced s ?m no_lock" by (auto intro!: traced_rules traced_write_lease_record)
  then obtain new where new: "gr_trace s1 = gr_trace s @ new" "lock_events new = []" "gr_clock s \<le> gr_clock s1"
    by (rule traced_no_lock [OF _ m])
  have "gl_paths l = paths \<and> gl_resource l = resource" if "r = Inr l" for l
    using m that by (auto simp: run_Inr split: if_splits)
  with new k show ?thesis
    by (cases "is_ok r") (auto simp: run_bind_iff run_perform_iff)
qed

definition lease_outcome :: "path \<Rightarrow> git_mutation_paths \<Rightarrow> git_mutation_resource
     \<Rightarrow> git_mutation_error + git_mutation_lease \<Rightarrow> (bool \<times> path) list \<Rightarrow> bool" where
  "lease_outcome p paths resource r es \<longleftrightarrow>
     (case r of Inl e \<Rightarrow> es = [] \<or> es = [(True, p), (False, p)]
      | Inr l \<Rightarrow> es = [(True, p)] \<and> gl_paths l = paths \<and> gl_resource l = resource)"

lemma acquire_round_locks:
  assumes "run_state (acquire_round E managed paths resource operation_id wait index_override started) s = (r, s')"
  shows "\<exists>new. gr_trace s' = gr_trace s @ new \<and> gr_clock s \<le> gr_clock s'
      \<and> (case r of
           None \<Rightarrow> lock_events new = [] \<and> gr_clock s < gr_clock s'
             \<and> (\<exists>t \<ge> gr_clock s. gw_now (ge_worlds E t) - started < wait)
         | Some q \<Rightarrow> lease_outcome (lease_path resource paths) paths resource q (lock_events new))"
proof -
  let ?p = "lease_path resource paths"
  from assms obtain f s1 where f: "run_state (open_lease_file E ?p) s = (f, s1)"
    and k: "(\<exists>e. f = Inl e \<and> (r, s') = (Some (Inl e), s1))
      \<or> (\<exists>h l s2. f = Inr h \<and> l = gw_flock (ge_worlds E (gr_clock s1)) h
          \<and> s2 = s1 \<lparr> gr_clock := Suc (gr_clock s1),
               gr_trace := gr_trace s1 @ map (Pair (gr_clock s1)) (if l = Inr True then [Locked ?p] else []) \<rparr>
          \<and> run_state (case l of
               Inl message \<Rightarrow> give (Some (Inl (MutationUncertain ?p message)))
             | Inr True \<Rightarrow> do { r \<leftarrow> finish_acquire E managed paths resource operation_id index_override h; give (Some r) }
             | Inr False \<Rightarrow> do {
                 now \<leftarrow> look_at E gw_now;
                 if now - started < wait
                 then do { _ \<leftarrow> look_at E gw_now; give None }
                 else do {
                   now \<leftarrow> look_at E gw_now;
                   give (Some (Inl (MutationBusy (resource_label resource) ?p ((now - started) div 1000000)))) } }) s2 = (r, s'))"
    by (auto simp: acquire_round_def Let_def run_bind_iff run_case_sum run_perform_iff)
  note q = quiet_run [OF quiet_open_lease_file f]
  from k show ?thesis
  proof (elim disjE exE conjE)
    fix e assume "f = Inl e" "(r, s') = (Some (Inl e), s1)"
    with q show ?thesis by (auto simp: lease_outcome_def)
  next
    fix h l s2
    assume s2: "s2 = s1 \<lparr> gr_clock := Suc (gr_clock s1),
               gr_trace := gr_trace s1 @ map (Pair (gr_clock s1)) (if l = Inr True then [Locked ?p] else []) \<rparr>"
      and r: "run_state (case l of
               Inl message \<Rightarrow> give (Some (Inl (MutationUncertain ?p message)))
             | Inr True \<Rightarrow> do { r \<leftarrow> finish_acquire E managed paths resource operation_id index_override h; give (Some r) }
             | Inr False \<Rightarrow> do {
                 now \<leftarrow> look_at E gw_now;
                 if now - started < wait
                 then do { _ \<leftarrow> look_at E gw_now; give None }
                 else do {
                   now \<leftarrow> look_at E gw_now;
                   give (Some (Inl (MutationBusy (resource_label resource) ?p ((now - started) div 1000000)))) } }) s2 = (r, s')"
    consider (error) message where "l = Inl message" | (busy) "l = Inr False" | (taken) "l = Inr True" by (cases l) auto
    then show ?thesis
    proof cases
      case error
      with r s2 q show ?thesis by (auto simp: lease_outcome_def)
    next
      case busy
      with r s2 q show ?thesis
        by (auto simp: lease_outcome_def run_bind_iff le_SucI intro!: exI [of _ "Suc (gr_clock s1)"] split: if_splits)
    next
      case taken
      with r obtain x where x: "run_state (finish_acquire E managed paths resource operation_id index_override h) s2 = (x, s')"
        "r = Some x" by (auto simp: run_bind_iff)
      from finish_acquire_locks [OF x(1)] s2 taken q x(2) show ?thesis
        by (cases x) (auto simp: lease_outcome_def le_SucI)
    qed
  qed
qed

text \<open>Induction over the rounds of a waiting that ends.\<close>

lemma acquire_loop_rounds:
  assumes "acquire_loop E managed paths resource operation_id wait index_override started s = Some y"
    and stop: "\<And>s r s'. run_state (acquire_round E managed paths resource operation_id wait index_override started) s = (Some r, s')
      \<Longrightarrow> P s (r, s')"
    and again: "\<And>s s1 y. run_state (acquire_round E managed paths resource operation_id wait index_override started) s = (None, s1)
      \<Longrightarrow> P s1 y \<Longrightarrow> P s y"
  shows "P s y"
proof -
  have "(E', m', p', r', i', w', x', t') = (E, managed, paths, resource, operation_id, wait, index_override, started) \<longrightarrow> P s y"
    if "acquire_loop E' m' p' r' i' w' x' t' s = Some y" for E' m' p' r' i' w' x' t'
    using that
  proof (rule acquire_loop.raw_induct [rotated], intro impI)
    fix loop E' m' p' r' i' w' x' t' s y
    assume ih: "\<And>E' m' p' r' i' w' x' t' s y. loop E' m' p' r' i' w' x' t' s = Some y
        \<Longrightarrow> (E', m', p', r', i', w', x', t') = (E, managed, paths, resource, operation_id, wait, index_override, started) \<longrightarrow> P s y"
      and body: "(case run_state (acquire_round E' m' p' r' i' w' x' t') s of
        (Some r, s') \<Rightarrow> Some (r, s') | (None, s') \<Rightarrow> loop E' m' p' r' i' w' x' t' s') = Some y"
      and eq: "(E', m', p', r', i', w', x', t') = (E, managed, paths, resource, operation_id, wait, index_override, started)"
    obtain q s' where r: "run_state (acquire_round E managed paths resource operation_id wait index_override started) s = (q, s')"
      by fastforce
    show "P s y"
      using r body eq ih [of E managed paths resource operation_id wait index_override started s' y] stop [of s _ s'] again [of s s' y]
      by (cases q) auto
  qed
  with assms(1) show ?thesis by blast
qed

lemma acquire_loop_locks:
  assumes "acquire_loop E managed paths resource operation_id wait index_override started s = Some y"
  shows "\<exists>new. gr_trace (snd y) = gr_trace s @ new
    \<and> lease_outcome (lease_path resource paths) paths resource (fst y) (lock_events new)"
  using assms
proof (rule acquire_loop_rounds)
  show "\<exists>new. gr_trace (snd (r, s')) = gr_trace s @ new
      \<and> lease_outcome (lease_path resource paths) paths resource (fst (r, s')) (lock_events new)"
    if "run_state (acquire_round E managed paths resource operation_id wait index_override started) s = (Some r, s')" for s r s'
    using acquire_round_locks [OF that] by auto
  show "\<exists>new. gr_trace (snd y) = gr_trace s @ new
      \<and> lease_outcome (lease_path resource paths) paths resource (fst y) (lock_events new)"
    if r: "run_state (acquire_round E managed paths resource operation_id wait index_override started) s = (None, s1)"
    and ih: "\<exists>new. gr_trace (snd y) = gr_trace s1 @ new
      \<and> lease_outcome (lease_path resource paths) paths resource (fst y) (lock_events new)" for s s1 y
  proof -
    from acquire_round_locks [OF r] obtain a where "gr_trace s1 = gr_trace s @ a" "lock_events a = []" by auto
    moreover from ih obtain b where "gr_trace (snd y) = gr_trace s1 @ b"
      "lease_outcome (lease_path resource paths) paths resource (fst y) (lock_events b)" by blast
    ultimately show ?thesis by (intro exI [of _ "a @ b"]) simp
  qed
qed

lemma traced_ensure_no_lock: "traced s (ensure_safe_lease_directory E p) no_lock"
  unfolding ensure_safe_lease_directory_def create_lease_directory_def
  by (auto intro!: traced_rules simp: no_lock_def split: sum.split io_kind.split if_splits)

lemma acquire_resolved_locks:
  assumes "acquire_resolved E managed paths resource operation_id wait index_override s = Some (r, s')"
  shows "\<exists>new. gr_trace s' = gr_trace s @ new
    \<and> lease_outcome (lease_path resource paths) paths resource r (lock_events new)"
proof -
  define dir where "dir = (case path_parent (lease_path resource paths) of Some d \<Rightarrow> d | None \<Rightarrow> mp_git_dir paths)"
  obtain d s1 where d: "run_state (ensure_safe_lease_directory E dir) s = (d, s1)" by fastforce
  obtain a where a: "gr_trace s1 = gr_trace s @ a" "lock_events a = []"
    by (rule traced_no_lock [OF traced_ensure_no_lock d])
  show ?thesis
  proof (cases d)
    case (Inl e)
    with assms d a show ?thesis by (auto simp: acquire_resolved_def Let_def dir_def [symmetric] lease_outcome_def)
  next
    case (Inr u)
    let ?s = "s1 \<lparr> gr_clock := Suc (gr_clock s1) \<rparr>"
    from Inr assms d have "acquire_loop E managed paths resource operation_id wait index_override (gw_now (ge_worlds E (gr_clock s1))) ?s = Some (r, s')"
      by (simp add: acquire_resolved_def Let_def dir_def [symmetric])
    from acquire_loop_locks [OF this] obtain b where "gr_trace s' = gr_trace s1 @ b"
      "lease_outcome (lease_path resource paths) paths resource r (lock_events b)" by auto
    with a show ?thesis by (intro exI [of _ "a @ b"]) simp
  qed
qed

section \<open>Acquisition of a set of leases\<close>

definition lease_file :: "git_mutation_lease \<Rightarrow> path" where
  "lease_file l = lease_path (gl_resource l) (gl_paths l)"

lemma release_leases_locks:
  "\<exists>new. gr_trace (release_leases E ls s) = gr_trace s @ new \<and> lock_events new = map (\<lambda>l. (False, lease_file l)) ls"
proof (induction ls arbitrary: s)
  case (Cons l ls)
  let ?s = "snd (run_state (perform E (\<lambda>w. ()) (\<lambda>_. [Released (lease_path (gl_resource l) (gl_paths l))])) s)"
  from Cons obtain new where "gr_trace (release_leases E ls ?s) = gr_trace ?s @ new"
    "lock_events new = map (\<lambda>l. (False, lease_file l)) ls" by blast
  then show ?case
    by (intro exI [of _ "(gr_clock s, Released (lease_file l)) # new"])
      (simp add: release_leases_def perform_def lease_file_def)
qed (simp add: release_leases_def)

text \<open>What the acquisition of a list of leases does to the locks: they are taken in the order of the list,
  and on an error all of them are given up.\<close>

lemma acquire_each_locks:
  assumes "acquire_each E managed paths ordered operation_id deadline index_override leases s = Some (r, s')"
    and "held_after [] es = rev (map lease_file leases)"
  shows "\<exists>new k. gr_trace s' = gr_trace s @ new \<and> k \<le> length ordered
    \<and> locked_paths (lock_events new) = map (\<lambda>x. lease_path x paths) (take k ordered)
    \<and> (case r of Inl e \<Rightarrow> held_after [] (es @ lock_events new) = []
       | Inr ls \<Rightarrow> k = length ordered \<and> held_after [] (es @ lock_events new) = rev (map lease_file ls)
           \<and> (\<exists>more. ls = leases @ more \<and> map gl_resource more = ordered \<and> (\<forall>l \<in> set more. gl_paths l = paths)))"
  using assms
proof (induction ordered arbitrary: leases s es)
  case Nil
  then show ?case by (auto intro!: exI [of _ "[]"])
next
  case (Cons resource ordered)
  let ?p = "lease_path resource paths"
  let ?now = "gw_now (ge_worlds E (gr_clock s))" and ?s = "s \<lparr> gr_clock := Suc (gr_clock s) \<rparr>"
  from Cons.prems(1) obtain q s2 where q: "acquire_resolved E managed paths resource operation_id (deadline - ?now) index_override ?s = Some (q, s2)"
    by (auto split: option.splits prod.splits sum.splits)
  from acquire_resolved_locks [OF q] obtain a where a: "gr_trace s2 = gr_trace s @ a"
    "lease_outcome ?p paths resource q (lock_events a)" by auto
  show ?case
  proof (cases q)
    case (Inl e)
    with Cons.prems(1) q have r: "r = Inl e" "s' = release_leases E leases s2" by auto
    from release_leases_locks [of E leases s2] obtain b where b: "gr_trace s' = gr_trace s2 @ b"
      "lock_events b = map (Pair False) (map lease_file leases)" unfolding r by auto
    from a(2) Inl obtain k where k: "k \<le> 1" "locked_paths (lock_events a) = map (\<lambda>x. lease_path x paths) (take k [resource])"
      "held_after (rev (map lease_file leases)) (lock_events a) = rev (map lease_file leases)"
      by (auto simp: lease_outcome_def intro: that [of 0] that [of 1])
    have "locked_paths (map (Pair False \<circ> lease_file) ls) = []" for ls by (induction ls) simp_all
    with a b r k Cons.prems(2) held_after_release_all [of "rev (map lease_file leases)" "map lease_file leases"] show ?thesis
      by (intro exI [of _ "a @ b"] exI [of _ k]) (cases k, simp_all add: held_after_append)
  next
    case (Inr l)
    with Cons.prems(1) q have r: "acquire_each E managed paths ordered operation_id deadline index_override (leases @ [l]) s2 = Some (r, s')" by auto
    from a(2) Inr have l: "lock_events a = [(True, ?p)]" "gl_paths l = paths" "gl_resource l = resource"
      by (auto simp: lease_outcome_def)
    then have "held_after [] (es @ lock_events a) = rev (map lease_file (leases @ [l]))"
      using Cons.prems(2) by (simp add: held_after_append lease_file_def)
    from Cons.IH [OF r this] obtain b k where b: "gr_trace s' = gr_trace s2 @ b" "k \<le> length ordered"
      "locked_paths (lock_events b) = map (\<lambda>x. lease_path x paths) (take k ordered)"
      and c: "case r of Inl e \<Rightarrow> held_after [] ((es @ lock_events a) @ lock_events b) = []
       | Inr ls \<Rightarrow> k = length ordered \<and> held_after [] ((es @ lock_events a) @ lock_events b) = rev (map lease_file ls)
           \<and> (\<exists>more. ls = (leases @ [l]) @ more \<and> map gl_resource more = ordered \<and> (\<forall>l \<in> set more. gl_paths l = paths))"
      by blast
    from c l(2,3) have "case r of Inl e \<Rightarrow> held_after [] (es @ lock_events (a @ b)) = []
       | Inr ls \<Rightarrow> k = length ordered \<and> held_after [] (es @ lock_events (a @ b)) = rev (map lease_file ls)
           \<and> (\<exists>more. ls = leases @ more \<and> map gl_resource more = resource # ordered \<and> (\<forall>l \<in> set more. gl_paths l = paths))"
      by (fastforce split: sum.splits)
    with a b l show ?thesis
      by (intro exI [of _ "a @ b"] exI [of _ "Suc k"]) (auto split: sum.splits)
  qed
qed

lemma acquire_set_locks:
  assumes "acquire_set_with_index_override E managed worktree resources operation_id wait index_override s = Some (r, s')"
  shows "\<exists>new paths k. gr_trace s' = gr_trace s @ new
    \<and> locked_paths (lock_events new) = map (\<lambda>x. lease_path x paths) (take k (remdups_adj (sort resources)))
    \<and> (case r of Inl e \<Rightarrow> held_after [] (lock_events new) = []
       | Inr ls \<Rightarrow> map gl_resource ls = remdups_adj (sort resources) \<and> (\<forall>l \<in> set ls. gl_paths l = paths)
           \<and> held_after [] (lock_events new) = rev (map lease_file ls))"
proof -
  let ?m = "try_do (give (validate_operation_id operation_id)) (\<lambda>_. resolve_paths_with_index_override E managed worktree index_override)"
  obtain q s1 where q: "run_state ?m s = (q, s1)" by fastforce
  have "quiet ?m" by (intro quiet_ops)
  from quiet_run [OF this q] have t: "gr_trace s1 = gr_trace s" by simp
  show ?thesis
  proof (cases q)
    case (Inl e)
    with assms q t show ?thesis by (auto simp: acquire_set_with_index_override_def intro!: exI [of _ "[]"] exI [of _ 0])
  next
    case (Inr paths)
    let ?s = "s1 \<lparr> gr_clock := Suc (gr_clock s1) \<rparr>"
    from Inr assms q have "acquire_each E managed paths (remdups_adj (sort resources)) operation_id
        (gw_now (ge_worlds E (gr_clock s1)) + wait) index_override [] ?s = Some (r, s')"
      by (simp add: acquire_set_with_index_override_def)
    from acquire_each_locks [OF this, of "[]"] obtain new k where new: "gr_trace s' = gr_trace s1 @ new"
      "locked_paths (lock_events new) = map (\<lambda>x. lease_path x paths) (take k (remdups_adj (sort resources)))"
      and c: "case r of Inl e \<Rightarrow> held_after [] ([] @ lock_events new) = []
       | Inr ls \<Rightarrow> k = length (remdups_adj (sort resources)) \<and> held_after [] ([] @ lock_events new) = rev (map lease_file ls)
           \<and> (\<exists>more. ls = [] @ more \<and> map gl_resource more = remdups_adj (sort resources) \<and> (\<forall>l \<in> set more. gl_paths l = paths))"
      by fastforce
    from c have r: "case r of Inl e \<Rightarrow> held_after [] (lock_events new) = []
       | Inr ls \<Rightarrow> held_after [] (lock_events new) = rev (map lease_file ls)
           \<and> map gl_resource ls = remdups_adj (sort resources) \<and> (\<forall>l \<in> set ls. gl_paths l = paths)"
      by (cases r) auto
    show ?thesis
      by (intro exI [of _ new] exI [of _ paths] exI [of _ k]) (use new r t in \<open>cases r; simp\<close>)
  qed
qed

section \<open>Waiting ends\<close>

text \<open>The clock of the worlds passes every instant for good.\<close>

definition clock_advances :: "git_env \<Rightarrow> bool" where
  "clock_advances E \<longleftrightarrow> (\<forall>T. \<exists>N. \<forall>t \<ge> N. T \<le> gw_now (ge_worlds E t))"

lemma acquire_loop_returns:
  assumes "\<forall>t \<ge> N. started + wait \<le> gw_now (ge_worlds E t)"
  shows "\<exists>y. acquire_loop E managed paths resource operation_id wait index_override started s = Some y"
proof (induction "N - gr_clock s" arbitrary: s rule: less_induct)
  case less
  let ?round = "run_state (acquire_round E managed paths resource operation_id wait index_override started) s"
  obtain r s' where r: "?round = (r, s')" by fastforce
  show ?case
  proof (cases r)
    case (Some q)
    with r show ?thesis by (simp add: acquire_loop.simps [of E managed paths resource operation_id wait index_override started s])
  next
    case None
    with acquire_round_locks [OF r] obtain t where t: "gr_clock s < gr_clock s'" "gr_clock s \<le> t" "gw_now (ge_worlds E t) - started < wait"
      by auto
    have "t < N"
    proof (rule ccontr)
      assume "\<not> t < N"
      with assms have "started + wait \<le> gw_now (ge_worlds E t)" by simp
      with t(3) show False by simp
    qed
    with t have "N - gr_clock s' < N - gr_clock s" by simp
    from less [OF this] None r show ?thesis
      by (simp add: acquire_loop.simps [of E managed paths resource operation_id wait index_override started s])
  qed
qed

lemma acquire_resolved_returns:
  assumes "clock_advances E"
  shows "\<exists>y. acquire_resolved E managed paths resource operation_id wait index_override s = Some y"
proof -
  have "\<exists>y. acquire_loop E managed paths resource operation_id wait index_override started s' = Some y" for started s'
    using assms acquire_loop_returns by (metis clock_advances_def)
  then show ?thesis by (auto simp: acquire_resolved_def Let_def split: prod.split sum.split)
qed

lemma acquire_each_returns:
  assumes "clock_advances E"
  shows "\<exists>y. acquire_each E managed paths ordered operation_id deadline index_override leases s = Some y"
proof (induction ordered arbitrary: leases s)
  case (Cons resource ordered)
  let ?s = "s \<lparr> gr_clock := Suc (gr_clock s) \<rparr>"
  obtain q s2 where "acquire_resolved E managed paths resource operation_id (deadline - gw_now (ge_worlds E (gr_clock s))) index_override ?s = Some (q, s2)"
    using acquire_resolved_returns [OF assms] by (metis prod.exhaust)
  with Cons show ?case by (cases q) auto
qed simp

lemma acquire_set_returns:
  assumes "clock_advances E"
  shows "\<exists>y. acquire_set_with_index_override E managed worktree resources operation_id wait index_override s = Some y"
  using acquire_each_returns [OF assms]
  by (auto simp: acquire_set_with_index_override_def split: prod.split sum.split)

end
