(* ===== verification/Git_Lock_Properties.thy ===== *)
theory Git_Lock_Properties
  imports Git_Lock_Receipts Git_Leases
begin

text \<open>
  What the git lock services promise: leases in a fixed order and no waiting for ever, proofs of
  ownership that recovery recognises, locks that are moved only on evidence, and recoveries that are
  on record.
\<close>

section \<open>Leases\<close>

text \<open>C21. A set of leases is acquired without deadlock and given up as a whole. When the clock advances the
  acquisition returns; the locks are taken in the fixed order, shared references before the index and each at
  most once, whatever order and repetitions the caller asks for; on success exactly
  the leases asked for are held, and on any error, at whichever lease it occurs, none is.\<close>

theorem lease_set_discipline:
  assumes "clock_advances E"
  shows "\<exists>r s' new paths k ordered.
    acquire_set_with_index_override E managed worktree resources operation_id wait index_override s = Some (r, s')
    \<and> gr_trace s' = gr_trace s @ new
    \<and> sorted ordered \<and> distinct ordered \<and> set ordered = set resources
    \<and> locked_paths (lock_events new) = map (\<lambda>x. lease_path x paths) (take k ordered)
    \<and> (case r of Inl e \<Rightarrow> held_after [] (lock_events new) = []
       | Inr ls \<Rightarrow> map gl_resource ls = ordered \<and> held_after [] (lock_events new) = rev (map lease_file ls))"
proof -
  obtain r s' where r: "acquire_set_with_index_override E managed worktree resources operation_id wait index_override s = Some (r, s')"
    using acquire_set_returns [OF assms] by (metis prod.exhaust)
  have d: "sorted xs \<Longrightarrow> distinct (remdups_adj xs)" for xs :: "git_mutation_resource list"
    by (induction xs rule: remdups_adj.induct) auto
  have o: "sorted (remdups_adj (sort resources))" "distinct (remdups_adj (sort resources))" "set (remdups_adj (sort resources)) = set resources"
    by (simp_all add: sorted_remdups_adj d)
  from acquire_set_locks [OF r] obtain new paths k where "gr_trace s' = gr_trace s @ new"
    "locked_paths (lock_events new) = map (\<lambda>x. lease_path x paths) (take k (remdups_adj (sort resources)))"
    "case r of Inl e \<Rightarrow> held_after [] (lock_events new) = []
       | Inr ls \<Rightarrow> map gl_resource ls = remdups_adj (sort resources) \<and> (\<forall>l \<in> set ls. gl_paths l = paths)
           \<and> held_after [] (lock_events new) = rev (map lease_file ls)" by blast
  with r o show ?thesis
    by (intro exI [of _ r] exI [of _ s'] exI [of _ new] exI [of _ paths] exI [of _ k] exI [of _ "remdups_adj (sort resources)"])
      (auto split: sum.splits)
qed

section \<open>Proofs of ownership\<close>

definition snapshot_encodable :: "native_git_lock_snapshot \<Rightarrow> bool" where
  "snapshot_encodable l \<longleftrightarrow> ls_device l < 2 ^ 64 \<and> ls_inode l < 2 ^ 64 \<and> ls_size l < 2 ^ 64
     \<and> (\<forall>x \<in> {ls_modified_seconds l, ls_modified_nanoseconds l, ls_changed_seconds l, ls_changed_nanoseconds l}.
          - (2 ^ 63) \<le> x \<and> x \<le> i64_max)"

definition identity_encodable :: "managed_process_identity \<Rightarrow> bool" where
  "identity_encodable i \<longleftrightarrow> pi_pid i < 2 ^ 32 \<and> pi_start_time_ticks i < 2 ^ 64"

lemma snapshot_roundtrip: "snapshot_encodable l \<Longrightarrow> snapshot_from_json (snapshot_to_json l) = Some l"
  by (simp add: snapshot_from_json_def snapshot_to_json_def field_def json_u64_def snapshot_encodable_def)

lemma identity_roundtrip: "identity_encodable i \<Longrightarrow> identity_from_json (identity_to_json i) = Some i"
  by (simp add: identity_from_json_def identity_to_json_def field_def json_u64_def identity_encodable_def)

lemma proof_roundtrip:
  "snapshot_encodable (np_lock p) \<Longrightarrow> identity_encodable (np_owner p) \<Longrightarrow> np_schema_version p < 2 ^ 32
     \<Longrightarrow> proof_from_json (proof_to_json p) = Some p"
  by (simp add: proof_from_json_def proof_to_json_def field_def json_u64_def snapshot_roundtrip identity_roundtrip)

lemma proof_of_claims:
  assumes "snapshot_encodable l" "identity_encodable owner"
  shows "claims_lock E (gl_paths lease) l
    \<lparr> gre_event_id = i, gre_event_type = lock_held_event, gre_data = proof_to_json (proof_of E lease owner l) \<rparr>"
proof -
  let ?p = "proof_of E lease owner l"
  have "member_str (proof_to_json ?p) ''index_lock_file'' = Some (path_str (mp_index_lock_file (gl_paths lease)))"
    "Option.bind (value_get (proof_to_json ?p) ''schema_version'') as_u64 = Some proof_schema_version"
    by (simp_all add: member_str_def proof_to_json_def proof_of_def Let_def json_u64_def proof_schema_version_def)
  moreover have "proof_from_json (proof_to_json ?p) = Some ?p"
    by (rule proof_roundtrip) (simp_all add: proof_of_def Let_def assms proof_schema_version_def)
  ultimately have "proof_of_record (gl_paths lease)
      \<lparr> gre_event_id = i, gre_event_type = lock_held_event, gre_data = proof_to_json ?p \<rparr> = Inr (Some ?p)"
    by (simp add: proof_of_record_def ok_or_def)
  then show ?thesis by (simp add: claims_lock_def proof_matches_paths_def proof_of_def Let_def)
qed

text \<open>C6. A recorded proof of ownership is true and recovery recognises it. However the world changes between any two
  system calls: under the index lease only, the process was alive with the recorded identity before and after
  it was seen to have this inode open, the lock file was this inode with the same metadata before
  and after, the event is in the ledger, and for values in the range of their types a later recovery for the same
  paths and the same inode counts the event among its claims.\<close>

theorem recorded_proof_sound:
  assumes "run_state (try_record_proof E log_dir lease owner) s = (Inr (Some (i, p)), s')"
    and "snapshot_encodable (np_lock p)" "identity_encodable owner"
  shows "gl_resource lease = IndexResource \<and> np_owner p = owner
    \<and> (\<exists>t1 t2 t3 t4 t5 t6. gr_clock s \<le> t1 \<and> t1 < t2 \<and> t2 < t3 \<and> t3 < t4 \<and> t4 < t5 \<and> t5 < t6 \<and> t6 < gr_clock s'
        \<and> process_alive E t1 owner \<and> file_is E t2 (mp_index_lock_file (gl_paths lease)) (np_lock p)
        \<and> inode_open E t3 (pi_pid owner) (np_lock p)
        \<and> process_alive E t4 owner \<and> file_is E t5 (mp_index_lock_file (gl_paths lease)) (np_lock p)
        \<and> event_recorded E t6 lock_held_event i (proof_to_json p))
    \<and> claims_lock E (gl_paths lease) (np_lock p)
        \<lparr> gre_event_id = i, gre_event_type = lock_held_event, gre_data = proof_to_json p \<rparr>"
proof -
  note r = try_record_proof_Some [OF assms(1)]
  then have p: "p = proof_of E lease owner (np_lock p)" by blast
  have "np_owner p = owner" by (subst p) (simp add: proof_of_def Let_def)
  moreover have "claims_lock E (gl_paths lease) (np_lock p)
        \<lparr> gre_event_id = i, gre_event_type = lock_held_event, gre_data = proof_to_json p \<rparr>"
    using proof_of_claims [OF assms(2,3), of E lease i] p by metis
  ultimately show ?thesis using r by blast
qed

section \<open>Recovery\<close>

lemma reconcile_round_again:
  assumes "run_state (reconcile_round E managed lease deadline) s = ((True, v), s')"
  shows "gr_clock s < gr_clock s'" "\<exists>t \<ge> gr_clock s. gw_now (ge_worlds E t) < deadline"
proof -
  from assms obtain u s1 s2 w where v: "run_state (validate_current_paths E managed lease) s = (Inr u, s1)"
    and o: "run_state (reconcile_once E managed lease) s1 = (w, s2)"
    and n: "gw_now (ge_worlds E (gr_clock s2)) < deadline" and c: "gr_clock s' = Suc (Suc (gr_clock s2))"
    by (auto simp: reconcile_round_def run_bind_iff run_case_sum run_case_verdict split: if_splits)
  have "gr_clock s1 \<le> gr_clock s2" by (rule tracedE [OF traced_reconcile_once o])
  with quiet_run [OF quiet_validate_current_paths v] have "gr_clock s \<le> gr_clock s2" by simp
  with n c show "gr_clock s < gr_clock s'" "\<exists>t \<ge> gr_clock s. gw_now (ge_worlds E t) < deadline" by auto
qed

lemma reconcile_loop_returns:
  assumes "\<forall>t \<ge> N. deadline \<le> gw_now (ge_worlds E t)"
  shows "\<exists>y. reconcile_loop E managed lease deadline s = Some y"
proof (induction "N - gr_clock s" arbitrary: s rule: less_induct)
  case less
  obtain b v s' where r: "run_state (reconcile_round E managed lease deadline) s = ((b, v), s')"
    by (metis prod.exhaust)
  show ?case
  proof (cases b)
    case False
    with r show ?thesis by (simp add: reconcile_loop.simps [of E managed lease deadline s])
  next
    case True
    with reconcile_round_again [of E managed lease deadline s v s'] r assms
    have "gr_clock s < gr_clock s'" "gr_clock s < N" by (auto simp: not_le, metis le_trans not_le)
    then have "N - gr_clock s' < N - gr_clock s" by simp
    from less [OF this] True r show ?thesis by (simp add: reconcile_loop.simps [of E managed lease deadline s])
  qed
qed

lemma reconcile_returns:
  assumes "clock_advances E"
  shows "\<exists>v s'. reconcile_native_index_lock E managed lease wait s = Some (v, s')"
proof -
  have "\<exists>y. reconcile_loop E managed lease deadline s' = Some y" for deadline s'
    using assms reconcile_loop_returns by (metis clock_advances_def)
  then show ?thesis by (auto simp: reconcile_native_index_lock_def)
qed

lemma reconcile_cases:
  assumes "reconcile_native_index_lock E managed lease wait s = Some (v, s')"
  obtains (refused) "v = Uncertain (mp_index_lock_file (gl_paths lease)) ''native lock recovery requires the index lease''" "s' = s"
    | (loop) deadline where "gl_resource lease = IndexResource"
        "reconcile_loop E managed lease deadline (s \<lparr> gr_clock := Suc (gr_clock s) \<rparr>) = Some (v, s')"
  using assms by (auto simp: reconcile_native_index_lock_def split: if_splits)

lemma quarantine_justified_moments:
  assumes "quarantine_justified E managed lease t source target"
  shows "source = mp_index_lock_file (gl_paths lease)
        \<and> (\<exists>lp i m ti tv to ts tg. ti < tv \<and> tv \<le> to \<and> to < ts \<and> ts < tg \<and> tg < t - 1
            \<and> target = quarantine_path E (gl_paths lease) (lp_event_id lp)
            \<and> event_recorded E ti quarantine_intent_event i (audit_to_json (intent_of E (gl_paths lease) lp))
            \<and> paths_valid E managed lease tv \<and> lp_proof m = lp_proof lp
            \<and> ownership_proved E to (gl_paths lease) (np_lock (lp_proof lp)) m
            \<and> scope_proved E ts (gl_paths lease) (lp_proof lp) (lp_scope m) \<and> scope_gone E tg (lp_scope m)
            \<and> file_is E (t - 1) source (np_lock (lp_proof lp)) \<and> ls_size (np_lock (lp_proof lp)) = 0)"
proof -
  from assms obtain lp i ti a b m to ts tg where
    "source = mp_index_lock_file (gl_paths lease)" "target = quarantine_path E (gl_paths lease) (lp_event_id lp)"
    "event_recorded E ti quarantine_intent_event i (audit_to_json (intent_of E (gl_paths lease) lp))"
    "ti < a" "b < t" "file_is E (t - 1) source (np_lock (lp_proof lp))" "ls_size (np_lock (lp_proof lp)) = 0"
    "paths_valid E managed lease a" "a \<le> to" "to < ts" "ts < tg" "Suc tg < b" "lp_proof m = lp_proof lp"
    "ownership_proved E to (gl_paths lease) (np_lock (lp_proof lp)) m"
    "scope_proved E ts (gl_paths lease) (lp_proof lp) (lp_scope m)" "scope_gone E tg (lp_scope m)"
    unfolding quarantine_justified_def revalidated_def by (elim exE conjE) (rule that)
  moreover from this have "tg < t - 1" by linarith
  ultimately show ?thesis by blast
qed

text \<open>C8. A native lock is moved away only on evidence. However the world changes between any two system
  calls and whatever the verdict: when the clock advances the reconciliation returns, and every rename it made moved the index
  lock of the lease to the quarantine file of a proof, after the intent to do so was in the ledger; after that the
  paths still resolved to those of the lease, the ledger had exactly one proof for this inode and these
  paths and exactly one record of its process, neither this process nor any process of its group existed any more, and
  the last look at the lock before the rename showed this inode, unchanged and empty.\<close>

theorem quarantine_needs_proof:
  assumes "clock_advances E"
  shows "\<exists>v s' new. reconcile_native_index_lock E managed lease wait s = Some (v, s') \<and> gr_trace s' = gr_trace s @ new
    \<and> (\<forall>t source target. (t, Renamed source target) \<in> set new \<longrightarrow>
        source = mp_index_lock_file (gl_paths lease)
        \<and> (\<exists>lp i m ti tv to ts tg. ti < tv \<and> tv \<le> to \<and> to < ts \<and> ts < tg \<and> tg < t - 1
            \<and> target = quarantine_path E (gl_paths lease) (lp_event_id lp)
            \<and> event_recorded E ti quarantine_intent_event i (audit_to_json (intent_of E (gl_paths lease) lp))
            \<and> paths_valid E managed lease tv \<and> lp_proof m = lp_proof lp
            \<and> ownership_proved E to (gl_paths lease) (np_lock (lp_proof lp)) m
            \<and> scope_proved E ts (gl_paths lease) (lp_proof lp) (lp_scope m) \<and> scope_gone E tg (lp_scope m)
            \<and> file_is E (t - 1) source (np_lock (lp_proof lp)) \<and> ls_size (np_lock (lp_proof lp)) = 0))"
proof -
  obtain v s' where r: "reconcile_native_index_lock E managed lease wait s = Some (v, s')"
    using reconcile_returns [OF assms] by blast
  then obtain new where new: "gr_trace s' = gr_trace s @ new" "\<forall>(t, e) \<in> set new. rename_justified E managed lease t e"
  proof (cases rule: reconcile_cases)
    case refused
    then show ?thesis by (intro that [of "[]"]) simp_all
  next
    case (loop deadline)
    from reconcile_loop_justified [OF loop(2)] show ?thesis
      by (auto simp: renames_justified_def intro: that)
  qed
  have "source = mp_index_lock_file (gl_paths lease)
        \<and> (\<exists>lp i m ti tv to ts tg. ti < tv \<and> tv \<le> to \<and> to < ts \<and> ts < tg \<and> tg < t - 1
            \<and> target = quarantine_path E (gl_paths lease) (lp_event_id lp)
            \<and> event_recorded E ti quarantine_intent_event i (audit_to_json (intent_of E (gl_paths lease) lp))
            \<and> paths_valid E managed lease tv \<and> lp_proof m = lp_proof lp
            \<and> ownership_proved E to (gl_paths lease) (np_lock (lp_proof lp)) m
            \<and> scope_proved E ts (gl_paths lease) (lp_proof lp) (lp_scope m) \<and> scope_gone E tg (lp_scope m)
            \<and> file_is E (t - 1) source (np_lock (lp_proof lp)) \<and> ls_size (np_lock (lp_proof lp)) = 0)"
    if "(t, Renamed source target) \<in> set new" for t source target
    using new(2) that by (intro quarantine_justified_moments) (auto simp: rename_justified_def)
  with r new(1) show ?thesis by blast
qed

text \<open>C34. A recovery is on record. When the reconciliation answers that the lock was recovered, in a fresh quarantine, by an earlier receipt or by
  completing an interrupted one, then during the call the lock was absent, the ledger had the proof of ownership, the intent
  and the receipt, all three about the same proof and file, the file in quarantine was the proven inode with its size, times and contents,
  and no process of the recorded scope existed.\<close>

theorem recovery_on_record:
  assumes "reconcile_native_index_lock E managed lease wait s = Some (Recovered r, s')"
  shows "\<exists>p l tp ti tr tf tz. {tp, ti, tr, tf, tz} \<subseteq> {gr_clock s..<gr_clock s'}
    \<and> rr_lock r = np_lock p \<and> proof_matches_paths E p (gl_paths lease)
    \<and> rr_quarantine_file r = path_str (quarantine_path E (gl_paths lease) (rr_proof_event_id r))
    \<and> proof_found E tp (rr_proof_event_id r) p \<and> intent_found E ti r p \<and> receipt_found E tr r p l
    \<and> file_is E tf (quarantine_path E (gl_paths lease) (rr_proof_event_id r)) l \<and> same_quarantined_inode (np_lock p) l
    \<and> gw_symlink_metadata (ge_worlds E tz) (mp_index_lock_file (gl_paths lease)) = Inl NotFound
    \<and> owner_gone E (gl_paths lease) p (gr_clock s) (gr_clock s')"
  using assms
proof (cases rule: reconcile_cases)
  case (loop deadline)
  from reconcile_loop_Recovered [OF loop(2)]
  have "recovery_evidence E (gl_paths lease) r (Suc (gr_clock s)) (gr_clock s')" by simp
  then have "recovery_evidence E (gl_paths lease) r (gr_clock s) (gr_clock s')" by (rule recovery_evidence_mono) simp_all
  then show ?thesis by (simp only: recovery_evidence_def)
qed simp

end
