(* ===== verification/Git_Lock_Demo.thy ===== *)
theory Git_Lock_Demo
  imports Git_Lock_Properties
begin

text \<open>
  A repository in which a managed process has opened the index lock. In the worlds of \<open>demo_lock_env True\<close> it is
  alive; in those of \<open>demo_lock_env False\<close> it died and left the lock behind, which
  a run moves away at moment 100. The run is evaluated operation by operation, each at any clock, and the properties
  of the git lock services are applied to it.
\<close>

definition demo_lock_sha :: "string \<Rightarrow> string" where
  "demo_lock_sha s = map (\<lambda>c. if c = CHR ''/'' then CHR ''-'' else c) s"

definition demo_root :: path where "demo_root = [''/'', ''r'']"

definition demo_git_dir :: path where "demo_git_dir = [''/'', ''r'', ''.git'']"

definition demo_paths :: git_mutation_paths where
  "demo_paths = \<lparr> mp_worktree_root = demo_root, mp_git_dir = demo_git_dir, mp_common_git_dir = demo_git_dir,
     mp_index_file = demo_git_dir @ [''index''], mp_index_lock_file = demo_git_dir @ [''index.lock''],
     mp_index_lease_file = demo_git_dir @ [''exomonad-mutation'', ''index--r-.git-index.lease''],
     mp_refs_lease_file = demo_git_dir @ [''exomonad-mutation'', ''refs.lease''] \<rparr>"

definition demo_lease :: git_mutation_lease where
  "demo_lease = \<lparr> gl_paths = demo_paths, gl_resource = IndexResource, gl_operation_id = ''op'', gl_index_override = None \<rparr>"

definition demo_owner :: managed_process_identity where
  "demo_owner = \<lparr> pi_pid = 7, pi_start_time_ticks = 9 \<rparr>"

definition demo_md :: metadata where
  "demo_md = \<lparr> md_kind = RegularFile, md_dev = 1, md_ino = 2, md_len = 0, md_mtime = 3, md_mtime_nsec = 0,
     md_ctime = 3, md_ctime_nsec = 0 \<rparr>"

definition demo_dir_md :: metadata where
  "demo_dir_md = demo_md \<lparr> md_kind := Directory, md_ino := 5 \<rparr>"

definition demo_base_env :: git_env where
  "demo_base_env = \<lparr> ge_worlds = (\<lambda>t. undefined), ge_parse = (\<lambda>s. None), ge_ser = (\<lambda>j. ''x''), ge_sha256 = demo_lock_sha, ge_writer = open_ledger \<rparr>"

definition demo_proof :: managed_native_lock_proof where
  "demo_proof = proof_of demo_base_env demo_lease demo_owner (lock_snapshot_of demo_md [])"

definition demo_parse_line :: "string \<Rightarrow> json option" where
  "demo_parse_line s =
     (if s = ''h\<newline>'' then Some (JObj [(''event_id'', JStr ''e1''), (''type'', JStr lock_held_event), (''data'', proof_to_json demo_proof)])
      else if s = ''s\<newline>'' then Some (JObj [(''event_id'', JStr ''e0''), (''type'', JStr process_started_event),
        (''data'', JObj [(''common_git_dir'', JStr (path_str demo_git_dir)), (''git_dir'', JStr (path_str demo_git_dir)),
          (''index_file'', JStr (path_str (mp_index_file demo_paths))),
          (''index_lock_file'', JStr (path_str (mp_index_lock_file demo_paths))),
          (''operation_id_sha256'', JStr ''op''), (''process_group_id'', JInt 7), (''process_id'', JInt 7),
          (''process_start_identity'', JInt 9), (''worktree_root'', JStr (path_str demo_root))])])
      else None)"

definition demo_lock_log_env :: log_env where
  "demo_lock_log_env = \<lparr> en_uuid = ''u'', en_now = ''n'', en_observed_at = ''n'', en_health_now = ''n'', en_clock = 1,
     en_run_id_file = None, en_session_file = None, en_sequence_ok = True, en_ledger_write = Written,
     en_view_write = Written, en_health_ok = True \<rparr>"

definition demo_git_log :: event_log where
  "demo_git_log = event_log_open \<lparr> el_ledger :=
     [\<lparr> f_name = append_lock, f_bytes = [], f_modified = 0 \<rparr>,
      \<lparr> f_name = segment_name 0, f_bytes = ''s\<newline>h\<newline>'', f_modified = 0 \<rparr>] \<rparr>"

definition demo_quarantine :: path where
  "demo_quarantine = demo_git_dir @ [''exomonad-mutation'', ''quarantine'', ''e1.lock'']"

definition demo_metadata :: "nat \<Rightarrow> path \<Rightarrow> io_kind + metadata" where
  "demo_metadata t p =
     (if p = mp_index_lock_file demo_paths then if t < 100 then Inr demo_md else Inl NotFound
      else if p = demo_quarantine then if t < 100 then Inl NotFound else Inr demo_md
      else if p \<in> {mp_index_lease_file demo_paths, mp_refs_lease_file demo_paths} then Inr demo_md
      else if p \<in> {demo_root, demo_git_dir, demo_git_dir @ [''exomonad-mutation''], demo_git_dir @ [''exomonad-mutation'', ''quarantine'']}
      then Inr demo_dir_md else Inl NotFound)"

definition demo_rev_parse :: "string list \<Rightarrow> string" where
  "demo_rev_parse args =
     (if ''--show-toplevel'' \<in> set args then ''/r\<newline>''
      else if ''index'' \<in> set args then ''/r/.git/index\<newline>'' else ''/r/.git\<newline>'')"

definition demo_stat :: string where
  "demo_stat = ''7 (git) S 1 7 7 0 0 0 0 0 0 0 0 0 0 0 0 0 0 0 9 0''"

definition demo_git_world :: "bool \<Rightarrow> nat \<Rightarrow> git_world" where
  "demo_git_world alive t = \<lparr>
     gw_now = t, gw_pid = 1, gw_symlink_metadata = demo_metadata t, gw_canonicalize = Inr,
     gw_is_dir = (\<lambda>p. True), gw_exists = (\<lambda>p. False), gw_dir_count = (\<lambda>p. Inr 0), gw_create_dir = (\<lambda>p. Inr ()),
     gw_open = (\<lambda>p. Inr 1), gw_open_lease = (\<lambda>p. Inr 3), gw_open_directory = (\<lambda>p. Inr 2),
     gw_fstat = (\<lambda>h. Inr (if h = 2 then demo_dir_md else demo_md)), gw_read = (\<lambda>h n. Inr []), gw_flock = (\<lambda>h. Inr True),
     gw_write = (\<lambda>h bs. Inr ()), gw_rename_noreplace = (\<lambda>a x b y. Inr ()), gw_sync = (\<lambda>h. Inr ()),
     gw_rev_parse = (\<lambda>p args ov. Inr \<lparr> rp_code = Some 0, rp_stdout = Some (demo_rev_parse args) \<rparr>),
     gw_proc_stat = (\<lambda>pid. if alive then Inr demo_stat else Inl NotFound), gw_proc_fds = (\<lambda>pid. Inr [Inr ''3'']),
     gw_fd_metadata = (\<lambda>pid n. Inr demo_md), gw_killpg = (\<lambda>g. if alive then Delivered else NoSuchGroup), gw_log = demo_git_log, gw_log_env = demo_lock_log_env, gw_ledger_failure = None \<rparr>"

definition demo_lock_env :: "bool \<Rightarrow> git_env" where
  "demo_lock_env alive = demo_base_env \<lparr> ge_worlds := demo_git_world alive, ge_parse := demo_parse_line \<rparr>"

section \<open>Evaluation\<close>

text \<open>\<open>later n s\<close>: the run \<open>s\<close> after \<open>n\<close> looks.\<close>

definition later :: "nat \<Rightarrow> git_run \<Rightarrow> git_run" where
  "later n s = s \<lparr> gr_clock := gr_clock s + n \<rparr>"

lemma later_simps [simp]:
  "gr_clock (later n s) = gr_clock s + n" "gr_trace (later n s) = gr_trace s" "later n (later m s) = later (m + n) s"
  "s \<lparr> gr_clock := Suc (gr_clock s) \<rparr> = later 1 s"
  "later n \<lparr> gr_clock = c, gr_trace = tr \<rparr> = \<lparr> gr_clock = c + n, gr_trace = tr \<rparr>"
  by (simp_all add: later_def add.assoc)

lemma run_look [simp]: "run_state (look_at E q) s = (q (ge_worlds E (gr_clock s)), later 1 s)"
  by simp

declare run_look_at [simp del]

lemma run_bind: "run_state (m \<bind> f) s = (case run_state m s of (x, s1) \<Rightarrow> run_state (f x) s1)"
  by (simp add: State_Monad.bind_def)

lemma run_perform:
  "run_state (perform E q eff) s = (let a = q (ge_worlds E (gr_clock s)) in
     (a, \<lparr> gr_clock = gr_clock s + 1, gr_trace = gr_trace s @ map (Pair (gr_clock s)) (eff a) \<rparr>))"
  by (simp add: perform_def Let_def)

lemma demo_world [simp]:
  "ge_worlds (demo_lock_env b) t = demo_git_world b t" "ge_parse (demo_lock_env b) = demo_parse_line" "ge_sha256 (demo_lock_env b) = demo_lock_sha"
  "ge_ser (demo_lock_env b) = (\<lambda>j. ''x'')" "ge_writer (demo_lock_env b) = open_ledger"
  by (simp_all add: demo_lock_env_def demo_base_env_def)

lemma demo_look [simp]:
  "gw_now (demo_git_world b t) = t"
  "gw_symlink_metadata (demo_git_world b t) = demo_metadata t" "gw_canonicalize (demo_git_world b t) = Inr"
  "gw_is_dir (demo_git_world b t) = (\<lambda>p. True)" "gw_exists (demo_git_world b t) = (\<lambda>p. False)"
  "gw_dir_count (demo_git_world b t) = (\<lambda>p. Inr 0)" "gw_create_dir (demo_git_world b t) = (\<lambda>p. Inr ())"
  "gw_open (demo_git_world b t) = (\<lambda>p. Inr 1)" "gw_open_directory (demo_git_world b t) = (\<lambda>p. Inr 2)"
  "gw_fstat (demo_git_world b t) = (\<lambda>h. Inr (if h = 2 then demo_dir_md else demo_md))"
  "gw_read (demo_git_world b t) = (\<lambda>h n. Inr [])"
  "gw_rename_noreplace (demo_git_world b t) = (\<lambda>a x b y. Inr ())" "gw_sync (demo_git_world b t) = (\<lambda>h. Inr ())"
  "gw_rev_parse (demo_git_world b t) = (\<lambda>p args ov. Inr \<lparr> rp_code = Some 0, rp_stdout = Some (demo_rev_parse args) \<rparr>)"
  "gw_proc_stat (demo_git_world b t) = (\<lambda>pid. if b then Inr demo_stat else Inl NotFound)"
  "gw_proc_fds (demo_git_world b t) = (\<lambda>pid. Inr [Inr ''3''])" "gw_fd_metadata (demo_git_world b t) = (\<lambda>pid n. Inr demo_md)"
  "gw_killpg (demo_git_world b t) = (\<lambda>g. if b then Delivered else NoSuchGroup)"
  "gw_pid (demo_git_world b t) = 1" "gw_open_lease (demo_git_world b t) = (\<lambda>p. Inr 3)" "gw_flock (demo_git_world b t) = (\<lambda>h. Inr True)"
  "gw_write (demo_git_world b t) = (\<lambda>h bs. Inr ())"
  "gw_log (demo_git_world b t) = demo_git_log" "gw_log_env (demo_git_world b t) = demo_lock_log_env"
  "gw_ledger_failure (demo_git_world b t) = None"
  by (simp_all add: demo_git_world_def)

lemma demo_rev_parses:
  "str_trim ''/r\<newline>'' = ''/r''" "str_trim ''/r/.git\<newline>'' = ''/r/.git''" "str_trim ''/r/.git/index\<newline>'' = ''/r/.git/index''"
  "path_of ''/r'' = demo_root" "path_of ''/r/.git'' = demo_git_dir" "path_of ''/r/.git/index'' = demo_git_dir @ [''index'']"
  by code_simp+

lemma demo_git_path:
  "run_state (git_path (demo_lock_env b) p ''--show-toplevel'' ov) s = (Inr ''/r'', later 1 s)"
  "run_state (git_path (demo_lock_env b) p ''--git-common-dir'' ov) s = (Inr ''/r/.git'', later 1 s)"
  "run_state (git_path (demo_lock_env b) p ''--absolute-git-dir'' ov) s = (Inr ''/r/.git'', later 1 s)"
  "run_state (git_path (demo_lock_env b) p ''--git-path index'' ov) s = (Inr ''/r/.git/index'', later 1 s)"
  by (simp_all add: git_path_def run_bind demo_rev_parse_def demo_rev_parses)

lemma demo_directory: "run_state (canonical_directory (demo_lock_env b) p l) s = (Inr p, later 2 s)"
  by (simp add: canonical_directory_def run_bind)

lemma demo_facts:
  "resolve_path demo_root demo_root = demo_root" "demo_metadata t demo_root = Inr demo_dir_md" "is_absolute (demo_git_dir @ [''index''])"
  "path_parent (demo_git_dir @ [''index'']) = Some demo_git_dir" "path_file_name (demo_git_dir @ [''index'']) = Some ''index''"
  "path_within demo_root (demo_git_dir @ [''index''])"
  "demo_metadata t (demo_git_dir @ [''index'']) = Inl NotFound"
  "path_push_suffix (demo_git_dir @ [''index'']) ''.lock'' = demo_git_dir @ [''index.lock'']"
  "demo_metadata t (demo_git_dir @ [''exomonad-mutation'']) = Inr demo_dir_md"
  "demo_metadata t (demo_git_dir @ [''exomonad-mutation'', ''refs.lease'']) = Inr demo_md"
  "md_kind demo_dir_md = Directory" "md_kind demo_md = RegularFile"
  by (simp_all add: resolve_path_def demo_root_def demo_git_dir_def is_absolute_def path_parent_def path_file_name_def path_within_def
    demo_metadata_def demo_paths_def demo_quarantine_def path_push_suffix_def lease_directory_def demo_dir_md_def demo_md_def)

lemma demo_roots:
  "run_state (resolve_roots (demo_lock_env b) demo_root demo_root ov) s = (Inr (demo_root, demo_git_dir), later 17 s)"
  by (simp add: resolve_roots_def run_try_do demo_directory demo_git_path demo_rev_parses demo_facts reject_symlink_def run_bind Let_def)

lemma demo_optional:
  assumes "demo_metadata (gr_clock s) p \<in> {Inl NotFound, Inr demo_md, Inr demo_dir_md}"
  shows "run_state (reject_optional_symlink (demo_lock_env b) p l) s = (Inr (), later 1 s)"
  using assms by (auto simp: reject_optional_symlink_def run_bind demo_facts)


lemma demo_paths_resolved:
  "run_state (resolve_paths_with_index_override (demo_lock_env b) demo_root demo_root ov) s = (Inr demo_paths, later 26 s)"
proof -
  have "run_state (canonicalize_leaf_parent (demo_lock_env b) (demo_git_dir @ [''index'']) l) s = (Inr (demo_git_dir @ [''index'']), later 1 s)" for l s
    by (simp add: canonicalize_leaf_parent_def run_bind demo_facts)
  moreover have "''index-'' @ path_digest (demo_lock_env b) (demo_git_dir @ [''index'']) @ ''.lease'' = ''index--r-.git-index.lease''"
    by (simp add: path_digest_def demo_git_dir_def) code_simp
  moreover have "demo_metadata t (demo_git_dir @ [''index.lock'']) \<in> {Inl NotFound, Inr demo_md, Inr demo_dir_md}" for t
    by (simp add: demo_metadata_def)
  ultimately show ?thesis
    by (simp add: resolve_paths_with_index_override_def run_try_do demo_roots demo_git_path demo_directory demo_rev_parses
      demo_optional demo_facts validate_index_ownership_def Let_def demo_paths_def lease_directory_def)
qed

lemma demo_validate: "run_state (validate_current_paths (demo_lock_env b) demo_root demo_lease) s = (Inr (), later 26 s)"
  by (simp add: validate_current_paths_def demo_lease_def run_try_do demo_paths_resolved) (simp add: demo_paths_def run_try_do demo_paths_resolved)

definition demo_snapshot :: native_git_lock_snapshot where
  "demo_snapshot = lock_snapshot_of demo_md []"

lemma demo_hash: "run_state (hash_file (demo_lock_env b) p h) s = (Inr [], later 1 s)"
  by (simp add: hash_file_def run_try_do read_lock_bytes.simps demo_lock_sha_def)

lemma demo_snapshot_lock:
  assumes "\<And>t. gr_clock s \<le> t \<Longrightarrow> t < gr_clock s + 6 \<Longrightarrow> demo_metadata t p = Inr demo_md"
  shows "run_state (snapshot_lock (demo_lock_env b) p) s = (Inr demo_snapshot, later 6 s)"
  by (simp add: snapshot_lock_def run_try_do look_or_def run_bind assms map_err_def demo_facts demo_hash verify_same_inode_def
    lock_evidence_max_bytes_def demo_md_def demo_snapshot_def)

lemma demo_metadata_lock:
  "demo_metadata t (mp_index_lock_file demo_paths) = (if t < 100 then Inr demo_md else Inl NotFound)"
  "demo_metadata t demo_quarantine = (if t < 100 then Inl NotFound else Inr demo_md)"
  by (simp_all add: demo_metadata_def demo_paths_def demo_quarantine_def)

definition demo_scope :: managed_process_scope where
  "demo_scope = \<lparr> ps_owner = demo_owner, ps_process_group_id = 7 \<rparr>"

definition demo_located :: located_proof where
  "demo_located = \<lparr> lp_event_id = ''e1'', lp_proof = demo_proof, lp_scope = demo_scope \<rparr>"

lemma demo_events:
  "read_git_recovery_events_at demo_parse_line None (el_ledger demo_git_log) [lock_held_event]
     = Inr [\<lparr> gre_event_id = ''e1'', gre_event_type = lock_held_event, gre_data = proof_to_json demo_proof \<rparr>]"
  "read_git_recovery_events_at demo_parse_line None (el_ledger demo_git_log) [quarantine_intent_event] = Inr []"
  "read_git_recovery_events_at demo_parse_line None (el_ledger demo_git_log) [quarantined_event] = Inr []"
  by code_simp+

lemma demo_scope_active: "run_state (managed_scope_active (demo_lock_env False) demo_scope) s = (Inr False, later 2 s)"
  by (simp add: managed_scope_active_def run_try_do run_bind start_time_ticks_def process_group_exists_def demo_scope_def demo_owner_def)


lemma demo_started:
  "\<exists>r. read_git_recovery_events_at demo_parse_line None (el_ledger demo_git_log) [process_started_event] = Inr [r]
     \<and> scope_of_record demo_paths demo_proof r = Inr [demo_scope]"
  by (rule exI [of _ "\<lparr> gre_event_id = ''e0'', gre_event_type = process_started_event,
    gre_data = JObj [(''common_git_dir'', JStr (path_str demo_git_dir)), (''git_dir'', JStr (path_str demo_git_dir)),
          (''index_file'', JStr (path_str (mp_index_file demo_paths))),
          (''index_lock_file'', JStr (path_str (mp_index_lock_file demo_paths))),
          (''operation_id_sha256'', JStr ''op''), (''process_group_id'', JInt 7), (''process_id'', JInt 7),
          (''process_start_identity'', JInt 9), (''worktree_root'', JStr (path_str demo_root))] \<rparr>"]) code_simp

lemma demo_matching_scope: "run_state (matching_process_scope (demo_lock_env b) demo_paths demo_proof) s = (Inr demo_scope, later 1 s)"
  using demo_started by (auto simp: matching_process_scope_def read_git_recovery_events_def run_bind unique_scope_def)

lemma demo_matches:
  "proof_of_record demo_paths \<lparr> gre_event_id = ''e1'', gre_event_type = lock_held_event, gre_data = proof_to_json demo_proof \<rparr> = Inr (Some demo_proof)"
  "proof_matches_paths (demo_lock_env b) demo_proof demo_paths"
  "np_lock demo_proof = demo_snapshot"
  by code_simp+

lemma demo_matching_proof: "run_state (matching_proof (demo_lock_env b) demo_paths demo_snapshot) s = (Inr (Some demo_located), later 2 s)"
  by (simp add: matching_proof_def read_git_recovery_events_def run_try_do demo_events demo_matches demo_matching_scope demo_located_def)

lemma demo_log:
  "fst (begin_append demo_lock_sha demo_lock_log_env demo_git_log) = Inr 1"
  by code_simp

lemma demo_commit:
  "bindR (fst (commit_append (\<lambda>j. ''x'') demo_lock_sha open_ledger demo_lock_log_env 1 ty ''git-mutation'' data demo_git_log)) (\<lambda>(event_id, _). Inr event_id) = Inr ''u''"
  by code_simp

lemma demo_append: "run_state (log_append (demo_lock_env b) ty ''git-mutation'' data) s =
   (Inr ''u'', \<lparr> gr_clock = gr_clock s + 2, gr_trace = gr_trace s @ [(gr_clock s + 1, Appended ty data (Inr ''u''))] \<rparr>)"
  using demo_commit [of ty data] by (simp add: log_append_def run_bind run_perform Let_def demo_log)


lemma demo_audit:
  assumes "ty \<in> {quarantine_intent_event, quarantined_event}"
  shows "run_state (append_audit_once (demo_lock_env b) ty data p) s =
   (Inr ''u'', \<lparr> gr_clock = gr_clock s + 3, gr_trace = gr_trace s @ [(gr_clock s + 2, Appended ty data (Inr ''u''))] \<rparr>)"
  using assms by (auto simp: append_audit_once_def find_audit_event_def read_git_recovery_events_def run_try_do run_bind demo_events
    matching_event_id_def demo_append)

lemma demo_open_directory:
  "(\<And>t. demo_metadata t p = Inr demo_dir_md) \<Longrightarrow> run_state (open_directory_nofollow (demo_lock_env b) p) s = (Inr 2, later 6 s)"
  by (simp add: open_directory_nofollow_def run_try_do demo_facts)

lemma demo_names:
  "path_parent (mp_index_lock_file demo_paths) = Some demo_git_dir" "path_file_name (mp_index_lock_file demo_paths) = Some ''index.lock''"
  "path_parent demo_quarantine = Some (quarantine_dir demo_paths)" "path_file_name demo_quarantine = Some ''e1.lock''"
  "demo_metadata t demo_git_dir = Inr demo_dir_md" "demo_metadata t (quarantine_dir demo_paths) = Inr demo_dir_md"
  "quarantine_path (demo_lock_env b) demo_paths ''e1'' = demo_quarantine"
  by (simp_all add: path_parent_def path_file_name_def demo_metadata_def demo_paths_def demo_quarantine_def quarantine_dir_def demo_git_dir_def
    quarantine_path_def demo_lock_sha_def)

lemma demo_move:
  assumes "gr_clock s = 81"
  shows "run_state (quarantine_move (demo_lock_env b) (mp_index_lock_file demo_paths) demo_quarantine demo_snapshot) s =
    (Inr (), \<lparr> gr_clock = 102, gr_trace = gr_trace s @ [(99, Renamed (mp_index_lock_file demo_paths) demo_quarantine)] \<rparr>)"
proof -
  have "run_state (snapshot_lock (demo_lock_env b) (mp_index_lock_file demo_paths)) (later 12 s) = (Inr demo_snapshot, later 18 s)"
    using assms by (subst demo_snapshot_lock) (simp_all add: demo_metadata_lock)
  then show ?thesis using assms
    by (simp add: quarantine_move_def or_fail_def atomic_move_lock_def run_bind run_try_do demo_names demo_open_directory run_perform Let_def map_err_def)
qed

lemma demo_revalidate:
  assumes "gr_clock s \<le> 60"
  shows "run_state (revalidate_before_quarantine (demo_lock_env False) demo_root demo_lease demo_proof) s = (Inr (), later 36 s)"
proof -
  have "gl_paths demo_lease = demo_paths" by (simp add: demo_lease_def)
  moreover have "run_state (snapshot_lock (demo_lock_env False) (mp_index_lock_file demo_paths)) (later 26 s) = (Inr demo_snapshot, later 32 s)"
    using assms by (subst demo_snapshot_lock) (simp_all add: demo_metadata_lock)
  moreover have "ls_size demo_snapshot = 0" "lp_proof demo_located = demo_proof" "lp_scope demo_located = demo_scope"
    by (simp_all add: demo_snapshot_def lock_snapshot_of_def demo_md_def demo_located_def)
  ultimately show ?thesis
    by (simp add: revalidate_before_quarantine_def or_fail_def run_bind run_try_do demo_validate demo_matches demo_matching_proof
      demo_scope_active map_err_def Let_def)
qed


definition demo_intent :: quarantine_audit_data where
  "demo_intent = \<lparr> qa_schema_version = 1, qa_proof_event_id = ''e1'', qa_proof = demo_proof,
     qa_quarantine_file = path_str demo_quarantine \<rparr>"

definition demo_receipt_data :: quarantine_receipt_data where
  "demo_receipt_data = \<lparr> qr_schema_version = 1, qr_proof_event_id = ''e1'', qr_intent_event_id = ''u'', qr_proof = demo_proof,
     qr_quarantine_file = path_str demo_quarantine, qr_quarantined_lock = demo_snapshot \<rparr>"

lemma demo_quarantined:
  assumes "gr_clock s = 38"
  shows "run_state (quarantine_proven_lock (demo_lock_env False) demo_root demo_lease demo_located) s =
    (Recovered (recovery_result ''u'' demo_receipt_data), \<lparr> gr_clock = 114, gr_trace = gr_trace s @
       [(44, Appended quarantine_intent_event (audit_to_json demo_intent) (Inr ''u'')),
        (99, Renamed (mp_index_lock_file demo_paths) demo_quarantine),
        (113, Appended quarantined_event (receipt_to_json demo_receipt_data) (Inr ''u''))] \<rparr>)"
proof -
  have d: "run_state (ensure_safe_lease_directory (demo_lock_env False) (quarantine_dir demo_paths)) s = (Inr (), later 2 s)"
    by (simp add: ensure_safe_lease_directory_def canonical_lease_directory_def run_bind demo_names demo_facts)
  have c: "run_state (check_quarantine_capacity (demo_lock_env False) p target) s' = (Inr (), later 2 s')" for p target s'
    by (simp add: check_quarantine_capacity_def run_bind quarantine_capacity_def)
  have q: "run_state (snapshot_quarantined (demo_lock_env False) demo_quarantine demo_snapshot reason) s' = (Inr demo_snapshot, later 6 s')"
    if "gr_clock s' = 103" for s' reason
    using that by (simp add: snapshot_quarantined_def run_bind demo_snapshot_lock demo_metadata_lock same_quarantined_inode_def)
  have l: "gl_paths demo_lease = demo_paths" "lp_event_id demo_located = ''e1''" "lp_proof demo_located = demo_proof" "lp_scope demo_located = demo_scope"
    by (simp_all add: demo_lease_def demo_located_def)
  show ?thesis using assms
    by (simp add: quarantine_proven_lock_def l Let_def verdict_of_def or_fail_def run_bind run_try_do d c q map_err_def demo_names
      demo_audit demo_revalidate demo_matches demo_move recheck_lock_gone_def demo_metadata_lock verify_quarantined_owner_def demo_scope_active
      record_receipt_def demo_intent_def demo_receipt_data_def)
qed


definition demo_end :: git_run where
  "demo_end = \<lparr> gr_clock = 114, gr_trace =
       [(44, Appended quarantine_intent_event (audit_to_json demo_intent) (Inr ''u'')),
        (99, Renamed (mp_index_lock_file demo_paths) demo_quarantine),
        (113, Appended quarantined_event (receipt_to_json demo_receipt_data) (Inr ''u''))] \<rparr>"

lemma demo_reconcile:
  "reconcile_native_index_lock (demo_lock_env False) demo_root demo_lease 0 start_run = Some (Recovered (recovery_result ''u'' demo_receipt_data), demo_end)"
proof -
  have l: "gl_paths demo_lease = demo_paths" "gl_resource demo_lease = IndexResource" "lp_scope demo_located = demo_scope" "ls_size demo_snapshot = 0"
    by (simp_all add: demo_lease_def demo_located_def demo_snapshot_def lock_snapshot_of_def demo_md_def)
  have sn: "run_state (snapshot_lock (demo_lock_env False) (mp_index_lock_file demo_paths)) \<lparr> gr_clock = 28, gr_trace = [] \<rparr> =
      (Inr demo_snapshot, \<lparr> gr_clock = 34, gr_trace = [] \<rparr>)"
    by (subst demo_snapshot_lock) (simp_all add: demo_metadata_lock)
  have "run_state (reconcile_once (demo_lock_env False) demo_root demo_lease) \<lparr> gr_clock = 27, gr_trace = [] \<rparr> =
      (Recovered (recovery_result ''u'' demo_receipt_data), demo_end)"
    by (simp add: reconcile_once_def run_bind Let_def l demo_metadata_lock demo_facts reconcile_present_lock_def verdict_of_def or_fail_def
      run_try_do sn map_err_def demo_matching_proof demo_scope_active demo_quarantined demo_end_def)
  then have "run_state (reconcile_round (demo_lock_env False) demo_root demo_lease d) \<lparr> gr_clock = 1, gr_trace = [] \<rparr> =
      ((False, Recovered (recovery_result ''u'' demo_receipt_data)), demo_end)" for d
    by (simp add: reconcile_round_def run_bind demo_validate)
  then show ?thesis
    by (simp add: reconcile_native_index_lock_def l start_run_def reconcile_loop.simps)
qed

lemma demo_clock: "clock_advances (demo_lock_env b)"
  by (auto simp: clock_advances_def)


lemma demo_alive: "run_state (verify_process_identity (demo_lock_env True) demo_owner p) s = (Inr (), later 1 s)"
proof -
  have "parse_start_time_ticks demo_stat = Some 9" by code_simp
  then show ?thesis by (simp add: verify_process_identity_def start_time_ticks_def run_bind demo_owner_def)
qed

lemma demo_recorded:
  "run_state (try_record_proof (demo_lock_env True) log_dir demo_lease demo_owner) start_run = (Inr (Some (''e1'', demo_proof)), \<lparr> gr_clock = 17, gr_trace = [] \<rparr>)"
proof -
  have l: "gl_paths demo_lease = demo_paths" "gl_resource demo_lease = IndexResource"
    by (simp_all add: demo_lease_def)
  have "proof_of (demo_lock_env True) demo_lease demo_owner demo_snapshot = demo_proof"
    by (simp add: demo_proof_def proof_of_def demo_base_env_def path_digest_def demo_snapshot_def)
  moreover have "run_state (snapshot_lock (demo_lock_env True) (mp_index_lock_file demo_paths)) s = (Inr demo_snapshot, later 6 s)"
    if "gr_clock s \<le> 20" for s
    using that by (intro demo_snapshot_lock) (simp add: demo_metadata_lock)
  moreover have "run_state (holds_inode (demo_lock_env True) i (ls_device demo_snapshot) (ls_inode demo_snapshot)) s = (Inr True, later 2 s)" for i s
    by (simp add: holds_inode_def run_bind demo_snapshot_def lock_snapshot_of_def)
  moreover have "run_state (append_proof_once (demo_lock_env True) log_dir (proof_to_json demo_proof)) s = (Inr ''e1'', later 1 s)" for s
    by (simp add: append_proof_once_def find_proof_event_def read_git_recovery_events_def run_try_do run_bind demo_events matching_event_id_def)
  ultimately show ?thesis
    by (simp add: try_record_proof_def l run_try_do run_bind demo_alive start_run_def Let_def)
qed

definition demo_refs_lease :: git_mutation_lease where
  "demo_refs_lease = demo_lease \<lparr> gl_resource := SharedRefs \<rparr>"

lemma demo_acquire_one:
  "\<exists>s'. acquire_resolved (demo_lock_env True) demo_root demo_paths resource ''op'' wait None s
      = Some (Inr (demo_lease \<lparr> gl_resource := resource \<rparr>), s')"
proof -
  let ?p = "lease_path resource demo_paths"
  have m: "demo_metadata t ?p = Inr demo_md" for t
    by (cases resource) (simp_all add: lease_path_def demo_paths_def demo_metadata_def demo_quarantine_def)
  have d: "path_parent ?p = Some (demo_git_dir @ [''exomonad-mutation''])"
    by (cases resource) (simp_all add: lease_path_def demo_paths_def path_parent_def demo_git_dir_def)
  have "run_state (ensure_safe_lease_directory (demo_lock_env True) (demo_git_dir @ [''exomonad-mutation''])) s = (Inr (), later 2 s)" for s
    by (simp add: ensure_safe_lease_directory_def canonical_lease_directory_def run_bind demo_facts)
  moreover have v: "run_state (verify_open_path (demo_lock_env True) 3 ?p) s = (Inr (), later 2 s)" for s
    by (simp add: verify_open_path_def run_bind m demo_facts)
  moreover have "run_state (open_lease_file (demo_lock_env True) ?p) s = (Inr 3, later 4 s)" for s
    by (simp add: open_lease_file_def run_bind run_try_do v demo_optional m)
  moreover have "fst (run_state (finish_acquire (demo_lock_env True) demo_root demo_paths resource ''op'' None 3) s)
      = Inr (demo_lease \<lparr> gl_resource := resource \<rparr>)" for s
  proof -
    have w: "mp_worktree_root demo_paths = demo_root" by (simp add: demo_paths_def)
    have "\<exists>s'. run_state (write_lease_record (demo_lock_env True) 3 demo_paths resource ''op'') (later 28 s) = (Inr (), s')"
      by (simp add: write_lease_record_def process_start_identity_def run_bind Let_def run_perform map_err_def)
    then obtain s' where "run_state (write_lease_record (demo_lock_env True) 3 demo_paths resource ''op'') (later 28 s) = (Inr (), s')" by blast
    then show ?thesis by (simp add: finish_acquire_def Let_def run_bind run_try_do v w demo_paths_resolved demo_lease_def)
  qed
  ultimately show ?thesis
    by (auto simp: acquire_resolved_def d Let_def acquire_loop.simps acquire_round_def run_bind run_perform split: prod.split)
      (metis fst_conv)
qed

lemma demo_acquire:
  "\<exists>s'. acquire_set_with_index_override (demo_lock_env True) demo_root demo_root [IndexResource, SharedRefs, IndexResource] ''op'' 5 None start_run
     = Some (Inr [demo_refs_lease, demo_lease], s')"
proof -
  have o: "remdups_adj (sort [IndexResource, SharedRefs, IndexResource]) = [SharedRefs, IndexResource]" "validate_operation_id ''op'' = Inr ()"
    by code_simp+
  have i: "demo_lease \<lparr> gl_resource := IndexResource \<rparr> = demo_lease" by (simp add: demo_lease_def)
  obtain s1 where 1: "acquire_resolved (demo_lock_env True) demo_root demo_paths SharedRefs ''op'' 4 None \<lparr> gr_clock = 28, gr_trace = [] \<rparr>
      = Some (Inr demo_refs_lease, s1)"
    using demo_acquire_one [of SharedRefs 4 "\<lparr> gr_clock = 28, gr_trace = [] \<rparr>"] by (auto simp: demo_refs_lease_def)
  obtain s2 where "acquire_resolved (demo_lock_env True) demo_root demo_paths IndexResource ''op'' (31 - gr_clock s1) None (later 1 s1)
      = Some (Inr demo_lease, s2)"
    using demo_acquire_one [of IndexResource "31 - gr_clock s1" "later 1 s1"] i by auto
  with 1 show ?thesis
    by (simp only: acquire_set_with_index_override_def run_try_do o State_Monad.run_state_return prod.case sum.case)
      (simp add: demo_paths_resolved start_run_def)
qed

section \<open>The properties on the run\<close>

lemma demo_no_trace: "gr_trace start_run = []"
  by (simp add: start_run_def)

theorem lease_set_discipline_witness:
  "\<exists>s' new. acquire_set_with_index_override (demo_lock_env True) demo_root demo_root [IndexResource, SharedRefs, IndexResource] ''op'' 5 None start_run
       = Some (Inr [demo_refs_lease, demo_lease], s')
     \<and> gr_trace s' = new \<and> length (locked_paths (lock_events new)) \<le> 2
     \<and> held_after [] (lock_events new) = [lease_file demo_lease, lease_file demo_refs_lease]"
proof -
  from demo_acquire obtain s' where a: "acquire_set_with_index_override (demo_lock_env True) demo_root demo_root
      [IndexResource, SharedRefs, IndexResource] ''op'' 5 None start_run = Some (Inr [demo_refs_lease, demo_lease], s')" by blast
  from lease_set_discipline [OF demo_clock [of True], of demo_root demo_root "[IndexResource, SharedRefs, IndexResource]" "''op''" 5 None start_run]
  show ?thesis using a
    by (auto simp: a demo_no_trace)
qed

theorem recorded_proof_sound_witness:
  "claims_lock (demo_lock_env True) demo_paths demo_snapshot
     \<lparr> gre_event_id = ''e1'', gre_event_type = lock_held_event, gre_data = proof_to_json demo_proof \<rparr>"
proof -
  have "snapshot_encodable (np_lock demo_proof)" "identity_encodable demo_owner" "gl_paths demo_lease = demo_paths"
    by (simp_all add: demo_matches snapshot_encodable_def identity_encodable_def demo_snapshot_def lock_snapshot_of_def demo_md_def demo_owner_def
      demo_lease_def i64_max_def)
  with recorded_proof_sound [OF demo_recorded [of demo_root]] demo_matches(3) show ?thesis by simp
qed

theorem quarantine_needs_proof_witness:
  "\<exists>lp i m ti tv to ts tg. ti < tv \<and> tv \<le> to \<and> to < ts \<and> ts < tg \<and> tg < 98 \<and> lp_proof m = lp_proof lp
     \<and> event_recorded (demo_lock_env False) ti quarantine_intent_event i (audit_to_json (intent_of (demo_lock_env False) demo_paths lp))
     \<and> ownership_proved (demo_lock_env False) to demo_paths (np_lock (lp_proof lp)) m
     \<and> scope_gone (demo_lock_env False) tg (lp_scope m)
     \<and> file_is (demo_lock_env False) 98 (mp_index_lock_file demo_paths) (np_lock (lp_proof lp))"
proof -
  have l: "gl_paths demo_lease = demo_paths" "gr_trace start_run = []" "99 - 1 = (98::nat)" by (simp_all add: demo_lease_def start_run_def)
  have m: "(99, Renamed (mp_index_lock_file demo_paths) demo_quarantine) \<in> set (gr_trace demo_end)"
    by (simp add: demo_end_def)
  from quarantine_needs_proof [OF demo_clock [of False], of demo_root demo_lease 0 start_run] show ?thesis
    unfolding demo_reconcile l append_Nil option.inject prod.inject
    apply (elim exE conjE)
    apply (drule spec [of _ 99], drule spec [of _ "mp_index_lock_file demo_paths"], drule spec [of _ demo_quarantine], drule mp)
     apply (use m in simp)
    apply (elim exE conjE)
    unfolding l
    apply (intro exI conjI)
    apply assumption+
    done
qed

theorem recovery_on_record_witness:
  "\<exists>p l tp ti tr tf. {tp, ti, tr, tf} \<subseteq> {0..<114} \<and> proof_found (demo_lock_env False) tp ''e1'' p
    \<and> intent_found (demo_lock_env False) ti (recovery_result ''u'' demo_receipt_data) p
    \<and> receipt_found (demo_lock_env False) tr (recovery_result ''u'' demo_receipt_data) p l
    \<and> file_is (demo_lock_env False) tf demo_quarantine l \<and> owner_gone (demo_lock_env False) demo_paths p 0 114"
proof -
  have "gr_clock start_run = 0" "gr_clock demo_end = 114" "rr_proof_event_id (recovery_result ''u'' demo_receipt_data) = ''e1''"
    "gl_paths demo_lease = demo_paths" "quarantine_path (demo_lock_env False) demo_paths ''e1'' = demo_quarantine"
    by (simp_all add: start_run_def demo_end_def recovery_result_def demo_receipt_data_def demo_lease_def demo_names)
  with recovery_on_record [OF demo_reconcile] show ?thesis by (simp only: insert_subset) blast
qed

end
