(* ===== verification/Utf8.thy ===== *)
theory Utf8
  imports Str_Ops
begin

text \<open>
  UTF-8 as \<^verbatim>\<open>std::str\<close> reads it. A byte sequence falls into chunks, each one encoded character or a
  longest beginning of one; \<^verbatim>\<open>String::from_utf8\<close> asks whether all of them are characters,
  \<^verbatim>\<open>from_utf8_lossy\<close> replaces the others by U+FFFD, and \<^verbatim>\<open>str::chars\<close> decodes them.
\<close>

section \<open>Chunks\<close>

text \<open>The ranges of the bytes that follow a first byte.\<close>

definition utf8_ranges :: "nat \<Rightarrow> (nat \<times> nat) list option" where
  "utf8_ranges b =
     (if b < 0x80 then Some []
      else if b < 0xC2 then None
      else if b < 0xE0 then Some [(0x80, 0xBF)]
      else if b = 0xE0 then Some [(0xA0, 0xBF), (0x80, 0xBF)]
      else if b = 0xED then Some [(0x80, 0x9F), (0x80, 0xBF)]
      else if b < 0xF0 then Some [(0x80, 0xBF), (0x80, 0xBF)]
      else if b = 0xF0 then Some [(0x90, 0xBF), (0x80, 0xBF), (0x80, 0xBF)]
      else if b < 0xF4 then Some [(0x80, 0xBF), (0x80, 0xBF), (0x80, 0xBF)]
      else if b = 0xF4 then Some [(0x80, 0x8F), (0x80, 0xBF), (0x80, 0xBF)]
      else None)"

fun bytes_in_ranges :: "(nat \<times> nat) list \<Rightarrow> string \<Rightarrow> nat" where
  "bytes_in_ranges ((a, b) # rs) (c # s) =
     (if a \<le> of_char c \<and> of_char c \<le> b then Suc (bytes_in_ranges rs s) else 0)"
| "bytes_in_ranges _ _ = 0"

text \<open>The first chunk: its length and whether it is a character.\<close>

fun utf8_first :: "string \<Rightarrow> nat \<times> bool" where
  "utf8_first [] = (0, False)"
| "utf8_first (c # s) =
     (case utf8_ranges (of_char c) of
        None \<Rightarrow> (1, False)
      | Some rs \<Rightarrow> (let n = bytes_in_ranges rs s in (Suc n, n = length rs)))"

lemma utf8_first_pos: "s \<noteq> [] \<Longrightarrow> 0 < fst (utf8_first s)"
  by (cases s) (auto simp: Let_def split: option.split)

function utf8_chunks :: "string \<Rightarrow> (bool \<times> string) list" where
  "utf8_chunks [] = []"
| "utf8_chunks (c # s) =
     (case utf8_first (c # s) of (n, ok) \<Rightarrow> (ok, take n (c # s)) # utf8_chunks (drop n (c # s)))"
  by pat_completeness auto
termination
  by (relation "measure length")
    (simp, metis diff_less fst_conv in_measure length_drop length_greater_0_conv list.distinct(1) utf8_first_pos)

declare utf8_chunks.simps(2) [simp del]

definition is_utf8 :: "string \<Rightarrow> bool" where
  "is_utf8 s = list_all fst (utf8_chunks s)"

definition from_utf8 :: "string \<Rightarrow> string option" where
  "from_utf8 s = (if is_utf8 s then Some s else None)"

definition from_utf8_lossy :: "string \<Rightarrow> string" where
  "from_utf8_lossy s = concat (map (\<lambda>(ok, t). if ok then t else [CHR 0xEF, CHR 0xBF, CHR 0xBD]) (utf8_chunks s))"

section \<open>Characters\<close>

fun utf8_scalar :: "string \<Rightarrow> nat" where
  "utf8_scalar [a] = of_char a"
| "utf8_scalar [a, b] = (of_char a - 0xC0) * 64 + (of_char b - 0x80)"
| "utf8_scalar [a, b, c] = (of_char a - 0xE0) * 4096 + (of_char b - 0x80) * 64 + (of_char c - 0x80)"
| "utf8_scalar [a, b, c, d] =
     (of_char a - 0xF0) * 262144 + (of_char b - 0x80) * 4096 + (of_char c - 0x80) * 64 + (of_char d - 0x80)"
| "utf8_scalar _ = 0"

definition str_chars :: "string \<Rightarrow> nat list" where
  "str_chars s = map (\<lambda>(ok, t). utf8_scalar t) (utf8_chunks s)"

lemma utf8_chunks_concat: "concat (map snd (utf8_chunks s)) = s"
proof (induction s rule: utf8_chunks.induct)
  case (2 c s)
  then show ?case by (cases "utf8_first (c # s)") (simp add: utf8_chunks.simps(2) del: utf8_first.simps)
qed simp

text \<open>An encoded character.\<close>

definition utf8_char :: "string \<Rightarrow> bool" where
  "utf8_char t \<longleftrightarrow> t \<noteq> [] \<and> utf8_first t = (length t, True)"

lemma bytes_in_ranges_le: "bytes_in_ranges rs s \<le> length rs" "bytes_in_ranges rs s \<le> length s"
  by (induction rs s rule: bytes_in_ranges.induct) auto

lemma bytes_in_ranges_take: "bytes_in_ranges rs s = length rs \<Longrightarrow> bytes_in_ranges rs (take (length rs) s) = length rs"
  by (induction rs s rule: bytes_in_ranges.induct) (auto split: if_splits)

lemma utf8_first_char:
  assumes "s \<noteq> []" "utf8_first s = (n, True)"
  shows "utf8_char (take n s)"
proof (cases s)
  case (Cons c r)
  with assms obtain rs where rs: "utf8_ranges (of_char c) = Some rs" "n = Suc (bytes_in_ranges rs r)" "bytes_in_ranges rs r = length rs"
    by (auto simp: Let_def split: option.splits)
  moreover have "length rs \<le> length r" using bytes_in_ranges_le(2) [of rs r] rs(3) by simp
  ultimately show ?thesis using bytes_in_ranges_take [of rs r] Cons by (simp add: utf8_char_def Let_def)
qed (use assms in simp)

lemma utf8_chunks_chars: "(True, t) \<in> set (utf8_chunks s) \<Longrightarrow> utf8_char t"
proof (induction s rule: utf8_chunks.induct)
  case (2 c s)
  obtain n ok where f: "utf8_first (c # s) = (n, ok)" by fastforce
  with 2 show ?case using utf8_first_char [of "c # s" n]
    by (auto simp: utf8_chunks.simps(2) simp del: utf8_first.simps)
qed simp

definition is_scalar :: "nat \<Rightarrow> bool" where
  "is_scalar n \<longleftrightarrow> n < 0x110000 \<and> \<not> (0xD800 \<le> n \<and> n < 0xE000)"

text \<open>The four shapes of an encoded character.\<close>

lemma utf8_char_cases:
  assumes "utf8_char t"
  obtains (one) a where "t = [a]" "(of_char a :: nat) < 0x80"
  | (two) a b where "t = [a, b]" "0xC2 \<le> (of_char a :: nat)" "(of_char a :: nat) < 0xE0"
      "0x80 \<le> (of_char b :: nat)" "(of_char b :: nat) \<le> 0xBF"
  | (three) a b c where "t = [a, b, c]" "0xE0 \<le> (of_char a :: nat)" "(of_char a :: nat) < 0xF0"
      "0x80 \<le> (of_char b :: nat)" "(of_char b :: nat) \<le> 0xBF" "0x80 \<le> (of_char c :: nat)" "(of_char c :: nat) \<le> 0xBF"
      "(of_char a :: nat) = 0xE0 \<Longrightarrow> 0xA0 \<le> (of_char b :: nat)" "(of_char a :: nat) = 0xED \<Longrightarrow> (of_char b :: nat) \<le> 0x9F"
  | (four) a b c d where "t = [a, b, c, d]" "0xF0 \<le> (of_char a :: nat)" "(of_char a :: nat) \<le> 0xF4"
      "0x80 \<le> (of_char b :: nat)" "(of_char b :: nat) \<le> 0xBF" "0x80 \<le> (of_char c :: nat)" "(of_char c :: nat) \<le> 0xBF"
      "0x80 \<le> (of_char d :: nat)" "(of_char d :: nat) \<le> 0xBF"
      "(of_char a :: nat) = 0xF0 \<Longrightarrow> 0x90 \<le> (of_char b :: nat)" "(of_char a :: nat) = 0xF4 \<Longrightarrow> (of_char b :: nat) \<le> 0x8F"
proof -
  from assms obtain a s where t: "t = a # s" by (cases t) (auto simp: utf8_char_def)
  with assms obtain rs where rs: "utf8_ranges (of_char a) = Some rs" "bytes_in_ranges rs s = length rs" "length s = length rs"
    by (auto simp: utf8_char_def Let_def split: option.splits)
  have "bytes_in_ranges rs s = length rs \<Longrightarrow> length s = length rs \<Longrightarrow>
      list_all2 (\<lambda>(a, b) c. a \<le> of_char c \<and> of_char c \<le> b) rs s" for rs s
    by (induction rs s rule: bytes_in_ranges.induct) (auto split: if_splits)
  from this [OF rs(2,3)] rs(1) t show ?thesis
    unfolding utf8_ranges_def
    by (auto simp: list_all2_Cons1 split: if_splits)
      ((rule that(1), assumption, (simp; fail)+) | (rule that(2), assumption, (simp; fail)+) | (rule that(3), assumption, (simp; fail)+) | (rule that(4), assumption, (simp; fail)+))+
qed

text \<open>The number of a character tells how long its encoding is, and what it is.\<close>

lemma utf8_scalar_range:
  assumes "utf8_char t"
  shows "is_scalar (utf8_scalar t)"
    "length t = (if utf8_scalar t < 0x80 then 1 else if utf8_scalar t < 0x800 then 2 else if utf8_scalar t < 0x10000 then 3 else 4)"
proof -
  have "is_scalar (utf8_scalar t) \<and>
    length t = (if utf8_scalar t < 0x80 then 1 else if utf8_scalar t < 0x800 then 2 else if utf8_scalar t < 0x10000 then 3 else 4)"
    using assms
  proof (cases rule: utf8_char_cases)
    case (one a)
    then show ?thesis by (simp add: is_scalar_def)
  next
    case (two a b)
    from le_Suc_ex [OF two(2)] le_Suc_ex [OF two(4)] obtain x y :: nat where xy: "of_char a = 0xC2 + x" "of_char b = 0x80 + y" by blast
    with two show ?thesis by (simp add: is_scalar_def)
  next
    case (three a b c)
    from le_Suc_ex [OF three(2)] le_Suc_ex [OF three(4)] le_Suc_ex [OF three(6)] obtain x y z :: nat
      where xyz: "of_char a = 0xE0 + x" "of_char b = 0x80 + y" "of_char c = 0x80 + z" by blast
    then have b: "x < 16" "y < 64" "z < 64" "x = 0 \<Longrightarrow> 32 \<le> y" "x = 13 \<Longrightarrow> y \<le> 31" using three by auto
    have "0x800 \<le> x * 4096 + y * 64 + z" using b by (cases "x = 0") auto
    moreover have "x * 4096 + y * 64 + z < 0x10000" using b by simp
    moreover have "\<not> (0xD800 \<le> x * 4096 + y * 64 + z \<and> x * 4096 + y * 64 + z < 0xE000)"
      using b by (cases x "13 :: nat" rule: linorder_cases) auto
    ultimately show ?thesis using three(1) xyz by (simp add: is_scalar_def)
  next
    case (four a b c d)
    from le_Suc_ex [OF four(2)] le_Suc_ex [OF four(4)] le_Suc_ex [OF four(6)] le_Suc_ex [OF four(8)] obtain x y z w :: nat
      where xyz: "of_char a = 0xF0 + x" "of_char b = 0x80 + y" "of_char c = 0x80 + z" "of_char d = 0x80 + w" by blast
    then have b: "x \<le> 4" "y < 64" "z < 64" "w < 64" "x = 0 \<Longrightarrow> 16 \<le> y" "x = 4 \<Longrightarrow> y \<le> 15" using four by auto
    have "0x10000 \<le> x * 262144 + y * 4096 + z * 64 + w" using b by (cases "x = 0") auto
    moreover have "x * 262144 + y * 4096 + z * 64 + w < 0x110000" using b by (cases "x = 4") auto
    ultimately show ?thesis using four(1) xyz by (simp add: is_scalar_def)
  qed
  then show "is_scalar (utf8_scalar t)"
    "length t = (if utf8_scalar t < 0x80 then 1 else if utf8_scalar t < 0x800 then 2 else if utf8_scalar t < 0x10000 then 3 else 4)"
    by auto
qed

lemma radix_64: "x * 64 + y = x' * 64 + y' \<Longrightarrow> y < 64 \<Longrightarrow> y' < 64 \<Longrightarrow> x = x' \<and> y = y'" for x y x' y' :: nat
proof -
  assume *: "x * 64 + y = x' * 64 + y'" "y < 64" "y' < 64"
  have "x = (x * 64 + y) div 64" "y = (x * 64 + y) mod 64" "x' = (x' * 64 + y') div 64" "y' = (x' * 64 + y') mod 64"
    using *(2,3) by simp_all
  then show ?thesis using *(1) by metis
qed

lemma digit_shift: "k \<le> (of_char a :: nat) \<Longrightarrow> k \<le> (of_char b :: nat) \<Longrightarrow> of_char a - k = (of_char b - k :: nat) \<longleftrightarrow> a = b"
  by (simp add: eq_diff_iff)

lemma utf8_scalar_horner:
  "utf8_scalar [a, b, c] = ((of_char a - 0xE0) * 64 + (of_char b - 0x80)) * 64 + (of_char c - 0x80)"
  "utf8_scalar [a, b, c, d] = (((of_char a - 0xF0) * 64 + (of_char b - 0x80)) * 64 + (of_char c - 0x80)) * 64 + (of_char d - 0x80)"
  by (simp_all add: algebra_simps)

lemma utf8_scalar_inject:
  assumes "utf8_char s" "utf8_char t" "utf8_scalar s = utf8_scalar t"
  shows "s = t"
proof -
  have len: "length s = length t" using utf8_scalar_range(2) [OF assms(1)] utf8_scalar_range(2) [OF assms(2)] assms(3) by simp
  from assms(1) show ?thesis
  proof (cases rule: utf8_char_cases)
    case (one a)
    from assms(2) show ?thesis by (cases rule: utf8_char_cases) (use one len assms(3) in auto)
  next
    case s: (two a b)
    from assms(2) show ?thesis
    proof (cases rule: utf8_char_cases)
      case t: (two a' b')
      from assms(3) have "of_char a - 0xC0 = of_char a' - (0xC0 :: nat) \<and> of_char b - 0x80 = of_char b' - (0x80 :: nat)"
        using s t by (intro radix_64) auto
      then show ?thesis using s t by (simp add: digit_shift)
    qed (use s len in auto)
  next
    case s: (three a b c)
    from assms(2) show ?thesis
    proof (cases rule: utf8_char_cases)
      case t: (three a' b' c')
      have lows: "of_char c - 0x80 < (64 :: nat)" "of_char c' - 0x80 < (64 :: nat)" "of_char b - 0x80 < (64 :: nat)" "of_char b' - 0x80 < (64 :: nat)"
        using s t by auto
      note e = assms(3) [unfolded s(1) t(1) utf8_scalar_horner]
      note f = radix_64 [OF e lows(1,2)]
      note g = radix_64 [OF f [THEN conjunct1] lows(3,4)]
      from f g show ?thesis using s t by (simp add: digit_shift)
    qed (use s len in auto)
  next
    case s: (four a b c d)
    from assms(2) show ?thesis
    proof (cases rule: utf8_char_cases)
      case t: (four a' b' c' d')
      have lows: "of_char d - 0x80 < (64 :: nat)" "of_char d' - 0x80 < (64 :: nat)" "of_char c - 0x80 < (64 :: nat)" "of_char c' - 0x80 < (64 :: nat)"
          "of_char b - 0x80 < (64 :: nat)" "of_char b' - 0x80 < (64 :: nat)"
        using s t by auto
      note e = assms(3) [unfolded s(1) t(1) utf8_scalar_horner]
      note f = radix_64 [OF e lows(1,2)]
      note g = radix_64 [OF f [THEN conjunct1] lows(3,4)]
      note h = radix_64 [OF g [THEN conjunct1] lows(5,6)]
      from f g h show ?thesis using s t by (simp add: digit_shift)
    qed (use s len in auto)
  qed
qed

text \<open>A text is determined by its characters.\<close>

lemma str_chars_scalars: "is_utf8 s \<Longrightarrow> c \<in> set (str_chars s) \<Longrightarrow> is_scalar c"
  by (auto simp: is_utf8_def list_all_iff str_chars_def intro!: utf8_scalar_range utf8_chunks_chars)

lemma chunks_inject:
  assumes "map (\<lambda>(ok, t). utf8_scalar t) xs = map (\<lambda>(ok, t). utf8_scalar t) ys"
    and "\<And>p. p \<in> set xs \<union> set ys \<Longrightarrow> utf8_char (snd p)"
  shows "map snd xs = map snd ys"
  using assms
proof (induction xs ys rule: list_induct2')
  case (4 x xs y ys)
  from "4.prems" have "utf8_char (snd x)" "utf8_char (snd y)" "utf8_scalar (snd x) = utf8_scalar (snd y)"
    by (auto simp: case_prod_beta)
  then have "snd x = snd y" by (rule utf8_scalar_inject)
  with 4 show ?case by simp
qed simp_all

lemma is_utf8_chars: "is_utf8 s \<Longrightarrow> p \<in> set (utf8_chunks s) \<Longrightarrow> utf8_char (snd p)"
  by (cases p) (fastforce simp: is_utf8_def list_all_iff intro: utf8_chunks_chars)

lemma str_chars_inject:
  assumes "is_utf8 s" "is_utf8 t" "str_chars s = str_chars t"
  shows "s = t"
proof -
  have "map snd (utf8_chunks s) = map snd (utf8_chunks t)"
    using assms by (intro chunks_inject) (auto simp: str_chars_def intro: is_utf8_chars)
  then show ?thesis by (metis utf8_chunks_concat)
qed

end
