(* ===== verification/Canonical_Json.thy ===== *)
theory Canonical_Json
  imports Utf8 Json "HOL-Library.List_Lexorder" "HOL-Library.Char_ord"
begin

text \<open>
  The canonical text of JSON values in \<^verbatim>\<open>handlers/merge_pr/aggregate_approval/receipt.rs\<close>, over
  which approvals and plan manifests are hashed: members sorted by key, no spaces, everything outside
  ASCII escaped. Strings are their UTF-8 bytes and are written character by character. The main result
  is that two values have the same text exactly when they are equal, members compared as a map and
  floating-point numbers by their literal, so that \<open>-0.0\<close> and \<open>0.0\<close> are different values.
\<close>

section \<open>The writer\<close>

definition hex_digit :: "nat \<Rightarrow> char" where
  "hex_digit n = ''0123456789abcdef'' ! n"

definition write_hex_escape :: "nat \<Rightarrow> string" where
  "write_hex_escape v = CHR 0x5C # ''u'' @ map (\<lambda>shift. hex_digit (v div 2 ^ shift mod 16)) [12, 8, 4, 0]"

definition write_python_unicode_escape :: "nat \<Rightarrow> string" where
  "write_python_unicode_escape scalar =
     (if scalar \<le> 0xFFFF then write_hex_escape scalar
      else let adjusted = scalar - 0x10000 in
           write_hex_escape (0xD800 + adjusted div 1024) @ write_hex_escape (0xDC00 + adjusted mod 1024))"

definition write_python_char :: "nat \<Rightarrow> string" where
  "write_python_char c =
     (if c = 0x22 then [CHR 0x5C, CHR 0x22]
      else if c = 0x5C then [CHR 0x5C, CHR 0x5C]
      else if c = 0x08 then CHR 0x5C # ''b''
      else if c = 0x0C then CHR 0x5C # ''f''
      else if c = 0x0A then CHR 0x5C # ''n''
      else if c = 0x0D then CHR 0x5C # ''r''
      else if c = 0x09 then CHR 0x5C # ''t''
      else if c \<le> 0x1F \<or> 0x7F < c then write_python_unicode_escape c
      else [char_of c])"

definition write_python_string :: "string \<Rightarrow> string" where
  "write_python_string s = CHR 0x22 # concat (map write_python_char (str_chars s)) @ [CHR 0x22]"

text \<open>\<^verbatim>\<open>Number::to_string\<close> of an integer.\<close>

definition int_str :: "int \<Rightarrow> string" where
  "int_str i = (if i < 0 then CHR ''-'' # nat_str (nat (- i)) else nat_str (nat i))"

fun write_python_canonical_json :: "json \<Rightarrow> string" where
  "write_python_canonical_json JNull = ''null''"
| "write_python_canonical_json (JBool b) = (if b then ''true'' else ''false'')"
| "write_python_canonical_json (JInt i) = int_str i"
| "write_python_canonical_json (JFloat s) = s"
| "write_python_canonical_json (JStr s) = write_python_string s"
| "write_python_canonical_json (JArr vs) = ''['' @ join_with '','' (map write_python_canonical_json vs) @ '']''"
| "write_python_canonical_json (JObj ob) =
     ''{'' @ join_with '','' (map (\<lambda>(k, v). write_python_string k @ '':'' @ write_python_canonical_json v)
                           (sort_key fst ob)) @ ''}''"

section \<open>Equality of values\<close>

text \<open>The equality of \<^verbatim>\<open>serde_json::Value\<close>, where objects are maps.\<close>

fun json_eq :: "json \<Rightarrow> json \<Rightarrow> bool" where
  "json_eq (JArr xs) w = (case w of JArr ys \<Rightarrow> list_all2 json_eq xs ys | _ \<Rightarrow> False)"
| "json_eq (JObj a) w =
     (case w of
        JObj b \<Rightarrow> set (map fst a) = set (map fst b)
          \<and> list_all (\<lambda>(k, v). case obj_get b k of None \<Rightarrow> False | Some u \<Rightarrow> json_eq v u) a
      | _ \<Rightarrow> False)"
| "json_eq v w = (v = w)"

text \<open>What the parser yields: strings are UTF-8, an object has one member per key, and the literal of a
  number that is no integer has a point or an exponent.\<close>

definition is_number_char :: "char \<Rightarrow> bool" where
  "is_number_char c \<longleftrightarrow> is_ascii_digit c \<or> c \<in> set ''+-.eE''"

definition is_float_literal :: "string \<Rightarrow> bool" where
  "is_float_literal s \<longleftrightarrow> list_all is_number_char s \<and> list_ex (\<lambda>c. c \<in> set ''.eE'') s \<and> hd s \<notin> set ''eE''"

fun json_wf :: "json \<Rightarrow> bool" where
  "json_wf (JFloat s) = is_float_literal s"
| "json_wf (JStr s) = is_utf8 s"
| "json_wf (JArr vs) = list_all json_wf vs"
| "json_wf (JObj ob) = (distinct (map fst ob) \<and> list_all (\<lambda>(k, v). is_utf8 k \<and> json_wf v) ob)"
| "json_wf _ = True"

section \<open>Strings are read back\<close>

text \<open>A reader for one character of a written string, to argue about the writer.\<close>

definition hex_value :: "char \<Rightarrow> nat" where
  "hex_value c = (if is_ascii_digit c then digit_value c else of_char c - 87)"

definition hex4_value :: "string \<Rightarrow> nat" where
  "hex4_value s = foldl (\<lambda>n c. n * 16 + hex_value c) 0 (take 4 s)"

fun read_python_char :: "string \<Rightarrow> nat \<times> string" where
  "read_python_char (a # c # t) =
     (if a \<noteq> CHR 0x5C then (of_char a, c # t)
      else if c = CHR ''b'' then (0x08, t)
      else if c = CHR ''f'' then (0x0C, t)
      else if c = CHR ''n'' then (0x0A, t)
      else if c = CHR ''r'' then (0x0D, t)
      else if c = CHR ''t'' then (0x09, t)
      else if c = CHR ''u'' then
        (let h = hex4_value t in
         if 0xD800 \<le> h \<and> h < 0xDC00
         then (0x10000 + (h - 0xD800) * 1024 + (hex4_value (drop 6 t) - 0xDC00), drop 10 t)
         else (h, drop 4 t))
      else (of_char c, t))"
| "read_python_char [a] = (of_char a, [])"
| "read_python_char [] = (0, [])"

lemma hex_value_digit: "n < 16 \<Longrightarrow> hex_value (hex_digit n) = n"
proof -
  have "\<forall>n\<in>set [0..<16]. hex_value (hex_digit n) = n"
    by (simp add: hex_value_def hex_digit_def is_ascii_digit_def digit_value_def upt_rec)
  then show "n < 16 \<Longrightarrow> hex_value (hex_digit n) = n" by simp
qed

lemma hex4_write:
  assumes "v < 0x10000"
  shows "hex4_value (map (\<lambda>shift. hex_digit (v div 2 ^ shift mod 16)) [12, 8, 4, 0] @ r) = v"
proof -
  have "v = ((v div 4096 mod 16 * 16 + v div 256 mod 16) * 16 + v div 16 mod 16) * 16 + v mod 16"
  proof -
    have "v div 4096 mod 16 = v div 4096" using assms by (simp add: div_less_iff_less_mult)
    moreover have "v div 4096 * 16 + v div 256 mod 16 = v div 256" using div_mult_mod_eq [of "v div 256" 16] by (simp add: div_mult2_eq [symmetric])
    moreover have "v div 256 * 16 + v div 16 mod 16 = v div 16" using div_mult_mod_eq [of "v div 16" 16] by (simp add: div_mult2_eq [symmetric])
    ultimately show ?thesis by (simp add: div_mult_mod_eq)
  qed
  moreover have "v div 4096 mod 16 = v div 4096" using assms by (simp add: div_less_iff_less_mult)
  moreover have "v div 4096 < 16" using assms by (simp add: div_less_iff_less_mult)
  ultimately show ?thesis by (simp add: hex4_value_def hex_value_digit)
qed

lemma read_hex_escape:
  assumes "v < 0x10000" "\<not> (0xD800 \<le> v \<and> v < 0xDC00)"
  shows "read_python_char (write_hex_escape v @ r) = (v, r)"
  using hex4_write [OF assms(1), of r] assms(2) by (simp add: write_hex_escape_def Let_def)

lemma read_python_char:
  assumes "is_scalar c"
  shows "read_python_char (write_python_char c @ x # r) = (c, x # r)"
proof -
  consider "c \<in> {0x22, 0x5C, 0x08, 0x0C, 0x0A, 0x0D, 0x09}"
    | "c \<notin> {0x22, 0x5C, 0x08, 0x0C, 0x0A, 0x0D, 0x09}" "0x1F < c" "c \<le> 0x7F"
    | "c \<notin> {0x22, 0x5C, 0x08, 0x0C, 0x0A, 0x0D, 0x09}" "c \<le> 0x1F \<or> 0x7F < c" "c \<le> 0xFFFF"
    | "0xFFFF < c" by force
  then show ?thesis
  proof cases
    case 1
    then show ?thesis by (elim insertE emptyE) (simp_all add: write_python_char_def)
  next
    case 2
    then have "char_of c \<noteq> CHR 0x5C" by (auto simp: char_of_eq_iff take_bit_eq_mod)
    with 2 show ?thesis by (simp add: write_python_char_def)
  next
    case 3
    then show ?thesis using assms by (simp add: write_python_char_def write_python_unicode_escape_def is_scalar_def) (rule read_hex_escape, auto)
  next
    case 4
    let ?a = "c - 0x10000"
    have a: "?a < 0x100000" using assms 4 by (simp add: is_scalar_def)
    then have "?a div 1024 < 0x400" by (simp add: div_less_iff_less_mult)
    moreover have "?a mod 1024 < 0x400" by simp
    moreover have "?a div 1024 * 1024 + ?a mod 1024 = ?a" by (rule div_mult_mod_eq)
    ultimately show ?thesis using 4 hex4_write [of "0xD800 + ?a div 1024"] hex4_write [of "0xDC00 + ?a mod 1024"]
      by (simp add: write_python_char_def write_python_unicode_escape_def write_hex_escape_def Let_def)
  qed
qed

lemma write_python_char_nonquote: "write_python_char c \<noteq> [] \<and> hd (write_python_char c) \<noteq> CHR 0x22"
  by (auto simp: write_python_char_def write_python_unicode_escape_def write_hex_escape_def Let_def char_of_eq_iff take_bit_eq_mod)

lemma chars_text_inject:
  assumes "list_all is_scalar xs" "list_all is_scalar ys"
    and "concat (map write_python_char xs) @ CHR 0x22 # r = concat (map write_python_char ys) @ CHR 0x22 # r'"
  shows "xs = ys \<and> r = r'"
  using assms
proof (induction xs ys rule: list_induct2')
  case (2 x xs)
  then show ?case using write_python_char_nonquote [of x] by (cases "write_python_char x") auto
next
  case (3 y ys)
  then show ?case using write_python_char_nonquote [of y] by (cases "write_python_char y") auto
next
  case (4 x xs y ys)
  have step: "\<exists>z t'. concat (map write_python_char zs) @ CHR 0x22 # t = z # t'" for zs t
    by (metis append_is_Nil_conv list.exhaust list.distinct(1))
  obtain a t where a: "concat (map write_python_char xs) @ CHR 0x22 # r = a # t" using step by blast
  obtain b u where b: "concat (map write_python_char ys) @ CHR 0x22 # r' = b # u" using step by blast
  from "4.prems"(3) a b have "write_python_char x @ a # t = write_python_char y @ b # u" by simp
  then have "(x, a # t) = (y, b # u)" using "4.prems"(1,2) by (metis list.pred_inject(2) read_python_char)
  with "4.IH" "4.prems" a b show ?case by simp
qed simp_all

lemma string_text_inject:
  assumes "is_utf8 s" "is_utf8 t" "write_python_string s @ r = write_python_string t @ r'"
  shows "s = t \<and> r = r'"
  using assms chars_text_inject [of "str_chars s" "str_chars t" r r'] str_chars_inject [of s t]
  by (auto simp: write_python_string_def list_all_iff intro: str_chars_scalars)

section \<open>Values are read back\<close>

text \<open>The writer sorts the members; here it is split into sorting and writing.\<close>

fun json_sorted :: "json \<Rightarrow> json" where
  "json_sorted (JArr vs) = JArr (map json_sorted vs)"
| "json_sorted (JObj ob) = JObj (map (\<lambda>(k, v). (k, json_sorted v)) (sort_key fst ob))"
| "json_sorted v = v"

fun write_plain :: "json \<Rightarrow> string" where
  "write_plain (JArr vs) = ''['' @ join_with '','' (map write_plain vs) @ '']''"
| "write_plain (JObj ob) = ''{'' @ join_with '','' (map (\<lambda>(k, v). write_python_string k @ '':'' @ write_plain v) ob) @ ''}''"
| "write_plain v = write_python_canonical_json v"

fun text_wf :: "json \<Rightarrow> bool" where
  "text_wf (JFloat s) = is_float_literal s"
| "text_wf (JStr s) = is_utf8 s"
| "text_wf (JArr vs) = list_all text_wf vs"
| "text_wf (JObj ob) = list_all (\<lambda>(k, v). is_utf8 k \<and> text_wf v) ob"
| "text_wf _ = True"

lemma write_plain_sorted: "write_python_canonical_json v = write_plain (json_sorted v)"
  by (induction v rule: json_sorted.induct) (auto simp: comp_def case_prod_beta intro!: arg_cong [where f = "join_with _"])

lemma text_wf_sorted: "json_wf v \<Longrightarrow> text_wf (json_sorted v)"
  by (induction v rule: json_sorted.induct) (auto simp: list_all_iff)

text \<open>What may follow a value.\<close>

definition delimited :: "string \<Rightarrow> bool" where
  "delimited r \<longleftrightarrow> r = [] \<or> hd r \<in> set '',]}''"

lemma delimited_simps [simp]: "delimited []" "delimited (c # r) \<longleftrightarrow> c \<in> set '',]}''"
  by (simp_all add: delimited_def)

lemma number_text_inject:
  assumes "list_all is_number_char s" "list_all is_number_char t" "delimited r" "delimited r'" "s @ r = t @ r'"
  shows "s = t \<and> r = r'"
proof -
  have "takeWhile is_number_char (s @ r) = s" if "list_all is_number_char s" "delimited r" for s r
    using that by (cases r) (auto simp: list_all_iff is_number_char_def is_ascii_digit_def)
  then show ?thesis using assms by (metis same_append_eq)
qed

lemma digit_distinct: "is_ascii_digit c \<Longrightarrow> c \<notin> set (CHR 0x22 # ''ntf[{,]}.eE+-'')"
  by (auto simp: is_ascii_digit_def)

lemma nat_str_digit: "c \<in> set (nat_str n) \<Longrightarrow> is_ascii_digit c"
  using nat_str_digits [of n] by (simp add: list_all_iff)

lemma int_str_chars:
  assumes "c \<in> set (int_str i)"
  shows "is_number_char c \<and> c \<notin> set ''.eE''"
proof -
  from assms consider "c = CHR ''-''" | "is_ascii_digit c"
    by (auto simp: int_str_def split: if_splits dest: nat_str_digit)
  then show ?thesis by cases (auto simp: is_number_char_def dest: digit_distinct)
qed

lemma int_str_number: "list_all is_number_char (int_str i)"
  using int_str_chars by (simp add: list_all_iff)

lemma int_str_nonempty: "int_str i \<noteq> []"
  by (simp add: int_str_def)

lemma int_str_inject: "int_str i = int_str j \<longleftrightarrow> i = j"
proof -
  have d: "CHR ''-'' # t \<noteq> nat_str n" for n t
    using nat_str_digit [of "CHR ''-''" n] digit_distinct [of "CHR ''-''"] by (metis list.set_intros)
  then show ?thesis by (auto simp: int_str_def d d [symmetric] split: if_splits)
qed

text \<open>The first character tells the kind of a value.\<close>

definition number_start :: "string \<Rightarrow> bool" where
  "number_start s \<longleftrightarrow> s \<noteq> [] \<and> is_number_char (hd s) \<and> hd s \<notin> set ''eE''"

lemma number_start_literal: "is_float_literal s \<Longrightarrow> number_start s"
  by (cases s) (auto simp: is_float_literal_def number_start_def)

lemma number_start_int: "number_start (int_str i)"
  using int_str_chars [of _ i] int_str_nonempty [of i] by (cases "int_str i") (auto simp: number_start_def)

lemma number_startE: "number_start s \<Longrightarrow> (\<And>c t. s = c # t \<Longrightarrow> c \<notin> set (CHR 0x22 # ''ntf[{,]}'') \<Longrightarrow> P) \<Longrightarrow> P"
  by (cases s) (auto simp: number_start_def is_number_char_def dest: digit_distinct)

text \<open>A separated list of texts is read back when each of its texts is.\<close>

lemma join_inject:
  assumes code: "\<And>x y r r'. x \<in> set xs \<Longrightarrow> y \<in> set ys \<Longrightarrow> delimited r \<Longrightarrow> delimited r' \<Longrightarrow> f x @ r = f y @ r' \<Longrightarrow> x = y \<and> r = r'"
    and start: "\<And>x. x \<in> set xs \<union> set ys \<Longrightarrow> f x \<noteq> [] \<and> hd (f x) \<notin> set '',]}''"
    and c: "c \<in> set '']}''"
    and eq: "join_with '','' (map f xs) @ c # r = join_with '','' (map f ys) @ c # r'"
  shows "xs = ys \<and> r = r'"
proof -
  have cons: "join_with '','' (map f (z # zs)) @ c # t = f z @ (if zs = [] then c # t else CHR '','' # join_with '','' (map f zs) @ c # t)"
    for z zs t by (cases zs) simp_all
  show ?thesis using code start eq
  proof (induction xs ys rule: list_induct2')
    case (2 x xs)
    from "2.prems"(2) [of x] have "f x \<noteq> []" "hd (f x) \<noteq> c" using c by auto
    moreover from "2.prems"(3) have "hd (f x @ t) = c" if "t = (if xs = [] then c # r else CHR '','' # join_with '','' (map f xs) @ c # r)" for t
      using cons [of x xs r] that by (metis append_Nil join_with.simps(1) list.sel(1) list.simps(8))
    ultimately show ?case by (simp add: hd_append)
  next
    case (3 y ys)
    from "3.prems"(2) [of y] have "f y \<noteq> []" "hd (f y) \<noteq> c" using c by auto
    moreover from "3.prems"(3) have "hd (f y @ t) = c" if "t = (if ys = [] then c # r' else CHR '','' # join_with '','' (map f ys) @ c # r')" for t
      using cons [of y ys r'] that by (metis append_Nil join_with.simps(1) list.sel(1) list.simps(8))
    ultimately show ?case by (simp add: hd_append)
  next
    case (4 x xs y ys)
    let ?u = "if xs = [] then c # r else CHR '','' # join_with '','' (map f xs) @ c # r"
    let ?v = "if ys = [] then c # r' else CHR '','' # join_with '','' (map f ys) @ c # r'"
    have "f x @ ?u = f y @ ?v" using "4.prems"(3) cons by metis
    then have xy: "x = y \<and> ?u = ?v" using c by (intro "4.prems"(1)) auto
    show ?case
    proof (cases "xs = [] \<or> ys = []")
      case True
      then show ?thesis using xy c by (auto split: if_splits)
    next
      case False
      have "xs = ys \<and> r = r'"
      proof (rule "4.IH")
        fix a b t t'
        assume "a \<in> set xs" "b \<in> set ys" "delimited t" "delimited t'" "f a @ t = f b @ t'"
        then show "a = b \<and> t = t'" by (intro "4.prems"(1)) auto
      qed (use "4.prems"(2) xy False in auto)
      with xy show ?thesis by simp
    qed
  qed simp
qed

fun json_kind :: "json \<Rightarrow> nat" where
  "json_kind JNull = 0"
| "json_kind (JBool b) = (if b then 1 else 2)"
| "json_kind (JStr _) = 3"
| "json_kind (JArr _) = 4"
| "json_kind (JObj _) = 5"
| "json_kind _ = 6"

definition text_kind :: "char \<Rightarrow> nat" where
  "text_kind c = (case map_of (zip (''ntf'' @ CHR 0x22 # ''[{'') [0..<6]) c of None \<Rightarrow> 6 | Some k \<Rightarrow> k)"

lemma number_kind:
  assumes "number_start s"
  shows "s \<noteq> [] \<and> text_kind (hd s) = 6 \<and> hd s \<notin> set '',]}''"
  using assms by (rule number_startE) (auto simp: text_kind_def upt_rec)

lemma write_plain_start:
  assumes "text_wf v"
  shows "write_plain v \<noteq> [] \<and> text_kind (hd (write_plain v)) = json_kind v \<and> hd (write_plain v) \<notin> set '',]}''"
proof (cases v)
  case (JInt i)
  then show ?thesis using number_kind [OF number_start_int] by simp
next
  case (JFloat s)
  then show ?thesis using assms number_kind [OF number_start_literal] by simp
qed (auto simp: text_kind_def upt_rec write_python_string_def)

lemma write_plain_kind:
  assumes "text_wf v" "text_wf w" "write_plain v @ r = write_plain w @ r'"
  shows "json_kind v = json_kind w"
  using write_plain_start [OF assms(1)] write_plain_start [OF assms(2)] assms(3) by (metis hd_append2)

lemma number_literal_inject:
  assumes "json_kind v = 6" "json_kind w = 6" "text_wf v" "text_wf w" "delimited r" "delimited r'" "write_plain v @ r = write_plain w @ r'"
  shows "v = w \<and> r = r'"
proof -
  have num: "list_all is_number_char (write_plain u) \<and> (list_ex (\<lambda>c. c \<in> set ''.eE'') (write_plain u) \<longleftrightarrow> (\<exists>s. u = JFloat s))"
    if "json_kind u = 6" "text_wf u" for u
    using that int_str_chars by (cases u) (auto simp: list_all_iff list_ex_iff is_float_literal_def split: if_splits)
  with assms have eq: "write_plain v = write_plain w \<and> r = r'" by (intro number_text_inject) auto
  with num [OF assms(1,3)] num [OF assms(2,4)] have "(\<exists>s. v = JFloat s) \<longleftrightarrow> (\<exists>s. w = JFloat s)" by simp
  with eq assms(1,2) show ?thesis by (cases v; cases w) (auto simp: int_str_inject split: if_splits)
qed

lemma write_plain_inject:
  "text_wf v \<Longrightarrow> text_wf w \<Longrightarrow> delimited r \<Longrightarrow> delimited r' \<Longrightarrow> write_plain v @ r = write_plain w @ r'
    \<Longrightarrow> v = w \<and> r = r'"
proof (induction v arbitrary: w r r')
  case JNull
  then show ?case using write_plain_kind [OF JNull.prems(1,2,5)] by (cases w) (auto split: if_splits)
next
  case (JBool b)
  then show ?case using write_plain_kind [OF JBool.prems(1,2,5)] by (cases w) (auto split: if_splits)
next
  case (JInt i)
  then show ?case using write_plain_kind [OF JInt.prems(1,2,5)] by (intro number_literal_inject) simp_all
next
  case (JFloat s)
  then show ?case using write_plain_kind [OF JFloat.prems(1,2,5)] by (intro number_literal_inject) simp_all
next
  case (JStr s)
  then obtain t where "w = JStr t" using write_plain_kind [OF JStr.prems(1,2,5)] by (cases w) (auto split: if_splits)
  with JStr.prems show ?case using string_text_inject [of s t r r'] by simp
next
  case (JArr xs)
  then obtain ys where w: "w = JArr ys" using write_plain_kind [OF JArr.prems(1,2,5)] by (cases w) (auto split: if_splits)
  have "xs = ys \<and> r = r'"
  proof (rule join_inject [where f = write_plain and c = "CHR '']''"])
    fix x y t t'
    assume "x \<in> set xs" "y \<in> set ys" "delimited t" "delimited t'" "write_plain x @ t = write_plain y @ t'"
    then show "x = y \<and> t = t'" using JArr.IH [of x y t t'] JArr.prems(1,2) w by (simp add: list_all_iff)
  next
    show "x \<in> set xs \<union> set ys \<Longrightarrow> write_plain x \<noteq> [] \<and> hd (write_plain x) \<notin> set '',]}''" for x
      using write_plain_start [of x] JArr.prems(1,2) w by (auto simp: list_all_iff)
  qed (use JArr.prems(5) w in simp_all)
  with w show ?case by simp
next
  case (JObj xs)
  then obtain ys where w: "w = JObj ys" using write_plain_kind [OF JObj.prems(1,2,5)] by (cases w) (auto split: if_splits)
  let ?f = "\<lambda>(k, v). write_python_string k @ '':'' @ write_plain v"
  have "xs = ys \<and> r = r'"
  proof (rule join_inject [where f = ?f and c = "CHR ''}''"])
    fix x y t t'
    assume *: "x \<in> set xs" "y \<in> set ys" "delimited t" "delimited t'" "?f x @ t = ?f y @ t'"
    obtain k v l u where xy: "x = (k, v)" "y = (l, u)" by (cases x; cases y) blast
    have wf: "is_utf8 k" "text_wf v" "is_utf8 l" "text_wf u" using * JObj.prems(1,2) w xy by (auto simp: list_all_iff)
    with string_text_inject [of k l "'':'' @ write_plain v @ t" "'':'' @ write_plain u @ t'"] *(5) xy
    have "k = l" "write_plain v @ t = write_plain u @ t'" by auto
    with JObj.IH [OF *(1), of v u t t'] wf xy *(3,4) show "x = y \<and> t = t'" by simp
  next
    show "x \<in> set xs \<union> set ys \<Longrightarrow> ?f x \<noteq> [] \<and> hd (?f x) \<notin> set '',]}''" for x
      by (cases x) (simp add: write_python_string_def)
  qed (use JObj.prems(5) w in simp_all)
  with w show ?case by simp
qed

section \<open>The text determines the value\<close>

text \<open>Two sorted lists of members agree when they are the same map.\<close>

lemma sorted_members_same:
  assumes "distinct (map fst a)" "distinct (map fst b)"
  shows "map (\<lambda>(k, v). (k, f v)) (sort_key fst a) = map (\<lambda>(k, v). (k, f v)) (sort_key fst b)
    \<longleftrightarrow> set (map fst a) = set (map fst b) \<and> (\<forall>(k, v) \<in> set a. \<exists>u. map_of b k = Some u \<and> f v = f u)"
    (is "?L = ?R \<longleftrightarrow> ?same")
proof -
  let ?g = "\<lambda>(k, v). (k, f v)"
  have keys: "map fst (map ?g zs) = map fst zs" for zs :: "('a :: linorder \<times> 'b) list" by (simp add: comp_def case_prod_beta)
  have sorted: "sorted (map fst (map ?g (sort_key fst zs))) \<and> distinct (map fst (map ?g (sort_key fst zs)))"
    if "distinct (map fst zs)" for zs :: "('a \<times> 'b) list"
    unfolding keys using that by (simp add: sorted_sort_key distinct_map)
  have "?L = ?R" if eq: "set ?L = set ?R"
  proof (rule map_sorted_distinct_set_unique [where f = fst])
    show "inj_on fst (set ?L \<union> set ?R)" unfolding eq Un_absorb using sorted [OF assms(2)] by (simp only: distinct_map)
  qed (use sorted [OF assms(1)] sorted [OF assms(2)] eq in \<open>simp_all only:\<close>)
  then have "?L = ?R \<longleftrightarrow> set ?L = set ?R" by metis
  also have "\<dots> \<longleftrightarrow> ?g ` set a = ?g ` set b" by simp
  also have "\<dots> \<longleftrightarrow> ?same"
  proof
    assume eq: "?g ` set a = ?g ` set b"
    then have "fst ` ?g ` set a = fst ` ?g ` set b" by simp
    then have "set (map fst a) = set (map fst b)" by (simp add: image_image case_prod_beta)
    moreover have "\<exists>u. map_of b k = Some u \<and> f v = f u" if kv: "(k, v) \<in> set a" for k v
    proof -
      have "(k, f v) \<in> ?g ` set b" using kv eq by force
      then obtain u where "(k, u) \<in> set b" "f v = f u" by auto
      with assms(2) show ?thesis by auto
    qed
    ultimately show ?same by blast
  next
    assume same: ?same
    have "?g p \<in> ?g ` set b" if "p \<in> set a" for p
    proof -
      obtain k v where p: "p = (k, v)" by (cases p)
      with that same obtain u where "map_of b k = Some u" "f v = f u" by blast
      then show ?thesis using p by (intro image_eqI [where x = "(k, u)"]) (auto dest: map_of_SomeD)
    qed
    moreover have "?g p \<in> ?g ` set a" if "p \<in> set b" for p
    proof -
      obtain k u where p: "p = (k, u)" by (cases p)
      then have "k \<in> set (map fst b)" using that by force
      with same have "k \<in> set (map fst a)" by (simp del: set_map)
      then obtain v where kv: "(k, v) \<in> set a" by auto
      with same obtain u' where "map_of b k = Some u'" "f v = f u'" by blast
      with that p assms(2) have "f v = f u" by simp
      with kv p show ?thesis by force
    qed
    ultimately show "?g ` set a = ?g ` set b" by blast
  qed
  finally show ?thesis .
qed

lemma json_sorted_eq: "json_wf v \<Longrightarrow> json_wf w \<Longrightarrow> json_sorted v = json_sorted w \<longleftrightarrow> json_eq v w"
proof (induction v arbitrary: w)
  case (JArr xs)
  show ?case
  proof (cases w)
    case w: (JArr ys)
    have "map json_sorted xs = map json_sorted ys \<longleftrightarrow> list_all2 json_eq xs ys"
      using JArr.IH JArr.prems w by (auto simp: list_all2_conv_all_nth list_eq_iff_nth_eq list_all_iff)
    with w show ?thesis by simp
  qed auto
next
  case (JObj a)
  show ?case
  proof (cases w)
    case w: (JObj b)
    have "json_sorted v = json_sorted u \<longleftrightarrow> json_eq v u" if "(k, v) \<in> set a" "map_of b k = Some u" for k v u
      using that JObj.IH [of "(k, v)" v u] JObj.prems w by (auto simp: list_all_iff dest: map_of_SomeD)
    then have "(\<forall>(k, v) \<in> set a. \<exists>u. map_of b k = Some u \<and> json_sorted v = json_sorted u)
        \<longleftrightarrow> list_all (\<lambda>(k, v). case obj_get b k of None \<Rightarrow> False | Some u \<Rightarrow> json_eq v u) a"
      by (fastforce simp: list_all_iff obj_get_def split: option.splits)
    with w JObj.prems sorted_members_same [of a b json_sorted] show ?thesis by simp
  qed auto
qed (simp_all; case_tac w; simp)+

lemma canonical_text_iff:
  assumes "json_wf v" "json_wf w"
  shows "write_python_canonical_json v = write_python_canonical_json w \<longleftrightarrow> json_eq v w"
proof -
  have "write_plain (json_sorted v) = write_plain (json_sorted w) \<longleftrightarrow> json_sorted v = json_sorted w"
    using write_plain_inject [of "json_sorted v" "json_sorted w" "[]" "[]"] text_wf_sorted assms by auto
  with json_sorted_eq [OF assms] show ?thesis by (simp add: write_plain_sorted)
qed

section \<open>The text is ASCII\<close>

abbreviation ascii :: "char \<Rightarrow> bool" where
  "ascii c \<equiv> (of_char c :: nat) < 0x80"

lemma hex_digit_ascii: "n < 16 \<Longrightarrow> ascii (hex_digit n)"
proof -
  have "\<forall>n\<in>set [0..<16]. ascii (hex_digit n)" by (simp add: hex_digit_def upt_rec)
  then show "n < 16 \<Longrightarrow> ascii (hex_digit n)" by simp
qed

lemma write_hex_escape_ascii: "list_all ascii (write_hex_escape v)"
  by (simp add: write_hex_escape_def hex_digit_ascii)

lemma write_python_char_ascii: "list_all ascii (write_python_char c)"
  by (simp add: write_python_char_def write_python_unicode_escape_def write_hex_escape_ascii Let_def of_char_of)

lemma write_python_string_ascii: "list_all ascii (write_python_string s)"
  using write_python_char_ascii by (auto simp: write_python_string_def list_all_iff)

lemma number_char_ascii: "list_all is_number_char s \<Longrightarrow> list_all ascii s"
  by (erule list.pred_mono_strong) (auto simp: is_number_char_def is_ascii_digit_def)

lemma join_ascii: "list_all ascii d \<Longrightarrow> (\<And>x. x \<in> set xs \<Longrightarrow> list_all ascii x) \<Longrightarrow> list_all ascii (join_with d xs)"
  by (induction d xs rule: join_with.induct) auto

lemma write_ascii: "json_wf v \<Longrightarrow> list_all ascii (write_python_canonical_json v)"
proof (induction v rule: write_python_canonical_json.induct)
  case (3 i)
  show ?case by (simp add: number_char_ascii int_str_number)
next
  case (4 s)
  then show ?case by (simp add: is_float_literal_def number_char_ascii)
next
  case (6 vs)
  have "list_all ascii (join_with '','' (map write_python_canonical_json vs))"
    using 6 by (intro join_ascii) (auto simp: list_all_iff [of json_wf])
  then show ?case by simp
next
  case (7 ob)
  have "list_all ascii (join_with '','' (map (\<lambda>(k, v). write_python_string k @ '':'' @ write_python_canonical_json v) (sort_key fst ob)))"
  proof (rule join_ascii)
    fix x
    assume "x \<in> set (map (\<lambda>(k, v). write_python_string k @ '':'' @ write_python_canonical_json v) (sort_key fst ob))"
    then obtain k v where kv: "(k, v) \<in> set ob" "x = write_python_string k @ '':'' @ write_python_canonical_json v" by auto
    with "7.prems" have "json_wf v" by (auto simp: list_all_iff)
    with "7.IH" [of "(k, v)" k v] kv write_python_string_ascii show "list_all ascii x" by simp
  qed simp
  then show ?case by simp
qed (auto simp: write_python_string_ascii)

text \<open>C15. The canonical text of a value is ASCII, and two values have the same one exactly when they are equal,
  whatever the order of their members: escapes, surrogate pairs, numbers and nesting never make two different values
  coincide, so that digests of different approvals or manifests can only coincide by a collision of the digest.\<close>

theorem canonical_text_exact:
  assumes "json_wf v" "json_wf w"
  shows "list_all (\<lambda>c. (of_char c :: nat) < 0x80) (write_python_canonical_json v)
    \<and> (write_python_canonical_json v = write_python_canonical_json w \<longleftrightarrow> json_eq v w)"
  using canonical_text_iff [OF assms] write_ascii [OF assms(1)] by simp

definition demo_value :: json where
  "demo_value = JObj [(''b'', JArr [JInt (- 3), JFloat ''1.5'', JNull]), (''a'', JStr [CHR 0xC3, CHR 0xA9, CHR 0x22])]"

definition demo_value_reordered :: json where
  "demo_value_reordered = JObj [(''a'', JStr [CHR 0xC3, CHR 0xA9, CHR 0x22]), (''b'', JArr [JInt (- 3), JFloat ''1.5'', JNull])]"

theorem canonical_text_exact_witness:
  "json_wf demo_value \<and> json_wf demo_value_reordered \<and> json_eq demo_value demo_value_reordered
     \<and> write_python_canonical_json demo_value = write_python_canonical_json demo_value_reordered"
proof -
  have "json_wf demo_value" "json_wf demo_value_reordered" "json_eq demo_value demo_value_reordered" by code_simp+
  with canonical_text_exact [of demo_value demo_value_reordered] show ?thesis by blast
qed

end
