(* ===== verification/Ipv6.thy ===== *)
theory Ipv6
  imports Canonical_Json
begin

text \<open>
  \<^verbatim>\<open>std::net::Ipv6Addr\<close> as the repository address code uses it: parsing of a text, with an embedded
  IPv4 address at its end, and printing, with the longest run of zero groups compressed. An address is
  its eight 16-bit groups. Printing is read back.
\<close>

section \<open>Parsing\<close>

definition to_digit :: "char \<Rightarrow> nat \<Rightarrow> nat option" where
  "to_digit c radix =
     (let v = (if is_ascii_digit c then Some (digit_value c)
               else if CHR ''a'' \<le> c \<and> c \<le> CHR ''f'' then Some (of_char c - 87)
               else if CHR ''A'' \<le> c \<and> c \<le> CHR ''F'' then Some (of_char c - 55) else None) in
      case v of Some d \<Rightarrow> if d < radix then Some d else None | None \<Rightarrow> None)"

definition is_radix_digit :: "nat \<Rightarrow> char \<Rightarrow> bool" where
  "is_radix_digit radix c \<longleftrightarrow> to_digit c radix \<noteq> None"

definition radix_value :: "nat \<Rightarrow> string \<Rightarrow> nat" where
  "radix_value radix s = foldl (\<lambda>v c. v * radix + the (to_digit c radix)) 0 s"

definition read_number :: "nat \<Rightarrow> nat \<Rightarrow> bool \<Rightarrow> nat \<Rightarrow> string \<Rightarrow> (nat \<times> string) option" where
  "read_number radix max_digits allow_zero_prefix bound s =
     (let ds = takeWhile (is_radix_digit radix) s in
      if ds = [] \<or> length ds > max_digits \<or> radix_value radix ds > bound
         \<or> (\<not> allow_zero_prefix \<and> hd ds = CHR ''0'' \<and> length ds > 1)
      then None else Some (radix_value radix ds, drop (length ds) s))"

definition read_separator :: "char \<Rightarrow> nat \<Rightarrow> (string \<Rightarrow> ('a \<times> string) option) \<Rightarrow> string \<Rightarrow> ('a \<times> string) option" where
  "read_separator sep i p s =
     (if i = 0 then p s else case s of [] \<Rightarrow> None | c # t \<Rightarrow> if c = sep then p t else None)"

definition read_ipv4_addr :: "string \<Rightarrow> ((nat \<times> nat \<times> nat \<times> nat) \<times> string) option" where
  "read_ipv4_addr s = (let octet = read_number 10 3 False 255 in do {
     (a, s1) \<leftarrow> read_separator (CHR ''.'') 0 octet s;
     (b, s2) \<leftarrow> read_separator (CHR ''.'') 1 octet s1;
     (c, s3) \<leftarrow> read_separator (CHR ''.'') 2 octet s2;
     (d, s4) \<leftarrow> read_separator (CHR ''.'') 3 octet s3;
     Some ((a, b, c, d), s4)
   })"

text \<open>The groups read from number \<open>i\<close> on, at most the given number of them, whether they end in an
  IPv4 address, and the rest.\<close>

fun read_groups :: "nat \<Rightarrow> nat \<Rightarrow> string \<Rightarrow> nat list \<times> bool \<times> string" where
  "read_groups i 0 s = ([], False, s)"
| "read_groups i (Suc n) s =
     (case (if 0 < n then read_separator (CHR '':'') i read_ipv4_addr s else None) of
        Some ((a, b, c, d), r) \<Rightarrow> ([a * 256 + b, c * 256 + d], True, r)
      | None \<Rightarrow>
          (case read_separator (CHR '':'') i (read_number 16 4 True 0xFFFF) s of
             None \<Rightarrow> ([], False, s)
           | Some (g, r) \<Rightarrow> (case read_groups (Suc i) n r of (gs, v4, r') \<Rightarrow> (g # gs, v4, r'))))"

definition parse_ipv6 :: "string \<Rightarrow> nat list option" where
  "parse_ipv6 s =
     (case read_groups 0 8 s of (head, v4, r) \<Rightarrow>
        if length head = 8 then (if r = [] then Some head else None)
        else if v4 then None
        else if starts_with ''::'' r then
          (case read_groups 0 (7 - length head) (drop 2 r) of (tail, _, r') \<Rightarrow>
             if r' = [] then Some (head @ replicate (8 - length head - length tail) 0 @ tail) else None)
        else None)"

section \<open>Printing\<close>

fun hex_str :: "nat \<Rightarrow> string" where
  "hex_str n = (if n < 16 then [hex_digit n] else hex_str (n div 16) @ [hex_digit (n mod 16)])"

declare hex_str.simps [simp del]

text \<open>The longest run of zeros, the first of several: its start and length.\<close>

definition zero_span_step :: "((nat \<times> nat) \<times> (nat \<times> nat)) \<Rightarrow> nat \<times> nat \<Rightarrow> (nat \<times> nat) \<times> (nat \<times> nat)" where
  "zero_span_step = (\<lambda>(longest, current) (i, segment).
     if segment = 0 then
       (let current = (if snd current = 0 then i else fst current, snd current + 1) in
        (if snd current > snd longest then current else longest, current))
     else (longest, (0, 0)))"

definition zero_span :: "nat list \<Rightarrow> nat \<times> nat" where
  "zero_span segments = fst (foldl zero_span_step ((0, 0), (0, 0)) (enumerate 0 segments))"

definition fmt_subslice :: "nat list \<Rightarrow> string" where
  "fmt_subslice chunk = join_with '':'' (map hex_str chunk)"

definition ipv4_mapped :: "nat list \<Rightarrow> (nat \<times> nat) option" where
  "ipv4_mapped segments =
     (if take 6 segments = [0, 0, 0, 0, 0, 0xFFFF] \<and> length segments = 8 then Some (segments ! 6, segments ! 7) else None)"

definition fmt_ipv4 :: "nat \<times> nat \<Rightarrow> string" where
  "fmt_ipv4 = (\<lambda>(hi, lo). join_with ''.'' (map nat_str [hi div 256, hi mod 256, lo div 256, lo mod 256]))"

definition fmt_ipv6 :: "nat list \<Rightarrow> string" where
  "fmt_ipv6 segments =
     (case ipv4_mapped segments of
        Some v4 \<Rightarrow> ''::ffff:'' @ fmt_ipv4 v4
      | None \<Rightarrow>
          (case zero_span segments of (start, len) \<Rightarrow>
             if len > 1 then fmt_subslice (take start segments) @ ''::'' @ fmt_subslice (drop (start + len) segments)
             else fmt_subslice segments))"

definition is_ipv6 :: "nat list \<Rightarrow> bool" where
  "is_ipv6 gs \<longleftrightarrow> length gs = 8 \<and> list_all (\<lambda>g. g < 0x10000) gs"

section \<open>Printing is read back\<close>

lemma to_digit_hex: "n < 16 \<Longrightarrow> to_digit (hex_digit n) 16 = Some n"
proof -
  have "\<forall>n\<in>set [0..<16]. to_digit (hex_digit n) 16 = Some n"
    by (simp add: upt_rec to_digit_def hex_digit_def is_ascii_digit_def digit_value_def less_eq_char_def)
  then show "n < 16 \<Longrightarrow> to_digit (hex_digit n) 16 = Some n" by simp
qed

lemma hex_digit_is_digit: "n < 16 \<Longrightarrow> is_radix_digit 16 (hex_digit n)"
  by (simp add: is_radix_digit_def to_digit_hex)

lemma to_digit_dec: "n < 10 \<Longrightarrow> to_digit (digit_char n) 10 = Some n"
  by (simp add: to_digit_def)

lemma hex_str_digits: "list_all (is_radix_digit 16) (hex_str n)"
proof (induction n rule: hex_str.induct)
  case (1 n)
  then show ?case by (subst hex_str.simps) (auto simp: hex_digit_is_digit)
qed

lemma hex_str_nonempty [simp]: "hex_str n \<noteq> []"
  by (subst hex_str.simps) simp

lemma hex_str_value: "radix_value 16 (hex_str n) = n"
proof (induction n rule: hex_str.induct)
  case (1 n)
  show ?case
  proof (cases "n < 16")
    case True
    then show ?thesis by (simp add: hex_str.simps [of n] radix_value_def to_digit_hex)
  next
    case False
    with 1 show ?thesis by (simp add: hex_str.simps [of n] radix_value_def to_digit_hex)
  qed
qed

lemma hex_str_length: "n < 16 ^ Suc k \<Longrightarrow> length (hex_str n) \<le> Suc k"
proof (induction k arbitrary: n)
  case 0
  then show ?case by (simp add: hex_str.simps [of n])
next
  case (Suc k)
  then have "n div 16 < 16 ^ Suc k" by (simp add: div_less_iff_less_mult)
  with Suc.IH show ?case by (cases "n < 16") (simp_all add: hex_str.simps [of n])
qed

definition ends_number :: "nat \<Rightarrow> string \<Rightarrow> bool" where
  "ends_number radix r \<longleftrightarrow> r = [] \<or> \<not> is_radix_digit radix (hd r)"

lemma takeWhile_number:
  assumes "list_all p s" "r = [] \<or> \<not> p (hd r)"
  shows "takeWhile p (s @ r) = s"
  using assms by (cases r) (auto simp: list_all_iff)

lemma read_hex_group:
  assumes "n < 0x10000" "ends_number 16 r"
  shows "read_number 16 4 True 0xFFFF (hex_str n @ r) = Some (n, r)"
proof -
  have "takeWhile (is_radix_digit 16) (hex_str n @ r) = hex_str n"
    using assms(2) by (intro takeWhile_number hex_str_digits) (simp add: ends_number_def)
  moreover have "length (hex_str n) \<le> 4" using hex_str_length [of n 3] assms(1) by simp
  ultimately show ?thesis using assms(1) by (simp add: read_number_def Let_def hex_str_value)
qed

lemma nat_str_byte:
  assumes "n \<le> 255"
  shows "length (nat_str n) \<le> 3 \<and> (hd (nat_str n) = CHR ''0'' \<longrightarrow> length (nat_str n) = 1)"
proof -
  have z: "digit_char d = CHR ''0'' \<longleftrightarrow> d = 0" if "d < 10" for d
  proof -
    have "digit_char d = CHR ''0'' \<longleftrightarrow> (of_char (digit_char d) :: nat) = of_char (CHR ''0'')" by (simp only: of_char_eq_iff)
    then show ?thesis using that by (simp add: of_char_digit)
  qed
  consider "n < 10" | "10 \<le> n" "n < 100" | "100 \<le> n" by linarith
  then show ?thesis
  proof cases
    case 1
    then show ?thesis by (simp add: nat_str.simps [of n])
  next
    case 2
    then have "n div 10 < 10" "n div 10 \<noteq> 0" by auto
    with 2 show ?thesis by (simp add: nat_str.simps [of n] nat_str.simps [of "n div 10"] z)
  next
    case 3
    with assms have "n div 10 div 10 < 10" "\<not> n div 10 < 10" "n div 10 div 10 \<noteq> 0" by auto
    with 3 show ?thesis by (simp add: nat_str.simps [of n] nat_str.simps [of "n div 10"] nat_str.simps [of "n div 10 div 10"] z)
  qed
qed

lemma radix_digit_dec: "is_radix_digit 10 c \<longleftrightarrow> is_ascii_digit c"
  by (auto simp: is_radix_digit_def to_digit_def Let_def is_ascii_digit_def digit_value_def less_eq_char_def split: if_splits option.splits)

lemma radix_value_dec: "list_all is_ascii_digit s \<Longrightarrow> radix_value 10 s = digits_value s"
proof -
  have "list_all is_ascii_digit s \<Longrightarrow> foldl (\<lambda>v c. v * 10 + the (to_digit c 10)) a s = foldl (\<lambda>v c. 10 * v + digit_value c) a s" for a
    by (induction s arbitrary: a) (auto simp: to_digit_def Let_def is_ascii_digit_def digit_value_def mult.commute)
  then show "list_all is_ascii_digit s \<Longrightarrow> radix_value 10 s = digits_value s" by (simp add: radix_value_def digits_value_def)
qed

lemma read_octet:
  assumes "n \<le> 255" "r = [] \<or> hd r = CHR ''.''"
  shows "read_number 10 3 False 255 (nat_str n @ r) = Some (n, r)"
proof -
  have "takeWhile (is_radix_digit 10) (nat_str n @ r) = nat_str n"
    using assms(2) nat_str_digits [of n] by (intro takeWhile_number) (auto simp: list_all_iff radix_digit_dec is_ascii_digit_def)
  then show ?thesis using assms(1) nat_str_byte [OF assms(1)] by (auto simp: read_number_def Let_def radix_value_dec nat_str_digits)
qed

lemma read_fmt_ipv4:
  assumes "hi < 0x10000" "lo < 0x10000"
  shows "read_ipv4_addr (fmt_ipv4 (hi, lo)) = Some ((hi div 256, hi mod 256, lo div 256, lo mod 256), [])"
proof -
  have "hi div 256 \<le> 255" "lo div 256 \<le> 255" "hi mod 256 \<le> 255" "lo mod 256 \<le> 255"
    using assms mod_less_divisor [of 256 hi] mod_less_divisor [of 256 lo] by (auto simp: less_Suc_eq_le [symmetric] div_less_iff_less_mult)
  then show ?thesis
    using read_octet [of "lo mod 256" "[]"] by (simp add: read_ipv4_addr_def fmt_ipv4_def read_separator_def read_octet)
qed

lemma ipv4_needs_dot: "CHR ''.'' \<notin> set s \<Longrightarrow> read_ipv4_addr s = None"
proof -
  assume dot: "CHR ''.'' \<notin> set s"
  have "read_separator (CHR ''.'') 1 p r = None" if "read_number 10 3 False 255 s = Some (a, r)" for a r and p :: "string \<Rightarrow> (nat \<times> string) option"
  proof -
    have "set r \<subseteq> set s" using that by (auto simp: read_number_def Let_def split: if_splits dest: in_set_dropD)
    with dot show ?thesis by (cases r) (auto simp: read_separator_def)
  qed
  then show ?thesis
    by (cases "read_number 10 3 False 255 s") (auto simp: read_ipv4_addr_def read_separator_def [of _ 0] Let_def)
qed

text \<open>Groups are read until a double colon or the end.\<close>

definition ends_groups :: "string \<Rightarrow> bool" where
  "ends_groups r \<longleftrightarrow> r = [] \<or> starts_with ''::'' r"

lemma read_number_colon: "read_number radix k z b (CHR '':'' # r) = None" "read_number radix k z b [] = None"
proof -
  have "\<not> is_radix_digit radix (CHR '':'')" by (simp add: is_radix_digit_def to_digit_def is_ascii_digit_def less_eq_char_def)
  then show "read_number radix k z b (CHR '':'' # r) = None" by (simp add: read_number_def)
  show "read_number radix k z b [] = None" by (simp add: read_number_def)
qed

lemma ipv4_colon: "read_ipv4_addr (CHR '':'' # r) = None" "read_ipv4_addr [] = None"
  by (simp_all add: read_ipv4_addr_def read_separator_def read_number_colon)

lemma read_groups_stop: "ends_groups r \<Longrightarrow> read_groups i n r = ([], False, r)"
  by (cases n) (auto simp: ends_groups_def starts_with_iff read_separator_def read_number_colon ipv4_colon)

lemma hex_text_no_dot: "CHR ''.'' \<notin> set (hex_str n)"
proof -
  have "\<not> is_radix_digit 16 (CHR ''.'')" by (simp add: is_radix_digit_def to_digit_def is_ascii_digit_def less_eq_char_def)
  then show ?thesis using hex_str_digits [of n] by (auto simp: list_all_iff)
qed

abbreviation colon_groups :: "nat list \<Rightarrow> string" where
  "colon_groups gs \<equiv> concat (map (\<lambda>g. CHR '':'' # hex_str g) gs)"

lemma fmt_subslice_Cons: "fmt_subslice (g # gs) = hex_str g @ colon_groups gs"
  by (induction gs arbitrary: g) (auto simp: fmt_subslice_def)

lemma colon_ends_number: "r = [] \<or> hd r = CHR '':'' \<Longrightarrow> ends_number 16 (colon_groups gs @ r)"
  by (cases gs) (auto simp: ends_number_def is_radix_digit_def to_digit_def is_ascii_digit_def less_eq_char_def)

lemma ends_groups_colon: "ends_groups r \<Longrightarrow> r = [] \<or> hd r = CHR '':''"
  by (auto simp: ends_groups_def starts_with_iff)

lemma read_colon_groups:
  assumes "list_all (\<lambda>g. g < 0x10000) gs" "length gs \<le> n" "CHR ''.'' \<notin> set r" "ends_groups r"
  shows "read_groups (Suc i) n (colon_groups gs @ r) = (gs, False, r)"
  using assms
proof (induction gs arbitrary: i n)
  case Nil
  then show ?case by (simp add: read_groups_stop)
next
  case (Cons g gs)
  then obtain k where n: "n = Suc k" "length gs \<le> k" by (cases n) auto
  have "read_ipv4_addr (hex_str g @ colon_groups gs @ r) = None"
    using Cons.prems(3) hex_text_no_dot by (intro ipv4_needs_dot) auto
  moreover have "read_number 16 4 True 0xFFFF (hex_str g @ colon_groups gs @ r) = Some (g, colon_groups gs @ r)"
    using Cons.prems ends_groups_colon by (intro read_hex_group colon_ends_number) auto
  ultimately show ?case using Cons.IH [of k "Suc i"] Cons.prems n by (cases k) (simp_all add: read_separator_def)
qed

lemma read_subslice:
  assumes "list_all (\<lambda>g. g < 0x10000) gs" "length gs \<le> n" "CHR ''.'' \<notin> set r" "ends_groups r"
  shows "read_groups 0 n (fmt_subslice gs @ r) = (gs, False, r)"
proof (cases gs)
  case Nil
  then show ?thesis using assms by (simp add: read_groups_stop fmt_subslice_def)
next
  case (Cons g t)
  then obtain k where n: "n = Suc k" "length t \<le> k" using assms(2) by (cases n) auto
  have "read_ipv4_addr (hex_str g @ colon_groups t @ r) = None"
    using assms(3) hex_text_no_dot by (intro ipv4_needs_dot) auto
  moreover have "read_number 16 4 True 0xFFFF (hex_str g @ colon_groups t @ r) = Some (g, colon_groups t @ r)"
    using assms Cons ends_groups_colon by (intro read_hex_group colon_ends_number) auto
  ultimately show ?thesis using read_colon_groups [of t k r 0] assms n Cons
    by (cases k) (simp_all add: read_separator_def fmt_subslice_Cons)
qed

section \<open>Runs of zeros\<close>

lemma zero_span_invariant:
  assumes "foldl zero_span_step ((0, 0), (0, 0)) (enumerate 0 xs) = ((s, l), (cs, cl))"
  shows "s + l \<le> length xs \<and> (\<forall>j<l. xs ! (s + j) = 0) \<and> (0 < cl \<longrightarrow> cs + cl = length xs) \<and> (\<forall>j<cl. xs ! (cs + j) = 0)"
  using assms
proof (induction xs arbitrary: s l cs cl rule: rev_induct)
  case (snoc x xs)
  obtain s0 l0 cs0 cl0 where f: "foldl zero_span_step ((0, 0), (0, 0)) (enumerate 0 xs) = ((s0, l0), (cs0, cl0))"
    by (metis surj_pair)
  note IH = snoc.IH [OF f]
  have step: "zero_span_step ((s0, l0), (cs0, cl0)) (length xs, x) = ((s, l), (cs, cl))"
    using snoc.prems f by (simp add: enumerate_append_eq)
  have nth: "(xs @ [x]) ! (a + j) = xs ! (a + j)" if "a + j < length xs" for a j using that by (simp add: nth_append)
  show ?case
  proof (cases "x = 0")
    case False
    with step have "s = s0" "l = l0" "cl = 0" by (auto simp: zero_span_step_def)
    with IH show ?thesis by (auto simp: nth_append)
  next
    case True
    define c where "c = (if cl0 = 0 then length xs else cs0)"
    have c: "cs = c" "cl = cl0 + 1" "(s, l) = (if cl0 + 1 > l0 then (c, cl0 + 1) else (s0, l0))"
      using step True by (auto simp: zero_span_step_def Let_def c_def split: if_splits)
    have end': "c + cl0 = length xs" using IH by (auto simp: c_def)
    have cur: "(xs @ [x]) ! (c + j) = 0" if "j < cl0 + 1" for j
    proof (cases "j = cl0")
      case True
      then show ?thesis using end' \<open>x = 0\<close> by simp
    next
      case False
      with that IH have "xs ! (c + j) = 0" by (auto simp: c_def)
      then show ?thesis using end' False that by (simp add: nth_append)
    qed
    have old: "(xs @ [x]) ! (s0 + j) = 0" if "j < l0" for j using IH that by (auto simp: nth_append)
    from c cur old end' IH show ?thesis by (auto split: if_splits)
  qed
qed simp

lemma zero_span_zeros:
  assumes "zero_span xs = (s, l)"
  shows "s + l \<le> length xs \<and> xs = take s xs @ replicate l 0 @ drop (s + l) xs"
proof -
  obtain c where "foldl zero_span_step ((0, 0), (0, 0)) (enumerate 0 xs) = ((s, l), c)"
    using assms by (metis fst_conv surj_pair zero_span_def)
  then have *: "s + l \<le> length xs" "\<forall>j<l. xs ! (s + j) = 0"
    using zero_span_invariant [of xs s l "fst c" "snd c"] by auto
  then have "take l (drop s xs) = replicate l 0" by (intro nth_equalityI) auto
  then show ?thesis using * by (metis append_take_drop_id drop_drop add.commute)
qed

section \<open>The round trip\<close>

lemma fmt_subslice_no_dot: "CHR ''.'' \<notin> set (fmt_subslice gs)"
  by (cases gs) (auto simp: fmt_subslice_Cons hex_text_no_dot, simp add: fmt_subslice_def)

theorem parse_fmt_ipv6:
  assumes "is_ipv6 gs"
  shows "parse_ipv6 (fmt_ipv6 gs) = Some gs"
proof (cases "ipv4_mapped gs")
  case None
  obtain s l where span: "zero_span gs = (s, l)" by (cases "zero_span gs")
  note z = zero_span_zeros [OF span]
  from assms have len: "length gs = 8" and small: "list_all (\<lambda>g. g < 0x10000) gs" by (simp_all add: is_ipv6_def)
  show ?thesis
  proof (cases "l > 1")
    case True
    let ?h = "take s gs" and ?t = "drop (s + l) gs"
    have small': "list_all (\<lambda>g. g < 0x10000) ?h" "list_all (\<lambda>g. g < 0x10000) ?t"
      using small by (auto simp: list_all_iff dest: in_set_takeD in_set_dropD)
    have "read_groups 0 8 (fmt_ipv6 gs) = (?h, False, ''::'' @ fmt_subslice ?t)"
      using read_subslice [OF small'(1), of 8 "''::'' @ fmt_subslice ?t"] None span True len fmt_subslice_no_dot [of ?t]
      by (simp add: fmt_ipv6_def ends_groups_def starts_with_iff)
    moreover have "read_groups 0 (7 - length ?h) (fmt_subslice ?t) = (?t, False, [])"
      using read_subslice [OF small'(2), of "7 - length ?h" "[]"] z len True by (simp add: ends_groups_def min_def)
    moreover have "8 - length ?h - length ?t = l" "length ?h \<noteq> 8" using z len True by auto
    ultimately show ?thesis using z by (simp add: parse_ipv6_def starts_with_iff del: length_take length_drop)
  next
    case False
    then show ?thesis using read_subslice [OF small, of 8 "[]"] None span len by (simp add: fmt_ipv6_def parse_ipv6_def ends_groups_def)
  qed
next
  case (Some v)
  then have m: "take 6 gs = [0, 0, 0, 0, 0, 0xFFFF]" "length gs = 8" "v = (gs ! 6, gs ! 7)"
    by (auto simp: ipv4_mapped_def split: if_splits)
  define hi lo where "hi = gs ! 6" and "lo = gs ! 7"
  have "drop 6 gs = [hi, lo]"
    using m(2) by (intro nth_equalityI) (auto simp: hi_def lo_def less_Suc_eq numeral_2_eq_2)
  with m have gs: "gs = [0, 0, 0, 0, 0, 0xFFFF, hi, lo]" and v: "v = (hi, lo)"
    using append_take_drop_id [of 6 gs] by (simp_all add: hi_def lo_def)
  have small: "hi < 0x10000" "lo < 0x10000" using assms gs by (simp_all add: is_ipv6_def)
  have "hex_str 0xFFFF = ''ffff''" by (simp add: hex_str.simps hex_digit_def)
  then have "read_number 16 4 True 0xFFFF (''ffff'' @ CHR '':'' # r) = Some (0xFFFF, CHR '':'' # r)" for r
    using read_hex_group [of "0xFFFF" "CHR '':'' # r"] colon_ends_number [where r = "CHR '':'' # r" and gs = "[]"] by simp
  moreover have "read_ipv4_addr (''ffff'' @ r) = None" for r
  proof -
    have "\<not> is_radix_digit 10 (CHR ''f'')" by (simp add: radix_digit_dec is_ascii_digit_def)
    then show ?thesis by (simp add: read_ipv4_addr_def read_separator_def read_number_def)
  qed
  ultimately have "read_groups 0 (Suc (Suc (Suc k))) (''ffff:'' @ fmt_ipv4 (hi, lo)) = ([0xFFFF, hi, lo], True, [])" for k
    using read_fmt_ipv4 [OF small] by (simp add: read_separator_def)
  from this [of 4] have "read_groups 0 7 (''ffff:'' @ fmt_ipv4 (hi, lo)) = ([0xFFFF, hi, lo], True, [])" by simp
  moreover have "read_groups 0 8 (''::ffff:'' @ fmt_ipv4 (hi, lo)) = ([], False, ''::ffff:'' @ fmt_ipv4 (hi, lo))"
    by (rule read_groups_stop) (simp add: ends_groups_def starts_with_iff)
  moreover have "replicate 5 0 = [0, 0, 0, 0, 0 :: nat]" by (simp add: numeral_eq_Suc)
  ultimately show ?thesis using Some v gs by (simp add: parse_ipv6_def fmt_ipv6_def starts_with_iff)
qed

section \<open>Parsed addresses\<close>

lemma read_number_bound: "read_number radix k z b s = Some (n, r) \<Longrightarrow> n \<le> b"
  by (auto simp: read_number_def Let_def split: if_splits)

lemma read_separator_bound: "read_separator c i (read_number radix k z b) s = Some (n, r) \<Longrightarrow> n \<le> b"
  by (auto simp: read_separator_def split: if_splits list.splits dest: read_number_bound)

lemma read_ipv4_bound: "read_ipv4_addr s = Some ((a, b, c, d), r) \<Longrightarrow> a \<le> 255 \<and> b \<le> 255 \<and> c \<le> 255 \<and> d \<le> 255"
  by (auto simp: read_ipv4_addr_def Let_def bind_eq_Some_conv dest!: read_separator_bound)

lemma read_separator_ipv4:
  "read_separator sep i read_ipv4_addr s = Some ((a, b, c, d), r) \<Longrightarrow> a \<le> 255 \<and> b \<le> 255 \<and> c \<le> 255 \<and> d \<le> 255"
  by (auto simp: read_separator_def split: if_splits list.splits dest: read_ipv4_bound)

lemma read_groups_bound: "read_groups i n s = (gs, v4, r) \<Longrightarrow> length gs \<le> n \<and> list_all (\<lambda>g. g < 0x10000) gs"
proof (induction i n s arbitrary: gs v4 r rule: read_groups.induct)
  case (2 i n s)
  let ?v4 = "if 0 < n then read_separator (CHR '':'') i read_ipv4_addr s else None"
  let ?num = "read_separator (CHR '':'') i (read_number 16 4 True 0xFFFF) s"
  show ?case
  proof (cases ?v4)
    case None
    show ?thesis
    proof (cases ?num)
      case None
      with \<open>?v4 = None\<close> "2.prems" show ?thesis by simp
    next
      case (Some p)
      obtain g t where p: "p = (g, t)" by (cases p)
      obtain hs w t' where rest: "read_groups (Suc i) n t = (hs, w, t')" by (metis surj_pair)
      have "length hs \<le> n \<and> list_all (\<lambda>g. g < 0x10000) hs" using "2.IH" [OF None Some p [symmetric] rest] .
      moreover have "g \<le> 0xFFFF" using Some p by (auto dest: read_separator_bound)
      moreover have "gs = g # hs" using "2.prems" None Some p rest by simp
      ultimately show ?thesis by simp
    qed
  next
    case (Some p)
    obtain a b c d t where p: "p = ((a, b, c, d), t)" by (metis surj_pair)
    have n: "0 < n" and "read_separator (CHR '':'') i read_ipv4_addr s = Some ((a, b, c, d), t)"
      using Some p by (auto split: if_splits)
    from read_separator_ipv4 [OF this(2)] have "a \<le> 255 \<and> b \<le> 255 \<and> c \<le> 255 \<and> d \<le> 255" .
    moreover have "gs = [a * 256 + b, c * 256 + d]" using "2.prems" Some p by simp
    ultimately show ?thesis using n by simp
  qed
qed simp

lemma parse_ipv6_is_ipv6:
  assumes "parse_ipv6 s = Some gs"
  shows "is_ipv6 gs"
proof -
  obtain h v r where h: "read_groups 0 8 s = (h, v, r)" by (metis surj_pair)
  obtain t w r' where t: "read_groups 0 (7 - length h) (drop 2 r) = (t, w, r')" by (metis surj_pair)
  note b = read_groups_bound [OF h] read_groups_bound [OF t]
  show ?thesis using assms b
    by (auto simp: parse_ipv6_def h t is_ipv6_def list_all_iff split: if_splits)
qed

text \<open>The characters of a printed address.\<close>

definition ipv6_chars :: "char set" where
  "ipv6_chars = set ''0123456789abcdef:.''"

lemma hex_digit_char: "n < 16 \<Longrightarrow> hex_digit n \<in> ipv6_chars"
proof -
  have "\<forall>n\<in>set [0..<16]. hex_digit n \<in> ipv6_chars" by (simp add: upt_rec hex_digit_def ipv6_chars_def)
  then show "n < 16 \<Longrightarrow> hex_digit n \<in> ipv6_chars" by simp
qed

lemma hex_str_chars: "set (hex_str n) \<subseteq> ipv6_chars"
proof (induction n rule: hex_str.induct)
  case (1 n)
  then show ?case by (subst hex_str.simps) (auto simp: hex_digit_char)
qed

lemma nat_str_chars: "set (nat_str n) \<subseteq> ipv6_chars"
proof -
  have "digit_char d \<in> ipv6_chars" if "d < 10" for d
  proof -
    have "\<forall>d\<in>set [0..<10]. of_char (hex_digit d) = (48 + d :: nat)" by (simp add: upt_rec hex_digit_def)
    with that have "of_char (digit_char d) = (of_char (hex_digit d) :: nat)" by (simp add: of_char_digit del: of_char_eq_iff)
    then have "digit_char d = hex_digit d" by simp
    with that show ?thesis by (simp add: hex_digit_char)
  qed
  then show ?thesis by (induction n rule: nat_str.induct) (subst nat_str.simps, auto)
qed

lemma join_chars: "set (join_with d xs) \<subseteq> set d \<union> (\<Union>x \<in> set xs. set x)"
  by (induction d xs rule: join_with.induct) auto

lemma fmt_subslice_chars: "set (fmt_subslice gs) \<subseteq> ipv6_chars"
  using join_chars [of "'':''" "map hex_str gs"] hex_str_chars by (fastforce simp: fmt_subslice_def ipv6_chars_def)

lemma fmt_ipv4_chars: "set (fmt_ipv4 v) \<subseteq> ipv6_chars"
  using nat_str_chars by (cases v) (fastforce simp: fmt_ipv4_def ipv6_chars_def)

lemma fmt_ipv6_chars: "set (fmt_ipv6 gs) \<subseteq> ipv6_chars"
proof -
  have "set ''::'' \<subseteq> ipv6_chars" "set ''::ffff:'' \<subseteq> ipv6_chars" by (simp_all add: ipv6_chars_def)
  then show ?thesis
    using fmt_subslice_chars fmt_ipv4_chars by (cases "zero_span gs"; cases "ipv4_mapped gs") (simp_all add: fmt_ipv6_def)
qed

end
