(* ===== verification/Aggregate_Receipt.thy ===== *)
theory Aggregate_Receipt
  imports Canonical_Json Git_World
begin

text \<open>
  Receipts of parent approvals (\<^verbatim>\<open>handlers/merge_pr/aggregate_approval/receipt.rs\<close>): the fields a
  receipt must have, its validation and the identifier that is the digest of its canonical text.
  \<open>sha256\<close> is SHA-256 in lower-case hexadecimal. Errors are the messages of the code, of which the
  outermost one is kept.
\<close>

section \<open>Checks\<close>

definition get_str :: "json_object \<Rightarrow> string \<Rightarrow> string option" where
  "get_str ob k = Option.bind (obj_get ob k) as_str"

definition value_get_str :: "json \<Rightarrow> string \<Rightarrow> string option" where
  "value_get_str v k = Option.bind (value_get v k) as_str"

definition is_lower_hex :: "char \<Rightarrow> bool" where
  "is_lower_hex c \<longleftrightarrow> is_ascii_digit c \<or> CHR ''a'' \<le> c \<and> c \<le> CHR ''f''"

definition valid_git_sha :: "string \<Rightarrow> bool" where
  "valid_git_sha s \<longleftrightarrow> length s \<in> {40, 64} \<and> list_all is_lower_hex s"

definition valid_sha256 :: "string \<Rightarrow> bool" where
  "valid_sha256 s \<longleftrightarrow> length s = 64 \<and> list_all is_lower_hex s"

fun is_sorted_unique :: "string list \<Rightarrow> bool" where
  "is_sorted_unique (a # b # s) \<longleftrightarrow> a < b \<and> is_sorted_unique (b # s)"
| "is_sorted_unique _ \<longleftrightarrow> True"

section \<open>Digests\<close>

definition canonical_digest :: "(string \<Rightarrow> string) \<Rightarrow> json \<Rightarrow> string" where
  "canonical_digest sha256 v = sha256 (write_python_canonical_json v)"

definition obj_remove :: "string \<Rightarrow> json_object \<Rightarrow> json_object" where
  "obj_remove k ob = AList.delete k ob"

text \<open>A receipt without its identifier and the time of its creation.\<close>

definition receipt_identity :: "json_object \<Rightarrow> json_object" where
  "receipt_identity ob = obj_remove ''created_at'' (obj_remove ''receipt_id'' ob)"

definition canonical_receipt_id :: "(string \<Rightarrow> string) \<Rightarrow> json \<Rightarrow> string + string" where
  "canonical_receipt_id sha256 v =
     (case as_object v of
        None \<Rightarrow> Inl ''aggregate approval receipt is not an object''
      | Some ob \<Rightarrow> Inr (canonical_digest sha256 (JObj (receipt_identity ob))))"

definition manifest_digest :: "(string \<Rightarrow> string) \<Rightarrow> json_object \<Rightarrow> string" where
  "manifest_digest sha256 manifest = canonical_digest sha256 (JObj (obj_remove ''digest'' manifest))"

section \<open>Receipts\<close>

record parent_approval_receipt =
  pa_receipt_id :: string
  pa_policy_mode :: string
  pa_parent_run_id :: string
  pa_parent_scope_path :: "string list"
  pa_parent_manifest_scope_id :: "string option"
  pa_candidate_key :: string
  pa_child_run_id :: "string option"
  pa_child_manifest_node_id :: "string option"
  pa_child_manifest_scope_id :: "string option"
  pa_child_scope_id :: "string option"
  pa_legacy_identity :: bool
  pa_parent_agent_id :: string
  pa_parent_branch :: string
  pa_repository_url :: string
  pa_plan_manifest_digest :: string
  pa_plan_manifest_revision :: nat
  pa_approval_policy_digest :: string
  pa_child_manifest_digest :: string
  pa_pr_number :: nat
  pa_head_sha :: string
  pa_head_tree_sha :: string
  pa_base_sha :: string
  pa_patch_digest :: string
  pa_merge_tree_sha :: string
  pa_ci_status :: string
  pa_readiness_receipt_digest :: string
  pa_lineage_proof_digest :: string
  pa_lineage_commit_shas :: "string list"
  pa_reviewed_leaf_ids :: "string list"
  pa_created_at :: string
  pa_supersedes_receipt_id :: "string option"

definition common_fields :: "string list" where
  "common_fields =
     [''parent_agent_id'', ''parent_branch'', ''repository_url'', ''plan_manifest_digest'',
      ''plan_manifest_revision'', ''approval_policy_digest'', ''child_manifest_digest'', ''pr_number'',
      ''head_sha'', ''head_tree_sha'', ''base_sha'', ''patch_digest'', ''merge_tree_sha'', ''ci_status'',
      ''readiness_receipt_digest'', ''lineage_proof_digest'', ''lineage_commit_shas'', ''reviewed_leaf_ids'',
      ''created_at'', ''supersedes_receipt_id'']"

definition expected_fields :: "string list" where
  "expected_fields =
     [''receipt_id'', ''policy_mode'', ''parent_run_id'', ''parent_scope_path'', ''parent_manifest_scope_id'',
      ''candidate_key'', ''child_run_id'', ''child_manifest_node_id'', ''child_manifest_scope_id''] @ common_fields"

definition legacy_expected_fields :: "string list" where
  "legacy_expected_fields =
     [''receipt_id'', ''policy_mode'', ''parent_run_id'', ''parent_scope_path'', ''child_scope_id''] @ common_fields"

text \<open>The fields as \<^verbatim>\<open>serde\<close> reads them: a string, an unsigned number, a list of strings, and an
  optional string, for which \<^verbatim>\<open>null\<close> and absence are the same.\<close>

definition field_u64 :: "json_object \<Rightarrow> string \<Rightarrow> nat option" where
  "field_u64 ob k = Option.bind (obj_get ob k) as_u64"

definition field_strings :: "json_object \<Rightarrow> string \<Rightarrow> string list option" where
  "field_strings ob k = Option.bind (Option.bind (obj_get ob k) as_array) (\<lambda>vs. those (map as_str vs))"

definition field_optional :: "json_object \<Rightarrow> string \<Rightarrow> string option option" where
  "field_optional ob k =
     (case obj_get ob k of
        None \<Rightarrow> Some None
      | Some JNull \<Rightarrow> Some None
      | Some v \<Rightarrow> map_option Some (as_str v))"

definition receipt_from_value :: "json_object \<Rightarrow> parent_approval_receipt option" where
  "receipt_from_value ob = do {
     receipt_id \<leftarrow> get_str ob ''receipt_id'';
     policy_mode \<leftarrow> get_str ob ''policy_mode'';
     parent_run_id \<leftarrow> get_str ob ''parent_run_id'';
     parent_scope_path \<leftarrow> field_strings ob ''parent_scope_path'';
     parent_manifest_scope_id \<leftarrow> field_optional ob ''parent_manifest_scope_id'';
     candidate_key \<leftarrow> get_str ob ''candidate_key'';
     child_run_id \<leftarrow> field_optional ob ''child_run_id'';
     child_manifest_node_id \<leftarrow> field_optional ob ''child_manifest_node_id'';
     child_manifest_scope_id \<leftarrow> field_optional ob ''child_manifest_scope_id'';
     child_scope_id \<leftarrow> field_optional ob ''child_scope_id'';
     parent_agent_id \<leftarrow> get_str ob ''parent_agent_id'';
     parent_branch \<leftarrow> get_str ob ''parent_branch'';
     repository_url \<leftarrow> get_str ob ''repository_url'';
     plan_manifest_digest \<leftarrow> get_str ob ''plan_manifest_digest'';
     plan_manifest_revision \<leftarrow> field_u64 ob ''plan_manifest_revision'';
     approval_policy_digest \<leftarrow> get_str ob ''approval_policy_digest'';
     child_manifest_digest \<leftarrow> get_str ob ''child_manifest_digest'';
     pr_number \<leftarrow> field_u64 ob ''pr_number'';
     head_sha \<leftarrow> get_str ob ''head_sha'';
     head_tree_sha \<leftarrow> get_str ob ''head_tree_sha'';
     base_sha \<leftarrow> get_str ob ''base_sha'';
     patch_digest \<leftarrow> get_str ob ''patch_digest'';
     merge_tree_sha \<leftarrow> get_str ob ''merge_tree_sha'';
     ci_status \<leftarrow> get_str ob ''ci_status'';
     readiness_receipt_digest \<leftarrow> get_str ob ''readiness_receipt_digest'';
     lineage_proof_digest \<leftarrow> get_str ob ''lineage_proof_digest'';
     lineage_commit_shas \<leftarrow> field_strings ob ''lineage_commit_shas'';
     reviewed_leaf_ids \<leftarrow> field_strings ob ''reviewed_leaf_ids'';
     created_at \<leftarrow> get_str ob ''created_at'';
     supersedes_receipt_id \<leftarrow> field_optional ob ''supersedes_receipt_id'';
     Some \<lparr> pa_receipt_id = receipt_id, pa_policy_mode = policy_mode, pa_parent_run_id = parent_run_id,
       pa_parent_scope_path = parent_scope_path, pa_parent_manifest_scope_id = parent_manifest_scope_id,
       pa_candidate_key = candidate_key, pa_child_run_id = child_run_id,
       pa_child_manifest_node_id = child_manifest_node_id, pa_child_manifest_scope_id = child_manifest_scope_id,
       pa_child_scope_id = child_scope_id, pa_legacy_identity = False, pa_parent_agent_id = parent_agent_id,
       pa_parent_branch = parent_branch, pa_repository_url = repository_url,
       pa_plan_manifest_digest = plan_manifest_digest, pa_plan_manifest_revision = plan_manifest_revision,
       pa_approval_policy_digest = approval_policy_digest, pa_child_manifest_digest = child_manifest_digest,
       pa_pr_number = pr_number, pa_head_sha = head_sha, pa_head_tree_sha = head_tree_sha, pa_base_sha = base_sha,
       pa_patch_digest = patch_digest, pa_merge_tree_sha = merge_tree_sha, pa_ci_status = ci_status,
       pa_readiness_receipt_digest = readiness_receipt_digest, pa_lineage_proof_digest = lineage_proof_digest,
       pa_lineage_commit_shas = lineage_commit_shas, pa_reviewed_leaf_ids = reviewed_leaf_ids,
       pa_created_at = created_at, pa_supersedes_receipt_id = supersedes_receipt_id \<rparr>
   }"

definition validate_receipt :: "(string \<Rightarrow> string) \<Rightarrow> parent_approval_receipt \<Rightarrow> json \<Rightarrow> string + unit" where
  "validate_receipt sha256 r original =
     bindR (ensure (\<not> (list_ex blank
              [pa_receipt_id r, pa_parent_run_id r, pa_parent_agent_id r, pa_parent_branch r, pa_repository_url r,
               pa_plan_manifest_digest r, pa_approval_policy_digest r, pa_child_manifest_digest r, pa_head_sha r,
               pa_head_tree_sha r, pa_base_sha r, pa_patch_digest r, pa_merge_tree_sha r,
               pa_readiness_receipt_digest r, pa_lineage_proof_digest r, pa_created_at r]
          \<or> (\<not> pa_legacy_identity r
              \<and> list_ex (\<lambda>v. case v of Some s \<Rightarrow> blank s | None \<Rightarrow> True)
                  [pa_parent_manifest_scope_id r, Some (pa_candidate_key r), pa_child_run_id r,
                   pa_child_manifest_node_id r, pa_child_manifest_scope_id r])
          \<or> (pa_legacy_identity r \<and> (case pa_child_scope_id r of None \<Rightarrow> True | Some s \<Rightarrow> blank s))))
        ''aggregate approval receipt contains an empty required field'') (\<lambda>_.
     bindR (ensure (\<not> (pa_policy_mode r \<noteq> ''parent''
          \<or> pa_plan_manifest_revision r = 0
          \<or> pa_pr_number r = 0
          \<or> pa_ci_status r \<notin> {''success'', ''neutral''}
          \<or> pa_lineage_commit_shas r = []
          \<or> list_ex (\<lambda>sha. \<not> valid_git_sha sha) (pa_lineage_commit_shas r)
          \<or> \<not> is_sorted_unique (pa_lineage_commit_shas r)
          \<or> list_ex blank (pa_reviewed_leaf_ids r)
          \<or> \<not> is_sorted_unique (pa_reviewed_leaf_ids r)
          \<or> pa_parent_scope_path r = []
          \<or> last (pa_parent_scope_path r) \<noteq> pa_parent_run_id r
          \<or> (\<not> pa_legacy_identity r
              \<and> (pa_child_run_id r \<noteq> Some (pa_candidate_key r)
                  \<or> pa_child_manifest_node_id r \<noteq> pa_child_manifest_scope_id r))))
        ''aggregate approval receipt violates its parent-mode evidence contract'') (\<lambda>_.
     bindR (traverse (\<lambda>(name, sha). ensure (valid_git_sha sha) (''aggregate approval '' @ name @ '' SHA is malformed''))
        [(''head'', pa_head_sha r), (''head tree'', pa_head_tree_sha r), (''base'', pa_base_sha r),
         (''merge tree'', pa_merge_tree_sha r)]) (\<lambda>_.
     bindR (traverse (\<lambda>(name, digest). ensure (valid_sha256 digest) (''aggregate approval '' @ name @ '' digest is malformed''))
        [(''receipt'', pa_receipt_id r), (''plan manifest'', pa_plan_manifest_digest r),
         (''approval policy'', pa_approval_policy_digest r), (''child manifest'', pa_child_manifest_digest r),
         (''patch'', pa_patch_digest r), (''readiness'', pa_readiness_receipt_digest r),
         (''lineage'', pa_lineage_proof_digest r)]) (\<lambda>_.
     bindR (canonical_receipt_id sha256 original) (\<lambda>content_id.
     ensure (value_get_str original ''receipt_id'' = Some content_id)
       ''aggregate approval receipt ID does not match its content'')))))"

definition parse_receipt :: "(string \<Rightarrow> string) \<Rightarrow> json \<Rightarrow> string + parent_approval_receipt" where
  "parse_receipt sha256 v =
     bindR (ok_or ''aggregate approval receipt must be an object'' (as_object v)) (\<lambda>ob.
     let actual = set (map fst ob); legacy = (actual = set legacy_expected_fields) in
     bindR (ensure (actual = set expected_fields \<or> legacy)
        ''aggregate approval receipt has missing or unknown fields'') (\<lambda>_.
     bindR (if legacy
            then bindR (ok_or ''legacy aggregate approval child scope is malformed'' (get_str ob ''child_scope_id''))
                   (\<lambda>scope. Inr (obj_insert ''candidate_key'' (JStr scope) ob))
            else Inr ob) (\<lambda>normalized.
     bindR (ok_or ''aggregate approval receipt fields are malformed'' (receipt_from_value normalized)) (\<lambda>r.
     let receipt = r \<lparr> pa_legacy_identity := legacy \<rparr> in
     bindR (validate_receipt sha256 receipt v) (\<lambda>_. Inr receipt)))))"

section \<open>What a parsed receipt is\<close>

lemma receipt_id_read: "receipt_from_value ob = Some r \<Longrightarrow> get_str ob ''receipt_id'' = Some (pa_receipt_id r)"
  by (auto simp: receipt_from_value_def bind_eq_Some_conv)

lemma parse_receipt_cases:
  assumes "parse_receipt sha256 v = Inr r"
  obtains (current) ob where "v = JObj ob" "map_option (\<lambda>q. q \<lparr> pa_legacy_identity := False \<rparr>) (receipt_from_value ob) = Some r"
      "\<not> pa_legacy_identity r" "validate_receipt sha256 r v = Inr ()"
  | (legacy) ob s where "v = JObj ob"
      "map_option (\<lambda>q. q \<lparr> pa_legacy_identity := True \<rparr>) (receipt_from_value (obj_insert ''candidate_key'' (JStr s) ob)) = Some r"
      "pa_legacy_identity r" "validate_receipt sha256 r v = Inr ()"
proof -
  from assms obtain ob where ob: "v = JObj ob" by (cases v) (auto simp: parse_receipt_def)
  show thesis
  proof (cases "set (map fst ob) = set legacy_expected_fields")
    case True
    with assms ob obtain s q where "receipt_from_value (obj_insert ''candidate_key'' (JStr s) ob) = Some q"
        "r = q \<lparr> pa_legacy_identity := True \<rparr>" "validate_receipt sha256 r v = Inr ()"
      unfolding parse_receipt_def Let_def by (simp del: set_map) blast
    with ob show thesis by (intro legacy [of ob s]) auto
  next
    case False
    with assms ob obtain q where "receipt_from_value ob = Some q"
        "r = q \<lparr> pa_legacy_identity := False \<rparr>" "validate_receipt sha256 r v = Inr ()"
      unfolding parse_receipt_def Let_def by (simp del: set_map) blast
    with ob show thesis by (intro current [of ob]) auto
  qed
qed

text \<open>The identifier of a receipt is the digest of its other fields, the time of creation apart.\<close>

lemma validate_receipt_id:
  assumes "validate_receipt sha256 r (JObj ob) = Inr ()"
  shows "get_str ob ''receipt_id''
    = Some (canonical_digest sha256 (JObj (receipt_identity ob)))"
  using assms by (simp add: validate_receipt_def canonical_receipt_id_def value_get_str_def get_str_def)

lemma parse_receipt_id:
  assumes "parse_receipt sha256 (JObj ob) = Inr r"
  shows "pa_receipt_id r = canonical_digest sha256 (JObj (receipt_identity ob))"
  using assms
proof (cases rule: parse_receipt_cases)
  case (current ob')
  then have "get_str ob ''receipt_id'' = Some (pa_receipt_id r)" by (auto dest: receipt_id_read)
  with current(4) show ?thesis by (simp add: validate_receipt_id)
next
  case (legacy ob' s)
  then have "get_str (obj_insert ''candidate_key'' (JStr s) ob) ''receipt_id'' = Some (pa_receipt_id r)"
    by (auto dest: receipt_id_read)
  then have "get_str ob ''receipt_id'' = Some (pa_receipt_id r)" by (simp add: get_str_def)
  with legacy(4) show ?thesis by (simp add: validate_receipt_id)
qed

lemma parse_receipt_valid: "parse_receipt sha256 v = Inr r \<Longrightarrow> validate_receipt sha256 r v = Inr ()"
  by (erule parse_receipt_cases) auto

lemma is_sorted_unique_iff: "is_sorted_unique xs \<longleftrightarrow> sorted_wrt (<) xs"
  by (induction xs rule: is_sorted_unique.induct) (auto intro: less_trans)

lemma validate_receipt_evidence:
  assumes "validate_receipt sha256 r v = Inr ()"
  shows "pa_policy_mode r = ''parent'' \<and> 0 < pa_pr_number r \<and> pa_ci_status r \<in> {''success'', ''neutral''}
    \<and> pa_lineage_commit_shas r \<noteq> [] \<and> list_all valid_git_sha (pa_lineage_commit_shas r)
    \<and> sorted_wrt (<) (pa_lineage_commit_shas r) \<and> last (pa_parent_scope_path r) = pa_parent_run_id r"
  using assms by (auto simp: validate_receipt_def is_sorted_unique_iff list_all_iff list_ex_iff)

lemma json_wf_remove: "json_wf (JObj ob) \<Longrightarrow> json_wf (JObj (obj_remove k ob))"
  by (auto simp: obj_remove_def AList.delete_eq list_all_iff intro: distinct_map_filter)

lemma receipt_identity_wf: "json_wf (JObj ob) \<Longrightarrow> json_wf (JObj (receipt_identity ob))"
  unfolding receipt_identity_def by (intro json_wf_remove)

text \<open>C17. A receipt that is accepted is in parent mode, names a pull request, a mergeable continuous
  integration status and a non-empty strictly sorted list of commits, and its identifier is the digest of
  its content. If the digest does not collide on the two contents, two accepted receipts have the same
  identifier exactly when their contents are equal, whatever the order of the members: a receipt cannot
  be altered, the time of creation apart, without its identifier changing.
\<close>

theorem receipt_tamper_evident:
  assumes "parse_receipt sha256 (JObj a) = Inr r" and "parse_receipt sha256 (JObj b) = Inr q"
    and "json_wf (JObj a)" and "json_wf (JObj b)"
    and "inj_on sha256 {write_python_canonical_json (JObj (receipt_identity a)), write_python_canonical_json (JObj (receipt_identity b))}"
  shows "pa_receipt_id r = sha256 (write_python_canonical_json (JObj (receipt_identity a)))
    \<and> (pa_receipt_id r = pa_receipt_id q \<longleftrightarrow> json_eq (JObj (receipt_identity a)) (JObj (receipt_identity b)))
    \<and> pa_policy_mode r = ''parent'' \<and> 0 < pa_pr_number r \<and> pa_ci_status r \<in> {''success'', ''neutral''}
    \<and> pa_lineage_commit_shas r \<noteq> [] \<and> list_all valid_git_sha (pa_lineage_commit_shas r)
    \<and> sorted_wrt (<) (pa_lineage_commit_shas r) \<and> last (pa_parent_scope_path r) = pa_parent_run_id r"
proof -
  note id = parse_receipt_id [OF assms(1)] parse_receipt_id [OF assms(2)]
  have "pa_receipt_id r = pa_receipt_id q
      \<longleftrightarrow> write_python_canonical_json (JObj (receipt_identity a)) = write_python_canonical_json (JObj (receipt_identity b))"
    unfolding id canonical_digest_def using assms(5) by (intro inj_on_eq_iff) blast+
  also have "\<dots> \<longleftrightarrow> json_eq (JObj (receipt_identity a)) (JObj (receipt_identity b))"
    using canonical_text_iff receipt_identity_wf assms(3,4) by blast
  finally show ?thesis
    using id(1) validate_receipt_evidence [OF parse_receipt_valid [OF assms(1)]] by (simp add: canonical_digest_def)
qed

definition demo_receipt :: "string \<Rightarrow> json_object" where
  "demo_receipt created =
     (let digest = JStr (replicate 64 (CHR ''a'')); sha = JStr (replicate 40 (CHR ''b'')) in
      [(''receipt_id'', digest), (''policy_mode'', JStr ''parent''), (''parent_run_id'', JStr ''run''),
       (''parent_scope_path'', JArr [JStr ''run'']), (''parent_manifest_scope_id'', JStr ''root''),
       (''candidate_key'', JStr ''child''), (''child_run_id'', JStr ''child''),
       (''child_manifest_node_id'', JStr ''root/sub_tl/child''), (''child_manifest_scope_id'', JStr ''root/sub_tl/child''),
       (''parent_agent_id'', JStr ''tl''), (''parent_branch'', JStr ''main''), (''repository_url'', JStr ''https://f.example/o/r''),
       (''plan_manifest_digest'', digest), (''plan_manifest_revision'', JInt 1), (''approval_policy_digest'', digest),
       (''child_manifest_digest'', digest), (''pr_number'', JInt 7), (''head_sha'', sha), (''head_tree_sha'', sha),
       (''base_sha'', sha), (''patch_digest'', digest), (''merge_tree_sha'', sha), (''ci_status'', JStr ''success''),
       (''readiness_receipt_digest'', digest), (''lineage_proof_digest'', digest), (''lineage_commit_shas'', JArr [sha]),
       (''reviewed_leaf_ids'', JArr []), (''created_at'', JStr created), (''supersedes_receipt_id'', JNull)])"

lemma demo_receipt_parses: "is_ok (parse_receipt (\<lambda>t. replicate 64 (CHR ''a'')) (JObj (demo_receipt ''t1'')))"
    "is_ok (parse_receipt (\<lambda>t. replicate 64 (CHR ''a'')) (JObj (demo_receipt ''t2'')))"
  by code_simp+

lemma demo_receipt_wf: "json_wf (JObj (demo_receipt ''t1''))" "json_wf (JObj (demo_receipt ''t2''))"
  by code_simp+

lemma demo_receipt_same: "receipt_identity (demo_receipt ''t1'') = receipt_identity (demo_receipt ''t2'')"
  by code_simp

theorem receipt_tamper_evident_witness:
  "\<exists>r q. parse_receipt (\<lambda>t. replicate 64 (CHR ''a'')) (JObj (demo_receipt ''t1'')) = Inr r
     \<and> parse_receipt (\<lambda>t. replicate 64 (CHR ''a'')) (JObj (demo_receipt ''t2'')) = Inr q
     \<and> (pa_receipt_id r = pa_receipt_id q
         \<longleftrightarrow> json_eq (JObj (receipt_identity (demo_receipt ''t1''))) (JObj (receipt_identity (demo_receipt ''t2''))))
     \<and> 0 < pa_pr_number r"
proof -
  obtain r q where "parse_receipt (\<lambda>t. replicate 64 (CHR ''a'')) (JObj (demo_receipt ''t1'')) = Inr r"
      "parse_receipt (\<lambda>t. replicate 64 (CHR ''a'')) (JObj (demo_receipt ''t2'')) = Inr q"
    using demo_receipt_parses unfolding is_ok_iff by blast
  with receipt_tamper_evident [OF this demo_receipt_wf] show ?thesis unfolding demo_receipt_same by auto
qed

end
