(* ===== verification/Spec2Isabelle.thy ===== *)
theory Spec2Isabelle
  imports Guidance_Acceptance Topic_Vocabulary Inbox_Run Agent_Inbox_Rebuild
    Mutex_Properties Event_Queue Resilience Pr_Registry_Properties Cleanup_Properties
    Ledger_Properties Expected_Properties Retention_Properties Git_Lock_Demo
    Repo_Identity Aggregate_Receipt
begin

text \<open>
  \<^bold>\<open>ExoMonad: a verification library.\<close>

  ExoMonad coordinates coding agents: a server (\<^verbatim>\<open>rust/exomonad-core\<close>, \<^verbatim>\<open>rust/exomonad\<close>) spawns
  agents in git worktrees and terminal panes, routes messages between them and records what happens.
  This library models the services under \<^verbatim>\<open>src/rust/exomonad-core/src/services\<close> that carry the
  program's own decisions and state, and proves what they promise to the rest.

  \<^bold>\<open>Parts and how they interact.\<close> A message for an agent is written to the inbox store and, as a batch of
  guidance, to the durable guidance queue; both are tables of one SQLite database. Hooks and adapters of the
  agent's runtime claim batches at safe boundaries, record transport attempts and acknowledge with evidence;
  expired leases are recovered. Every change is mirrored as an event, from which the queue can be rebuilt, and compared with the
  legacy message by the shadow comparison. Events of all processes go to an append-only ledger of numbered segment files,
  against which the contract of expected events is reconciled and whose old segments retention removes. A process that injects into
  a pane first rebuilds its transport cache from the durable queue and serialises the injections. Pull
  requests filed by agents are recorded in the publication registry, which decides who may act for them after a restart; the merge of an aggregate needs a receipt of
  its parent's approval, identified by the digest of its canonical text and bound to the canonical address of the repository. Agents that
  share a resource take named locks from the mutex registry, wait for events in the event
  queue, and remote calls are retried by the resilience helpers. What dead agents leave behind, their worktrees, branches,
  directories, registrations and hook trust, is removed by the verified cleanup: a plan inspects every resource and decides, and an
  apply revalidates and disposes of the cleanable ones under a receipt that is journalled on disk. Processes that change a repository take
  cooperative leases on its references and its index; a managed git process that holds the index lock is recorded in the
  ledger, and a lock it left behind when it died is moved to a quarantine on that evidence.

  \<^bold>\<open>Theories.\<close>
  \<^item> \<open>Prelude\<close>, \<open>Str_Ops\<close>, \<open>Json\<close>, \<open>Paths\<close>: results with errors as values, machine integers, Rust strings as byte lists
    with the operations the code uses, SQL statements on lists of rows, reachability with the locale
    \<open>inductive_invariant\<close>, \<^verbatim>\<open>serde_json\<close> values, and paths as lists of components.
  \<^item> \<open>Guidance_Types\<close>, \<open>Guidance_Queue\<close>, \<open>Guidance_Ops\<close>: \<^verbatim>\<open>guidance_adapters.rs\<close> and
    \<^verbatim>\<open>guidance_queue.rs\<close>. The database is the record \<open>db\<close> of four tables; one definition per call, which returns
    its result, the database after its transaction and the events it mirrors.
  \<^item> \<open>Guidance_Invariant\<close>, \<open>Guidance_Preservation\<close>, \<open>Guidance_System\<close>: the invariant of the tables, its preservation by every call
    and the queue as a state machine of its own calls; \<open>Inbox_Run\<close> adds the calls of the store that touch the same tables.
  \<^item> \<open>Guidance_Replay\<close>, \<open>Guidance_Refinement\<close>: \<^verbatim>\<open>guidance_replay.rs\<close> and the refinement of the database by
    the replayed ledger.
  \<^item> \<open>Guidance_Properties\<close>, \<open>Guidance_Delivery\<close>, \<open>Guidance_Acceptance\<close>: what clients rely on (C1 to C5, C7, C9, C11, C12, C14): single
    flight, order and progress of claims, evidence for acceptance, the retry budget, durability, retried
    calls, recovery.
  \<^item> \<open>Guidance_Shadow\<close>: \<^verbatim>\<open>guidance_shadow.rs\<close> and the compatible enqueue.
  \<^item> \<open>Topic_Vocabulary\<close>: \<^verbatim>\<open>topic_vocabulary.rs\<close>, parsing and printing of topics (C16).
  \<^item> \<open>Inbox_Store\<close>, \<open>Inbox_Properties\<close>, \<open>Inbox_Run\<close>: \<^verbatim>\<open>inbox_store.rs\<close>, the poke schedule (C19), the data
    migration, and the runs of all calls that write to the shared database, with the compatible enqueue, the migration at
    opening and clearing among them, on which messages are read exactly once (C18).
  \<^item> \<open>Sink_Paths\<close>, \<open>Agent_Inbox\<close>, \<open>Agent_Inbox_Invariant\<close>, \<open>Agent_Inbox_Properties\<close>, \<open>Agent_Inbox_Rebuild\<close>:
    \<^verbatim>\<open>sink_paths.rs\<close> and \<^verbatim>\<open>agent_inbox.rs\<close>, the transport cache and its reconstruction (C23, C24, C26).
  \<^item> \<open>Mutex_Registry\<close>, \<open>Mutex_Properties\<close>: \<^verbatim>\<open>mutex_registry.rs\<close> as interleaved critical sections (C27, C28).
  \<^item> \<open>Resilience\<close>: \<^verbatim>\<open>resilience.rs\<close> (C29).
  \<^item> \<open>Event_Queue\<close>: \<^verbatim>\<open>event_queue.rs\<close>, cursors until the \<^verbatim>\<open>u64\<close> counter of identifiers wraps, and what the wrap does (C31).
  \<^item> \<open>Pr_Publication\<close>, \<open>Pr_Registry\<close>, \<open>Pr_Registry_Invariant\<close>, \<open>Pr_Registry_Preservation\<close>,
    \<open>Pr_Registry_Properties\<close>: the publication registry of \<^verbatim>\<open>pr_registry.rs\<close> with its file format (C32, C33, C35, C36).
  \<^item> \<open>Cleanup_Types\<close>, \<open>Cleanup_World\<close>, \<open>Cleanup_Decision\<close>: the requests, candidates and receipts of
    \<^verbatim>\<open>cleanup/types.rs\<close>, the questions put to git, the file system and the forge (\<^verbatim>\<open>cleanup/support.rs\<close>), and the
    inspection with its decisions (\<^verbatim>\<open>cleanup/inspection_*.rs\<close>, \<^verbatim>\<open>cleanup/decision.rs\<close>).
  \<^item> \<open>Cleanup_Receipts\<close>, \<open>Cleanup_Validation\<close>: receipts, their resumption and the plan (\<^verbatim>\<open>cleanup/receipts.rs\<close>,
    \<^verbatim>\<open>cleanup/receipt_support.rs\<close>, \<^verbatim>\<open>cleanup/service.rs\<close>), and the revalidation before anything is removed
    (\<^verbatim>\<open>cleanup/candidate.rs\<close>, \<^verbatim>\<open>cleanup/branch_*.rs\<close>, \<^verbatim>\<open>cleanup/recovery.rs\<close>).
  \<^item> \<open>Cleanup_Execution\<close>, \<open>Cleanup_Actions\<close>: the apply (\<^verbatim>\<open>cleanup/execution.rs\<close>, \<^verbatim>\<open>cleanup/actions.rs\<close>); a run is the receipt in
    memory, the trace of its effects and a clock, and the world is a function \<open>ws\<close> of that clock, so that it may
    change between any two questions.
  \<^item> \<open>Cleanup_Journal\<close>, \<open>Cleanup_Steps\<close>, \<open>Cleanup_Discipline\<close>, \<open>Cleanup_Safety\<close>, \<open>Cleanup_Demo\<close>,
    \<open>Cleanup_Properties\<close>: the journal discipline step by step, the soundness of decisions, a concrete run, and what
    cleanup promises (C38 to C40).

  \<^item> \<open>Ledger_Segments\<close>, \<open>Ledger_Append\<close>, \<open>Ledger_Events\<close>, \<open>Ledger_Replay\<close>: \<^verbatim>\<open>immutable_ledger.rs\<close>, the
    segment files as bytes with appends that may fail at any point, the specification of the ledger as a list of
    segments of which only the last grows (locale \<open>append_only\<close>), and the replay of events.
  \<^item> \<open>Event_Log\<close>, \<open>Event_Sequence\<close>, \<open>Ledger_Properties\<close>: \<^verbatim>\<open>event_log.rs\<close> and \<^verbatim>\<open>sink_health.rs\<close>, the run
    sequence over processes that fail, die and tear writes, and what the ledger promises (C10, C20, C25); that it reads is
    promised only as long as no write was torn, and what was recorded before a torn write stays on disk.
  \<^item> \<open>Expected_Events\<close>, \<open>Expected_Properties\<close>: \<^verbatim>\<open>expected_events.rs\<close> with its contract, the matching of
    required events against counting by keys (C13, C30).
  \<^item> \<open>Ledger_Retention\<close>, \<open>Retention_Properties\<close>: \<^verbatim>\<open>ledger_retention.rs\<close>, the audited removal of closed
    segments by one process, also when an audit write is torn (C37).

  \<^item> \<open>Git_World\<close>, \<open>Git_Mutation\<close>, \<open>Git_Recovery_Ledger\<close>, \<open>Git_Lock_Owner\<close>, \<open>Git_Lock_Recovery\<close>: \<^verbatim>\<open>git_mutation.rs\<close>,
    \<^verbatim>\<open>git_recovery_ledger.rs\<close>, \<^verbatim>\<open>git_lock_owner.rs\<close>, \<^verbatim>\<open>git_lock_recovery.rs\<close>. Each operation is a program of the state
    monad over a clock and a trace of effects; what the file system, git, the process table and the ledger answer is a function of
    the clock, so that every system call may find another world. The reader of recovery events is related to the ledger's own replay.
  \<^item> \<open>Git_Lock_Steps\<close>, \<open>Git_Lock_Evidence\<close>, \<open>Git_Lock_Safety\<close>, \<open>Git_Lock_Receipts\<close>, \<open>Git_Leases\<close>,
    \<open>Git_Lock_Properties\<close>, \<open>Git_Lock_Demo\<close>: a calculus for the effects of these programs, what their answers prove of the
    world at which moment, and what the services promise (C6, C8, C21, C34): proofs of ownership are true and recognised, a lock is moved only on
    evidence, leases are taken in one order and given up as a whole, a reported recovery is on record; and a run that recovers a lock.

  \<^item> \<open>Utf8\<close>, \<open>Canonical_Json\<close>, \<open>Aggregate_Receipt\<close>: strings as characters, the canonical JSON text and the receipts of parent
    approvals in \<^verbatim>\<open>handlers/merge_pr/aggregate_approval/receipt.rs\<close>. The text determines the value (C15), and an accepted receipt is
    identified by its content (C17).
  \<^item> \<open>Ipv6\<close>, \<open>Repo_Identity\<close>: the canonical repository addresses of \<^verbatim>\<open>repo.rs\<close>, which are fixed points without credentials
    (C22); addresses of IPv6 hosts are parsed and printed as \<^verbatim>\<open>std::net\<close> does, and printing is read back.

  \<^bold>\<open>Conventions.\<close> Clock readings, UUIDs, channel numbers and answers of git, the file system and the forge are arguments. A call that runs in one
  SQLite transaction or under one lock is one step; where the code takes several locks in turn the
  machines step from one critical section to the next. Loops are functions with a termination proof; the two
  polling loops of the git lock services, which end only because time passes, are partial functions, and that they
  return when the clock advances is part of C8 and C21. No fuel is used. \<^verbatim>\<open>i64\<close> and \<^verbatim>\<open>u64\<close> arithmetic that can saturate or wrap is written out.

  \<^bold>\<open>Not modelled.\<close> Processes, terminals, git and HTTP (agent control, tmux, runtime adapters, forges), the
  watchers and handlers that only connect the services to them, the command line program, the WebAssembly host and
  guest, generated protocol code, and failures of SQLite. Of cleanup the listing of directories (\<^verbatim>\<open>discover_resources\<close>), the ledger evidence of
  \<^verbatim>\<open>recover_residual_resource\<close>, failures to read receipts, the lock between applies and the editing of the Codex trust
  file are left out. Of the remaining services with decisions of their own the comparison of approval receipts with checkpoints and manifests, the recovery of locks without a
  proof (\<^verbatim>\<open>git_legacy_lock.rs\<close>), the lineage of aggregates and the continuation renderer are not modelled. Of the git lock services the
  variants for other platforms, the environment variable \<^verbatim>\<open>GIT_INDEX_FILE\<close> and the drop of leases at the end of their
  scope are left out.
\<close>

end
